(* ===== verification/Prelude.thy ===== *)
theory Prelude
  imports Complex_Main "HOL-Library.AList" "HOL-Library.Sublist"
begin

text \<open>
  Shared vocabulary of the development: the types that stand for Python values, the generic
  machine locales that lift one-step facts to whole runs, and lemmas on lists and on
  insertion-ordered dictionaries.

  Conventions. A finite Python \<open>float\<close> is a rational number, so it is modelled by \<^typ>\<open>rat\<close>:
  comparisons are exact and arithmetic is exact rational arithmetic (rounding of the last bit
  and the special values nan and inf are not modelled). A Python \<open>int\<close> is an \<^typ>\<open>int\<close>. A
  reading of the clock (\<open>time.time()\<close>, \<open>datetime.utcnow()\<close>) is an argument of the operation that
  makes it, in seconds. A Python \<open>dict\<close> whose order is observable is an association list updated
  with \<^const>\<open>AList.update\<close>, which overwrites in place and appends new keys at the end exactly as
  Python does. An exception is the left side of a sum.
\<close>

type_synonym instant = rat
type_synonym ('k, 'v) dict = "('k \<times> 'v) list"

named_theorems machine_defs \<open>definitions of the operations a run of a component is made of\<close>
named_theorems inv_defs \<open>definitions of component invariants\<close>


section \<open>Machines: from one step to every run\<close>

text \<open>
  A component is an object with operations; an event names an operation with its arguments and
  clock readings. \<open>fold step es s\<close> is the object after the operations \<open>es\<close>.
\<close>

locale step_machine =
  fixes step :: "'e \<Rightarrow> 's \<Rightarrow> 's"
    and inv :: "'s \<Rightarrow> bool"
  assumes step_keeps: "inv s \<Longrightarrow> inv (step e s)"
begin

lemma run_keeps: "inv s \<Longrightarrow> inv (fold step es s)"
  by (induction es arbitrary: s) (simp_all add: step_keeps)

lemma run_prefix_keeps: "inv s \<Longrightarrow> inv (fold step (take n es) s)"
  by (rule run_keeps)

end

text \<open>
  An operation that raises before it writes leaves the object as it was: \<open>attempt\<close> is the state
  after a call whose exception the caller swallows.
\<close>

definition attempt :: "('e \<Rightarrow> 's \<Rightarrow> 'x + 's) \<Rightarrow> 'e \<Rightarrow> 's \<Rightarrow> 's" where
  "attempt f e s = (case f e s of Inl _ \<Rightarrow> s | Inr s' \<Rightarrow> s')"

locale guarded_machine =
  fixes gstep :: "'e \<Rightarrow> 's \<Rightarrow> 'x + 's"
    and ginv :: "'s \<Rightarrow> bool"
  assumes gstep_keeps: "ginv s \<Longrightarrow> gstep e s = Inr s' \<Longrightarrow> ginv s'"

sublocale guarded_machine \<subseteq> gm: step_machine "attempt gstep" ginv
  by unfold_locales (auto simp: attempt_def intro: gstep_keeps split: sum.splits)

text \<open>A quantity no step lowers is not lowered by a run.\<close>

locale monotone_machine =
  fixes mstep :: "'e \<Rightarrow> 's \<Rightarrow> 's"
    and gauge :: "'s \<Rightarrow> 'o::preorder"
  assumes mstep_mono: "gauge s \<le> gauge (mstep e s)"
begin

lemma run_mono: "gauge s \<le> gauge (fold mstep es s)"
  by (induction es arbitrary: s) (auto intro: order_trans mstep_mono)

end


section \<open>Scores cut into bands\<close>

text \<open>
  A classifier cuts a score into ranked levels; a higher score never gets a lower rank. What a
  client may conclude from two levels is proved once here.
\<close>

locale banding =
  fixes band :: "rat \<Rightarrow> 'b" and rank :: "'b \<Rightarrow> nat"
  assumes band_mono: "x \<le> y \<Longrightarrow> rank (band x) \<le> rank (band y)"
    and rank_inj: "rank a = rank b \<Longrightarrow> a = b"
begin

lemma rank_less_score: "rank (band x) < rank (band y) \<Longrightarrow> x < y"
  using band_mono [of y x] by (cases "x < y") (auto simp: not_less)

lemma band_between:
  assumes "band x = b" "band y = b" "x \<le> z" "z \<le> y"
  shows "band z = b"
  using band_mono [OF assms(3)] band_mono [OF assms(4)] assms(1,2) rank_inj [of "band z" b] by auto

end


section \<open>Insertion-ordered dictionaries\<close>

definition dict_get :: "('k, 'v) dict \<Rightarrow> 'k \<Rightarrow> 'v option" where
  "dict_get d k = map_of d k"

definition dict_set :: "'k \<Rightarrow> 'v \<Rightarrow> ('k, 'v) dict \<Rightarrow> ('k, 'v) dict" where
  "dict_set k v d = AList.update k v d"

definition dict_pop :: "'k \<Rightarrow> ('k, 'v) dict \<Rightarrow> ('k, 'v) dict" where
  "dict_pop k d = AList.delete k d"

definition dict_keys :: "('k, 'v) dict \<Rightarrow> 'k list" where
  "dict_keys d = map fst d"

definition dict_wf :: "('k, 'v) dict \<Rightarrow> bool" where
  "dict_wf d \<longleftrightarrow> distinct (map fst d)"

lemma dict_get_empty [simp]: "dict_get [] k = None"
  by (simp add: dict_get_def)

lemma dict_get_set [simp]:
  "dict_get (dict_set k v d) k' = (if k' = k then Some v else dict_get d k')"
  by (simp add: dict_get_def dict_set_def update_conv')

lemma dict_get_pop [simp]:
  "dict_get (dict_pop k d) k' = (if k' = k then None else dict_get d k')"
  by (simp add: dict_get_def dict_pop_def delete_conv')

lemma dict_wf_empty [simp, intro]: "dict_wf []"
  by (simp add: dict_wf_def)

lemma dict_wf_set [simp, intro]: "dict_wf d \<Longrightarrow> dict_wf (dict_set k v d)"
  by (simp add: dict_wf_def dict_set_def distinct_update)

lemma dict_wf_pop [simp, intro]: "dict_wf d \<Longrightarrow> dict_wf (dict_pop k d)"
  by (simp add: dict_wf_def dict_pop_def distinct_delete)

lemma dict_get_in: "dict_get d k = Some v \<Longrightarrow> (k, v) \<in> set d"
  by (simp add: dict_get_def map_of_SomeD)

lemma dict_get_wf: "dict_wf d \<Longrightarrow> (k, v) \<in> set d \<longleftrightarrow> dict_get d k = Some v"
  by (simp add: dict_wf_def dict_get_def)

lemma set_dict_set: "set (dict_set k v d) \<subseteq> insert (k, v) (set d)"
  by (induction d) (auto simp: dict_set_def)

lemma set_dict_pop: "set (dict_pop k d) \<subseteq> set d"
  by (induction d) (auto simp: dict_pop_def)

lemma dict_get_None_iff: "dict_get d k = None \<longleftrightarrow> k \<notin> fst ` set d"
  by (simp add: dict_get_def map_of_eq_None_iff)

lemma dict_pop_absent: "dict_get d k = None \<Longrightarrow> dict_pop k d = d"
  by (simp add: dict_get_def dict_pop_def delete_idem map_of_eq_None_iff)


section \<open>The last elements of a list\<close>

text \<open>\<open>xs[-n:]\<close> for a positive \<open>n\<close>: the whole list when it is shorter.\<close>

definition take_last :: "nat \<Rightarrow> 'a list \<Rightarrow> 'a list" where
  "take_last n xs = drop (length xs - n) xs"

lemma length_take_last [simp]: "length (take_last n xs) = min n (length xs)"
  by (simp add: take_last_def)

lemma take_last_all [simp]: "length xs \<le> n \<Longrightarrow> take_last n xs = xs"
  by (simp add: take_last_def)

lemma suffix_take_last: "suffix (take_last n xs) xs"
  by (simp add: take_last_def suffix_drop)

lemma set_take_last: "set (take_last n xs) \<subseteq> set xs"
  by (simp add: take_last_def set_drop_subset)

lemma take_last_snoc: "take_last (Suc n) (xs @ [x]) = take_last n xs @ [x]"
  by (simp add: take_last_def)

lemma take_last_take_last: "take_last n (take_last n xs) = take_last n xs"
  by simp

text \<open>Trimming after every append keeps the last \<open>n\<close> of everything ever appended.\<close>

definition push_bounded :: "nat \<Rightarrow> 'a \<Rightarrow> 'a list \<Rightarrow> 'a list" where
  "push_bounded n x xs = (let ys = xs @ [x] in if n < length ys then take_last n ys else ys)"

lemma push_bounded_eq: "push_bounded n x xs = take_last n (xs @ [x])"
  by (simp add: push_bounded_def Let_def)

lemma take_last_append_take_last: "take_last n (take_last n xs @ [x]) = take_last n (xs @ [x])"
proof (cases n)
  case 0
  then show ?thesis by (simp add: take_last_def)
next
  case (Suc m)
  show ?thesis
  proof (cases "length xs \<le> Suc m")
    case True
    with Suc show ?thesis by simp
  next
    case False
    then have "length xs - (length xs - Suc m + m) + (length xs - Suc m) = length xs - m"
      by simp
    with Suc show ?thesis by (simp add: take_last_def)
  qed
qed

lemma fold_push_bounded:
  "fold (push_bounded n) ys (take_last n xs) = take_last n (xs @ ys)"
proof (induction ys arbitrary: xs)
  case Nil
  then show ?case by simp
next
  case (Cons y ys)
  have "fold (push_bounded n) (y # ys) (take_last n xs)
        = fold (push_bounded n) ys (take_last n (xs @ [y]))"
    by (simp add: push_bounded_eq take_last_append_take_last)
  with Cons [of "xs @ [y]"] show ?case by simp
qed

end
