(* ===== verification/CircuitBreaker.thy ===== *)
theory CircuitBreaker
  imports Prelude
begin

text \<open>
  The three-state circuit breaker of \<open>services/voice-switch/circuit_breaker.py\<close>.

  \<open>call\<close> is split where the code can be suspended: \<open>call_begin\<close> is everything before the
  protected function is awaited (no code that holds the lock is ever suspended, so the lock never
  blocks and this part is one atomic step), \<open>call_end\<close> everything after it. \<open>cb_call\<close> composes the
  two for a call during which no other call runs; \<open>cb_step\<close> interleaves any number of calls.
  Every reading of \<open>time.time()\<close> is an argument, one per reading.
\<close>

section \<open>Data\<close>

datatype circuit_state = CLOSED | OPEN | HALF_OPEN

fun circuit_value :: "circuit_state \<Rightarrow> string" where
  "circuit_value CLOSED = ''closed''"
| "circuit_value OPEN = ''open''"
| "circuit_value HALF_OPEN = ''half_open''"

text \<open>
  \<open>'x\<close> is the type of exceptions and \<open>'r\<close> that of results; \<open>expected_exception\<close> is the test
  \<open>isinstance(e, expected_exception)\<close>. The fallback maps the call's arguments to its outcome.
\<close>

record ('a, 'x, 'r) breaker_config =
  failure_threshold :: int
  success_threshold :: int
  cb_timeout :: rat
  half_open_max_calls :: int
  expected_exception :: "'x \<Rightarrow> bool"
  fallback_function :: "('a \<Rightarrow> 'x + 'r) option"

text \<open>The defaults; \<open>is_exception\<close> is the test \<open>isinstance(e, Exception)\<close>.\<close>

definition default_config :: "('x \<Rightarrow> bool) \<Rightarrow> ('a, 'x, 'r) breaker_config" where
  "default_config is_exception = \<lparr>failure_threshold = 5, success_threshold = 2, cb_timeout = 30,
     half_open_max_calls = 3, expected_exception = is_exception, fallback_function = None\<rparr>"

record breaker_metrics =
  total_requests :: int
  successful_requests :: int
  failed_requests :: int
  rejected_requests :: int
  state_transitions :: "(string, int) dict"
  m_last_failure_time :: "instant option"
  m_last_success_time :: "instant option"
  m_current_state :: circuit_state

definition new_metrics :: breaker_metrics where
  "new_metrics = \<lparr>total_requests = 0, successful_requests = 0, failed_requests = 0,
     rejected_requests = 0,
     state_transitions = [(''closed_to_open'', 0), (''open_to_half_open'', 0),
       (''half_open_to_closed'', 0), (''half_open_to_open'', 0)],
     m_last_failure_time = None, m_last_success_time = None, m_current_state = CLOSED\<rparr>"

record ('a, 'x, 'r) breaker =
  cb_name :: string
  cb_config :: "('a, 'x, 'r) breaker_config"
  cb_metrics :: breaker_metrics
  cb_state :: circuit_state
  failure_count :: int
  success_count :: int
  last_failure_time :: "instant option"
  half_open_calls :: int

definition new_breaker :: "string \<Rightarrow> ('a, 'x, 'r) breaker_config \<Rightarrow> ('a, 'x, 'r) breaker" where
  "new_breaker n cfg = \<lparr>cb_name = n, cb_config = cfg, cb_metrics = new_metrics, cb_state = CLOSED,
     failure_count = 0, success_count = 0, last_failure_time = None, half_open_calls = 0\<rparr>"


section \<open>Operations\<close>

definition transition_key :: "circuit_state \<Rightarrow> circuit_state \<Rightarrow> string" where
  "transition_key old new = circuit_value old @ ''_to_'' @ circuit_value new"

definition count_transition :: "circuit_state \<Rightarrow> circuit_state \<Rightarrow> (string, int) dict \<Rightarrow> (string, int) dict"
  where
  "count_transition old new d =
     (let key = transition_key old new
      in case dict_get d key of None \<Rightarrow> d | Some n \<Rightarrow> dict_set key (n + 1) d)"

definition transition_to :: "circuit_state \<Rightarrow> ('a, 'x, 'r) breaker \<Rightarrow> ('a, 'x, 'r) breaker" where
  "transition_to new b =
     (let old = cb_state b in
      if old = new then b
      else let b1 = b\<lparr>cb_state := new,
                      cb_metrics := (cb_metrics b)\<lparr>m_current_state := new,
                        state_transitions := count_transition old new (state_transitions (cb_metrics b))\<rparr>\<rparr>
           in case new of
                CLOSED \<Rightarrow> b1\<lparr>failure_count := 0, success_count := 0, half_open_calls := 0\<rparr>
              | HALF_OPEN \<Rightarrow> b1\<lparr>half_open_calls := 0, success_count := 0\<rparr>
              | OPEN \<Rightarrow> b1)"

definition on_success :: "instant \<Rightarrow> ('a, 'x, 'r) breaker \<Rightarrow> ('a, 'x, 'r) breaker" where
  "on_success t b =
     (let m = cb_metrics b;
          b1 = b\<lparr>cb_metrics := m\<lparr>total_requests := total_requests m + 1,
                   successful_requests := successful_requests m + 1,
                   m_last_success_time := Some t\<rparr>\<rparr>
      in case cb_state b1 of
           HALF_OPEN \<Rightarrow>
             let b2 = b1\<lparr>success_count := success_count b1 + 1\<rparr>
             in if success_count b2 \<ge> success_threshold (cb_config b2) then transition_to CLOSED b2 else b2
         | CLOSED \<Rightarrow> b1\<lparr>failure_count := 0\<rparr>
         | OPEN \<Rightarrow> b1)"

definition on_failure :: "instant \<Rightarrow> instant \<Rightarrow> ('a, 'x, 'r) breaker \<Rightarrow> ('a, 'x, 'r) breaker" where
  "on_failure t1 t2 b =
     (let m = cb_metrics b;
          b1 = b\<lparr>cb_metrics := m\<lparr>total_requests := total_requests m + 1,
                   failed_requests := failed_requests m + 1,
                   m_last_failure_time := Some t1\<rparr>,
                 last_failure_time := Some t2\<rparr>
      in case cb_state b1 of
           HALF_OPEN \<Rightarrow> transition_to OPEN b1
         | CLOSED \<Rightarrow>
             let b2 = b1\<lparr>failure_count := failure_count b1 + 1\<rparr>
             in if failure_count b2 \<ge> failure_threshold (cb_config b2) then transition_to OPEN b2 else b2
         | OPEN \<Rightarrow> b1)"

definition check_and_transition_from_open :: "instant \<Rightarrow> ('a, 'x, 'r) breaker \<Rightarrow> ('a, 'x, 'r) breaker"
  where
  "check_and_transition_from_open t b =
     (if cb_state b \<noteq> OPEN then b
      else case last_failure_time b of
             None \<Rightarrow> b
           | Some t0 \<Rightarrow> if t - t0 \<ge> cb_timeout (cb_config b) then transition_to HALF_OPEN b else b)"

text \<open>
  What the first half of \<open>call\<close> decides: run the protected function, return the fallback's outcome,
  or raise \<open>CircuitBreakerOpenError\<close> with its \<open>retry_after\<close>. A last failure time of \<open>0.0\<close> is falsy,
  so \<open>retry_after\<close> stays 0 then.
\<close>

datatype ('x, 'r) admission = Admitted | Fell_back "'x + 'r" | Rejected rat

definition count_rejected :: "('a, 'x, 'r) breaker \<Rightarrow> ('a, 'x, 'r) breaker" where
  "count_rejected b = b\<lparr>cb_metrics := (cb_metrics b)\<lparr>rejected_requests := rejected_requests (cb_metrics b) + 1\<rparr>\<rparr>"

definition call_begin ::
  "instant \<Rightarrow> instant \<Rightarrow> 'a \<Rightarrow> ('a, 'x, 'r) breaker \<Rightarrow> ('x, 'r) admission \<times> ('a, 'x, 'r) breaker" where
  "call_begin t1 t2 args b0 =
     (let b = check_and_transition_from_open t1 b0 in
      case cb_state b of
        OPEN \<Rightarrow>
          (case fallback_function (cb_config b) of
             Some f \<Rightarrow> (Fell_back (f args), count_rejected b)
           | None \<Rightarrow>
               (Rejected (case last_failure_time b of
                            None \<Rightarrow> 0
                          | Some t0 \<Rightarrow> if t0 = 0 then 0 else max 0 (cb_timeout (cb_config b) - (t2 - t0))),
                count_rejected b))
      | HALF_OPEN \<Rightarrow>
          (if half_open_calls b \<ge> half_open_max_calls (cb_config b) then (Rejected 0, count_rejected b)
           else (Admitted, b\<lparr>half_open_calls := half_open_calls b + 1\<rparr>))
      | CLOSED \<Rightarrow> (Admitted, b))"

definition call_end ::
  "instant \<Rightarrow> instant \<Rightarrow> 'x + 'r \<Rightarrow> ('a, 'x, 'r) breaker \<Rightarrow> ('a, 'x, 'r) breaker" where
  "call_end t1 t2 out b =
     (let b1 = (case out of
                  Inr _ \<Rightarrow> on_success t1 b
                | Inl e \<Rightarrow> if expected_exception (cb_config b) e then on_failure t1 t2 b else b)
      in if cb_state b1 = HALF_OPEN then b1\<lparr>half_open_calls := half_open_calls b1 - 1\<rparr> else b1)"

datatype 'x call_error = CircuitBreakerOpenError string rat | Raised 'x

record clocks =
  t_check :: instant
  t_retry :: instant
  t_metric :: instant
  t_last :: instant

definition cb_call ::
  "clocks \<Rightarrow> ('a \<Rightarrow> 'x + 'r) \<Rightarrow> 'a \<Rightarrow> ('a, 'x, 'r) breaker \<Rightarrow> ('x call_error + 'r) \<times> ('a, 'x, 'r) breaker"
  where
  "cb_call ts func args b =
     (let lift = case_sum (\<lambda>e. Inl (Raised e)) Inr in
      case call_begin (t_check ts) (t_retry ts) args b of
        (Rejected ra, b1) \<Rightarrow> (Inl (CircuitBreakerOpenError (cb_name b1) ra), b1)
      | (Fell_back out, b1) \<Rightarrow> (lift out, b1)
      | (Admitted, b1) \<Rightarrow> (lift (func args), call_end (t_metric ts) (t_last ts) (func args) b1))"

definition cb_reset :: "('a, 'x, 'r) breaker \<Rightarrow> ('a, 'x, 'r) breaker" where
  "cb_reset b = b\<lparr>cb_state := CLOSED, failure_count := 0, success_count := 0,
     last_failure_time := None, half_open_calls := 0, cb_metrics := new_metrics\<rparr>"

record metrics_view =
  mv_name :: string
  mv_state :: string
  mv_total :: int
  mv_successful :: int
  mv_failed :: int
  mv_rejected :: int
  mv_failure_rate :: rat
  mv_transitions :: "(string, int) dict"
  mv_last_failure :: "instant option"
  mv_last_success :: "instant option"

definition cb_get_metrics :: "('a, 'x, 'r) breaker \<Rightarrow> metrics_view" where
  "cb_get_metrics b =
     (let m = cb_metrics b in
      \<lparr>mv_name = cb_name b, mv_state = circuit_value (cb_state b),
       mv_total = total_requests m, mv_successful = successful_requests m,
       mv_failed = failed_requests m, mv_rejected = rejected_requests m,
       mv_failure_rate = (if total_requests m > 0
                          then rat_of_int (failed_requests m) / rat_of_int (total_requests m) else 0),
       mv_transitions = state_transitions m,
       mv_last_failure = m_last_failure_time m, mv_last_success = m_last_success_time m\<rparr>)"

text \<open>The module's registry of breakers, a dictionary by name.\<close>

type_synonym ('a, 'x, 'r) cb_registry = "(string, ('a, 'x, 'r) breaker) dict"

definition register_circuit_breaker ::
  "('a, 'x, 'r) breaker \<Rightarrow> ('a, 'x, 'r) cb_registry \<Rightarrow> ('a, 'x, 'r) cb_registry" where
  "register_circuit_breaker b reg = dict_set (cb_name b) b reg"

definition get_circuit_breaker :: "string \<Rightarrow> ('a, 'x, 'r) cb_registry \<Rightarrow> ('a, 'x, 'r) breaker option" where
  "get_circuit_breaker n reg = dict_get reg n"

definition get_all_metrics :: "('a, 'x, 'r) cb_registry \<Rightarrow> (string, metrics_view) dict" where
  "get_all_metrics reg = map (\<lambda>(n, b). (n, cb_get_metrics b)) reg"



section \<open>Simplification rules for the operations\<close>

lemma transition_to_config [simp]: "cb_config (transition_to s b) = cb_config b"
  by (simp add: transition_to_def Let_def split: circuit_state.split)

lemma transition_to_state [simp]: "cb_state (transition_to s b) = s"
  by (simp add: transition_to_def Let_def split: circuit_state.split)

lemma transition_to_name [simp]: "cb_name (transition_to s b) = cb_name b"
  by (simp add: transition_to_def Let_def split: circuit_state.split)

lemma transition_to_last_failure [simp]: "last_failure_time (transition_to s b) = last_failure_time b"
  by (simp add: transition_to_def Let_def split: circuit_state.split)

lemmas breaker_ops = transition_to_def on_success_def on_failure_def
  check_and_transition_from_open_def count_rejected_def Let_def

lemma on_success_config [simp]: "cb_config (on_success t b) = cb_config b"
  by (simp add: on_success_def Let_def split: circuit_state.split)

lemma on_failure_config [simp]: "cb_config (on_failure t1 t2 b) = cb_config b"
  by (simp add: on_failure_def Let_def split: circuit_state.split)

lemma check_config [simp]: "cb_config (check_and_transition_from_open t b) = cb_config b"
  by (simp add: check_and_transition_from_open_def split: option.split)

lemma call_begin_config: "call_begin t1 t2 a b = (r, b') \<Longrightarrow> cb_config b' = cb_config b"
  by (drule arg_cong [where f = "\<lambda>p. cb_config (snd p)"])
     (auto simp: call_begin_def count_rejected_def Let_def split: circuit_state.splits option.splits if_splits)

lemma call_end_config [simp]: "cb_config (call_end t1 t2 out b) = cb_config b"
  by (auto simp: call_end_def Let_def split: sum.split)


section \<open>The invariant\<close>

text \<open>The counter of one transition, 0 for a transition the dictionary does not list.\<close>

definition transitions :: "('a, 'x, 'r) breaker \<Rightarrow> circuit_state \<Rightarrow> circuit_state \<Rightarrow> int" where
  "transitions b s s' =
     (case dict_get (state_transitions (cb_metrics b)) (transition_key s s') of None \<Rightarrow> 0 | Some n \<Rightarrow> n)"

definition tracked :: "('a, 'x, 'r) breaker \<Rightarrow> bool" where
  "tracked b \<longleftrightarrow> fst ` set (state_transitions (cb_metrics b))
     = {''closed_to_open'', ''open_to_half_open'', ''half_open_to_closed'', ''half_open_to_open''}"

definition requests_add_up :: "('a, 'x, 'r) breaker \<Rightarrow> bool" where [inv_defs]:
  "requests_add_up b \<longleftrightarrow>
     (let m = cb_metrics b in
      total_requests m = successful_requests m + failed_requests m
      \<and> 0 \<le> successful_requests m \<and> 0 \<le> failed_requests m \<and> 0 \<le> rejected_requests m
      \<and> m_current_state m = cb_state b)"

definition gates_hold :: "('a, 'x, 'r) breaker \<Rightarrow> bool" where [inv_defs]:
  "gates_hold b \<longleftrightarrow>
     0 \<le> failure_count b
     \<and> (cb_state b = OPEN \<longrightarrow> last_failure_time b \<noteq> None)
     \<and> (cb_state b = CLOSED \<longrightarrow> failure_count b < max 1 (failure_threshold (cb_config b)))
     \<and> (cb_state b = HALF_OPEN \<longrightarrow>
          0 \<le> success_count b \<and> success_count b < max 1 (success_threshold (cb_config b)))
     \<and> half_open_calls b \<le> max 0 (half_open_max_calls (cb_config b))"

definition flow_balances :: "('a, 'x, 'r) breaker \<Rightarrow> bool" where [inv_defs]:
  "flow_balances b \<longleftrightarrow>
     tracked b
     \<and> transitions b CLOSED OPEN + transitions b HALF_OPEN OPEN - transitions b OPEN HALF_OPEN
         = of_bool (cb_state b = OPEN)
     \<and> transitions b OPEN HALF_OPEN - transitions b HALF_OPEN CLOSED - transitions b HALF_OPEN OPEN
         = of_bool (cb_state b = HALF_OPEN)"

definition cb_inv :: "('a, 'x, 'r) breaker \<Rightarrow> bool" where
  "cb_inv b \<longleftrightarrow> requests_add_up b \<and> gates_hold b \<and> flow_balances b"

lemma transition_key_inject [simp]:
  "transition_key s s' = transition_key u u' \<longleftrightarrow> s = u \<and> s' = u'"
  by (cases s; cases s'; cases u; cases u') (simp_all add: transition_key_def)

text \<open>The only transitions the operations make.\<close>

definition legal :: "circuit_state \<Rightarrow> circuit_state \<Rightarrow> bool" where
  "legal s s' \<longleftrightarrow> (s, s') \<in> {(CLOSED, OPEN), (OPEN, HALF_OPEN), (HALF_OPEN, CLOSED), (HALF_OPEN, OPEN)}"

lemma tracked_iff:
  "tracked b \<longleftrightarrow> fst ` set (state_transitions (cb_metrics b))
     = {transition_key CLOSED OPEN, transition_key OPEN HALF_OPEN,
        transition_key HALF_OPEN CLOSED, transition_key HALF_OPEN OPEN}"
  by (simp add: tracked_def transition_key_def)

lemma tracked_legal:
  "tracked b \<Longrightarrow> legal s s' \<Longrightarrow>
     \<exists>n. dict_get (state_transitions (cb_metrics b)) (transition_key s s') = Some n"
  using dict_get_None_iff [of "state_transitions (cb_metrics b)" "transition_key s s'"]
  by (auto simp: tracked_iff legal_def)

lemma key_set_dict_set: "fst ` set (dict_set k v d) = insert k (fst ` set d)"
  by (induction d) (auto simp: dict_set_def)

lemma transition_to_counts:
  assumes "cb_state b \<noteq> s"
  shows "state_transitions (cb_metrics (transition_to s b))
           = count_transition (cb_state b) s (state_transitions (cb_metrics b))"
  using assms by (cases s) (simp_all add: transition_to_def Let_def)

lemma transitions_transition_to:
  assumes "tracked b" and "legal (cb_state b) s"
  shows "transitions (transition_to s b) u u'
           = transitions b u u' + of_bool (u = cb_state b \<and> u' = s)"
proof -
  have ne: "cb_state b \<noteq> s" using assms(2) by (auto simp: legal_def)
  obtain n where "dict_get (state_transitions (cb_metrics b)) (transition_key (cb_state b) s) = Some n"
    using tracked_legal [OF assms] by blast
  with ne show ?thesis
    by (auto simp: transitions_def transition_to_counts count_transition_def Let_def)
qed

lemma tracked_transition_to:
  assumes "tracked b" and "legal (cb_state b) s"
  shows "tracked (transition_to s b)"
proof -
  have ne: "cb_state b \<noteq> s" using assms(2) by (auto simp: legal_def)
  obtain n where n: "dict_get (state_transitions (cb_metrics b)) (transition_key (cb_state b) s) = Some n"
    using tracked_legal [OF assms] by blast
  then have "transition_key (cb_state b) s \<in> fst ` set (state_transitions (cb_metrics b))"
    by (auto dest!: dict_get_in intro: rev_image_eqI)
  with ne n assms(1) show ?thesis
    by (simp add: tracked_def transition_to_counts count_transition_def key_set_dict_set insert_absorb)
qed

lemma flow_transition_to:
  "flow_balances b \<Longrightarrow> legal (cb_state b) s \<Longrightarrow> flow_balances (transition_to s b)"
  unfolding flow_balances_def
  by (auto simp: transitions_transition_to tracked_transition_to legal_def)

text \<open>Frame rule: whatever keeps the state and the transition counters keeps the balance.\<close>

lemma flow_frame:
  assumes "flow_balances b" and "cb_state b' = cb_state b"
    and "state_transitions (cb_metrics b') = state_transitions (cb_metrics b)"
  shows "flow_balances b'"
  using assms by (simp add: flow_balances_def tracked_def transitions_def)


section \<open>Every operation keeps the invariant\<close>

lemma new_breaker_inv: "cb_inv (new_breaker n cfg)"
  by (simp add: cb_inv_def inv_defs new_breaker_def new_metrics_def Let_def tracked_def
      transitions_def transition_key_def dict_get_def)

lemma reset_inv: "cb_inv (cb_reset b)"
  by (simp add: cb_inv_def inv_defs cb_reset_def new_metrics_def Let_def tracked_def
      transitions_def transition_key_def dict_get_def)

lemma on_success_requests: "requests_add_up b \<Longrightarrow> requests_add_up (on_success t b)"
  by (auto simp: requests_add_up_def breaker_ops split: circuit_state.split)

lemma on_success_gates: "gates_hold b \<Longrightarrow> gates_hold (on_success t b)"
  by (auto simp: gates_hold_def breaker_ops split: circuit_state.split)

lemma on_success_flow: "flow_balances b \<Longrightarrow> flow_balances (on_success t b)"
  by (auto simp: on_success_def Let_def legal_def split: circuit_state.split
      intro!: flow_transition_to intro: flow_frame)

lemma on_failure_requests: "requests_add_up b \<Longrightarrow> requests_add_up (on_failure t1 t2 b)"
  by (auto simp: requests_add_up_def breaker_ops split: circuit_state.split)

lemma on_failure_gates: "gates_hold b \<Longrightarrow> gates_hold (on_failure t1 t2 b)"
  by (auto simp: gates_hold_def breaker_ops split: circuit_state.split)

lemma on_failure_flow: "flow_balances b \<Longrightarrow> flow_balances (on_failure t1 t2 b)"
  by (auto simp: on_failure_def Let_def legal_def split: circuit_state.split
      intro!: flow_transition_to intro: flow_frame)

lemma check_inv: "cb_inv b \<Longrightarrow> cb_inv (check_and_transition_from_open t b)"
  unfolding cb_inv_def check_and_transition_from_open_def
  by (auto simp: legal_def split: option.split intro!: flow_transition_to)
     (auto simp: inv_defs transition_to_def Let_def)

lemma count_rejected_inv: "cb_inv b \<Longrightarrow> cb_inv (count_rejected b)"
  unfolding cb_inv_def
  by (auto intro: flow_frame simp: count_rejected_def) (auto simp: requests_add_up_def gates_hold_def Let_def)

lemma admit_inv:
  assumes "cb_inv b" and "half_open_calls b < half_open_max_calls (cb_config b)"
  shows "cb_inv (b\<lparr>half_open_calls := half_open_calls b + 1\<rparr>)"
  using assms unfolding cb_inv_def
  by (auto intro: flow_frame) (auto simp: requests_add_up_def gates_hold_def Let_def)

lemma release_inv:
  assumes "cb_inv b"
  shows "cb_inv (b\<lparr>half_open_calls := half_open_calls b - 1\<rparr>)"
  using assms unfolding cb_inv_def
  by (auto intro: flow_frame) (auto simp: requests_add_up_def gates_hold_def Let_def)

lemma call_begin_inv: "cb_inv b \<Longrightarrow> call_begin t1 t2 a b = (r, b') \<Longrightarrow> cb_inv b'"
  by (auto simp: call_begin_def Let_def not_le
      split: circuit_state.splits option.splits if_splits
      intro!: count_rejected_inv check_inv admit_inv)

lemma call_end_inv: "cb_inv b \<Longrightarrow> cb_inv (call_end t1 t2 out b)"
  unfolding call_end_def Let_def
  by (auto simp: cb_inv_def on_success_requests on_success_gates on_success_flow
        on_failure_requests on_failure_gates on_failure_flow
      split: sum.split intro!: release_inv [unfolded cb_inv_def])


section \<open>Interleaved calls\<close>

text \<open>
  A configuration is the breaker with the number of admitted calls whose protected function is
  still running. Any caller may begin a call, any running call may finish with any outcome, and
  the breaker may be reset, in any order and at any clock readings.
\<close>

inductive cb_step ::
  "('a, 'x, 'r) breaker \<times> nat \<Rightarrow> ('a, 'x, 'r) breaker \<times> nat \<Rightarrow> bool" where
  begin_admitted: "call_begin t1 t2 a b = (Admitted, b') \<Longrightarrow> cb_step (b, n) (b', Suc n)"
| begin_fallback: "call_begin t1 t2 a b = (Fell_back out, b') \<Longrightarrow> cb_step (b, n) (b', n)"
| begin_rejected: "call_begin t1 t2 a b = (Rejected ra, b') \<Longrightarrow> cb_step (b, n) (b', n)"
| finish: "cb_step (b, Suc n) (call_end t1 t2 out b, n)"
| reset_breaker: "cb_step (b, n) (cb_reset b, n)"

inductive cb_reachable ::
  "string \<Rightarrow> ('a, 'x, 'r) breaker_config \<Rightarrow> ('a, 'x, 'r) breaker \<times> nat \<Rightarrow> bool"
  for nm cfg where
  fresh: "cb_reachable nm cfg (new_breaker nm cfg, 0)"
| stepped: "cb_reachable nm cfg s \<Longrightarrow> cb_step s s' \<Longrightarrow> cb_reachable nm cfg s'"

inductive_cases cb_step_elim: "cb_step (b, n) s'"

lemma cb_step_inv: "cb_step s s' \<Longrightarrow> cb_inv (fst s) \<Longrightarrow> cb_inv (fst s')"
  by (induction rule: cb_step.induct) (auto intro: call_begin_inv call_end_inv reset_inv)

lemma cb_step_config: "cb_step s s' \<Longrightarrow> cb_config (fst s') = cb_config (fst s)"
  by (induction rule: cb_step.induct) (auto dest: call_begin_config simp: cb_reset_def)

lemma reachable_inv: "cb_reachable nm cfg s \<Longrightarrow> cb_inv (fst s)"
  by (induction rule: cb_reachable.induct) (auto intro: new_breaker_inv cb_step_inv)

lemma reachable_config: "cb_reachable nm cfg s \<Longrightarrow> cb_config (fst s) = cfg"
  by (induction rule: cb_reachable.induct) (auto simp: new_breaker_def cb_step_config)

section \<open>The abstract breaker\<close>

text \<open>
  What a caller is promised when calls do not overlap: a closed breaker counts consecutive
  failures, an open one remembers when it last failed, a half-open one counts successes.
\<close>

datatype abstract_breaker = A_closed int | A_open instant | A_half_open int

datatype verdict = Succeeded | Failed | Unexpected

definition verdict_of :: "('x \<Rightarrow> bool) \<Rightarrow> 'x + 'r \<Rightarrow> verdict" where
  "verdict_of expd out = (case out of Inr _ \<Rightarrow> Succeeded | Inl e \<Rightarrow> if expd e then Failed else Unexpected)"

fun abstract_admitted :: "int \<Rightarrow> int \<Rightarrow> instant \<Rightarrow> verdict \<Rightarrow> abstract_breaker \<Rightarrow> abstract_breaker" where
  "abstract_admitted fth sth tf Succeeded (A_closed k) = A_closed 0"
| "abstract_admitted fth sth tf Failed (A_closed k) = (if fth \<le> k + 1 then A_open tf else A_closed (k + 1))"
| "abstract_admitted fth sth tf Succeeded (A_half_open k) = (if sth \<le> k + 1 then A_closed 0 else A_half_open (k + 1))"
| "abstract_admitted fth sth tf Failed (A_half_open k) = A_open tf"
| "abstract_admitted fth sth tf _ a = a"

definition abstract_call ::
  "('a, 'x, 'r) breaker_config \<Rightarrow> instant \<Rightarrow> instant \<Rightarrow> verdict \<Rightarrow> abstract_breaker \<Rightarrow> abstract_breaker" where
  "abstract_call cfg tc tf v a =
     (case a of
        A_open t0 \<Rightarrow> if tc - t0 \<ge> cb_timeout cfg
                     then abstract_admitted (failure_threshold cfg) (success_threshold cfg) tf v (A_half_open 0)
                     else a
      | _ \<Rightarrow> abstract_admitted (failure_threshold cfg) (success_threshold cfg) tf v a)"

definition breaker_abs :: "('a, 'x, 'r) breaker \<Rightarrow> abstract_breaker" where
  "breaker_abs b =
     (case cb_state b of
        CLOSED \<Rightarrow> A_closed (failure_count b)
      | OPEN \<Rightarrow> A_open (case last_failure_time b of None \<Rightarrow> 0 | Some t \<Rightarrow> t)
      | HALF_OPEN \<Rightarrow> A_half_open (success_count b))"

text \<open>Between calls that do not overlap no half-open slot is taken.\<close>

definition quiescent :: "('a, 'x, 'r) breaker \<Rightarrow> bool" where
  "quiescent b \<longleftrightarrow> (cb_state b = OPEN \<longrightarrow> last_failure_time b \<noteq> None)
     \<and> (cb_state b = HALF_OPEN \<longrightarrow> half_open_calls b = 0) \<and> half_open_max_calls (cb_config b) \<ge> 1"

lemma quiescent_new: "half_open_max_calls cfg \<ge> 1 \<Longrightarrow> quiescent (new_breaker nm cfg)"
  by (simp add: quiescent_def new_breaker_def)

lemma cb_call_snd:
  "snd (cb_call ts f a b) =
     (case call_begin (t_check ts) (t_retry ts) a b of
        (Admitted, b1) \<Rightarrow> call_end (t_metric ts) (t_last ts) (f a) b1 | (_, b1) \<Rightarrow> b1)"
  by (simp add: cb_call_def Let_def split: prod.split admission.split)

lemma cb_call_config [simp]: "cb_config (snd (cb_call ts f a b)) = cb_config b"
  using call_begin_config [of "t_check ts" "t_retry ts" a b]
  by (cases "call_begin (t_check ts) (t_retry ts) a b"; cases "fst (call_begin (t_check ts) (t_retry ts) a b)")
     (auto simp: cb_call_snd)

text \<open>The two halves of a call on a quiescent breaker, by the state it is in.\<close>

lemma begin_closed: "cb_state b = CLOSED \<Longrightarrow> call_begin t1 t2 a b = (Admitted, b)"
  by (simp add: call_begin_def check_and_transition_from_open_def)

lemma begin_half_open:
  "cb_state b = HALF_OPEN \<Longrightarrow> half_open_calls b < half_open_max_calls (cb_config b) \<Longrightarrow>
     call_begin t1 t2 a b = (Admitted, b\<lparr>half_open_calls := half_open_calls b + 1\<rparr>)"
  by (simp add: call_begin_def check_and_transition_from_open_def)

lemma begin_open_waiting:
  "cb_state b = OPEN \<Longrightarrow> last_failure_time b = Some t0 \<Longrightarrow> t1 - t0 < cb_timeout (cb_config b) \<Longrightarrow>
     snd (call_begin t1 t2 a b) = count_rejected b \<and> fst (call_begin t1 t2 a b) \<noteq> Admitted"
  by (simp add: call_begin_def check_and_transition_from_open_def split: option.split)

lemma begin_open_elapsed:
  "cb_state b = OPEN \<Longrightarrow> last_failure_time b = Some t0 \<Longrightarrow> t1 - t0 \<ge> cb_timeout (cb_config b) \<Longrightarrow>
   half_open_max_calls (cb_config b) \<ge> 1 \<Longrightarrow>
     call_begin t1 t2 a b = (Admitted, (transition_to HALF_OPEN b)\<lparr>half_open_calls := 1\<rparr>)"
  by (simp add: call_begin_def check_and_transition_from_open_def transition_to_def Let_def)

lemma end_closed:
  assumes "cb_state b = CLOSED" and "half_open_max_calls (cb_config b) \<ge> 1"
  shows "quiescent (call_end t1 t2 out b) \<and> breaker_abs (call_end t1 t2 out b)
    = abstract_admitted (failure_threshold (cb_config b)) (success_threshold (cb_config b)) t2
        (verdict_of (expected_exception (cb_config b)) out) (A_closed (failure_count b))"
  using assms by (cases out)
    (simp_all add: call_end_def quiescent_def breaker_abs_def verdict_of_def on_success_def
      on_failure_def Let_def transition_to_def)

lemma end_half_open:
  assumes "cb_state b = HALF_OPEN" and "half_open_calls b = 1" and "half_open_max_calls (cb_config b) \<ge> 1"
  shows "quiescent (call_end t1 t2 out b) \<and> breaker_abs (call_end t1 t2 out b)
    = abstract_admitted (failure_threshold (cb_config b)) (success_threshold (cb_config b)) t2
        (verdict_of (expected_exception (cb_config b)) out) (A_half_open (success_count b))"
  using assms by (cases out)
    (simp_all add: call_end_def quiescent_def breaker_abs_def verdict_of_def on_success_def
      on_failure_def Let_def transition_to_def)

lemma call_cases:
  assumes q: "quiescent b"
  shows "quiescent (snd (cb_call ts f a b))
    \<and> breaker_abs (snd (cb_call ts f a b))
        = abstract_call (cb_config b) (t_check ts) (t_last ts)
            (verdict_of (expected_exception (cb_config b)) (f a)) (breaker_abs b)"
proof (cases "cb_state b")
  case CLOSED
  with q show ?thesis
    using end_closed [of b "t_metric ts" "t_last ts" "f a"]
    by (simp add: cb_call_snd begin_closed quiescent_def abstract_call_def breaker_abs_def)
next
  case HALF_OPEN
  with q show ?thesis
    using end_half_open [of "b\<lparr>half_open_calls := half_open_calls b + 1\<rparr>" "t_metric ts" "t_last ts" "f a"]
    by (simp add: cb_call_snd begin_half_open quiescent_def abstract_call_def breaker_abs_def)
next
  case OPEN
  with q obtain t0 where t0: "last_failure_time b = Some t0" by (auto simp: quiescent_def)
  show ?thesis
  proof (cases "t_check ts - t0 \<ge> cb_timeout (cb_config b)")
    case True
    have "success_count (transition_to HALF_OPEN b) = 0"
      using OPEN by (simp add: transition_to_def Let_def)
    with True OPEN t0 q show ?thesis
      using end_half_open [of "(transition_to HALF_OPEN b)\<lparr>half_open_calls := 1\<rparr>" "t_metric ts" "t_last ts" "f a"]
      by (simp add: cb_call_snd begin_open_elapsed quiescent_def abstract_call_def breaker_abs_def)
  next
    case False
    then have "snd (cb_call ts f a b) = count_rejected b"
      using begin_open_waiting [OF OPEN t0, of "t_check ts" "t_retry ts" a]
      by (auto simp: cb_call_snd split: prod.split admission.split)
    with False OPEN t0 q show ?thesis
      by (simp add: quiescent_def abstract_call_def breaker_abs_def count_rejected_def)
  qed
qed

lemma call_quiescent: "quiescent b \<Longrightarrow> quiescent (snd (cb_call ts f a b))"
  by (rule call_cases [THEN conjunct1])

lemma call_refines:
  "quiescent b \<Longrightarrow> breaker_abs (snd (cb_call ts f a b))
     = abstract_call (cb_config b) (t_check ts) (t_last ts)
         (verdict_of (expected_exception (cb_config b)) (f a)) (breaker_abs b)"
  by (rule call_cases [THEN conjunct2])

text \<open>A sequence of calls, each with its function, argument and clock readings.\<close>

definition run_call ::
  "clocks \<times> ('a \<Rightarrow> 'x + 'r) \<times> 'a \<Rightarrow> ('a, 'x, 'r) breaker \<Rightarrow> ('a, 'x, 'r) breaker" where [machine_defs]:
  "run_call c b = (case c of (ts, f, a) \<Rightarrow> snd (cb_call ts f a b))"

lemma run_call_quiescent: "quiescent b \<Longrightarrow> quiescent (run_call c b)"
  by (cases c) (simp add: run_call_def call_quiescent)

lemma run_call_inv: "cb_inv b \<Longrightarrow> cb_inv (run_call c b)"
proof -
  obtain ts f a where c: "c = (ts, f, a)" by (cases c) auto
  obtain r b1 where r: "call_begin (t_check ts) (t_retry ts) a b = (r, b1)" by fastforce
  assume "cb_inv b"
  then have "cb_inv b1" using r by (rule call_begin_inv)
  then show ?thesis by (cases r) (simp_all add: c run_call_def cb_call_snd r call_end_inv)
qed

interpretation breaker_calls: step_machine run_call quiescent
  by unfold_locales (rule run_call_quiescent)

interpretation breaker_inv: step_machine run_call cb_inv
  by unfold_locales (rule run_call_inv)

definition abstract_run ::
  "('a, 'x, 'r) breaker_config \<Rightarrow> clocks \<times> ('a \<Rightarrow> 'x + 'r) \<times> 'a \<Rightarrow> abstract_breaker \<Rightarrow> abstract_breaker" where
  "abstract_run cfg c s = (case c of (ts, f, a) \<Rightarrow>
     abstract_call cfg (t_check ts) (t_last ts) (verdict_of (expected_exception cfg) (f a)) s)"

lemma run_refines:
  "quiescent b \<Longrightarrow> cb_config b = cfg \<Longrightarrow>
     breaker_abs (fold run_call cs b) = fold (abstract_run cfg) cs (breaker_abs b)"
proof (induction cs arbitrary: b)
  case Nil
  then show ?case by simp
next
  case (Cons c cs)
  obtain ts f a where c: "c = (ts, f, a)" by (cases c) auto
  have q: "quiescent (run_call c b)" using Cons.prems(1) by (rule breaker_calls.step_keeps)
  have cf: "cb_config (run_call c b) = cfg" using Cons.prems(2) by (simp add: c run_call_def)
  have "breaker_abs (run_call c b) = abstract_run cfg c (breaker_abs b)"
    using call_refines [OF Cons.prems(1)] Cons.prems(2) by (simp add: c run_call_def abstract_run_def)
  with Cons.IH [OF q cf] show ?case by simp
qed


section \<open>Consequences for the abstract breaker\<close>

definition all_verdict ::
  "('a, 'x, 'r) breaker_config \<Rightarrow> verdict \<Rightarrow> (clocks \<times> ('a \<Rightarrow> 'x + 'r) \<times> 'a) list \<Rightarrow> bool" where
  "all_verdict cfg v cs = list_all (\<lambda>(ts, f, a). verdict_of (expected_exception cfg) (f a) = v) cs"

lemma abstract_failures:
  "all_verdict cfg Failed cs \<Longrightarrow> 0 \<le> k \<Longrightarrow> k + int (length cs) < failure_threshold cfg \<Longrightarrow>
     fold (abstract_run cfg) cs (A_closed k) = A_closed (k + int (length cs))"
  by (induction cs arbitrary: k) (auto simp: all_verdict_def abstract_run_def abstract_call_def)

lemma abstract_successes:
  "all_verdict cfg Succeeded cs \<Longrightarrow> k + int (length cs) < success_threshold cfg \<Longrightarrow>
     fold (abstract_run cfg) cs (A_half_open k) = A_half_open (k + int (length cs))"
  by (induction cs arbitrary: k) (auto simp: all_verdict_def abstract_run_def abstract_call_def)

lemma abs_closed: "breaker_abs b = A_closed k \<longleftrightarrow> cb_state b = CLOSED \<and> failure_count b = k"
  by (simp add: breaker_abs_def split: circuit_state.split)

lemma abs_half_open: "breaker_abs b = A_half_open k \<longleftrightarrow> cb_state b = HALF_OPEN \<and> success_count b = k"
  by (simp add: breaker_abs_def split: circuit_state.split)

lemma abs_open: "breaker_abs b = A_open t \<Longrightarrow> cb_state b = OPEN"
  by (simp add: breaker_abs_def split: circuit_state.splits)


section \<open>Properties\<close>

lemma fold_refines:
  assumes "1 \<le> half_open_max_calls cfg"
  shows "breaker_abs (fold run_call cs (new_breaker nm cfg)) = fold (abstract_run cfg) cs (A_closed 0)"
proof -
  have "breaker_abs (new_breaker nm cfg) = A_closed 0"
    by (simp add: breaker_abs_def new_breaker_def)
  then show ?thesis
    using run_refines [OF quiescent_new [OF assms], of nm cfg cs] by (simp add: new_breaker_def)
qed

text \<open>C1: Calls that do not overlap drive the breaker exactly as the abstract breaker: closed with
  the number of consecutive expected failures, open since the last failure, half-open with the
  number of successful trial calls.\<close>

theorem breaker_refines_abstract:
  assumes "1 \<le> half_open_max_calls cfg"
  shows "breaker_abs (fold run_call cs (new_breaker nm cfg)) = fold (abstract_run cfg) cs (A_closed 0)"
  using assms by (rule fold_refines)

text \<open>One failing and one succeeding call of a unit-argument function.\<close>

definition demo_fail :: "instant \<Rightarrow> clocks \<times> (unit \<Rightarrow> unit + unit) \<times> unit" where
  "demo_fail t = (\<lparr>t_check = t, t_retry = t, t_metric = t, t_last = t\<rparr>, (\<lambda>_. Inl ()), ())"

definition demo_ok :: "instant \<Rightarrow> clocks \<times> (unit \<Rightarrow> unit + unit) \<times> unit" where
  "demo_ok t = (\<lparr>t_check = t, t_retry = t, t_metric = t, t_last = t\<rparr>, (\<lambda>_. Inr ()), ())"

lemmas demo_defs = demo_fail_def demo_ok_def default_config_def verdict_of_def all_verdict_def

theorem breaker_refines_abstract_witness:
  "breaker_abs (fold run_call [demo_fail 1, demo_fail 2, demo_fail 3, demo_fail 4, demo_fail 5, demo_fail 6, demo_ok 40]
     (new_breaker ''svc'' (default_config (\<lambda>_. True)))) = A_half_open 1"
  by (subst breaker_refines_abstract)
     (simp_all add: demo_defs abstract_run_def abstract_call_def)

text \<open>C10: In every state that interleaved calls and resets can reach, the request counters add up,
  the exported state is the actual one, a closed breaker has seen fewer failures than the threshold,
  the half-open slot counter never passes its limit, and the transition counters account for the
  state the breaker is in.\<close>

theorem breaker_reachable_safe:
  assumes "cb_reachable nm cfg (b, n)"
  shows "total_requests (cb_metrics b) = successful_requests (cb_metrics b) + failed_requests (cb_metrics b)
    \<and> m_current_state (cb_metrics b) = cb_state b
    \<and> (cb_state b = CLOSED \<longrightarrow> failure_count b < max 1 (failure_threshold cfg))
    \<and> (cb_state b = OPEN \<longrightarrow> last_failure_time b \<noteq> None)
    \<and> half_open_calls b \<le> max 0 (half_open_max_calls cfg)
    \<and> transitions b CLOSED OPEN + transitions b HALF_OPEN OPEN - transitions b OPEN HALF_OPEN
        = of_bool (cb_state b = OPEN)
    \<and> transitions b OPEN HALF_OPEN - transitions b HALF_OPEN CLOSED - transitions b HALF_OPEN OPEN
        = of_bool (cb_state b = HALF_OPEN)"
proof -
  have "cb_inv b" and "cb_config b = cfg"
    using reachable_inv [OF assms] reachable_config [OF assms] by simp_all
  then show ?thesis by (simp add: cb_inv_def inv_defs Let_def)
qed

lemma reach_begin:
  "cb_reachable nm cfg (b, n) \<Longrightarrow> fst (call_begin t1 t2 a b) = Admitted \<Longrightarrow>
     cb_reachable nm cfg (snd (call_begin t1 t2 a b), Suc n)"
  by (rule cb_reachable.stepped, assumption)
     (rule cb_step.begin_admitted, simp add: prod_eq_iff)

lemma reach_finish:
  "cb_reachable nm cfg (b, Suc n) \<Longrightarrow> cb_reachable nm cfg (call_end t1 t2 out b, n)"
  by (rule cb_reachable.stepped, assumption) (rule cb_step.finish)

definition strict_config :: "(unit, unit, unit) breaker_config" where
  "strict_config = (default_config (\<lambda>_. True))\<lparr>failure_threshold := 1, half_open_max_calls := 1\<rparr>"

lemmas run_defs = call_begin_def call_end_def breaker_ops new_breaker_def new_metrics_def
  strict_config_def default_config_def

theorem breaker_reachable_safe_witness:
  "cb_state (call_end 1 1 (Inl ()) (new_breaker ''svc'' strict_config)) = OPEN
   \<and> half_open_calls (call_end 1 1 (Inl ()) (new_breaker ''svc'' strict_config)) \<le> 1"
proof -
  let ?b = "new_breaker ''svc'' strict_config :: (unit, unit, unit) breaker"
  have "cb_reachable ''svc'' strict_config (?b, Suc 0)"
    using reach_begin [OF cb_reachable.fresh, where nm = "''svc''" and cfg = strict_config
        and ?t1.0 = 0 and ?t2.0 = 0 and a = "()"]
    by (simp add: run_defs)
  then have "cb_reachable ''svc'' strict_config (call_end 1 1 (Inl ()) ?b, 0)"
    by (rule reach_finish)
  then show ?thesis
    using breaker_reachable_safe [of "''svc''" strict_config "call_end 1 1 (Inl ()) ?b" 0]
    by (simp add: run_defs)
qed

text \<open>C5: Starting closed, the breaker stays closed through any run of consecutive expected failures
  shorter than the failure threshold and is open after exactly that many.\<close>

theorem breaker_opens_at_threshold:
  assumes "1 \<le> half_open_max_calls cfg" and "1 \<le> failure_threshold cfg"
    and "all_verdict cfg Failed cs" and "int (length cs) \<le> failure_threshold cfg"
  shows "cb_state (fold run_call cs (new_breaker nm cfg))
           = (if int (length cs) < failure_threshold cfg then CLOSED else OPEN)"
proof (cases "int (length cs) < failure_threshold cfg")
  case True
  then show ?thesis
    using fold_refines [OF assms(1), of cs nm] abstract_failures [OF assms(3), of 0]
    by (simp add: abs_closed)
next
  case False
  with assms(2) obtain c cs' where cs: "cs = cs' @ [c]" by (cases cs rule: rev_cases) auto
  have len: "int (length cs') + 1 = failure_threshold cfg" using False assms(4) cs by simp
  have v: "all_verdict cfg Failed cs'" "all_verdict cfg Failed [c]"
    using assms(3) by (simp_all add: cs all_verdict_def)
  obtain ts f a where c: "c = (ts, f, a)" by (cases c) auto
  have "fold (abstract_run cfg) cs (A_closed 0) = A_open (t_last ts)"
    using abstract_failures [OF v(1), of 0] v(2) len
    by (simp add: cs c abstract_run_def abstract_call_def all_verdict_def)
  then show ?thesis
    using fold_refines [OF assms(1), of cs nm] False abs_open by force
qed

theorem breaker_opens_at_threshold_witness:
  "cb_state (fold run_call (map demo_fail [1, 2, 3, 4]) (new_breaker ''svc'' (default_config (\<lambda>_. True)))) = CLOSED
   \<and> cb_state (fold run_call (map demo_fail [1, 2, 3, 4, 5]) (new_breaker ''svc'' (default_config (\<lambda>_. True)))) = OPEN"
  using breaker_opens_at_threshold [of "default_config (\<lambda>_. True)" "map demo_fail [1, 2, 3, 4]" "''svc''"]
    breaker_opens_at_threshold [of "default_config (\<lambda>_. True)" "map demo_fail [1, 2, 3, 4, 5]" "''svc''"]
  by (simp add: demo_defs del: fold_simps)

text \<open>C22: An open breaker whose timeout has not elapsed fails fast: the protected function has no
  influence on the outcome, only the rejection counter changes, and without a fallback the caller
  gets \<open>CircuitBreakerOpenError\<close> with a retry hint between 0 and the timeout.\<close>

theorem breaker_fails_fast:
  assumes "cb_state b = OPEN" and "last_failure_time b = Some t0"
    and "t_check ts - t0 < cb_timeout (cb_config b)" and "t0 \<le> t_retry ts"
    and "0 \<le> cb_timeout (cb_config b)"
  shows "cb_call ts f a b = cb_call ts g a b
    \<and> snd (cb_call ts f a b) = count_rejected b
    \<and> (fallback_function (cb_config b) = None \<longrightarrow>
         (\<exists>ra. fst (cb_call ts f a b) = Inl (CircuitBreakerOpenError (cb_name b) ra)
              \<and> 0 \<le> ra \<and> ra \<le> cb_timeout (cb_config b)))"
proof -
  have "check_and_transition_from_open (t_check ts) b = b"
    using assms by (simp add: check_and_transition_from_open_def)
  then show ?thesis
    using assms by (simp add: cb_call_def call_begin_def count_rejected_def split: option.split)
qed

definition tripped :: "(unit, unit, unit) breaker" where
  "tripped = (new_breaker ''svc'' strict_config)\<lparr>cb_state := OPEN, last_failure_time := Some 100\<rparr>"

theorem breaker_fails_fast_witness:
  "\<exists>ra. fst (cb_call \<lparr>t_check = 110, t_retry = 110, t_metric = 0, t_last = 0\<rparr> (\<lambda>_. Inr ()) () tripped)
      = Inl (CircuitBreakerOpenError ''svc'' ra) \<and> 0 \<le> ra \<and> ra \<le> 30"
  using breaker_fails_fast [of tripped 100 "\<lparr>t_check = 110, t_retry = 110, t_metric = 0, t_last = 0\<rparr>"
      "\<lambda>_. Inr ()" "()"]
  by (simp add: tripped_def run_defs)

text \<open>C23: Once the timeout has elapsed an open breaker recovers: successful calls that do not
  overlap keep it half-open until there are as many as the success threshold, then close it with
  its failure count back at 0.\<close>

theorem breaker_recovers:
  assumes "quiescent b" and "cb_state b = OPEN" and "last_failure_time b = Some t0"
    and "all_verdict (cb_config b) Succeeded (c # cs)"
    and "t_check (fst c) - t0 \<ge> cb_timeout (cb_config b)"
    and "int (length cs) + 1 \<le> success_threshold (cb_config b)"
  shows "breaker_abs (fold run_call (c # cs) b)
    = (if int (length cs) + 1 < success_threshold (cb_config b) then A_half_open (int (length cs) + 1)
       else A_closed 0)"
proof -
  let ?cfg = "cb_config b"
  have "breaker_abs b = A_open t0"
    using assms(2,3) by (simp add: breaker_abs_def)
  then have "breaker_abs (fold run_call (c # cs) b) = fold (abstract_run ?cfg) (c # cs) (A_open t0)"
    using run_refines [OF assms(1) refl, of "c # cs"] by (simp only:)
  also have "\<dots> = fold (abstract_run ?cfg) (c # cs) (A_half_open 0)"
    using assms(5) by (cases c) (simp add: abstract_run_def abstract_call_def)
  also have "\<dots> = (if int (length cs) + 1 < success_threshold ?cfg then A_half_open (int (length cs) + 1)
       else A_closed 0)"
  proof (cases "int (length cs) + 1 < success_threshold ?cfg")
    case True
    then show ?thesis using abstract_successes [OF assms(4), of 0] by (simp del: fold_simps add: add.commute)
  next
    case False
    obtain cs' d where cs: "c # cs = cs' @ [d]" by (metis list.distinct(1) rev_exhaust)
    then have len: "length cs' = length cs" by (metis length_Cons length_append_singleton nat.inject)
    have v: "all_verdict ?cfg Succeeded cs'" "all_verdict ?cfg Succeeded [d]"
      using assms(4) unfolding cs by (simp_all add: all_verdict_def)
    have "fold (abstract_run ?cfg) cs' (A_half_open 0) = A_half_open (int (length cs))"
      using abstract_successes [OF v(1), of 0] False assms(6) len by simp
    then show ?thesis
      using v(2) False unfolding cs
      by (cases d) (simp add: all_verdict_def abstract_run_def abstract_call_def)
  qed
  finally show ?thesis .
qed

theorem breaker_recovers_witness:
  "breaker_abs (fold run_call [demo_ok 130] tripped) = A_half_open 1
   \<and> breaker_abs (fold run_call [demo_ok 130, demo_ok 131] tripped) = A_closed 0"
  using breaker_recovers [of tripped 100 "demo_ok 130" "[]"]
    breaker_recovers [of tripped 100 "demo_ok 130" "[demo_ok 131]"]
  by (simp add: tripped_def run_defs quiescent_def demo_defs del: fold_simps)

definition overrun :: "nat \<Rightarrow> (unit, unit, unit) breaker" where
  "overrun n =
     (let b0 = new_breaker ''svc'' strict_config;
          b1 = call_end 1 1 (Inl ()) (snd (call_begin 0 0 () b0));
          b2 = snd (call_begin 50 50 () b1);
          b3 = call_end 51 51 (Inr ()) b2
      in [b0, b1, b2, b3] ! n)"

text \<open>The half-open limit can be exceeded: with a limit of one trial call, a call admitted while
  the breaker was still closed gives back, when it finishes, the slot of the trial call that is
  running, and a second trial call is admitted beside it.\<close>

theorem half_open_limit_overrun:
  "half_open_max_calls (cb_config (overrun 3)) = 1
   \<and> fst (call_begin 0 0 () (overrun 0)) = Admitted
   \<and> cb_state (overrun 1) = OPEN
   \<and> fst (call_begin 50 50 () (overrun 1)) = Admitted
   \<and> cb_state (overrun 2) = HALF_OPEN \<and> half_open_calls (overrun 2) = 1
   \<and> cb_state (overrun 3) = HALF_OPEN
   \<and> fst (call_begin 52 52 () (overrun 3)) = Admitted"
  by code_simp

end
