(* ===== verification/PyText.thy ===== *)
theory PyText
  imports Prelude
begin

text \<open>
  The Python built-ins the modelled code applies to text, numbers and untyped values.

  A \<open>str\<close> is a list of characters read as the code points 0 to 255 (Latin-1); the operations below
  agree with CPython's on that range. A value of a heterogeneous dictionary is a \<open>py_val\<close>.
\<close>

datatype py_val =
  PNone | PBool bool | PInt int | PFloat rat | PStr string
  | PList "py_val list" | PDict "(string \<times> py_val) list"

text \<open>Python's \<open>x or y\<close> on an optional text: None and the empty text are both false.\<close>

definition truthy :: "string option \<Rightarrow> bool" where
  "truthy v = (case v of None \<Rightarrow> False | Some s \<Rightarrow> s \<noteq> [])"

section \<open>round\<close>

text \<open>\<open>round(x, n)\<close>: the nearest multiple of \<open>10 ^ -n\<close>, ties to the even one.\<close>

definition round_half_even :: "rat \<Rightarrow> int" where
  "round_half_even s =
     (let f = \<lfloor>s\<rfloor>; d = s - of_int f in
      if d < 1 / 2 then f else if 1 / 2 < d then f + 1 else if even f then f else f + 1)"

definition py_round :: "nat \<Rightarrow> rat \<Rightarrow> rat" where
  "py_round n x = of_int (round_half_even (x * 10 ^ n)) / 10 ^ n"

lemma round_half_even_close: "\<bar>of_int (round_half_even s) - s\<bar> \<le> 1 / 2"
proof -
  have "of_int \<lfloor>s\<rfloor> \<le> s" "s < of_int \<lfloor>s\<rfloor> + 1" by linarith+
  then show ?thesis
    unfolding round_half_even_def Let_def by auto
qed

lemma round_half_even_ge: "of_int k \<le> s \<Longrightarrow> k \<le> round_half_even s"
  using le_floor_iff [of k s] by (auto simp: round_half_even_def Let_def)

lemma round_half_even_of_int [simp]: "round_half_even (of_int k) = k"
  by (simp add: round_half_even_def Let_def)

lemma round_half_even_le:
  assumes "s \<le> of_int k"
  shows "round_half_even s \<le> k"
proof (cases "s = of_int k")
  case False
  with assms have "\<lfloor>s\<rfloor> < k" by linarith
  then show ?thesis by (auto simp: round_half_even_def Let_def)
qed simp

lemma round_half_even_mono: "x \<le> y \<Longrightarrow> round_half_even x \<le> round_half_even y"
proof (cases "\<lfloor>x\<rfloor> = \<lfloor>y\<rfloor>")
  case True
  assume "x \<le> y"
  with True show ?thesis by (auto simp: round_half_even_def Let_def)
next
  case False
  assume "x \<le> y"
  with False have "\<lfloor>x\<rfloor> + 1 \<le> \<lfloor>y\<rfloor>" using floor_mono [of x y] by simp
  moreover have "round_half_even x \<le> \<lfloor>x\<rfloor> + 1" by (auto simp: round_half_even_def Let_def)
  moreover have "\<lfloor>y\<rfloor> \<le> round_half_even y" by (auto simp: round_half_even_def Let_def)
  ultimately show ?thesis by linarith
qed

lemma py_round_between:
  assumes "of_int lo \<le> x" and "x \<le> of_int hi"
  shows "of_int lo \<le> py_round n x" and "py_round n x \<le> of_int hi"
proof -
  have "of_int (lo * 10 ^ n) \<le> x * 10 ^ n" "x * 10 ^ n \<le> of_int (hi * 10 ^ n)"
    using assms by simp_all
  then have "lo * 10 ^ n \<le> round_half_even (x * 10 ^ n)" "round_half_even (x * 10 ^ n) \<le> hi * 10 ^ n"
    using round_half_even_ge round_half_even_le by blast+
  then have "(of_int (lo * 10 ^ n) :: rat) \<le> of_int (round_half_even (x * 10 ^ n))"
    "(of_int (round_half_even (x * 10 ^ n)) :: rat) \<le> of_int (hi * 10 ^ n)"
    by (simp_all only: of_int_le_iff)
  then show "of_int lo \<le> py_round n x" and "py_round n x \<le> of_int hi"
    by (simp_all add: py_round_def field_simps)
qed


section \<open>Characters\<close>

definition char_code :: "char \<Rightarrow> nat" where
  "char_code c = of_char c"

definition is_space :: "char \<Rightarrow> bool" where
  "is_space c \<longleftrightarrow> (let n = char_code c in (9 \<le> n \<and> n \<le> 13) \<or> (28 \<le> n \<and> n \<le> 32) \<or> n = 133 \<or> n = 160)"

definition is_digit :: "char \<Rightarrow> bool" where
  "is_digit c \<longleftrightarrow> 48 \<le> char_code c \<and> char_code c \<le> 57"

definition digit_value :: "char \<Rightarrow> nat" where
  "digit_value c = char_code c - 48"

definition lower_char :: "char \<Rightarrow> char" where
  "lower_char c = (let n = char_code c in
     if (65 \<le> n \<and> n \<le> 90) \<or> (192 \<le> n \<and> n \<le> 222 \<and> n \<noteq> 215) then char_of (n + 32) else c)"

definition py_lower :: "string \<Rightarrow> string" where
  "py_lower s = map lower_char s"

text \<open>Upper case: the sharp s becomes two letters; the micro sign and the y with diaeresis, whose
  capitals lie outside Latin-1, are left alone.\<close>

definition upper_char :: "char \<Rightarrow> string" where
  "upper_char c = (let n = char_code c in
     if n = 223 then ''SS''
     else if (97 \<le> n \<and> n \<le> 122) \<or> (224 \<le> n \<and> n \<le> 254 \<and> n \<noteq> 247) then [char_of (n - 32)] else [c])"

definition py_upper :: "string \<Rightarrow> string" where
  "py_upper s = concat (map upper_char s)"

lemma char_code_bound: "char_code c < 256"
  by (simp add: char_code_def)

lemma char_code_char_of [simp]: "n < 256 \<Longrightarrow> char_code (char_of n) = n"
  by (simp add: char_code_def)

lemma char_code_inject [simp]: "char_code c = char_code d \<longleftrightarrow> c = d"
  by (simp add: char_code_def)

lemma is_digit_not_space: "is_digit c \<Longrightarrow> \<not> is_space c"
  by (auto simp: is_digit_def is_space_def Let_def)


section \<open>Stripping and splitting\<close>

definition py_strip :: "string \<Rightarrow> string" where
  "py_strip s = rev (dropWhile is_space (rev (dropWhile is_space s)))"

definition startswith :: "string \<Rightarrow> string \<Rightarrow> bool" where
  "startswith p s \<longleftrightarrow> take (length p) s = p"

definition endswith :: "string \<Rightarrow> string \<Rightarrow> bool" where
  "endswith p s \<longleftrightarrow> length p \<le> length s \<and> drop (length s - length p) s = p"

text \<open>\<open>s.split(c)\<close> for a one-character separator: never the empty list.\<close>

fun split_on :: "char \<Rightarrow> string \<Rightarrow> string list" where
  "split_on c [] = [[]]"
| "split_on c (x # xs) =
     (if x = c then [] # split_on c xs
      else case split_on c xs of [] \<Rightarrow> [[x]] | y # ys \<Rightarrow> (x # y) # ys)"

definition before :: "char \<Rightarrow> string \<Rightarrow> string" where
  "before c s = takeWhile (\<lambda>x. x \<noteq> c) s"

text \<open>\<open>s.partition(c)[2]\<close>: what follows the first \<open>c\<close>, empty when there is none.\<close>

definition after_first :: "char \<Rightarrow> string \<Rightarrow> string" where
  "after_first c s = tl (dropWhile (\<lambda>x. x \<noteq> c) s)"

fun join_with :: "string \<Rightarrow> string list \<Rightarrow> string" where
  "join_with sep [] = []"
| "join_with sep [s] = s"
| "join_with sep (s # t # ts) = s @ sep @ join_with sep (t # ts)"

lemma split_on_ne [simp]: "split_on c s \<noteq> []"
  by (induction s) (auto split: list.split)

lemma split_on_hd: "hd (split_on c s) = before c s"
  by (induction s) (auto simp: before_def split: list.split)

lemma split_on_absent: "c \<notin> set s \<Longrightarrow> split_on c s = [s]"
  by (induction s) auto

lemma split_on_join: "join_with [c] (split_on c s) = s"
proof (induction s)
  case (Cons x xs)
  then show ?case
    by (cases "split_on c xs"; cases "tl (split_on c xs)") auto
qed simp

lemma split_on_parts: "p \<in> set (split_on c s) \<Longrightarrow> c \<notin> set p"
  by (induction s arbitrary: p) (auto split: list.splits if_splits)

lemma before_absent: "c \<notin> set s \<Longrightarrow> before c s = s"
  by (auto simp: before_def takeWhile_eq_all_conv)

lemma before_append: "c \<notin> set s \<Longrightarrow> before c (s @ c # t) = s"
  by (induction s) (auto simp: before_def)

lemma py_strip_id: "s = [] \<or> (\<not> is_space (hd s) \<and> \<not> is_space (last s)) \<Longrightarrow> py_strip s = s"
proof (cases s rule: rev_cases)
  case (snoc ys y)
  assume h: "s = [] \<or> (\<not> is_space (hd s) \<and> \<not> is_space (last s))"
  then have "dropWhile is_space s = s" using snoc by (cases ys) auto
  then show ?thesis using h snoc by (simp add: py_strip_def)
qed (simp add: py_strip_def)

lemma dropWhile_rev_head: "dropWhile P xs = y # ys \<Longrightarrow> \<not> P y"
  using dropWhile_eq_Cons_conv by metis

lemma py_strip_ends:
  "py_strip s \<noteq> [] \<Longrightarrow> \<not> is_space (hd (py_strip s)) \<and> \<not> is_space (last (py_strip s))"
proof -
  assume ne: "py_strip s \<noteq> []"
  let ?d = "dropWhile is_space s"
  let ?r = "dropWhile is_space (rev ?d)"
  have r: "?r \<noteq> []" using ne by (simp add: py_strip_def)
  have "\<not> is_space (hd ?r)" using r by (rule hd_dropWhile)
  moreover have "hd (rev ?r) = hd ?d"
  proof -
    obtain u where "rev ?d = u @ ?r" by (metis takeWhile_dropWhile_id)
    then have "?d = rev ?r @ rev u" by (metis rev_append rev_rev_ident)
    with r show ?thesis by (metis hd_append rev_is_Nil_conv)
  qed
  moreover have "?d \<noteq> []" using r by (cases ?d) auto
  then have "\<not> is_space (hd ?d)" by (rule hd_dropWhile)
  ultimately show ?thesis using r by (simp add: py_strip_def last_rev)
qed

lemma py_strip_idem [simp]: "py_strip (py_strip s) = py_strip s"
  using py_strip_id py_strip_ends by blast

lemma set_py_strip: "set (py_strip s) \<subseteq> set s"
proof
  fix x assume "x \<in> set (py_strip s)"
  then have "x \<in> set (dropWhile is_space s)"
    by (auto simp: py_strip_def dest: set_dropWhileD)
  then show "x \<in> set s" by (rule set_dropWhileD)
qed

lemma py_strip_space: "is_space c \<Longrightarrow> py_strip (c # s) = py_strip s"
  by (simp add: py_strip_def)

lemma after_first_append: "c \<notin> set s \<Longrightarrow> after_first c (s @ c # t) = t"
  by (induction s) (auto simp: after_first_def)

lemma py_strip_hd: "py_strip s = s \<Longrightarrow> s \<noteq> [] \<Longrightarrow> \<not> is_space (hd s)"
  using py_strip_ends [of s] by simp

lemma startswith_append [simp]: "startswith p (p @ s)"
  by (simp add: startswith_def)

lemma startswith_iff: "startswith p s \<longleftrightarrow> (\<exists>t. s = p @ t)"
  by (metis append_take_drop_id append_eq_conv_conj startswith_def)

lemma startswith_Cons [simp]: "startswith (x # p) (y # s) \<longleftrightarrow> x = y \<and> startswith p s"
  by (auto simp: startswith_def)

lemma startswith_Nil [simp]: "startswith [] s" "startswith (x # p) [] = False"
  by (simp_all add: startswith_def)

text \<open>For evaluation: character by character, up to the first difference.\<close>

lemma startswith_code [code]:
  "startswith [] s = True" "startswith (c # p) [] = False" "startswith (c # p) (d # s) = (if c = d then startswith p s else False)"
  by simp_all


section \<open>Searching\<close>

text \<open>\<open>s.find(p)\<close>, \<open>None\<close> for -1.\<close>

fun find_sub :: "string \<Rightarrow> string \<Rightarrow> nat option" where
  "find_sub p [] = (if p = [] then Some 0 else None)"
| "find_sub p (c # s) = (if startswith p (c # s) then Some 0 else map_option Suc (find_sub p s))"

lemma find_sub_bound: "find_sub p s = Some i \<Longrightarrow> i + length p \<le> length s"
  by (induction s arbitrary: i) (auto simp: startswith_def split: if_splits dest!: arg_cong [where f = length])

text \<open>A text that is found stays found where it is when the rest of the line grows.\<close>

lemma find_sub_append: "find_sub p s = Some i \<Longrightarrow> find_sub p (s @ t) = Some i"
proof (induction s arbitrary: i)
  case Nil
  then show ?case by (cases t) (auto simp: startswith_def split: if_splits)
next
  case (Cons c s)
  show ?case
  proof (cases "startswith p (c # s)")
    case True
    then have "startswith p (c # s @ t)" by (metis append.assoc append_Cons startswith_iff)
    with Cons.prems True show ?thesis by simp
  next
    case False
    with Cons.prems obtain j where j: "find_sub p s = Some j" "i = Suc j" by (auto split: if_splits)
    from find_sub_bound [OF j(1)] have "length p \<le> length (c # s)" by simp
    then have "take (length p) ((c # s) @ t) = take (length p) (c # s)" by (simp only: take_append) simp
    then have "\<not> startswith p (c # s @ t)" using False by (simp add: startswith_def)
    with Cons.IH [OF j(1)] j(2) show ?thesis by simp
  qed
qed


section \<open>Decimal numbers\<close>

fun show_nat :: "nat \<Rightarrow> string" where
  "show_nat n = (if n < 10 then [char_of (48 + n)] else show_nat (n div 10) @ [char_of (48 + n mod 10)])"

declare show_nat.simps [simp del]

definition show_int :: "int \<Rightarrow> string" where
  "show_int k = (if k < 0 then CHR ''-'' # show_nat (nat (- k)) else show_nat (nat k))"

definition digits_value :: "string \<Rightarrow> nat" where
  "digits_value ds = fold (\<lambda>c n. 10 * n + digit_value c) ds 0"

lemma is_digit_char [simp]: "(k :: nat) < 10 \<Longrightarrow> is_digit (char_of (48 + k))"
  by (simp add: is_digit_def)

lemma show_nat_digits: "list_all is_digit (show_nat n)"
proof (induction n rule: show_nat.induct)
  case (1 n)
  then show ?case by (subst show_nat.simps) simp
qed

lemma show_nat_ne [simp]: "show_nat n \<noteq> []"
  by (subst show_nat.simps) simp

lemma digits_value_show: "digits_value (show_nat n) = n"
proof (induction n rule: show_nat.induct)
  case (1 n)
  then show ?case by (subst show_nat.simps) (auto simp: digits_value_def digit_value_def)
qed

lemma show_nat_inject: "show_nat m = show_nat n \<Longrightarrow> m = n"
  by (metis digits_value_show)

text \<open>\<open>int(s)\<close>: white space around, a sign, digits with single underscores between them.\<close>

fun digit_groups :: "string list \<Rightarrow> string option" where
  "digit_groups [] = Some []"
| "digit_groups (g # gs) =
     (if g \<noteq> [] \<and> list_all is_digit g then map_option (\<lambda>r. g @ r) (digit_groups gs) else None)"

definition py_int :: "string \<Rightarrow> int option" where
  "py_int s =
     (let t = py_strip s;
          (sgn, u) = (case t of c # cs \<Rightarrow> if c = CHR ''-'' then (- 1, cs) else if c = CHR ''+'' then (1, cs) else (1, t)
                      | [] \<Rightarrow> (1, [])) in
      map_option (\<lambda>ds. sgn * int (digits_value ds)) (digit_groups (split_on (CHR ''_'') u)))"

end
