(* ===== verification/HealthCheck.thy ===== *)
theory HealthCheck
  imports CircuitBreaker PyText
begin

text \<open>
  The health endpoints of \<open>services/voice-switch/health_check.py\<close>: the probe of each dependency, the
  overall status computed from them and from the circuit breakers, and the HTTP codes of the
  readiness and health endpoints. What a dependency answers is an argument of its probe.
\<close>

section \<open>Data\<close>

datatype health_status = HEALTHY | DEGRADED | UNHEALTHY

fun health_value :: "health_status \<Rightarrow> string" where
  "health_value HEALTHY = ''healthy''"
| "health_value DEGRADED = ''degraded''"
| "health_value UNHEALTHY = ''unhealthy''"

text \<open>The statuses ordered from good to bad.\<close>

fun badness :: "health_status \<Rightarrow> nat" where
  "badness HEALTHY = 0"
| "badness DEGRADED = 1"
| "badness UNHEALTHY = 2"

lemma badness_inject [simp]: "badness a = badness b \<longleftrightarrow> a = b"
  by (cases a; cases b) simp_all

instantiation health_status :: linorder
begin

definition less_eq_health_status :: "health_status \<Rightarrow> health_status \<Rightarrow> bool" where
  "less_eq_health_status a b \<longleftrightarrow> badness a \<le> badness b"

definition less_health_status :: "health_status \<Rightarrow> health_status \<Rightarrow> bool" where
  "less_health_status a b \<longleftrightarrow> badness a < badness b"

instance
  by standard (auto simp: less_eq_health_status_def less_health_status_def)

end

lemmas health_order = less_eq_health_status_def less_health_status_def

record component_health =
  ch_name :: string
  ch_status :: health_status
  latency_ms :: rat
  ch_error :: string
  ch_metadata :: "(string, py_val) dict option"

definition component :: "string \<Rightarrow> health_status \<Rightarrow> rat \<Rightarrow> string \<Rightarrow> (string, py_val) dict option \<Rightarrow> component_health"
  where
  "component n s l e m = \<lparr>ch_name = n, ch_status = s, latency_ms = l, ch_error = e, ch_metadata = m\<rparr>"

lemma component_sel [simp]:
  "ch_name (component n s l e m) = n" "ch_status (component n s l e m) = s"
  by (simp_all add: component_def)

definition component_to_dict :: "component_health \<Rightarrow> (string, py_val) dict" where
  "component_to_dict c =
     [(''name'', PStr (ch_name c)), (''status'', PStr (health_value (ch_status c))),
      (''latency_ms'', PFloat (py_round 2 (latency_ms c)))]
     @ (if ch_error c \<noteq> [] then [(''error'', PStr (ch_error c))] else [])
     @ (case ch_metadata c of Some (kv # kvs) \<Rightarrow> [(''metadata'', PDict (kv # kvs))] | _ \<Rightarrow> [])"

record health_check_response =
  hr_status :: health_status
  hr_timestamp :: instant
  hr_version :: string
  hr_node_id :: string
  hr_uptime_seconds :: rat
  hr_components :: "component_health list"
  hr_circuit_breakers :: "(string, metrics_view) dict"
  hr_system_metrics :: "(string, py_val) dict"

definition metrics_view_to_val :: "metrics_view \<Rightarrow> py_val" where
  "metrics_view_to_val v =
     (let opt = (\<lambda>x. case x of None \<Rightarrow> PNone | Some t \<Rightarrow> PFloat t) in
      PDict [(''name'', PStr (mv_name v)), (''state'', PStr (mv_state v)),
        (''total_requests'', PInt (mv_total v)), (''successful_requests'', PInt (mv_successful v)),
        (''failed_requests'', PInt (mv_failed v)), (''rejected_requests'', PInt (mv_rejected v)),
        (''failure_rate'', PFloat (mv_failure_rate v)),
        (''state_transitions'', PDict (map (\<lambda>(k, n). (k, PInt n)) (mv_transitions v))),
        (''last_failure_time'', opt (mv_last_failure v)),
        (''last_success_time'', opt (mv_last_success v))])"

definition response_to_dict :: "health_check_response \<Rightarrow> (string, py_val) dict" where
  "response_to_dict r =
     [(''status'', PStr (health_value (hr_status r))), (''timestamp'', PFloat (hr_timestamp r)),
      (''version'', PStr (hr_version r)), (''node_id'', PStr (hr_node_id r)),
      (''uptime_seconds'', PFloat (py_round 2 (hr_uptime_seconds r))),
      (''components'', PList (map (\<lambda>c. PDict (component_to_dict c)) (hr_components r))),
      (''circuit_breakers'', PDict (map (\<lambda>(n, v). (n, metrics_view_to_val v)) (hr_circuit_breakers r))),
      (''system_metrics'', PDict (hr_system_metrics r))]"


section \<open>Probes\<close>

text \<open>
  A probe is given the start time, the time its answer arrived and what the dependency answered:
  an exception with its text on the left, a value on the right. \<open>None\<close> is a dependency that is not
  configured.
\<close>

definition check_yugabyte :: "instant \<Rightarrow> instant \<Rightarrow> (string + unit) option \<Rightarrow> component_health" where
  "check_yugabyte start now pool =
     (case pool of
        None \<Rightarrow> component ''yugabyte'' DEGRADED 0 ''Database pool not configured'' None
      | Some (Inr _) \<Rightarrow> component ''yugabyte'' HEALTHY ((now - start) * 1000) [] None
      | Some (Inl e) \<Rightarrow> component ''yugabyte'' UNHEALTHY ((now - start) * 1000) e None)"

text \<open>The cache is asked twice, for a ping and for its size; \<open>t_ping\<close> is read between the two,
  \<open>t_err\<close> when one of them has failed.\<close>

definition check_redis ::
  "instant \<Rightarrow> instant \<Rightarrow> instant \<Rightarrow> ((string + unit) \<times> (string + int)) option \<Rightarrow> component_health" where
  "check_redis start t_ping t_err client =
     (let failed = (\<lambda>e. component ''redis'' UNHEALTHY ((t_err - start) * 1000) e None) in
      case client of
        None \<Rightarrow> component ''redis'' DEGRADED 0 ''Redis client not configured'' None
      | Some (Inl e, _) \<Rightarrow> failed e
      | Some (Inr _, Inl e) \<Rightarrow> failed e
      | Some (Inr _, Inr n) \<Rightarrow>
          component ''redis'' HEALTHY ((t_ping - start) * 1000) [] (Some [(''db_size'', PInt n)]))"

datatype http_answer =
    Http_timeout
  | Http_failure string
  | Http_response int "string + (string, py_val) dict"

definition check_acm_engine :: "instant \<Rightarrow> instant \<Rightarrow> instant \<Rightarrow> string \<Rightarrow> http_answer \<Rightarrow> component_health" where
  "check_acm_engine start t_resp t_err url ans =
     (if url = [] then component ''acm_engine'' DEGRADED 0 ''ACM engine URL not configured'' None
      else case ans of
        Http_timeout \<Rightarrow> component ''acm_engine'' UNHEALTHY ((t_err - start) * 1000) ''Timeout (>5s)'' None
      | Http_failure e \<Rightarrow> component ''acm_engine'' UNHEALTHY ((t_err - start) * 1000) e None
      | Http_response st body \<Rightarrow>
          (if st = 200
           then (case body of
                   Inr d \<Rightarrow> component ''acm_engine'' HEALTHY ((t_resp - start) * 1000) [] (Some d)
                 | Inl e \<Rightarrow> component ''acm_engine'' UNHEALTHY ((t_err - start) * 1000) e None)
           else component ''acm_engine'' UNHEALTHY ((t_resp - start) * 1000) (''HTTP '' @ show_int st) None))"


section \<open>Overall status\<close>

definition critical_components :: "string list" where
  "critical_components = [''yugabyte'', ''redis'']"

fun critical_unhealthy :: "component_health list \<Rightarrow> bool" where
  "critical_unhealthy [] = False"
| "critical_unhealthy (c # cs) =
     (if ch_name c \<in> set critical_components \<and> ch_status c = UNHEALTHY then True
      else critical_unhealthy cs)"

definition determine_overall_status :: "component_health list \<Rightarrow> health_status" where
  "determine_overall_status components =
     (let unhealthy_count = length (filter (\<lambda>c. ch_status c = UNHEALTHY) components);
          degraded_count = length (filter (\<lambda>c. ch_status c = DEGRADED) components)
      in if critical_unhealthy components then UNHEALTHY
         else if unhealthy_count + degraded_count \<ge> 2 then UNHEALTHY
         else if degraded_count > 0 \<or> unhealthy_count > 0 then DEGRADED
         else HEALTHY)"

record health_checker =
  hc_version :: string
  hc_node_id :: string
  hc_start_time :: instant

text \<open>The loop over the breakers' metrics: an open one turns HEALTHY into DEGRADED.\<close>

definition degrade_for_breakers :: "(string, metrics_view) dict \<Rightarrow> health_status \<Rightarrow> health_status" where
  "degrade_for_breakers cbs st =
     fold (\<lambda>(_, m) s. if mv_state m = ''open'' then (if s = HEALTHY then DEGRADED else s) else s) cbs st"

text \<open>The clock readings and answers of one round of probes.\<close>

record probe_round =
  yugabyte_clock :: "instant \<times> instant"
  yugabyte_pool :: "(string + unit) option"
  redis_clock :: "instant \<times> instant \<times> instant"
  redis_client :: "((string + unit) \<times> (string + int)) option"
  acm_clock :: "instant \<times> instant \<times> instant"
  acm_engine_url :: string
  acm_answer :: http_answer

definition gather_components :: "probe_round \<Rightarrow> component_health list" where
  "gather_components p =
     [case yugabyte_clock p of (s, n) \<Rightarrow> check_yugabyte s n (yugabyte_pool p),
      case redis_clock p of (s, n, e) \<Rightarrow> check_redis s n e (redis_client p),
      case acm_clock p of (s, n, e) \<Rightarrow> check_acm_engine s n e (acm_engine_url p) (acm_answer p)]"

definition full_health_check ::
  "instant \<Rightarrow> instant \<Rightarrow> health_checker \<Rightarrow> probe_round \<Rightarrow> ('a, 'x, 'r) cb_registry \<Rightarrow>
   (string, py_val) dict \<Rightarrow> health_check_response" where
  "full_health_check t1 t2 hc p reg system_metrics =
     (let components = gather_components p;
          cbs = get_all_metrics reg;
          overall = degrade_for_breakers cbs (determine_overall_status components)
      in \<lparr>hr_status = overall, hr_timestamp = t1, hr_version = hc_version hc, hr_node_id = hc_node_id hc,
          hr_uptime_seconds = t2 - hc_start_time hc, hr_components = components,
          hr_circuit_breakers = cbs, hr_system_metrics = system_metrics\<rparr>)"

text \<open>What \<open>psutil\<close> says of the process: it may be missing, or a reading may raise.\<close>

record process_reading =
  rd_cpu :: rat
  rd_rss :: nat
  rd_vms :: nat
  rd_threads :: nat
  rd_files :: nat
  rd_connections :: nat

definition get_system_metrics :: "(string + process_reading) option \<Rightarrow> (string, py_val) dict" where
  "get_system_metrics reading =
     (case reading of
        None \<Rightarrow> [(''error'', PStr ''psutil not installed'')]
      | Some (Inl e) \<Rightarrow> [(''error'', PStr e)]
      | Some (Inr r) \<Rightarrow>
          [(''cpu_percent'', PFloat (py_round 2 (rd_cpu r))),
           (''memory_rss_mb'', PFloat (py_round 2 (of_nat (rd_rss r) / 1024 / 1024))),
           (''memory_vms_mb'', PFloat (py_round 2 (of_nat (rd_vms r) / 1024 / 1024))),
           (''threads'', PInt (int (rd_threads r))), (''open_files'', PInt (int (rd_files r))),
           (''connections'', PInt (int (rd_connections r)))])"

text \<open>A failed reading is part of the answer and changes neither the status nor the code of the health endpoint.\<close>

lemma metrics_never_matter:
  "hr_status (full_health_check t1 t2 hc p reg (get_system_metrics r)) = hr_status (full_health_check t1 t2 hc p reg m)"
  by (simp add: full_health_check_def Let_def)

definition liveness_probe :: "instant \<Rightarrow> (string, py_val) dict" where
  "liveness_probe t = [(''status'', PStr ''alive''), (''timestamp'', PFloat t)]"

definition readiness_probe :: "health_check_response \<Rightarrow> (string, py_val) dict \<times> int" where
  "readiness_probe health_check =
     (if hr_status health_check = UNHEALTHY then (response_to_dict health_check, 503)
      else (response_to_dict health_check, 200))"

definition create_health_endpoint :: "health_check_response \<Rightarrow> (string, py_val) dict \<times> int" where
  "create_health_endpoint health_check =
     (let response = response_to_dict health_check in
      case hr_status health_check of
        HEALTHY \<Rightarrow> (response, 200) | DEGRADED \<Rightarrow> (response, 200) | UNHEALTHY \<Rightarrow> (response, 503))"


section \<open>Facts about the overall status\<close>

definition not_healthy :: "component_health list \<Rightarrow> nat" where
  "not_healthy cs = length (filter (\<lambda>c. ch_status c \<noteq> HEALTHY) cs)"

lemma counts_not_healthy:
  "length (filter (\<lambda>c. ch_status c = UNHEALTHY) cs) + length (filter (\<lambda>c. ch_status c = DEGRADED) cs)
     = not_healthy cs"
proof (induction cs)
  case (Cons c cs)
  then show ?case by (cases "ch_status c") (simp_all add: not_healthy_def)
qed (simp add: not_healthy_def)

lemma critical_unhealthy_iff:
  "critical_unhealthy cs \<longleftrightarrow>
     (\<exists>c \<in> set cs. ch_name c \<in> {''yugabyte'', ''redis''} \<and> ch_status c = UNHEALTHY)"
  by (induction cs) (auto simp: critical_components_def)

lemma overall_status_eq:
  "determine_overall_status cs =
     (if critical_unhealthy cs \<or> 2 \<le> not_healthy cs then UNHEALTHY
      else if not_healthy cs = 1 then DEGRADED else HEALTHY)"
proof -
  let ?u = "length (filter (\<lambda>c. ch_status c = UNHEALTHY) cs)"
  let ?d = "length (filter (\<lambda>c. ch_status c = DEGRADED) cs)"
  have "?u + ?d = not_healthy cs" by (rule counts_not_healthy)
  then have "0 < ?d \<or> 0 < ?u \<longleftrightarrow> 0 < not_healthy cs" by linarith
  then show ?thesis
    unfolding determine_overall_status_def Let_def counts_not_healthy by auto
qed

definition worsened :: "component_health list \<Rightarrow> component_health list \<Rightarrow> bool" where
  "worsened = list_all2 (\<lambda>c d. ch_name c = ch_name d \<and> ch_status c \<le> ch_status d)"

lemma status_le_HEALTHY: "s \<le> HEALTHY \<longleftrightarrow> s = HEALTHY"
  by (cases s) (simp_all add: health_order)

lemma UNHEALTHY_le: "UNHEALTHY \<le> s \<longleftrightarrow> s = UNHEALTHY"
  by (cases s) (simp_all add: health_order)

lemma worsened_not_healthy: "worsened cs ds \<Longrightarrow> not_healthy cs \<le> not_healthy ds"
  unfolding worsened_def
proof (induction rule: list_all2_induct)
  case (Cons c cs d ds)
  then show ?case by (cases "ch_status d = HEALTHY") (auto simp: not_healthy_def status_le_HEALTHY)
qed (simp add: not_healthy_def)

lemma worsened_critical: "worsened cs ds \<Longrightarrow> critical_unhealthy cs \<Longrightarrow> critical_unhealthy ds"
  unfolding worsened_def
  by (induction rule: list_all2_induct) (auto simp: UNHEALTHY_le split: if_splits)

lemma degrade_for_breakers_eq:
  "degrade_for_breakers cbs st =
     (if st = HEALTHY \<and> (\<exists>(n, m) \<in> set cbs. mv_state m = ''open'') then DEGRADED else st)"
proof (induction cbs arbitrary: st)
  case (Cons nm cbs)
  obtain n m where nm: "nm = (n, m)" by (cases nm)
  have "degrade_for_breakers (nm # cbs) st
      = degrade_for_breakers cbs (if mv_state m = ''open'' \<and> st = HEALTHY then DEGRADED else st)"
    by (simp add: degrade_for_breakers_def nm)
  then show ?case unfolding Cons.IH by (simp add: nm)
qed (simp add: degrade_for_breakers_def)

lemma open_metrics: "mv_state (cb_get_metrics b) = ''open'' \<longleftrightarrow> cb_state b = OPEN"
  by (cases "cb_state b") (simp_all add: cb_get_metrics_def Let_def)


section \<open>Properties\<close>

text \<open>A dependency that gets worse never improves the overall status.\<close>

theorem overall_status_monotone:
  assumes "worsened cs ds"
  shows "determine_overall_status cs \<le> determine_overall_status ds"
  using worsened_not_healthy [OF assms] worsened_critical [OF assms]
  by (auto simp: overall_status_eq health_order)

theorem overall_status_monotone_witness:
  "determine_overall_status [component ''redis'' HEALTHY 1 [] None, component ''acm_engine'' DEGRADED 0 [] None]
     \<le> determine_overall_status [component ''redis'' DEGRADED 0 [] None, component ''acm_engine'' UNHEALTHY 3 [] None]"
  by (rule overall_status_monotone) (simp add: worsened_def health_order)

text \<open>The readiness probe and the health endpoint answer 503 exactly when the cache or the database
  fails its probe or at least two of the three dependencies are not healthy, and 200 otherwise;
  an open circuit breaker turns a healthy report into a degraded one but never changes the code.\<close>

theorem readiness_code:
  "let comps = gather_components p; r = full_health_check t1 t2 hc p reg sm in
     snd (readiness_probe r) = (if critical_unhealthy comps \<or> 2 \<le> not_healthy comps then 503 else 200)
     \<and> create_health_endpoint r = readiness_probe r
     \<and> (hr_status r = HEALTHY \<longleftrightarrow>
          not_healthy comps = 0 \<and> (\<forall>(n, b) \<in> set reg. cb_state b \<noteq> OPEN))"
proof -
  let ?r = "full_health_check t1 t2 hc p reg sm"
  let ?c = "gather_components p"
  have st: "hr_status ?r = degrade_for_breakers (get_all_metrics reg) (determine_overall_status ?c)"
    by (simp add: full_health_check_def Let_def)
  have ex: "(\<exists>(n, m) \<in> set (get_all_metrics reg). mv_state m = ''open'')
      \<longleftrightarrow> (\<exists>(n, b) \<in> set reg. cb_state b = OPEN)"
    by (force simp: get_all_metrics_def open_metrics)
  have crit: "critical_unhealthy ?c \<Longrightarrow> 0 < not_healthy ?c"
    by (force simp: critical_unhealthy_iff not_healthy_def filter_empty_conv)
  have "create_health_endpoint ?r = readiness_probe ?r"
    by (simp add: create_health_endpoint_def readiness_probe_def Let_def split: health_status.split)
  moreover have "snd (readiness_probe ?r) = (if critical_unhealthy ?c \<or> 2 \<le> not_healthy ?c then 503 else 200)"
    by (simp add: readiness_probe_def st degrade_for_breakers_eq overall_status_eq)
  moreover have "hr_status ?r = HEALTHY \<longleftrightarrow>
      not_healthy ?c = 0 \<and> (\<forall>(n, b) \<in> set reg. cb_state b \<noteq> OPEN)"
    using crit unfolding st degrade_for_breakers_eq ex overall_status_eq by auto
  ultimately show ?thesis by (simp only: Let_def)
qed

theorem readiness_code_witness:
  "snd (readiness_probe (full_health_check 9 9 \<lparr>hc_version = ''1'', hc_node_id = ''n'', hc_start_time = 0\<rparr>
      \<lparr>yugabyte_clock = (0, 1), yugabyte_pool = Some (Inr ()), redis_clock = (0, 1, 1),
       redis_client = Some (Inl ''refused'', Inr 0), acm_clock = (0, 1, 1), acm_engine_url = ''u'',
       acm_answer = Http_timeout\<rparr> ([] :: (unit, unit, unit) cb_registry) [])) = 503"
  by (simp add: readiness_code [unfolded Let_def] gather_components_def check_yugabyte_def check_redis_def
      check_acm_engine_def critical_components_def)

end
