(* ===== verification/Effects.thy ===== *)
theory Effects
  imports Prelude
begin

text \<open>
  Python procedures that await other services. A computation takes the state it runs in and returns
  either the exception that left it or its value, together with the state at that moment: what was
  written before an exception stays written, as in the code.
\<close>

type_synonym ('s, 'x, 'a) eff = "'s \<Rightarrow> ('x + 'a) \<times> 's"

named_theorems eff_defs \<open>the computation combinators\<close>
named_theorems preserved \<open>computations that keep a predicate of the state\<close>

definition eff_return :: "'a \<Rightarrow> ('s, 'x, 'a) eff" where [eff_defs]:
  "eff_return x s = (Inr x, s)"

definition eff_raise :: "'x \<Rightarrow> ('s, 'x, 'a) eff" where [eff_defs]:
  "eff_raise e s = (Inl e, s)"

definition eff_bind :: "('s, 'x, 'a) eff \<Rightarrow> ('a \<Rightarrow> ('s, 'x, 'b) eff) \<Rightarrow> ('s, 'x, 'b) eff" where [eff_defs]:
  "eff_bind m f s = (case m s of (Inl e, s') \<Rightarrow> (Inl e, s') | (Inr x, s') \<Rightarrow> f x s')"

definition eff_then :: "('s, 'x, 'a) eff \<Rightarrow> ('s, 'x, 'b) eff \<Rightarrow> ('s, 'x, 'b) eff" where [eff_defs]:
  "eff_then m k = eff_bind m (\<lambda>_. k)"

text \<open>A pure function that may raise.\<close>

definition eff_lift :: "'x + 'a \<Rightarrow> ('s, 'x, 'a) eff" where [eff_defs]:
  "eff_lift r s = (r, s)"

definition eff_modify :: "('s \<Rightarrow> 's) \<Rightarrow> ('s, 'x, unit) eff" where [eff_defs]:
  "eff_modify g s = (Inr (), g s)"

definition eff_gets :: "('s \<Rightarrow> 'a) \<Rightarrow> ('s, 'x, 'a) eff" where [eff_defs]:
  "eff_gets g s = (Inr (g s), s)"

text \<open>\<open>try m except e: h e\<close>.\<close>

definition eff_catch :: "('s, 'x, 'a) eff \<Rightarrow> ('x \<Rightarrow> ('s, 'y, 'a) eff) \<Rightarrow> ('s, 'y, 'a) eff" where [eff_defs]:
  "eff_catch m h s = (case m s of (Inl e, s') \<Rightarrow> h e s' | (Inr x, s') \<Rightarrow> (Inr x, s'))"

text \<open>\<open>for x in xs: f x\<close>, stopped by the first exception, and the list of what the bodies return.\<close>

fun eff_for :: "'b list \<Rightarrow> ('b \<Rightarrow> ('s, 'x, unit) eff) \<Rightarrow> ('s, 'x, unit) eff" where
  "eff_for [] f = eff_return ()"
| "eff_for (x # xs) f = eff_then (f x) (eff_for xs f)"

fun eff_map :: "('b \<Rightarrow> ('s, 'x, 'a) eff) \<Rightarrow> 'b list \<Rightarrow> ('s, 'x, 'a list) eff" where
  "eff_map f [] = eff_return []"
| "eff_map f (x # xs) = eff_bind (f x) (\<lambda>y. eff_bind (eff_map f xs) (\<lambda>ys. eff_return (y # ys)))"

text \<open>A loop that carries a variable.\<close>

fun eff_fold :: "('b \<Rightarrow> 'a \<Rightarrow> ('s, 'x, 'a) eff) \<Rightarrow> 'b list \<Rightarrow> 'a \<Rightarrow> ('s, 'x, 'a) eff" where
  "eff_fold f [] a = eff_return a"
| "eff_fold f (x # xs) a = eff_bind (f x a) (eff_fold f xs)"

text \<open>A computation on one part of the state: the object's own fields, or the world it talks to.\<close>

definition on_world :: "('w, 'x, 'a) eff \<Rightarrow> ('s \<times> 'w, 'x, 'a) eff" where [eff_defs]:
  "on_world m s = (case m (snd s) of (r, w) \<Rightarrow> (r, (fst s, w)))"

definition on_self :: "('s \<Rightarrow> 's) \<Rightarrow> ('s \<times> 'w, 'x, unit) eff" where [eff_defs]:
  "on_self g s = (Inr (), (g (fst s), snd s))"


section \<open>Normal returns\<close>

lemma eff_bind_Inr_iff:
  "eff_bind m f s = (Inr y, s2) \<longleftrightarrow> (\<exists>x s1. m s = (Inr x, s1) \<and> f x s1 = (Inr y, s2))"
  by (auto simp: eff_bind_def split: prod.splits sum.splits)

lemma eff_then_Inr_iff:
  "eff_then m k s = (Inr y, s2) \<longleftrightarrow> (\<exists>x s1. m s = (Inr x, s1) \<and> k s1 = (Inr y, s2))"
  by (simp add: eff_then_def eff_bind_Inr_iff)

lemma eff_return_iff [simp]: "eff_return x s = (r, s1) \<longleftrightarrow> r = Inr x \<and> s1 = s"
  by (auto simp: eff_return_def)

lemma eff_raise_iff [simp]: "eff_raise e s = (r, s1) \<longleftrightarrow> r = Inl e \<and> s1 = s"
  by (auto simp: eff_raise_def)

lemma eff_lift_iff [simp]: "eff_lift q s = (r, s1) \<longleftrightarrow> q = r \<and> s1 = s"
  by (auto simp: eff_lift_def)

lemma eff_modify_iff [simp]: "eff_modify g s = (r, s1) \<longleftrightarrow> r = Inr () \<and> s1 = g s"
  by (auto simp: eff_modify_def)

lemma eff_gets_iff [simp]: "eff_gets g s = (r, s1) \<longleftrightarrow> r = Inr (g s) \<and> s1 = s"
  by (auto simp: eff_gets_def)

lemma on_world_Inr_iff:
  "on_world m s = (Inr y, s1) \<longleftrightarrow> (\<exists>w. m (snd s) = (Inr y, w) \<and> s1 = (fst s, w))"
  by (auto simp: on_world_def split: prod.splits)

lemma on_self_iff [simp]: "on_self g s = (r, s1) \<longleftrightarrow> r = Inr () \<and> s1 = (g (fst s), snd s)"
  by (auto simp: on_self_def)

lemma eff_catch_Inr_iff:
  "eff_catch m h s = (Inr y, s2) \<longleftrightarrow>
     m s = (Inr y, s2) \<or> (\<exists>e s1. m s = (Inl e, s1) \<and> h e s1 = (Inr y, s2))"
  by (auto simp: eff_catch_def split: prod.splits sum.splits)

lemmas eff_Inr_iffs = eff_bind_Inr_iff eff_then_Inr_iff on_world_Inr_iff

lemma eff_bind_step: "m s = (Inr x, s1) \<Longrightarrow> eff_bind m f s = f x s1"
  by (simp add: eff_bind_def)

lemma eff_then_step: "m s = (Inr x, s1) \<Longrightarrow> eff_then m k s = k s1"
  by (simp add: eff_then_def eff_bind_def)

lemma eff_bind_fails: "m s = (Inl e, s1) \<Longrightarrow> eff_bind m f s = (Inl e, s1)"
  by (simp add: eff_bind_def)

lemma eff_then_fails: "m s = (Inl e, s1) \<Longrightarrow> eff_then m k s = (Inl e, s1)"
  by (simp add: eff_then_def eff_bind_def)

lemma on_world_step: "m w = (r, w1) \<Longrightarrow> on_world m (s, w) = (r, (s, w1))"
  by (simp add: on_world_def)

lemma eff_catch_total:
  "(\<And>e s'. \<exists>x s''. h e s' = (Inr x, s'')) \<Longrightarrow> \<exists>x s'. eff_catch m h s = (Inr x, s')"
  by (auto simp: eff_catch_def split: prod.split sum.split)


lemma eff_map_append_InrD:
  "eff_map f (xs @ ys) s = (Inr zs, s2) \<Longrightarrow>
     \<exists>as bs s1. eff_map f xs s = (Inr as, s1) \<and> eff_map f ys s1 = (Inr bs, s2) \<and> zs = as @ bs"
proof (induction xs arbitrary: s zs)
  case (Cons x xs)
  then obtain z s0 rest where "f x s = (Inr z, s0)" "eff_map f (xs @ ys) s0 = (Inr rest, s2)" "zs = z # rest"
    by (auto simp: eff_bind_Inr_iff)
  with Cons.IH [of s0 rest] show ?case by (fastforce simp: eff_bind_Inr_iff)
qed simp

lemma eff_map_length: "eff_map f xs s = (Inr ys, s1) \<Longrightarrow> length ys = length xs"
  by (induction xs arbitrary: s ys) (auto simp: eff_bind_Inr_iff)


text \<open>A loop that returns keeps what each pass keeps of its variable.\<close>

lemma eff_fold_invariant:
  assumes "eff_fold f xs a s = (Inr b, s')" and "I a"
    and "\<And>x a b s s'. x \<in> set xs \<Longrightarrow> I a \<Longrightarrow> f x a s = (Inr b, s') \<Longrightarrow> I b"
  shows "I b"
  using assms
proof (induction xs arbitrary: a s)
  case (Cons x xs)
  from Cons.prems(1) obtain c s1 where c: "f x a s = (Inr c, s1)" "eff_fold f xs c s1 = (Inr b, s')"
    by (auto simp: eff_bind_Inr_iff)
  moreover have "I c" using Cons.prems(3) [OF _ Cons.prems(2) c(1)] by simp
  ultimately show ?case using Cons.IH Cons.prems(3) by (meson list.set_intros(2))
qed simp


section \<open>Predicates a computation keeps, exceptions included\<close>

definition keeps :: "('s \<Rightarrow> bool) \<Rightarrow> ('s, 'x, 'a) eff \<Rightarrow> bool" where
  "keeps P m \<longleftrightarrow> (\<forall>s. P s \<longrightarrow> P (snd (m s)))"

lemma keepsI: "(\<And>s r s'. P s \<Longrightarrow> m s = (r, s') \<Longrightarrow> P s') \<Longrightarrow> keeps P m"
  by (metis keeps_def prod.exhaust_sel)

lemma keepsD: "keeps P m \<Longrightarrow> P s \<Longrightarrow> m s = (r, s') \<Longrightarrow> P s'"
  by (metis keeps_def snd_conv)

lemma keeps_return [preserved, intro]: "keeps P (eff_return x)"
  by (simp add: keeps_def eff_return_def)

lemma keeps_raise [preserved, intro]: "keeps P (eff_raise e)"
  by (simp add: keeps_def eff_raise_def)

lemma keeps_lift [preserved, intro]: "keeps P (eff_lift r)"
  by (simp add: keeps_def eff_lift_def)

lemma keeps_gets [preserved, intro]: "keeps P (eff_gets g)"
  by (simp add: keeps_def eff_gets_def)

lemma keeps_bind [preserved, intro]: "keeps P m \<Longrightarrow> (\<And>x. keeps P (f x)) \<Longrightarrow> keeps P (eff_bind m f)"
  by (fastforce simp: keeps_def eff_bind_def split: prod.split sum.split)

lemma keeps_bind_result:
  "keeps P m \<Longrightarrow> (\<And>s x s'. m s = (Inr x, s') \<Longrightarrow> keeps P (f x)) \<Longrightarrow> keeps P (eff_bind m f)"
  by (fastforce simp: keeps_def eff_bind_def split: prod.split sum.split)

lemma keeps_then [preserved, intro]: "keeps P m \<Longrightarrow> keeps P k \<Longrightarrow> keeps P (eff_then m k)"
  by (simp add: eff_then_def keeps_bind)

lemma keeps_catch [preserved, intro]: "keeps P m \<Longrightarrow> (\<And>e. keeps P (h e)) \<Longrightarrow> keeps P (eff_catch m h)"
  by (fastforce simp: keeps_def eff_catch_def split: prod.split sum.split)

lemma keeps_for [preserved, intro]: "(\<And>x. x \<in> set xs \<Longrightarrow> keeps P (f x)) \<Longrightarrow> keeps P (eff_for xs f)"
  by (induction xs) (auto intro: keeps_return keeps_then)

lemma keeps_map [preserved, intro]: "(\<And>x. x \<in> set xs \<Longrightarrow> keeps P (f x)) \<Longrightarrow> keeps P (eff_map f xs)"
  by (induction xs) (auto intro!: keeps_return keeps_bind)

lemma keeps_fold [preserved, intro]: "(\<And>x a. x \<in> set xs \<Longrightarrow> keeps P (f x a)) \<Longrightarrow> keeps P (eff_fold f xs a)"
  by (induction xs arbitrary: a) (auto intro: keeps_return keeps_bind)

lemma keeps_if [preserved]: "keeps P m \<Longrightarrow> keeps P k \<Longrightarrow> keeps P (if b then m else k)"
  by simp

lemma keeps_case_prod [preserved]: "(\<And>a b. keeps P (f a b)) \<Longrightarrow> keeps P (case x of (a, b) \<Rightarrow> f a b)"
  by (simp split: prod.split)

lemma keeps_case_option [preserved]:
  "keeps P m \<Longrightarrow> (\<And>a. keeps P (f a)) \<Longrightarrow> keeps P (case x of None \<Rightarrow> m | Some a \<Rightarrow> f a)"
  by (simp split: option.split)

lemma keeps_on_world: "(\<And>s. keeps (\<lambda>w. P (s, w)) m) \<Longrightarrow> keeps P (on_world m)"
  by (fastforce simp: keeps_def on_world_def split: prod.split)


text \<open>A predicate that is kept unless the computation ends in one of the results \<open>R\<close>.\<close>

definition keeps_unless :: "('s \<Rightarrow> bool) \<Rightarrow> ('x + 'a \<Rightarrow> bool) \<Rightarrow> ('s, 'x, 'a) eff \<Rightarrow> bool" where
  "keeps_unless P R m \<longleftrightarrow> (\<forall>s. P s \<longrightarrow> P (snd (m s)) \<or> R (fst (m s)))"

lemma keeps_unlessD: "keeps_unless P R m \<Longrightarrow> P s \<Longrightarrow> m s = (r, s') \<Longrightarrow> \<not> R r \<Longrightarrow> P s'"
  by (metis keeps_unless_def fst_conv snd_conv)

lemma keeps_unlessI: "keeps P m \<Longrightarrow> keeps_unless P R m"
  by (simp add: keeps_def keeps_unless_def)

lemma keeps_unless_bind:
  "keeps P m \<Longrightarrow> (\<And>x. keeps_unless P R (f x)) \<Longrightarrow> keeps_unless P R (eff_bind m f)"
  by (fastforce simp: keeps_def keeps_unless_def eff_bind_def split: prod.split sum.split)



section \<open>Computations that raise a measure by at most \<open>k\<close>\<close>

definition grows :: "('s \<Rightarrow> nat) \<Rightarrow> nat \<Rightarrow> ('s, 'x, 'a) eff \<Rightarrow> bool" where
  "grows c k m \<longleftrightarrow> (\<forall>s. c (snd (m s)) \<le> c s + k)"

lemma keeps_le: "(\<forall>n. keeps (\<lambda>s. c s \<le> (n::nat)) m) \<longleftrightarrow> (\<forall>s. c (snd (m s)) \<le> c s)"
  by (auto simp: keeps_def intro: order_trans)

lemma grows_zero: "(\<And>n. keeps (\<lambda>s. c s \<le> n) m) \<Longrightarrow> grows c k m"
  using keeps_le [of c m] by (simp add: grows_def trans_le_add1)

lemma grows_return: "grows c k (eff_return x)"
  by (simp add: grows_def eff_return_def)

text \<open>One step of a sequence may raise the measure.\<close>

lemma grows_bind:
  assumes "\<And>n. keeps (\<lambda>s. c s \<le> n) m" and "\<And>x. grows c k (f x)"
  shows "grows c k (eff_bind m f)"
  unfolding grows_def
proof
  fix s
  have m: "c (snd (m s)) \<le> c s" using assms(1) keeps_le [of c m] by blast
  show "c (snd (eff_bind m f s)) \<le> c s + k"
  proof (cases "m s")
    case (Pair r s1)
    then have "c (snd (f x s1)) \<le> c s + k" for x
      using assms(2) [of x] m unfolding grows_def by (metis add_le_mono1 order_trans snd_conv)
    with Pair m show ?thesis by (auto simp: eff_bind_def trans_le_add1 split: sum.split)
  qed
qed

lemma grows_bind_first:
  assumes "grows c k m" and "\<And>x n. keeps (\<lambda>s. c s \<le> n) (f x)"
  shows "grows c k (eff_bind m f)"
  unfolding grows_def
proof
  fix s
  have "c (snd (f x s1)) \<le> c s1" for x s1 using assms(2) keeps_le [of c "f x"] by blast
  moreover have "c (snd (m s)) \<le> c s + k" using assms(1) by (simp add: grows_def)
  ultimately show "c (snd (eff_bind m f s)) \<le> c s + k"
    by (cases "m s") (auto simp: eff_bind_def split: sum.split intro: order_trans)
qed

lemma grows_catch:
  assumes "grows c k m" and "\<And>e n. keeps (\<lambda>s. c s \<le> n) (h e)"
  shows "grows c k (eff_catch m h)"
  unfolding grows_def
proof
  fix s
  have "c (snd (h e s1)) \<le> c s1" for e s1 using assms(2) keeps_le [of c "h e"] by blast
  moreover have "c (snd (m s)) \<le> c s + k" using assms(1) by (simp add: grows_def)
  ultimately show "c (snd (eff_catch m h s)) \<le> c s + k"
    by (cases "m s") (auto simp: eff_catch_def split: sum.split intro: order_trans)
qed

lemma grows_if: "grows c k m \<Longrightarrow> grows c k m' \<Longrightarrow> grows c k (if b then m else m')"
  by simp


section \<open>Computations that return whatever the state\<close>

definition returns :: "('s, 'x, 'a) eff \<Rightarrow> bool" where
  "returns m \<longleftrightarrow> (\<forall>w. \<exists>x w'. m w = (Inr x, w'))"

lemma returns_bind: "returns m \<Longrightarrow> (\<And>x. returns (f x)) \<Longrightarrow> returns (eff_bind m f)"
  unfolding returns_def by (metis eff_bind_step)

lemma returns_then: "returns m \<Longrightarrow> returns k \<Longrightarrow> returns (eff_then m k)"
  unfolding eff_then_def by (rule returns_bind)

lemma returns_return: "returns (eff_return x)"
  by (simp add: returns_def)

lemma returns_for: "(\<And>x. returns (f x)) \<Longrightarrow> returns (eff_for xs f)"
  by (induction xs) (simp_all add: returns_return returns_then)

lemma returns_catch: "(\<And>e. returns (h e)) \<Longrightarrow> returns (eff_catch m h)"
  unfolding returns_def using eff_catch_total [of h m] by blast

lemma returns_if: "returns m \<Longrightarrow> returns k \<Longrightarrow> returns (if b then m else k)"
  by simp

lemmas returns_intros = returns_bind returns_then returns_for returns_return returns_catch returns_if

end
