(* ===== verification/ValueObjects.thy ===== *)
theory ValueObjects
  imports PyText
begin

text \<open>
  The value objects of \<open>services/sip-processor/app/domain/value_objects/value_objects.py\<close>: a value
  exists only if its constructor's validation passed, so every constructor is a function into a sum.
  The IPv6 half of the \<open>ipaddress\<close> module is the argument \<open>parse6\<close> (the address and whether it is
  private); its IPv4 half is written out, with the private networks of CPython 3.11 (the image of the service's Dockerfile).
\<close>

datatype domain_error =
    InvalidMSISDNError string
  | InvalidIPAddressError string
  | ValueError string


section \<open>MSISDN\<close>

definition nigerian_prefixes :: "(string \<times> string list) list" where
  "nigerian_prefixes =
     [(''MTN'', [''0803'', ''0806'', ''0703'', ''0706'', ''0813'', ''0816'', ''0814'', ''0903'', ''0906'']),
      (''GLO'', [''0805'', ''0807'', ''0705'', ''0815'', ''0811'', ''0905'']),
      (''AIRTEL'', [''0802'', ''0808'', ''0708'', ''0812'', ''0701'', ''0902'', ''0901'', ''0907'']),
      (''9MOBILE'', [''0809'', ''0818'', ''0817'', ''0909'', ''0908''])]"

datatype msisdn = MSISDN (msisdn_value: string)

text \<open>The pattern \<open>^\+?234[0-9]{10}$\<close>; \<open>$\<close> also matches before a newline that ends the string.\<close>

definition msisdn_is_valid :: "string \<Rightarrow> bool" where
  "msisdn_is_valid v =
     (let r = (if startswith ''+'' v then tl v else v); d = drop 3 r in
      startswith ''234'' r \<and> 10 \<le> length d \<and> list_all is_digit (take 10 d)
      \<and> (drop 10 d = [] \<or> drop 10 d = [CHR 0x0A]))"

definition mk_msisdn :: "string \<Rightarrow> domain_error + msisdn" where
  "mk_msisdn v = (if \<not> msisdn_is_valid v then Inl (InvalidMSISDNError (''Invalid MSISDN format: '' @ v))
                  else Inr (MSISDN v))"

text \<open>The character class \<open>[\s\-]\<close>.\<close>

definition is_separator :: "char \<Rightarrow> bool" where
  "is_separator c \<longleftrightarrow> is_space c \<or> c = CHR ''-''"

definition msisdn_normalize :: "string \<Rightarrow> string" where
  "msisdn_normalize v =
     (let cleaned = filter (\<lambda>c. \<not> is_separator c) v in
      if startswith ''0'' cleaned \<and> length cleaned = 11 then ''+234'' @ drop 1 cleaned
      else if startswith ''234'' cleaned \<and> length cleaned = 13 then ''+'' @ cleaned
      else if startswith ''+234'' cleaned \<and> length cleaned = 14 then cleaned
      else cleaned)"

definition msisdn_from_string :: "string \<Rightarrow> domain_error + msisdn" where
  "msisdn_from_string v = mk_msisdn (msisdn_normalize v)"

definition msisdn_prefix :: "msisdn \<Rightarrow> string" where
  "msisdn_prefix m =
     (if startswith ''+234'' (msisdn_value m) then ''0'' @ take 3 (drop 4 (msisdn_value m))
      else take 4 (msisdn_value m))"

fun find_carrier :: "string \<Rightarrow> (string \<times> string list) list \<Rightarrow> string option" where
  "find_carrier p [] = None"
| "find_carrier p ((carrier, ps) # rest) =
     (if p \<in> set ps then Some carrier else find_carrier p rest)"

definition msisdn_carrier :: "msisdn \<Rightarrow> string option" where
  "msisdn_carrier m = find_carrier (msisdn_prefix m) nigerian_prefixes"

definition is_nigerian :: "msisdn \<Rightarrow> bool" where
  "is_nigerian m \<longleftrightarrow> startswith ''+234'' (msisdn_value m)"


section \<open>IP addresses\<close>

datatype parsed_ip = IPv4 int | IPv6 int bool

text \<open>An octet has one to three digits, no superfluous leading zero, and is at most 255.\<close>

definition parse_octet :: "string \<Rightarrow> int option" where
  "parse_octet s =
     (if s \<noteq> [] \<and> list_all is_digit s \<and> length s \<le> 3 \<and> (hd s = CHR ''0'' \<longrightarrow> length s = 1)
         \<and> digits_value s \<le> 255
      then Some (int (digits_value s)) else None)"

definition parse_ipv4 :: "string \<Rightarrow> int option" where
  "parse_ipv4 s =
     (case split_on (CHR ''.'') s of
        [a, b, c, d] \<Rightarrow>
          (case (parse_octet a, parse_octet b, parse_octet c, parse_octet d) of
             (Some a, Some b, Some c, Some d) \<Rightarrow> Some (((a * 256 + b) * 256 + c) * 256 + d)
           | _ \<Rightarrow> None)
      | _ \<Rightarrow> None)"

definition py_ip_address :: "(string \<Rightarrow> (int \<times> bool) option) \<Rightarrow> string \<Rightarrow> parsed_ip option" where
  "py_ip_address parse6 s =
     (case parse_ipv4 s of Some n \<Rightarrow> Some (IPv4 n) | None \<Rightarrow> map_option (\<lambda>(n, p). IPv6 n p) (parse6 s))"

definition in_network :: "int \<Rightarrow> int \<times> nat \<Rightarrow> bool" where
  "in_network n net = (case net of (base, bits) \<Rightarrow> n div 2 ^ (32 - bits) = base div 2 ^ (32 - bits))"

definition quad :: "int \<Rightarrow> int \<Rightarrow> int \<Rightarrow> int \<Rightarrow> int" where
  "quad a b c d = ((a * 256 + b) * 256 + c) * 256 + d"

definition private_networks :: "(int \<times> nat) list" where
  "private_networks =
     [(quad 0 0 0 0, 8), (quad 10 0 0 0, 8), (quad 127 0 0 0, 8), (quad 169 254 0 0, 16),
      (quad 172 16 0 0, 12), (quad 192 0 0 0, 24), (quad 192 0 0 170, 31), (quad 192 0 2 0, 24),
      (quad 192 168 0 0, 16), (quad 198 18 0 0, 15), (quad 198 51 100 0, 24), (quad 203 0 113 0, 24),
      (quad 240 0 0 0, 4), (quad 255 255 255 255, 32)]"

definition private_exceptions :: "(int \<times> nat) list" where
  "private_exceptions = [(quad 192 0 0 9, 32), (quad 192 0 0 10, 32)]"

datatype ip_addr = IPAddress (ip_value: string) (ip_parsed: parsed_ip)

definition mk_ip :: "(string \<Rightarrow> (int \<times> bool) option) \<Rightarrow> string \<Rightarrow> domain_error + ip_addr" where
  "mk_ip parse6 s =
     (case py_ip_address parse6 s of
        Some p \<Rightarrow> Inr (IPAddress s p)
      | None \<Rightarrow> Inl (InvalidIPAddressError (''Invalid IP address: '' @ s)))"

definition is_ipv4 :: "ip_addr \<Rightarrow> bool" where
  "is_ipv4 ip = (case ip_parsed ip of IPv4 _ \<Rightarrow> True | IPv6 _ _ \<Rightarrow> False)"

definition is_ipv6 :: "ip_addr \<Rightarrow> bool" where
  "is_ipv6 ip = (case ip_parsed ip of IPv4 _ \<Rightarrow> False | IPv6 _ _ \<Rightarrow> True)"

definition ip_is_private :: "ip_addr \<Rightarrow> bool" where
  "ip_is_private ip =
     (case ip_parsed ip of IPv4 n \<Rightarrow> list_ex (in_network n) private_networks
                    \<and> \<not> list_ex (in_network n) private_exceptions
                 | IPv6 _ p \<Rightarrow> p)"

definition is_likely_international :: "ip_addr \<Rightarrow> bool" where
  "is_likely_international ip \<longleftrightarrow> \<not> ip_is_private ip"


section \<open>Severity, fraud types and scores\<close>

datatype severity = LOW | MEDIUM | HIGH | CRITICAL

fun severity_value :: "severity \<Rightarrow> nat" where
  "severity_value LOW = 1"
| "severity_value MEDIUM = 2"
| "severity_value HIGH = 3"
| "severity_value CRITICAL = 4"

definition severity_from_score :: "rat \<Rightarrow> severity" where
  "severity_from_score score =
     (if score \<ge> 9/10 then CRITICAL else if score \<ge> 3/4 then HIGH
      else if score \<ge> 1/2 then MEDIUM else LOW)"

datatype fraud_type = CLI_MASKING | SIMBOX | WANGIRI | IRSF | PBX_HACKING | UNKNOWN

fun fraud_type_value :: "fraud_type \<Rightarrow> string" where
  "fraud_type_value CLI_MASKING = ''cli_masking''"
| "fraud_type_value SIMBOX = ''simbox''"
| "fraud_type_value WANGIRI = ''wangiri''"
| "fraud_type_value IRSF = ''irsf''"
| "fraud_type_value PBX_HACKING = ''pbx_hacking''"
| "fraud_type_value UNKNOWN = ''unknown''"

datatype fraud_score = FraudScore (score_value: rat)

definition mk_score :: "rat \<Rightarrow> fraud_score" where
  "mk_score v = FraudScore (max 0 (min 1 v))"

definition score_severity :: "fraud_score \<Rightarrow> severity" where
  "score_severity s = severity_from_score (score_value s)"

definition is_high_confidence :: "fraud_score \<Rightarrow> bool" where
  "is_high_confidence s \<longleftrightarrow> score_value s \<ge> 8/10"

definition exceeds_block_threshold :: "fraud_score \<Rightarrow> bool" where
  "exceeds_block_threshold s \<longleftrightarrow> score_value s \<ge> 9/10"


section \<open>Identifiers and configuration values\<close>

datatype call_id = CallId (call_id_value: string)

definition mk_call_id :: "string \<Rightarrow> domain_error + call_id" where
  "mk_call_id v = (if v = [] \<or> length (py_strip v) = 0 then Inl (ValueError ''CallId cannot be empty'')
                   else Inr (CallId v))"

datatype detection_window = DetectionWindow (window_seconds: int)

definition mk_window :: "int \<Rightarrow> domain_error + detection_window" where
  "mk_window s = (if s < 1 \<or> s > 60
     then Inl (ValueError (''Detection window must be 1-60 seconds, got '' @ show_int s))
     else Inr (DetectionWindow s))"

datatype detection_threshold = DetectionThreshold (distinct_callers: int)

definition mk_threshold :: "int \<Rightarrow> domain_error + detection_threshold" where
  "mk_threshold n = (if n < 2 \<or> n > 100
     then Inl (ValueError (''Threshold must be 2-100 callers, got '' @ show_int n))
     else Inr (DetectionThreshold n))"


section \<open>Lemmas\<close>

lemma is_digit_sep: "is_digit c \<Longrightarrow> \<not> is_separator c"
  by (auto simp: is_separator_def is_digit_def is_space_def Let_def char_code_def)

lemma clean_digits [simp]: "list_all is_digit d \<Longrightarrow> filter (\<lambda>c. \<not> is_separator c) d = d"
  by (rule filter_True) (auto simp: list_all_iff dest: is_digit_sep)

definition canonical :: "string \<Rightarrow> bool" where
  "canonical v \<longleftrightarrow> (\<exists>d. v = ''+234'' @ d \<and> length d = 10 \<and> list_all is_digit d)"

lemma separator_literals [simp]:
  "\<not> is_separator CHR ''0''" "\<not> is_separator CHR ''2''" "\<not> is_separator CHR ''3''"
  "\<not> is_separator CHR ''4''" "\<not> is_separator CHR ''+''" "is_separator CHR 0x0A"
  by (simp_all add: is_separator_def is_space_def char_code_def Let_def)

lemma canonical_valid: "canonical v \<Longrightarrow> msisdn_is_valid v"
  by (auto simp: canonical_def msisdn_is_valid_def Let_def)

lemma normalize_canonical: "canonical v \<Longrightarrow> msisdn_normalize v = v"
  by (auto simp: canonical_def msisdn_normalize_def Let_def clean_digits)

lemma from_string_canonical: "canonical v \<Longrightarrow> msisdn_from_string v = Inr (MSISDN v)"
  by (simp add: msisdn_from_string_def mk_msisdn_def normalize_canonical canonical_valid)

text \<open>A valid text without white space, as the normalisation leaves it.\<close>

lemma valid_body:
  assumes "msisdn_is_valid v"
  obtains p d e where "v = p @ ''234'' @ d @ e" "p = [] \<or> p = ''+''" "length d = 10"
    "list_all is_digit d" "e = [] \<or> e = [CHR 0x0A]"
proof -
  let ?r = "if startswith ''+'' v then tl v else v"
  let ?p = "if startswith ''+'' v then ''+'' else []"
  have v: "v = ?p @ ?r" by (auto simp: startswith_iff)
  obtain d where r: "?r = ''234'' @ d" and d: "10 \<le> length d"
    "list_all is_digit (take 10 d)" "drop 10 d = [] \<or> drop 10 d = [CHR 0x0A]"
    using assms unfolding msisdn_is_valid_def Let_def startswith_iff [of "''234''"] by force
  show thesis
  proof (rule that)
    show "v = ?p @ ''234'' @ take 10 d @ drop 10 d" using v unfolding r by simp
  qed (use d in auto)
qed

lemma valid_no_separator:
  assumes "msisdn_is_valid v" and "filter (\<lambda>c. \<not> is_separator c) v = v"
  shows "canonical v \<or> (startswith ''234'' v \<and> length v = 13)"
proof -
  have "\<forall>c \<in> set v. \<not> is_separator c" using assms(2) by (simp add: filter_id_conv)
  then have "CHR 0x0A \<notin> set v" by auto
  with assms(1) show ?thesis
    by (elim valid_body) (auto simp: canonical_def)
qed

lemma normalize_clean: "filter (\<lambda>c. \<not> is_separator c) (msisdn_normalize v) = msisdn_normalize v"
proof -
  have "filter (\<lambda>c. \<not> is_separator c) (drop 1 w) = drop 1 w"
    if "filter (\<lambda>c. \<not> is_separator c) w = w" for w
    using that by (auto simp: filter_id_conv dest: in_set_dropD)
  then show ?thesis by (simp add: msisdn_normalize_def Let_def)
qed

lemma from_string_InrD:
  assumes "msisdn_from_string v = Inr m"
  shows "canonical (msisdn_value m)"
proof -
  have m: "m = MSISDN (msisdn_normalize v)" and valid: "msisdn_is_valid (msisdn_normalize v)"
    using assms by (auto simp: msisdn_from_string_def mk_msisdn_def split: if_splits)
  have "\<not> (startswith ''234'' (msisdn_normalize v) \<and> length (msisdn_normalize v) = 13)"
    by (auto simp: msisdn_normalize_def Let_def startswith_iff)
  then show ?thesis
    using valid_no_separator [OF valid normalize_clean] unfolding m by auto
qed

lemma from_string_formats:
  assumes "length d = 10" and "list_all is_digit d"
  shows "msisdn_from_string (''0'' @ d) = Inr (MSISDN (''+234'' @ d))"
    and "msisdn_from_string (''234'' @ d) = Inr (MSISDN (''+234'' @ d))"
    and "msisdn_from_string (''+234'' @ d) = Inr (MSISDN (''+234'' @ d))"
proof -
  have "canonical (''+234'' @ d)" using assms by (auto simp: canonical_def)
  then have "msisdn_is_valid (''+234'' @ d)" by (rule canonical_valid)
  then show "msisdn_from_string (''0'' @ d) = Inr (MSISDN (''+234'' @ d))"
    and "msisdn_from_string (''234'' @ d) = Inr (MSISDN (''+234'' @ d))"
    and "msisdn_from_string (''+234'' @ d) = Inr (MSISDN (''+234'' @ d))"
    using assms by (simp_all add: msisdn_from_string_def mk_msisdn_def msisdn_normalize_def Let_def)
qed

lemma from_string_separators:
  "filter (\<lambda>c. \<not> is_separator c) v = filter (\<lambda>c. \<not> is_separator c) w \<Longrightarrow>
     msisdn_from_string v = msisdn_from_string w"
  by (simp add: msisdn_from_string_def msisdn_normalize_def)

text \<open>No prefix belongs to two carriers, so the order of the table does not matter.\<close>

fun no_shared_prefix :: "(string \<times> string list) list \<Rightarrow> bool" where
  "no_shared_prefix [] = True"
| "no_shared_prefix ((c, ps) # rest) =
     (list_all (\<lambda>(_, qs). list_all (\<lambda>p. p \<notin> set qs) ps) rest \<and> no_shared_prefix rest)"

lemma find_carrier_iff:
  "no_shared_prefix tab \<Longrightarrow>
     find_carrier p tab = Some c \<longleftrightarrow> (\<exists>ps. (c, ps) \<in> set tab \<and> p \<in> set ps)"
proof (induction tab rule: no_shared_prefix.induct)
  case (2 c' ps' rest)
  then have ih: "find_carrier p rest = Some c \<longleftrightarrow> (\<exists>ps. (c, ps) \<in> set rest \<and> p \<in> set ps)" by simp
  have "p \<in> set ps' \<Longrightarrow> \<not> (\<exists>ps. (c, ps) \<in> set rest \<and> p \<in> set ps)"
    using "2.prems" by (auto simp: list_all_iff)
  with ih show ?case by auto
qed simp

lemma prefixes_disjoint: "no_shared_prefix nigerian_prefixes"
  by code_simp

lemma carrier_iff:
  "msisdn_carrier m = Some c \<longleftrightarrow> (\<exists>ps. (c, ps) \<in> set nigerian_prefixes \<and> msisdn_prefix m \<in> set ps)"
  unfolding msisdn_carrier_def by (rule find_carrier_iff [OF prefixes_disjoint])

lemma severity_value_inject [simp]: "severity_value a = severity_value b \<longleftrightarrow> a = b"
  by (cases a; cases b) simp_all

interpretation severity_bands: banding severity_from_score severity_value
  by unfold_locales (auto simp: severity_from_score_def)

instantiation severity :: linorder
begin

definition less_eq_severity :: "severity \<Rightarrow> severity \<Rightarrow> bool" where
  "less_eq_severity a b \<longleftrightarrow> severity_value a \<le> severity_value b"

definition less_severity :: "severity \<Rightarrow> severity \<Rightarrow> bool" where
  "less_severity a b \<longleftrightarrow> severity_value a < severity_value b"

instance
  by standard (auto simp: less_eq_severity_def less_severity_def)

end

lemma mk_score_bounds: "0 \<le> score_value (mk_score v)" "score_value (mk_score v) \<le> 1"
  by (simp_all add: mk_score_def)

lemma mk_score_id: "0 \<le> v \<Longrightarrow> v \<le> 1 \<Longrightarrow> score_value (mk_score v) = v"
  by (simp add: mk_score_def)


section \<open>Properties\<close>

text \<open>C20: A number accepted by \<open>MSISDN.from_string\<close> is always stored as +234 and ten digits, counts as
  Nigerian, and is a fixed point of \<open>from_string\<close>.\<close>

theorem from_string_sound:
  assumes "msisdn_from_string v = Inr m"
  shows "(\<exists>d. msisdn_value m = ''+234'' @ d \<and> length d = 10 \<and> list_all is_digit d)
    \<and> is_nigerian m \<and> msisdn_from_string (msisdn_value m) = Inr m"
proof -
  have c: "canonical (msisdn_value m)" using assms by (rule from_string_InrD)
  then have "is_nigerian m" by (auto simp: is_nigerian_def canonical_def)
  with c from_string_canonical [OF c] show ?thesis by (simp add: canonical_def)
qed

theorem from_string_sound_witness:
  "is_nigerian (MSISDN ''+2348031234567'')
   \<and> msisdn_from_string ''+2348031234567'' = Inr (MSISDN ''+2348031234567'')"
proof -
  have "msisdn_from_string ''0803-123 4567'' = Inr (MSISDN ''+2348031234567'')" by code_simp
  from from_string_sound [OF this] show ?thesis by simp
qed

text \<open>The local, the international and the E.164 spelling of a number, with any white space and
  dashes between the characters, denote the same subscriber.\<close>

theorem from_string_spellings:
  assumes "length d = 10" and "list_all is_digit d"
    and "filter (\<lambda>c. \<not> is_separator c) v \<in> {''0'' @ d, ''234'' @ d, ''+234'' @ d}"
  shows "msisdn_from_string v = Inr (MSISDN (''+234'' @ d))"
proof -
  have "msisdn_from_string v = msisdn_from_string (filter (\<lambda>c. \<not> is_separator c) v)"
    by (rule from_string_separators) simp
  then show ?thesis using from_string_formats [OF assms(1,2)] assms(3) by auto
qed

theorem from_string_spellings_witness:
  "msisdn_from_string '' 0803-123-4567 '' = Inr (MSISDN ''+2348031234567'')"
  using from_string_spellings [of "''8031234567''" "'' 0803-123-4567 ''"]
  by (simp add: is_digit_def is_separator_def is_space_def char_code_def Let_def)

text \<open>A number has at most one carrier, whatever the order of the prefix table: the carrier is
  the one in whose list the number's prefix occurs.\<close>

theorem carrier_unique:
  "(msisdn_carrier m = Some c \<longleftrightarrow> (\<exists>ps. (c, ps) \<in> set nigerian_prefixes \<and> msisdn_prefix m \<in> set ps))
   \<and> msisdn_prefix (MSISDN (''+234'' @ d)) = ''0'' @ take 3 d"
  by (simp add: carrier_iff msisdn_prefix_def)

text \<open>The constructor, unlike \<open>from_string\<close>, admits two texts that are not E.164: a number that
  ends in a line feed, and a number without its plus sign, which then is not Nigerian and has no
  carrier.\<close>

theorem msisdn_constructor_gaps:
  "mk_msisdn (''+2348031234567'' @ [CHR 0x0A]) = Inr (MSISDN (''+2348031234567'' @ [CHR 0x0A]))
   \<and> mk_msisdn ''2348031234567'' = Inr (MSISDN ''2348031234567'')
   \<and> \<not> is_nigerian (MSISDN ''2348031234567'') \<and> msisdn_carrier (MSISDN ''2348031234567'') = None"
  by code_simp

text \<open>A fraud score always lies between 0 and 1, a higher score never lowers the severity, and
  the block threshold is exactly the critical band.\<close>

theorem score_severity_bands:
  "0 \<le> score_value (mk_score v) \<and> score_value (mk_score v) \<le> 1
   \<and> (v \<le> w \<longrightarrow> score_severity (mk_score v) \<le> score_severity (mk_score w))
   \<and> (exceeds_block_threshold (mk_score v) \<longleftrightarrow> score_severity (mk_score v) = CRITICAL)"
proof -
  have "v \<le> w \<Longrightarrow> score_value (mk_score v) \<le> score_value (mk_score w)"
    by (auto simp: mk_score_def max_def min_def)
  then have "v \<le> w \<longrightarrow> score_severity (mk_score v) \<le> score_severity (mk_score w)"
    by (auto simp: score_severity_def less_eq_severity_def intro: severity_bands.band_mono)
  then show ?thesis
    by (simp add: mk_score_bounds exceeds_block_threshold_def score_severity_def severity_from_score_def)
qed

theorem score_severity_bands_witness:
  "score_severity (mk_score (4/5)) \<le> score_severity (mk_score (3/2)) \<and> score_severity (mk_score (3/2)) = CRITICAL"
  using score_severity_bands [of "4/5" "3/2"] score_severity_bands [of "3/2" "3/2"]
  by (simp add: exceeds_block_threshold_def mk_score_def)

end
