(* ===== verification/Entities.thy ===== *)
theory Entities
  imports ValueObjects
begin

text \<open>
  The entities of \<open>services/sip-processor/app/domain/entities/entities.py\<close>: calls, fraud alerts and
  blacklist entries with the guards of their state changes. An operation that raises is on the left
  of its result; all of them raise before they write. Fresh identifiers and clock readings are
  arguments, one per call of \<open>uuid4\<close> or \<open>utcnow\<close>.
\<close>

section \<open>Calls\<close>

datatype call_status = RINGING | ACTIVE | COMPLETED | FAILED | BLOCKED

fun call_status_value :: "call_status \<Rightarrow> string" where
  "call_status_value RINGING = ''ringing''"
| "call_status_value ACTIVE = ''active''"
| "call_status_value COMPLETED = ''completed''"
| "call_status_value FAILED = ''failed''"
| "call_status_value BLOCKED = ''blocked''"

fun call_status_name :: "call_status \<Rightarrow> string" where
  "call_status_name RINGING = ''CallStatus.RINGING''"
| "call_status_name ACTIVE = ''CallStatus.ACTIVE''"
| "call_status_name COMPLETED = ''CallStatus.COMPLETED''"
| "call_status_name FAILED = ''CallStatus.FAILED''"
| "call_status_name BLOCKED = ''CallStatus.BLOCKED''"

record call_rec =
  call_ident :: call_id
  a_number :: msisdn
  b_number :: msisdn
  source_ip :: ip_addr
  call_timestamp :: instant
  call_state :: call_status
  switch_id :: "string option"
  raw_call_id :: "string option"
  is_flagged :: bool
  call_alert_id :: "string option"
  call_score :: fraud_score
  call_created_at :: instant
  call_updated_at :: instant

definition flag_as_fraud :: "instant \<Rightarrow> string \<Rightarrow> fraud_score \<Rightarrow> call_rec \<Rightarrow> domain_error + call_rec" where
  "flag_as_fraud now alert_id score c =
     (if is_flagged c then Inl (ValueError ''Call is already flagged'')
      else Inr (c\<lparr>is_flagged := True, call_alert_id := Some alert_id, call_score := score,
                  call_updated_at := now\<rparr>))"

definition terminal_states :: "call_status set" where
  "terminal_states = {COMPLETED, FAILED, BLOCKED}"

definition update_status :: "instant \<Rightarrow> call_status \<Rightarrow> call_rec \<Rightarrow> domain_error + call_rec" where
  "update_status now new_status c =
     (if call_state c \<in> terminal_states
      then Inl (ValueError (''Cannot transition from '' @ call_status_name (call_state c)
                            @ '' to '' @ call_status_name new_status))
      else Inr (c\<lparr>call_state := new_status, call_updated_at := now\<rparr>))"

definition is_potential_cli_masking :: "call_rec \<Rightarrow> bool" where
  "is_potential_cli_masking c \<longleftrightarrow> is_nigerian (a_number c) \<and> is_likely_international (source_ip c)"

definition is_active :: "call_rec \<Rightarrow> bool" where
  "is_active c \<longleftrightarrow> call_state c \<in> {RINGING, ACTIVE}"

definition create_call ::
  "(string \<Rightarrow> (int \<times> bool) option) \<Rightarrow> string \<Rightarrow> instant \<times> instant \<times> instant \<Rightarrow> string \<Rightarrow> string \<Rightarrow> string \<Rightarrow>
   domain_error + call_rec" where
  "create_call parse6 uuid ts a b ip =
     (case mk_call_id uuid of Inl e \<Rightarrow> Inl e | Inr i \<Rightarrow>
      case msisdn_from_string a of Inl e \<Rightarrow> Inl e | Inr a' \<Rightarrow>
      case msisdn_from_string b of Inl e \<Rightarrow> Inl e | Inr b' \<Rightarrow>
      case mk_ip parse6 ip of Inl e \<Rightarrow> Inl e | Inr ip' \<Rightarrow>
      case ts of (t, t_created, t_updated) \<Rightarrow>
      Inr \<lparr>call_ident = i, a_number = a', b_number = b', source_ip = ip', call_timestamp = t,
           call_state = RINGING, switch_id = None, raw_call_id = None, is_flagged = False,
           call_alert_id = None, call_score = mk_score 0, call_created_at = t_created,
           call_updated_at = t_updated\<rparr>)"


section \<open>Fraud alerts\<close>

datatype alert_status = PENDING | ACKNOWLEDGED | INVESTIGATING | RESOLVED | REPORTED_NCC

datatype resolution_type = CONFIRMED_FRAUD | FALSE_POSITIVE | ESCALATED | WHITELISTED

fun resolution_value :: "resolution_type \<Rightarrow> string" where
  "resolution_value CONFIRMED_FRAUD = ''confirmed_fraud''"
| "resolution_value FALSE_POSITIVE = ''false_positive''"
| "resolution_value ESCALATED = ''escalated''"
| "resolution_value WHITELISTED = ''whitelisted''"

record fraud_alert =
  al_id :: string
  al_b_number :: msisdn
  al_fraud_type :: fraud_type
  al_score :: fraud_score
  al_severity :: severity
  al_a_numbers :: "string list"
  al_call_ids :: "string list"
  al_source_ips :: "string list"
  al_distinct_callers :: int
  al_status :: alert_status
  acknowledged_by :: "string option"
  acknowledged_at :: "instant option"
  resolved_by :: "string option"
  resolved_at :: "instant option"
  resolution :: "resolution_type option"
  resolution_notes :: "string option"
  ncc_reported :: bool
  ncc_report_id :: "string option"
  detected_at :: instant
  al_updated_at :: instant

definition acknowledge :: "instant \<times> instant \<Rightarrow> string \<Rightarrow> fraud_alert \<Rightarrow> domain_error + fraud_alert" where
  "acknowledge ts user_id a =
     (if al_status a \<noteq> PENDING then Inl (ValueError ''Only pending alerts can be acknowledged'')
      else Inr (a\<lparr>al_status := ACKNOWLEDGED, acknowledged_by := Some user_id,
                  acknowledged_at := Some (fst ts), al_updated_at := snd ts\<rparr>))"

definition start_investigation :: "instant \<Rightarrow> fraud_alert \<Rightarrow> domain_error + fraud_alert" where
  "start_investigation t a =
     (if al_status a \<noteq> ACKNOWLEDGED
      then Inl (ValueError ''Alert must be acknowledged before investigation'')
      else Inr (a\<lparr>al_status := INVESTIGATING, al_updated_at := t\<rparr>))"

definition resolve ::
  "instant \<times> instant \<Rightarrow> string \<Rightarrow> resolution_type \<Rightarrow> string option \<Rightarrow> fraud_alert \<Rightarrow> domain_error + fraud_alert" where
  "resolve ts user_id res notes a =
     (if al_status a = RESOLVED then Inl (ValueError ''Alert is already resolved'')
      else Inr (a\<lparr>al_status := RESOLVED, resolved_by := Some user_id, resolved_at := Some (fst ts),
                  resolution := Some res, resolution_notes := notes, al_updated_at := snd ts\<rparr>))"

definition report_to_ncc :: "instant \<Rightarrow> string \<Rightarrow> fraud_alert \<Rightarrow> fraud_alert" where
  "report_to_ncc t report_id a =
     a\<lparr>ncc_reported := True, ncc_report_id := Some report_id, al_status := REPORTED_NCC,
       al_updated_at := t\<rparr>"

definition should_auto_escalate :: "fraud_alert \<Rightarrow> bool" where
  "should_auto_escalate a \<longleftrightarrow> al_severity a = CRITICAL \<and> score_value (al_score a) \<ge> 95/100"

definition create_alert ::
  "string \<Rightarrow> instant \<times> instant \<Rightarrow> string \<Rightarrow> fraud_type \<Rightarrow> rat \<Rightarrow> string list \<Rightarrow> string list \<Rightarrow> string list \<Rightarrow>
   domain_error + fraud_alert" where
  "create_alert uuid ts b ft score a_nums calls ips =
     (let s = mk_score score in
      case msisdn_from_string b of Inl e \<Rightarrow> Inl e | Inr b' \<Rightarrow>
      Inr \<lparr>al_id = uuid, al_b_number = b', al_fraud_type = ft, al_score = s,
           al_severity = score_severity s, al_a_numbers = a_nums, al_call_ids = calls,
           al_source_ips = ips, al_distinct_callers = int (length (remdups a_nums)),
           al_status = PENDING, acknowledged_by = None, acknowledged_at = None, resolved_by = None,
           resolved_at = None, resolution = None, resolution_notes = None, ncc_reported = False,
           ncc_report_id = None, detected_at = fst ts, al_updated_at = snd ts\<rparr>)"


section \<open>Blacklist\<close>

record blacklist_entry =
  bl_id :: string
  entry_type :: string
  bl_value :: string
  bl_reason :: string
  bl_source :: string
  added_by :: string
  expires_at :: "instant option"
  bl_created_at :: instant

definition is_expired :: "instant \<Rightarrow> blacklist_entry \<Rightarrow> bool" where
  "is_expired now e = (case expires_at e of None \<Rightarrow> False | Some t \<Rightarrow> now > t)"

definition create_msisdn_entry ::
  "string \<Rightarrow> instant \<Rightarrow> string \<Rightarrow> string \<Rightarrow> string \<Rightarrow> domain_error + blacklist_entry" where
  "create_msisdn_entry uuid t v reason by =
     (case msisdn_from_string v of Inl e \<Rightarrow> Inl e | Inr m \<Rightarrow>
      Inr \<lparr>bl_id = uuid, entry_type = ''msisdn'', bl_value = msisdn_value m, bl_reason = reason,
           bl_source = ''manual'', added_by = by, expires_at = None, bl_created_at = t\<rparr>)"

definition create_ip_entry ::
  "(string \<Rightarrow> (int \<times> bool) option) \<Rightarrow> string \<Rightarrow> instant \<Rightarrow> string \<Rightarrow> string \<Rightarrow> string \<Rightarrow>
   domain_error + blacklist_entry" where
  "create_ip_entry parse6 uuid t ip reason by =
     (case mk_ip parse6 ip of Inl e \<Rightarrow> Inl e | Inr i \<Rightarrow>
      Inr \<lparr>bl_id = uuid, entry_type = ''ip'', bl_value = ip_value i, bl_reason = reason,
           bl_source = ''manual'', added_by = by, expires_at = None, bl_created_at = t\<rparr>)"


section \<open>Lifecycles\<close>

text \<open>Every operation on a call and on an alert as an event; a caller may catch what they raise.\<close>

datatype call_event = Flag instant string fraud_score | Update instant call_status

fun call_step :: "call_event \<Rightarrow> call_rec \<Rightarrow> domain_error + call_rec" where
  "call_step (Flag t i s) c = flag_as_fraud t i s c"
| "call_step (Update t st) c = update_status t st c"

datatype alert_event =
    Acknowledge "instant \<times> instant" string
  | Investigate instant
  | Resolve "instant \<times> instant" string resolution_type "string option"
  | Report instant string

fun alert_step :: "alert_event \<Rightarrow> fraud_alert \<Rightarrow> domain_error + fraud_alert" where
  "alert_step (Acknowledge ts u) a = acknowledge ts u a"
| "alert_step (Investigate t) a = start_investigation t a"
| "alert_step (Resolve ts u r n) a = resolve ts u r n a"
| "alert_step (Report t i) a = Inr (report_to_ncc t i a)"

lemmas alert_ops = acknowledge_def start_investigation_def resolve_def report_to_ncc_def
lemmas call_ops = flag_as_fraud_def update_status_def

fun workflow_rank :: "alert_status \<Rightarrow> nat" where
  "workflow_rank PENDING = 0"
| "workflow_rank ACKNOWLEDGED = 1"
| "workflow_rank INVESTIGATING = 2"
| "workflow_rank RESOLVED = 3"
| "workflow_rank REPORTED_NCC = 3"

text \<open>How the status of an alert and its workflow fields agree.\<close>

definition alert_inv :: "fraud_alert \<Rightarrow> bool" where [inv_defs]:
  "alert_inv a \<longleftrightarrow>
     (acknowledged_by a = None \<longleftrightarrow> acknowledged_at a = None)
     \<and> (resolved_by a = None \<longleftrightarrow> resolution a = None) \<and> (resolved_by a = None \<longleftrightarrow> resolved_at a = None)
     \<and> (ncc_reported a \<longleftrightarrow> ncc_report_id a \<noteq> None)
     \<and> (al_status a = PENDING \<longrightarrow> acknowledged_by a = None)
     \<and> (al_status a \<in> {PENDING, ACKNOWLEDGED, INVESTIGATING} \<longrightarrow> resolved_by a = None \<and> \<not> ncc_reported a)
     \<and> (al_status a \<in> {ACKNOWLEDGED, INVESTIGATING} \<longrightarrow> acknowledged_by a \<noteq> None)
     \<and> (al_status a = RESOLVED \<longrightarrow> resolution a \<noteq> None)
     \<and> (al_status a = REPORTED_NCC \<longrightarrow> ncc_reported a)"

definition call_inv :: "call_rec \<Rightarrow> bool" where [inv_defs]:
  "call_inv c \<longleftrightarrow> (is_flagged c \<longleftrightarrow> call_alert_id c \<noteq> None)"

lemma acknowledge_inv: "alert_inv a \<Longrightarrow> acknowledge ts u a = Inr a' \<Longrightarrow> alert_inv a'"
  by (cases "al_status a") (auto simp: alert_inv_def acknowledge_def)

lemma start_investigation_inv: "alert_inv a \<Longrightarrow> start_investigation t a = Inr a' \<Longrightarrow> alert_inv a'"
  by (cases "al_status a") (auto simp: alert_inv_def start_investigation_def)

lemma resolve_inv: "alert_inv a \<Longrightarrow> resolve ts u r n a = Inr a' \<Longrightarrow> alert_inv a'"
  by (cases "al_status a") (auto simp: alert_inv_def resolve_def)

lemma report_to_ncc_inv: "alert_inv a \<Longrightarrow> alert_inv (report_to_ncc t i a)"
  by (cases "al_status a") (auto simp: alert_inv_def report_to_ncc_def)

lemma alert_step_inv: "alert_inv a \<Longrightarrow> alert_step e a = Inr a' \<Longrightarrow> alert_inv a'"
  by (cases e)
    (auto intro: acknowledge_inv start_investigation_inv resolve_inv report_to_ncc_inv)

lemma call_step_inv: "call_inv c \<Longrightarrow> call_step e c = Inr c' \<Longrightarrow> call_inv c'"
proof (cases e)
  case (Flag t i s)
  assume "call_inv c" "call_step e c = Inr c'"
  with Flag show ?thesis by (cases "is_flagged c") (auto simp: call_inv_def flag_as_fraud_def)
next
  case (Update t st)
  assume "call_inv c" "call_step e c = Inr c'"
  with Update show ?thesis
    by (cases "call_state c \<in> terminal_states") (auto simp: call_inv_def update_status_def)
qed

interpretation alerts: guarded_machine alert_step alert_inv
  by unfold_locales (rule alert_step_inv)

interpretation calls: guarded_machine call_step call_inv
  by unfold_locales (rule call_step_inv)

lemma alert_step_rank:
  "workflow_rank (al_status a) \<le> workflow_rank (al_status (attempt alert_step e a))"
proof (cases e)
  case (Resolve ts u r n)
  then show ?thesis by (cases "al_status a") (simp_all add: attempt_def resolve_def)
qed (cases "al_status a"; simp add: attempt_def alert_ops)+

interpretation alert_ranks: monotone_machine "attempt alert_step" "\<lambda>a. workflow_rank (al_status a)"
  by unfold_locales (rule alert_step_rank)

lemma create_alert_inv: "create_alert u ts b ft s an cs ips = Inr a \<Longrightarrow> alert_inv a"
  by (auto simp: create_alert_def alert_inv_def Let_def split: sum.splits)

lemma create_call_inv: "create_call p u ts a b ip = Inr c \<Longrightarrow> call_inv c"
  by (auto simp: create_call_def call_inv_def split: sum.splits prod.splits)

text \<open>Once written, these fields stay: the acknowledgement of an alert that left PENDING, the alert
  of a flagged call and the status of a finished call.\<close>

lemma acknowledged_once:
  assumes "al_status a \<noteq> PENDING"
  shows "acknowledged_by (attempt alert_step e a) = acknowledged_by a
    \<and> acknowledged_at (attempt alert_step e a) = acknowledged_at a
    \<and> al_status (attempt alert_step e a) \<noteq> PENDING"
  using assms by (cases e) (auto simp: attempt_def alert_ops)

lemma call_step_frozen:
  "is_flagged c \<longrightarrow> is_flagged (attempt call_step e c)
     \<and> call_alert_id (attempt call_step e c) = call_alert_id c
     \<and> call_score (attempt call_step e c) = call_score c"
  "call_state c \<in> terminal_states \<longrightarrow> call_state (attempt call_step e c) = call_state c"
  by (cases e; simp add: attempt_def call_ops)+

lemma call_run_flagged:
  "is_flagged c \<Longrightarrow> is_flagged (fold (attempt call_step) es c)
     \<and> call_alert_id (fold (attempt call_step) es c) = call_alert_id c
     \<and> call_score (fold (attempt call_step) es c) = call_score c"
  by (induction es arbitrary: c) (simp_all add: call_step_frozen)

lemma call_run_terminal:
  "call_state c \<in> terminal_states \<Longrightarrow> call_state (fold (attempt call_step) es c) = call_state c"
  by (induction es arbitrary: c) (simp_all add: call_step_frozen)


lemma alert_run_inv: "alert_inv a \<Longrightarrow> alert_inv (fold (attempt alert_step) es a)"
  by (rule alerts.gm.run_keeps)

lemma create_alert_fields:
  assumes "create_alert u ts b ft s an cs ips = Inr a"
  shows "al_status a = PENDING" "al_severity a = score_severity (al_score a)"
    "al_distinct_callers a = int (card (set an))" "al_score a = mk_score s"
    "al_fraud_type a = ft" "al_a_numbers a = an"
  using assms by (auto simp: create_alert_def Let_def length_remdups_card_conv split: sum.splits)

text \<open>A concrete alert, for the instances of the properties below.\<close>

definition sample_alert :: fraud_alert where
  "sample_alert = (case create_alert ''al-1'' (100, 100) ''+2348012345678'' CLI_MASKING (9/10)
     [''+2348030000001'', ''+2348030000002'', ''+2348030000001''] [''c1''] [''8.8.8.8'']
     of Inr a \<Rightarrow> a)"

lemma sample_alert_created:
  "create_alert ''al-1'' (100, 100) ''+2348012345678'' CLI_MASKING (9/10)
     [''+2348030000001'', ''+2348030000002'', ''+2348030000001''] [''c1''] [''8.8.8.8'']
   = Inr sample_alert"
  by code_simp


section \<open>Properties\<close>

text \<open>C24: An alert made by \<open>FraudAlert.create\<close> is pending, counts each distinct caller once and takes
  its severity from its score; after any sequence of acknowledge, investigate, resolve and report
  calls, those that raise included, its status and workflow fields agree and its workflow rank is
  never lower than before.\<close>
theorem alert_lifecycle:
  assumes "create_alert u ts b ft s an cs ips = Inr a"
  shows "al_status a = PENDING \<and> al_distinct_callers a = int (card (set an))
    \<and> al_severity a = score_severity (mk_score s)
    \<and> alert_inv (fold (attempt alert_step) es a)
    \<and> workflow_rank (al_status (fold (attempt alert_step) es a))
        \<le> workflow_rank (al_status (fold (attempt alert_step) (es @ es') a))"
proof -
  note f = create_alert_fields [OF assms]
  have "alert_inv (fold (attempt alert_step) es a)"
    by (rule alert_run_inv [OF create_alert_inv [OF assms]])
  moreover have "workflow_rank (al_status (fold (attempt alert_step) es a))
      \<le> workflow_rank (al_status (fold (attempt alert_step) es' (fold (attempt alert_step) es a)))"
    by (rule alert_ranks.run_mono)
  ultimately show ?thesis using f by simp
qed

lemma alert_lifecycle_witness:
  "al_status sample_alert = PENDING \<and> al_distinct_callers sample_alert = 2
   \<and> alert_inv (fold (attempt alert_step) [Acknowledge (101, 101) ''ann'', Report 102 ''ncc-1''] sample_alert)"
  using alert_lifecycle [OF sample_alert_created, where es = "[Acknowledge (101, 101) ''ann'', Report 102 ''ncc-1'']"]
  by (auto simp: card_insert_if)

text \<open>The record of who acknowledged an alert and when is written once: after an alert has left
  PENDING, no sequence of operations changes it, although \<open>resolve\<close> and \<open>report_to_ncc\<close> are open to
  every status.\<close>
theorem acknowledged_forever:
  "al_status a \<noteq> PENDING \<Longrightarrow>
     acknowledged_by (fold (attempt alert_step) es a) = acknowledged_by a
     \<and> acknowledged_at (fold (attempt alert_step) es a) = acknowledged_at a"
  by (induction es arbitrary: a) (simp_all add: acknowledged_once)

lemma acknowledged_forever_witness:
  "acknowledged_by (fold (attempt alert_step) [Report 102 ''ncc-1'', Acknowledge (103, 103) ''bob'']
     (attempt alert_step (Acknowledge (101, 101) ''ann'') sample_alert)) = Some ''ann''"
proof -
  have s: "al_status sample_alert = PENDING"
    by (rule create_alert_fields(1) [OF sample_alert_created])
  show ?thesis
    using acknowledged_forever [of "attempt alert_step (Acknowledge (101, 101) ''ann'') sample_alert"
        "[Report 102 ''ncc-1'', Acknowledge (103, 103) ''bob'']"] s
    by (simp add: attempt_def acknowledge_def)
qed

text \<open>A call is flagged at most once and a finished call keeps its status: whatever flag and status
  operations follow, a flagged call keeps its alert and its score, and a call in COMPLETED, FAILED or
  BLOCKED keeps that status.\<close>
theorem call_facts_frozen:
  "(is_flagged c \<longrightarrow> is_flagged (fold (attempt call_step) es c)
      \<and> call_alert_id (fold (attempt call_step) es c) = call_alert_id c
      \<and> call_score (fold (attempt call_step) es c) = call_score c)
   \<and> (call_state c \<in> terminal_states \<longrightarrow> call_state (fold (attempt call_step) es c) = call_state c)"
  by (simp add: call_run_flagged call_run_terminal)

definition sample_call :: call_rec where
  "sample_call = (case create_call (\<lambda>_. None) ''u-1'' (1, 1, 1) ''+2348030000001'' ''+2348012345678''
     ''8.8.8.8'' of Inr c \<Rightarrow> c)"

lemma call_facts_frozen_witness:
  "call_alert_id (fold (attempt call_step)
      [Flag 3 ''al-2'' (mk_score 1), Update 4 COMPLETED, Update 5 ACTIVE]
      (attempt call_step (Flag 2 ''al-1'' (mk_score (1/2))) sample_call)) = Some ''al-1''"
proof -
  define c where "c = attempt call_step (Flag 2 ''al-1'' (mk_score (1/2))) sample_call"
  have "\<not> is_flagged sample_call" by code_simp
  then have c: "is_flagged c" "call_alert_id c = Some ''al-1''"
    by (simp_all add: c_def attempt_def flag_as_fraud_def)
  show ?thesis
    unfolding c_def [symmetric] c(2) [symmetric]
    by (rule call_facts_frozen [THEN conjunct1, rule_format, OF c(1), THEN conjunct2, THEN conjunct1])
qed

text \<open>The guard of \<open>resolve\<close> does not protect a resolution: reporting a resolved alert to the
  regulator moves it to REPORTED_NCC, from where \<open>resolve\<close> is admitted again and overwrites both
  resolver and resolution, and the report's status is lost although it stays marked as reported.\<close>
theorem resolution_overwritten_after_report:
  "\<exists>a'. resolve ts u r n (report_to_ncc t i a) = Inr a' \<and> resolved_by a' = Some u
     \<and> resolution a' = Some r \<and> al_status a' = RESOLVED \<and> ncc_reported a'"
  by (simp add: resolve_def report_to_ncc_def)

end
