(* ===== verification/Events.thy ===== *)
theory Events
  imports Effects Entities
begin

text \<open>
  The domain events and the event bus of \<open>services/sip-processor/app/domain/events/events.py\<close>. A
  handler is code the bus does not own: running one is a computation on the world it acts on, which
  may raise. Event identifiers and times are arguments.
\<close>

section \<open>Events\<close>

datatype event_body =
    CallRegisteredEvent string string string string
  | FraudDetectedEvent string string string int rat "string list"
  | AlertAcknowledgedEvent string string
  | AlertResolvedEvent string string string "string option"
  | GatewayBlacklistedEvent string string string
  | NCCReportSubmittedEvent string "string list" string

record domain_event =
  event_id :: string
  occurred_at :: instant
  event_body :: event_body

fun body_type :: "event_body \<Rightarrow> string" where
  "body_type (CallRegisteredEvent _ _ _ _) = ''CallRegisteredEvent''"
| "body_type (FraudDetectedEvent _ _ _ _ _ _) = ''FraudDetectedEvent''"
| "body_type (AlertAcknowledgedEvent _ _) = ''AlertAcknowledgedEvent''"
| "body_type (AlertResolvedEvent _ _ _ _) = ''AlertResolvedEvent''"
| "body_type (GatewayBlacklistedEvent _ _ _) = ''GatewayBlacklistedEvent''"
| "body_type (NCCReportSubmittedEvent _ _ _) = ''NCCReportSubmittedEvent''"

definition event_type :: "domain_event \<Rightarrow> string" where
  "event_type e = body_type (event_body e)"


section \<open>The bus\<close>

type_synonym 'h event_bus = "(string, 'h list) dict"

definition subscribe :: "string \<Rightarrow> 'h \<Rightarrow> 'h event_bus \<Rightarrow> 'h event_bus" where
  "subscribe ty h bus =
     (let bus' = (if dict_get bus ty = None then dict_set ty [] bus else bus) in
      case dict_get bus' ty of Some hs \<Rightarrow> dict_set ty (hs @ [h]) bus' | None \<Rightarrow> bus')"

definition handlers_of :: "string \<Rightarrow> 'h event_bus \<Rightarrow> 'h list" where
  "handlers_of ty bus = (case dict_get bus ty of Some hs \<Rightarrow> hs | None \<Rightarrow> [])"

text \<open>Each handler runs inside its own \<open>try\<close>; the error is only printed.\<close>

definition publish ::
  "('h \<Rightarrow> domain_event \<Rightarrow> ('w, string, unit) eff) \<Rightarrow> 'h event_bus \<Rightarrow> domain_event \<Rightarrow> ('w, string, unit) eff" where
  "publish run bus e =
     eff_for (handlers_of (event_type e) bus) (\<lambda>h. eff_catch (run h e) (\<lambda>_. eff_return ()))"

definition publish_all ::
  "('h \<Rightarrow> domain_event \<Rightarrow> ('w, string, unit) eff) \<Rightarrow> 'h event_bus \<Rightarrow> domain_event list \<Rightarrow> ('w, string, unit) eff" where
  "publish_all run bus es = eff_for es (publish run bus)"

definition get_event_bus :: "'h event_bus option \<Rightarrow> 'h event_bus \<times> 'h event_bus option" where
  "get_event_bus g = (case g of None \<Rightarrow> ([], Some []) | Some b \<Rightarrow> (b, Some b))"


section \<open>What subscribers may rely on\<close>

lemma handlers_subscribe:
  "handlers_of ty (subscribe ty' h bus) = handlers_of ty bus @ (if ty = ty' then [h] else [])"
  by (auto simp: handlers_of_def subscribe_def Let_def split: option.split)

lemma handlers_of_run:
  "handlers_of ty (fold (\<lambda>(t, h). subscribe t h) subs bus)
   = handlers_of ty bus @ map snd (filter (\<lambda>(t, h). t = ty) subs)"
  by (induction subs arbitrary: bus) (auto simp: handlers_subscribe)

lemma guarded_once: "eff_catch m (\<lambda>_. eff_return ()) w = (Inr (), snd (m w))"
  by (auto simp: eff_catch_def eff_return_def split: prod.split sum.split)

lemma guarded_for:
  "eff_for hs (\<lambda>h. eff_catch (run h e) (\<lambda>_. eff_return ())) w
   = (Inr (), fold (\<lambda>h w. snd (run h e w)) hs w)"
  by (induction hs arbitrary: w) (simp_all add: eff_return_def eff_then_def eff_bind_def guarded_once)

lemma publish_run: "publish run bus e w = (Inr (), fold (\<lambda>h w. snd (run h e w)) (handlers_of (event_type e) bus) w)"
  by (simp add: publish_def guarded_for)

text \<open>On a bus built by any sequence of subscriptions, publishing any sequence of events never
  raises and runs, event by event, exactly the handlers subscribed to that event's type, once per
  subscription and in subscription order, whatever exceptions handlers raise on the way.\<close>
theorem bus_delivers:
  "publish_all run (fold (\<lambda>(t, h). subscribe t h) subs []) es w
   = (Inr (), fold (\<lambda>e. fold (\<lambda>h w. snd (run h e w))
        (map snd (filter (\<lambda>(t, h). t = event_type e) subs))) es w)"
proof (induction es arbitrary: w)
  case (Cons e es)
  then show ?case
    by (simp add: publish_all_def eff_then_def eff_bind_def publish_run handlers_of_run)
      (simp add: handlers_of_def)
qed (simp add: publish_all_def eff_return_def)

end
