(* ===== verification/Detection.thy ===== *)
theory Detection
  imports Events
begin

text \<open>
  The sliding-window detection of \<open>services/sip-processor/app/domain/services/services.py\<close> and the
  alert service. The repositories, the detection cache and the time-series store are abstract classes
  of \<open>domain/repositories/repositories.py\<close> with no implementation in the repository, so they are a
  record of computations on a world of their own, the parameter of every operation. What a
  repository returns is a value; the objects it holds are not shared with the caller.
\<close>

section \<open>Ports\<close>

datatype service_error = Domain domain_error | Port string

record 'w detection_ports =
  call_save :: "call_rec \<Rightarrow> ('w, service_error, unit) eff"
  find_calls_in_window :: "msisdn \<Rightarrow> instant \<Rightarrow> instant \<Rightarrow> ('w, service_error, call_rec list) eff"
  alert_save :: "fraud_alert \<Rightarrow> ('w, service_error, unit) eff"
  add_caller_to_window :: "string \<Rightarrow> string \<Rightarrow> string \<Rightarrow> string \<Rightarrow> int \<Rightarrow> ('w, service_error, unit) eff"
  get_distinct_caller_count :: "string \<Rightarrow> ('w, service_error, int) eff"
  get_distinct_callers :: "string \<Rightarrow> ('w, service_error, string list) eff"
  clear_window :: "string \<Rightarrow> ('w, service_error, unit) eff"
  ingest_call :: "call_rec \<Rightarrow> ('w, service_error, unit) eff"
  ingest_alert :: "fraud_alert \<Rightarrow> ('w, service_error, unit) eff"

record detection_service =
  ds_window :: detection_window
  ds_threshold :: detection_threshold
  pending_events :: "domain_event list"

definition mk_detection_service :: "int \<Rightarrow> int \<Rightarrow> domain_error + detection_service" where
  "mk_detection_service secs thr =
     (case mk_window secs of Inl e \<Rightarrow> Inl e | Inr wd \<Rightarrow>
      case mk_threshold thr of Inl e \<Rightarrow> Inl e | Inr th \<Rightarrow>
      Inr \<lparr>ds_window = wd, ds_threshold = th, pending_events = []\<rparr>)"

text \<open>The identifiers and clock readings one registration may need, in the order it takes them; the
  \<open>n\<close>th flagged call reads \<open>fr_flag_time n\<close>.\<close>

record fresh =
  fr_call_id :: string
  fr_call_times :: "instant \<times> instant \<times> instant"
  fr_event1 :: "string \<times> instant"
  fr_now :: instant
  fr_alert_id :: string
  fr_alert_times :: "instant \<times> instant"
  fr_flag_time :: "nat \<Rightarrow> instant"
  fr_event2 :: "string \<times> instant"

definition emit :: "string \<times> instant \<Rightarrow> event_body \<Rightarrow> (detection_service \<times> 'w, service_error, unit) eff" where
  "emit it b = on_self (\<lambda>s. s\<lparr>pending_events := pending_events s
     @ [\<lparr>event_id = fst it, occurred_at = snd it, event_body = b\<rparr>]\<rparr>)"

definition domain_lift :: "domain_error + 'a \<Rightarrow> ('s, service_error, 'a) eff" where
  "domain_lift r = eff_lift (map_sum Domain id r)"


section \<open>Detection\<close>

definition confidence_of :: "int \<Rightarrow> rat" where
  "confidence_of n = min 1 (of_int n / 10)"

definition fraud_type_of :: "call_rec \<Rightarrow> fraud_type" where
  "fraud_type_of c = (if is_likely_international (source_ip c) then CLI_MASKING else SIMBOX)"

text \<open>The loop that flags the calls of the window: the first call that is already flagged stops it.\<close>

definition flag_calls ::
  "'w detection_ports \<Rightarrow> fresh \<Rightarrow> string \<Rightarrow> rat \<Rightarrow> call_rec list \<Rightarrow> ('w, service_error, unit) eff" where
  "flag_calls P f alert_id score cs =
     eff_for (zip [0..<length cs] cs) (\<lambda>(i, c).
       eff_bind (domain_lift (flag_as_fraud (fr_flag_time f i) alert_id (mk_score score) c)) (call_save P))"

definition create_fraud_alert ::
  "'w detection_ports \<Rightarrow> fresh \<Rightarrow> call_rec \<Rightarrow> int \<Rightarrow> (detection_service \<times> 'w, service_error, fraud_alert) eff" where
  "create_fraud_alert P f trigger n =
     (let b = msisdn_value (b_number trigger) in
      eff_bind (on_world (get_distinct_callers P b)) (\<lambda>callers.
      eff_bind (eff_gets (\<lambda>s. fr_now f - of_int (window_seconds (ds_window (fst s))))) (\<lambda>window_start.
      eff_bind (on_world (find_calls_in_window P (b_number trigger) window_start (fr_now f))) (\<lambda>calls.
      eff_bind (domain_lift (create_alert (fr_alert_id f) (fr_alert_times f) b (fraud_type_of trigger)
          (confidence_of n) callers (map (\<lambda>c. call_id_value (call_ident c)) calls)
          (remdups (map (\<lambda>c. ip_value (source_ip c)) calls)))) (\<lambda>alert.
      eff_then (on_world (flag_calls P f (al_id alert) (confidence_of n) calls))
      (eff_then (on_world (alert_save P alert))
      (eff_then (on_world (ingest_alert P alert))
      (eff_then (on_world (clear_window P b))
      (eff_then (emit (fr_event2 f) (FraudDetectedEvent (al_id alert) (msisdn_value (al_b_number alert))
          (fraud_type_value (fraud_type_of trigger)) n (confidence_of n) []))
      (eff_return alert))))))))))"

definition attach_raw_id :: "string option \<Rightarrow> call_rec \<Rightarrow> call_rec" where
  "attach_raw_id raw c =
     (case raw of Some i \<Rightarrow> if i \<noteq> [] then c\<lparr>raw_call_id := Some i\<rparr> else c | None \<Rightarrow> c)"

definition register_call ::
  "'w detection_ports \<Rightarrow> (string \<Rightarrow> (int \<times> bool) option) \<Rightarrow> fresh \<Rightarrow> string \<Rightarrow> string \<Rightarrow> string \<Rightarrow> string option \<Rightarrow>
   (detection_service \<times> 'w, service_error, call_rec \<times> fraud_alert option) eff" where
  "register_call P parse6 f a b ip raw =
     eff_bind (domain_lift (create_call parse6 (fr_call_id f) (fr_call_times f) a b ip)) (\<lambda>call0.
     let call = attach_raw_id raw call0;
         bs = msisdn_value (b_number call) in
     eff_then (emit (fr_event1 f) (CallRegisteredEvent (call_id_value (call_ident call)) a b ip))
     (eff_bind (eff_gets (\<lambda>s. window_seconds (ds_window (fst s)))) (\<lambda>secs.
     eff_then (on_world (add_caller_to_window P bs (msisdn_value (a_number call))
         (call_id_value (call_ident call)) ip secs))
     (eff_then (on_world (call_save P call))
     (eff_then (on_world (ingest_call P call))
     (eff_bind (on_world (get_distinct_caller_count P bs)) (\<lambda>n.
     eff_bind (eff_gets (\<lambda>s. distinct_callers (ds_threshold (fst s)))) (\<lambda>thr.
     if thr \<le> n
     then eff_bind (create_fraud_alert P f call n) (\<lambda>alert. eff_return (call, Some alert))
     else eff_return (call, None)))))))))"

definition get_pending_events :: "detection_service \<Rightarrow> domain_event list \<times> detection_service" where
  "get_pending_events s = (pending_events s, s\<lparr>pending_events := []\<rparr>)"


section \<open>The alert service\<close>

record 'w alert_ports =
  find_alert_by_id :: "string \<Rightarrow> ('w, service_error, fraud_alert option) eff"
  store_alert :: "fraud_alert \<Rightarrow> ('w, service_error, unit) eff"
  find_pending :: "('w, service_error, fraud_alert list) eff"
  count_pending :: "('w, service_error, int) eff"

definition load_alert :: "'w alert_ports \<Rightarrow> string \<Rightarrow> ('w, service_error, fraud_alert) eff" where
  "load_alert R i = eff_bind (find_alert_by_id R i) (\<lambda>r. case r of
       None \<Rightarrow> eff_raise (Domain (ValueError (''Alert not found: '' @ i)))
     | Some a \<Rightarrow> eff_return a)"

definition acknowledge_alert ::
  "'w alert_ports \<Rightarrow> instant \<times> instant \<Rightarrow> string \<Rightarrow> string \<Rightarrow> ('w, service_error, fraud_alert) eff" where
  "acknowledge_alert R ts i user =
     eff_bind (load_alert R i) (\<lambda>a.
     eff_bind (domain_lift (acknowledge ts user a)) (\<lambda>a'.
     eff_then (store_alert R a') (eff_return a')))"

definition resolution_of :: "string \<Rightarrow> domain_error + resolution_type" where
  "resolution_of s =
     (case filter (\<lambda>r. resolution_value r = s) [CONFIRMED_FRAUD, FALSE_POSITIVE, ESCALATED, WHITELISTED] of
        r # _ \<Rightarrow> Inr r
      | [] \<Rightarrow> Inl (ValueError (CHR 0x27 # s @ CHR 0x27 # '' is not a valid ResolutionType'')))"

definition resolve_alert ::
  "'w alert_ports \<Rightarrow> instant \<times> instant \<Rightarrow> string \<Rightarrow> string \<Rightarrow> string \<Rightarrow> string option \<Rightarrow>
   ('w, service_error, fraud_alert) eff" where
  "resolve_alert R ts i user res notes =
     eff_bind (load_alert R i) (\<lambda>a.
     eff_bind (domain_lift (resolution_of res)) (\<lambda>r.
     eff_bind (domain_lift (resolve ts user r notes a)) (\<lambda>a'.
     eff_then (store_alert R a') (eff_return a'))))"

definition get_pending_alerts :: "'w alert_ports \<Rightarrow> ('w, service_error, fraud_alert list) eff" where
  "get_pending_alerts R = find_pending R"

definition get_pending_count :: "'w alert_ports \<Rightarrow> ('w, service_error, int) eff" where
  "get_pending_count R = count_pending R"


section \<open>What the cache promises\<close>

text \<open>The documented behaviour of the detection cache and of the stores beside it, over what the world
  holds: \<open>M w b\<close> is the set of callers in the window of \<open>b\<close>. It speaks of normal returns only.\<close>

definition window_ports :: "'w detection_ports \<Rightarrow> ('w \<Rightarrow> string \<Rightarrow> string set) \<Rightarrow> bool" where
  "window_ports P M \<longleftrightarrow>
     (\<forall>b a i ip n w w'. add_caller_to_window P b a i ip n w = (Inr (), w') \<longrightarrow>
        M w' = (M w)(b := insert a (M w b)))
   \<and> (\<forall>b w k w'. get_distinct_caller_count P b w = (Inr k, w') \<longrightarrow>
        k = int (card (M w b)) \<and> M w' = M w)
   \<and> (\<forall>b w xs w'. get_distinct_callers P b w = (Inr xs, w') \<longrightarrow> set xs = M w b \<and> M w' = M w)
   \<and> (\<forall>b w w'. clear_window P b w = (Inr (), w') \<longrightarrow> M w' = (M w)(b := {}))
   \<and> (\<forall>c w w'. call_save P c w = (Inr (), w') \<longrightarrow> M w' = M w)
   \<and> (\<forall>m t t' w cs w'. find_calls_in_window P m t t' w = (Inr cs, w') \<longrightarrow> M w' = M w)
   \<and> (\<forall>a w w'. alert_save P a w = (Inr (), w') \<longrightarrow> M w' = M w)
   \<and> (\<forall>c w w'. ingest_call P c w = (Inr (), w') \<longrightarrow> M w' = M w)
   \<and> (\<forall>a w w'. ingest_alert P a w = (Inr (), w') \<longrightarrow> M w' = M w)"

lemma window_portsD:
  assumes "window_ports P M"
  shows "add_caller_to_window P b a i ip n w = (Inr (), w') \<Longrightarrow> M w' = (M w)(b := insert a (M w b))"
    and "get_distinct_caller_count P b w = (Inr k, w') \<Longrightarrow> k = int (card (M w b))"
    and "get_distinct_caller_count P b w = (Inr k, w') \<Longrightarrow> M w' = M w"
    and "get_distinct_callers P b w = (Inr xs, w') \<Longrightarrow> set xs = M w b"
    and "get_distinct_callers P b w = (Inr xs, w') \<Longrightarrow> M w' = M w"
    and "clear_window P b w = (Inr (), w') \<Longrightarrow> M w' = (M w)(b := {})"
    and "call_save P c w = (Inr (), w') \<Longrightarrow> M w' = M w"
    and "find_calls_in_window P m t t' w = (Inr cs, w') \<Longrightarrow> M w' = M w"
    and "alert_save P al w = (Inr (), w') \<Longrightarrow> M w' = M w"
    and "ingest_call P c w = (Inr (), w') \<Longrightarrow> M w' = M w"
    and "ingest_alert P al w = (Inr (), w') \<Longrightarrow> M w' = M w"
  using assms unfolding window_ports_def by simp_all

lemma domain_lift_iff [simp]: "domain_lift r s = (Inr x, s1) \<longleftrightarrow> r = Inr x \<and> s1 = s"
  by (cases r) (auto simp: domain_lift_def)

lemma eff_for_keeps:
  assumes "\<And>x w w'. x \<in> set xs \<Longrightarrow> f x w = (Inr (), w') \<Longrightarrow> M w' = M w"
    and "eff_for xs f w = (Inr (), w')"
  shows "M w' = M w"
  using assms
proof (induction xs arbitrary: w)
  case (Cons x xs)
  obtain w1 where f: "f x w = (Inr (), w1)" "eff_for xs f w1 = (Inr (), w')"
    using Cons.prems(2) by (auto simp: eff_then_Inr_iff)
  have "M w' = M w1" by (rule Cons.IH [OF _ f(2)]) (rule Cons.prems(1), auto)
  moreover have "M w1 = M w" by (rule Cons.prems(1) [OF _ f(1)]) simp
  ultimately show ?case by simp
qed simp

lemma flag_calls_keeps:
  assumes "window_ports P M" "flag_calls P f i sc cs w = (Inr (), w')"
  shows "M w' = M w"
  using assms(2) unfolding flag_calls_def
  by (rule eff_for_keeps [rotated])
    (auto simp: eff_Inr_iffs dest: window_portsD(7) [OF assms(1)])

lemma b_number_reparse:
  "canonical (msisdn_value m) \<Longrightarrow> msisdn_from_string (msisdn_value m) = Inr m"
  by (cases m) (simp add: from_string_canonical)

lemma create_fraud_alert_return:
  assumes ok: "window_ports P M"
    and run: "create_fraud_alert P f c n (svc, w) = (Inr x, (svc', w'))"
    and can: "canonical (msisdn_value (b_number c))"
  shows "M w' = (M w)(msisdn_value (b_number c) := {})"
    and "al_b_number x = b_number c" "set (al_a_numbers x) = M w (msisdn_value (b_number c))"
    and "al_distinct_callers x = int (card (M w (msisdn_value (b_number c))))"
    and "al_score x = mk_score (confidence_of n)" "al_severity x = score_severity (al_score x)"
    and "al_fraud_type x = fraud_type_of c" "al_status x = PENDING"
    and "length (pending_events svc') = Suc (length (pending_events svc))"
    and "ds_window svc' = ds_window svc" "ds_threshold svc' = ds_threshold svc"
proof -
  let ?b = "msisdn_value (b_number c)"
  obtain xs w1 cs w2 ids ips w3 w4 w5 where
    xs: "get_distinct_callers P ?b w = (Inr xs, w1)" and
    cs: "find_calls_in_window P (b_number c) (fr_now f - of_int (window_seconds (ds_window svc)))
        (fr_now f) w1 = (Inr cs, w2)" and
    al: "create_alert (fr_alert_id f) (fr_alert_times f) ?b (fraud_type_of c) (confidence_of n) xs ids ips = Inr x" and
    fl: "flag_calls P f (al_id x) (confidence_of n) cs w2 = (Inr (), w3)" and
    sv: "alert_save P x w3 = (Inr (), w4)" and
    ig: "ingest_alert P x w4 = (Inr (), w5)" and
    cl: "clear_window P ?b w5 = (Inr (), w')" 
    using run by (auto simp: create_fraud_alert_def Let_def eff_Inr_iffs emit_def)
  show "M w' = (M w)(?b := {})"
    using window_portsD(5) [OF ok xs] window_portsD(8) [OF ok cs] flag_calls_keeps [OF ok fl]
      window_portsD(9) [OF ok sv] window_portsD(11) [OF ok ig] window_portsD(6) [OF ok cl] by simp
  note fields = create_alert_fields [OF al]
  show "set (al_a_numbers x) = M w ?b" "al_distinct_callers x = int (card (M w ?b))"
    using fields window_portsD(4) [OF ok xs] by simp_all
  show "al_b_number x = b_number c"
    using al b_number_reparse [OF can] by (simp add: create_alert_def Let_def) auto
  show "al_score x = mk_score (confidence_of n)" "al_severity x = score_severity (al_score x)"
    "al_fraud_type x = fraud_type_of c" "al_status x = PENDING"
    by (rule fields)+
qed (use run in \<open>auto simp: create_fraud_alert_def Let_def eff_Inr_iffs emit_def\<close>)


lemma create_call_InrD:
  assumes "create_call p u ts a b ip = Inr c"
  shows "msisdn_from_string a = Inr (a_number c)" "msisdn_from_string b = Inr (b_number c)"
    "\<not> is_flagged c" "call_state c = RINGING"
  using assms by (auto simp: create_call_def split: sum.splits prod.splits)

text \<open>A registration up to the point where the cache is asked for the count.\<close>

lemma register_call_prefix:
  assumes ok: "window_ports P M"
    and run: "register_call P p6 f a b ip raw (svc, w) = (Inr (c, al), (svc', w'))"
  obtains n w1 svc1 where
    "msisdn_from_string a = Inr (a_number c)" "msisdn_from_string b = Inr (b_number c)"
    "M w1 = (M w)(msisdn_value (b_number c) :=
       insert (msisdn_value (a_number c)) (M w (msisdn_value (b_number c))))"
    "n = int (card (M w1 (msisdn_value (b_number c))))"
    "length (pending_events svc1) = Suc (length (pending_events svc))"
    "ds_window svc1 = ds_window svc" "ds_threshold svc1 = ds_threshold svc"
    "(if distinct_callers (ds_threshold svc) \<le> n
      then \<exists>x. al = Some x \<and> create_fraud_alert P f c n (svc1, w1) = (Inr x, (svc', w'))
      else al = None \<and> svc' = svc1 \<and> w' = w1)"
proof -
  obtain c0 where c0: "create_call p6 (fr_call_id f) (fr_call_times f) a b ip = Inr c0"
    using run by (auto simp: register_call_def eff_Inr_iffs)
  define call where "call = attach_raw_id raw c0"
  have sel: "a_number call = a_number c0" "b_number call = b_number c0"
    by (simp_all add: call_def attach_raw_id_def split: option.split)
  let ?b = "msisdn_value (b_number call)" and ?a = "msisdn_value (a_number call)"
  define svc1 where "svc1 = svc\<lparr>pending_events := pending_events svc @ [\<lparr>event_id = fst (fr_event1 f),
    occurred_at = snd (fr_event1 f),
    event_body = CallRegisteredEvent (call_id_value (call_ident call)) a b ip\<rparr>]\<rparr>"
  have s1: "ds_window svc1 = ds_window svc" "ds_threshold svc1 = ds_threshold svc"
    "length (pending_events svc1) = Suc (length (pending_events svc))"
    by (simp_all add: svc1_def)
  obtain w2 w3 w4 n w5 where
    ad: "add_caller_to_window P ?b ?a (call_id_value (call_ident call)) ip
        (window_seconds (ds_window svc)) w = (Inr (), w2)" and
    sv: "call_save P call w2 = (Inr (), w3)" and ig: "ingest_call P call w3 = (Inr (), w4)" and
    ct: "get_distinct_caller_count P ?b w4 = (Inr n, w5)" and
    rest: "(if distinct_callers (ds_threshold svc) \<le> n
      then eff_bind (create_fraud_alert P f call n) (\<lambda>x. eff_return (call, Some x))
      else eff_return (call, None)) (svc1, w5) = (Inr (c, al), (svc', w'))"
    using run c0 unfolding register_call_def Let_def call_def
    by (auto simp: eff_Inr_iffs emit_def svc1_def [unfolded call_def, symmetric])
  have c: "c = call" using rest by (auto simp: eff_Inr_iffs split: if_splits)
  have M5: "M w5 = (M w)(?b := insert ?a (M w ?b))"
    using window_portsD(1) [OF ok ad] window_portsD(7) [OF ok sv] window_portsD(10) [OF ok ig]
      window_portsD(3) [OF ok ct] by simp
  have n: "n = int (card (M w5 ?b))"
    using window_portsD(2,3) [OF ok ct] by simp
  show thesis
    by (rule that [of w5 n svc1])
      (use create_call_InrD [OF c0] s1 M5 n rest in \<open>auto simp: c sel eff_Inr_iffs split: if_splits\<close>)
qed


section \<open>A world in memory\<close>

text \<open>An instance of the ports, on which the properties below are evaluated: lists of calls and
  alerts, and the callers of each window.\<close>

record memory =
  m_calls :: "call_rec list"
  m_alerts :: "fraud_alert list"
  m_windows :: "(string \<times> string) list"

definition put_call :: "call_rec \<Rightarrow> call_rec list \<Rightarrow> call_rec list" where
  "put_call c cs = filter (\<lambda>d. call_ident d \<noteq> call_ident c) cs @ [c]"

definition memory_ports :: "memory detection_ports" where
  "memory_ports =
    \<lparr>call_save = (\<lambda>c. eff_modify (m_calls_update (put_call c))),
     find_calls_in_window = (\<lambda>m t0 t1. eff_gets (\<lambda>w.
       filter (\<lambda>c. b_number c = m \<and> t0 \<le> call_timestamp c \<and> call_timestamp c \<le> t1) (m_calls w))),
     alert_save = (\<lambda>a. eff_modify (m_alerts_update (\<lambda>xs. xs @ [a]))),
     add_caller_to_window = (\<lambda>b a i ip n. eff_modify (m_windows_update (\<lambda>xs. (b, a) # xs))),
     get_distinct_caller_count = (\<lambda>b. eff_gets (\<lambda>w.
       int (length (remdups (map snd (filter (\<lambda>x. fst x = b) (m_windows w))))))),
     get_distinct_callers = (\<lambda>b. eff_gets (\<lambda>w.
       remdups (map snd (filter (\<lambda>x. fst x = b) (m_windows w))))),
     clear_window = (\<lambda>b. eff_modify (m_windows_update (filter (\<lambda>x. fst x \<noteq> b)))),
     ingest_call = (\<lambda>c. eff_return ()),
     ingest_alert = (\<lambda>a. eff_return ())\<rparr>"

definition memory_members :: "memory \<Rightarrow> string \<Rightarrow> string set" where
  "memory_members w b = {a. (b, a) \<in> set (m_windows w)}"

lemma memory_members_list:
  "set (map snd (filter (\<lambda>x. fst x = b) (m_windows w))) = memory_members w b"
  by (force simp: memory_members_def)

lemma memory_window_ports: "window_ports memory_ports memory_members"
proof -
  have card: "length (remdups (map snd (filter (\<lambda>x. fst x = b) (m_windows w)))) = card (memory_members w b)" for b w
    by (simp only: length_remdups_card_conv memory_members_list)
  show ?thesis
    unfolding window_ports_def
    by (intro conjI allI impI)
      (simp_all add: memory_ports_def card memory_members_list del: set_map set_filter,
       auto simp: memory_members_def fun_eq_iff)
qed

definition memory_fresh :: "nat \<Rightarrow> fresh" where
  "memory_fresh n = \<lparr>fr_call_id = ''c'' @ show_nat n, fr_call_times = (0, 0, 0), fr_event1 = (''e'', 0),
     fr_now = 1, fr_alert_id = ''al'' @ show_nat n, fr_alert_times = (1, 1), fr_flag_time = (\<lambda>_. 1),
     fr_event2 = (''f'', 1)\<rparr>"

definition memory_service :: detection_service where
  "memory_service = \<lparr>ds_window = DetectionWindow 5, ds_threshold = DetectionThreshold 2, pending_events = []\<rparr>"

definition empty_memory :: memory where
  "empty_memory = \<lparr>m_calls = [], m_alerts = [], m_windows = []\<rparr>"

text \<open>One request of a run: what is fresh, the two numbers, the source and the switch's call id.\<close>

type_synonym request = "fresh \<times> string \<times> string \<times> string \<times> string option"

fun register_request ::
  "'w detection_ports \<Rightarrow> (string \<Rightarrow> (int \<times> bool) option) \<Rightarrow> request \<Rightarrow>
   (detection_service \<times> 'w, service_error, call_rec \<times> fraud_alert option) eff" where
  "register_request P p6 (f, a, b, ip, raw) = register_call P p6 f a b ip raw"


section \<open>Properties of detection\<close>

text \<open>C2: When registering a call returns, and the cache keeps its documented promises, an alert is
  raised exactly when the distinct callers of that B-number, this one included, have reached the
  threshold. The alert is pending, is about that number, lists exactly those callers, scores a tenth
  per caller up to one, has the severity of that score and is CLI masking or a SIM box by the source
  address; the window is emptied by an alert and otherwise grows by this caller; one event is queued
  for the call and one more for an alert.\<close>
theorem register_call_detects:
  assumes ok: "window_ports P M"
    and run: "register_call P p6 f a b ip raw (svc, w) = (Inr (c, al), (svc', w'))"
  shows "let bs = msisdn_value (b_number c); S = insert (msisdn_value (a_number c)) (M w bs) in
     (al \<noteq> None \<longleftrightarrow> distinct_callers (ds_threshold svc) \<le> int (card S))
     \<and> M w' = (M w)(bs := if al = None then S else {})
     \<and> length (pending_events svc') = length (pending_events svc) + (if al = None then 1 else 2)
     \<and> (\<forall>x. al = Some x \<longrightarrow> al_status x = PENDING \<and> al_b_number x = b_number c \<and> set (al_a_numbers x) = S
          \<and> al_distinct_callers x = int (card S) \<and> al_score x = mk_score (min 1 (of_nat (card S) / 10))
          \<and> al_severity x = score_severity (al_score x) \<and> al_fraud_type x = fraud_type_of c)"
proof -
  obtain n w1 svc1 where
    b: "msisdn_from_string b = Inr (b_number c)" and
    M1: "M w1 = (M w)(msisdn_value (b_number c) :=
       insert (msisdn_value (a_number c)) (M w (msisdn_value (b_number c))))" and
    n: "n = int (card (M w1 (msisdn_value (b_number c))))" and
    len: "length (pending_events svc1) = Suc (length (pending_events svc))" and
    rest: "if distinct_callers (ds_threshold svc) \<le> n
      then \<exists>x. al = Some x \<and> create_fraud_alert P f c n (svc1, w1) = (Inr x, (svc', w'))
      else al = None \<and> svc' = svc1 \<and> w' = w1"
    by (rule register_call_prefix [OF ok run])
  note can = from_string_InrD [OF b]
  show ?thesis
  proof (cases "distinct_callers (ds_threshold svc) \<le> n")
    case True
    with rest obtain x where x: "al = Some x" "create_fraud_alert P f c n (svc1, w1) = (Inr x, (svc', w'))"
      by auto
    show ?thesis
      using True create_fraud_alert_return [OF ok x(2) can] n len
      unfolding Let_def x(1) by (simp add: M1 confidence_of_def)
  next
    case False
    then show ?thesis using rest n len unfolding Let_def by (simp add: M1)
  qed
qed


definition one_caller :: memory where
  "one_caller = empty_memory\<lparr>m_windows := [(''+2348012345678'', ''+2348030000001'')]\<rparr>"

definition second_call :: "(service_error + call_rec \<times> fraud_alert option) \<times> (detection_service \<times> memory)" where
  "second_call = register_call memory_ports (\<lambda>_. None) (memory_fresh 2) ''08030000002'' ''08012345678'' ''8.8.8.8''
     None (memory_service, one_caller)"

lemma second_call_returns: "(case fst second_call of Inr (c, Some x) \<Rightarrow> True | _ \<Rightarrow> False)"
  by code_simp

theorem register_call_detects_witness:
  "\<exists>c x svc' w'. register_call memory_ports (\<lambda>_. None) (memory_fresh 2) ''08030000002'' ''08012345678'' ''8.8.8.8''
       None (memory_service, one_caller) = (Inr (c, Some x), (svc', w')) \<and> al_status x = PENDING
     \<and> memory_members w' (msisdn_value (b_number c)) = {}"
proof -
  obtain q svc' w' where q: "second_call = (q, (svc', w'))" by (cases second_call)
  then obtain c x where r: "second_call = (Inr (c, Some x), (svc', w'))"
    using second_call_returns unfolding q by (cases q) (auto split: option.splits)
  show ?thesis
    using register_call_detects [OF memory_window_ports r [unfolded second_call_def]] r
    by (auto simp: second_call_def Let_def)
qed

text \<open>Runs: several callers of one number.\<close>

lemma register_call_quiet:
  assumes ok: "window_ports P M"
    and run: "register_call P p6 f a b ip raw (svc, w) = (Inr (c, al), (svc', w'))"
    and b: "msisdn_from_string b = Inr m" and fin: "finite (M w (msisdn_value m))"
    and few: "int (Suc (card (M w (msisdn_value m)))) < distinct_callers (ds_threshold svc)"
  shows "al = None" "M w' (msisdn_value m) = insert (msisdn_value (a_number c)) (M w (msisdn_value m))"
    "ds_threshold svc' = ds_threshold svc" "msisdn_from_string a = Inr (a_number c)"
proof -
  obtain n w1 svc1 where
    "msisdn_from_string a = Inr (a_number c)" "msisdn_from_string b = Inr (b_number c)" and
    M1: "M w1 = (M w)(msisdn_value (b_number c) :=
       insert (msisdn_value (a_number c)) (M w (msisdn_value (b_number c))))"
    and n: "n = int (card (M w1 (msisdn_value (b_number c))))" and
    th: "ds_threshold svc1 = ds_threshold svc" and
    rest: "if distinct_callers (ds_threshold svc) \<le> n
      then \<exists>x. al = Some x \<and> create_fraud_alert P f c n (svc1, w1) = (Inr x, (svc', w'))
      else al = None \<and> svc' = svc1 \<and> w' = w1"
    by (rule register_call_prefix [OF ok run])
  moreover from this b have m: "b_number c = m" by simp
  have "n \<le> int (Suc (card (M w (msisdn_value m))))"
    unfolding n M1 m by (simp add: card_insert_if fin)
  with few have "\<not> distinct_callers (ds_threshold svc) \<le> n" by simp
  with rest m th M1 show "al = None" "ds_threshold svc' = ds_threshold svc"
    "M w' (msisdn_value m) = insert (msisdn_value (a_number c)) (M w (msisdn_value m))" by simp_all
  show "msisdn_from_string a = Inr (a_number c)" by fact
qed

lemma quiet_run:
  assumes ok: "window_ports P M"
    and run: "eff_map (register_request P p6) rs (svc, w) = (Inr out, (svc', w'))"
    and bs: "\<forall>(f, a, b, ip, raw) \<in> set rs. msisdn_from_string b = Inr m"
    and fin: "finite (M w (msisdn_value m))"
    and few: "int (card (M w (msisdn_value m)) + length rs) < distinct_callers (ds_threshold svc)"
  shows "map snd out = replicate (length rs) None \<and> ds_threshold svc' = ds_threshold svc
    \<and> M w' (msisdn_value m) = M w (msisdn_value m)
        \<union> (\<lambda>(f, a, _). msisdn_value (projr (msisdn_from_string a))) ` set rs"
  using run bs fin few
proof (induction rs arbitrary: svc w out)
  case (Cons r rs)
  obtain f a b ip raw where r: "r = (f, a, b, ip, raw)" by (cases r)
  obtain c al svc1 w1 rest where
    one: "register_call P p6 f a b ip raw (svc, w) = (Inr (c, al), (svc1, w1))" and
    more: "eff_map (register_request P p6) rs (svc1, w1) = (Inr rest, (svc', w'))" and
    out: "out = (c, al) # rest"
    using Cons.prems(1) by (auto simp: eff_Inr_iffs r)
  have b: "msisdn_from_string b = Inr m" using Cons.prems(2) r by simp
  have few: "int (Suc (card (M w (msisdn_value m)))) < distinct_callers (ds_threshold svc)"
    using Cons.prems(4) by simp
  note q = register_call_quiet [OF ok one b Cons.prems(3) few]
  have "card (M w1 (msisdn_value m)) \<le> Suc (card (M w (msisdn_value m)))"
    unfolding q(2) using Cons.prems(3) by (simp add: card_insert_if)
  then have "map snd rest = replicate (length rs) None \<and> ds_threshold svc' = ds_threshold svc1
    \<and> M w' (msisdn_value m) = M w1 (msisdn_value m)
        \<union> (\<lambda>(f, a, _). msisdn_value (projr (msisdn_from_string a))) ` set rs"
    using Cons.prems(2,3,4) q(2,3) by (intro Cons.IH [OF more]) simp_all
  with q show ?case by (auto simp: out r)
qed simp


text \<open>Counting from an empty window, the alert is raised by exactly the caller that completes the
  threshold: of as many registrations from different callers to one number, all but the last return
  no alert, the last returns one, and the window is empty again.\<close>
theorem first_alert_at_threshold:
  assumes ok: "window_ports P M" and empty: "M w (msisdn_value m) = {}"
    and run: "eff_map (register_request P p6) (rs @ [r]) (svc, w) = (Inr out, (svc', w'))"
    and b: "\<forall>(f, a, b, ip, raw) \<in> set (rs @ [r]). msisdn_from_string b = Inr m"
    and a: "map (\<lambda>(f, a, b, ip, raw). msisdn_from_string a) (rs @ [r]) = map Inr callers" "distinct callers"
    and len: "int (length callers) = distinct_callers (ds_threshold svc)"
  shows "map (\<lambda>(c, al). al \<noteq> None) out = replicate (length rs) False @ [True] \<and> M w' (msisdn_value m) = {}"
proof -
  obtain f a0 b0 ip raw where r: "r = (f, a0, b0, ip, raw)" by (cases r)
  obtain init c al svc1 w1 where
    init: "eff_map (register_request P p6) rs (svc, w) = (Inr init, (svc1, w1))" and
    last: "register_call P p6 f a0 b0 ip raw (svc1, w1) = (Inr (c, al), (svc', w'))" and
    out: "out = init @ [(c, al)]"
    using eff_map_append_InrD [OF run] by (auto simp: eff_Inr_iffs r)
  have lr: "Suc (length rs) = length callers" using arg_cong [OF a(1), of length] by simp
  then have few: "int (card (M w (msisdn_value m)) + length rs) < distinct_callers (ds_threshold svc)"
    using len by (simp add: empty)
  have q: "map snd init = replicate (length rs) None \<and> ds_threshold svc1 = ds_threshold svc
    \<and> M w1 (msisdn_value m) = M w (msisdn_value m)
        \<union> (\<lambda>(f, a, _). msisdn_value (projr (msisdn_from_string a))) ` set rs"
    by (rule quiet_run [OF ok init _ _ few]) (use b in \<open>auto simp: empty\<close>)
  obtain as x where as: "callers = as @ [x]" using lr by (cases callers rule: rev_cases) auto
  have a': "map (\<lambda>(f, a, b, ip, raw). msisdn_from_string a) rs = map Inr as" "msisdn_from_string a0 = Inr x"
    using a(1) by (auto simp: as r)
  have "(\<lambda>(f, a, _). msisdn_value (projr (msisdn_from_string a))) ` set rs
      = (\<lambda>y. msisdn_value (projr y)) ` set (map (\<lambda>(f, a, b, ip, raw). msisdn_from_string a) rs)"
    by force
  also have "\<dots> = msisdn_value ` set as" unfolding a'(1) by force
  finally have Mw1: "M w1 (msisdn_value m) = msisdn_value ` set as" using q by (simp add: empty)
  have inj: "inj msisdn_value" by (rule injI) (simp add: msisdn.expand)
  obtain n w2 svc2 where
    "msisdn_from_string a0 = Inr (a_number c)" and b2: "msisdn_from_string b0 = Inr (b_number c)" and
    M2: "M w2 = (M w1)(msisdn_value (b_number c) :=
       insert (msisdn_value (a_number c)) (M w1 (msisdn_value (b_number c))))" and
    n: "n = int (card (M w2 (msisdn_value (b_number c))))" and
    rest: "if distinct_callers (ds_threshold svc1) \<le> n
      then \<exists>x. al = Some x \<and> create_fraud_alert P f c n (svc2, w2) = (Inr x, (svc', w'))
      else al = None \<and> svc' = svc2 \<and> w' = w2"
    by (rule register_call_prefix [OF ok last])
  moreover have m: "b_number c = m" using b b2 by (auto simp: r)
  moreover have "a_number c = x" using a'(2) calculation(1) by simp
  ultimately have "M w2 (msisdn_value m) = msisdn_value ` set callers"
    by (simp add: Mw1 as)
  then have "n = int (length callers)"
    using n a(2) m by (simp add: card_image inj_on_subset [OF inj] distinct_card)
  then obtain z where "al = Some z" "create_fraud_alert P f c n (svc2, w2) = (Inr z, (svc', w'))"
    using rest len q by auto
  moreover have "map (\<lambda>(c, al). al \<noteq> None) init = map (\<lambda>al. al \<noteq> None) (map snd init)"
    by (simp add: split_beta)
  ultimately show ?thesis
    using create_fraud_alert_return(1) [OF ok _ from_string_InrD [OF b2]] q by (auto simp: out m)
qed


definition sample_request :: "nat \<Rightarrow> string \<Rightarrow> request" where
  "sample_request n a = (memory_fresh n, a, ''08012345678'', ''8.8.8.8'', None)"

definition sample_run :: "request list \<Rightarrow> (service_error + (call_rec \<times> fraud_alert option) list) \<times> (detection_service \<times> memory)" where
  "sample_run rs = eff_map (register_request memory_ports (\<lambda>_. None)) rs (memory_service, empty_memory)"

lemma two_callers_return:
  "(case fst (sample_run [sample_request 1 ''08030000001'', sample_request 2 ''08030000002'']) of
      Inr _ \<Rightarrow> True | Inl _ \<Rightarrow> False)"
  by code_simp

theorem first_alert_at_threshold_witness:
  "\<exists>out s'. sample_run [sample_request 1 ''08030000001'', sample_request 2 ''08030000002''] = (Inr out, s')
     \<and> map (\<lambda>(c, al). al \<noteq> None) out = [False, True]"
proof -
  let ?r1 = "sample_request 1 ''08030000001''" and ?r2 = "sample_request 2 ''08030000002''"
  obtain q svc' w' where q: "sample_run [?r1, ?r2] = (q, (svc', w'))" by (cases "sample_run [?r1, ?r2]")
  then obtain out where out: "sample_run [?r1, ?r2] = (Inr out, (svc', w'))"
    using two_callers_return unfolding q by (cases q) auto
  have b: "msisdn_from_string ''08012345678'' = Inr (MSISDN ''+2348012345678'')" by code_simp
  have a: "msisdn_from_string ''08030000001'' = Inr (MSISDN ''+2348030000001'')"
    "msisdn_from_string ''08030000002'' = Inr (MSISDN ''+2348030000002'')" by code_simp+
  have "map (\<lambda>(c, al). al \<noteq> None) out = replicate (length [?r1]) False @ [True]
      \<and> memory_members w' (msisdn_value (MSISDN ''+2348012345678'')) = {}"
  proof (rule first_alert_at_threshold [OF memory_window_ports])
    show "eff_map (register_request memory_ports (\<lambda>_. None)) ([?r1] @ [?r2]) (memory_service, empty_memory)
        = (Inr out, (svc', w'))" using out by (simp add: sample_run_def)
    show "map (\<lambda>(f, a, b, ip, raw). msisdn_from_string a) ([?r1] @ [?r2])
        = map Inr [MSISDN ''+2348030000001'', MSISDN ''+2348030000002'']"
      by (simp add: sample_request_def a)
  qed (simp_all add: memory_members_def empty_memory_def sample_request_def b memory_service_def)
  with out show ?thesis by simp
qed


section \<open>A second alert inside the window\<close>

lemma flag_calls_flagged:
  assumes "\<exists>c \<in> set cs. is_flagged c"
  shows "\<exists>e w'. flag_calls P f i sc cs w = (Inl e, w')"
proof -
  have "\<exists>e w'. eff_for ics (\<lambda>(n, c). eff_bind (domain_lift (flag_as_fraud (fr_flag_time f n) i (mk_score sc) c))
      (call_save P)) w = (Inl e, w')" if "\<exists>x \<in> set ics. is_flagged (snd x)" for ics
    using that
  proof (induction ics arbitrary: w)
    case (Cons x ics)
    obtain n c where x: "x = (n, c)" by (cases x)
    show ?case
    proof (cases "is_flagged c")
      case True
      then show ?thesis
        by (simp add: x eff_then_def eff_bind_def flag_as_fraud_def domain_lift_def eff_lift_def)
    next
      case False
      then have "\<exists>y \<in> set ics. is_flagged (snd y)" using Cons.prems by (auto simp: x)
      note ih = Cons.IH [OF this]
      obtain c' where c': "flag_as_fraud (fr_flag_time f n) i (mk_score sc) c = Inr c'"
        using False by (simp add: flag_as_fraud_def)
      show ?thesis
        using ih by (cases "call_save P c' w"; cases "fst (call_save P c' w)")
          (auto simp: x eff_then_def eff_bind_def domain_lift_def eff_lift_def c')
    qed
  qed simp
  moreover have "\<exists>x \<in> set (zip [0..<length cs] cs). is_flagged (snd x)"
  proof -
    obtain n where "n < length cs" "is_flagged (cs ! n)" using assms by (auto simp: in_set_conv_nth)
    then have "([0..<length cs] ! n, cs ! n) \<in> set (zip [0..<length cs] cs)"
      by (intro in_set_zip [THEN iffD2]) (auto intro!: exI [of _ n])
    with \<open>is_flagged (cs ! n)\<close> show ?thesis by force
  qed
  ultimately show ?thesis unfolding flag_calls_def by blast
qed

text \<open>When the window still holds a call an earlier alert flagged, the next time the threshold is
  reached \<open>_create_fraud_alert\<close> raises: the new alert is not stored, no event is queued, the window is
  not cleared, and the only thing it may have written is the calls it flagged before the raise.\<close>
theorem second_alert_lost:
  assumes callers: "get_distinct_callers P (msisdn_value (b_number c)) w = (Inr xs, w1)"
    and calls: "find_calls_in_window P (b_number c) (fr_now f - of_int (window_seconds (ds_window svc)))
      (fr_now f) w1 = (Inr cs, w2)"
    and flagged: "\<exists>d \<in> set cs. is_flagged d" and can: "canonical (msisdn_value (b_number c))"
  shows "\<exists>e i. create_fraud_alert P f c n (svc, w)
      = (Inl e, (svc, snd (flag_calls P f i (confidence_of n) cs w2)))"
proof -
  obtain al where al: "create_alert (fr_alert_id f) (fr_alert_times f) (msisdn_value (b_number c))
      (fraud_type_of c) (confidence_of n) xs (map (\<lambda>c. call_id_value (call_ident c)) cs)
      (remdups (map (\<lambda>c. ip_value (source_ip c)) cs)) = Inr al"
    by (simp add: create_alert_def Let_def b_number_reparse [OF can])
  obtain e w' where "flag_calls P f (al_id al) (confidence_of n) cs w2 = (Inl e, w')"
    using flag_calls_flagged [OF flagged, of P f "al_id al" "confidence_of n" w2] by auto
  then have "create_fraud_alert P f c n (svc, w)
      = (Inl e, (svc, snd (flag_calls P f (al_id al) (confidence_of n) cs w2)))"
    using callers calls al
    by (simp add: create_fraud_alert_def Let_def eff_bind_def eff_then_def on_world_def eff_gets_def
        domain_lift_def eff_lift_def)
  then show ?thesis by blast
qed

text \<open>At threshold two, the fourth caller within the window: the third and fourth complete a second
  group, and the registration raises.\<close>

definition after_alert :: "detection_service \<times> memory" where
  "after_alert = snd (sample_run [sample_request 1 ''08030000001'', sample_request 2 ''08030000002'',
     sample_request 3 ''08030000003''])"

lemma after_alert_facts:
  "list_ex is_flagged (filter (\<lambda>c. b_number c = b_number sample_call \<and> -4 \<le> call_timestamp c
     \<and> call_timestamp c \<le> 1) (m_calls (snd after_alert)))
   \<and> ds_window (fst after_alert) = DetectionWindow 5 \<and> b_number sample_call = MSISDN ''+2348012345678''"
  by code_simp

theorem second_alert_lost_witness:
  "\<exists>e w'. create_fraud_alert memory_ports (memory_fresh 4) sample_call 2 after_alert
     = (Inl e, (fst after_alert, w'))"
proof -
  let ?b = "MSISDN ''+2348012345678''" and ?w = "snd after_alert"
  have b: "b_number sample_call = ?b" and flagged: "\<exists>d \<in> set (filter (\<lambda>c. b_number c = b_number sample_call
      \<and> -4 \<le> call_timestamp c \<and> call_timestamp c \<le> 1) (m_calls ?w)). is_flagged d"
    and win: "ds_window (fst after_alert) = DetectionWindow 5"
    using after_alert_facts by (auto simp: list_ex_iff)
  have can: "canonical (msisdn_value (b_number sample_call))"
    unfolding b by (auto simp: canonical_def is_digit_def char_code_def)
  have callers: "get_distinct_callers memory_ports (msisdn_value (b_number sample_call)) ?w
      = (Inr (remdups (map snd (filter (\<lambda>x. fst x = msisdn_value (b_number sample_call)) (m_windows ?w)))), ?w)"
    by (simp add: memory_ports_def)
  have calls: "find_calls_in_window memory_ports (b_number sample_call)
      (fr_now (memory_fresh 4) - of_int (window_seconds (ds_window (fst after_alert))))
      (fr_now (memory_fresh 4)) ?w = (Inr (filter (\<lambda>c. b_number c = b_number sample_call
         \<and> -4 \<le> call_timestamp c \<and> call_timestamp c \<le> 1) (m_calls ?w)), ?w)"
    by (simp add: memory_ports_def memory_fresh_def win)
  show ?thesis
    using second_alert_lost [OF callers calls flagged can, of 2] by auto
qed



section \<open>The alert service\<close>

text \<open>A repository with the documented behaviour: \<open>S w i\<close> is the alert stored under \<open>i\<close>.\<close>

definition alert_store_ok :: "'w alert_ports \<Rightarrow> ('w \<Rightarrow> string \<Rightarrow> fraud_alert option) \<Rightarrow> bool" where
  "alert_store_ok R S \<longleftrightarrow> (\<forall>i w. find_alert_by_id R i w = (Inr (S w i), w))
     \<and> (\<forall>a w w'. store_alert R a w = (Inr (), w') \<longrightarrow> S w' = (S w)(al_id a \<mapsto> a))
     \<and> (\<forall>w i a. S w i = Some a \<longrightarrow> al_id a = i)"

lemma load_alert_ok: "alert_store_ok R S \<Longrightarrow> load_alert R i w = (case S w i of
     None \<Rightarrow> (Inl (Domain (ValueError (''Alert not found: '' @ i))), w) | Some a \<Rightarrow> (Inr a, w))"
  by (simp add: alert_store_ok_def load_alert_def eff_bind_def split: option.split)

lemma acknowledge_alert_return:
  assumes ok: "alert_store_ok R S" and run: "acknowledge_alert R ts i u w = (Inr a, w')"
  obtains a0 where "S w i = Some a0" "acknowledge ts u a0 = Inr a" "S w' i = Some a"
proof -
  obtain a0 where a0: "S w i = Some a0" "acknowledge ts u a0 = Inr a" "store_alert R a w = (Inr (), w')"
    using run by (auto simp: acknowledge_alert_def eff_Inr_iffs load_alert_ok [OF ok] split: option.splits)
  moreover have "al_id a0 = i" using ok a0(1) by (auto simp: alert_store_ok_def)
  moreover have "al_id a = al_id a0" using a0(2) by (auto simp: acknowledge_def split: if_splits)
  ultimately show thesis using that ok by (auto simp: alert_store_ok_def)
qed

text \<open>An alert is acknowledged by one user: after \<open>acknowledge_alert\<close> has returned, the repository
  holds the alert it returned, acknowledged by that user, and a second acknowledgement by anyone
  raises and changes nothing.\<close>
theorem one_acknowledgement:
  assumes ok: "alert_store_ok R S" and run: "acknowledge_alert R ts i u w = (Inr a, w')"
  shows "S w' i = Some a \<and> al_status a = ACKNOWLEDGED \<and> acknowledged_by a = Some u
    \<and> acknowledge_alert R ts' i u' w'
        = (Inl (Domain (ValueError ''Only pending alerts can be acknowledged'')), w')"
proof -
  obtain a0 where "acknowledge ts u a0 = Inr a" and s: "S w' i = Some a"
    by (rule acknowledge_alert_return [OF ok run])
  then have a: "al_status a = ACKNOWLEDGED" "acknowledged_by a = Some u"
    by (auto simp: acknowledge_def split: if_splits)
  then have "acknowledge_alert R ts' i u' w'
      = (Inl (Domain (ValueError ''Only pending alerts can be acknowledged'')), w')"
    by (simp add: acknowledge_alert_def eff_bind_def load_alert_ok [OF ok] s acknowledge_def
        domain_lift_def eff_lift_def)
  with a s show ?thesis by simp
qed

definition alert_memory :: "fraud_alert list alert_ports" where
  "alert_memory =
    \<lparr>find_alert_by_id = (\<lambda>i. eff_gets (find (\<lambda>a. al_id a = i))),
     store_alert = (\<lambda>a. eff_modify (\<lambda>as. a # filter (\<lambda>b. al_id b \<noteq> al_id a) as)),
     find_pending = eff_gets (filter (\<lambda>a. al_status a = PENDING)),
     count_pending = eff_gets (\<lambda>as. int (length (filter (\<lambda>a. al_status a = PENDING) as)))\<rparr>"

lemma find_filter_other: "i \<noteq> j \<Longrightarrow>
    find (\<lambda>a. al_id a = i) (filter (\<lambda>b. al_id b \<noteq> j) as) = find (\<lambda>a. al_id a = i) as"
  by (induction as) auto

lemma alert_memory_ok: "alert_store_ok alert_memory (\<lambda>w i. find (\<lambda>a. al_id a = i) w)"
  by (auto simp: alert_store_ok_def alert_memory_def fun_eq_iff find_filter_other find_Some_iff)

lemma sample_alert_id: "al_id sample_alert = ''al-1'' \<and> al_status sample_alert = PENDING"
  by code_simp

theorem one_acknowledgement_witness:
  "\<exists>a w'. acknowledge_alert alert_memory (5, 5) ''al-1'' ''ann'' [sample_alert] = (Inr a, w')
     \<and> fst (acknowledge_alert alert_memory (6, 6) ''al-1'' ''bob'' w')
        = Inl (Domain (ValueError ''Only pending alerts can be acknowledged''))"
proof -
  have "\<exists>a w'. acknowledge_alert alert_memory (5, 5) ''al-1'' ''ann'' [sample_alert] = (Inr a, w')"
    using sample_alert_id
    by (simp add: acknowledge_alert_def eff_bind_def eff_then_def load_alert_def alert_memory_def
        acknowledge_def domain_lift_def eff_lift_def eff_gets_def eff_modify_def eff_return_def)
  then show ?thesis
    using one_acknowledgement [OF alert_memory_ok] by fastforce
qed

end
