(* ===== verification/SipParser.thy ===== *)
theory SipParser
  imports PyText
begin

text \<open>
  SIP signalling, \<open>services/sip-processor/app/signaling\<close>: the header model and number extraction of
  \<open>models.py\<close>, the message parser of \<open>parser.py\<close> and the capture queue of \<open>listener.py\<close>. A message
  is its decoded text; the decoding of the bytes (UTF-8 with undecodable bytes dropped) is a parameter
  of the listener. No modelled branch of the parser raises.
\<close>

section \<open>Methods and header information\<close>

datatype sip_method =
  INVITE | ACK | BYE | CANCEL | REGISTER | OPTIONS | INFO | UPDATE | PRACK | SUBSCRIBE | NOTIFY | REFER
| MESSAGE

fun method_value :: "sip_method \<Rightarrow> string" where
  "method_value INVITE = ''INVITE''"
| "method_value ACK = ''ACK''"
| "method_value BYE = ''BYE''"
| "method_value CANCEL = ''CANCEL''"
| "method_value REGISTER = ''REGISTER''"
| "method_value OPTIONS = ''OPTIONS''"
| "method_value INFO = ''INFO''"
| "method_value UPDATE = ''UPDATE''"
| "method_value PRACK = ''PRACK''"
| "method_value SUBSCRIBE = ''SUBSCRIBE''"
| "method_value NOTIFY = ''NOTIFY''"
| "method_value REFER = ''REFER''"
| "method_value MESSAGE = ''MESSAGE''"

definition all_methods :: "sip_method list" where
  "all_methods = [INVITE, ACK, BYE, CANCEL, REGISTER, OPTIONS, INFO, UPDATE, PRACK, SUBSCRIBE, NOTIFY,
     REFER, MESSAGE]"

record sip_header_info =
  sh_call_id :: string
  sh_cli :: "string option"
  sh_pai :: "string option"
  sh_rpid :: "string option"
  sh_from_uri :: string
  sh_to_uri :: string
  sh_contact_uri :: "string option"
  sh_via :: "string list"
  sh_route :: "string list"
  sh_record_route :: "string list"
  sh_cseq :: string
  sh_method :: sip_method
  sh_timestamp :: instant

text \<open>\<open>extract_number\<close> of \<open>models.py\<close>.\<close>

definition drop_scheme :: "string \<Rightarrow> string" where
  "drop_scheme uri =
     (if startswith ''sip:'' uri then drop 4 uri
      else if startswith ''tel:'' uri then drop 4 uri
      else if startswith ''<sip:'' uri then drop 5 uri else uri)"

definition extract_number :: "string \<Rightarrow> string" where
  "extract_number uri =
     (if uri = [] then []
      else py_strip (before (CHR '';'') (before (CHR ''@'') (before (CHR ''>'') (drop_scheme uri)))))"

definition has_cli_mismatch :: "sip_header_info \<Rightarrow> bool" where
  "has_cli_mismatch h =
     (if \<not> truthy (sh_cli h) \<or> \<not> truthy (sh_pai h) then False else sh_cli h \<noteq> sh_pai h)"

definition sip_a_number :: "sip_header_info \<Rightarrow> string" where
  "sip_a_number h =
     (if truthy (sh_pai h) then the (sh_pai h) else if truthy (sh_cli h) then the (sh_cli h) else [])"

definition sip_b_number :: "sip_header_info \<Rightarrow> string" where
  "sip_b_number h = extract_number (sh_to_uri h)"


section \<open>Parsing\<close>

text \<open>\<open>s.split("\r\n")\<close>.\<close>

fun split_crlf :: "string \<Rightarrow> string list" where
  "split_crlf [] = [[]]"
| "split_crlf [c] = [[c]]"
| "split_crlf (c # d # s) =
     (if c = CHR 0x0D \<and> d = CHR 0x0A then [] # split_crlf s
      else case split_crlf (d # s) of [] \<Rightarrow> [[c]] | l # ls \<Rightarrow> (c # l) # ls)"

text \<open>\<open>s.split()[0]\<close>, empty when there is no word.\<close>

definition first_word :: "string \<Rightarrow> string" where
  "first_word s = takeWhile (\<lambda>c. \<not> is_space c) (dropWhile is_space s)"

definition parse_method :: "string \<Rightarrow> sip_method" where
  "parse_method request_line =
     (if first_word request_line = [] then INVITE
      else case filter (\<lambda>m. method_value m = py_upper (first_word request_line)) all_methods of
             [] \<Rightarrow> INVITE | m # _ \<Rightarrow> m)"

definition store_header :: "string \<Rightarrow> string \<Rightarrow> (string, string) dict \<Rightarrow> (string, string) dict" where
  "store_header cur val hs = (if cur \<noteq> [] then dict_set (py_lower cur) val hs else hs)"

text \<open>The loop over the header lines; \<open>cur\<close> is the current header's name, empty when there is none (the
  code's None and an empty name are alike false).\<close>

fun header_loop :: "string list \<Rightarrow> string \<Rightarrow> string \<Rightarrow> (string, string) dict \<Rightarrow> (string, string) dict" where
  "header_loop [] cur val hs = store_header cur val hs"
| "header_loop (line # lines) cur val hs =
     (if line = [] then store_header cur val hs
      else if hd line = CHR '' '' \<or> hd line = CHR 0x09
      then header_loop lines cur (if cur \<noteq> [] then val @ '' '' @ py_strip line else val) hs
      else if CHR '':'' \<in> set line
      then header_loop lines (py_strip (before (CHR '':'') line)) (py_strip (after_first (CHR '':'') line))
             (store_header cur val hs)
      else header_loop lines [] [] (store_header cur val hs))"

definition parse_headers :: "string list \<Rightarrow> (string, string) dict" where
  "parse_headers lines = header_loop lines [] [] []"

definition parse_multi_header :: "(string, string) dict \<Rightarrow> string \<Rightarrow> string \<Rightarrow> string list" where
  "parse_multi_header hs name short =
     concat (map (\<lambda>k. case dict_get hs k of None \<Rightarrow> [] | Some v \<Rightarrow> map py_strip (split_on (CHR '','') v))
       [name, short])"

text \<open>The first match of \<open><([^>]+)>\<close>, its group.\<close>

fun angle_group :: "string \<Rightarrow> string option" where
  "angle_group [] = None"
| "angle_group (c # s) =
     (let g = before (CHR ''>'') s in
      if c = CHR ''<'' \<and> g \<noteq> [] \<and> length g < length s then Some g else angle_group s)"

definition extract_number_from_uri :: "string \<Rightarrow> string option" where
  "extract_number_from_uri h =
     (if h = [] then None
      else let n = extract_number (case angle_group h of Some u \<Rightarrow> u | None \<Rightarrow> h) in
           if n \<noteq> [] then Some n else None)"

definition header_or :: "(string, string) dict \<Rightarrow> string \<Rightarrow> string \<Rightarrow> string" where
  "header_or hs name short =
     (case dict_get hs name of Some v \<Rightarrow> v | None \<Rightarrow>
      case dict_get hs short of Some v \<Rightarrow> v | None \<Rightarrow> [])"

definition header_plain :: "(string, string) dict \<Rightarrow> string \<Rightarrow> string" where
  "header_plain hs name = (case dict_get hs name of Some v \<Rightarrow> v | None \<Rightarrow> [])"

definition parse_sip_message :: "instant \<Rightarrow> string \<Rightarrow> sip_header_info" where
  "parse_sip_message now message =
     (let lines = split_crlf message;
          hs = parse_headers (tl lines);
          pai = header_plain hs ''p-asserted-identity'';
          rpid = header_plain hs ''remote-party-id'';
          contact = header_or hs ''contact'' ''m'' in
      \<lparr>sh_call_id = header_or hs ''call-id'' ''i'',
       sh_cli = extract_number_from_uri (header_or hs ''from'' ''f''),
       sh_pai = (if pai \<noteq> [] then extract_number_from_uri pai else None),
       sh_rpid = (if rpid \<noteq> [] then extract_number_from_uri rpid else None),
       sh_from_uri = header_or hs ''from'' ''f'', sh_to_uri = header_or hs ''to'' ''t'',
       sh_contact_uri = (if contact \<noteq> [] then Some contact else None),
       sh_via = parse_multi_header hs ''via'' ''v'', sh_route = [], sh_record_route = [],
       sh_cseq = header_plain hs ''cseq'', sh_method = parse_method (hd lines), sh_timestamp = now\<rparr>)"

definition is_sip_message :: "string \<Rightarrow> bool" where
  "is_sip_message d =
     (if d = [] then False
      else if startswith ''SIP/2.0'' d then True
      else list_ex (\<lambda>m. startswith (method_value m) d) all_methods)"


section \<open>The capture queue\<close>

record sip_event =
  se_header :: sip_header_info
  se_raw :: string
  se_src_ip :: string
  se_src_port :: int
  se_dst_ip :: string
  se_dst_port :: int
  se_timestamp :: instant

definition is_invite :: "sip_event \<Rightarrow> bool" where
  "is_invite e \<longleftrightarrow> sh_method (se_header e) = INVITE"

text \<open>What the capture library delivers: the UDP layer if there is one (ports and payload) and the
  addresses of the IP layer if there is one.\<close>

record packet =
  pk_udp :: "(int \<times> int \<times> string) option"
  pk_ip :: "(string \<times> string) option"

record listener =
  li_port :: int
  li_queue :: "sip_event list"
  li_running :: bool

definition queue_max :: nat where
  "queue_max = 10000"

definition packet_event :: "(string \<Rightarrow> string) \<Rightarrow> instant \<times> instant \<Rightarrow> int \<Rightarrow> packet \<Rightarrow> sip_event option" where
  "packet_event decode ts port p =
     (case pk_udp p of None \<Rightarrow> None
      | Some (sport, dport, raw) \<Rightarrow>
          if dport \<noteq> port \<and> sport \<noteq> port then None
          else if raw = [] \<or> \<not> is_sip_message raw then None
          else let (src, dst) = (case pk_ip p of Some a \<Rightarrow> a | None \<Rightarrow> (''0.0.0.0'', ''0.0.0.0'')) in
               Some \<lparr>se_header = parse_sip_message (fst ts) (decode raw), se_raw = raw, se_src_ip = src,
                     se_src_port = sport, se_dst_ip = dst, se_dst_port = dport, se_timestamp = snd ts\<rparr>)"

definition packet_callback :: "(string \<Rightarrow> string) \<Rightarrow> instant \<times> instant \<Rightarrow> packet \<Rightarrow> listener \<Rightarrow> listener" where
  "packet_callback decode ts p l =
     (case packet_event decode ts (li_port l) p of None \<Rightarrow> l
      | Some e \<Rightarrow> if length (li_queue l) < queue_max then l\<lparr>li_queue := li_queue l @ [e]\<rparr> else l)"

text \<open>One turn of the processing loop: the oldest event, if one came before the timeout.\<close>

definition process_turn :: "listener \<Rightarrow> sip_event option \<times> listener" where
  "process_turn l =
     (if \<not> li_running l then (None, l)
      else case li_queue l of [] \<Rightarrow> (None, l) | e # es \<Rightarrow> (Some e, l\<lparr>li_queue := es\<rparr>))"

datatype listener_event = Packet "instant \<times> instant" packet | Turn | Start | Stop

fun listener_step :: "(string \<Rightarrow> string) \<Rightarrow> listener_event \<Rightarrow> listener \<Rightarrow> listener" where
  "listener_step d (Packet ts p) l = packet_callback d ts p l"
| "listener_step d Turn l = snd (process_turn l)"
| "listener_step d Start l = l\<lparr>li_running := True\<rparr>"
| "listener_step d Stop l = l\<lparr>li_running := False\<rparr>"


section \<open>Messages as they are written\<close>

definition crlf :: string where "crlf = [CHR 0x0D, CHR 0x0A]"

definition header_line :: "string \<times> string \<Rightarrow> string" where
  "header_line h = fst h @ '': '' @ snd h"

definition render_message :: "string \<Rightarrow> (string \<times> string) list \<Rightarrow> string \<Rightarrow> string" where
  "render_message rl hs body = concat (map (\<lambda>l. l @ crlf) (rl # map header_line hs @ [[]])) @ body"

definition header_ok :: "string \<times> string \<Rightarrow> bool" where
  "header_ok h \<longleftrightarrow> fst h \<noteq> [] \<and> CHR '':'' \<notin> set (fst h) \<and> py_strip (fst h) = fst h \<and> py_strip (snd h) = snd h
     \<and> CHR 0x0D \<notin> set (fst h) \<union> set (snd h)"

text \<open>The value a list of headers gives to a name: the last one, whatever the case of its letters.\<close>

definition last_header :: "(string \<times> string) list \<Rightarrow> string \<Rightarrow> string option" where
  "last_header hs k = map_of (rev (map (\<lambda>(n, v). (py_lower n, v)) hs)) k"

lemma split_crlf_line:
  "CHR 0x0D \<notin> set l \<Longrightarrow> split_crlf (l @ crlf @ s) = l # split_crlf s"
proof (induction l)
  case (Cons c l)
  obtain d t where dt: "l @ crlf @ s = d # t" by (cases l) (auto simp: crlf_def)
  with Cons show ?case by auto
qed (simp add: crlf_def)

lemma split_crlf_lines:
  "\<forall>l \<in> set ls. CHR 0x0D \<notin> set l \<Longrightarrow>
     split_crlf (concat (map (\<lambda>l. l @ crlf) ls) @ s) = ls @ split_crlf s"
  by (induction ls) (simp_all add: split_crlf_line)

lemma py_lower_ne: "py_lower n = [] \<longleftrightarrow> n = []"
  by (simp add: py_lower_def)

lemma space_chars [simp]: "is_space CHR '' ''" "is_space CHR 0x09"
  by (simp_all add: is_space_def char_code_def)

lemma header_loop_line:
  assumes "header_ok (n, v)"
  shows "header_loop (header_line (n, v) # ls) cur val hs = header_loop ls n v (store_header cur val hs)"
proof -
  have n: "n \<noteq> []" "CHR '':'' \<notin> set n" "py_strip n = n" "py_strip v = v"
    using assms by (auto simp: header_ok_def)
  then have "\<not> is_space (hd n)" by (simp add: py_strip_hd)
  then have "hd n \<noteq> CHR '' ''" "hd n \<noteq> CHR 0x09" by auto
  with n show ?thesis
    by (simp add: header_line_def before_append after_first_append py_strip_space)
qed

lemma header_loop_headers:
  "\<forall>h \<in> set hs. header_ok h \<Longrightarrow> header_loop (map header_line hs @ [] # rest) cur val d
     = fold (\<lambda>(n, v). store_header n v) hs (store_header cur val d)"
proof (induction hs arbitrary: cur val d)
  case (Cons h hs)
  then show ?case by (cases h) (simp add: header_loop_line del: header_loop.simps(2))
qed simp

lemma dict_get_stored:
  "\<forall>h \<in> set hs. fst h \<noteq> [] \<Longrightarrow> dict_get (fold (\<lambda>(n, v). store_header n v) hs d) k
     = (case last_header hs k of Some v \<Rightarrow> Some v | None \<Rightarrow> dict_get d k)"
proof (induction hs arbitrary: d)
  case (Cons h hs)
  then show ?case
    by (cases h) (auto simp: last_header_def store_header_def map_add_def split: option.splits)
qed (simp add: last_header_def)

lemma parsed_header:
  assumes "\<forall>h \<in> set hs. header_ok h" "CHR 0x0D \<notin> set rl"
  shows "hd (split_crlf (render_message rl hs body)) = rl"
    and "dict_get (parse_headers (tl (split_crlf (render_message rl hs body)))) k = last_header hs k"
proof -
  have lines: "split_crlf (render_message rl hs body) = (rl # map header_line hs @ [[]]) @ split_crlf body"
    unfolding render_message_def
    by (rule split_crlf_lines) (use assms in \<open>auto simp: header_line_def header_ok_def\<close>)
  show "hd (split_crlf (render_message rl hs body)) = rl" by (simp add: lines)
  have "\<forall>h \<in> set hs. fst h \<noteq> []" using assms by (auto simp: header_ok_def)
  then show "dict_get (parse_headers (tl (split_crlf (render_message rl hs body)))) k = last_header hs k"
    using assms by (simp add: lines parse_headers_def header_loop_headers dict_get_stored
        store_header_def split: option.split)
qed


section \<open>Numbers\<close>

definition plain_number :: "string \<Rightarrow> bool" where
  "plain_number s \<longleftrightarrow> s \<noteq> [] \<and> list_all (\<lambda>c. c \<notin> set ''<>@;'' \<and> \<not> is_space c) s"

lemma plain_numberD:
  assumes "plain_number s"
  shows "s \<noteq> []" "CHR ''<'' \<notin> set s" "CHR ''>'' \<notin> set s" "CHR ''@'' \<notin> set s" "CHR '';'' \<notin> set s"
    "py_strip s = s"
proof -
  have c: "\<forall>c \<in> set s. c \<notin> set ''<>@;'' \<and> \<not> is_space c" and ne: "s \<noteq> []"
    using assms by (simp_all add: plain_number_def list_all_iff)
  show "CHR ''<'' \<notin> set s" "CHR ''>'' \<notin> set s" "CHR ''@'' \<notin> set s" "CHR '';'' \<notin> set s"
    using c by auto
  show "py_strip s = s" by (rule py_strip_id) (use c ne in simp)
qed (use assms in \<open>simp add: plain_number_def\<close>)

lemma angle_group_first:
  assumes "CHR ''<'' \<notin> set dn" "g \<noteq> []" "CHR ''>'' \<notin> set g"
  shows "angle_group (dn @ CHR ''<'' # g @ CHR ''>'' # rest) = Some g"
  using assms by (induction dn) (auto simp: before_append Let_def)

lemma angle_group_absent: "CHR ''<'' \<notin> set s \<Longrightarrow> angle_group s = None"
  by (induction s) (auto simp: Let_def)

lemma extract_number_sip:
  assumes "plain_number a" "CHR ''>'' \<notin> set host"
  shows "extract_number (''sip:'' @ a @ CHR ''@'' # host) = a"
  using plain_numberD [OF assms(1)] assms(2)
  by (simp add: extract_number_def drop_scheme_def before_append before_absent)

lemma extract_number_tel:
  "plain_number a \<Longrightarrow> extract_number (''tel:'' @ a) = a"
  using plain_numberD [of a] by (simp add: extract_number_def drop_scheme_def before_absent)

lemma extract_from_brackets:
  assumes "CHR ''<'' \<notin> set dn" "plain_number a" "CHR ''>'' \<notin> set host"
  shows "extract_number_from_uri (dn @ ''<sip:'' @ a @ ''@'' @ host @ ''>'' @ rest) = Some a"
proof -
  have "angle_group (dn @ CHR ''<'' # (''sip:'' @ a @ CHR ''@'' # host) @ CHR ''>'' # rest)
      = Some (''sip:'' @ a @ CHR ''@'' # host)"
    by (rule angle_group_first) (use assms plain_numberD [OF assms(2)] in auto)
  then show ?thesis
    using extract_number_sip [OF assms(2,3)] plain_numberD(1) [OF assms(2)]
    by (simp add: extract_number_from_uri_def Let_def)
qed


section \<open>Properties of the parser\<close>

text \<open>C11: Header lines written as \<open>Name: value\<close> are read back: in a message with any request line,
  any such headers and any body, looking a name up gives the value of the last header of that name,
  upper and lower case taken as equal. For a repeated header that is the last occurrence, where the
  comment of \<open>_parse_headers\<close> promises the first.\<close>
theorem headers_roundtrip:
  assumes "\<forall>h \<in> set hs. header_ok h" "CHR 0x0D \<notin> set rl"
  shows "dict_get (parse_headers (tl (split_crlf (render_message rl hs body)))) k = last_header hs k
    \<and> sh_method (parse_sip_message now (render_message rl hs body)) = parse_method rl"
  using parsed_header [OF assms] by (simp add: parse_sip_message_def Let_def)

theorem headers_roundtrip_witness:
  "dict_get (parse_headers (tl (split_crlf (render_message ''INVITE sip:b SIP/2.0''
     [(''Via'', ''first''), (''VIA'', ''second'')] ''v=0'')))) ''via'' = Some ''second''"
proof -
  let ?hs = "[(''Via'', ''first''), (''VIA'', ''second'')]" and ?rl = "''INVITE sip:b SIP/2.0''"
  have "list_all header_ok ?hs" "last_header ?hs ''via'' = Some ''second''" by code_simp+
  then show ?thesis
    using headers_roundtrip [of ?hs ?rl] by (simp add: list_all_iff)
qed

text \<open>The caller's claimed and asserted numbers are read correctly and compared: when the last From
  and the last P-Asserted-Identity header have the form \<open>display <sip:number@host> parameters\<close>, the
  parsed CLI and asserted identity are those numbers, the A-number is the asserted one, and a CLI
  mismatch is reported exactly when the two differ.\<close>
theorem cli_mismatch_exact:
  assumes wf: "\<forall>h \<in> set hs. header_ok h" "CHR 0x0D \<notin> set rl"
    and fr: "last_header hs ''from'' = Some (dn @ ''<sip:'' @ a @ ''@'' @ host @ ''>'' @ rest)"
    and pai: "last_header hs ''p-asserted-identity'' = Some (dn' @ ''<sip:'' @ b @ ''@'' @ host' @ ''>'' @ rest')"
    and plain: "plain_number a" "plain_number b"
    and names: "CHR ''<'' \<notin> set dn \<union> set dn'" "CHR ''>'' \<notin> set host \<union> set host'"
  shows "let h = parse_sip_message now (render_message rl hs body) in
     sh_cli h = Some a \<and> sh_pai h = Some b \<and> sip_a_number h = b \<and> (has_cli_mismatch h \<longleftrightarrow> a \<noteq> b)"
proof -
  have ex: "extract_number_from_uri (dn @ ''<sip:'' @ a @ ''@'' @ host @ ''>'' @ rest) = Some a"
    "extract_number_from_uri (dn' @ ''<sip:'' @ b @ ''@'' @ host' @ ''>'' @ rest') = Some b"
    by (rule extract_from_brackets; use plain names in simp)+
  have "sh_cli (parse_sip_message now (render_message rl hs body)) = Some a"
    "sh_pai (parse_sip_message now (render_message rl hs body)) = Some b"
    using ex fr pai
    by (simp_all add: parse_sip_message_def Let_def parsed_header [OF wf] header_or_def header_plain_def)
  then show ?thesis
    using plain_numberD(1) [OF plain(1)] plain_numberD(1) [OF plain(2)]
    by (simp add: Let_def has_cli_mismatch_def sip_a_number_def truthy_def)
qed

definition spoofed_headers :: "(string \<times> string) list" where
  "spoofed_headers = [(''From'', ''A <sip:+2348030000001@h>;tag=1''), (''P-Asserted-Identity'', ''<sip:+12025551234@n>'')]"

theorem cli_mismatch_exact_witness:
  "has_cli_mismatch (parse_sip_message 0 (render_message ''INVITE sip:b SIP/2.0'' spoofed_headers []))"
proof -
  have wf: "list_all header_ok spoofed_headers" and plain: "plain_number ''+2348030000001''" "plain_number ''+12025551234''"
    by code_simp+
  have fr: "last_header spoofed_headers ''from''
      = Some (''A '' @ ''<sip:'' @ ''+2348030000001'' @ ''@'' @ ''h'' @ ''>'' @ '';tag=1'')"
    and pai: "last_header spoofed_headers ''p-asserted-identity''
      = Some ([] @ ''<sip:'' @ ''+12025551234'' @ ''@'' @ ''n'' @ ''>'' @ [])"
    by code_simp+
  show ?thesis
    using cli_mismatch_exact [OF _ _ fr pai plain, of "''INVITE sip:b SIP/2.0''" 0 "[]"] wf
    by (simp add: list_all_iff Let_def)
qed

text \<open>The called number is not read that carefully: \<open>b_number\<close> does not look for the angle brackets,
  so for a To header with a quoted display name it is the display name, the bracket and the scheme
  followed by the number, where reading the same header as the From header is read gives the number.\<close>
theorem b_number_keeps_display:
  assumes to: "sh_to_uri h = CHR 0x22 # q @ [CHR 0x22, CHR '' ''] @ ''<sip:'' @ b @ ''@'' @ host @ ''>'' @ rest"
    and q: "set q \<inter> set ''<>@;'' = {}" and b: "plain_number b" and host: "CHR ''>'' \<notin> set host"
  shows "sip_b_number h = CHR 0x22 # q @ [CHR 0x22, CHR '' ''] @ ''<sip:'' @ b
    \<and> extract_number_from_uri (sh_to_uri h) = Some b"
proof -
  let ?dn = "CHR 0x22 # q @ [CHR 0x22, CHR '' '']"
  have q': "CHR ''<'' \<notin> set q" "CHR ''>'' \<notin> set q" "CHR ''@'' \<notin> set q" "CHR '';'' \<notin> set q"
    using q by auto
  note b' = plain_numberD [OF b]
  have uri: "sh_to_uri h = (?dn @ ''<sip:'' @ b @ ''@'' @ host) @ CHR ''>'' # rest" using to by simp
  have "CHR ''>'' \<notin> set (?dn @ ''<sip:'' @ b @ ''@'' @ host)" using q' b' host by simp
  then have g: "before (CHR ''>'') (sh_to_uri h) = ?dn @ ''<sip:'' @ b @ ''@'' @ host"
    unfolding uri by (rule before_append)
  have "before (CHR ''@'') ((?dn @ ''<sip:'' @ b) @ CHR ''@'' # host) = ?dn @ ''<sip:'' @ b"
    by (rule before_append) (use q' b' in simp)
  then have a: "before (CHR ''@'') (?dn @ ''<sip:'' @ b @ ''@'' @ host) = ?dn @ ''<sip:'' @ b" by simp
  have sc: "before (CHR '';'') (?dn @ ''<sip:'' @ b) = ?dn @ ''<sip:'' @ b"
    by (rule before_absent) (use q' b' in simp)
  have "\<not> is_space (last b)" using py_strip_ends [of b] b'(1,6) by simp
  then have st: "py_strip (?dn @ ''<sip:'' @ b) = ?dn @ ''<sip:'' @ b"
    by (intro py_strip_id) (use b'(1) in \<open>simp add: is_space_def char_code_def\<close>)
  have "drop_scheme (sh_to_uri h) = sh_to_uri h" by (simp add: drop_scheme_def to)
  then have "sip_b_number h = ?dn @ ''<sip:'' @ b"
    unfolding sip_b_number_def extract_number_def by (simp only: g a sc st) (simp add: to)
  moreover have "extract_number_from_uri (?dn @ ''<sip:'' @ b @ ''@'' @ host @ ''>'' @ rest) = Some b"
    by (rule extract_from_brackets) (use q' b host in auto)
  ultimately show ?thesis by (simp add: to)
qed


theorem b_number_keeps_display_witness:
  "\<exists>h. sip_b_number h = [CHR 0x22] @ ''Ann'' @ [CHR 0x22] @ '' <sip:+2348030000001''
     \<and> extract_number_from_uri (sh_to_uri h) = Some ''+2348030000001''"
proof -
  let ?h = "(parse_sip_message 0 [])\<lparr>sh_to_uri := CHR 0x22 # ''Ann'' @ [CHR 0x22, CHR '' '']
     @ ''<sip:'' @ ''+2348030000001'' @ ''@'' @ ''h'' @ ''>'' @ []\<rparr>"
  have "plain_number ''+2348030000001''" by code_simp
  then show ?thesis
    using b_number_keeps_display [of ?h "''Ann''" "''+2348030000001''" "''h''" "[]"] by auto
qed

lemma parse_method_word:
  "w \<noteq> [] \<Longrightarrow> \<forall>c \<in> set w. \<not> is_space c \<Longrightarrow> first_word (w @ CHR '' '' # r) = w"
  by (cases w) (auto simp: first_word_def takeWhile_tail dropWhile_append takeWhile_append)

lemma methods_distinct:
  "list_all (\<lambda>m. filter (\<lambda>k. method_value k = py_upper (method_value m)) all_methods = [m]) all_methods"
  by code_simp

lemma in_all_methods: "m \<in> set all_methods"
  by (cases m) (simp_all add: all_methods_def)

text \<open>A request line is read back as its method, whichever of the thirteen it is; a status line is
  read as an INVITE, so \<open>is_invite\<close> holds of every response the listener queues.\<close>
theorem request_methods:
  "parse_method (method_value m @ CHR '' '' # r) = m \<and> parse_method (''SIP/2.0 '' @ r) = INVITE"
proof
  have "\<forall>c \<in> set (method_value m). \<not> is_space c" "method_value m \<noteq> []"
    by (cases m; simp add: is_space_def char_code_def)+
  then have "first_word (method_value m @ CHR '' '' # r) = method_value m" "method_value m \<noteq> []"
    by (simp_all add: parse_method_word)
  moreover have "filter (\<lambda>k. method_value k = py_upper (method_value m)) all_methods = [m]"
    using methods_distinct in_all_methods [of m] by (simp add: list_all_iff)
  ultimately show "parse_method (method_value m @ CHR '' '' # r) = m"
    by (simp add: parse_method_def)
  have "first_word (''SIP/2.0'' @ CHR '' '' # r) = ''SIP/2.0''"
    by (rule parse_method_word) (simp_all add: is_space_def char_code_def)
  moreover have "filter (\<lambda>k. method_value k = py_upper ''SIP/2.0'') all_methods = []" by code_simp
  ultimately show "parse_method (''SIP/2.0 '' @ r) = INVITE"
    by (simp add: parse_method_def)
qed


section \<open>Properties of the queue\<close>

definition listener_inv :: "(string \<Rightarrow> string) \<Rightarrow> int \<Rightarrow> listener \<Rightarrow> bool" where [inv_defs]:
  "listener_inv d port l \<longleftrightarrow> li_port l = port \<and> length (li_queue l) \<le> queue_max
     \<and> list_all (\<lambda>e. is_sip_message (se_raw e) \<and> (se_src_port e = port \<or> se_dst_port e = port)) (li_queue l)"

lemma listener_step_inv: "listener_inv d port l \<Longrightarrow> listener_inv d port (listener_step d e l)"
proof (cases e)
  case (Packet ts p)
  assume "listener_inv d port l"
  with Packet show ?thesis
    by (auto simp: listener_inv_def packet_callback_def packet_event_def split: option.splits if_splits prod.splits)
qed (auto simp: listener_inv_def process_turn_def split: list.split)

interpretation listener_m: step_machine "listener_step d" "listener_inv d port" for d port
  by unfold_locales (rule listener_step_inv)

fun captured :: "(string \<Rightarrow> string) \<Rightarrow> int \<Rightarrow> listener_event list \<Rightarrow> sip_event list" where
  "captured d port [] = []"
| "captured d port (Packet ts p # es) =
     (case packet_event d ts port p of None \<Rightarrow> captured d port es | Some e \<Rightarrow> e # captured d port es)"
| "captured d port (_ # es) = captured d port es"

fun delivered :: "(string \<Rightarrow> string) \<Rightarrow> listener_event list \<Rightarrow> listener \<Rightarrow> sip_event list" where
  "delivered d [] l = []"
| "delivered d (e # es) l =
     (case e of Turn \<Rightarrow> (case fst (process_turn l) of None \<Rightarrow> [] | Some x \<Rightarrow> [x]) | _ \<Rightarrow> [])
       @ delivered d es (listener_step d e l)"

lemma turn_queue: "(case fst (process_turn l) of None \<Rightarrow> [] | Some x \<Rightarrow> [x]) @ li_queue (snd (process_turn l)) = li_queue l"
  by (auto simp: process_turn_def split: list.split)

lemma turn_port [simp]: "li_port (snd (process_turn l)) = li_port l"
  by (auto simp: process_turn_def split: list.split)

lemma callback_port [simp]: "li_port (packet_callback d ts p l) = li_port l"
  by (auto simp: packet_callback_def split: option.split)


lemma queue_order:
  "subseq (delivered d es l @ li_queue (fold (listener_step d) es l)) (li_queue l @ captured d (li_port l) es)"
proof (induction es arbitrary: l)
  case (Cons e es)
  let ?l = "listener_step d e l"
  have ih: "subseq (delivered d es ?l @ li_queue (fold (listener_step d) es ?l))
      (li_queue ?l @ captured d (li_port ?l) es)" by (rule Cons.IH)
  show ?case
  proof (cases e)
    case (Packet ts p)
    show ?thesis
    proof (cases "packet_event d ts (li_port l) p")
      case None
      then show ?thesis using ih by (simp add: Packet packet_callback_def)
    next
      case (Some x)
      have "subseq (li_queue ?l @ captured d (li_port l) es) (li_queue l @ x # captured d (li_port l) es)"
        by (auto simp: Packet packet_callback_def Some intro: list_emb_append_mono)
      with ih have "subseq (delivered d es ?l @ li_queue (fold (listener_step d) es ?l))
          (li_queue l @ x # captured d (li_port l) es)"
        using subseq_order.trans by (fastforce simp: Packet)
      then show ?thesis by (simp add: Packet Some)
    qed
  next
    case Turn
    have "subseq (delivered d es ?l @ li_queue (fold (listener_step d) es ?l))
        (li_queue (snd (process_turn l)) @ captured d (li_port l) es)" using ih by (simp add: Turn)
    then show ?thesis
      unfolding turn_queue [of l, symmetric] by (auto simp: Turn intro: list_emb_append_mono)
  qed (use ih in simp_all)
qed simp

lemma queue_lossless:
  "length (li_queue l) + length (captured d (li_port l) es) \<le> queue_max \<Longrightarrow>
     delivered d es l @ li_queue (fold (listener_step d) es l) = li_queue l @ captured d (li_port l) es"
proof (induction es arbitrary: l)
  case (Cons e es)
  show ?case
  proof (cases e)
    case (Packet ts p)
    then show ?thesis using Cons
      by (cases "packet_event d ts (li_port l) p") (simp_all add: packet_callback_def)
  next
    case Turn
    have q: "(case fst (process_turn l) of None \<Rightarrow> [] | Some x \<Rightarrow> [x]) @ li_queue (snd (process_turn l)) = li_queue l"
      by (rule turn_queue)
    then have "length (li_queue (snd (process_turn l))) \<le> length (li_queue l)"
      by (metis le_add2 length_append)
    then have "delivered d es (snd (process_turn l)) @ li_queue (fold (listener_step d) es (snd (process_turn l)))
        = li_queue (snd (process_turn l)) @ captured d (li_port (snd (process_turn l))) es"
      using Cons.prems by (intro Cons.IH) (simp add: Turn)
    with q show ?thesis by (simp add: Turn flip: append.assoc)
  qed (use Cons in simp_all)
qed simp

text \<open>The capture queue of a listener on a port never holds more than ten thousand events, all of
  them SIP messages from or to that port. Events are handed to the callback in the order of capture
  and never twice: what was delivered followed by what is still queued is a subsequence of what was
  captured, and all of it when no more than ten thousand were.\<close>
theorem listener_queue:
  assumes "listener_inv d port l"
  shows "listener_inv d port (fold (listener_step d) es l)
    \<and> subseq (delivered d es l @ li_queue (fold (listener_step d) es l)) (li_queue l @ captured d port es)
    \<and> (length (li_queue l) + length (captured d port es) \<le> queue_max \<longrightarrow>
         delivered d es l @ li_queue (fold (listener_step d) es l) = li_queue l @ captured d port es)"
proof -
  have "li_port l = port" using assms by (simp add: listener_inv_def)
  then show ?thesis
    using listener_m.run_keeps [OF assms] queue_order [of d es l] queue_lossless [of l d es] by auto
qed

theorem listener_queue_witness:
  "let l = \<lparr>li_port = 5060, li_queue = [], li_running = True\<rparr>; p = \<lparr>pk_udp = Some (5060, 9, ''BYE''), pk_ip = None\<rparr>;
       es = [Packet (0, 0) p, Turn, Packet (1, 1) p] in
   length (delivered id es l @ li_queue (fold (listener_step id) es l)) = 2"
proof -
  let ?l = "\<lparr>li_port = 5060, li_queue = [], li_running = True\<rparr>"
    and ?p = "\<lparr>pk_udp = Some (5060, 9, ''BYE''), pk_ip = None\<rparr>"
  let ?es = "[Packet (0, 0) ?p, Turn, Packet (1, 1) ?p]"
  have inv: "listener_inv id 5060 ?l" by (simp add: listener_inv_def)
  have "is_sip_message ''BYE''" by code_simp
  then have cap: "length (captured id 5060 ?es) = 2" by (simp add: packet_event_def)
  have "length (li_queue ?l) + length (captured id 5060 ?es) \<le> queue_max"
    unfolding cap by (simp add: queue_max_def)
  with listener_queue [OF inv, of ?es] have "delivered id ?es ?l @ li_queue (fold (listener_step id) ?es ?l)
      = li_queue ?l @ captured id 5060 ?es" by blast
  then show ?thesis unfolding Let_def using cap by (simp only:) simp
qed

end
