(* ===== verification/Cdr.thy ===== *)
theory Cdr
  imports Effects SipParser
begin

text \<open>
  Call detail records, \<open>services/sip-processor/app/cdr\<close>: the record and metrics of \<open>models.py\<close>, the
  Redis counters of \<open>metrics.py\<close> and the call lifecycle of \<open>processor.py\<close>. Redis and PostgreSQL are
  parameters: a record of computations on a world of their own, where a pipeline is the list of
  commands executed together. A number Redis stores as text is read back as the same number.
\<close>

section \<open>Records\<close>

datatype call_progress =
  ATTEMPTING | PROGRESS_RINGING | ANSWERED | PROGRESS_COMPLETED | PROGRESS_FAILED | BUSY | NO_ANSWER | CANCELLED

record cdr_record =
  cdr_call_id :: string
  cdr_a_number :: string
  cdr_b_number :: string
  cdr_start :: instant
  cdr_answer :: "instant option"
  cdr_end :: "instant option"
  cdr_state :: call_progress
  cdr_cli :: "string option"
  cdr_pai :: "string option"
  cdr_mismatch :: bool
  cdr_source_ip :: "string option"
  cdr_via :: "string list"

definition duration_seconds :: "cdr_record \<Rightarrow> rat" where
  "duration_seconds c =
     (case (cdr_answer c, cdr_end c) of (Some a, Some e) \<Rightarrow> e - a | _ \<Rightarrow> 0)"

definition setup_time_seconds :: "cdr_record \<Rightarrow> rat" where
  "setup_time_seconds c = (case cdr_answer c of None \<Rightarrow> 0 | Some a \<Rightarrow> a - cdr_start c)"

definition is_answered :: "cdr_record \<Rightarrow> bool" where
  "is_answered c \<longleftrightarrow> cdr_state c \<in> {ANSWERED, PROGRESS_COMPLETED}"

definition is_completed :: "cdr_record \<Rightarrow> bool" where
  "is_completed c \<longleftrightarrow> cdr_state c \<in> {PROGRESS_COMPLETED, PROGRESS_FAILED, BUSY, NO_ANSWER, CANCELLED}"

record cdr_metrics =
  cm_b_number :: string
  cm_asr :: rat
  cm_aloc :: rat
  cm_overlap_ratio :: rat
  cm_total_attempts :: int
  cm_answered_calls :: int
  cm_concurrent_callers :: int
  cm_window_seconds :: int
  cm_calculated_at :: instant

definition metrics_to_dict :: "(instant \<Rightarrow> string) \<Rightarrow> cdr_metrics \<Rightarrow> (string, py_val) dict" where
  "metrics_to_dict isoformat m =
     [(''b_number'', PStr (cm_b_number m)), (''asr'', PFloat (cm_asr m)), (''aloc'', PFloat (cm_aloc m)),
      (''overlap_ratio'', PFloat (cm_overlap_ratio m)), (''total_attempts'', PInt (cm_total_attempts m)),
      (''answered_calls'', PInt (cm_answered_calls m)),
      (''concurrent_callers'', PInt (cm_concurrent_callers m)),
      (''window_seconds'', PInt (cm_window_seconds m)),
      (''calculated_at'', PStr (isoformat (cm_calculated_at m)))]"


section \<open>The stores\<close>

datatype redis_cmd =
  INCR string | EXPIRE string int | SADD string string | RPUSH string rat | LTRIM string int int

record 'w cdr_ports =
  pipe_execute :: "redis_cmd list \<Rightarrow> ('w, string, unit) eff"
  redis_get :: "string \<Rightarrow> ('w, string, int option) eff"
  redis_scard :: "string \<Rightarrow> ('w, string, int) eff"
  redis_lrange_all :: "string \<Rightarrow> ('w, string, rat list) eff"
  redis_delete :: "string list \<Rightarrow> ('w, string, unit) eff"
  insert_cdr_log :: "(cdr_record \<Rightarrow> ('w, string, unit) eff) option"


section \<open>Metrics\<close>

definition cdr_key :: "string \<Rightarrow> string \<Rightarrow> string" where
  "cdr_key b part = join_with '':'' ([''cdr''] @ [b, part])"

definition window_key :: "string \<Rightarrow> string" where
  "window_key b = ''window:'' @ b"

definition record_attempt :: "'w cdr_ports \<Rightarrow> int \<Rightarrow> string \<Rightarrow> string \<Rightarrow> ('w, string, unit) eff" where
  "record_attempt P secs b a = pipe_execute P
     [INCR (cdr_key b ''attempts''), EXPIRE (cdr_key b ''attempts'') secs,
      SADD (window_key b) a, EXPIRE (window_key b) 5,
      INCR (cdr_key b ''total_window''), EXPIRE (cdr_key b ''total_window'') secs]"

definition record_answer :: "'w cdr_ports \<Rightarrow> int \<Rightarrow> string \<Rightarrow> ('w, string, unit) eff" where
  "record_answer P secs b = pipe_execute P
     [INCR (cdr_key b ''answered''), EXPIRE (cdr_key b ''answered'') secs]"

definition record_duration :: "'w cdr_ports \<Rightarrow> int \<Rightarrow> string \<Rightarrow> rat \<Rightarrow> ('w, string, unit) eff" where
  "record_duration P secs b d = pipe_execute P
     [RPUSH (cdr_key b ''durations'') d, EXPIRE (cdr_key b ''durations'') secs,
      LTRIM (cdr_key b ''durations'') (- 1000) (- 1)]"

definition int_or :: "int \<Rightarrow> int option \<Rightarrow> int" where
  "int_or d v = (case v of None \<Rightarrow> d | Some n \<Rightarrow> n)"

definition calculate_asr :: "'w cdr_ports \<Rightarrow> string \<Rightarrow> ('w, string, rat) eff" where
  "calculate_asr P b =
     eff_bind (redis_get P (cdr_key b ''attempts'')) (\<lambda>atts.
     eff_bind (redis_get P (cdr_key b ''answered'')) (\<lambda>anss.
     eff_return (if int_or 0 atts = 0 then 0 else of_int (int_or 0 anss) / of_int (int_or 0 atts) * 100)))"

definition calculate_aloc :: "'w cdr_ports \<Rightarrow> string \<Rightarrow> ('w, string, rat) eff" where
  "calculate_aloc P b =
     eff_bind (redis_lrange_all P (cdr_key b ''durations'')) (\<lambda>ds.
     eff_return (if ds = [] then 0 else sum_list ds / of_nat (length ds)))"

definition calculate_overlap_ratio :: "'w cdr_ports \<Rightarrow> string \<Rightarrow> ('w, string, rat) eff" where
  "calculate_overlap_ratio P b =
     eff_bind (redis_scard P (window_key b)) (\<lambda>n.
     eff_bind (redis_get P (cdr_key b ''total_window'')) (\<lambda>t.
     let total = int_or 1 t in
     eff_return (if total = 0 then 0 else min (of_int n / of_int total) 1)))"

definition get_concurrent_callers :: "'w cdr_ports \<Rightarrow> string \<Rightarrow> ('w, string, int) eff" where
  "get_concurrent_callers P b = redis_scard P (window_key b)"

definition cdr_all_metrics :: "'w cdr_ports \<Rightarrow> int \<Rightarrow> instant \<Rightarrow> string \<Rightarrow> ('w, string, cdr_metrics) eff" where
  "cdr_all_metrics P secs now b =
     eff_bind (calculate_asr P b) (\<lambda>asr.
     eff_bind (calculate_aloc P b) (\<lambda>aloc.
     eff_bind (calculate_overlap_ratio P b) (\<lambda>ov.
     eff_bind (redis_get P (cdr_key b ''attempts'')) (\<lambda>atts.
     eff_bind (redis_get P (cdr_key b ''answered'')) (\<lambda>anss.
     eff_bind (redis_scard P (window_key b)) (\<lambda>con.
     eff_return \<lparr>cm_b_number = b, cm_asr = asr, cm_aloc = aloc, cm_overlap_ratio = ov,
       cm_total_attempts = int_or 0 atts, cm_answered_calls = int_or 0 anss, cm_concurrent_callers = con,
       cm_window_seconds = secs, cm_calculated_at = now\<rparr>))))))"

definition reset_metrics :: "'w cdr_ports \<Rightarrow> string \<Rightarrow> ('w, string, unit) eff" where
  "reset_metrics P b = redis_delete P
     [cdr_key b ''attempts'', cdr_key b ''answered'', cdr_key b ''durations'', cdr_key b ''total_window'',
      window_key b]"


section \<open>The lifecycle of a call\<close>

record cdr_processor =
  cp_window :: int
  cp_active :: "(string, cdr_record) dict"

definition log_cdr :: "'w cdr_ports \<Rightarrow> cdr_record \<Rightarrow> ('w, string, unit) eff" where
  "log_cdr P c =
     (case insert_cdr_log P of None \<Rightarrow> eff_return ()
      | Some ins \<Rightarrow> eff_catch (ins c) (\<lambda>_. eff_return ()))"

definition put_active :: "cdr_record \<Rightarrow> cdr_processor \<Rightarrow> cdr_processor" where
  "put_active c s = s\<lparr>cp_active := dict_set (cdr_call_id c) c (cp_active s)\<rparr>"

definition process_invite ::
  "'w cdr_ports \<Rightarrow> instant \<Rightarrow> sip_header_info \<Rightarrow> (cdr_processor \<times> 'w, string, cdr_record) eff" where
  "process_invite P now h =
     (let c = \<lparr>cdr_call_id = sh_call_id h, cdr_a_number = sip_a_number h, cdr_b_number = sip_b_number h,
               cdr_start = now, cdr_answer = None, cdr_end = None, cdr_state = ATTEMPTING,
               cdr_cli = sh_cli h, cdr_pai = sh_pai h, cdr_mismatch = has_cli_mismatch h,
               cdr_source_ip = None, cdr_via = sh_via h\<rparr> in
      eff_then (on_self (put_active c))
      (eff_bind (eff_gets (\<lambda>s. cp_window (fst s))) (\<lambda>secs.
      eff_then (on_world (record_attempt P secs (cdr_b_number c) (cdr_a_number c))) (eff_return c))))"

definition process_answer ::
  "'w cdr_ports \<Rightarrow> instant \<Rightarrow> string \<Rightarrow> (cdr_processor \<times> 'w, string, cdr_record option) eff" where
  "process_answer P now i =
     eff_bind (eff_gets (\<lambda>s. (cp_window (fst s), dict_get (cp_active (fst s)) i))) (\<lambda>(secs, r).
     case r of None \<Rightarrow> eff_return None
     | Some c \<Rightarrow>
         let c' = c\<lparr>cdr_state := ANSWERED, cdr_answer := Some now\<rparr> in
         eff_then (on_self (\<lambda>s. s\<lparr>cp_active := dict_set i c' (cp_active s)\<rparr>))
         (eff_then (on_world (record_answer P secs (cdr_b_number c'))) (eff_return (Some c'))))"

definition pop_active :: "string \<Rightarrow> (cdr_processor \<times> 'w, string, int \<times> cdr_record option) eff" where
  "pop_active i =
     eff_bind (eff_gets (\<lambda>s. (cp_window (fst s), dict_get (cp_active (fst s)) i))) (\<lambda>r.
     eff_then (on_self (\<lambda>s. s\<lparr>cp_active := dict_pop i (cp_active s)\<rparr>)) (eff_return r))"

text \<open>What follows the removal of the call from the active ones.\<close>

definition bye_removed ::
  "'w cdr_ports \<Rightarrow> instant \<Rightarrow> int \<times> cdr_record option \<Rightarrow> (cdr_processor \<times> 'w, string, cdr_record option) eff" where
  "bye_removed P now = (\<lambda>(secs, r). case r of None \<Rightarrow> eff_return None
     | Some c \<Rightarrow>
         let c' = c\<lparr>cdr_state := PROGRESS_COMPLETED, cdr_end := Some now\<rparr> in
         eff_then (if is_answered c'
                   then on_world (record_duration P secs (cdr_b_number c') (duration_seconds c'))
                   else eff_return ())
         (eff_then (on_world (log_cdr P c')) (eff_return (Some c'))))"

definition process_bye ::
  "'w cdr_ports \<Rightarrow> instant \<Rightarrow> string \<Rightarrow> (cdr_processor \<times> 'w, string, cdr_record option) eff" where
  "process_bye P now i = eff_bind (pop_active i) (bye_removed P now)"

definition process_failure ::
  "'w cdr_ports \<Rightarrow> instant \<Rightarrow> string \<Rightarrow> call_progress \<Rightarrow> (cdr_processor \<times> 'w, string, cdr_record option) eff" where
  "process_failure P now i st =
     eff_bind (pop_active i) (\<lambda>(secs, r).
     case r of None \<Rightarrow> eff_return None
     | Some c \<Rightarrow>
         let c' = c\<lparr>cdr_state := st, cdr_end := Some now\<rparr> in
         eff_then (on_world (log_cdr P c')) (eff_return (Some c')))"

definition get_active_call :: "cdr_processor \<Rightarrow> string \<Rightarrow> cdr_record option" where
  "get_active_call s i = dict_get (cp_active s) i"

definition active_call_count :: "cdr_processor \<Rightarrow> nat" where
  "active_call_count s = length (cp_active s)"


section \<open>What Redis promises\<close>

text \<open>The documented effect of the commands on what is stored, while no key expires: counters, sets and
  lists under their keys.\<close>

record redis_view =
  rv_counters :: "string \<Rightarrow> int option"
  rv_sets :: "string \<Rightarrow> string set"
  rv_lists :: "string \<Rightarrow> rat list"

fun apply_cmd :: "redis_cmd \<Rightarrow> redis_view \<Rightarrow> redis_view" where
  "apply_cmd (INCR k) v = v\<lparr>rv_counters := (rv_counters v)(k \<mapsto> int_or 0 (rv_counters v k) + 1)\<rparr>"
| "apply_cmd (EXPIRE k n) v = v"
| "apply_cmd (SADD k x) v = v\<lparr>rv_sets := (rv_sets v)(k := insert x (rv_sets v k))\<rparr>"
| "apply_cmd (RPUSH k x) v = v\<lparr>rv_lists := (rv_lists v)(k := rv_lists v k @ [x])\<rparr>"
| "apply_cmd (LTRIM k a b) v =
     (if a < 0 \<and> b = - 1 then v\<lparr>rv_lists := (rv_lists v)(k := take_last (nat (- a)) (rv_lists v k))\<rparr> else v)"

definition redis_ok :: "'w cdr_ports \<Rightarrow> ('w \<Rightarrow> redis_view) \<Rightarrow> bool" where
  "redis_ok P V \<longleftrightarrow>
     (\<forall>cs w w'. pipe_execute P cs w = (Inr (), w') \<longrightarrow> V w' = fold apply_cmd cs (V w))
   \<and> (\<forall>k w x w'. redis_get P k w = (Inr x, w') \<longrightarrow> x = rv_counters (V w) k \<and> V w' = V w)
   \<and> (\<forall>k w n w'. redis_scard P k w = (Inr n, w') \<longrightarrow> n = int (card (rv_sets (V w) k)) \<and> V w' = V w)
   \<and> (\<forall>k w xs w'. redis_lrange_all P k w = (Inr xs, w') \<longrightarrow> xs = rv_lists (V w) k \<and> V w' = V w)
   \<and> (\<forall>ins c w. insert_cdr_log P = Some ins \<longrightarrow> V (snd (ins c w)) = V w)"

lemma redis_okD:
  assumes "redis_ok P V"
  shows "pipe_execute P cs w = (Inr (), w') \<Longrightarrow> V w' = fold apply_cmd cs (V w)"
    and "redis_get P k w = (Inr x, w') \<Longrightarrow> x = rv_counters (V w) k"
    and "redis_get P k w = (Inr x, w') \<Longrightarrow> V w' = V w"
    and "redis_scard P k w = (Inr n, w') \<Longrightarrow> n = int (card (rv_sets (V w) k))"
    and "redis_scard P k w = (Inr n, w') \<Longrightarrow> V w' = V w"
    and "redis_lrange_all P k w = (Inr xs, w') \<Longrightarrow> xs = rv_lists (V w) k"
    and "redis_lrange_all P k w = (Inr xs, w') \<Longrightarrow> V w' = V w"
    and "insert_cdr_log P = Some ins \<Longrightarrow> V (snd (ins c w)) = V w"
  using assms unfolding redis_ok_def by blast+

lemma redis_reads:
  assumes "redis_ok P V"
  shows "redis_get P k w = (Inr x, w') \<Longrightarrow> x = rv_counters (V w) k \<and> V w' = V w"
    and "redis_scard P k w = (Inr n, w') \<Longrightarrow> n = int (card (rv_sets (V w) k)) \<and> V w' = V w"
    and "redis_lrange_all P k w = (Inr xs, w') \<Longrightarrow> xs = rv_lists (V w) k \<and> V w' = V w"
  using assms unfolding redis_ok_def by simp_all

lemma calculated:
  assumes ok: "redis_ok P V"
  shows "calculate_asr P b w = (Inr x, w') \<Longrightarrow>
      x = (if int_or 0 (rv_counters (V w) (cdr_key b ''attempts'')) = 0 then 0
           else of_int (int_or 0 (rv_counters (V w) (cdr_key b ''answered'')))
             / of_int (int_or 0 (rv_counters (V w) (cdr_key b ''attempts''))) * 100) \<and> V w' = V w"
    and "calculate_aloc P b w = (Inr x, w') \<Longrightarrow>
      x = (if rv_lists (V w) (cdr_key b ''durations'') = [] then 0
           else sum_list (rv_lists (V w) (cdr_key b ''durations''))
             / of_nat (length (rv_lists (V w) (cdr_key b ''durations'')))) \<and> V w' = V w"
    and "calculate_overlap_ratio P b w = (Inr x, w') \<Longrightarrow>
      x = (if int_or 1 (rv_counters (V w) (cdr_key b ''total_window'')) = 0 then 0
           else min (of_int (int (card (rv_sets (V w) (window_key b))))
             / of_int (int_or 1 (rv_counters (V w) (cdr_key b ''total_window'')))) 1) \<and> V w' = V w"
proof -
  assume "calculate_asr P b w = (Inr x, w')"
  then obtain u v w1 where r: "redis_get P (cdr_key b ''attempts'') w = (Inr u, w1)"
    "redis_get P (cdr_key b ''answered'') w1 = (Inr v, w')"
    and x: "x = (if int_or 0 u = 0 then 0 else of_int (int_or 0 v) / of_int (int_or 0 u) * 100)"
    unfolding calculate_asr_def eff_bind_Inr_iff eff_return_iff by blast
  show "x = (if int_or 0 (rv_counters (V w) (cdr_key b ''attempts'')) = 0 then 0
           else of_int (int_or 0 (rv_counters (V w) (cdr_key b ''answered'')))
             / of_int (int_or 0 (rv_counters (V w) (cdr_key b ''attempts''))) * 100) \<and> V w' = V w"
    using redis_reads(1) [OF ok r(1)] redis_reads(1) [OF ok r(2)] x by metis
next
  assume "calculate_aloc P b w = (Inr x, w')"
  then obtain ds where r: "redis_lrange_all P (cdr_key b ''durations'') w = (Inr ds, w')"
    and x: "x = (if ds = [] then 0 else sum_list ds / of_nat (length ds))"
    unfolding calculate_aloc_def eff_bind_Inr_iff eff_return_iff by blast
  show "x = (if rv_lists (V w) (cdr_key b ''durations'') = [] then 0
           else sum_list (rv_lists (V w) (cdr_key b ''durations''))
             / of_nat (length (rv_lists (V w) (cdr_key b ''durations'')))) \<and> V w' = V w"
    using redis_reads(3) [OF ok r] x by metis
next
  assume "calculate_overlap_ratio P b w = (Inr x, w')"
  then obtain n t w1 where r: "redis_scard P (window_key b) w = (Inr n, w1)"
    "redis_get P (cdr_key b ''total_window'') w1 = (Inr t, w')"
    and x: "x = (if int_or 1 t = 0 then 0 else min (of_int n / of_int (int_or 1 t)) 1)"
    unfolding calculate_overlap_ratio_def Let_def eff_bind_Inr_iff eff_return_iff by blast
  show "x = (if int_or 1 (rv_counters (V w) (cdr_key b ''total_window'')) = 0 then 0
           else min (of_int (int (card (rv_sets (V w) (window_key b))))
             / of_int (int_or 1 (rv_counters (V w) (cdr_key b ''total_window'')))) 1) \<and> V w' = V w"
    using redis_reads(2) [OF ok r(1)] redis_reads(1) [OF ok r(2)] x by metis
qed

lemma cdr_key_parts [simp]: "cdr_key b p = cdr_key b q \<longleftrightarrow> p = q"
  by (simp add: cdr_key_def)

lemma window_key_other [simp]: "window_key b \<noteq> cdr_key c p" "cdr_key c p \<noteq> window_key b"
  by (simp_all add: cdr_key_def window_key_def)

text \<open>A Redis in memory, for the instances below.\<close>

definition redis_memory :: "redis_view cdr_ports" where
  "redis_memory =
    \<lparr>pipe_execute = (\<lambda>cs. eff_modify (fold apply_cmd cs)),
     redis_get = (\<lambda>k. eff_gets (\<lambda>v. rv_counters v k)),
     redis_scard = (\<lambda>k. eff_gets (\<lambda>v. int (card (rv_sets v k)))),
     redis_lrange_all = (\<lambda>k. eff_gets (\<lambda>v. rv_lists v k)),
     redis_delete = (\<lambda>ks. eff_modify (\<lambda>v. \<lparr>rv_counters = (\<lambda>k. if k \<in> set ks then None else rv_counters v k),
       rv_sets = (\<lambda>k. if k \<in> set ks then {} else rv_sets v k),
       rv_lists = (\<lambda>k. if k \<in> set ks then [] else rv_lists v k)\<rparr>)),
     insert_cdr_log = None\<rparr>"

definition empty_redis :: redis_view where
  "empty_redis = \<lparr>rv_counters = (\<lambda>_. None), rv_sets = (\<lambda>_. {}), rv_lists = (\<lambda>_. [])\<rparr>"

lemma redis_memory_ok: "redis_ok redis_memory id"
  by (simp add: redis_ok_def redis_memory_def)


section \<open>Properties of the metrics\<close>

lemma record_duration_view:
  assumes ok: "redis_ok P V" and run: "record_duration P secs b d w = (Inr (), w')"
  shows "rv_lists (V w') (cdr_key b ''durations'')
    = push_bounded 1000 d (rv_lists (V w) (cdr_key b ''durations''))"
  using redis_okD(1) [OF ok run [unfolded record_duration_def]] by (simp add: push_bounded_eq)

lemma record_durations_view:
  assumes ok: "redis_ok P V"
    and run: "eff_for ds (record_duration P secs b) w = (Inr (), w')"
  shows "rv_lists (V w') (cdr_key b ''durations'')
    = fold (push_bounded 1000) ds (rv_lists (V w) (cdr_key b ''durations''))"
  using run
proof (induction ds arbitrary: w)
  case (Cons d ds)
  then obtain w1 where w1: "record_duration P secs b d w = (Inr (), w1)"
    "eff_for ds (record_duration P secs b) w1 = (Inr (), w')"
    by (auto simp: eff_Inr_iffs)
  show ?case using Cons.IH [OF w1(2)] record_duration_view [OF ok w1(1)] by simp
qed simp

lemma take_last_Nil: "take_last 1000 ds = [] \<longleftrightarrow> ds = []"
  using length_take_last [of 1000 ds] by (cases ds) (auto simp del: length_take_last)

text \<open>The average length of call is the average of the last thousand durations recorded for the
  number since its list was empty, in the order recorded, and zero when there is none.\<close>
theorem aloc_last_thousand:
  assumes ok: "redis_ok P V" and empty: "rv_lists (V w) (cdr_key b ''durations'') = []"
    and rec: "eff_for ds (record_duration P secs b) w = (Inr (), w1)"
    and calc: "calculate_aloc P b w1 = (Inr x, w2)"
  shows "x = (if ds = [] then 0 else sum_list (take_last 1000 ds) / of_nat (min 1000 (length ds)))"
proof -
  have "rv_lists (V w1) (cdr_key b ''durations'') = take_last 1000 ds"
    using record_durations_view [OF ok rec] fold_push_bounded [of 1000 ds "[]"] by (simp add: empty)
  with calculated(2) [OF ok calc] show ?thesis by (simp add: take_last_Nil)
qed

theorem aloc_last_thousand_witness:
  "\<exists>w1. eff_for [30, 60] (record_duration redis_memory 300 ''1'') empty_redis = (Inr (), w1)
     \<and> calculate_aloc redis_memory ''1'' w1 = (Inr 45, w1)"
proof -
  obtain w1 where w1: "eff_for [30, 60] (record_duration redis_memory 300 ''1'') empty_redis = (Inr (), w1)"
    by (simp add: record_duration_def redis_memory_def eff_then_def eff_bind_def eff_modify_def eff_return_def)
  obtain x where x: "calculate_aloc redis_memory ''1'' w1 = (Inr x, w1)"
    by (simp add: calculate_aloc_def redis_memory_def eff_bind_def eff_gets_def eff_return_def)
  have "x = 45"
    using aloc_last_thousand [OF redis_memory_ok _ w1 x] by (simp add: empty_redis_def take_last_def)
  with w1 x show ?thesis by blast
qed


text \<open>One reading of all metrics is consistent: the counts it reports are the stored ones, the
  answer-seizure ratio is a hundred times answered over attempts (zero without attempts), so it is at
  most a hundred exactly when no more answers than attempts are stored, and the overlap ratio lies
  between zero and one.\<close>
theorem metrics_consistent:
  assumes ok: "redis_ok P V" and run: "cdr_all_metrics P secs now b w = (Inr m, w')"
    and nonneg: "\<forall>k n. rv_counters (V w) k = Some n \<longrightarrow> 0 \<le> n"
  shows "cm_total_attempts m = int_or 0 (rv_counters (V w) (cdr_key b ''attempts''))
    \<and> cm_answered_calls m = int_or 0 (rv_counters (V w) (cdr_key b ''answered''))
    \<and> cm_concurrent_callers m = int (card (rv_sets (V w) (window_key b)))
    \<and> (cm_asr m \<le> 100 \<longleftrightarrow> cm_total_attempts m = 0 \<or> cm_answered_calls m \<le> cm_total_attempts m)
    \<and> cm_asr m * of_int (cm_total_attempts m)
        = (if cm_total_attempts m = 0 then 0 else 100 * of_int (cm_answered_calls m))
    \<and> 0 \<le> cm_overlap_ratio m \<and> cm_overlap_ratio m \<le> 1 \<and> V w' = V w"
proof -
  let ?a = "rv_counters (V w) (cdr_key b ''attempts'')" and ?n = "rv_counters (V w) (cdr_key b ''answered'')"
    and ?t = "rv_counters (V w) (cdr_key b ''total_window'')" and ?c = "int (card (rv_sets (V w) (window_key b)))"
  obtain asr aloc ov u v n w1 w2 w3 w4 w5 where
    r: "calculate_asr P b w = (Inr asr, w1)" "calculate_aloc P b w1 = (Inr aloc, w2)"
      "calculate_overlap_ratio P b w2 = (Inr ov, w3)" "redis_get P (cdr_key b ''attempts'') w3 = (Inr u, w4)"
      "redis_get P (cdr_key b ''answered'') w4 = (Inr v, w5)" "redis_scard P (window_key b) w5 = (Inr n, w')"
    and m: "m = \<lparr>cm_b_number = b, cm_asr = asr, cm_aloc = aloc, cm_overlap_ratio = ov,
       cm_total_attempts = int_or 0 u, cm_answered_calls = int_or 0 v, cm_concurrent_callers = n,
       cm_window_seconds = secs, cm_calculated_at = now\<rparr>"
    using run unfolding cdr_all_metrics_def eff_bind_Inr_iff eff_return_iff by blast
  have V: "V w1 = V w" "V w2 = V w" "V w3 = V w" "V w4 = V w" "V w5 = V w" "V w' = V w"
    using calculated [OF ok] redis_reads [OF ok] r by metis+
  have vals: "u = ?a" "v = ?n" "n = ?c"
    "asr = (if int_or 0 ?a = 0 then 0 else of_int (int_or 0 ?n) / of_int (int_or 0 ?a) * 100)"
    "ov = (if int_or 1 ?t = 0 then 0 else min (of_int ?c / of_int (int_or 1 ?t)) 1)"
    using redis_reads(1) [OF ok r(4)] redis_reads(1) [OF ok r(5)] redis_reads(2) [OF ok r(6)]
      calculated(1) [OF ok r(1)] calculated(3) [OF ok r(3)] V by simp_all
  have pos: "0 \<le> int_or 0 ?a" "0 \<le> int_or 0 ?n" "0 \<le> int_or 1 ?t"
    using nonneg by (auto simp: int_or_def split: option.split)
  show ?thesis
    using pos unfolding m by (auto simp: V vals field_simps)
qed


theorem metrics_consistent_witness:
  "\<exists>m. cdr_all_metrics redis_memory 300 9 ''1'' (empty_redis\<lparr>rv_counters := (\<lambda>_. Some 4)\<rparr>)
      = (Inr m, empty_redis\<lparr>rv_counters := (\<lambda>_. Some 4)\<rparr>) \<and> cm_overlap_ratio m \<le> 1 \<and> cm_answered_calls m = 4"
proof -
  let ?w = "empty_redis\<lparr>rv_counters := (\<lambda>_. Some 4)\<rparr>"
  obtain m where m: "cdr_all_metrics redis_memory 300 9 ''1'' ?w = (Inr m, ?w)"
    by (simp add: cdr_all_metrics_def calculate_asr_def calculate_aloc_def calculate_overlap_ratio_def
        redis_memory_def eff_bind_def eff_gets_def eff_return_def Let_def)
  then show ?thesis
    using metrics_consistent [OF redis_memory_ok m] by (simp add: int_or_def)
qed


section \<open>Properties of the lifecycle\<close>

lemma pop_active_eq:
  "pop_active i (s, w) = (Inr (cp_window s, dict_get (cp_active s) i),
     (s\<lparr>cp_active := dict_pop i (cp_active s)\<rparr>, w))"
  by (simp add: pop_active_def eff_bind_def eff_then_def eff_gets_def on_self_def eff_return_def)

lemma on_world_self: "on_world m (s, w) = (r, (s', w')) \<Longrightarrow> s' = s"
  by (auto simp: on_world_def split: prod.splits)

lemma keeps_world: "keeps (\<lambda>(s, w). Q s) (on_world m)"
  by (rule keepsI) (auto dest: on_world_self)

lemma bye_removed_keeps: "keeps (\<lambda>(s, w). Q s) (bye_removed P t x)"
  by (cases x) (auto simp: bye_removed_def Let_def split: option.split
      intro!: keeps_then keeps_world keeps_return)

lemma bye_keeps_gone:
  assumes "process_bye P t i (s, w) = (r, (s', w'))"
  shows "dict_get (cp_active s') i = None"
proof -
  have "bye_removed P t (cp_window s, dict_get (cp_active s) i)
      (s\<lparr>cp_active := dict_pop i (cp_active s)\<rparr>, w) = (r, (s', w'))"
    using assms by (simp add: process_bye_def eff_bind_def pop_active_eq)
  from keepsD [OF bye_removed_keeps [where Q = "\<lambda>s. dict_get (cp_active s) i = None"] _ this]
  show ?thesis by simp
qed

text \<open>C12: A call ends once: whatever \<open>process_bye\<close> meets in the stores, exceptions included, the call is
  no longer active afterwards, and until another INVITE for its Call-ID further BYE, failure and
  answer events for it return None and touch neither the processor nor the stores.\<close>
theorem call_ends_once:
  assumes "process_bye P t i (s, w) = (r, (s', w'))"
  shows "get_active_call s' i = None \<and> process_bye P t' i (s', w') = (Inr None, (s', w'))
    \<and> process_answer P t' i (s', w') = (Inr None, (s', w'))
    \<and> process_failure P t' i st (s', w') = (Inr None, (s', w'))"
proof -
  have "dict_get (cp_active s') i = None" by (rule bye_keeps_gone [OF assms])
  then show ?thesis
    by (simp add: get_active_call_def process_bye_def bye_removed_def process_answer_def process_failure_def eff_bind_def
        pop_active_eq eff_gets_def eff_return_def dict_pop_absent)
qed

lemma log_cdr_ok: "redis_ok P V \<Longrightarrow> V (snd (log_cdr P c w)) = V w"
proof (cases "insert_cdr_log P")
  case (Some ins)
  assume "redis_ok P V"
  note view = redis_okD(8) [OF this Some, of c w]
  show ?thesis
    using view by (auto simp: log_cdr_def Some eff_catch_def eff_return_def split: prod.split sum.split)
qed (simp add: log_cdr_def eff_return_def)

text \<open>A call that was never answered is counted in the average length of call: \<open>process_bye\<close> sets the
  state to COMPLETED before it asks \<open>is_answered\<close>, which is then always true, so ending an unanswered
  call records a duration of zero.\<close>
theorem bye_records_unanswered:
  assumes ok: "redis_ok P V" and c: "get_active_call s i = Some c" "cdr_answer c = None"
    and run: "process_bye P t i (s, w) = (Inr r, (s', w'))"
  shows "rv_lists (V w') (cdr_key (cdr_b_number c) ''durations'')
    = push_bounded 1000 0 (rv_lists (V w) (cdr_key (cdr_b_number c) ''durations''))"
proof -
  let ?c = "c\<lparr>cdr_state := PROGRESS_COMPLETED, cdr_end := Some t\<rparr>"
  have ans: "is_answered ?c" "duration_seconds ?c = 0" "cdr_b_number ?c = cdr_b_number c"
    using c(2) by (simp_all add: is_answered_def duration_seconds_def)
  have "dict_get (cp_active s) i = Some c" using c(1) by (simp add: get_active_call_def)
  then obtain w1 where rec: "record_duration P (cp_window s) (cdr_b_number c) 0 w = (Inr (), w1)"
    and lg: "log_cdr P ?c w1 = (Inr (), w')"
    using run ans unfolding process_bye_def bye_removed_def
    by (auto simp: Let_def eff_bind_def pop_active_eq eff_then_def on_world_def eff_return_def
        split: prod.splits sum.splits)
  show ?thesis
    using record_duration_view [OF ok rec] log_cdr_ok [OF ok, of ?c w1] lg by simp
qed


text \<open>An INVITE and the processor that has seen it, for the instances.\<close>

definition sample_invite :: sip_header_info where
  "sample_invite = (parse_sip_message 0 [])\<lparr>sh_call_id := ''id1'', sh_cli := Some ''1'', sh_to_uri := ''sip:2@h''\<rparr>"

definition idle_processor :: cdr_processor where
  "idle_processor = \<lparr>cp_window = 300, cp_active = []\<rparr>"

definition ringing_processor :: cdr_processor where
  "ringing_processor = \<lparr>cp_window = 300, cp_active = [(''id1'', \<lparr>cdr_call_id = ''id1'', cdr_a_number = ''1'',
     cdr_b_number = ''2'', cdr_start = 0, cdr_answer = None, cdr_end = None, cdr_state = ATTEMPTING,
     cdr_cli = None, cdr_pai = None, cdr_mismatch = False, cdr_source_ip = None, cdr_via = []\<rparr>)]\<rparr>"

lemma sample_bye:
  "\<exists>r s' w'. process_bye redis_memory 9 ''id1'' (ringing_processor, empty_redis) = (Inr r, (s', w'))"
  by (simp add: process_bye_def bye_removed_def eff_bind_def pop_active_eq ringing_processor_def is_answered_def
      record_duration_def redis_memory_def log_cdr_def Let_def eff_then_def on_world_def eff_modify_def
      eff_return_def dict_get_def dict_pop_def)

theorem call_ends_once_witness:
  "\<exists>r s' w'. process_bye redis_memory 9 ''id1'' (ringing_processor, empty_redis) = (Inr r, (s', w'))
     \<and> process_bye redis_memory 10 ''id1'' (s', w') = (Inr None, (s', w'))"
  using sample_bye call_ends_once [of redis_memory 9 "''id1''" ringing_processor empty_redis _ _ _ 10 PROGRESS_FAILED]
  by fastforce

theorem bye_records_unanswered_witness:
  "\<exists>r s' w'. process_bye redis_memory 9 ''id1'' (ringing_processor, empty_redis) = (Inr r, (s', w'))
     \<and> rv_lists w' (cdr_key ''2'' ''durations'') = [0]"
proof -
  obtain r s' w' where run: "process_bye redis_memory 9 ''id1'' (ringing_processor, empty_redis) = (Inr r, (s', w'))"
    using sample_bye by blast
  have "rv_lists w' (cdr_key ''2'' ''durations'') = [0]"
    using bye_records_unanswered [OF redis_memory_ok _ _ run]
    by (simp add: get_active_call_def ringing_processor_def dict_get_def empty_redis_def push_bounded_eq)
  with run show ?thesis by blast
qed

lemma answer_return:
  assumes run: "process_answer P t i (s, w) = (Inr r, (s', w'))" and c: "dict_get (cp_active s) i = Some c"
  obtains c' where "record_answer P (cp_window s) (cdr_b_number c) w = (Inr (), w')"
    "dict_get (cp_active s') i = Some c'" "cdr_b_number c' = cdr_b_number c" "cp_window s' = cp_window s"
  using run c unfolding process_answer_def
  by (auto simp: Let_def eff_bind_def eff_gets_def on_self_def eff_then_def on_world_def eff_return_def
      split: prod.splits sum.splits)

lemma record_answer_view:
  assumes ok: "redis_ok P V" and run: "record_answer P secs b w = (Inr (), w')"
  shows "int_or 0 (rv_counters (V w') (cdr_key b ''answered''))
      = int_or 0 (rv_counters (V w) (cdr_key b ''answered'')) + 1"
    "rv_counters (V w') (cdr_key b ''attempts'') = rv_counters (V w) (cdr_key b ''attempts'')"
  using redis_okD(1) [OF ok run [unfolded record_answer_def]] by (simp_all add: int_or_def)

text \<open>The answer-seizure ratio is not a percentage of calls: \<open>process_answer\<close> counts every answer
  event of an active call, so a call attempted once whose 200 OK is seen twice leaves a ratio of two
  hundred for its number.\<close>
theorem repeated_answer_counted:
  assumes ok: "redis_ok P V" and c: "get_active_call s i = Some c"
    and one: "rv_counters (V w) (cdr_key (cdr_b_number c) ''attempts'') = Some 1"
      "rv_counters (V w) (cdr_key (cdr_b_number c) ''answered'') = None"
    and first: "process_answer P t i (s, w) = (Inr r, (s1, w1))"
    and second: "process_answer P t' i (s1, w1) = (Inr r', (s2, w2))"
    and asr: "calculate_asr P (cdr_b_number c) w2 = (Inr x, w3)"
  shows "x = 200"
proof -
  have c': "dict_get (cp_active s) i = Some c" using c by (simp add: get_active_call_def)
  obtain c1 where a1: "record_answer P (cp_window s) (cdr_b_number c) w = (Inr (), w1)"
    and c1: "dict_get (cp_active s1) i = Some c1" "cdr_b_number c1 = cdr_b_number c"
    by (rule answer_return [OF first c'])
  obtain c2 where a2: "record_answer P (cp_window s1) (cdr_b_number c1) w1 = (Inr (), w2)"
    by (rule answer_return [OF second c1(1)])
  show ?thesis
    using record_answer_view [OF ok a1] record_answer_view [OF ok a2] calculated(1) [OF ok asr] one
    by (simp add: c1(2) int_or_def)
qed

theorem repeated_answer_counted_witness:
  "let w = empty_redis\<lparr>rv_counters := [cdr_key ''2'' ''attempts'' \<mapsto> 1]\<rparr> in
   \<exists>r s1 w1 r' s2 w2 w3. process_answer redis_memory 1 ''id1'' (ringing_processor, w) = (Inr r, (s1, w1))
     \<and> process_answer redis_memory 2 ''id1'' (s1, w1) = (Inr r', (s2, w2))
     \<and> calculate_asr redis_memory ''2'' w2 = (Inr 200, w3)"
proof -
  let ?w = "empty_redis\<lparr>rv_counters := [cdr_key ''2'' ''attempts'' \<mapsto> 1]\<rparr>"
  have answers: "\<exists>r s1 w1. process_answer redis_memory t ''id1'' (s, w) = (Inr r, (s1, w1))" for t s w
    by (cases "dict_get (cp_active s) ''id1''")
      (simp_all add: process_answer_def record_answer_def redis_memory_def Let_def eff_bind_def eff_gets_def
        on_self_def eff_then_def on_world_def eff_return_def eff_modify_def)
  obtain r s1 w1 where first: "process_answer redis_memory 1 ''id1'' (ringing_processor, ?w) = (Inr r, (s1, w1))"
    using answers by blast
  obtain r' s2 w2 where second: "process_answer redis_memory 2 ''id1'' (s1, w1) = (Inr r', (s2, w2))"
    using answers by blast
  obtain x w3 where asr: "calculate_asr redis_memory ''2'' w2 = (Inr x, w3)"
    by (simp add: calculate_asr_def redis_memory_def eff_bind_def eff_gets_def eff_return_def)
  obtain c where c: "get_active_call ringing_processor ''id1'' = Some c" "cdr_b_number c = ''2''"
    by (simp add: get_active_call_def ringing_processor_def dict_get_def)
  have "x = 200"
    by (rule repeated_answer_counted [OF redis_memory_ok c(1) _ _ first second])
      (use asr c(2) in \<open>simp_all add: empty_redis_def\<close>)
  with first second asr show ?thesis by (auto simp: Let_def)
qed

end
