(* ===== verification/Inference.thy ===== *)
theory Inference
  imports Cdr
begin

text \<open>
  Masking detection, \<open>services/sip-processor/app/inference\<close>: features, the engine with its rules
  (\<open>engine.py\<close>), the life of the model (\<open>model.py\<close>), the client with its own circuit breaker
  (\<open>grpc_client.py\<close>) and the analysis endpoint that puts them together (\<open>api/routes.py\<close>). XGBoost and
  the file system are parameters.
\<close>

section \<open>Features\<close>

record masking_features =
  f_asr :: rat
  f_aloc :: rat
  f_overlap_ratio :: rat
  f_cli_mismatch :: rat
  f_distinct_a_count :: int
  f_call_rate :: rat
  f_short_call_ratio :: rat
  f_high_volume_flag :: rat

definition to_array :: "masking_features \<Rightarrow> rat list" where
  "to_array f = [f_asr f, f_aloc f, f_overlap_ratio f, f_cli_mismatch f, of_int (f_distinct_a_count f),
     f_call_rate f, f_short_call_ratio f, f_high_volume_flag f]"

definition feature_names :: "string list" where
  "feature_names = [''asr'', ''aloc'', ''overlap_ratio'', ''cli_mismatch'', ''distinct_a_count'', ''call_rate'',
     ''short_call_ratio'', ''high_volume_flag'']"

definition high_volume_threshold :: int where
  "high_volume_threshold = 10"

definition extract_features :: "cdr_metrics \<Rightarrow> bool \<Rightarrow> rat \<Rightarrow> rat \<Rightarrow> masking_features" where
  "extract_features m mismatch rate short =
     \<lparr>f_asr = cm_asr m, f_aloc = cm_aloc m, f_overlap_ratio = cm_overlap_ratio m,
      f_cli_mismatch = (if mismatch then 1 else 0), f_distinct_a_count = cm_concurrent_callers m,
      f_call_rate = rate, f_short_call_ratio = short,
      f_high_volume_flag = (if cm_concurrent_callers m \<ge> high_volume_threshold then 1 else 0)\<rparr>"

text \<open>The two dictionaries of \<open>extract_from_dict\<close>, with the values they may hold; a missing key gives the
  default.\<close>

record sip_info =
  si_cli_mismatch :: "bool option"
  si_distinct_a_count :: "int option"
  si_call_rate :: "rat option"
  si_short_call_ratio :: "rat option"

definition get_or :: "'a \<Rightarrow> 'a option \<Rightarrow> 'a" where
  "get_or d v = (case v of None \<Rightarrow> d | Some x \<Rightarrow> x)"

definition extract_from_dict :: "(string, rat) dict \<Rightarrow> sip_info \<Rightarrow> masking_features" where
  "extract_from_dict m s =
     \<lparr>f_asr = get_or 0 (dict_get m ''asr''), f_aloc = get_or 0 (dict_get m ''aloc''),
      f_overlap_ratio = get_or 0 (dict_get m ''overlap_ratio''),
      f_cli_mismatch = (if get_or False (si_cli_mismatch s) then 1 else 0),
      f_distinct_a_count = get_or 0 (si_distinct_a_count s), f_call_rate = get_or 0 (si_call_rate s),
      f_short_call_ratio = get_or 0 (si_short_call_ratio s),
      f_high_volume_flag = (if get_or 0 (si_distinct_a_count s) \<ge> high_volume_threshold then 1 else 0)\<rparr>"


section \<open>The model\<close>

record 'm xgb_env =
  xgboost_available :: bool
  model_file_exists :: "string \<Rightarrow> bool"
  load_booster :: "string \<Rightarrow> string + 'm"
  run_booster :: "'m \<Rightarrow> rat list \<Rightarrow> string + rat list"

record 'm model_manager =
  mm_path :: string
  mm_model :: "'m option"
  mm_is_loaded :: bool

definition new_model_manager :: "string option \<Rightarrow> 'm model_manager" where
  "new_model_manager path =
     \<lparr>mm_path = (case path of Some p \<Rightarrow> if p \<noteq> [] then p else ''models/xgboost_masking.json''
                 | None \<Rightarrow> ''models/xgboost_masking.json''),
      mm_model = None, mm_is_loaded = False\<rparr>"

definition mm_loaded :: "'m model_manager \<Rightarrow> bool" where
  "mm_loaded mm \<longleftrightarrow> mm_is_loaded mm \<and> mm_model mm \<noteq> None"

definition mm_load :: "'m xgb_env \<Rightarrow> 'm model_manager \<Rightarrow> bool \<times> 'm model_manager" where
  "mm_load X mm =
     (if \<not> xgboost_available X then (False, mm)
      else if \<not> model_file_exists X (mm_path mm) then (False, mm)
      else case load_booster X (mm_path mm) of
             Inl _ \<Rightarrow> (False, mm\<lparr>mm_model := None, mm_is_loaded := False\<rparr>)
           | Inr m \<Rightarrow> (True, mm\<lparr>mm_model := Some m, mm_is_loaded := True\<rparr>))"

definition mm_predict :: "'m xgb_env \<Rightarrow> 'm model_manager \<Rightarrow> rat list \<Rightarrow> string + rat list" where
  "mm_predict X mm fs =
     (if \<not> mm_loaded mm then Inl ''Model not loaded''
      else case mm_model mm of Some m \<Rightarrow> run_booster X m fs | None \<Rightarrow> Inl ''Model not loaded'')"

definition mm_unload :: "'m model_manager \<Rightarrow> 'm model_manager" where
  "mm_unload mm = mm\<lparr>mm_model := None, mm_is_loaded := False\<rparr>"


section \<open>The engine\<close>

record prediction =
  p_is_masking :: bool
  p_probability :: rat
  p_confidence :: string
  p_features :: masking_features
  p_method :: string

definition risk_level :: "rat \<Rightarrow> string" where
  "risk_level p = (if p \<ge> 9/10 then ''CRITICAL'' else if p \<ge> 7/10 then ''HIGH'' else if p \<ge> 1/2 then ''MEDIUM''
                   else if p \<ge> 3/10 then ''LOW'' else ''MINIMAL'')"

definition get_confidence :: "rat \<Rightarrow> string" where
  "get_confidence p = (if p > 9/10 \<or> p < 1/10 then ''HIGH'' else if p > 7/10 \<or> p < 3/10 then ''MEDIUM'' else ''LOW'')"

text \<open>The five rules, each adding to the score.\<close>

definition rule_score :: "masking_features \<Rightarrow> rat" where
  "rule_score f =
     (let s = (if f_distinct_a_count f \<ge> 5 then 0 + 1/2 else 0);
          s = (if f_overlap_ratio f > 8/10 then s + 3/10 else if f_overlap_ratio f > 1/2 then s + 15/100 else s);
          s = (if f_cli_mismatch f > 0 \<and> f_distinct_a_count f \<ge> 3 then s + 2/10 else s);
          s = (if f_call_rate f > 2 then s + 1/10 else s);
          s = (if f_asr f < 20 \<and> f_distinct_a_count f \<ge> 4 then s + 1/10 else s)
      in min s 1)"

definition result_of :: "rat \<Rightarrow> string \<Rightarrow> masking_features \<Rightarrow> rat \<Rightarrow> prediction" where
  "result_of threshold mth f p =
     \<lparr>p_is_masking = (p \<ge> threshold), p_probability = p, p_confidence = get_confidence p, p_features = f,
      p_method = mth\<rparr>"

record 'm engine =
  en_threshold :: rat
  en_manager :: "'m model_manager"
  en_use_model :: bool

definition new_engine :: "'m xgb_env \<Rightarrow> string \<Rightarrow> rat \<Rightarrow> 'm engine" where
  "new_engine X path threshold =
     (case mm_load X (new_model_manager (Some path)) of (ok, mm) \<Rightarrow>
      \<lparr>en_threshold = threshold, en_manager = mm, en_use_model = ok\<rparr>)"

definition predict_with_rules :: "'m engine \<Rightarrow> masking_features \<Rightarrow> prediction" where
  "predict_with_rules e f = result_of (en_threshold e) ''rule_based'' f (rule_score f)"

definition predict_with_model :: "'m xgb_env \<Rightarrow> 'm engine \<Rightarrow> masking_features \<Rightarrow> prediction" where
  "predict_with_model X e f =
     (case mm_predict X (en_manager e) (to_array f) of
        Inr (p # _) \<Rightarrow> result_of (en_threshold e) ''xgboost'' f p
      | _ \<Rightarrow> predict_with_rules e f)"

definition predict_features :: "'m xgb_env \<Rightarrow> 'm engine \<Rightarrow> masking_features \<Rightarrow> prediction" where
  "predict_features X e f = (if en_use_model e then predict_with_model X e f else predict_with_rules e f)"

definition engine_predict :: "'m xgb_env \<Rightarrow> 'm engine \<Rightarrow> cdr_metrics \<Rightarrow> bool \<Rightarrow> rat \<Rightarrow> rat \<Rightarrow> prediction" where
  "engine_predict X e m mismatch rate short = predict_features X e (extract_features m mismatch rate short)"

definition predict_from_dict :: "'m xgb_env \<Rightarrow> 'm engine \<Rightarrow> (string, rat) dict \<Rightarrow> sip_info \<Rightarrow> prediction" where
  "predict_from_dict X e m s = predict_features X e (extract_from_dict m s)"

definition update_threshold :: "rat \<Rightarrow> 'm engine \<Rightarrow> string + 'm engine" where
  "update_threshold t e =
     (if 0 \<le> t \<and> t \<le> 1 then Inr (e\<lparr>en_threshold := t\<rparr>)
      else Inl ''Threshold must be between 0 and 1'')"

definition reload_model :: "'m xgb_env \<Rightarrow> 'm engine \<Rightarrow> bool \<times> 'm engine" where
  "reload_model X e =
     (case mm_load X (en_manager e) of (ok, mm) \<Rightarrow> (ok, e\<lparr>en_manager := mm, en_use_model := ok\<rparr>))"

datatype engine_event = Set_threshold rat | Reload | Unload

fun engine_step :: "'m xgb_env \<Rightarrow> engine_event \<Rightarrow> 'm engine \<Rightarrow> string + 'm engine" where
  "engine_step X (Set_threshold t) e = update_threshold t e"
| "engine_step X Reload e = Inr (snd (reload_model X e))"
| "engine_step X Unload e = Inr (e\<lparr>en_manager := mm_unload (en_manager e)\<rparr>)"


section \<open>The analysis endpoint\<close>

record analysis_request =
  ar_call_id :: string
  ar_a_number :: string
  ar_b_number :: string
  ar_cli :: "string option"
  ar_pai :: "string option"
  ar_call_rate :: rat
  ar_short_call_ratio :: rat

definition request_mismatch :: "analysis_request \<Rightarrow> bool" where
  "request_mismatch r = (if truthy (ar_cli r) \<and> truthy (ar_pai r) then ar_cli r \<noteq> ar_pai r else False)"

text \<open>\<open>analyze_call\<close> up to the response, which repeats the prediction and the metrics; an exception is
  answered with status 500.\<close>

definition analyze_call ::
  "'m xgb_env \<Rightarrow> 'm engine \<Rightarrow> 'w cdr_ports \<Rightarrow> int \<Rightarrow> instant \<Rightarrow> analysis_request \<Rightarrow> ('w, int \<times> string, prediction \<times> cdr_metrics) eff" where
  "analyze_call X e P secs now r =
     eff_catch
       (eff_then (record_attempt P secs (ar_b_number r) (ar_a_number r))
       (eff_bind (cdr_all_metrics P secs now (ar_b_number r)) (\<lambda>m.
        eff_return (engine_predict X e m (request_mismatch r) (ar_call_rate r) (ar_short_call_ratio r), m))))
       (\<lambda>msg. eff_raise (500, ''Analysis failed: '' @ msg))"

definition metrics_endpoint :: "'w cdr_ports \<Rightarrow> int \<Rightarrow> instant \<Rightarrow> string \<Rightarrow> ('w, int \<times> string, cdr_metrics) eff" where
  "metrics_endpoint P secs now b =
     eff_catch (cdr_all_metrics P secs now b) (\<lambda>msg. eff_raise (500, ''Failed to retrieve metrics: '' @ msg))"

definition reset_endpoint :: "'w cdr_ports \<Rightarrow> string \<Rightarrow> ('w, int \<times> string, (string, py_val) dict) eff" where
  "reset_endpoint P b =
     eff_catch (eff_then (reset_metrics P b) (eff_return [(''status'', PStr ''reset''), (''b_number'', PStr b)]))
       (\<lambda>msg. eff_raise (500, ''Failed to reset metrics: '' @ msg))"

definition model_status :: "'m xgb_env \<Rightarrow> 'm engine \<Rightarrow> (string, py_val) dict" where
  "model_status X e =
     [(''model_loaded'', PBool (mm_loaded (en_manager e))), (''xgboost_available'', PBool (xgboost_available X)),
      (''detection_method'', PStr (if en_use_model e then ''xgboost'' else ''rule_based'')),
      (''threshold'', PFloat (en_threshold e))]"


section \<open>Lemmas\<close>

fun risk_rank :: "string \<Rightarrow> nat" where
  "risk_rank s = (if s = ''CRITICAL'' then 4 else if s = ''HIGH'' then 3 else if s = ''MEDIUM'' then 2
                  else if s = ''LOW'' then 1 else 0)"

lemma risk_level_mono: "x \<le> y \<Longrightarrow> risk_rank (risk_level x) \<le> risk_rank (risk_level y)"
  by (simp add: risk_level_def)

definition rule1 :: "masking_features \<Rightarrow> rat" where
  "rule1 f = (if f_distinct_a_count f \<ge> 5 then 1/2 else 0)"
definition rule2 :: "masking_features \<Rightarrow> rat" where
  "rule2 f = (if f_overlap_ratio f > 8/10 then 3/10 else if f_overlap_ratio f > 1/2 then 15/100 else 0)"
definition rule3 :: "masking_features \<Rightarrow> rat" where
  "rule3 f = (if f_cli_mismatch f > 0 \<and> f_distinct_a_count f \<ge> 3 then 2/10 else 0)"
definition rule4 :: "masking_features \<Rightarrow> rat" where
  "rule4 f = (if f_call_rate f > 2 then 1/10 else 0)"
definition rule5 :: "masking_features \<Rightarrow> rat" where
  "rule5 f = (if f_asr f < 20 \<and> f_distinct_a_count f \<ge> 4 then 1/10 else 0)"

lemma rule_score_sum: "rule_score f = min (rule1 f + rule2 f + rule3 f + rule4 f + rule5 f) 1"
proof -
  have "(if f_distinct_a_count f \<ge> 5 then 0 + 1/2 else 0) = rule1 f"
    "(if f_overlap_ratio f > 8/10 then s + 3/10 else if f_overlap_ratio f > 1/2 then s + 15/100 else s) = s + rule2 f"
    "(if f_cli_mismatch f > 0 \<and> f_distinct_a_count f \<ge> 3 then s + 2/10 else s) = s + rule3 f"
    "(if f_call_rate f > 2 then s + 1/10 else s) = s + rule4 f"
    "(if f_asr f < 20 \<and> f_distinct_a_count f \<ge> 4 then s + 1/10 else s) = s + rule5 f" for s
    by (simp_all add: rule1_def rule2_def rule3_def rule4_def rule5_def)
  then show ?thesis unfolding rule_score_def Let_def by simp
qed

lemma rules_nonneg: "0 \<le> rule1 f" "0 \<le> rule2 f" "0 \<le> rule3 f" "0 \<le> rule4 f" "0 \<le> rule5 f"
  by (simp_all add: rule1_def rule2_def rule3_def rule4_def rule5_def)

lemma rule_score_bounds: "0 \<le> rule_score f" "rule_score f \<le> 1"
  using rules_nonneg [of f] by (simp_all add: rule_score_sum)

text \<open>One set of features is at least as suspicious as another.\<close>

definition as_suspicious :: "masking_features \<Rightarrow> masking_features \<Rightarrow> bool" where
  "as_suspicious f g \<longleftrightarrow> f_distinct_a_count f \<le> f_distinct_a_count g \<and> f_overlap_ratio f \<le> f_overlap_ratio g
     \<and> f_cli_mismatch f \<le> f_cli_mismatch g \<and> f_call_rate f \<le> f_call_rate g \<and> f_asr g \<le> f_asr f"

lemma rules_mono:
  assumes "as_suspicious f g"
  shows "rule1 f \<le> rule1 g" "rule2 f \<le> rule2 g" "rule3 f \<le> rule3 g" "rule4 f \<le> rule4 g" "rule5 f \<le> rule5 g"
  using assms by (simp_all add: as_suspicious_def rule1_def rule2_def rule3_def rule4_def rule5_def)

lemma rule_score_mono: "as_suspicious f g \<Longrightarrow> rule_score f \<le> rule_score g"
  using rules_mono [of f g] by (simp add: rule_score_sum min_le_iff_disj add_mono)

definition engine_inv :: "'m engine \<Rightarrow> bool" where [inv_defs]:
  "engine_inv e \<longleftrightarrow> 0 \<le> en_threshold e \<and> en_threshold e \<le> 1
     \<and> (mm_is_loaded (en_manager e) \<longleftrightarrow> mm_model (en_manager e) \<noteq> None)"

lemma mm_load_inv:
  "mm_is_loaded mm = (mm_model mm \<noteq> None) \<Longrightarrow> mm_load X mm = (ok, mm') \<Longrightarrow>
     mm_is_loaded mm' = (mm_model mm' \<noteq> None) \<and> (ok \<longrightarrow> mm_loaded mm')"
  by (auto simp: mm_load_def mm_loaded_def split: if_splits sum.splits)

lemma engine_step_inv: "engine_inv e \<Longrightarrow> engine_step X ev e = Inr e' \<Longrightarrow> engine_inv e'"
proof (cases ev)
  case (Set_threshold t)
  assume "engine_inv e" "engine_step X ev e = Inr e'"
  with Set_threshold show ?thesis
    by (auto simp: engine_inv_def update_threshold_def split: if_splits)
next
  case Reload
  assume inv: "engine_inv e" and run: "engine_step X ev e = Inr e'"
  obtain ok mm where l: "mm_load X (en_manager e) = (ok, mm)" by (cases "mm_load X (en_manager e)")
  have e': "e' = e\<lparr>en_manager := mm, en_use_model := ok\<rparr>"
    using run by (simp add: Reload reload_model_def l)
  show ?thesis
    using mm_load_inv [OF _ l] inv by (simp add: e' engine_inv_def)
next
  case Unload
  assume "engine_inv e" "engine_step X ev e = Inr e'"
  with Unload show ?thesis by (auto simp: engine_inv_def mm_unload_def)
qed

interpretation engines: guarded_machine "engine_step X" engine_inv for X
  by unfold_locales (rule engine_step_inv)

interpretation risk_bands: banding "\<lambda>p. risk_rank (risk_level p)" id
  by unfold_locales (simp_all del: risk_rank.simps add: risk_level_mono)

lemma predict_features_cases:
  "p_is_masking (predict_features X e f) \<longleftrightarrow> en_threshold e \<le> p_probability (predict_features X e f)"
  "p_method (predict_features X e f) = ''rule_based'' \<Longrightarrow> p_probability (predict_features X e f) = rule_score f"
  by (auto simp: predict_features_def predict_with_model_def predict_with_rules_def result_of_def
      split: sum.splits list.splits)


section \<open>Properties of the engine\<close>

text \<open>The rules are sane: their score lies between zero and one, and a call with at least as many
  callers, overlap, CLI mismatch and call rate and no higher answer ratio never gets a lower score or
  a lower risk level.\<close>
theorem rules_monotone:
  assumes "as_suspicious f g"
  shows "0 \<le> rule_score f \<and> rule_score f \<le> rule_score g \<and> rule_score g \<le> 1
    \<and> risk_rank (risk_level (rule_score f)) \<le> risk_rank (risk_level (rule_score g))"
proof -
  have mono: "rule_score f \<le> rule_score g" by (rule rule_score_mono [OF assms])
  moreover have "risk_rank (risk_level (rule_score f)) \<le> risk_rank (risk_level (rule_score g))"
    using risk_bands.band_mono [OF mono] by (simp del: risk_rank.simps)
  ultimately show ?thesis using rule_score_bounds by blast
qed

definition quiet_features :: "int \<Rightarrow> masking_features" where
  "quiet_features n = \<lparr>f_asr = 50, f_aloc = 60, f_overlap_ratio = 0, f_cli_mismatch = 0, f_distinct_a_count = n,
     f_call_rate = 1, f_short_call_ratio = 0, f_high_volume_flag = 0\<rparr>"

theorem rules_monotone_witness:
  "rule_score (quiet_features 4) \<le> rule_score (quiet_features 5)"
  using rules_monotone [of "quiet_features 4" "quiet_features 5"]
  by (simp add: as_suspicious_def quiet_features_def del: risk_rank.simps)

text \<open>Five distinct callers alone are not masking, against the first rule of the comment: on the
  rules and at any threshold above a half, the default of 0.7 included, a call is never flagged when
  its overlap ratio is at most a half, there is no CLI mismatch, the answer ratio is at least 20 and
  the call rate at most 2, however many distinct callers there are.\<close>
theorem distinct_callers_not_enough:
  assumes "\<not> en_use_model e" "1/2 < en_threshold e"
    and "f_overlap_ratio f \<le> 1/2" "f_cli_mismatch f \<le> 0" "20 \<le> f_asr f" "f_call_rate f \<le> 2"
  shows "\<not> p_is_masking (predict_features X e f)"
proof -
  have "rule2 f = 0" "rule3 f = 0" "rule4 f = 0" "rule5 f = 0" "rule1 f \<le> 1/2"
    using assms by (simp_all add: rule1_def rule2_def rule3_def rule4_def rule5_def)
  then have "rule_score f \<le> 1/2" by (simp add: rule_score_sum)
  then show ?thesis
    using assms(1,2) by (simp add: predict_features_def predict_with_rules_def result_of_def)
qed

theorem distinct_callers_not_enough_witness:
  "\<not> p_is_masking (predict_features (undefined :: unit xgb_env)
     \<lparr>en_threshold = 7/10, en_manager = new_model_manager None, en_use_model = False\<rparr> (quiet_features 50))"
  using distinct_callers_not_enough [of "\<lparr>en_threshold = 7/10, en_manager = new_model_manager None, en_use_model = False\<rparr>"
      "quiet_features 50" "undefined :: unit xgb_env"]
  by (simp add: quiet_features_def)

text \<open>After any sequence of threshold changes, reloads and unloads the engine's threshold is between
  zero and one, and its prediction flags a call exactly when its probability reaches that threshold;
  a failing or missing model is answered by the rules.\<close>
theorem engine_threshold:
  assumes "engine_inv e"
  shows "let e' = fold (attempt (engine_step X)) evs e in
      0 \<le> en_threshold e' \<and> en_threshold e' \<le> 1
    \<and> (p_is_masking (predict_features X e' f) \<longleftrightarrow> en_threshold e' \<le> p_probability (predict_features X e' f))
    \<and> (\<not> mm_loaded (en_manager e') \<longrightarrow> p_probability (predict_features X e' f) = rule_score f)"
proof -
  let ?e = "fold (attempt (engine_step X)) evs e"
  have "engine_inv ?e" by (rule engines.gm.run_keeps [OF assms(1)])
  then have "0 \<le> en_threshold ?e" "en_threshold ?e \<le> 1" by (simp_all add: engine_inv_def)
  moreover have "p_probability (predict_features X ?e f) = rule_score f" if "\<not> mm_loaded (en_manager ?e)"
    using that by (simp add: predict_features_def predict_with_model_def predict_with_rules_def mm_predict_def
        result_of_def)
  ultimately show ?thesis using predict_features_cases(1) [of X ?e f] by (simp add: Let_def)
qed

theorem engine_threshold_witness:
  "let X = \<lparr>xgboost_available = False, model_file_exists = (\<lambda>_. False), load_booster = (\<lambda>_. Inr ()),
           run_booster = (\<lambda>_ _. Inr [])\<rparr>;
       e = fold (attempt (engine_step X)) [Set_threshold 2, Set_threshold (1/2), Reload] (new_engine X ''m.json'' (7/10)) in
   en_threshold e \<le> 1"
proof -
  let ?X = "\<lparr>xgboost_available = False, model_file_exists = (\<lambda>_. False), load_booster = (\<lambda>_. Inr ()),
           run_booster = (\<lambda>_ _. Inr [])\<rparr>"
  have "engine_inv (new_engine ?X ''m.json'' (7/10))"
    by (simp add: engine_inv_def new_engine_def mm_load_def new_model_manager_def)
  from engine_threshold [OF this, of ?X "[Set_threshold 2, Set_threshold (1/2), Reload]" "quiet_features 1"]
  show ?thesis unfolding Let_def by blast
qed


section \<open>The client of the inference service\<close>

datatype inference_mode = GRPC_PRIMARY | LOCAL_FALLBACK | HYBRID

record ml_client =
  mc_mode :: inference_mode
  mc_threshold :: int
  mc_timeout :: rat
  mc_has_local :: bool
  mc_open :: bool
  mc_open_time :: "instant option"
  mc_failures :: int
  mc_total :: int
  mc_grpc :: int
  mc_local :: int
  mc_failed :: int
  mc_latency :: rat

definition new_client :: "inference_mode \<Rightarrow> int \<Rightarrow> rat \<Rightarrow> bool \<Rightarrow> ml_client" where
  "new_client mode threshold timeout local =
     \<lparr>mc_mode = mode, mc_threshold = threshold, mc_timeout = timeout,
      mc_has_local = (mode \<noteq> GRPC_PRIMARY \<and> local), mc_open = False, mc_open_time = None, mc_failures = 0,
      mc_total = 0, mc_grpc = 0, mc_local = 0, mc_failed = 0, mc_latency = 0\<rparr>"

record ml_response =
  mr_is_fraud :: bool
  mr_probability :: rat
  mr_version :: string
  mr_latency :: rat

text \<open>The simulated prediction; NumPy raises when a row has no such column.\<close>

definition simulate_prediction :: "rat list \<Rightarrow> string + rat" where
  "simulate_prediction fs =
     (if length fs < 8 then Inl ''IndexError''
      else let s = (if fs ! 4 \<ge> 5 then 0 + 4/10 else 0);
               s = (if fs ! 2 > 8/10 then s + 3/10 else s);
               s = (if fs ! 3 > 0 then s + 2/10 else s);
               s = (if fs ! 5 > 2 then s + 1/10 else s);
               s = (if fs ! 7 > 0 then s + 1/10 else s)
           in Inr (min s 1))"

definition client_result :: "string \<Rightarrow> rat \<Rightarrow> rat \<Rightarrow> ml_response" where
  "client_result v lat p = \<lparr>mr_is_fraud = (p \<ge> 7/10), mr_probability = p, mr_version = v, mr_latency = lat\<rparr>"

definition version_or :: "string option \<Rightarrow> string" where
  "version_or v = (if truthy v then the v else ''xgboost_v2026.02.04'')"

text \<open>\<open>lat\<close> is the measured latency in milliseconds.\<close>

definition predict_grpc :: "rat \<Rightarrow> rat list \<Rightarrow> string option \<Rightarrow> (ml_client, string, ml_response) eff" where
  "predict_grpc lat fs v =
     eff_bind (eff_lift (simulate_prediction fs)) (\<lambda>p.
     eff_then (eff_modify (\<lambda>c. c\<lparr>mc_grpc := mc_grpc c + 1, mc_latency := mc_latency c + lat\<rparr>))
       (eff_return (client_result (version_or v) lat p)))"

definition predict_local :: "rat \<Rightarrow> rat list \<Rightarrow> (ml_client, string, ml_response) eff" where
  "predict_local lat fs =
     eff_bind (eff_gets mc_has_local) (\<lambda>loc.
     if \<not> loc then eff_raise ''Local fallback model not available''
     else eff_then (eff_modify (\<lambda>c. c\<lparr>mc_local := mc_local c + 1\<rparr>))
       (eff_bind (eff_lift (simulate_prediction fs)) (\<lambda>p.
        eff_then (eff_modify (\<lambda>c. c\<lparr>mc_latency := mc_latency c + lat\<rparr>))
          (eff_return (client_result ''local_fallback'' lat p)))))"

definition note_failure :: "instant \<Rightarrow> ml_client \<Rightarrow> ml_client" where
  "note_failure now c =
     (let c = c\<lparr>mc_failures := mc_failures c + 1, mc_failed := mc_failed c + 1\<rparr> in
      if mc_failures c \<ge> mc_threshold c then c\<lparr>mc_open := True, mc_open_time := Some now\<rparr> else c)"

text \<open>After the breaker has let the request through; \<open>t2\<close> is the clock read when the circuit opens.\<close>

definition predict_admitted ::
  "instant \<Rightarrow> rat \<Rightarrow> rat \<Rightarrow> rat list \<Rightarrow> string option \<Rightarrow> (ml_client, string, ml_response) eff" where
  "predict_admitted t2 lat lat' fs v =
     eff_bind (eff_gets mc_mode) (\<lambda>mode.
     if mode = LOCAL_FALLBACK then predict_local lat' fs
     else eff_catch
       (eff_bind (predict_grpc lat fs v) (\<lambda>r.
        eff_then (eff_modify (\<lambda>c. c\<lparr>mc_failures := 0\<rparr>)) (eff_return r)))
       (\<lambda>e. eff_then (eff_modify (note_failure t2))
         (if mode = HYBRID then predict_local lat' fs else eff_raise (''gRPC inference failed: '' @ e))))"

definition client_predict ::
  "instant \<Rightarrow> instant \<Rightarrow> rat \<Rightarrow> rat \<Rightarrow> rat list \<Rightarrow> string option \<Rightarrow> (ml_client, string, ml_response) eff" where
  "client_predict t1 t2 lat lat' fs v =
     eff_then (eff_modify (\<lambda>c. c\<lparr>mc_total := mc_total c + 1\<rparr>))
     (eff_bind (eff_gets id) (\<lambda>c.
     if mc_open c
     then (case mc_open_time c of
             None \<Rightarrow> eff_raise ''TypeError''
           | Some t0 \<Rightarrow>
               if t1 - t0 > mc_timeout c
               then eff_then (eff_modify (\<lambda>c. c\<lparr>mc_open := False, mc_failures := 0\<rparr>))
                      (predict_admitted t2 lat lat' fs v)
               else predict_local lat' fs)
     else predict_admitted t2 lat lat' fs v))"

definition client_healthy :: "ml_client \<Rightarrow> bool" where
  "client_healthy c \<longleftrightarrow> \<not> mc_open c"

definition client_reset :: "ml_client \<Rightarrow> ml_client" where
  "client_reset c = c\<lparr>mc_open := False, mc_failures := 0\<rparr>"

definition share :: "int \<Rightarrow> int \<Rightarrow> rat" where
  "share n reqs = (if reqs > 0 then of_int n / of_int reqs * 100 else 0)"

definition client_metrics :: "ml_client \<Rightarrow> (string, py_val) dict" where
  "client_metrics c =
     [(''total_requests'', PInt (mc_total c)), (''grpc_requests'', PInt (mc_grpc c)),
      (''local_requests'', PInt (mc_local c)), (''failed_requests'', PInt (mc_failed c)),
      (''avg_latency_ms'', PFloat (if mc_total c > 0 then mc_latency c / of_int (mc_total c) else 0)),
      (''circuit_open'', PBool (mc_open c)), (''grpc_percentage'', PFloat (share (mc_grpc c) (mc_total c))),
      (''local_percentage'', PFloat (share (mc_local c) (mc_total c)))]"


text \<open>The counters with room for \<open>k\<close> more answers and \<open>j\<close> more failures.\<close>

definition client_room :: "int \<Rightarrow> int \<Rightarrow> ml_client \<Rightarrow> bool" where [inv_defs]:
  "client_room k j c \<longleftrightarrow> 0 \<le> mc_grpc c \<and> 0 \<le> mc_local c \<and> 0 \<le> mc_failed c \<and> 0 \<le> mc_failures c
     \<and> mc_grpc c + mc_local c + k \<le> mc_total c \<and> mc_failed c + j \<le> mc_total c
     \<and> (mc_open c \<longrightarrow> mc_open_time c \<noteq> None) \<and> 0 < mc_threshold c
     \<and> (\<not> mc_open c \<longrightarrow> mc_failures c < mc_threshold c)"

lemma room_mono: "client_room k j c \<Longrightarrow> k' \<le> k \<Longrightarrow> j' \<le> j \<Longrightarrow> client_room k' j' c"
  by (auto simp: client_room_def)

lemma note_failure_room: "client_room k (j + 1) c \<Longrightarrow> client_room k j (note_failure t c)"
  by (auto simp: client_room_def note_failure_def Let_def)

lemma predict_local_room: "client_room 1 j c \<Longrightarrow> client_room 0 j (snd (predict_local lat fs c))"
  by (cases "simulate_prediction fs")
    (auto simp: predict_local_def eff_defs client_room_def)

lemma predict_grpc_cases:
  "predict_grpc lat fs v c = (case simulate_prediction fs of Inl e \<Rightarrow> (Inl e, c)
     | Inr p \<Rightarrow> (Inr (client_result (version_or v) lat p),
                  c\<lparr>mc_grpc := mc_grpc c + 1, mc_latency := mc_latency c + lat\<rparr>))"
  by (simp add: predict_grpc_def eff_defs split: sum.split)

lemma predict_admitted_room:
  assumes "client_room 1 1 c"
  shows "client_room 0 0 (snd (predict_admitted t lat lat' fs v c))"
proof (cases "mc_mode c = LOCAL_FALLBACK")
  case True
  then show ?thesis
    using room_mono [OF predict_local_room [OF assms]]
    by (simp add: predict_admitted_def eff_bind_def eff_gets_def)
next
  case remote: False
  show ?thesis
  proof (cases "simulate_prediction fs")
    case (Inl e)
    have noted: "client_room 1 0 (note_failure t c)" using note_failure_room [of 1 0 c t] assms by simp
    have "client_room 0 0 (snd (predict_local lat' fs (note_failure t c)))"
      by (rule predict_local_room [OF noted])
    moreover have "client_room 0 0 (note_failure t c)" by (rule room_mono [OF noted]) simp_all
    ultimately show ?thesis
      using remote by (simp add: predict_admitted_def eff_defs predict_grpc_cases Inl)
  next
    case (Inr p)
    then show ?thesis
      using remote assms by (simp add: predict_admitted_def eff_defs predict_grpc_cases client_room_def)
  qed
qed

lemma client_predict_room:
  assumes "client_room 0 0 c"
  shows "client_room 0 0 (snd (client_predict t1 t2 lat lat' fs v c))"
proof -
  let ?c = "c\<lparr>mc_total := mc_total c + 1\<rparr>"
  have room: "client_room 1 1 ?c" using assms by (simp add: client_room_def)
  then have reset: "client_room 1 1 (?c\<lparr>mc_open := False, mc_failures := 0\<rparr>)" by (simp add: client_room_def)
  have step: "client_predict t1 t2 lat lat' fs v c =
     (if mc_open c
      then case mc_open_time c of None \<Rightarrow> (Inl ''TypeError'', ?c)
           | Some t0 \<Rightarrow>
               if t1 - t0 > mc_timeout c
               then predict_admitted t2 lat lat' fs v (?c\<lparr>mc_open := False, mc_failures := 0\<rparr>)
               else predict_local lat' fs ?c
      else predict_admitted t2 lat lat' fs v ?c)"
    by (simp add: client_predict_def eff_then_def eff_bind_def eff_modify_def eff_gets_def eff_raise_def
        split: option.split)
  have "client_room 0 0 (snd (predict_admitted t2 lat lat' fs v ?c))"
    "client_room 0 0 (snd (predict_admitted t2 lat lat' fs v (?c\<lparr>mc_open := False, mc_failures := 0\<rparr>)))"
    "client_room 0 0 (snd (predict_local lat' fs ?c))"
    by (rule predict_admitted_room [OF room], rule predict_admitted_room [OF reset],
        rule room_mono [OF predict_local_room [OF room]]) simp_all
  moreover have "client_room 0 0 ?c" by (rule room_mono [OF room]) simp_all
  ultimately show ?thesis by (simp add: step split: option.split)
qed

datatype client_event =
  Predict instant instant rat rat "rat list" "string option" | Reset_breaker

fun client_step :: "client_event \<Rightarrow> ml_client \<Rightarrow> ml_client" where
  "client_step (Predict t1 t2 lat lat' fs v) c = snd (client_predict t1 t2 lat lat' fs v c)"
| "client_step Reset_breaker c = client_reset c"

interpretation ml_clients: step_machine client_step "client_room 0 0"
proof (unfold_locales)
  fix c e assume "client_room 0 0 c"
  then show "client_room 0 0 (client_step e c)"
    by (cases e) (simp add: client_predict_room, simp add: client_room_def client_reset_def)
qed

lemma share_bounds: "0 \<le> n \<Longrightarrow> n \<le> m \<Longrightarrow> 0 \<le> share n m \<and> share n m \<le> 100"
  by (auto simp: share_def field_simps)

text \<open>C9: The client's books balance: after any sequence of predictions (those that raise included) and
  breaker resets, remote and local answers together are at most the requests, so both reported
  percentages lie between 0 and 100 and their sum does too; a closed breaker has seen fewer
  consecutive failures than its threshold and an open one knows when it opened.\<close>
theorem client_counters:
  assumes "0 < threshold"
  shows "let c = fold client_step es (new_client mode threshold timeout loc) in
     mc_grpc c + mc_local c \<le> mc_total c \<and> mc_failed c \<le> mc_total c
     \<and> 0 \<le> share (mc_grpc c) (mc_total c) \<and> 0 \<le> share (mc_local c) (mc_total c)
     \<and> share (mc_grpc c) (mc_total c) + share (mc_local c) (mc_total c) \<le> 100
     \<and> (if mc_open c then mc_open_time c \<noteq> None else mc_failures c < mc_threshold c)"
proof -
  let ?c = "fold client_step es (new_client mode threshold timeout loc)"
  have "client_room 0 0 (new_client mode threshold timeout loc)"
    using assms by (simp add: client_room_def new_client_def)
  then have room: "client_room 0 0 ?c" by (rule ml_clients.run_keeps)
  moreover have "share (mc_grpc ?c) (mc_total ?c) + share (mc_local ?c) (mc_total ?c)
      = share (mc_grpc ?c + mc_local ?c) (mc_total ?c)"
    by (simp add: share_def field_simps)
  ultimately show ?thesis
    using share_bounds [of "mc_grpc ?c" "mc_total ?c"] share_bounds [of "mc_local ?c" "mc_total ?c"]
      share_bounds [of "mc_grpc ?c + mc_local ?c" "mc_total ?c"]
    by (simp add: client_room_def Let_def)
qed

theorem client_counters_witness:
  "let c = fold client_step [Predict 0 0 1 1 [1] None, Predict 1 1 1 1 [1, 1, 1, 1, 1, 1, 1, 1] None]
     (new_client HYBRID 2 30 True) in mc_grpc c + mc_local c \<le> mc_total c"
  using client_counters [of 2 "[Predict 0 0 1 1 [1] None, Predict 1 1 1 1 [1, 1, 1, 1, 1, 1, 1, 1] None]" HYBRID 30 True]
  unfolding Let_def by simp

end
