(* ===== verification/Archival.thy ===== *)
theory Archival
  imports Effects PyText "HOL-Library.Multiset"
begin

text \<open>
  Data archival, \<open>services/data-archival\<close>: the compression service, the object-storage client, the
  archival service (archive, restore, expiry, statistics) and the jobs of its scheduler. PostgreSQL,
  the object store, the compression libraries, SHA-256, JSON and the ISO form of times are
  parameters. The storage client catches the store's \<open>ClientError\<close> and nothing else. JSON text is
  ASCII, so its bytes are its characters.
\<close>

section \<open>Configuration and parameters\<close>

datatype compression_type = GZIP | ZSTD | NONE

fun compression_value :: "compression_type \<Rightarrow> string" where
  "compression_value GZIP = ''gzip''"
| "compression_value ZSTD = ''zstd''"
| "compression_value NONE = ''none''"

datatype io_error = ClientError string | OtherError string

record archive_config =
  hot_retention_days :: int
  cold_retention_years :: int
  ac_compression :: compression_type
  ac_level :: int
  chunk_size :: nat
  tables_to_archive :: "string list"
  archive_prefix :: string

definition default_archive_config :: archive_config where
  "default_archive_config =
     \<lparr>hot_retention_days = 90, cold_retention_years = 7, ac_compression = ZSTD, ac_level = 3,
      chunk_size = 10000,
      tables_to_archive = [''acm_alerts'', ''audit_events'', ''call_detail_records'',
        ''gateway_blacklist_history'', ''fraud_investigations''],
      archive_prefix = ''archives''\<rparr>"

record archive_metadata =
  am_id :: string
  am_table :: string
  am_partition :: string
  am_record_count :: nat
  am_original_size :: nat
  am_compressed_size :: nat
  am_compression :: string
  am_created_at :: string
  am_checksum :: string
  am_s3_key :: string
  am_retention_until :: string

text \<open>A row of the database is the dictionary that psycopg2 makes of it. Its values are those that JSON has, lists of values,
  and others, such as times, decimals and identifiers, of which only the text that \<open>str\<close> gives them is ever used.\<close>

datatype db_value = Plain py_val | Items "db_value list" | Foreign string

type_synonym db_row = "(string \<times> db_value) list"

type_synonym json_row = "(string \<times> py_val) list"

text \<open>\<open>json.dumps(records, default=str)\<close>: what JSON does not have becomes its text, before the encoding that \<open>dump_rows\<close> stands
  for. Reading it back gives the text.\<close>

primrec json_value :: "db_value \<Rightarrow> py_val" where
  "json_value (Plain v) = v"
| "json_value (Items vs) = PList (map json_value vs)"
| "json_value (Foreign s) = PStr s"

definition json_row_of :: "db_row \<Rightarrow> json_row" where
  "json_row_of r = map (\<lambda>(c, v). (c, json_value v)) r"

record codecs =
  zstd_available :: bool
  gzip_pack :: "int \<Rightarrow> string \<Rightarrow> io_error + string"
  gzip_unpack :: "string \<Rightarrow> io_error + string"
  zstd_pack :: "int \<Rightarrow> string \<Rightarrow> io_error + string"
  zstd_unpack :: "string \<Rightarrow> io_error + string"
  sha256 :: "string \<Rightarrow> string"
  dump_rows :: "json_row list \<Rightarrow> io_error + string"
  load_rows :: "string \<Rightarrow> io_error + json_row list"
  dump_metadata :: "archive_metadata \<Rightarrow> string"
  load_metadata :: "string \<Rightarrow> io_error + archive_metadata"
  isoformat :: "instant \<Rightarrow> string"
  fromisoformat :: "string \<Rightarrow> io_error + instant"

record 'w archive_ports =
  select_older :: "string \<Rightarrow> string \<Rightarrow> instant \<Rightarrow> nat \<Rightarrow> ('w, io_error, db_row list) eff"
  delete_older :: "string \<Rightarrow> string \<Rightarrow> instant \<Rightarrow> ('w, io_error, int) eff"
  insert_row :: "string \<Rightarrow> string list \<Rightarrow> py_val list \<Rightarrow> ('w, io_error, int) eff"
  commit_rows :: "('w, io_error, unit) eff"
  put_object :: "string \<Rightarrow> string \<Rightarrow> ('w, io_error, unit) eff"
  get_object :: "string \<Rightarrow> ('w, io_error, string) eff"
  delete_object :: "string \<Rightarrow> ('w, io_error, unit) eff"
  list_objects :: "string \<Rightarrow> nat \<Rightarrow> ('w, io_error, string list option) eff"
  object_size :: "string \<Rightarrow> ('w, io_error, nat) eff"


section \<open>Compression\<close>

record compression_service =
  cs_type :: compression_type
  cs_level :: int

definition new_compression :: "codecs \<Rightarrow> compression_type \<Rightarrow> int \<Rightarrow> compression_service" where
  "new_compression K t level =
     \<lparr>cs_type = (if t = ZSTD \<and> \<not> zstd_available K then GZIP else t), cs_level = level\<rparr>"

definition compress :: "codecs \<Rightarrow> compression_service \<Rightarrow> string \<Rightarrow> io_error + string" where
  "compress K s d =
     (case cs_type s of NONE \<Rightarrow> Inr d | GZIP \<Rightarrow> gzip_pack K (cs_level s) d
      | ZSTD \<Rightarrow> if \<not> zstd_available K then Inl (OtherError ''ZSTD compression not available'')
                else zstd_pack K (cs_level s) d)"

definition decompress :: "codecs \<Rightarrow> compression_service \<Rightarrow> string \<Rightarrow> io_error + string" where
  "decompress K s d =
     (case cs_type s of NONE \<Rightarrow> Inr d | GZIP \<Rightarrow> gzip_unpack K d
      | ZSTD \<Rightarrow> if \<not> zstd_available K then Inl (OtherError ''ZSTD decompression not available'')
                else zstd_unpack K d)"

definition compression_ratio :: "nat \<Rightarrow> nat \<Rightarrow> rat" where
  "compression_ratio original compressed =
     (if original = 0 then 0 else 1 - of_nat compressed / of_nat original)"

definition typical_ratio :: "compression_type \<Rightarrow> rat" where
  "typical_ratio t = (case t of GZIP \<Rightarrow> 30/100 | ZSTD \<Rightarrow> 25/100 | NONE \<Rightarrow> 1)"

definition estimate_compressed_size :: "compression_service \<Rightarrow> nat \<Rightarrow> nat" where
  "estimate_compressed_size s n = nat \<lfloor>of_nat n * typical_ratio (cs_type s)\<rfloor>"


section \<open>The storage client\<close>

definition on_client_error :: "('w, io_error, 'a) eff \<Rightarrow> 'a \<Rightarrow> ('w, io_error, 'a) eff" where
  "on_client_error m d =
     eff_catch m (\<lambda>e. case e of ClientError _ \<Rightarrow> eff_return d | OtherError x \<Rightarrow> eff_raise (OtherError x))"

definition metadata_key :: "string \<Rightarrow> string" where
  "metadata_key i = ''metadata/'' @ i @ ''.json''"

definition upload_archive ::
  "codecs \<Rightarrow> 'w archive_ports \<Rightarrow> string \<Rightarrow> archive_metadata \<Rightarrow> ('w, io_error, bool) eff" where
  "upload_archive K P data m = on_client_error
     (eff_then (put_object P (am_s3_key m) data)
     (eff_then (put_object P (metadata_key (am_id m)) (dump_metadata K m)) (eff_return True))) False"

definition download_archive :: "'w archive_ports \<Rightarrow> string \<Rightarrow> ('w, io_error, string option) eff" where
  "download_archive P key = on_client_error (eff_bind (get_object P key) (\<lambda>d. eff_return (Some d))) None"

definition get_metadata ::
  "codecs \<Rightarrow> 'w archive_ports \<Rightarrow> string \<Rightarrow> ('w, io_error, archive_metadata option) eff" where
  "get_metadata K P i = on_client_error
     (eff_bind (get_object P (metadata_key i)) (\<lambda>d.
      eff_bind (eff_lift (load_metadata K d)) (\<lambda>m. eff_return (Some m)))) None"

definition max_keys :: nat where "max_keys = 1000"

definition list_archives :: "'w archive_ports \<Rightarrow> string \<Rightarrow> ('w, io_error, string list) eff" where
  "list_archives P pre = on_client_error
     (eff_bind (list_objects P pre max_keys) (\<lambda>r.
      case r of None \<Rightarrow> eff_return [] | Some ks \<Rightarrow> eff_return ks)) []"

definition delete_archive :: "'w archive_ports \<Rightarrow> string \<Rightarrow> string \<Rightarrow> ('w, io_error, bool) eff" where
  "delete_archive P key i = on_client_error
     (eff_then (delete_object P key)
     (eff_then (delete_object P (metadata_key i)) (eff_return True))) False"

definition get_archive_size :: "'w archive_ports \<Rightarrow> string \<Rightarrow> ('w, io_error, nat option) eff" where
  "get_archive_size P key = on_client_error (eff_bind (object_size P key) (\<lambda>n. eff_return (Some n))) None"

definition verify_integrity :: "codecs \<Rightarrow> 'w archive_ports \<Rightarrow> string \<Rightarrow> string \<Rightarrow> ('w, io_error, bool) eff" where
  "verify_integrity K P key expected = eff_catch
     (eff_bind (download_archive P key) (\<lambda>r.
      case r of None \<Rightarrow> eff_return False | Some d \<Rightarrow> eff_return (sha256 K d = expected)))
     (\<lambda>_. eff_return False)"


section \<open>The archival service\<close>

definition date_columns :: "(string \<times> string) list" where
  "date_columns = [(''acm_alerts'', ''detected_at''), (''audit_events'', ''created_at''),
     (''call_detail_records'', ''call_start_time''), (''gateway_blacklist_history'', ''created_at''),
     (''fraud_investigations'', ''created_at'')]"

definition get_date_column :: "string \<Rightarrow> string" where
  "get_date_column t = (case map_of date_columns t of Some c \<Rightarrow> c | None \<Rightarrow> ''created_at'')"

definition query_records_to_archive ::
  "archive_config \<Rightarrow> 'w archive_ports \<Rightarrow> string \<Rightarrow> instant \<Rightarrow> ('w, io_error, db_row list) eff" where
  "query_records_to_archive C P t cutoff = select_older P t (get_date_column t) cutoff (chunk_size C)"

definition delete_archived_records ::
  "'w archive_ports \<Rightarrow> string \<Rightarrow> instant \<Rightarrow> ('w, io_error, int) eff" where
  "delete_archived_records P t cutoff = delete_older P t (get_date_column t) cutoff"

definition days :: "int \<Rightarrow> rat" where
  "days n = of_int n * 86400"

definition service_compression :: "codecs \<Rightarrow> archive_config \<Rightarrow> compression_service" where
  "service_compression K C = new_compression K (ac_compression C) (ac_level C)"

definition build_metadata ::
  "codecs \<Rightarrow> archive_config \<Rightarrow> string \<Rightarrow> instant \<Rightarrow> string \<Rightarrow> string \<Rightarrow> nat \<Rightarrow> nat \<Rightarrow> string \<Rightarrow> archive_metadata" where
  "build_metadata K C uuid now t part n osize data =
     \<lparr>am_id = uuid, am_table = t, am_partition = part, am_record_count = n, am_original_size = osize,
      am_compressed_size = length data, am_compression = compression_value (ac_compression C),
      am_created_at = isoformat K now, am_checksum = sha256 K data,
      am_s3_key = archive_prefix C @ ''/'' @ t @ ''/'' @ part @ ''/'' @ uuid @ ''.'' @ compression_value (ac_compression C),
      am_retention_until = isoformat K (now + days (cold_retention_years C * 365))\<rparr>"

text \<open>\<open>archive_table\<close> without its outer \<open>try\<close>, and with it.\<close>

definition archive_rows ::
  "codecs \<Rightarrow> archive_config \<Rightarrow> 'w archive_ports \<Rightarrow> string \<Rightarrow> instant \<Rightarrow> string \<Rightarrow> string \<Rightarrow> instant \<Rightarrow>
   ('w, io_error, archive_metadata option) eff" where
  "archive_rows K C P uuid now t part cutoff =
     eff_bind (query_records_to_archive C P t cutoff) (\<lambda>records.
     if records = [] then eff_return None
     else
       eff_bind (eff_lift (dump_rows K (map json_row_of records))) (\<lambda>json.
       eff_bind (eff_lift (compress K (service_compression K C) json)) (\<lambda>data.
       let m = build_metadata K C uuid now t part (length records) (length json) data in
       eff_bind (upload_archive K P data m) (\<lambda>ok.
       if \<not> ok then eff_return None
       else eff_then (delete_archived_records P t cutoff) (eff_return (Some m))))))"

definition archive_table ::
  "codecs \<Rightarrow> archive_config \<Rightarrow> 'w archive_ports \<Rightarrow> string \<Rightarrow> instant \<Rightarrow> string \<Rightarrow> string \<Rightarrow> instant \<Rightarrow>
   ('w, io_error, archive_metadata option) eff" where
  "archive_table K C P uuid now t part cutoff =
     eff_catch (archive_rows K C P uuid now t part cutoff) (\<lambda>_. eff_return None)"






fun collect_metadata ::
  "codecs \<Rightarrow> 'w archive_ports \<Rightarrow> string list \<Rightarrow> ('w, io_error, archive_metadata list) eff" where
  "collect_metadata K P [] = eff_return []"
| "collect_metadata K P (key # keys) =
     (let parts = split_on (CHR ''/'') key in
      if length parts \<ge> 4
      then eff_bind (get_metadata K P (before (CHR ''.'') (last parts))) (\<lambda>mo.
           eff_bind (collect_metadata K P keys) (\<lambda>ms.
           eff_return (case mo of Some m \<Rightarrow> m # ms | None \<Rightarrow> ms)))
      else collect_metadata K P keys)"

definition list_archives_for_table ::
  "codecs \<Rightarrow> archive_config \<Rightarrow> 'w archive_ports \<Rightarrow> string \<Rightarrow> ('w, io_error, archive_metadata list) eff" where
  "list_archives_for_table K C P t =
     eff_bind (list_archives P (archive_prefix C @ ''/'' @ t @ ''/'')) (collect_metadata K P)"

fun delete_expired_in ::
  "codecs \<Rightarrow> 'w archive_ports \<Rightarrow> instant \<Rightarrow> archive_metadata list \<Rightarrow> nat \<Rightarrow> ('w, io_error, nat) eff" where
  "delete_expired_in K P now [] n = eff_return n"
| "delete_expired_in K P now (m # ms) n =
     eff_bind (eff_lift (fromisoformat K (am_retention_until m))) (\<lambda>t.
     if now > t
     then eff_bind (delete_archive P (am_s3_key m) (am_id m)) (\<lambda>ok.
          delete_expired_in K P now ms (if ok then n + 1 else n))
     else delete_expired_in K P now ms n)"

fun delete_expired_tables ::
  "codecs \<Rightarrow> archive_config \<Rightarrow> 'w archive_ports \<Rightarrow> instant \<Rightarrow> string list \<Rightarrow> nat \<Rightarrow> ('w, io_error, nat) eff" where
  "delete_expired_tables K C P now [] n = eff_return n"
| "delete_expired_tables K C P now (t # ts) n =
     eff_bind (list_archives_for_table K C P t) (\<lambda>ms.
     eff_bind (delete_expired_in K P now ms n) (\<lambda>k. delete_expired_tables K C P now ts k))"

definition delete_expired_archives ::
  "codecs \<Rightarrow> archive_config \<Rightarrow> 'w archive_ports \<Rightarrow> instant \<Rightarrow> ('w, io_error, nat) eff" where
  "delete_expired_archives K C P now = delete_expired_tables K C P now (tables_to_archive C) 0"

record table_stats =
  ts_archives :: nat
  ts_records :: nat
  ts_compressed_mb :: rat
  ts_original_mb :: rat

definition megabytes :: "nat \<Rightarrow> rat" where
  "megabytes n = of_nat n / (1024 * 1024)"

definition stats_of :: "archive_metadata list \<Rightarrow> table_stats" where
  "stats_of ms = \<lparr>ts_archives = length ms, ts_records = sum_list (map am_record_count ms),
     ts_compressed_mb = megabytes (sum_list (map am_compressed_size ms)),
     ts_original_mb = megabytes (sum_list (map am_original_size ms))\<rparr>"

record retention_stats =
  rs_total :: table_stats
  rs_ratio :: rat
  rs_by_table :: "(string, table_stats) dict"

definition add_table_stats :: "string \<Rightarrow> archive_metadata list \<Rightarrow> retention_stats \<Rightarrow> retention_stats" where
  "add_table_stats t ms s =
     (if ms = [] then s
      else let x = stats_of ms; y = rs_total s in
        s\<lparr>rs_by_table := dict_set t x (rs_by_table s),
          rs_total := \<lparr>ts_archives = ts_archives y + ts_archives x, ts_records = ts_records y + ts_records x,
            ts_compressed_mb = ts_compressed_mb y + ts_compressed_mb x,
            ts_original_mb = ts_original_mb y + ts_original_mb x\<rparr>\<rparr>)"

fun gather_stats ::
  "codecs \<Rightarrow> archive_config \<Rightarrow> 'w archive_ports \<Rightarrow> string list \<Rightarrow> retention_stats \<Rightarrow> ('w, io_error, retention_stats) eff" where
  "gather_stats K C P [] s = eff_return s"
| "gather_stats K C P (t # ts) s =
     eff_bind (list_archives_for_table K C P t) (\<lambda>ms. gather_stats K C P ts (add_table_stats t ms s))"

definition get_retention_statistics ::
  "codecs \<Rightarrow> archive_config \<Rightarrow> 'w archive_ports \<Rightarrow> ('w, io_error, retention_stats) eff" where
  "get_retention_statistics K C P =
     eff_bind (gather_stats K C P (tables_to_archive C)
       \<lparr>rs_total = \<lparr>ts_archives = 0, ts_records = 0, ts_compressed_mb = 0, ts_original_mb = 0\<rparr>,
        rs_ratio = 0, rs_by_table = []\<rparr>) (\<lambda>s.
     eff_return (if ts_original_mb (rs_total s) > 0
       then s\<lparr>rs_ratio := 1 - ts_compressed_mb (rs_total s) / ts_original_mb (rs_total s)\<rparr> else s))"


section \<open>The scheduled jobs\<close>

text \<open>The monthly job archives every configured table; what it counts is only logged. The identifiers and
  clock readings of the tables are given by their position.\<close>

fun archive_tables ::
  "codecs \<Rightarrow> archive_config \<Rightarrow> 'w archive_ports \<Rightarrow> (nat \<Rightarrow> string) \<Rightarrow> (nat \<Rightarrow> instant) \<Rightarrow> string \<Rightarrow> instant \<Rightarrow>
   nat \<Rightarrow> string list \<Rightarrow> nat \<times> nat \<Rightarrow> ('w, io_error, nat \<times> nat) eff" where
  "archive_tables K C P uuid now part cutoff i [] acc = eff_return acc"
| "archive_tables K C P uuid now part cutoff i (t # ts) (a, n) =
     eff_bind (eff_catch (archive_table K C P (uuid i) (now i) t part cutoff) (\<lambda>_. eff_return None)) (\<lambda>r.
     archive_tables K C P uuid now part cutoff (Suc i) ts
       (case r of Some m \<Rightarrow> (a + 1, n + am_record_count m) | None \<Rightarrow> (a, n)))"

definition run_archival_job ::
  "codecs \<Rightarrow> archive_config \<Rightarrow> 'w archive_ports \<Rightarrow> (instant \<Rightarrow> string) \<Rightarrow> (nat \<Rightarrow> string) \<Rightarrow> (nat \<Rightarrow> instant) \<Rightarrow> instant \<Rightarrow>
   ('w, io_error, nat \<times> nat) eff" where
  "run_archival_job K C P year_month uuid now t =
     (let cutoff = t - days (hot_retention_days C) in
      archive_tables K C P uuid now (year_month cutoff) cutoff 0 (tables_to_archive C) (0, 0))"

definition run_cleanup_job ::
  "codecs \<Rightarrow> archive_config \<Rightarrow> 'w archive_ports \<Rightarrow> instant \<Rightarrow> ('w, io_error, nat option) eff" where
  "run_cleanup_job K C P now =
     eff_catch (eff_bind (delete_expired_archives K C P now) (\<lambda>n. eff_return (Some n))) (\<lambda>_. eff_return None)"

definition trigger_manual_archival ::
  "codecs \<Rightarrow> archive_config \<Rightarrow> 'w archive_ports \<Rightarrow> (instant \<Rightarrow> string) \<Rightarrow> string \<Rightarrow> instant \<Rightarrow> string \<Rightarrow> instant \<Rightarrow>
   ('w, io_error, string option) eff" where
  "trigger_manual_archival K C P year_month uuid now t cutoff =
     eff_catch (eff_bind (archive_table K C P uuid now t (year_month cutoff) cutoff) (\<lambda>r.
       eff_return (map_option am_id r))) (\<lambda>_. eff_return None)"


section \<open>What the stores and the codecs promise\<close>

record archive_view =
  av_rows :: "string \<Rightarrow> db_row list"
  av_objects :: "string \<Rightarrow> string option"

text \<open>The documented behaviour of the database and of the object store over what they hold; \<open>date c r\<close> is
  the value of row \<open>r\<close> in column \<open>c\<close>. A failed operation changes nothing.\<close>

definition archive_ok ::
  "'w archive_ports \<Rightarrow> ('w \<Rightarrow> archive_view) \<Rightarrow> (string \<Rightarrow> db_row \<Rightarrow> instant) \<Rightarrow> bool" where
  "archive_ok P V date \<longleftrightarrow>
     (\<forall>t c bound n w. V (snd (select_older P t c bound n w)) = V w)
   \<and> (\<forall>t c bound n w rs w'. select_older P t c bound n w = (Inr rs, w') \<longrightarrow>
        rs = take n (sort_key (date c) (filter (\<lambda>r. date c r < bound) (av_rows (V w) t))))
   \<and> (\<forall>t c bound w k w'. delete_older P t c bound w = (Inr k, w') \<longrightarrow>
        V w' = (V w)\<lparr>av_rows := (av_rows (V w))(t := filter (\<lambda>r. \<not> date c r < bound) (av_rows (V w) t))\<rparr>)
   \<and> (\<forall>t c bound w e w'. delete_older P t c bound w = (Inl e, w') \<longrightarrow> V w' = V w)
   \<and> (\<forall>k d w w'. put_object P k d w = (Inr (), w') \<longrightarrow>
        V w' = (V w)\<lparr>av_objects := (av_objects (V w))(k \<mapsto> d)\<rparr>)
   \<and> (\<forall>k d w e w'. put_object P k d w = (Inl e, w') \<longrightarrow> V w' = V w)
   \<and> (\<forall>k w. V (snd (get_object P k w)) = V w)
   \<and> (\<forall>k w d w'. get_object P k w = (Inr d, w') \<longrightarrow> av_objects (V w) k = Some d)
   \<and> (\<forall>k w w'. delete_object P k w = (Inr (), w') \<longrightarrow>
        V w' = (V w)\<lparr>av_objects := (av_objects (V w))(k := None)\<rparr>)
   \<and> (\<forall>k w e w'. delete_object P k w = (Inl e, w') \<longrightarrow> V w' = V w)
   \<and> (\<forall>p n w. V (snd (list_objects P p n w)) = V w)"

lemma archive_okD:
  assumes "archive_ok P V date"
  shows "V (snd (select_older P t c bound n w)) = V w"
    and "select_older P t c bound n w = (Inr rs, w') \<Longrightarrow>
      rs = take n (sort_key (date c) (filter (\<lambda>r. date c r < bound) (av_rows (V w) t)))"
    and "delete_older P t c bound w = (Inr k, w') \<Longrightarrow>
      V w' = (V w)\<lparr>av_rows := (av_rows (V w))(t := filter (\<lambda>r. \<not> date c r < bound) (av_rows (V w) t))\<rparr>"
    and "delete_older P t c bound w = (Inl e, w') \<Longrightarrow> V w' = V w"
    and "put_object P key d w = (Inr (), w') \<Longrightarrow> V w' = (V w)\<lparr>av_objects := (av_objects (V w))(key \<mapsto> d)\<rparr>"
    and "put_object P key d w = (Inl e, w') \<Longrightarrow> V w' = V w"
    and "V (snd (get_object P key w)) = V w"
    and "get_object P key w = (Inr d, w') \<Longrightarrow> av_objects (V w) key = Some d"
    and "delete_object P key w = (Inr (), w') \<Longrightarrow> V w' = (V w)\<lparr>av_objects := (av_objects (V w))(key := None)\<rparr>"
    and "delete_object P key w = (Inl e, w') \<Longrightarrow> V w' = V w"
    and "V (snd (list_objects P pre n w)) = V w"
  using assms unfolding archive_ok_def by simp_all

text \<open>Python's dictionaries have each key once.\<close>

primrec json_wf :: "py_val \<Rightarrow> bool" where
  "json_wf PNone = True" | "json_wf (PBool b) = True" | "json_wf (PInt i) = True" | "json_wf (PFloat x) = True"
| "json_wf (PStr s) = True"
| "json_wf (PList vs) = list_all id (map json_wf vs)"
| "json_wf (PDict d) = (distinct (map fst d) \<and> list_all snd (map (map_prod id json_wf) d))"

primrec db_wf :: "db_value \<Rightarrow> bool" where
  "db_wf (Plain v) = json_wf v"
| "db_wf (Items vs) = list_all id (map db_wf vs)"
| "db_wf (Foreign s) = True"

definition json_row_wf :: "json_row \<Rightarrow> bool" where
  "json_row_wf r \<longleftrightarrow> distinct (map fst r) \<and> list_all json_wf (map snd r)"

text \<open>The rows of a table have its columns, each once.\<close>

definition table_ok :: "db_row list \<Rightarrow> bool" where
  "table_ok rows \<longleftrightarrow> (\<exists>columns. distinct columns \<and> list_all (\<lambda>r. map fst r = columns \<and> list_all db_wf (map snd r)) rows)"

text \<open>Decompressing what was compressed gives it back, and so does decoding what was encoded as JSON, for values that JSON
  has; \<^const>\<open>json_row_of\<close> stands before the encoding.\<close>

definition codecs_ok :: "codecs \<Rightarrow> bool" where
  "codecs_ok K \<longleftrightarrow>
     (\<forall>n d x. gzip_pack K n d = Inr x \<longrightarrow> gzip_unpack K x = Inr d)
   \<and> (\<forall>n d x. zstd_pack K n d = Inr x \<longrightarrow> zstd_unpack K x = Inr d)
   \<and> (\<forall>rs x. list_all json_row_wf rs \<longrightarrow> dump_rows K rs = Inr x \<longrightarrow> load_rows K x = Inr rs)"

lemma json_value_wf: "db_wf v \<Longrightarrow> json_wf (json_value v)"
  by (induction v) (auto simp: list_all_iff)

lemma json_row_keys [simp]: "map fst (json_row_of r) = map fst r"
  by (simp add: json_row_of_def comp_def case_prod_beta)

lemma json_row_of_wf: "distinct (map fst r) \<Longrightarrow> list_all db_wf (map snd r) \<Longrightarrow> json_row_wf (json_row_of r)"
  by (auto simp: json_row_wf_def json_row_of_def comp_def case_prod_beta list_all_iff json_value_wf)

lemma table_json_wf: "table_ok rows \<Longrightarrow> set rs \<subseteq> set rows \<Longrightarrow> list_all json_row_wf (map json_row_of rs)"
  by (auto simp: table_ok_def list_all_iff intro!: json_row_of_wf)

lemma decompress_compress: "codecs_ok K \<Longrightarrow> compress K s d = Inr x \<Longrightarrow> decompress K s x = Inr d"
  by (auto simp: codecs_ok_def compress_def decompress_def split: compression_type.splits if_splits)

text \<open>The rows an archive holds, read from the stored object.\<close>

definition archived_rows :: "codecs \<Rightarrow> archive_config \<Rightarrow> archive_view \<Rightarrow> archive_metadata \<Rightarrow> json_row list option" where
  "archived_rows K C v m =
     (case av_objects v (am_s3_key m) of None \<Rightarrow> None
      | Some d \<Rightarrow> (case decompress K (service_compression K C) d of Inl _ \<Rightarrow> None
        | Inr json \<Rightarrow> (case load_rows K json of Inl _ \<Rightarrow> None | Inr rs \<Rightarrow> Some rs)))"

lemma metadata_key_other: "archive_prefix C = ''archives'' \<Longrightarrow> am_s3_key (build_metadata K C u now t p n k d) \<noteq> metadata_key i"
  by (simp add: build_metadata_def metadata_key_def)


section \<open>Archiving\<close>

lemma on_client_error_True:
  "on_client_error m False s = (Inr True, s') \<Longrightarrow> m s = (Inr True, s')"
  by (auto simp: on_client_error_def eff_catch_def eff_return_def eff_raise_def
      split: prod.splits sum.splits io_error.splits)

lemma upload_archive_True:
  assumes ok: "archive_ok P V date" and run: "upload_archive K P data m w = (Inr True, w')"
  shows "V w' = (V w)\<lparr>av_objects := (av_objects (V w))(am_s3_key m \<mapsto> data, metadata_key (am_id m) \<mapsto> dump_metadata K m)\<rparr>"
proof -
  obtain w1 where "put_object P (am_s3_key m) data w = (Inr (), w1)"
    "put_object P (metadata_key (am_id m)) (dump_metadata K m) w1 = (Inr (), w')"
    using on_client_error_True [OF run [unfolded upload_archive_def]] by (auto simp: eff_Inr_iffs)
  then show ?thesis using archive_okD(5) [OF ok] by simp
qed

text \<open>The rows that are due, and those of them that one run selects.\<close>

abbreviation old_rows :: "(string \<Rightarrow> db_row \<Rightarrow> instant) \<Rightarrow> archive_view \<Rightarrow> string \<Rightarrow> instant \<Rightarrow> db_row list" where
  "old_rows date v t cutoff \<equiv> filter (\<lambda>r. date (get_date_column t) r < cutoff) (av_rows v t)"

abbreviation selected_rows :: "archive_config \<Rightarrow> (string \<Rightarrow> db_row \<Rightarrow> instant) \<Rightarrow> archive_view \<Rightarrow> string \<Rightarrow> instant \<Rightarrow> db_row list" where
  "selected_rows C date v t cutoff \<equiv> take (chunk_size C) (sort_key (date (get_date_column t)) (old_rows date v t cutoff))"

lemma archive_table_Some:
  assumes ok: "archive_ok P V date"
    and run: "archive_table K C P uuid now t part cutoff w = (Inr (Some m), w')"
  obtains rs json data where
    "rs = selected_rows C date (V w) t cutoff"
    "dump_rows K (map json_row_of rs) = Inr json" "compress K (service_compression K C) json = Inr data"
    "m = build_metadata K C uuid now t part (length rs) (length json) data"
    "av_objects (V w') = (av_objects (V w))(am_s3_key m \<mapsto> data, metadata_key (am_id m) \<mapsto> dump_metadata K m)"
    "av_rows (V w') = (av_rows (V w))(t := filter (\<lambda>r. \<not> date (get_date_column t) r < cutoff) (av_rows (V w) t))"
proof -
  have "archive_rows K C P uuid now t part cutoff w = (Inr (Some m), w')"
    using run by (auto simp: archive_table_def eff_catch_def eff_return_def split: prod.splits sum.splits)
  then obtain rs w1 json data w2 k w3 where
    q: "select_older P t (get_date_column t) cutoff (chunk_size C) w = (Inr rs, w1)" and
    json: "dump_rows K (map json_row_of rs) = Inr json" and data: "compress K (service_compression K C) json = Inr data" and
    m: "m = build_metadata K C uuid now t part (length rs) (length json) data" and
    up: "upload_archive K P data m w1 = (Inr True, w2)" and
    del: "delete_older P t (get_date_column t) cutoff w2 = (Inr k, w')"
    unfolding archive_rows_def query_records_to_archive_def delete_archived_records_def Let_def
    by (auto simp: eff_Inr_iffs split: if_splits)
  have "V w1 = V w" using archive_okD(1) [OF ok, of t "get_date_column t" cutoff "chunk_size C" w] q by simp
  then show thesis
    using that [OF archive_okD(2) [OF ok q] json data m] upload_archive_True [OF ok up] archive_okD(3) [OF ok del]
    by simp
qed

text \<open>What a successful \<open>archive_table\<close> leaves in the store: the selected rows, all of them, as JSON.\<close>

lemma archive_table_stored:
  assumes ok: "archive_ok P V date" and codecs: "codecs_ok K" and pre: "archive_prefix C = ''archives''"
    and table: "table_ok (av_rows (V w) t)"
    and run: "archive_table K C P uuid now t part cutoff w = (Inr (Some m), w')"
  obtains data json where
    "load_rows K json = Inr (map json_row_of (selected_rows C date (V w) t cutoff))"
    "decompress K (service_compression K C) data = Inr json"
    "archived_rows K C (V w') m = Some (map json_row_of (selected_rows C date (V w) t cutoff))"
    "am_record_count m = length (selected_rows C date (V w) t cutoff)"
    "am_checksum m = sha256 K data" "am_s3_key m \<noteq> metadata_key (am_id m)"
    "av_objects (V w') = (av_objects (V w))(am_s3_key m \<mapsto> data, metadata_key (am_id m) \<mapsto> dump_metadata K m)"
    "av_rows (V w') = (av_rows (V w))(t := filter (\<lambda>r. \<not> date (get_date_column t) r < cutoff) (av_rows (V w) t))"
proof -
  obtain rs json data where
    rs: "rs = selected_rows C date (V w) t cutoff" and
    json: "dump_rows K (map json_row_of rs) = Inr json" "compress K (service_compression K C) json = Inr data" and
    m: "m = build_metadata K C uuid now t part (length rs) (length json) data" and
    obj: "av_objects (V w') = (av_objects (V w))(am_s3_key m \<mapsto> data, metadata_key (am_id m) \<mapsto> dump_metadata K m)" and
    rows: "av_rows (V w') = (av_rows (V w))(t := filter (\<lambda>r. \<not> date (get_date_column t) r < cutoff) (av_rows (V w) t))"
    by (rule archive_table_Some [OF ok run])
  have "set rs \<subseteq> set (av_rows (V w) t)" unfolding rs by (auto dest: in_set_takeD)
  from table_json_wf [OF table this] codecs json(1) have load: "load_rows K json = Inr (map json_row_of rs)"
    by (simp add: codecs_ok_def)
  have dec: "decompress K (service_compression K C) data = Inr json" by (rule decompress_compress [OF codecs json(2)])
  have key: "am_s3_key m \<noteq> metadata_key (am_id m)" unfolding m by (rule metadata_key_other [OF pre])
  have "archived_rows K C (V w') m = Some (map json_row_of rs)"
    by (simp add: archived_rows_def obj key dec load)
  from that [OF load [unfolded rs] dec this [unfolded rs] _ _ key obj rows]
  show thesis by (simp add: m rs build_metadata_def)
qed

lemma mset_take_sub: "mset (take n xs) \<subseteq># mset xs"
  by (metis append_take_drop_id mset_append mset_subset_eq_add_left)

text \<open>Every row of the table older than the cutoff is deleted, but the archive holds only the first \<open>chunk_size\<close> of them by
  date: the excess is deleted without having been archived.\<close>
theorem archive_deletes_beyond_chunk:
  assumes ok: "archive_ok P V date" and codecs: "codecs_ok K" and pre: "archive_prefix C = ''archives''"
    and table: "table_ok (av_rows (V w) t)"
    and run: "archive_table K C P uuid now t part cutoff w = (Inr (Some m), w')"
  shows "let old = filter (\<lambda>r. date (get_date_column t) r < cutoff) (av_rows (V w) t) in
    \<exists>rs. archived_rows K C (V w') m = Some (map json_row_of rs) \<and> mset rs \<subseteq># mset old
      \<and> av_rows (V w') t = filter (\<lambda>r. \<not> date (get_date_column t) r < cutoff) (av_rows (V w) t)
      \<and> size (mset old - mset rs) = length old - chunk_size C"
proof -
  let ?rs = "selected_rows C date (V w) t cutoff" and ?old = "old_rows date (V w) t cutoff"
  have sub: "mset ?rs \<subseteq># mset ?old"
    using mset_take_sub [of "chunk_size C" "sort_key (date (get_date_column t)) ?old"] by (simp del: mset_filter)
  have "size (mset ?old - mset ?rs) = length ?old - chunk_size C"
    using sub by (simp add: size_Diff_submset min_def del: mset_filter)
  with sub show ?thesis
    by (rule_tac archive_table_stored [OF ok codecs pre table run]) (auto simp: Let_def simp del: mset_filter)
qed


text \<open>Nothing but a completed upload lets a row go.\<close>

lemma put_keeps_rows: "archive_ok P V date \<Longrightarrow> av_rows (V (snd (put_object P k d w))) = av_rows (V w)"
  using archive_okD(5,6) [of P V date k d w]
  by (cases "put_object P k d w"; cases "fst (put_object P k d w)") auto

lemma keeps_view:
  assumes "\<And>w. V (snd (m w)) = V w" shows "keeps (\<lambda>w. Q (V w)) m"
  using assms by (simp add: keeps_def)

lemma keeps_on_client_error: "keeps Q m \<Longrightarrow> keeps Q (on_client_error m d)"
  unfolding on_client_error_def by (rule keeps_catch) (auto split: io_error.split)

lemma upload_keeps_rows:
  assumes "archive_ok P V date"
  shows "keeps (\<lambda>w. av_rows (V w) = R) (upload_archive K P data m)"
  unfolding upload_archive_def
  by (intro keeps_on_client_error keeps_then keeps_return; simp add: keeps_def put_keeps_rows [OF assms])

text \<open>C3: Rows leave the database only behind their archive: whatever fails while a table is archived, if the rows of any
  table have changed afterwards then \<open>archive_table\<close> returned metadata, the store holds that metadata, and the object it names
  decodes to all the rows that were selected, in order: the first \<open>chunk_size\<close> by date of the rows of that table older than
  the cutoff, each with its values as JSON has them (a time, a decimal or an identifier as its text, which is what
  \<open>default=str\<close> makes of it). What has left the database is the rows of that table older than the cutoff and no other. With at
  most \<open>chunk_size\<close> of them the archive is complete; what is older than the cutoff beyond \<open>chunk_size\<close> rows is deleted
  without having been archived.\<close>
theorem rows_change_only_archived:
  assumes ok: "archive_ok P V date" and codecs: "codecs_ok K" and pre: "archive_prefix C = ''archives''"
    and table: "table_ok (av_rows (V w) t)"
    and run: "archive_table K C P uuid now t part cutoff w = (r, w')"
    and changed: "av_rows (V w') \<noteq> av_rows (V w)"
  shows "let old = filter (\<lambda>r. date (get_date_column t) r < cutoff) (av_rows (V w) t);
      sel = take (chunk_size C) (sort_key (date (get_date_column t)) old) in
    \<exists>m. r = Inr (Some m)
    \<and> archived_rows K C (V w') m = Some (map json_row_of sel) \<and> am_record_count m = length sel
    \<and> av_objects (V w') (metadata_key (am_id m)) = Some (dump_metadata K m)
    \<and> av_rows (V w') = (av_rows (V w))(t := filter (\<lambda>r. \<not> date (get_date_column t) r < cutoff) (av_rows (V w) t))
    \<and> (length old \<le> chunk_size C \<longrightarrow> mset sel = mset old)"
proof -
  let ?Q = "\<lambda>w1. av_rows (V w1) = av_rows (V w)"
  let ?R = "\<lambda>x. \<exists>m. x = Inr (Some m)"
  have sel: "keeps ?Q (query_records_to_archive C P t cutoff)"
    unfolding query_records_to_archive_def
    by (rule keeps_view [where Q = "\<lambda>v. av_rows v = av_rows (V w)"]) (rule archive_okD(1) [OF ok])
  have del: "keeps_unless ?Q ?R (eff_then (delete_archived_records P t cutoff) (eff_return (Some m)))" for m
    unfolding keeps_unless_def delete_archived_records_def
    using archive_okD(4) [OF ok] by (auto simp: eff_defs split: prod.split sum.split)
  have "keeps_unless ?Q ?R (archive_rows K C P uuid now t part cutoff)"
    unfolding archive_rows_def Let_def
    by (intro keeps_unless_bind sel upload_keeps_rows [OF ok] keeps_lift)
      (auto intro!: keeps_unless_bind sel upload_keeps_rows [OF ok] keeps_lift keeps_unlessI [OF keeps_return] del)
  then have "?Q (snd (archive_rows K C P uuid now t part cutoff w)) \<or> ?R (fst (archive_rows K C P uuid now t part cutoff w))"
    by (simp add: keeps_unless_def)
  then obtain m where m: "r = Inr (Some m)"
    using run changed by (auto simp: archive_table_def eff_catch_def eff_return_def split: prod.splits sum.splits)
  have "mset (selected_rows C date (V w) t cutoff) = mset (old_rows date (V w) t cutoff)"
    if "length (old_rows date (V w) t cutoff) \<le> chunk_size C"
    using that by (simp del: mset_filter)
  with m show ?thesis
    by (rule_tac archive_table_stored [OF ok codecs pre table run [unfolded m]]) (auto simp: Let_def simp del: mset_filter)
qed


section \<open>Restoring\<close>









section \<open>Expiry\<close>

text \<open>A key of the store is expired at \<open>now\<close> when it belongs to an archive whose stored metadata says that
  its retention has ended.\<close>

definition expired_key :: "codecs \<Rightarrow> archive_view \<Rightarrow> instant \<Rightarrow> string \<Rightarrow> bool" where
  "expired_key K v now k \<longleftrightarrow> (\<exists>i d m t. av_objects v (metadata_key i) = Some d \<and> load_metadata K d = Inr m
     \<and> fromisoformat K (am_retention_until m) = Inr t \<and> t < now \<and> k \<in> {am_s3_key m, metadata_key (am_id m)})"

definition only_expired_gone :: "codecs \<Rightarrow> archive_view \<Rightarrow> instant \<Rightarrow> archive_view \<Rightarrow> bool" where
  "only_expired_gone K v0 now v \<longleftrightarrow> av_rows v = av_rows v0 \<and>
     (\<forall>k. av_objects v k = av_objects v0 k \<or> (av_objects v k = None \<and> expired_key K v0 now k))"

definition stored_metadata :: "codecs \<Rightarrow> archive_view \<Rightarrow> archive_metadata \<Rightarrow> bool" where
  "stored_metadata K v m \<longleftrightarrow> (\<exists>i d. av_objects v (metadata_key i) = Some d \<and> load_metadata K d = Inr m)"

lemma get_metadata_view:
  assumes ok: "archive_ok P V date" and run: "get_metadata K P i w = (r, w')"
  shows "V w' = V w" "r = Inr (Some m) \<Longrightarrow> stored_metadata K (V w) m"
proof -
  have v: "V (snd (get_object P (metadata_key i) w)) = V w" by (rule archive_okD(7) [OF ok])
  show "V w' = V w"
    using run v unfolding get_metadata_def on_client_error_def
    by (auto simp: eff_defs split: prod.splits sum.splits io_error.splits)
  assume "r = Inr (Some m)"
  then obtain d w1 where "get_object P (metadata_key i) w = (Inr d, w1)" "load_metadata K d = Inr m"
    using run unfolding get_metadata_def on_client_error_def
    by (auto simp: eff_defs split: prod.splits sum.splits io_error.splits)
  then show "stored_metadata K (V w) m"
    using archive_okD(8) [OF ok] unfolding stored_metadata_def by blast
qed

lemma collect_metadata_view:
  assumes ok: "archive_ok P V date"
  shows "collect_metadata K P keys w = (r, w') \<Longrightarrow>
     V w' = V w \<and> (\<forall>ms. r = Inr ms \<longrightarrow> (\<forall>m \<in> set ms. stored_metadata K (V w) m))"
proof (induction keys arbitrary: w r w')
  case (Cons key keys)
  show ?case
  proof (cases "length (split_on (CHR ''/'') key) \<ge> 4")
    case True
    obtain x w1 where g: "get_metadata K P (before (CHR ''.'') (last (split_on (CHR ''/'') key))) w = (x, w1)"
      by (cases "get_metadata K P (before (CHR ''.'') (last (split_on (CHR ''/'') key))) w")
    note gv = get_metadata_view [OF ok g]
    obtain y w2 where c: "collect_metadata K P keys w1 = (y, w2)" by (cases "collect_metadata K P keys w1")
    note ih = Cons.IH [OF c]
    show ?thesis
      using Cons.prems True gv ih
      by (cases x; cases y) (auto simp: Let_def eff_defs g c split: option.splits)
  next
    case False
    then show ?thesis using Cons by (simp add: Let_def)
  qed
qed (simp add: eff_return_def)

lemma list_archives_view: "archive_ok P V date \<Longrightarrow> V (snd (list_archives P pre w)) = V w"
  using archive_okD(11) [of P V date pre max_keys w]
  unfolding list_archives_def on_client_error_def
  by (auto simp: eff_defs split: prod.split sum.split io_error.split option.split)

lemma list_for_table_view:
  assumes ok: "archive_ok P V date" and run: "list_archives_for_table K C P t w = (r, w')"
  shows "V w' = V w \<and> (\<forall>ms. r = Inr ms \<longrightarrow> (\<forall>m \<in> set ms. stored_metadata K (V w) m))"
proof -
  obtain x w1 where l: "list_archives P (archive_prefix C @ ''/'' @ t @ ''/'') w = (x, w1)"
    by (cases "list_archives P (archive_prefix C @ ''/'' @ t @ ''/'') w")
  have v: "V w1 = V w" using list_archives_view [OF ok, of "archive_prefix C @ ''/'' @ t @ ''/''" w] l by simp
  show ?thesis
  proof (cases x)
    case (Inr keys)
    then have "collect_metadata K P keys w1 = (r, w')"
      using run l by (simp add: list_archives_for_table_def eff_bind_def)
    from collect_metadata_view [OF ok this] v show ?thesis by simp
  qed (use run l v in \<open>auto simp: list_archives_for_table_def eff_bind_def\<close>)
qed

lemma stored_before: "only_expired_gone K v0 now v \<Longrightarrow> stored_metadata K v m \<Longrightarrow> stored_metadata K v0 m"
  unfolding only_expired_gone_def stored_metadata_def by (metis option.distinct(1))

lemma delete_object_gone:
  assumes "archive_ok P V date" "expired_key K v0 now k"
  shows "keeps (\<lambda>w. only_expired_gone K v0 now (V w)) (delete_object P k)"
proof (rule keepsI)
  fix w r w' assume "only_expired_gone K v0 now (V w)" "delete_object P k w = (r, w')"
  then show "only_expired_gone K v0 now (V w')"
    using archive_okD(9,10) [OF assms(1), of k w] assms(2)
    by (cases r) (auto simp: only_expired_gone_def)
qed

lemma delete_archive_gone:
  assumes ok: "archive_ok P V date" and m: "stored_metadata K v0 m"
    and t: "fromisoformat K (am_retention_until m) = Inr t" "t < now"
  shows "keeps (\<lambda>w. only_expired_gone K v0 now (V w)) (delete_archive P (am_s3_key m) (am_id m))"
proof -
  have "expired_key K v0 now (am_s3_key m)" "expired_key K v0 now (metadata_key (am_id m))"
    using m t unfolding stored_metadata_def expired_key_def by blast+
  then show ?thesis
    unfolding delete_archive_def
    by (intro keeps_on_client_error keeps_then keeps_return delete_object_gone [OF ok])
qed

lemma delete_expired_in_gone:
  assumes ok: "archive_ok P V date" and "\<forall>m \<in> set ms. stored_metadata K v0 m"
  shows "keeps (\<lambda>w. only_expired_gone K v0 now (V w)) (delete_expired_in K P now ms n)"
  using assms(2)
proof (induction ms arbitrary: n)
  case (Cons m ms)
  show ?case
  proof (cases "fromisoformat K (am_retention_until m)")
    case (Inl e)
    then show ?thesis by (simp add: keeps_def eff_bind_def eff_lift_def)
  next
    case (Inr t)
    have "keeps (\<lambda>w. only_expired_gone K v0 now (V w)) (if now > t
       then eff_bind (delete_archive P (am_s3_key m) (am_id m)) (\<lambda>ok. delete_expired_in K P now ms (if ok then n + 1 else n))
       else delete_expired_in K P now ms n)"
      using Cons delete_archive_gone [OF ok _ Inr] by (auto intro!: keeps_bind)
    then show ?thesis by (simp add: keeps_def eff_bind_def eff_lift_def Inr)
  qed
qed (simp add: keeps_return)

lemma delete_expired_tables_gone:
  assumes ok: "archive_ok P V date"
  shows "keeps (\<lambda>w. only_expired_gone K v0 now (V w)) (delete_expired_tables K C P now ts n)"
proof (induction ts arbitrary: n)
  case (Cons t ts)
  show ?case
  proof (rule keepsI)
    fix w r w'
    assume inv: "only_expired_gone K v0 now (V w)" and run: "delete_expired_tables K C P now (t # ts) n w = (r, w')"
    obtain x w1 where l: "list_archives_for_table K C P t w = (x, w1)" by (cases "list_archives_for_table K C P t w")
    note lv = list_for_table_view [OF ok l]
    show "only_expired_gone K v0 now (V w')"
    proof (cases x)
      case (Inl e)
      then show ?thesis using run l lv inv by (simp add: eff_bind_def)
    next
      case (Inr ms)
      have "\<forall>m \<in> set ms. stored_metadata K v0 m" using lv Inr stored_before [OF inv] by blast
      then have "keeps (\<lambda>w. only_expired_gone K v0 now (V w))
          (eff_bind (delete_expired_in K P now ms n) (\<lambda>k. delete_expired_tables K C P now ts k))"
        by (intro keeps_bind delete_expired_in_gone [OF ok] Cons.IH)
      moreover have "eff_bind (delete_expired_in K P now ms n) (\<lambda>k. delete_expired_tables K C P now ts k) w1 = (r, w')"
        using run l Inr by (simp add: eff_bind_def)
      ultimately show ?thesis using lv inv by (metis keepsD)
    qed
  qed
qed (simp add: keeps_return)

text \<open>C13: Expiry deletes nothing that is still to be kept: whatever happens during
  \<open>delete_expired_archives\<close>, exceptions included, the database is untouched and an object is gone
  afterwards only if it belonged to an archive whose stored metadata gives a retention that ended
  before now.\<close>
theorem expiry_deletes_only_expired:
  assumes ok: "archive_ok P V date" and run: "delete_expired_archives K C P now w = (r, w')"
  shows "av_rows (V w') = av_rows (V w)
    \<and> (\<forall>k. av_objects (V w') k = av_objects (V w) k
         \<or> (av_objects (V w') k = None \<and> expired_key K (V w) now k))"
proof -
  have "only_expired_gone K (V w) now (V w)" by (simp add: only_expired_gone_def)
  then have "only_expired_gone K (V w) now (V w')"
    by (rule keepsD [OF delete_expired_tables_gone [OF ok] _ run [unfolded delete_expired_archives_def]])
  then show ?thesis by (simp add: only_expired_gone_def)
qed


section \<open>A store in memory\<close>

text \<open>For the instances: a row has a letter and the text of a time, and is dated by the code of its letter. JSON is stood for by
  the letters of the rows, read back as they were written.\<close>

definition letter_row :: "char \<Rightarrow> db_row" where
  "letter_row c = [(''c'', Plain (PStr [c])), (''created_at'', Foreign [c])]"

definition row_date :: "string \<Rightarrow> db_row \<Rightarrow> instant" where
  "row_date c r = (case map_of r ''created_at'' of Some (Foreign (x # _)) \<Rightarrow> of_nat (char_code x) | _ \<Rightarrow> 0)"

definition letter_of :: "json_row \<Rightarrow> char" where
  "letter_of r = (case map_of r ''c'' of Some (PStr (x # _)) \<Rightarrow> x | _ \<Rightarrow> CHR ''?'')"

definition json_letter :: "char \<Rightarrow> json_row" where
  "json_letter c = [(''c'', PStr [c]), (''created_at'', PStr [c])]"

definition dump_letters :: "json_row list \<Rightarrow> io_error + string" where
  "dump_letters rs = (if map json_letter (map letter_of rs) = rs then Inr (map letter_of rs) else Inl (OtherError ''row''))"

definition archive_memory :: "archive_view archive_ports" where
  "archive_memory =
    \<lparr>select_older = (\<lambda>t c b n. eff_gets (\<lambda>v. take n (sort_key (row_date c) (filter (\<lambda>r. row_date c r < b) (av_rows v t))))),
     delete_older = (\<lambda>t c b v. (Inr (int (length (filter (\<lambda>r. row_date c r < b) (av_rows v t)))),
        v\<lparr>av_rows := (av_rows v)(t := filter (\<lambda>r. \<not> row_date c r < b) (av_rows v t))\<rparr>)),
     insert_row = (\<lambda>t cs vs v. (Inr 1, v\<lparr>av_rows := (av_rows v)(t := av_rows v t @ [zip cs (map Plain vs)])\<rparr>)),
     commit_rows = eff_return (),
     put_object = (\<lambda>k d. eff_modify (\<lambda>v. v\<lparr>av_objects := (av_objects v)(k \<mapsto> d)\<rparr>)),
     get_object = (\<lambda>k v. (case av_objects v k of None \<Rightarrow> (Inl (ClientError ''NoSuchKey''), v) | Some d \<Rightarrow> (Inr d, v))),
     delete_object = (\<lambda>k. eff_modify (\<lambda>v. v\<lparr>av_objects := (av_objects v)(k := None)\<rparr>)),
     list_objects = (\<lambda>p n. eff_return (Some [''archives/t/p/u.none''])),
     object_size = (\<lambda>k. eff_return 0)\<rparr>"

definition memory_config :: "nat \<Rightarrow> archive_config" where
  "memory_config n = default_archive_config\<lparr>ac_compression := NONE, chunk_size := n, tables_to_archive := [''t'']\<rparr>"

definition memory_codecs :: "archive_metadata \<Rightarrow> instant \<Rightarrow> codecs" where
  "memory_codecs m t = \<lparr>zstd_available = False, gzip_pack = (\<lambda>_. Inr), gzip_unpack = Inr, zstd_pack = (\<lambda>_. Inr),
     zstd_unpack = Inr, sha256 = id, dump_rows = dump_letters, load_rows = (\<lambda>x. Inr (map json_letter x)), dump_metadata = (\<lambda>_. ''m''),
     load_metadata = (\<lambda>_. Inr m), isoformat = (\<lambda>_. ''iso''), fromisoformat = (\<lambda>_. Inr t)\<rparr>"

definition sample_rows :: archive_view where
  "sample_rows = \<lparr>av_rows = (\<lambda>_. map letter_row ''bca''), av_objects = (\<lambda>_. None)\<rparr>"

definition sample_metadata :: archive_metadata where
  "sample_metadata = build_metadata (memory_codecs undefined 0) (memory_config 2) ''u'' 0 ''t'' ''p'' 2 2 ''ab''"

lemma archive_memory_ok: "archive_ok archive_memory id row_date"
  by (simp add: archive_ok_def archive_memory_def eff_gets_def eff_return_def split: option.split)

lemma memory_codecs_ok: "codecs_ok (memory_codecs m t)"
  by (simp add: codecs_ok_def memory_codecs_def dump_letters_def)

lemma letter_row_simps [simp]:
  "row_date c (letter_row x) = of_nat (char_code x)" "json_row_of (letter_row x) = json_letter x"
  "letter_of (json_letter x) = x" "json_letter x = json_letter y \<longleftrightarrow> x = y"
  by (auto simp: row_date_def letter_row_def json_row_of_def json_letter_def letter_of_def)

lemma letter_table_ok: "table_ok (map letter_row cs)"
  by (auto simp: table_ok_def letter_row_def list_all_iff comp_def intro!: exI [of _ "[''c'', ''created_at'']"])

lemma sample_selected: "selected_rows (memory_config 2) row_date (id sample_rows) ''t'' 100 = map letter_row ''ab''"
  by (simp add: sample_rows_def memory_config_def char_code_def)

lemma sample_archive:
  "\<exists>w'. archive_table (memory_codecs sample_metadata 5) (memory_config 2) archive_memory ''u'' 0 ''t'' ''p'' 100 sample_rows
     = (Inr (Some sample_metadata), w')"
  by (simp add: archive_table_def archive_rows_def query_records_to_archive_def delete_archived_records_def
      upload_archive_def on_client_error_def eff_defs archive_memory_def sample_rows_def memory_config_def
      default_archive_config_def memory_codecs_def compress_def service_compression_def new_compression_def
      char_code_def Let_def sample_metadata_def build_metadata_def dump_letters_def)

lemma sample_prefix: "archive_prefix (memory_config 2) = ''archives''"
  by (simp add: memory_config_def default_archive_config_def)

lemma sample_table_ok: "table_ok (av_rows (id sample_rows) ''t'')"
  by (simp add: sample_rows_def letter_table_ok del: list.map)

theorem archive_deletes_beyond_chunk_witness:
  "\<exists>w' rs. archive_table (memory_codecs sample_metadata 5) (memory_config 2) archive_memory ''u'' 0 ''t'' ''p'' 100 sample_rows
     = (Inr (Some sample_metadata), w') \<and> length (av_rows sample_rows ''t'') = 3 \<and> av_rows w' ''t'' = []
     \<and> size (mset (map letter_row ''bca'') - mset rs) = 1"
proof -
  obtain w' where run: "archive_table (memory_codecs sample_metadata 5) (memory_config 2) archive_memory ''u'' 0 ''t'' ''p'' 100
      sample_rows = (Inr (Some sample_metadata), w')" using sample_archive by blast
  show ?thesis
    using archive_deletes_beyond_chunk [OF archive_memory_ok memory_codecs_ok sample_prefix sample_table_ok run] run
    by (auto simp: Let_def sample_rows_def char_code_def memory_config_def)
qed

theorem rows_change_only_archived_witness:
  "\<exists>w' m. archive_table (memory_codecs sample_metadata 5) (memory_config 2) archive_memory ''u'' 0 ''t'' ''p'' 100 sample_rows
     = (Inr (Some m), w') \<and> am_record_count m = 2
     \<and> archived_rows (memory_codecs sample_metadata 5) (memory_config 2) w' m = Some (map json_letter ''ab'')"
proof -
  obtain w' where run: "archive_table (memory_codecs sample_metadata 5) (memory_config 2) archive_memory ''u'' 0 ''t'' ''p'' 100
      sample_rows = (Inr (Some sample_metadata), w')" using sample_archive by blast
  have rows: "av_rows (id w') = (av_rows (id sample_rows))(''t'' := [])"
    by (rule archive_table_Some [OF archive_memory_ok run]) (simp add: sample_rows_def char_code_def)
  have "av_rows (id w') \<noteq> av_rows (id sample_rows)"
    using fun_cong [OF rows, of "''t''"] by (auto simp: sample_rows_def)
  from rows_change_only_archived [OF archive_memory_ok memory_codecs_ok sample_prefix sample_table_ok run this] run
  show ?thesis unfolding Let_def sample_selected by auto
qed


theorem expiry_deletes_only_expired_witness:
  "let v = \<lparr>av_rows = (\<lambda>_. [letter_row (CHR ''z'')]), av_objects = [''archives/t/p/u.none'' \<mapsto> ''ab'', metadata_key ''u'' \<mapsto> ''m'', ''other'' \<mapsto> ''x'']\<rparr> in
   av_rows (snd (delete_expired_archives (memory_codecs sample_metadata 5) (memory_config 2) archive_memory 9 v)) = (\<lambda>_. [letter_row (CHR ''z'')])"
proof -
  let ?v = "\<lparr>av_rows = (\<lambda>_. [letter_row (CHR ''z'')]), av_objects = [''archives/t/p/u.none'' \<mapsto> ''ab'', metadata_key ''u'' \<mapsto> ''m'', ''other'' \<mapsto> ''x'']\<rparr>"
  let ?r = "delete_expired_archives (memory_codecs sample_metadata 5) (memory_config 2) archive_memory 9 ?v"
  have "delete_expired_archives (memory_codecs sample_metadata 5) (memory_config 2) archive_memory 9 ?v = (fst ?r, snd ?r)" by simp
  from expiry_deletes_only_expired [OF archive_memory_ok this] show ?thesis unfolding Let_def by auto
qed

end
