(* ===== verification/Atrs.thy ===== *)
theory Atrs
  imports Effects PyText
begin

text \<open>
  The client of the regulator's reporting API, \<open>services/ncc-integration/atrs_client.py\<close>: the OAuth
  token, requests with retry, and the submissions built on them. The HTTP session and its sleeps are
  parameters; an exception of the session is aiohttp's \<open>ClientError\<close>, the \<open>TimeoutError\<close> of its total
  timeout (which is not a \<open>ClientError\<close>), or another.
\<close>

section \<open>Parameters\<close>

datatype http_error = HttpClientError string | HttpTimeout | HttpOther string

datatype atrs_error =
    AtrsClientError string
  | AtrsAuthenticationError string
  | AtrsRateLimitError int
  | Escaped http_error

text \<open>A response: its status, the \<open>X-RateLimit-Reset\<close> header and what decoding its body gives.\<close>

record 'j http_response =
  hr_status_code :: int
  hr_reset :: "int option"
  hr_body :: "http_error + 'j"

record ('w, 'j) atrs_ports =
  post_token :: "('w, http_error, (string \<times> rat option) http_response) eff"
  send_request :: "string \<Rightarrow> string \<Rightarrow> 'j option \<Rightarrow> string \<Rightarrow> ('w, http_error, 'j http_response) eff"
  pause :: "nat \<Rightarrow> 'w \<Rightarrow> 'w"
  clock :: "'w \<Rightarrow> instant"

record atrs_config =
  at_license :: string
  at_max_retries :: nat

record token_state =
  tk_token :: "string option"
  tk_expiry :: "instant option"

type_synonym ('w, 'a) atrs_eff = "(token_state \<times> 'w, atrs_error, 'a) eff"


section \<open>The token\<close>

definition is_token_expired :: "instant \<Rightarrow> token_state \<Rightarrow> bool" where
  "is_token_expired now s =
     (case (tk_token s, tk_expiry s) of
        (Some _, Some e) \<Rightarrow> now \<ge> e - 60
      | _ \<Rightarrow> True)"

text \<open>\<open>raise_for_status\<close> raises from status 400 on.\<close>

definition raises_for_status :: "int \<Rightarrow> bool" where
  "raises_for_status c \<longleftrightarrow> c \<ge> 400"

definition refresh_failed :: "http_error \<Rightarrow> atrs_error" where
  "refresh_failed e =
     (case e of HttpClientError m \<Rightarrow> AtrsAuthenticationError (''Token refresh failed: '' @ m) | _ \<Rightarrow> Escaped e)"

definition refresh_token :: "('w, 'j) atrs_ports \<Rightarrow> ('w, unit) atrs_eff" where
  "refresh_token P s =
     (case s of (tk, w) \<Rightarrow>
      case post_token P w of
        (Inl e, w1) \<Rightarrow> (Inl (refresh_failed e), (tk, w1))
      | (Inr r, w1) \<Rightarrow>
          if hr_status_code r = 401 then (Inl (AtrsAuthenticationError ''Invalid client credentials''), (tk, w1))
          else if raises_for_status (hr_status_code r)
          then (Inl (refresh_failed (HttpClientError ''status'')), (tk, w1))
          else (case hr_body r of
              Inl e \<Rightarrow> (Inl (refresh_failed e), (tk, w1))
            | Inr (t, expires) \<Rightarrow>
                (Inr (), (tk\<lparr>tk_token := Some t,
                             tk_expiry := Some (clock P w1 + (case expires of None \<Rightarrow> 3600 | Some n \<Rightarrow> n))\<rparr>, w1))))"

definition ensure_token :: "('w, 'j) atrs_ports \<Rightarrow> ('w, string) atrs_eff" where
  "ensure_token P s =
     (if is_token_expired (clock P (snd s)) (fst s)
      then case refresh_token P s of (Inl e, s1) \<Rightarrow> (Inl e, s1)
           | (Inr _, s1) \<Rightarrow> (Inr (the (tk_token (fst s1))), s1)
      else (Inr (the (tk_token (fst s))), s))"


section \<open>Requests\<close>

text \<open>What the caller of one attempt does next: return, raise, or try again.\<close>

datatype 'j attempt_end = Answer 'j | Fail atrs_error | Again_now | Client_error string

definition judge :: "nat \<Rightarrow> 'j http_response \<Rightarrow> 'j attempt_end" where
  "judge retry_count r =
     (if hr_status_code r = 429 then Fail (AtrsRateLimitError (case hr_reset r of None \<Rightarrow> 0 | Some n \<Rightarrow> n))
      else if hr_status_code r = 401
      then if retry_count = 0 then Again_now else Fail (AtrsAuthenticationError ''Authentication failed'')
      else if raises_for_status (hr_status_code r) then Client_error ''status''
      else case hr_body r of
             Inr j \<Rightarrow> Answer j
           | Inl (HttpClientError m) \<Rightarrow> Client_error m
           | Inl e \<Rightarrow> Fail (Escaped e))"

definition judge_error :: "http_error \<Rightarrow> 'j attempt_end" where
  "judge_error e = (case e of HttpClientError m \<Rightarrow> Client_error m | _ \<Rightarrow> Fail (Escaped e))"

definition attempt_once ::
  "('w, 'j) atrs_ports \<Rightarrow> string \<Rightarrow> string \<Rightarrow> 'j option \<Rightarrow> string \<Rightarrow> nat \<Rightarrow> 'w \<Rightarrow> 'j attempt_end \<times> 'w" where
  "attempt_once P meth endpoint body token retry_count w =
     (case send_request P meth endpoint body token w of
        (Inl e, w1) \<Rightarrow> (judge_error e, w1)
      | (Inr r, w1) \<Rightarrow> (judge retry_count r, w1))"

function atrs_request ::
  "atrs_config \<Rightarrow> ('w, 'j) atrs_ports \<Rightarrow> string \<Rightarrow> string \<Rightarrow> 'j option \<Rightarrow> nat \<Rightarrow> ('w, 'j) atrs_eff" where
  "atrs_request C P meth endpoint body retry_count s =
     (case ensure_token P s of
        (Inl e, s1) \<Rightarrow> (Inl e, s1)
      | (Inr token, (tk, w1)) \<Rightarrow>
          case attempt_once P meth endpoint body token retry_count w1 of
            (Answer j, w2) \<Rightarrow> (Inr j, (tk, w2))
          | (Fail e, w2) \<Rightarrow> (Inl e, (tk, w2))
          | (Again_now, w2) \<Rightarrow>
              if retry_count = 0
              then atrs_request C P meth endpoint body (Suc retry_count) (tk\<lparr>tk_token := None\<rparr>, w2)
              else (Inl (AtrsAuthenticationError ''Authentication failed''), (tk, w2))
          | (Client_error m, w2) \<Rightarrow>
              if retry_count < at_max_retries C
              then atrs_request C P meth endpoint body (Suc retry_count) (tk, pause P (2 ^ retry_count) w2)
              else (Inl (AtrsClientError (''Request failed after '' @ show_nat retry_count @ '' retries: '' @ m)),
                    (tk, w2)))"
  by pat_completeness auto

termination
  by (relation "measure (\<lambda>(C, P, meth, endpoint, body, retry_count, s). Suc (at_max_retries C) - retry_count)") auto

declare atrs_request.simps [simp del]


section \<open>Submissions\<close>

record incident =
  in_type :: string
  in_severity :: string
  in_detected_at :: string
  in_b_number :: string
  in_a_numbers :: "string list"
  in_window_ms :: int
  in_source_ips :: "string list option"
  in_actions :: "string list option"
  in_metadata :: "py_val option"

definition strs :: "string list \<Rightarrow> py_val" where
  "strs ss = PList (map PStr ss)"

definition nonempty :: "'a list option \<Rightarrow> bool" where
  "nonempty v \<longleftrightarrow> (case v of None \<Rightarrow> False | Some xs \<Rightarrow> xs \<noteq> [])"

definition incident_payload :: "incident \<Rightarrow> (string, py_val) dict" where
  "incident_payload i =
     [(''incident_type'', PStr (in_type i)), (''severity'', PStr (in_severity i)),
      (''detected_at'', PStr (in_detected_at i @ ''Z'')), (''b_number'', PStr (in_b_number i)),
      (''a_numbers'', strs (take 100 (in_a_numbers i))), (''detection_window_ms'', PInt (in_window_ms i))]
     @ (if nonempty (in_source_ips i) then [(''source_ips'', strs (the (in_source_ips i)))] else [])
     @ [(''actions_taken'', if nonempty (in_actions i) then strs (the (in_actions i)) else strs [''ALERT_GENERATED''])]
     @ (case in_metadata i of Some (PDict (kv # kvs)) \<Rightarrow> [(''metadata'', PDict (kv # kvs))] | _ \<Rightarrow> [])"

definition submit_incident :: "atrs_config \<Rightarrow> ('w, py_val) atrs_ports \<Rightarrow> incident \<Rightarrow> ('w, py_val) atrs_eff" where
  "submit_incident C P i = atrs_request C P ''POST'' ''/fraud/incidents'' (Some (PDict (incident_payload i))) 0"

definition get_incident :: "atrs_config \<Rightarrow> ('w, py_val) atrs_ports \<Rightarrow> string \<Rightarrow> ('w, py_val) atrs_eff" where
  "get_incident C P i = atrs_request C P ''GET'' (''/fraud/incidents/'' @ i) None 0"

definition submit_daily_report ::
  "atrs_config \<Rightarrow> ('w, py_val) atrs_ports \<Rightarrow> string \<Rightarrow> py_val \<Rightarrow> py_val list \<Rightarrow> string \<Rightarrow> ('w, py_val) atrs_eff" where
  "submit_daily_report C P day stats targets checksum =
     atrs_request C P ''POST'' ''/compliance/reports/daily''
       (Some (PDict [(''report_date'', PStr day), (''icl_license'', PStr (at_license C)), (''statistics'', stats),
          (''top_targeted_numbers'', PList targets), (''checksum'', PStr checksum)])) 0"

definition submit_monthly_report ::
  "atrs_config \<Rightarrow> ('w, py_val) atrs_ports \<Rightarrow> string \<Rightarrow> string \<Rightarrow> py_val \<Rightarrow> py_val \<Rightarrow> py_val list option \<Rightarrow> ('w, py_val) atrs_eff" where
  "submit_monthly_report C P month text stats trend attachments =
     atrs_request C P ''POST'' ''/compliance/reports/monthly''
       (Some (PDict ([(''report_month'', PStr month), (''icl_license'', PStr (at_license C)),
          (''executive_summary'', PStr text), (''statistics'', stats), (''trend_analysis'', trend)]
          @ (if nonempty attachments then [(''attachments'', PList (the attachments))] else [])))) 0"

definition atrs_health_check :: "atrs_config \<Rightarrow> ('w, py_val) atrs_ports \<Rightarrow> token_state \<times> 'w \<Rightarrow> bool \<times> (token_state \<times> 'w)" where
  "atrs_health_check C P s =
     (case atrs_request C P ''GET'' ''/health'' None 0 s of (Inl _, s1) \<Rightarrow> (False, s1) | (Inr _, s1) \<Rightarrow> (True, s1))"


section \<open>Counting attempts\<close>

text \<open>\<open>sent w\<close> is how many API requests the world has seen: one more per request sent, whatever its outcome,
  and none for a token refresh or a pause.\<close>

definition counts_requests :: "('w, 'j) atrs_ports \<Rightarrow> ('w \<Rightarrow> nat) \<Rightarrow> bool" where
  "counts_requests P sent \<longleftrightarrow>
     (\<forall>m e b t w. sent (snd (send_request P m e b t w)) = Suc (sent w))
   \<and> (\<forall>w. sent (snd (post_token P w)) = sent w) \<and> (\<forall>n w. sent (pause P n w) = sent w)"

lemma ensure_token_sent:
  assumes "counts_requests P sent" "ensure_token P (tk, w) = (r, (tk1, w1))"
  shows "sent w1 = sent w"
proof -
  have "sent (snd (post_token P w)) = sent w" using assms(1) by (simp add: counts_requests_def)
  then show ?thesis using assms(2)
    by (auto simp: ensure_token_def refresh_token_def Let_def split: if_splits prod.splits sum.splits)
qed

lemma ensure_token_error: "ensure_token P s = (Inl e, s1) \<Longrightarrow> e \<noteq> AtrsClientError msg"
  by (auto simp: ensure_token_def refresh_token_def refresh_failed_def
      split: if_splits prod.splits sum.splits http_error.splits)

lemma attempt_once_fail: "attempt_once P m e b t k w = (Fail x, w1) \<Longrightarrow> x \<noteq> AtrsClientError msg"
  by (auto simp: attempt_once_def judge_def judge_error_def split: prod.splits sum.splits if_splits http_error.splits)

lemma attempt_once_sent:
  "counts_requests P sent \<Longrightarrow> attempt_once P m e b t k w = (x, w1) \<Longrightarrow> sent w1 = Suc (sent w)"
  by (auto simp: counts_requests_def attempt_once_def split: prod.splits sum.splits dest: spec)
    (metis snd_conv)+

lemma judge_again: "attempt_once P m e b t k w = (Again_now, w1) \<Longrightarrow> k = 0"
  by (auto simp: attempt_once_def judge_def judge_error_def split: prod.splits sum.splits if_splits http_error.splits)

text \<open>The fresh requests left at a given retry count.\<close>

definition attempts_left :: "atrs_config \<Rightarrow> nat \<Rightarrow> nat" where
  "attempts_left C k = Suc (max 1 (at_max_retries C)) - k"

lemma request_sent:
  assumes "counts_requests P sent" "k \<le> max 1 (at_max_retries C)"
    and "atrs_request C P m e b k (tk, w) = (r, (tk', w'))"
  shows "sent w' \<le> sent w + attempts_left C k"
    and "r = Inl (AtrsClientError msg) \<Longrightarrow> sent w + Suc (at_max_retries C) \<le> sent w' + k"
proof -
  have "sent w' \<le> sent w + attempts_left C k
      \<and> (\<forall>msg. r = Inl (AtrsClientError msg) \<longrightarrow> sent w + Suc (at_max_retries C) \<le> sent w' + k)"
    using assms(2,3)
  proof (induction "Suc (at_max_retries C) - k" arbitrary: k tk w rule: less_induct)
    case less
    obtain x tk1 w1 where tok: "ensure_token P (tk, w) = (x, (tk1, w1))" by (cases "ensure_token P (tk, w)") auto
    note s1 = ensure_token_sent [OF assms(1) tok]
    show ?case
    proof (cases x)
      case (Inl err)
      then have "r = Inl err" "w' = w1"
        using less.prems(2) tok by (simp_all add: atrs_request.simps [of C P])
      moreover have "err \<noteq> AtrsClientError msg" for msg
        by (rule ensure_token_error [OF tok [unfolded Inl]])
      ultimately show ?thesis using s1 by simp
    next
      case (Inr token)
      obtain y w2 where at: "attempt_once P m e b token k w1 = (y, w2)" by (cases "attempt_once P m e b token k w1")
      note s2 = attempt_once_sent [OF assms(1) at]
      have left: "1 \<le> attempts_left C k" using less.prems(1) by (simp add: attempts_left_def)
      show ?thesis
      proof (cases y)
        case (Answer j)
        then show ?thesis using less.prems(2) tok Inr at s1 s2 left by (auto simp: atrs_request.simps [of C P])
      next
        case (Fail err)
        then have "r = Inl err" "w' = w2"
          using less.prems(2) tok Inr at by (simp_all add: atrs_request.simps [of C P])
        moreover have "err \<noteq> AtrsClientError msg" for msg
          by (rule attempt_once_fail [OF at [unfolded Fail]])
        ultimately show ?thesis using s1 s2 left by simp
      next
        case Again_now
        have k: "k = 0" by (rule judge_again [OF at [unfolded Again_now]])
        have "sent w' \<le> sent w2 + attempts_left C (Suc k)
            \<and> (\<forall>msg. r = Inl (AtrsClientError msg) \<longrightarrow> sent w2 + Suc (at_max_retries C) \<le> sent w' + Suc k)"
          by (rule less.hyps [of "Suc k" "tk1\<lparr>tk_token := None\<rparr>"])
            (use less.prems(2) tok Inr at Again_now k in \<open>auto simp: atrs_request.simps [of C P m e b 0]\<close>)
        moreover have "attempts_left C k = Suc (attempts_left C (Suc k))"
          using k by (simp add: attempts_left_def)
        ultimately show ?thesis using s1 s2 k by simp
      next
        case (Client_error msg)
        show ?thesis
        proof (cases "k < at_max_retries C")
          case True
          have "sent w' \<le> sent (pause P (2 ^ k) w2) + attempts_left C (Suc k)
            \<and> (\<forall>msg. r = Inl (AtrsClientError msg) \<longrightarrow>
                sent (pause P (2 ^ k) w2) + Suc (at_max_retries C) \<le> sent w' + Suc k)"
            by (rule less.hyps [of "Suc k" tk1])
              (use less.prems(2) tok Inr at Client_error True in \<open>auto simp: atrs_request.simps [of C P m e b k]\<close>)
          moreover have "sent (pause P (2 ^ k) w2) = sent w2" using assms(1) by (simp add: counts_requests_def)
          moreover have "attempts_left C k = Suc (attempts_left C (Suc k))"
            using True by (simp add: attempts_left_def)
          ultimately show ?thesis using s1 s2 by simp
        next
          case False
          then show ?thesis
            using less.prems tok Inr at Client_error s1 s2 left by (auto simp: atrs_request.simps [of C P m e b k])
        qed
      qed
    qed
  qed
  then show "sent w' \<le> sent w + attempts_left C k"
    and "r = Inl (AtrsClientError msg) \<Longrightarrow> sent w + Suc (at_max_retries C) \<le> sent w' + k" by auto
qed


text \<open>C25: The retry policy is bounded and not lazy: one call makes at most one request more than the
  configured retries (two when no retry is configured, for a refused token), and it reports
  \<open>AtrsClientError\<close> only after it has made at least as many.\<close>
theorem atrs_retry_policy:
  assumes "counts_requests P sent"
    and "atrs_request C P m e b 0 (tk, w) = (r, (tk', w'))"
  shows "sent w' \<le> sent w + max 1 (at_max_retries C) + 1
    \<and> (\<forall>msg. r = Inl (AtrsClientError msg) \<longrightarrow> sent w + at_max_retries C + 1 \<le> sent w')"
  using request_sent(1) [OF assms(1) _ assms(2)] request_sent(2) [OF assms(1) _ assms(2)]
  by (auto simp: attempts_left_def)

text \<open>A world for the instances: it counts its requests and fails them all with one error.\<close>

definition failing_api :: "http_error \<Rightarrow> (nat, py_val) atrs_ports" where
  "failing_api e =
    \<lparr>post_token = (\<lambda>n. (Inr \<lparr>hr_status_code = 200, hr_reset = None, hr_body = Inr (''tok'', None)\<rparr>, n)),
     send_request = (\<lambda>m ep b t n. (Inl e, Suc n)), pause = (\<lambda>_ n. n), clock = (\<lambda>_. 0)\<rparr>"

lemma failing_api_counts: "counts_requests (failing_api e) id"
  by (simp add: counts_requests_def failing_api_def)

theorem atrs_retry_policy_witness:
  "\<exists>r tk w. atrs_request \<lparr>at_license = ''l'', at_max_retries = 3\<rparr> (failing_api (HttpClientError ''x'')) ''GET'' ''/'' None 0
      (\<lparr>tk_token = None, tk_expiry = None\<rparr>, 0) = (r, (tk, w)) \<and> w \<le> 4"
proof -
  let ?run = "atrs_request \<lparr>at_license = ''l'', at_max_retries = 3\<rparr> (failing_api (HttpClientError ''x'')) ''GET'' ''/'' None 0
      (\<lparr>tk_token = None, tk_expiry = None\<rparr>, 0)"
  obtain r tk w where run: "?run = (r, (tk, w))" by (cases ?run) auto
  then show ?thesis using atrs_retry_policy [OF failing_api_counts run] by auto
qed

text \<open>A request that times out is neither retried nor turned into the error the documentation promises:
  the session's \<open>TimeoutError\<close> leaves the client after one request.\<close>
theorem atrs_timeout_escapes:
  assumes "\<not> is_token_expired (clock P w) tk" "send_request P m e b (the (tk_token tk)) w = (Inl HttpTimeout, w')"
  shows "atrs_request C P m e b k (tk, w) = (Inl (Escaped HttpTimeout), (tk, w'))"
  using assms by (simp add: atrs_request.simps [of C P] ensure_token_def attempt_once_def judge_error_def)

lemma incident_payload_bounded:
  "dict_get (incident_payload i) ''a_numbers'' = Some (strs (take 100 (in_a_numbers i)))"
  by (simp add: incident_payload_def dict_get_def)

end
