(* ===== verification/Settings.thy ===== *)
theory Settings
  imports Archival Atrs
begin

text \<open>
  Settings read from the environment: \<open>config.py\<close> of the integration with the regulator, of the archival service and of the
  machine-learning pipeline. The environment is a parameter; a value that is no number is the \<open>ValueError\<close> of \<open>int\<close>, one that
  names no member that of an enumeration.
\<close>

type_synonym environment = "string \<Rightarrow> string option"

definition getenv :: "environment \<Rightarrow> string \<Rightarrow> string \<Rightarrow> string" where
  "getenv env n d = (case env n of Some v \<Rightarrow> v | None \<Rightarrow> d)"

definition env_int :: "environment \<Rightarrow> string \<Rightarrow> string \<Rightarrow> string + int" where
  "env_int env n d = (case py_int (getenv env n d) of Some i \<Rightarrow> Inr i | None \<Rightarrow> Inl ''ValueError'')"

text \<open>\<open>os.getenv(n, d).lower() == "true"\<close>.\<close>

definition env_flag :: "environment \<Rightarrow> string \<Rightarrow> string \<Rightarrow> bool" where
  "env_flag env n d \<longleftrightarrow> py_lower (getenv env n d) = ''true''"

definition and_then :: "string + 'a \<Rightarrow> ('a \<Rightarrow> string + 'b) \<Rightarrow> string + 'b" where
  "and_then r f = (case r of Inl e \<Rightarrow> Inl e | Inr x \<Rightarrow> f x)"

record db_settings =
  db_host :: string
  db_port :: int
  db_name :: string
  db_user :: string
  db_password :: string


section \<open>The regulator's services\<close>

record atrs_settings =
  as_base_url :: string
  as_client_id :: string
  as_client_secret :: string
  as_license :: string
  as_timeout :: int
  as_max_retries :: int

definition atrs_from_env :: "environment \<Rightarrow> string + atrs_settings" where
  "atrs_from_env env =
     and_then (env_int env ''NCC_TIMEOUT'' ''30'') (\<lambda>t.
     and_then (env_int env ''NCC_MAX_RETRIES'' ''3'') (\<lambda>r.
       Inr \<lparr>as_base_url = (if getenv env ''NCC_ENVIRONMENT'' ''sandbox'' = ''production'' then ''https://atrs-api.ncc.gov.ng/v2''
                            else ''https://atrs-sandbox.ncc.gov.ng/v2''),
            as_client_id = getenv env ''NCC_CLIENT_ID'' [], as_client_secret = getenv env ''NCC_CLIENT_SECRET'' [],
            as_license = getenv env ''NCC_ICL_LICENSE'' ''ICL-NG-2025-001234'', as_timeout = t, as_max_retries = r\<rparr>))"

text \<open>What the client of the API uses of it.\<close>

definition client_config :: "atrs_settings \<Rightarrow> atrs_config" where
  "client_config s = \<lparr>at_license = as_license s, at_max_retries = nat (as_max_retries s)\<rparr>"

record sftp_settings =
  sf_host :: string
  sf_port :: int
  sf_user :: string
  sf_key_path :: string
  sf_remote_path :: string

definition sftp_from_env :: "environment \<Rightarrow> string + sftp_settings" where
  "sftp_from_env env =
     and_then (env_int env ''NCC_SFTP_PORT'' ''22'') (\<lambda>p.
       Inr \<lparr>sf_host = getenv env ''NCC_SFTP_HOST'' ''sftp.ncc.gov.ng'', sf_port = p, sf_user = getenv env ''NCC_SFTP_USER'' ''ncc_upload'',
            sf_key_path = getenv env ''NCC_SFTP_KEY_PATH'' ''/etc/ncc/id_rsa'',
            sf_remote_path = ''/incoming/'' @ getenv env ''NCC_ICL_LICENSE'' ''ICL-NG-2025-001234'' @ ''/daily/''\<rparr>)"

definition ncc_db_from_env :: "environment \<Rightarrow> string + db_settings" where
  "ncc_db_from_env env =
     and_then (env_int env ''POSTGRES_PORT'' ''5432'') (\<lambda>p.
       Inr \<lparr>db_host = getenv env ''POSTGRES_HOST'' ''localhost'', db_port = p, db_name = getenv env ''POSTGRES_DB'' ''voxguard'',
            db_user = getenv env ''POSTGRES_USER'' ''postgres'', db_password = getenv env ''POSTGRES_PASSWORD'' []\<rparr>)"

definition connection_string :: "db_settings \<Rightarrow> string" where
  "connection_string d =
     ''postgresql://'' @ db_user d @ '':'' @ db_password d @ ''@'' @ db_host d @ '':'' @ show_int (db_port d) @ ''/'' @ db_name d"

record schedule_settings =
  sc_daily_cron :: string
  sc_weekly_cron :: string
  sc_monthly_cron :: string
  sc_timezone :: string

definition schedule_from_env :: "environment \<Rightarrow> schedule_settings" where
  "schedule_from_env env =
     \<lparr>sc_daily_cron = getenv env ''NCC_DAILY_CRON'' ''30 4 * * *'', sc_weekly_cron = getenv env ''NCC_WEEKLY_CRON'' ''0 10 * * MON'',
      sc_monthly_cron = getenv env ''NCC_MONTHLY_CRON'' ''0 15 5 * *'', sc_timezone = getenv env ''NCC_TIMEZONE'' ''Africa/Lagos''\<rparr>"

record compliance_settings =
  cs_atrs :: atrs_settings
  cs_sftp :: sftp_settings
  cs_database :: db_settings
  cs_schedule :: schedule_settings
  cs_realtime :: bool
  cs_daily :: bool
  cs_weekly :: bool
  cs_monthly :: bool

definition compliance_from_env :: "environment \<Rightarrow> string + compliance_settings" where
  "compliance_from_env env =
     and_then (atrs_from_env env) (\<lambda>a.
     and_then (sftp_from_env env) (\<lambda>s.
     and_then (ncc_db_from_env env) (\<lambda>d.
       Inr \<lparr>cs_atrs = a, cs_sftp = s, cs_database = d, cs_schedule = schedule_from_env env,
            cs_realtime = env_flag env ''NCC_ENABLE_REALTIME'' ''true'', cs_daily = env_flag env ''NCC_ENABLE_DAILY'' ''true'',
            cs_weekly = env_flag env ''NCC_ENABLE_WEEKLY'' ''true'', cs_monthly = env_flag env ''NCC_ENABLE_MONTHLY'' ''true''\<rparr>)))"


section \<open>Archival\<close>

datatype archival_frequency = DAILY | WEEKLY | MONTHLY

fun frequency_value :: "archival_frequency \<Rightarrow> string" where
  "frequency_value DAILY = ''daily''"
| "frequency_value WEEKLY = ''weekly''"
| "frequency_value MONTHLY = ''monthly''"

text \<open>A call of an enumeration looks for the member with a value.\<close>

definition member_of :: "('m \<Rightarrow> string) \<Rightarrow> 'm list \<Rightarrow> string \<Rightarrow> string + 'm" where
  "member_of value_of ms v = (case find (\<lambda>m. value_of m = v) ms of Some m \<Rightarrow> Inr m | None \<Rightarrow> Inl ''ValueError'')"

definition archival_db_from_env :: "environment \<Rightarrow> string + db_settings" where
  "archival_db_from_env env =
     and_then (env_int env ''DB_PORT'' ''5433'') (\<lambda>p.
       Inr \<lparr>db_host = getenv env ''DB_HOST'' ''localhost'', db_port = p, db_name = getenv env ''DB_NAME'' ''acm_db'',
            db_user = getenv env ''DB_USER'' ''admin'', db_password = getenv env ''DB_PASSWORD'' []\<rparr>)"

record s3_settings =
  s3_endpoint :: string
  s3_access_key :: string
  s3_secret_key :: string
  s3_bucket :: string
  s3_region :: string
  s3_use_ssl :: bool

definition s3_from_env :: "environment \<Rightarrow> s3_settings" where
  "s3_from_env env =
     \<lparr>s3_endpoint = getenv env ''S3_ENDPOINT'' ''https://s3.amazonaws.com'', s3_access_key = getenv env ''S3_ACCESS_KEY'' [],
      s3_secret_key = getenv env ''S3_SECRET_KEY'' [], s3_bucket = getenv env ''S3_BUCKET'' ''voxguard-archives'',
      s3_region = getenv env ''S3_REGION'' ''us-east-1'', s3_use_ssl = env_flag env ''S3_USE_SSL'' ''true''\<rparr>"

record archival_settings =
  ar_hot_days :: int
  ar_warm_days :: int
  ar_cold_years :: int
  ar_frequency :: archival_frequency
  ar_compression :: compression_type
  ar_level :: int
  ar_chunk_size :: int
  ar_tables :: "string list"
  ar_cron :: string
  ar_prefix :: string
  ar_metadata_prefix :: string
  ar_max_workers :: int
  ar_batch_timeout :: int
  ar_metrics :: bool
  ar_metrics_port :: int
  ar_gdpr_deletion :: bool
  ar_gdpr_days :: int

text \<open>The fields that are not read keep their defaults.\<close>

definition archival_from_env :: "environment \<Rightarrow> string + archival_settings" where
  "archival_from_env env =
     and_then (env_int env ''ARCHIVAL_HOT_RETENTION_DAYS'' ''90'') (\<lambda>hot.
     and_then (env_int env ''ARCHIVAL_WARM_RETENTION_DAYS'' ''365'') (\<lambda>warm.
     and_then (env_int env ''ARCHIVAL_COLD_RETENTION_YEARS'' ''7'') (\<lambda>cold.
     and_then (member_of frequency_value [DAILY, WEEKLY, MONTHLY] (getenv env ''ARCHIVAL_FREQUENCY'' ''monthly'')) (\<lambda>f.
     and_then (member_of compression_value [GZIP, ZSTD, NONE] (getenv env ''ARCHIVAL_COMPRESSION'' ''zstd'')) (\<lambda>c.
     and_then (env_int env ''ARCHIVAL_COMPRESSION_LEVEL'' ''3'') (\<lambda>lv.
     and_then (env_int env ''ARCHIVAL_CHUNK_SIZE'' ''10000'') (\<lambda>chunk.
     and_then (env_int env ''ARCHIVAL_MAX_WORKERS'' ''4'') (\<lambda>mw.
     and_then (env_int env ''ARCHIVAL_METRICS_PORT'' ''9092'') (\<lambda>mp.
       Inr \<lparr>ar_hot_days = hot, ar_warm_days = warm, ar_cold_years = cold, ar_frequency = f, ar_compression = c, ar_level = lv,
            ar_chunk_size = chunk, ar_tables = tables_to_archive default_archive_config,
            ar_cron = getenv env ''ARCHIVAL_SCHEDULE_CRON'' ''0 2 1 * *'', ar_prefix = ''archives'', ar_metadata_prefix = ''metadata'',
            ar_max_workers = mw, ar_batch_timeout = 300, ar_metrics = env_flag env ''ARCHIVAL_ENABLE_METRICS'' ''true'',
            ar_metrics_port = mp, ar_gdpr_deletion = True, ar_gdpr_days = 2555\<rparr>)))))))))"

text \<open>What the archival service uses of it; a chunk size below zero is not modelled there.\<close>

definition service_config :: "archival_settings \<Rightarrow> archive_config" where
  "service_config s =
     \<lparr>hot_retention_days = ar_hot_days s, cold_retention_years = ar_cold_years s, ac_compression = ar_compression s, ac_level = ar_level s,
      chunk_size = nat (ar_chunk_size s), tables_to_archive = ar_tables s, archive_prefix = ar_prefix s\<rparr>"

record archival_app_settings =
  aa_db :: db_settings
  aa_s3 :: s3_settings
  aa_archival :: archival_settings

definition archival_app_from_env :: "environment \<Rightarrow> string + archival_app_settings" where
  "archival_app_from_env env =
     and_then (archival_db_from_env env) (\<lambda>d.
     and_then (archival_from_env env) (\<lambda>a. Inr \<lparr>aa_db = d, aa_s3 = s3_from_env env, aa_archival = a\<rparr>))"


section \<open>The machine-learning pipeline\<close>

record model_settings =
  mo_registry_path :: string
  mo_active_path :: string
  mo_max_depth :: int
  mo_learning_rate :: rat
  mo_estimators :: int
  mo_subsample :: rat
  mo_colsample :: rat
  mo_lookback_days :: int
  mo_min_samples :: int
  mo_min_auc :: rat
  mo_min_precision :: rat
  mo_min_recall :: rat
  mo_improvement :: rat

definition model_defaults :: model_settings where
  "model_defaults =
     \<lparr>mo_registry_path = ''models/registry'', mo_active_path = ''models/active/xgboost_masking.json'', mo_max_depth = 6,
      mo_learning_rate = 1 / 10, mo_estimators = 100, mo_subsample = 8 / 10, mo_colsample = 8 / 10, mo_lookback_days = 7,
      mo_min_samples = 1000, mo_min_auc = 85 / 100, mo_min_precision = 80 / 100, mo_min_recall = 75 / 100, mo_improvement = 2 / 100\<rparr>"

record inference_settings =
  in_host :: string
  in_port :: int
  in_max_workers :: int
  in_batch_size :: int
  in_batch_timeout_ms :: int
  in_cache_enabled :: bool
  in_cache_ttl :: int
  in_metrics_port :: int

definition inference_defaults :: inference_settings where
  "inference_defaults =
     \<lparr>in_host = ''0.0.0.0'', in_port = 50051, in_max_workers = 10, in_batch_size = 32, in_batch_timeout_ms = 10, in_cache_enabled = True,
      in_cache_ttl = 60, in_metrics_port = 9090\<rparr>"

record ab_settings =
  ab_traffic_a :: rat
  ab_traffic_b :: rat
  ab_min_samples :: int
  ab_confidence :: rat
  ab_min_effect :: rat
  ab_rollout :: bool
  ab_rollout_step :: rat
  ab_rollout_hours :: int

definition ab_defaults :: ab_settings where
  "ab_defaults =
     \<lparr>ab_traffic_a = 9 / 10, ab_traffic_b = 1 / 10, ab_min_samples = 1000, ab_confidence = 95 / 100, ab_min_effect = 5 / 100,
      ab_rollout = True, ab_rollout_step = 1 / 10, ab_rollout_hours = 24\<rparr>"

record training_settings =
  tr_enabled :: bool
  tr_cron :: string
  tr_zone :: string
  tr_database :: db_settings
  tr_query :: string
  tr_test_size :: rat
  tr_validation_size :: rat
  tr_seed :: int

text \<open>The query, with the placeholder that is filled in when the data is collected.\<close>

definition training_query :: string where
  "training_query =
     [] @ [CHR 10] @
     ''        SELECT'' @ [CHR 10] @
     ''            asr,'' @ [CHR 10] @
     ''            aloc,'' @ [CHR 10] @
     ''            overlap_ratio,'' @ [CHR 10] @
     ''            cli_mismatch::int as cli_mismatch,'' @ [CHR 10] @
     ''            distinct_a_count,'' @ [CHR 10] @
     ''            call_rate,'' @ [CHR 10] @
     ''            short_call_ratio,'' @ [CHR 10] @
     ''            high_volume_flag::int as high_volume_flag,'' @ [CHR 10] @
     ''            is_fraud::int as label'' @ [CHR 10] @
     ''        FROM ml_training_data'' @ [CHR 10] @
     ''        WHERE created_at >= NOW() - INTERVAL '' @ [CHR 39] @ ''{lookback_days} days'' @ [CHR 39] @ '''' @ [CHR 10] @
     ''        AND label IS NOT NULL'' @ [CHR 10] @
     ''        ORDER BY created_at DESC'' @ [CHR 10] @
     ''    ''"

text \<open>The class body reads the environment when the module is loaded.\<close>

definition training_defaults :: "environment \<Rightarrow> string + training_settings" where
  "training_defaults env =
     and_then (env_int env ''YUGABYTE_PORT'' ''5433'') (\<lambda>p.
       Inr \<lparr>tr_enabled = True, tr_cron = ''0 2 * * *'', tr_zone = ''Africa/Lagos'',
            tr_database = \<lparr>db_host = getenv env ''YUGABYTE_HOST'' ''localhost'', db_port = p, db_name = getenv env ''YUGABYTE_DB'' ''voxguard'',
                            db_user = getenv env ''YUGABYTE_USER'' ''voxguard'', db_password = getenv env ''YUGABYTE_PASSWORD'' []\<rparr>,
            tr_query = training_query, tr_test_size = 2 / 10, tr_validation_size = 1 / 10, tr_seed = 42\<rparr>)"

record monitoring_settings =
  mn_drift :: bool
  mn_drift_hours :: int
  mn_drift_threshold :: rat
  mn_alert_on_drop :: bool
  mn_drop_threshold :: rat
  mn_prometheus :: bool
  mn_prometheus_port :: int

definition monitoring_defaults :: monitoring_settings where
  "monitoring_defaults =
     \<lparr>mn_drift = True, mn_drift_hours = 6, mn_drift_threshold = 1 / 10, mn_alert_on_drop = True, mn_drop_threshold = 5 / 100,
      mn_prometheus = True, mn_prometheus_port = 9091\<rparr>"

text \<open>The sub-configurations of \<open>MLPipelineConfig\<close> are default values of its fields: objects made once, when the class is made, that
  every instance refers to. They are the state of the module.\<close>

record pipeline_state =
  ps_model :: model_settings
  ps_inference :: inference_settings
  ps_ab :: ab_settings
  ps_training :: training_settings
  ps_monitoring :: monitoring_settings
  ps_environment :: string
  ps_debug :: bool

text \<open>From version 3.11 on, \<open>@dataclass\<close> refuses a default that cannot be hashed, as an instance of a data class with equality.\<close>

definition load_pipeline_module :: "nat \<Rightarrow> environment \<Rightarrow> string + pipeline_state" where
  "load_pipeline_module minor env =
     and_then (training_defaults env) (\<lambda>t.
       if 11 \<le> minor then Inl ''ValueError''
       else Inr \<lparr>ps_model = model_defaults, ps_inference = inference_defaults, ps_ab = ab_defaults, ps_training = t,
                 ps_monitoring = monitoring_defaults, ps_environment = getenv env ''ML_ENVIRONMENT'' ''development'',
                 ps_debug = env_flag env ''ML_DEBUG'' ''false''\<rparr>)"

text \<open>\<open>if v := os.getenv(n): change\<close>, with a number.\<close>

definition override_int :: "environment \<Rightarrow> string \<Rightarrow> (int \<Rightarrow> 's \<Rightarrow> 's) \<Rightarrow> ('s, string, unit) eff" where
  "override_int env n change =
     (case env n of
        None \<Rightarrow> eff_return ()
      | Some v \<Rightarrow> if v = [] then eff_return ()
                  else case py_int v of Some i \<Rightarrow> eff_modify (change i) | None \<Rightarrow> eff_raise ''ValueError'')"

definition override_str :: "environment \<Rightarrow> string \<Rightarrow> (string \<Rightarrow> 's \<Rightarrow> 's) \<Rightarrow> ('s, string, unit) eff" where
  "override_str env n change =
     (case env n of None \<Rightarrow> eff_return () | Some v \<Rightarrow> if v = [] then eff_return () else eff_modify (change v))"

text \<open>The instance only holds references: what any of them shows is the state.\<close>

definition pipeline_from_env :: "environment \<Rightarrow> (pipeline_state, string, unit) eff" where
  "pipeline_from_env env =
     eff_then (override_str env ''ML_INFERENCE_HOST'' (\<lambda>v s. s\<lparr>ps_inference := (ps_inference s)\<lparr>in_host := v\<rparr>\<rparr>))
    (eff_then (override_int env ''ML_INFERENCE_PORT'' (\<lambda>i s. s\<lparr>ps_inference := (ps_inference s)\<lparr>in_port := i\<rparr>\<rparr>))
    (eff_then (override_int env ''ML_MAX_WORKERS'' (\<lambda>i s. s\<lparr>ps_inference := (ps_inference s)\<lparr>in_max_workers := i\<rparr>\<rparr>))
    (eff_then (override_int env ''ML_TRAINING_LOOKBACK_DAYS'' (\<lambda>i s. s\<lparr>ps_model := (ps_model s)\<lparr>mo_lookback_days := i\<rparr>\<rparr>))
              (override_str env ''ML_TRAINING_SCHEDULE'' (\<lambda>v s. s\<lparr>ps_training := (ps_training s)\<lparr>tr_cron := v\<rparr>\<rparr>)))))"

definition database_dsn :: "pipeline_state \<Rightarrow> string" where
  "database_dsn s = connection_string (tr_database (ps_training s))"


section \<open>Defaults and consistency\<close>

lemma and_then_Inr: "and_then r f = Inr y \<longleftrightarrow> (\<exists>x. r = Inr x \<and> f x = Inr y)"
  by (cases r) (auto simp: and_then_def)

lemma getenv_is: "getenv env n d = v \<longleftrightarrow> env n = Some v \<or> (env n = None \<and> d = v)"
  by (cases "env n") (auto simp: getenv_def)

text \<open>Whatever the environment holds, the reports of a license are uploaded below the directory of the same license that the API is
  told, and the API of the regulator is only used in production.\<close>

lemma compliance_license:
  assumes "compliance_from_env env = Inr c"
  shows "sf_remote_path (cs_sftp c) = ''/incoming/'' @ at_license (client_config (cs_atrs c)) @ ''/daily/''
    \<and> (as_base_url (cs_atrs c) = ''https://atrs-api.ncc.gov.ng/v2'' \<longleftrightarrow> env ''NCC_ENVIRONMENT'' = Some ''production'')"
  using assms
  by (clarsimp simp: compliance_from_env_def and_then_Inr atrs_from_env_def sftp_from_env_def client_config_def getenv_is)

text \<open>With an empty environment the archival service runs on the configuration that its model assumes.\<close>

lemma default_numbers:
  "py_int ''90'' = Some 90" "py_int ''365'' = Some 365" "py_int ''7'' = Some 7" "py_int ''3'' = Some 3"
  "py_int ''10000'' = Some 10000" "py_int ''4'' = Some 4" "py_int ''9092'' = Some 9092"
  by code_simp+

lemma archival_defaults: "map_sum id service_config (archival_from_env (\<lambda>_. None)) = Inr default_archive_config"
  by (simp add: archival_from_env_def and_then_def env_int_def env_flag_def getenv_def default_numbers member_of_def service_config_def
      default_archive_config_def)

text \<open>The module of the pipeline cannot be loaded by the Python that the checks of the services use.\<close>

lemma pipeline_module_fails: "11 \<le> minor \<Longrightarrow> \<exists>e. load_pipeline_module minor env = Inl e"
  by (cases "training_defaults env") (auto simp: load_pipeline_module_def and_then_def)

text \<open>With an older one, what an environment has set stays for all later instances, also under an environment that does not set it.\<close>

definition silent :: environment where
  "silent = (\<lambda>_. None)"

lemma overrides_stick:
  assumes "env ''ML_INFERENCE_HOST'' = Some h" "h \<noteq> []" and "pipeline_from_env env s = (Inr (), s1)" and "pipeline_from_env silent s1 = (r, s2)"
  shows "in_host (ps_inference s2) = h"
proof -
  have "s2 = s1" using assms(4) by (simp add: pipeline_from_env_def override_str_def override_int_def silent_def eff_defs)
  moreover have "in_host (ps_inference s1) = h"
    using assms(1-3)
    by (auto simp: pipeline_from_env_def override_str_def override_int_def eff_then_Inr_iff split: option.splits if_splits)
  ultimately show ?thesis by simp
qed

end
