(* ===== verification/NccReports.thy ===== *)
theory NccReports
  imports Atrs
begin

text \<open>
  The regulator's reports, \<open>services/ncc-integration\<close>: the SFTP upload of \<open>sftp_uploader.py\<close>, the daily
  report of \<open>report_generator.py\<close> and the daily job of \<open>scheduler.py\<close> that generates, uploads and
  submits it. The SSH library, the file system, the database, the CSV and JSON writers and SHA-256 are
  parameters.
\<close>

section \<open>Uploading\<close>

record 'w sftp_ports =
  local_size :: "string \<Rightarrow> 'w \<Rightarrow> nat option"
  key_path :: string
  key_exists :: "'w \<Rightarrow> bool"
  ssh_connect :: "('w, string, unit) eff"
  sftp_close :: "'w \<Rightarrow> 'w"
  sftp_put :: "string \<Rightarrow> string \<Rightarrow> ('w, string, unit) eff"
  sftp_size :: "string \<Rightarrow> ('w, string, nat) eff"
  sftp_rename :: "string \<Rightarrow> string \<Rightarrow> ('w, string, unit) eff"
  sftp_remove :: "string \<Rightarrow> ('w, string, unit) eff"
  sftp_listdir :: "string \<Rightarrow> ('w, string, string list) eff"

datatype upload_error = SftpUploadError string

definition path_join :: "string \<Rightarrow> string \<Rightarrow> string" where
  "path_join a b =
     (if startswith ''/'' b then b else if a = [] \<or> endswith ''/'' a then a @ b else a @ ''/'' @ b)"

definition sftp_connect :: "'w sftp_ports \<Rightarrow> ('w, upload_error, unit) eff" where
  "sftp_connect P w =
     (if \<not> key_exists P w
      then (Inl (SftpUploadError (''Failed to connect to SFTP server: Private key not found: '' @ key_path P)), w)
      else case ssh_connect P w of
             (Inl e, w1) \<Rightarrow> (Inl (SftpUploadError (''Failed to connect to SFTP server: '' @ e)), w1)
           | (Inr u, w1) \<Rightarrow> (Inr u, w1))"

text \<open>The transfer inside the \<open>try\<close>: put, check the size, rename.\<close>

definition transfer :: "'w sftp_ports \<Rightarrow> string \<Rightarrow> nat \<Rightarrow> string \<Rightarrow> bool \<Rightarrow> ('w, string, unit) eff" where
  "transfer P local sz remote verify =
     eff_then (sftp_put P local (remote @ ''.tmp''))
     (eff_then (if verify
        then eff_bind (sftp_size P (remote @ ''.tmp'')) (\<lambda>n.
             if n \<noteq> sz then eff_raise (''Size mismatch: local='' @ show_nat sz @ '', remote='' @ show_nat n)
             else eff_return ())
        else eff_return ())
      (sftp_rename P (remote @ ''.tmp'') remote))"

definition upload_file :: "'w sftp_ports \<Rightarrow> bool \<Rightarrow> string \<Rightarrow> string \<Rightarrow> string \<Rightarrow> bool \<Rightarrow> ('w, upload_error, unit) eff" where
  "upload_file P online dir local name verify w =
     (if \<not> online then (Inl (SftpUploadError ''Not connected to SFTP server''), w)
      else case local_size P local w of
        None \<Rightarrow> (Inl (SftpUploadError (''Local file not found: '' @ local)), w)
      | Some sz \<Rightarrow>
          eff_catch (transfer P local sz (path_join dir name) verify) (\<lambda>e.
            eff_then (eff_catch (sftp_remove P (path_join dir name @ ''.tmp'')) (\<lambda>_. eff_return ()))
              (eff_raise (SftpUploadError (''Failed to upload '' @ name @ '': '' @ e)))) w)"

text \<open>The loop over the batch; a failed upload is remembered and the next file is tried.\<close>

fun upload_each :: "'w sftp_ports \<Rightarrow> bool \<Rightarrow> string \<Rightarrow> (string \<times> string) list \<Rightarrow> 'w \<Rightarrow> string list \<times> 'w" where
  "upload_each P online dir [] w = ([], w)"
| "upload_each P online dir ((local, name) # files) w =
     (case upload_file P online dir local name True w of
        (Inl _, w1) \<Rightarrow> (case upload_each P online dir files w1 of (fs, w2) \<Rightarrow> (name # fs, w2))
      | (Inr _, w1) \<Rightarrow> upload_each P online dir files w1)"

definition upload_batch :: "'w sftp_ports \<Rightarrow> bool \<Rightarrow> string \<Rightarrow> (string \<times> string) list \<Rightarrow> ('w, upload_error, unit) eff" where
  "upload_batch P online dir files w =
     (if \<not> online then (Inl (SftpUploadError ''Not connected to SFTP server''), w)
      else case upload_each P online dir files w of (failed, w1) \<Rightarrow>
        if failed \<noteq> []
        then (Inl (SftpUploadError (''Failed to upload '' @ show_nat (length failed) @ '' files: ''
                @ join_with '', '' failed)), w1)
        else (Inr (), w1))"

definition list_remote_files :: "'w sftp_ports \<Rightarrow> bool \<Rightarrow> (string \<Rightarrow> string \<Rightarrow> bool) \<Rightarrow> string \<Rightarrow> string option \<Rightarrow>
    ('w, upload_error, string list) eff" where
  "list_remote_files P online fnmatch dir pattern w =
     (if \<not> online then (Inl (SftpUploadError ''Not connected to SFTP server''), w)
      else case sftp_listdir P dir w of
        (Inl e, w1) \<Rightarrow> (Inl (SftpUploadError (''Failed to list remote files: '' @ e)), w1)
      | (Inr fs, w1) \<Rightarrow> (Inr (case pattern of None \<Rightarrow> fs | Some p \<Rightarrow>
            if p = [] then fs else filter (\<lambda>f. fnmatch f p) fs), w1))"

definition verify_connectivity :: "'w sftp_ports \<Rightarrow> bool \<Rightarrow> string \<Rightarrow> 'w \<Rightarrow> bool \<times> 'w" where
  "verify_connectivity P online dir w =
     (case (if online then (Inr (), w) else sftp_connect P w) of
        (Inl _, w1) \<Rightarrow> (False, w1)
      | (Inr _, w1) \<Rightarrow> (case sftp_listdir P dir w1 of (Inl _, w2) \<Rightarrow> (False, w2) | (Inr _, w2) \<Rightarrow> (True, w2)))"


section \<open>The daily report\<close>

record severity_counts =
  sc_critical :: int
  sc_high :: int
  sc_medium :: int
  sc_low :: int

definition set_severity :: "string \<Rightarrow> int \<Rightarrow> severity_counts \<Rightarrow> severity_counts option" where
  "set_severity s n c =
     (if s = ''critical'' then Some (c\<lparr>sc_critical := n\<rparr>) else if s = ''high'' then Some (c\<lparr>sc_high := n\<rparr>)
      else if s = ''medium'' then Some (c\<lparr>sc_medium := n\<rparr>) else if s = ''low'' then Some (c\<lparr>sc_low := n\<rparr>)
      else None)"

fun count_alerts :: "(string \<times> int) list \<Rightarrow> severity_counts \<times> int \<Rightarrow> severity_counts \<times> int" where
  "count_alerts [] acc = acc"
| "count_alerts ((s, n) # rows) (c, t) =
     (case set_severity (py_lower s) n c of
        Some c' \<Rightarrow> count_alerts rows (c', t + n)
      | None \<Rightarrow> count_alerts rows (c, t))"

record daily_statistics =
  st_calls :: int
  st_alerts :: int
  st_by_severity :: severity_counts
  st_disconnected :: int
  st_blocked :: int
  st_p99 :: rat
  st_avg :: rat
  st_uptime :: rat
  st_false_positives :: rat

definition int_or_zero :: "int option \<Rightarrow> int" where
  "int_or_zero v = (case v of None \<Rightarrow> 0 | Some n \<Rightarrow> n)"

text \<open>\<open>float(x or d)\<close>: a missing value and a zero both give the default.\<close>

definition float_or :: "rat \<Rightarrow> rat option \<Rightarrow> rat" where
  "float_or d v = (case v of None \<Rightarrow> d | Some x \<Rightarrow> if x = 0 then d else x)"

definition make_statistics ::
  "int \<Rightarrow> (string \<times> int) list \<Rightarrow> int option \<Rightarrow> int option \<Rightarrow> rat option \<times> rat option \<Rightarrow> daily_statistics" where
  "make_statistics calls rows disc blk lat =
     (case count_alerts rows (\<lparr>sc_critical = 0, sc_high = 0, sc_medium = 0, sc_low = 0\<rparr>, 0) of (by_sev, n) \<Rightarrow>
      \<lparr>st_calls = calls, st_alerts = n, st_by_severity = by_sev, st_disconnected = int_or_zero disc,
       st_blocked = int_or_zero blk, st_p99 = py_round 2 (float_or (8/10) (fst lat)),
       st_avg = py_round 2 (float_or (45/100) (snd lat)), st_uptime = 99998/1000, st_false_positives = 21/100\<rparr>)"

record alert_row =
  ro_id :: string
  ro_detected_at :: instant
  ro_severity :: string
  ro_b_number :: string
  ro_a_count :: int
  ro_window_ms :: int
  ro_action :: "string option"
  ro_incident :: "string option"

record target_row =
  tr_b_number :: string
  tr_incidents :: int
  tr_a_total :: int
  tr_first :: instant
  tr_last :: instant

text \<open>The database asks for the rows of one day, from its midnight to the next; the day is a date's ordinal.\<close>

record 'w report_ports =
  db_connect :: "('w, string, unit) eff"
  db_close :: "'w \<Rightarrow> 'w"
  fetch_calls :: "int \<Rightarrow> ('w, string, int) eff"
  fetch_severities :: "int \<Rightarrow> ('w, string, (string \<times> int) list) eff"
  fetch_disconnected :: "int \<Rightarrow> ('w, string, int option) eff"
  fetch_blocked :: "int \<Rightarrow> ('w, string, int option) eff"
  fetch_latency :: "int \<Rightarrow> ('w, string, rat option \<times> rat option) eff"
  fetch_alerts :: "int \<Rightarrow> ('w, string, alert_row list) eff"
  fetch_targets :: "int \<Rightarrow> nat \<Rightarrow> ('w, string, target_row list) eff"
  write_text :: "string \<Rightarrow> string \<Rightarrow> ('w, string, unit) eff"
  read_bytes :: "string \<Rightarrow> ('w, string, string) eff"
  make_dir :: "('w, string, unit) eff"

record report_format =
  iso_time :: "instant \<Rightarrow> string"
  iso_day :: "int \<Rightarrow> string"
  compact_day :: "int \<Rightarrow> string"
  end_of_day :: "int \<Rightarrow> string"
  csv_text :: "py_val list list \<Rightarrow> string"
  json_text :: "py_val \<Rightarrow> string"
  sha256_hex :: "string \<Rightarrow> string"

definition query_daily_statistics :: "'w report_ports \<Rightarrow> int \<Rightarrow> ('w, string, daily_statistics) eff" where
  "query_daily_statistics P day =
     eff_bind (fetch_calls P day) (\<lambda>calls.
     eff_bind (fetch_severities P day) (\<lambda>rows.
     eff_bind (fetch_disconnected P day) (\<lambda>disc.
     eff_bind (fetch_blocked P day) (\<lambda>blk.
     eff_bind (fetch_latency P day) (\<lambda>lat.
     eff_return (make_statistics calls rows disc blk lat))))))"

definition str_or :: "string \<Rightarrow> string option \<Rightarrow> string" where
  "str_or d v = (case v of None \<Rightarrow> d | Some s \<Rightarrow> if s = [] then d else s)"

definition alert_details :: "report_format \<Rightarrow> alert_row list \<Rightarrow> py_val list list" where
  "alert_details F rows = map (\<lambda>r. [PStr (ro_id r), PStr (iso_time F (ro_detected_at r) @ ''Z''), PStr (ro_severity r),
     PStr (ro_b_number r), PInt (ro_a_count r), PInt (ro_window_ms r), PStr (str_or ''ALERTED'' (ro_action r)),
     PStr (str_or [] (ro_incident r))]) rows"

definition target_details :: "report_format \<Rightarrow> target_row list \<Rightarrow> py_val list list" where
  "target_details F rows = map (\<lambda>(i, r). [PInt (int i + 1), PStr (tr_b_number r), PInt (tr_incidents r),
     PInt (tr_a_total r), PStr (iso_time F (tr_first r) @ ''Z''), PStr (iso_time F (tr_last r) @ ''Z'')])
     (zip [0..<length rows] rows)"

definition alert_header :: "py_val list" where
  "alert_header = map PStr [''alert_id'', ''detected_at'', ''severity'', ''b_number'', ''a_number_count'',
     ''detection_window_ms'', ''action_taken'', ''ncc_incident_id'']"

definition target_header :: "py_val list" where
  "target_header = map PStr [''rank'', ''b_number'', ''incident_count'', ''total_a_numbers'', ''first_incident'',
     ''last_incident'']"

definition statistics_rows :: "report_format \<Rightarrow> daily_statistics \<Rightarrow> int \<Rightarrow> py_val list list" where
  "statistics_rows F s day =
     (let line = (\<lambda>n v u. [PStr n, v, PStr u, PStr (end_of_day F day @ ''Z'')]) in
      [map PStr [''metric_name'', ''metric_value'', ''unit'', ''timestamp''],
       line ''total_calls_processed'' (PInt (st_calls s)) ''count'',
       line ''total_fraud_alerts'' (PInt (st_alerts s)) ''count'',
       line ''critical_alerts'' (PInt (sc_critical (st_by_severity s))) ''count'',
       line ''high_alerts'' (PInt (sc_high (st_by_severity s))) ''count'',
       line ''medium_alerts'' (PInt (sc_medium (st_by_severity s))) ''count'',
       line ''low_alerts'' (PInt (sc_low (st_by_severity s))) ''count'',
       line ''calls_disconnected'' (PInt (st_disconnected s)) ''count'',
       line ''patterns_blocked'' (PInt (st_blocked s)) ''count'',
       line ''detection_latency_p99'' (PFloat (st_p99 s)) ''milliseconds'',
       line ''detection_latency_avg'' (PFloat (st_avg s)) ''milliseconds'',
       line ''system_uptime'' (PFloat (st_uptime s)) ''percent'',
       line ''false_positive_rate'' (PFloat (st_false_positives s)) ''percent''])"


text \<open>The summary file: what it lists of the statistics, the files and their common checksum.\<close>

definition statistics_value :: "daily_statistics \<Rightarrow> py_val" where
  "statistics_value s = PDict
     [(''total_calls_processed'', PInt (st_calls s)), (''fraud_alerts_generated'', PInt (st_alerts s)),
      (''alerts_by_severity'', PDict [(''critical'', PInt (sc_critical (st_by_severity s))),
         (''high'', PInt (sc_high (st_by_severity s))), (''medium'', PInt (sc_medium (st_by_severity s))),
         (''low'', PInt (sc_low (st_by_severity s)))]),
      (''calls_disconnected'', PInt (st_disconnected s)), (''patterns_blocked'', PInt (st_blocked s)),
      (''detection_latency_p99_ms'', PFloat (st_p99 s)), (''detection_latency_avg_ms'', PFloat (st_avg s)),
      (''system_uptime_percent'', PFloat (st_uptime s)),
      (''false_positive_rate_percent'', PFloat (st_false_positives s))]"

definition summary_value ::
  "report_format \<Rightarrow> string \<Rightarrow> int \<Rightarrow> instant \<Rightarrow> daily_statistics \<Rightarrow> string list \<Rightarrow> string \<Rightarrow> py_val" where
  "summary_value F license day now s files checksum = PDict
     [(''report_date'', PStr (iso_day F day)), (''icl_license'', PStr license),
      (''generated_at'', PStr (iso_time F now @ ''Z'')),
      (''statistics'', PDict
        [(''total_calls_processed'', PInt (st_calls s)),
         (''fraud_alerts'', PDict [(''total'', PInt (st_alerts s)),
            (''by_severity'', PDict [(''critical'', PInt (sc_critical (st_by_severity s))),
              (''high'', PInt (sc_high (st_by_severity s))), (''medium'', PInt (sc_medium (st_by_severity s))),
              (''low'', PInt (sc_low (st_by_severity s)))])]),
         (''actions'', PDict [(''calls_disconnected'', PInt (st_disconnected s)),
            (''patterns_blocked'', PInt (st_blocked s))]),
         (''performance'', PDict [(''detection_latency_p99_ms'', PFloat (st_p99 s)),
            (''detection_latency_avg_ms'', PFloat (st_avg s)),
            (''system_uptime_percent'', PFloat (st_uptime s))]),
         (''quality'', PDict [(''false_positive_rate_percent'', PFloat (st_false_positives s)),
            (''detection_accuracy_percent'', PFloat (100 - st_false_positives s))])]),
      (''files'', strs files),
      (''checksum'', PDict [(''algorithm'', PStr ''SHA-256''), (''value'', PStr checksum)])]"

definition report_name :: "report_format \<Rightarrow> string \<Rightarrow> string \<Rightarrow> string \<Rightarrow> int \<Rightarrow> string" where
  "report_name F kind ext license day = ''ACM_'' @ kind @ ''_'' @ license @ ''_'' @ compact_day F day @ ext"

record daily_report =
  dr_statistics :: daily_statistics
  dr_stats :: string
  dr_alerts :: string
  dr_targets :: string
  dr_summary :: string
  dr_checksum :: string

definition generate_files ::
  "report_format \<Rightarrow> 'w report_ports \<Rightarrow> string \<Rightarrow> string \<Rightarrow> int \<Rightarrow> instant \<Rightarrow> ('w, string, daily_report) eff" where
  "generate_files F P license dir day now =
     (let path = (\<lambda>kind ext. path_join dir (report_name F kind ext license day));
          stats_path = path ''DAILY'' ''.csv''; alerts_path = path ''ALERTS'' ''.csv'';
          targets_path = path ''TARGETS'' ''.csv''; summary_path = path ''SUMMARY'' ''.json'' in
      eff_then (make_dir P)
      (eff_bind (query_daily_statistics P day) (\<lambda>stats.
       eff_bind (fetch_alerts P day) (\<lambda>alerts.
       eff_bind (fetch_targets P day 10) (\<lambda>targets.
       eff_then (write_text P stats_path (csv_text F (statistics_rows F stats day)))
       (eff_then (write_text P alerts_path (csv_text F (alert_header # alert_details F alerts)))
       (eff_then (write_text P targets_path (csv_text F (target_header # target_details F targets)))
       (eff_bind (read_bytes P stats_path) (\<lambda>b1.
        eff_bind (read_bytes P alerts_path) (\<lambda>b2.
        eff_bind (read_bytes P targets_path) (\<lambda>b3.
        let sum = sha256_hex F (b1 @ b2 @ b3) in
        eff_then (write_text P summary_path (json_text F (summary_value F license day now stats
            [report_name F ''DAILY'' ''.csv'' license day, report_name F ''ALERTS'' ''.csv'' license day,
             report_name F ''TARGETS'' ''.csv'' license day] sum)))
        (eff_return \<lparr>dr_statistics = stats, dr_stats = stats_path, dr_alerts = alerts_path,
           dr_targets = targets_path, dr_summary = summary_path, dr_checksum = sum\<rparr>))))))))))))"

definition generate_daily_report ::
  "report_format \<Rightarrow> 'w report_ports \<Rightarrow> string \<Rightarrow> string \<Rightarrow> int \<Rightarrow> instant \<Rightarrow> ('w, string, daily_report) eff" where
  "generate_daily_report F P license dir day now =
     eff_catch (generate_files F P license dir day now)
       (\<lambda>e. eff_raise (''Failed to generate daily report: '' @ e))"

text \<open>\<open>async with ReportGenerator(...)\<close>: connect, generate, and disconnect however it ended.\<close>

definition with_generator ::
  "report_format \<Rightarrow> 'w report_ports \<Rightarrow> string \<Rightarrow> string \<Rightarrow> int \<Rightarrow> instant \<Rightarrow> ('w, string, daily_report) eff" where
  "with_generator F P license dir day now w =
     (case db_connect P w of
        (Inl e, w1) \<Rightarrow> (Inl (''Failed to connect to database: '' @ e), w1)
      | (Inr _, w1) \<Rightarrow> (case generate_daily_report F P license dir day now w1 of (r, w2) \<Rightarrow> (r, db_close P w2)))"


section \<open>The daily job\<close>

text \<open>\<open>Path(p).name\<close>.\<close>

definition file_name :: "string \<Rightarrow> string" where
  "file_name p = last (split_on (CHR ''/'') p)"

datatype job_error = ReportFailed string | UploadFailed upload_error | SubmitFailed atrs_error

definition upload_files :: "daily_report \<Rightarrow> (string \<times> string) list" where
  "upload_files r = map (\<lambda>p. (p, file_name p)) [dr_stats r, dr_alerts r, dr_targets r, dr_summary r]"

definition upload_report ::
  "'w sftp_ports \<Rightarrow> string \<Rightarrow> daily_report \<Rightarrow> ('w, upload_error, unit) eff" where
  "upload_report S remote_dir r w =
     (case sftp_connect S w of
        (Inl e, w1) \<Rightarrow> (Inl e, w1)
      | (Inr _, w1) \<Rightarrow> (case upload_batch S True remote_dir (upload_files r) w1 of (x, w2) \<Rightarrow> (x, sftp_close S w2)))"

definition daily_job ::
  "report_format \<Rightarrow> 'w report_ports \<Rightarrow> 'w sftp_ports \<Rightarrow> atrs_config \<Rightarrow> ('w, py_val) atrs_ports \<Rightarrow>
   string \<Rightarrow> string \<Rightarrow> int \<Rightarrow> instant \<Rightarrow> ('w, job_error, py_val) eff" where
  "daily_job F R S C A dir remote_dir day now w =
     (case with_generator F R (at_license C) dir day now w of
        (Inl e, w1) \<Rightarrow> (Inl (ReportFailed e), w1)
      | (Inr r, w1) \<Rightarrow>
          (case upload_report S remote_dir r w1 of
             (Inl e, w2) \<Rightarrow> (Inl (UploadFailed e), w2)
           | (Inr _, w2) \<Rightarrow>
               (case submit_daily_report C A (iso_day F day) (statistics_value (dr_statistics r)) []
                       (dr_checksum r) (\<lparr>tk_token = None, tk_expiry = None\<rparr>, w2) of
                  (Inl e, (tk, w3)) \<Rightarrow> (Inl (SubmitFailed e), w3)
                | (Inr j, (tk, w3)) \<Rightarrow> (Inr j, w3))))"


section \<open>What the server promises\<close>

text \<open>\<open>rem w\<close> are the files on the server and \<open>loc w\<close> the local ones, by path. A put may leave anything at
  its own path and nothing else; a rename is atomic.\<close>

definition sftp_ok :: "'w sftp_ports \<Rightarrow> ('w \<Rightarrow> string \<Rightarrow> string option) \<Rightarrow> ('w \<Rightarrow> string \<Rightarrow> string option) \<Rightarrow> bool" where
  "sftp_ok S rem loc \<longleftrightarrow>
     (\<forall>p w. local_size S p w = map_option length (loc w p))
   \<and> (\<forall>a b w q. q \<noteq> b \<longrightarrow> rem (snd (sftp_put S a b w)) q = rem w q) \<and> (\<forall>a b w. loc (snd (sftp_put S a b w)) = loc w)
   \<and> (\<forall>p w. rem (snd (sftp_size S p w)) = rem w) \<and> (\<forall>p w. loc (snd (sftp_size S p w)) = loc w)
   \<and> (\<forall>p w n w'. sftp_size S p w = (Inr n, w') \<longrightarrow> map_option length (rem w p) = Some n)
   \<and> (\<forall>a b w w'. sftp_rename S a b w = (Inr (), w') \<longrightarrow> rem w' = (rem w)(b := rem w a, a := None))
   \<and> (\<forall>a b w e w'. sftp_rename S a b w = (Inl e, w') \<longrightarrow> rem w' = rem w) \<and> (\<forall>a b w. loc (snd (sftp_rename S a b w)) = loc w)
   \<and> (\<forall>p w q. q \<noteq> p \<longrightarrow> rem (snd (sftp_remove S p w)) q = rem w q) \<and> (\<forall>p w. loc (snd (sftp_remove S p w)) = loc w)
   \<and> (\<forall>w. rem (sftp_close S w) = rem w \<and> loc (sftp_close S w) = loc w)"

lemma sftp_okD:
  assumes "sftp_ok S rem loc"
  shows "local_size S p w = map_option length (loc w p)"
    and "q \<noteq> b \<Longrightarrow> rem (snd (sftp_put S a b w)) q = rem w q" and "loc (snd (sftp_put S a b w)) = loc w"
    and "rem (snd (sftp_size S p w)) = rem w" and "loc (snd (sftp_size S p w)) = loc w"
    and "sftp_size S p w = (Inr n, w') \<Longrightarrow> map_option length (rem w p) = Some n"
    and "sftp_rename S a b w = (Inr (), w') \<Longrightarrow> rem w' = (rem w)(b := rem w a, a := None)"
    and "sftp_rename S a b w = (Inl e, w') \<Longrightarrow> rem w' = rem w" and "loc (snd (sftp_rename S a b w)) = loc w"
    and "q \<noteq> p \<Longrightarrow> rem (snd (sftp_remove S p w)) q = rem w q" and "loc (snd (sftp_remove S p w)) = loc w"
    and "rem (sftp_close S w) = rem w" and "loc (sftp_close S w) = loc w"
  using assms unfolding sftp_ok_def by simp_all

lemma transfer_effect:
  assumes ok: "sftp_ok S rem loc" and run: "transfer S local sz dest True w = (r, w')"
  shows "q \<noteq> dest \<Longrightarrow> q \<noteq> dest @ ''.tmp'' \<Longrightarrow> rem w' q = rem w q"
    and "r = Inl e \<Longrightarrow> rem w' dest = rem w dest"
    and "r = Inr () \<Longrightarrow> map_option length (rem w' dest) = Some sz"
    and "loc w' = loc w"
proof -
  let ?tmp = "dest @ ''.tmp''"
  obtain x w1 where put: "sftp_put S local ?tmp w = (x, w1)" by (cases "sftp_put S local ?tmp w")
  have p: "q \<noteq> ?tmp \<Longrightarrow> rem w1 q = rem w q" "loc w1 = loc w" for q
    using sftp_okD(2) [OF ok, where a = local and b = "?tmp" and w = w]
      sftp_okD(3) [OF ok, where a = local and b = "?tmp" and w = w] put by simp_all
  obtain y w2 where sz: "sftp_size S ?tmp w1 = (y, w2)" by (cases "sftp_size S ?tmp w1")
  have s: "rem w2 = rem w1" "loc w2 = loc w1" using sftp_okD(4,5) [OF ok, where p = "?tmp" and w = w1] sz by simp_all
  obtain z w3 where rn: "sftp_rename S ?tmp dest w2 = (z, w3)" by (cases "sftp_rename S ?tmp dest w2")
  have l: "loc w3 = loc w2" using sftp_okD(9) [OF ok, where a = "?tmp" and b = dest and w = w2] rn by simp
  have cases: "(r, w') = (case x of Inl e \<Rightarrow> (Inl e, w1) | Inr _ \<Rightarrow>
      (case y of Inl e \<Rightarrow> (Inl e, w2)
       | Inr n \<Rightarrow> if n \<noteq> sz then (Inl (''Size mismatch: local='' @ show_nat sz @ '', remote='' @ show_nat n), w2)
                   else (z, w3)))"
    using run by (auto simp: transfer_def eff_defs put sz rn split: sum.splits)
  have len: "y = Inr n \<Longrightarrow> map_option length (rem w1 ?tmp) = Some n" for n
    using sftp_okD(6) [OF ok, where p = "?tmp" and w = w1 and n = n and w' = w2] sz by simp
  have ren: "z = Inr () \<Longrightarrow> rem w3 = (rem w2)(dest := rem w2 ?tmp, ?tmp := None)" "z = Inl e \<Longrightarrow> rem w3 = rem w2" for e
    using sftp_okD(7,8) [OF ok, where a = "?tmp" and b = dest and w = w2 and w' = w3] rn by simp_all
  show "q \<noteq> dest \<Longrightarrow> q \<noteq> ?tmp \<Longrightarrow> rem w' q = rem w q"
    using cases p s ren by (cases z) (auto split: sum.splits if_splits)
  show "r = Inl e \<Longrightarrow> rem w' dest = rem w dest"
    using cases p s ren by (cases z) (auto split: sum.splits if_splits)
  show "r = Inr () \<Longrightarrow> map_option length (rem w' dest) = Some sz"
    using cases len s ren by (cases z) (auto split: sum.splits if_splits)
  show "loc w' = loc w"
    using cases p s l by (auto split: sum.splits if_splits)
qed

lemma upload_file_effect:
  assumes ok: "sftp_ok S rem loc" and run: "upload_file S True dir local name True w = (r, w')"
  shows "q \<noteq> path_join dir name \<Longrightarrow> q \<noteq> path_join dir name @ ''.tmp'' \<Longrightarrow> rem w' q = rem w q"
    and "r = Inl e \<Longrightarrow> rem w' (path_join dir name) = rem w (path_join dir name)"
    and "r = Inr () \<Longrightarrow> loc w local \<noteq> None
      \<and> map_option length (rem w' (path_join dir name)) = map_option length (loc w local)"
    and "loc w' = loc w"
proof -
  let ?dest = "path_join dir name"
  have "(q \<noteq> ?dest \<longrightarrow> q \<noteq> ?dest @ ''.tmp'' \<longrightarrow> rem w' q = rem w q) \<and> (r = Inl e \<longrightarrow> rem w' ?dest = rem w ?dest)
    \<and> (r = Inr () \<longrightarrow> loc w local \<noteq> None \<and> map_option length (rem w' ?dest) = map_option length (loc w local))
    \<and> loc w' = loc w" for q e
  proof (cases "loc w local")
    case None
    then show ?thesis using run by (auto simp: upload_file_def sftp_okD(1) [OF ok])
  next
    case (Some c)
    obtain x w1 where tr: "transfer S local (length c) ?dest True w = (x, w1)"
      by (cases "transfer S local (length c) ?dest True w")
    note te = transfer_effect [OF ok tr]
    show ?thesis
    proof (cases x)
      case (Inr u)
      then have "r = Inr ()" "w' = w1"
        using run tr by (auto simp: upload_file_def sftp_okD(1) [OF ok] Some eff_catch_def)
      then show ?thesis using te Inr Some by simp
    next
      case (Inl err)
      obtain y w2 where rm: "sftp_remove S (?dest @ ''.tmp'') w1 = (y, w2)" by (cases "sftp_remove S (?dest @ ''.tmp'') w1")
      have "r = Inl (SftpUploadError (''Failed to upload '' @ name @ '': '' @ err))" "w' = w2"
        using run tr rm Inl by (auto simp: upload_file_def sftp_okD(1) [OF ok] Some eff_defs split: sum.splits)
      moreover have "q \<noteq> ?dest @ ''.tmp'' \<Longrightarrow> rem w2 q = rem w1 q" "loc w2 = loc w1" for q
        using sftp_okD(10,11) [OF ok, where p = "?dest @ ''.tmp''" and w = w1] rm by simp_all
      ultimately show ?thesis using te Inl by simp
    qed
  qed
  then show "q \<noteq> path_join dir name \<Longrightarrow> q \<noteq> path_join dir name @ ''.tmp'' \<Longrightarrow> rem w' q = rem w q"
    and "r = Inl e \<Longrightarrow> rem w' (path_join dir name) = rem w (path_join dir name)"
    and "r = Inr () \<Longrightarrow> loc w local \<noteq> None
      \<and> map_option length (rem w' (path_join dir name)) = map_option length (loc w local)"
    and "loc w' = loc w" by blast+
qed


section \<open>Batches\<close>

text \<open>The files of a batch go to different paths, and none goes to another's temporary path.\<close>

definition separate_targets :: "string \<Rightarrow> (string \<times> string) list \<Rightarrow> bool" where
  "separate_targets dir files \<longleftrightarrow>
     (let ds = map (\<lambda>f. path_join dir (snd f)) files in distinct ds \<and> (\<forall>a\<in>set ds. \<forall>b\<in>set ds. a \<noteq> b @ ''.tmp''))"

lemma separate_targets_Cons:
  "separate_targets dir (f # files) \<Longrightarrow> separate_targets dir files
     \<and> (\<forall>g\<in>set files. path_join dir (snd g) \<noteq> path_join dir (snd f)
          \<and> path_join dir (snd g) \<noteq> path_join dir (snd f) @ ''.tmp''
          \<and> path_join dir (snd f) \<noteq> path_join dir (snd g) @ ''.tmp'' \<and> snd g \<noteq> snd f)"
  by (auto simp: separate_targets_def Let_def image_iff)

lemma upload_each_effect:
  assumes ok: "sftp_ok S rem loc" and run: "upload_each S True dir files w = (failed, w')"
    and sep: "separate_targets dir files"
  shows "loc w' = loc w"
    and "(\<forall>f\<in>set files. q \<noteq> path_join dir (snd f) \<and> q \<noteq> path_join dir (snd f) @ ''.tmp'') \<Longrightarrow> rem w' q = rem w q"
    and "set failed \<subseteq> snd ` set files"
    and "f \<in> set files \<Longrightarrow> snd f \<in> set failed \<Longrightarrow> rem w' (path_join dir (snd f)) = rem w (path_join dir (snd f))"
    and "f \<in> set files \<Longrightarrow> snd f \<notin> set failed \<Longrightarrow> loc w (fst f) \<noteq> None
      \<and> map_option length (rem w' (path_join dir (snd f))) = map_option length (loc w (fst f))"
proof -
  have "loc w' = loc w
    \<and> (\<forall>q. (\<forall>f\<in>set files. q \<noteq> path_join dir (snd f) \<and> q \<noteq> path_join dir (snd f) @ ''.tmp'') \<longrightarrow> rem w' q = rem w q)
    \<and> set failed \<subseteq> snd ` set files
    \<and> (\<forall>f\<in>set files. if snd f \<in> set failed then rem w' (path_join dir (snd f)) = rem w (path_join dir (snd f))
         else loc w (fst f) \<noteq> None
           \<and> map_option length (rem w' (path_join dir (snd f))) = map_option length (loc w (fst f)))"
    using run sep
  proof (induction files arbitrary: w w' failed)
    case (Cons f files)
    obtain l n where f: "f = (l, n)" by force
    obtain x w1 where up: "upload_file S True dir l n True w = (x, w1)" by (cases "upload_file S True dir l n True w")
    obtain fs w2 where each: "upload_each S True dir files w1 = (fs, w2)" by (cases "upload_each S True dir files w1")
    note sepf = separate_targets_Cons [OF Cons.prems(2)]
    note IH = Cons.IH [OF each conjunct1 [OF sepf]]
    note one = upload_file_effect [OF ok up]
    have res: "w' = w2" "failed = (case x of Inl _ \<Rightarrow> n # fs | Inr _ \<Rightarrow> fs)"
      using Cons.prems(1) f up each by (auto split: sum.splits)
    have "\<forall>g\<in>set files. path_join dir n \<noteq> path_join dir (snd g) \<and> path_join dir n \<noteq> path_join dir (snd g) @ ''.tmp''"
      using sepf f by (metis snd_conv)
    then have mine: "rem w2 (path_join dir n) = rem w1 (path_join dir n)" using IH by blast
    have "n \<notin> snd ` set files" using sepf f by (metis imageE snd_conv)
    then have n: "n \<notin> set fs" using IH by blast
    have old: "rem w1 (path_join dir (snd g)) = rem w (path_join dir (snd g))" if "g \<in> set files" for g
      using sepf f that one(1) [of "path_join dir (snd g)"] by simp
    have 1: "loc w' = loc w" using IH one(4) res by simp
    have 2: "rem w' q = rem w q" if "\<forall>g\<in>set (f # files). q \<noteq> path_join dir (snd g) \<and> q \<noteq> path_join dir (snd g) @ ''.tmp''" for q
      using IH one(1) [of q] that res f by simp
    have 3: "set failed \<subseteq> snd ` set (f # files)" using IH res f by (auto split: sum.splits)
    have 4: "if snd f \<in> set failed then rem w' (path_join dir (snd f)) = rem w (path_join dir (snd f))
         else loc w (fst f) \<noteq> None
           \<and> map_option length (rem w' (path_join dir (snd f))) = map_option length (loc w (fst f))"
      using one(2,3) mine n res f by (cases x) auto
    have 5: "if snd g \<in> set failed then rem w' (path_join dir (snd g)) = rem w (path_join dir (snd g))
         else loc w (fst g) \<noteq> None
           \<and> map_option length (rem w' (path_join dir (snd g))) = map_option length (loc w (fst g))"
      if g: "g \<in> set files" for g
    proof -
      have "snd g \<in> set failed \<longleftrightarrow> snd g \<in> set fs" using sepf g res f by (auto split: sum.splits)
      moreover note bspec [OF conjunct2 [OF conjunct2 [OF conjunct2 [OF IH]]] g]
      ultimately show ?thesis unfolding res(1) one(4) [symmetric] old [OF g, symmetric] by presburger
    qed
    show ?case using 1 2 3 4 5 by simp
  qed simp
  note main = this
  show "loc w' = loc w" and "set failed \<subseteq> snd ` set files" using main by blast+
  show "(\<forall>f\<in>set files. q \<noteq> path_join dir (snd f) \<and> q \<noteq> path_join dir (snd f) @ ''.tmp'') \<Longrightarrow> rem w' q = rem w q"
    using main by blast
  assume "f \<in> set files"
  note this_one = bspec [OF conjunct2 [OF conjunct2 [OF conjunct2 [OF main]]] this]
  show "snd f \<in> set failed \<Longrightarrow> rem w' (path_join dir (snd f)) = rem w (path_join dir (snd f))"
    using this_one by presburger
  show "snd f \<notin> set failed \<Longrightarrow> loc w (fst f) \<noteq> None
      \<and> map_option length (rem w' (path_join dir (snd f))) = map_option length (loc w (fst f))"
    using this_one by presburger
qed


section \<open>What the daily job leaves unchanged\<close>

definition reports_leave :: "'w report_ports \<Rightarrow> ('w \<Rightarrow> 'v) \<Rightarrow> bool" where
  "reports_leave R f \<longleftrightarrow>
     (\<forall>v. keeps (\<lambda>w. f w = v) (db_connect R) \<and> (\<forall>w. f (db_close R w) = f w) \<and> keeps (\<lambda>w. f w = v) (make_dir R)
        \<and> (\<forall>d. keeps (\<lambda>w. f w = v) (fetch_calls R d) \<and> keeps (\<lambda>w. f w = v) (fetch_severities R d)
             \<and> keeps (\<lambda>w. f w = v) (fetch_disconnected R d) \<and> keeps (\<lambda>w. f w = v) (fetch_blocked R d)
             \<and> keeps (\<lambda>w. f w = v) (fetch_latency R d) \<and> keeps (\<lambda>w. f w = v) (fetch_alerts R d)
             \<and> (\<forall>n. keeps (\<lambda>w. f w = v) (fetch_targets R d n)))
        \<and> (\<forall>p t. keeps (\<lambda>w. f w = v) (write_text R p t)) \<and> (\<forall>p. keeps (\<lambda>w. f w = v) (read_bytes R p)))"

definition sftp_leaves :: "'w sftp_ports \<Rightarrow> ('w \<Rightarrow> 'v) \<Rightarrow> bool" where
  "sftp_leaves S f \<longleftrightarrow>
     (\<forall>w. f (snd (ssh_connect S w)) = f w) \<and> (\<forall>w. f (sftp_close S w) = f w)
   \<and> (\<forall>a b w. f (snd (sftp_put S a b w)) = f w) \<and> (\<forall>p w. f (snd (sftp_size S p w)) = f w)
   \<and> (\<forall>a b w. f (snd (sftp_rename S a b w)) = f w) \<and> (\<forall>p w. f (snd (sftp_remove S p w)) = f w)"

definition api_leaves :: "('w, 'j) atrs_ports \<Rightarrow> ('w \<Rightarrow> 'v) \<Rightarrow> bool" where
  "api_leaves A f \<longleftrightarrow>
     (\<forall>m e b t w. f (snd (send_request A m e b t w)) = f w) \<and> (\<forall>w. f (snd (post_token A w)) = f w)
   \<and> (\<forall>n w. f (pause A n w) = f w)"

lemma generate_leaves: "reports_leave R f \<Longrightarrow> keeps (\<lambda>w. f w = v) (generate_daily_report F R license dir day now)"
  unfolding generate_daily_report_def generate_files_def query_daily_statistics_def Let_def reports_leave_def
  by (intro keeps_bind keeps_then keeps_catch keeps_return keeps_raise) blast+

lemma with_generator_leaves:
  "reports_leave R f \<Longrightarrow> with_generator F R license dir day now w = (r, w') \<Longrightarrow> f w' = f w"
  using generate_leaves [of R f]
  by (fastforce simp: with_generator_def reports_leave_def dest: keepsD split: prod.splits sum.splits)

lemma upload_file_leaves: "sftp_leaves S f \<Longrightarrow> keeps (\<lambda>w. f w = v) (upload_file S True dir l n True)"
  by (rule keepsI, auto simp: sftp_leaves_def upload_file_def transfer_def eff_defs
      split: option.splits prod.splits sum.splits if_splits) (metis snd_conv)+

lemma upload_each_leaves: "sftp_leaves S f \<Longrightarrow> f (snd (upload_each S True dir files w)) = f w"
proof (induction files arbitrary: w)
  case (Cons g files)
  obtain l n where g: "g = (l, n)" by force
  obtain x w1 where up: "upload_file S True dir l n True w = (x, w1)" by (cases "upload_file S True dir l n True w")
  have "f w1 = f w" using keepsD [OF upload_file_leaves [OF Cons.prems] refl up] .
  then show ?case using Cons up g by (cases x) (auto split: prod.splits, metis snd_conv)
qed simp

lemma upload_report_leaves: "sftp_leaves S f \<Longrightarrow> upload_report S dir r w = (x, w') \<Longrightarrow> f w' = f w"
  using upload_each_leaves [of S f dir "upload_files r"]
  by (auto simp: upload_report_def upload_batch_def sftp_connect_def sftp_leaves_def
      split: prod.splits sum.splits if_splits) (metis snd_conv)+

lemma ensure_token_leaves: "api_leaves A f \<Longrightarrow> ensure_token A (tk, w) = (x, (tk1, w1)) \<Longrightarrow> f w1 = f w"
  by (auto simp: api_leaves_def ensure_token_def refresh_token_def Let_def split: if_splits prod.splits sum.splits)
    (metis snd_conv)+

lemma attempt_once_leaves: "api_leaves A f \<Longrightarrow> attempt_once A m e b t k w = (x, w1) \<Longrightarrow> f w1 = f w"
  by (auto simp: api_leaves_def attempt_once_def split: prod.splits sum.splits) (metis snd_conv)+

lemma atrs_request_leaves:
  assumes "api_leaves A f" "atrs_request C A m e b k (tk, w) = (r, (tk', w'))"
  shows "f w' = f w"
  using assms(2)
proof (induction "Suc (at_max_retries C) - k" arbitrary: k tk w rule: less_induct)
  case less
  obtain x tk1 w1 where tok: "ensure_token A (tk, w) = (x, (tk1, w1))" by (cases "ensure_token A (tk, w)") auto
  note f1 = ensure_token_leaves [OF assms(1) tok]
  show ?case
  proof (cases x)
    case (Inl err)
    then show ?thesis using less.prems tok f1 by (simp add: atrs_request.simps [of C A])
  next
    case (Inr token)
    obtain y w2 where at: "attempt_once A m e b token k w1 = (y, w2)" by (cases "attempt_once A m e b token k w1")
    note f2 = attempt_once_leaves [OF assms(1) at]
    note step = less.prems [unfolded atrs_request.simps [of C A m e b k]]
    consider "w' = w2"
      | "k = 0" "atrs_request C A m e b (Suc k) (tk1\<lparr>tk_token := None\<rparr>, w2) = (r, (tk', w'))"
      | "k < at_max_retries C" "atrs_request C A m e b (Suc k) (tk1, pause A (2 ^ k) w2) = (r, (tk', w'))"
      using step tok Inr at by (cases y) (auto split: if_splits)
    then show ?thesis
    proof cases
      case 2
      have "f w' = f w2" by (rule less.hyps [OF _ 2(2)]) (use 2(1) in simp)
      then show ?thesis using f1 f2 by simp
    next
      case 3
      have "f w' = f (pause A (2 ^ k) w2)" by (rule less.hyps [OF _ 3(2)]) (use 3(1) in simp)
      then show ?thesis using f1 f2 assms(1) by (simp add: api_leaves_def)
    qed (use f1 f2 in simp)
  qed
qed


section \<open>The four files of a report\<close>

lemma report_paths:
  assumes "with_generator F R license dir day now w = (Inr r, w')"
  shows "[dr_stats r, dr_alerts r, dr_targets r, dr_summary r] = map (path_join dir)
    [report_name F ''DAILY'' ''.csv'' license day, report_name F ''ALERTS'' ''.csv'' license day,
     report_name F ''TARGETS'' ''.csv'' license day, report_name F ''SUMMARY'' ''.json'' license day]"
  using assms
  by (auto simp: with_generator_def generate_daily_report_def generate_files_def Let_def eff_Inr_iffs eff_catch_def
      split: prod.splits sum.splits)

lemma split_on_append: "split_on c (a @ c # b) = split_on c a @ split_on c b"
  by (induction a) (auto split: list.split)

definition folder_prefix :: "string \<Rightarrow> string" where
  "folder_prefix d = (if d = [] \<or> endswith ''/'' d then d else d @ ''/'')"

lemma path_join_name: "CHR ''/'' \<notin> set n \<Longrightarrow> path_join d n = folder_prefix d @ n"
  by (cases n) (auto simp: path_join_def folder_prefix_def)

lemma file_name_path_join:
  assumes "CHR ''/'' \<notin> set n"
  shows "file_name (path_join d n) = n"
proof (cases "d = []")
  case True
  then show ?thesis using assms by (simp add: path_join_name file_name_def folder_prefix_def split_on_absent)
next
  case False
  then have "\<exists>e. folder_prefix d = e @ ''/''"
    by (cases d rule: rev_cases) (auto simp: folder_prefix_def endswith_def)
  then show ?thesis
    using assms by (auto simp: path_join_name file_name_def split_on_append split_on_absent)
qed

definition report_names :: "report_format \<Rightarrow> string \<Rightarrow> int \<Rightarrow> string list" where
  "report_names F license day =
    [report_name F ''DAILY'' ''.csv'' license day, report_name F ''ALERTS'' ''.csv'' license day,
     report_name F ''TARGETS'' ''.csv'' license day, report_name F ''SUMMARY'' ''.json'' license day]"

lemma report_upload_files:
  assumes "with_generator F R license dir day now w = (Inr r, w')"
    and "CHR ''/'' \<notin> set license" "CHR ''/'' \<notin> set (compact_day F day)"
  shows "upload_files r = map (\<lambda>n. (path_join dir n, n)) (report_names F license day)"
proof -
  have "CHR ''/'' \<notin> set n" if "n \<in> set (report_names F license day)" for n
    using that assms(2,3) by (auto simp: report_names_def report_name_def)
  then show ?thesis
    using report_paths [OF assms(1)] by (simp add: upload_files_def report_names_def file_name_path_join)
qed

lemma report_files_separate:
  assumes "CHR ''/'' \<notin> set license" "CHR ''/'' \<notin> set (compact_day F day)"
  shows "separate_targets rdir (map (\<lambda>n. (path_join dir n, n)) (report_names F license day))"
proof -
  have n: "CHR ''/'' \<notin> set n" if "n \<in> set (report_names F license day)" for n
    using that assms by (auto simp: report_names_def report_name_def)
  then have p: "map (\<lambda>f. path_join rdir (snd f)) (map (\<lambda>n. (path_join dir n, n)) (report_names F license day))
      = map ((@) (folder_prefix rdir)) (report_names F license day)"
    by (simp add: path_join_name)
  show ?thesis unfolding separate_targets_def Let_def p
    by (simp add: report_names_def report_name_def)
qed


section \<open>Properties\<close>

text \<open>An in-memory server, database and file system for the instances: the remote files, the local files and
  the number of API requests.\<close>

type_synonym mem_world = "(string \<Rightarrow> string option) \<times> (string \<Rightarrow> string option) \<times> nat"

definition mem_rem :: "mem_world \<Rightarrow> string \<Rightarrow> string option" where "mem_rem w = fst w"
definition mem_loc :: "mem_world \<Rightarrow> string \<Rightarrow> string option" where "mem_loc w = fst (snd w)"
definition mem_sent :: "mem_world \<Rightarrow> nat" where "mem_sent w = snd (snd w)"

definition mem_sftp :: "mem_world sftp_ports" where
  "mem_sftp =
    \<lparr>local_size = (\<lambda>p (r, l, n). map_option length (l p)), key_path = ''k'', key_exists = (\<lambda>_. True),
     ssh_connect = (\<lambda>w. (Inr (), w)), sftp_close = (\<lambda>w. w),
     sftp_put = (\<lambda>a b (r, l, n). case l a of None \<Rightarrow> (Inl ''no file'', (r, l, n)) | Some c \<Rightarrow> (Inr (), (r(b \<mapsto> c), l, n))),
     sftp_size = (\<lambda>p (r, l, n). case r p of None \<Rightarrow> (Inl ''no file'', (r, l, n)) | Some c \<Rightarrow> (Inr (length c), (r, l, n))),
     sftp_rename = (\<lambda>a b (r, l, n). case r b of Some _ \<Rightarrow> (Inl ''Failure'', (r, l, n))
        | None \<Rightarrow> (Inr (), (r(b := r a, a := None), l, n))),
     sftp_remove = (\<lambda>p (r, l, n). (Inr (), (r(p := None), l, n))), sftp_listdir = (\<lambda>_ w. (Inr [], w))\<rparr>"

definition mem_reports :: "mem_world report_ports" where
  "mem_reports =
    \<lparr>db_connect = (\<lambda>w. (Inr (), w)), db_close = (\<lambda>w. w), fetch_calls = (\<lambda>_ w. (Inr 7, w)),
     fetch_severities = (\<lambda>_ w. (Inr [(''HIGH'', 2), (''LOW'', 1)], w)), fetch_disconnected = (\<lambda>_ w. (Inr None, w)),
     fetch_blocked = (\<lambda>_ w. (Inr None, w)), fetch_latency = (\<lambda>_ w. (Inr (None, None), w)),
     fetch_alerts = (\<lambda>_ w. (Inr [], w)), fetch_targets = (\<lambda>_ _ w. (Inr [], w)),
     write_text = (\<lambda>p t (r, l, n). (Inr (), (r, l(p \<mapsto> t), n))),
     read_bytes = (\<lambda>p (r, l, n). case l p of None \<Rightarrow> (Inl ''no file'', (r, l, n)) | Some c \<Rightarrow> (Inr c, (r, l, n))),
     make_dir = (\<lambda>w. (Inr (), w))\<rparr>"

definition mem_api :: "(mem_world, py_val) atrs_ports" where
  "mem_api =
    \<lparr>post_token = (\<lambda>w. (Inr \<lparr>hr_status_code = 200, hr_reset = None, hr_body = Inr (''tok'', None)\<rparr>, w)),
     send_request = (\<lambda>m ep b t (r, l, n). (Inr \<lparr>hr_status_code = 201, hr_reset = None, hr_body = Inr (PDict [])\<rparr>, (r, l, Suc n))),
     pause = (\<lambda>_ w. w), clock = (\<lambda>_. 0)\<rparr>"

definition plain_format :: report_format where
  "plain_format = \<lparr>iso_time = (\<lambda>_. ''t''), iso_day = (\<lambda>_. ''d''), compact_day = (\<lambda>_. ''20260101''), end_of_day = (\<lambda>_. ''e''),
     csv_text = (\<lambda>_. ''csv''), json_text = (\<lambda>_. ''json''), sha256_hex = (\<lambda>_. ''sum'')\<rparr>"

lemma mem_sftp_ok: "sftp_ok mem_sftp mem_rem mem_loc"
  by (auto simp: sftp_ok_def mem_sftp_def mem_rem_def mem_loc_def split: option.splits)

lemma mem_leaves:
  "reports_leave mem_reports mem_sent" "sftp_leaves mem_sftp mem_sent" "api_leaves mem_api (\<lambda>w. (mem_rem w, mem_loc w))"
  by (auto simp: reports_leave_def sftp_leaves_def api_leaves_def keeps_def mem_reports_def mem_sftp_def mem_api_def
      mem_rem_def mem_loc_def mem_sent_def split: option.splits)


text \<open>C8: An upload is atomic: whatever fails in it, the file at the final path is the one that was there
  before, the only other path it may touch is the temporary one, and when it succeeds the final file has
  the size of the local one.\<close>
theorem upload_atomic:
  assumes "sftp_ok S rem loc" "upload_file S True dir local name True w = (r, w')"
  shows "(\<forall>q. q \<noteq> path_join dir name \<and> q \<noteq> path_join dir name @ ''.tmp'' \<longrightarrow> rem w' q = rem w q)
    \<and> (case r of Inl _ \<Rightarrow> rem w' (path_join dir name) = rem w (path_join dir name)
       | Inr _ \<Rightarrow> loc w local \<noteq> None
           \<and> map_option length (rem w' (path_join dir name)) = map_option length (loc w local))"
  using upload_file_effect [OF assms] by (auto split: sum.split)

theorem upload_atomic_witness:
  "\<exists>w'. upload_file mem_sftp True ''/in'' ''a'' ''a.csv'' True (Map.empty, [''a'' \<mapsto> ''xyz''], 0) = (Inr (), w')
     \<and> map_option length (mem_rem w' ''/in/a.csv'') = Some 3"
proof -
  let ?w = "(Map.empty, [''a'' \<mapsto> ''xyz''], 0) :: mem_world"
  obtain r w' where run: "upload_file mem_sftp True ''/in'' ''a'' ''a.csv'' True ?w = (r, w')"
    by (cases "upload_file mem_sftp True ''/in'' ''a'' ''a.csv'' True ?w")
  moreover have "fst (upload_file mem_sftp True ''/in'' ''a'' ''a.csv'' True ?w) = Inr ()"
    by (simp add: upload_file_def mem_sftp_def transfer_def eff_defs path_join_def endswith_def startswith_def)
  moreover have "path_join ''/in'' ''a.csv'' = ''/in/a.csv''" by code_simp
  ultimately show ?thesis using upload_atomic [OF mem_sftp_ok run] by (simp add: mem_loc_def numeral_3_eq_3)
qed

text \<open>A batch is all reported or all there: with separate targets, every file it does not name as failed is
  on the server at its final path with the local size, every file it names is as it was before, and a
  batch that returns has placed them all.\<close>
theorem upload_batch_reports:
  assumes "sftp_ok S rem loc" "separate_targets dir files" "upload_batch S True dir files w = (r, w')"
  shows "\<exists>failed. (r = Inr () \<longleftrightarrow> failed = []) \<and> set failed \<subseteq> snd ` set files
    \<and> (\<forall>f\<in>set files. if snd f \<in> set failed then rem w' (path_join dir (snd f)) = rem w (path_join dir (snd f))
         else loc w (fst f) \<noteq> None
           \<and> map_option length (rem w' (path_join dir (snd f))) = map_option length (loc w (fst f)))"
proof -
  obtain failed w1 where each: "upload_each S True dir files w = (failed, w1)"
    by (cases "upload_each S True dir files w")
  note e = upload_each_effect [OF assms(1) each assms(2)]
  have "w' = w1" "r = Inr () \<longleftrightarrow> failed = []"
    using assms(3) each by (auto simp: upload_batch_def split: if_splits)
  then show ?thesis using e by (intro exI [of _ failed]) auto
qed

theorem upload_batch_reports_witness:
  "\<exists>w'. upload_batch mem_sftp True ''/in'' [(''a'', ''a.csv''), (''b'', ''b.csv'')] (Map.empty, [''a'' \<mapsto> ''xyz''], 0)
       = (Inl (SftpUploadError ''Failed to upload 1 files: b.csv''), w')
     \<and> (\<exists>failed. failed \<noteq> [] \<and> set failed \<subseteq> {''a.csv'', ''b.csv''})"
proof -
  let ?w = "(Map.empty, [''a'' \<mapsto> ''xyz''], 0) :: mem_world"
  let ?run = "upload_batch mem_sftp True ''/in'' [(''a'', ''a.csv''), (''b'', ''b.csv'')] ?w"
  have one: "show_nat (Suc 0) = ''1''" by code_simp
  have res: "fst ?run = Inl (SftpUploadError ''Failed to upload 1 files: b.csv'')"
    by (simp add: upload_batch_def upload_file_def mem_sftp_def transfer_def eff_defs path_join_def endswith_def
        startswith_def one)
  have sep: "separate_targets ''/in'' [(''a'', ''a.csv''), (''b'', ''b.csv'')]" by code_simp
  obtain r w' where run: "?run = (r, w')" by (cases ?run)
  then have r: "r = Inl (SftpUploadError ''Failed to upload 1 files: b.csv'')" using res by (metis fst_conv)
  obtain failed where f: "r = Inr () \<longleftrightarrow> failed = []" "set failed \<subseteq> snd ` set [(''a'', ''a.csv''), (''b'', ''b.csv'')]"
    using upload_batch_reports [OF mem_sftp_ok sep run] by (elim exE conjE)
  then have "failed \<noteq> [] \<and> set failed \<subseteq> {''a.csv'', ''b.csv''}" using r by simp
  then show ?thesis unfolding run r by blast
qed

text \<open>C17: Nothing is sent to the regulator's API before the files are delivered: when a run of the daily job has
  made any request, each of the four files of the day is on the server, complete in size.\<close>
theorem daily_job_sends_after_upload:
  assumes "sftp_ok S rem loc" "reports_leave R sent" "sftp_leaves S sent" "api_leaves A (\<lambda>w. (rem w, loc w))"
    and "CHR ''/'' \<notin> set (at_license C)" "CHR ''/'' \<notin> set (compact_day F day)"
    and "daily_job F R S C A dir rdir day now w = (x, w')" "sent w' \<noteq> sent w"
  shows "\<forall>n\<in>set (report_names F (at_license C) day).
    \<exists>c. loc w' (path_join dir n) = Some c \<and> map_option length (rem w' (path_join rdir n)) = Some (length c)"
proof -
  obtain g w1 where gen: "with_generator F R (at_license C) dir day now w = (g, w1)"
    by (cases "with_generator F R (at_license C) dir day now w")
  have s1: "sent w1 = sent w" by (rule with_generator_leaves [OF assms(2) gen])
  then obtain r where r: "g = Inr r" using assms(7,8) gen by (cases g) (auto simp: daily_job_def)
  obtain u w2 where up: "upload_report S rdir r w1 = (u, w2)" by (cases "upload_report S rdir r w1")
  have s2: "sent w2 = sent w1" by (rule upload_report_leaves [OF assms(3) up])
  then have u: "u = Inr ()" using assms(7,8) gen r up s1 by (cases u) (auto simp: daily_job_def)
  obtain y tk w3 where sub: "submit_daily_report C A (iso_day F day) (statistics_value (dr_statistics r)) []
      (dr_checksum r) (\<lparr>tk_token = None, tk_expiry = None\<rparr>, w2) = (y, (tk, w3))" by (metis prod.exhaust)
  have w3: "w' = w3" using assms(7) gen r up u sub by (cases y) (auto simp: daily_job_def)
  have rl: "rem w3 = rem w2" "loc w3 = loc w2"
    using atrs_request_leaves [OF assms(4) sub [unfolded submit_daily_report_def]] by simp_all
  let ?files = "map (\<lambda>n. (path_join dir n, n)) (report_names F (at_license C) day)"
  obtain w0 failed w4 where each: "upload_each S True rdir ?files w0 = (failed, w4)" "failed = []" "w2 = sftp_close S w4"
    using up u report_upload_files [OF gen [unfolded r] assms(5,6)]
    by (auto simp: upload_report_def upload_batch_def split: prod.splits sum.splits if_splits)
  note e = upload_each_effect [OF assms(1) each(1) report_files_separate [OF assms(5,6)]]
  have "loc w' = loc w0" "rem w' = rem w4"
    using e(1) rl w3 each(3) sftp_okD(12,13) [OF assms(1)] by simp_all
  then show ?thesis using e(5) each(2) by fastforce
qed

definition severity_count :: "string \<Rightarrow> severity_counts \<Rightarrow> int option" where
  "severity_count s c =
     (if s = ''critical'' then Some (sc_critical c) else if s = ''high'' then Some (sc_high c)
      else if s = ''medium'' then Some (sc_medium c) else if s = ''low'' then Some (sc_low c) else None)"

definition severity_sum :: "severity_counts \<Rightarrow> int" where
  "severity_sum c = sc_critical c + sc_high c + sc_medium c + sc_low c"

lemma set_severity_None: "set_severity s n c = None \<longleftrightarrow> severity_count s c = None"
  by (simp add: set_severity_def severity_count_def)

lemma set_severity_Some:
  assumes "set_severity s n c = Some c1"
  shows "severity_count q c1 = (if q = s then Some n else severity_count q c)"
    and "severity_count s c = Some m \<Longrightarrow> severity_sum c1 = severity_sum c + n - m"
proof -
  consider "s = ''critical''" "c1 = c\<lparr>sc_critical := n\<rparr>" | "s = ''high''" "c1 = c\<lparr>sc_high := n\<rparr>"
    | "s = ''medium''" "c1 = c\<lparr>sc_medium := n\<rparr>" | "s = ''low''" "c1 = c\<lparr>sc_low := n\<rparr>"
    using assms unfolding set_severity_def by (metis option.inject option.simps(3))
  note known = this
  show "severity_count q c1 = (if q = s then Some n else severity_count q c)"
    using known by cases (simp_all add: severity_count_def)
  show "severity_count s c = Some m \<Longrightarrow> severity_sum c1 = severity_sum c + n - m"
    using known by cases (simp_all add: severity_count_def severity_sum_def)
qed

lemma count_alerts_sum:
  assumes "count_alerts rows (c, t) = (c', t')" "distinct (map (\<lambda>r. py_lower (fst r)) rows)"
    and "\<And>r. r \<in> set rows \<Longrightarrow> severity_count (py_lower (fst r)) c \<in> {None, Some 0}"
  shows "t' - severity_sum c' = t - severity_sum c"
  using assms
proof (induction rows arbitrary: c t)
  case (Cons row rows)
  obtain s n where row: "row = (s, n)" by force
  show ?case
  proof (cases "set_severity (py_lower s) n c")
    case None
    then show ?thesis using Cons.IH [of c t] Cons.prems row by simp
  next
    case (Some c1)
    have "severity_count (py_lower s) c \<noteq> None" using Some set_severity_None [of "py_lower s" n c] by simp
    then have "severity_count (py_lower s) c = Some 0" using Cons.prems(3) [of row] row by (metis insertE list.set_intros(1) prod.sel(1) singletonD)
    then have "severity_sum c1 = severity_sum c + n" using set_severity_Some(2) [OF Some] by simp
    moreover have "t' - severity_sum c' = t + n - severity_sum c1"
    proof (rule Cons.IH)
      show "count_alerts rows (c1, t + n) = (c', t')" using Cons.prems(1) row Some by simp
      show "distinct (map (\<lambda>r. py_lower (fst r)) rows)" using Cons.prems(2) by simp
      fix r assume r: "r \<in> set rows"
      then have "py_lower (fst r) \<noteq> py_lower s" using Cons.prems(2) row by force
      then show "severity_count (py_lower (fst r)) c1 \<in> {None, Some 0}"
        using Cons.prems(3) [of r] r unfolding set_severity_Some(1) [OF Some] by simp
    qed
    ultimately show ?thesis by simp
  qed
qed simp

text \<open>The alert total of the report is the sum of its four severities, provided no two rows of the query
  have severities that differ in case only.\<close>
theorem alert_total_is_sum:
  assumes "distinct (map (\<lambda>r. py_lower (fst r)) rows)"
  shows "st_alerts (make_statistics calls rows disc blk lat)
    = severity_sum (st_by_severity (make_statistics calls rows disc blk lat))"
proof -
  let ?zero = "\<lparr>sc_critical = 0, sc_high = 0, sc_medium = 0, sc_low = 0\<rparr>"
  obtain c t where run: "count_alerts rows (?zero, 0) = (c, t)" by (cases "count_alerts rows (?zero, 0)")
  have "t - severity_sum c = 0 - severity_sum ?zero"
    by (rule count_alerts_sum [OF run assms]) (auto simp: severity_count_def)
  then show ?thesis using run by (simp add: make_statistics_def severity_sum_def)
qed

theorem alert_total_is_sum_witness:
  "st_alerts (make_statistics 7 [(''HIGH'', 2), (''low'', 1), (''odd'', 4)] None None (None, None)) = 3"
proof -
  let ?rows = "[(''HIGH'', 2), (''low'', 1), (''odd'', 4)] :: (string \<times> int) list"
  have d: "distinct (map (\<lambda>r. py_lower (fst r)) ?rows)" by code_simp
  have "severity_sum (st_by_severity (make_statistics 7 ?rows None None (None, None))) = 3" by code_simp
  then show ?thesis using alert_total_is_sum [OF d] by metis
qed

text \<open>Two spellings of one severity: the second row replaces the first in the breakdown and both are counted.\<close>
lemma alert_total_spellings:
  "make_statistics 0 [(''HIGH'', 2), (''high'', 3)] None None (None, None) = s \<Longrightarrow>
     st_alerts s = 5 \<and> sc_high (st_by_severity s) = 3"
proof -
  have "st_alerts (make_statistics 0 [(''HIGH'', 2), (''high'', 3)] None None (None, None)) = 5"
    "sc_high (st_by_severity (make_statistics 0 [(''HIGH'', 2), (''high'', 3)] None None (None, None))) = 3"
    by code_simp+
  then show "make_statistics 0 [(''HIGH'', 2), (''high'', 3)] None None (None, None) = s \<Longrightarrow>
     st_alerts s = 5 \<and> sc_high (st_by_severity s) = 3" by blast
qed

theorem daily_job_sends_after_upload_witness:
  "\<exists>x w'. daily_job plain_format mem_reports mem_sftp \<lparr>at_license = ''ICL1'', at_max_retries = 3\<rparr> mem_api ''/out'' ''/in''
       0 0 (Map.empty, Map.empty, 0) = (x, w') \<and> mem_sent w' = 1
     \<and> map_option length (mem_rem w' ''/in/ACM_DAILY_ICL1_20260101.csv'') = Some 3"
proof -
  let ?C = "\<lparr>at_license = ''ICL1'', at_max_retries = 3\<rparr>"
  let ?w = "(Map.empty, Map.empty, 0) :: mem_world"
  let ?run = "daily_job plain_format mem_reports mem_sftp ?C mem_api ''/out'' ''/in'' 0 0 ?w"
  obtain x w' where run: "?run = (x, w')" by (cases ?run)
  have "mem_sent (snd ?run) = 1" "mem_loc (snd ?run) ''/out/ACM_DAILY_ICL1_20260101.csv'' = Some ''csv''" by code_simp+
  then have s: "mem_sent w' = 1" "mem_loc w' ''/out/ACM_DAILY_ICL1_20260101.csv'' = Some ''csv''" using run by simp_all
  have ch: "CHR ''/'' \<notin> set (at_license ?C)" "CHR ''/'' \<notin> set (compact_day plain_format 0)"
    by (simp_all add: plain_format_def)
  have ne: "mem_sent w' \<noteq> mem_sent ?w" using s by (simp add: mem_sent_def)
  have p: "report_name plain_format ''DAILY'' ''.csv'' ''ICL1'' 0 = ''ACM_DAILY_ICL1_20260101.csv''"
    "path_join ''/out'' ''ACM_DAILY_ICL1_20260101.csv'' = ''/out/ACM_DAILY_ICL1_20260101.csv''"
    "path_join ''/in'' ''ACM_DAILY_ICL1_20260101.csv'' = ''/in/ACM_DAILY_ICL1_20260101.csv''" by code_simp+
  have "\<forall>n\<in>set (report_names plain_format (at_license ?C) 0).
    \<exists>c. mem_loc w' (path_join ''/out'' n) = Some c \<and> map_option length (mem_rem w' (path_join ''/in'' n)) = Some (length c)"
    by (rule daily_job_sends_after_upload [OF mem_sftp_ok mem_leaves ch run ne])
  then show ?thesis using s run by (simp add: report_names_def p numeral_3_eq_3)
qed

end
