(* ===== verification/Jobs.thy ===== *)
theory Jobs
  imports Settings NccReports
begin

text \<open>
  The schedulers: \<open>scheduler.py\<close> of the integration with the regulator and of the archival service. APScheduler is a parameter;
  what the jobs do is in \<open>NccReports\<close> and \<open>Archival\<close>.
\<close>

section \<open>APScheduler\<close>

record ('t, 'f) job =
  j_id :: string
  j_name :: string
  j_trigger :: 't
  j_func :: 'f

text \<open>\<open>from_crontab\<close> takes the local time zone of the process when it is given none; a text it cannot read is a \<open>ValueError\<close>.
  \<open>jp_cron\<close> are triggers by weekday, hour and minute. Every job is added with \<open>replace_existing\<close>.\<close>

record ('w, 't, 'f) job_ports =
  jp_crontab :: "string \<Rightarrow> string + 't"
  jp_cron :: "string option \<Rightarrow> nat \<Rightarrow> nat \<Rightarrow> 't"
  jp_add :: "('t, 'f) job \<Rightarrow> ('w, string, unit) eff"
  jp_start :: "('w, string, unit) eff"
  jp_shutdown :: "('w, string, unit) eff"
  jp_jobs :: "'w \<Rightarrow> (('t, 'f) job \<times> instant option) list"

text \<open>The documented behaviour, over the jobs by identifier and whether the scheduler runs: a job replaces the one with its
  identifier; a running scheduler cannot be started and a stopped one cannot be shut down; a running scheduler lists its jobs.\<close>

definition jobs_ok :: "('w, 't, 'f) job_ports \<Rightarrow> ('w \<Rightarrow> string \<Rightarrow> ('t, 'f) job option) \<Rightarrow> ('w \<Rightarrow> bool) \<Rightarrow> bool" where
  "jobs_ok J planned running \<longleftrightarrow>
     (\<forall>j w. \<exists>w'. jp_add J j w = (Inr (), w') \<and> planned w' = (planned w)(j_id j \<mapsto> j) \<and> running w' = running w)
   \<and> (\<forall>w. \<exists>w'. jp_start J w = (if running w then Inl ''SchedulerAlreadyRunningError'' else Inr (), w')
           \<and> planned w' = planned w \<and> running w')
   \<and> (\<forall>w. \<exists>w'. jp_shutdown J w = (if running w then Inr () else Inl ''SchedulerNotRunningError'', w') \<and> \<not> running w')
   \<and> (\<forall>w. running w \<longrightarrow> distinct (map (j_id \<circ> fst) (jp_jobs J w))
           \<and> map_of (map (\<lambda>(j, _). (j_id j, j)) (jp_jobs J w)) = planned w)"

text \<open>\<open>add_job(f, CronTrigger.from_crontab(cron), id=i, name=n, replace_existing=True)\<close>\<close>

definition add_crontab :: "('w, 't, 'f) job_ports \<Rightarrow> string \<Rightarrow> string \<Rightarrow> 'f \<Rightarrow> string \<Rightarrow> ('w, string, unit) eff" where
  "add_crontab J i n f cron =
     eff_bind (eff_lift (jp_crontab J cron)) (\<lambda>t. jp_add J \<lparr>j_id = i, j_name = n, j_trigger = t, j_func = f\<rparr>)"

definition next_run_times :: "('w, 't, 'f) job_ports \<Rightarrow> 'w \<Rightarrow> (string, instant option) dict" where
  "next_run_times J w = fold (\<lambda>(j, t). dict_set (j_id j) t) (jp_jobs J w) []"


section \<open>Dates\<close>

text \<open>\<open>date\<close>: year, month, day. Year 1 starts the calendar; what is earlier raises, and is not modelled.\<close>

type_synonym civil = "int \<times> nat \<times> nat"

definition leap :: "int \<Rightarrow> bool" where
  "leap y \<longleftrightarrow> y mod 4 = 0 \<and> (y mod 100 \<noteq> 0 \<or> y mod 400 = 0)"

definition days_in :: "int \<Rightarrow> nat \<Rightarrow> nat" where
  "days_in y m = (if m = 2 then (if leap y then 29 else 28) else if m \<in> {4, 6, 9, 11} then 30 else 31)"

fun valid_date :: "civil \<Rightarrow> bool" where
  "valid_date (y, m, d) \<longleftrightarrow> 1 \<le> m \<and> m \<le> 12 \<and> 1 \<le> d \<and> d \<le> days_in y m"

fun day_before :: "civil \<Rightarrow> civil" where
  "day_before (y, m, d) =
     (if 1 < d then (y, m, d - 1) else if 1 < m then (y, m - 1, days_in y (m - 1)) else (y - 1, 12, 31))"

fun day_after :: "civil \<Rightarrow> civil" where
  "day_after (y, m, d) =
     (if d < days_in y m then (y, m, d + 1) else if m < 12 then (y, m + 1, 1) else (y + 1, 1, 1))"

text \<open>\<open>strftime("%Y-%m")\<close>, for years with four digits.\<close>

fun year_month_text :: "civil \<Rightarrow> string" where
  "year_month_text (y, m, d) = show_int y @ ''-'' @ (if m < 10 then ''0'' else []) @ show_nat m"


section \<open>Reports to the regulator\<close>

datatype compliance_job = Daily_report | Weekly_report | Monthly_report

text \<open>The weekly and the monthly job only log the period they are about.\<close>

definition weekly_period :: "civil \<Rightarrow> civil option \<Rightarrow> civil \<times> civil" where
  "weekly_period today end_date =
     (let e = (case end_date of Some e \<Rightarrow> e | None \<Rightarrow> day_before today) in ((day_before ^^ 6) e, e))"

definition monthly_period :: "civil \<Rightarrow> string option \<Rightarrow> string" where
  "monthly_period today report_month =
     (case report_month of
        Some m \<Rightarrow> m
      | None \<Rightarrow> (case today of (y, m, d) \<Rightarrow> year_month_text (day_before (y, m, 1))))"

definition add_if :: "bool \<Rightarrow> ('w, string, unit) eff \<Rightarrow> ('w, string, unit) eff" where
  "add_if b m = (if b then m else eff_return ())"

definition compliance_start ::
  "('w, 't, compliance_job) job_ports \<Rightarrow> ('w, string, unit) eff \<Rightarrow> compliance_settings \<Rightarrow> ('w, string, unit) eff" where
  "compliance_start J mkdir S =
     eff_then mkdir
    (eff_then (add_if (cs_daily S)
       (add_crontab J ''daily_report'' ''NCC Daily Compliance Report'' Daily_report (sc_daily_cron (cs_schedule S))))
    (eff_then (add_if (cs_weekly S)
       (add_crontab J ''weekly_report'' ''NCC Weekly Compliance Report'' Weekly_report (sc_weekly_cron (cs_schedule S))))
    (eff_then (add_if (cs_monthly S)
       (add_crontab J ''monthly_report'' ''NCC Monthly Compliance Report'' Monthly_report (sc_monthly_cron (cs_schedule S))))
       (jp_start J))))"

definition compliance_stop :: "('w, 't, 'f) job_ports \<Rightarrow> ('w, string, unit) eff" where
  "compliance_stop J = jp_shutdown J"

text \<open>\<open>get_next_run_times\<close>; \<open>shown\<close> is \<open>isoformat\<close>.\<close>

definition compliance_next_runs ::
  "('w, 't, 'f) job_ports \<Rightarrow> (instant \<Rightarrow> string) \<Rightarrow> 'w \<Rightarrow> (string, string option) dict" where
  "compliance_next_runs J shown w = map (\<lambda>(k, t). (k, map_option shown t)) (next_run_times J w)"

text \<open>The job of the scheduler and the manual trigger. A day number stands for a date, as in the report generator.\<close>

definition report_day :: "int \<Rightarrow> int option \<Rightarrow> int" where
  "report_day today report_date = (case report_date of Some d \<Rightarrow> d | None \<Rightarrow> today - 1)"

definition trigger_daily_report ::
  "report_format \<Rightarrow> 'w report_ports \<Rightarrow> 'w sftp_ports \<Rightarrow> ('w, py_val) atrs_ports \<Rightarrow> compliance_settings \<Rightarrow>
   int \<Rightarrow> instant \<Rightarrow> int option \<Rightarrow> ('w, job_error, py_val) eff" where
  "trigger_daily_report F R S A cfg today now report_date =
     daily_job F R S (client_config (cs_atrs cfg)) A ''/var/ncc/reports'' (sf_remote_path (cs_sftp cfg)) (report_day today report_date) now"

text \<open>\<open>main\<close>: an interrupt, which ends the loop of \<open>sleep\<close>, arrives at some time; nothing else leaves the loop.\<close>

definition compliance_main ::
  "('w, 't, compliance_job) job_ports \<Rightarrow> ('w, string, unit) eff \<Rightarrow> environment \<Rightarrow> ('w, string, unit) eff" where
  "compliance_main J mkdir env =
     eff_bind (eff_lift (compliance_from_env env)) (\<lambda>S. eff_then (compliance_start J mkdir S) (compliance_stop J))"


section \<open>Archival\<close>

datatype archival_job = Monthly_archival | Daily_cleanup | Weekly_statistics

definition archival_start :: "('w, 't, archival_job) job_ports \<Rightarrow> archival_settings \<Rightarrow> ('w, string, unit) eff" where
  "archival_start J S =
     eff_then (add_crontab J ''monthly_archival'' ''Monthly Data Archival'' Monthly_archival (ar_cron S))
    (eff_then (jp_add J \<lparr>j_id = ''daily_cleanup'', j_name = ''Daily Archive Cleanup'', j_trigger = jp_cron J None 3 0,
                         j_func = Daily_cleanup\<rparr>)
    (eff_then (jp_add J \<lparr>j_id = ''weekly_stats'', j_name = ''Weekly Retention Statistics'', j_trigger = jp_cron J (Some ''mon'') 8 0,
                         j_func = Weekly_statistics\<rparr>)
       (jp_start J)))"

definition archival_stop :: "('w, 't, 'f) job_ports \<Rightarrow> ('w, string, unit) eff \<Rightarrow> ('w, string, unit) eff" where
  "archival_stop J close = eff_then (jp_shutdown J) close"

text \<open>What is logged, \<open>None\<close> for the error.\<close>

definition log_retention_statistics ::
  "codecs \<Rightarrow> archive_config \<Rightarrow> 'w archive_ports \<Rightarrow> ('w, io_error, retention_stats option) eff" where
  "log_retention_statistics K C P =
     eff_catch (eff_bind (get_retention_statistics K C P) (\<lambda>s. eff_return (Some s))) (\<lambda>_. eff_return None)"

text \<open>Identifier, name, next run and text of the trigger.\<close>

definition list_jobs :: "('w, 't, 'f) job_ports \<Rightarrow> ('t \<Rightarrow> string) \<Rightarrow> 'w \<Rightarrow> (string \<times> string \<times> instant option \<times> string) list" where
  "list_jobs J shown w = map (\<lambda>(j, t). (j_id j, j_name j, t, shown (j_trigger j))) (jp_jobs J w)"


section \<open>The calendar\<close>

lemma days_in_bounds: "28 \<le> days_in y m" "days_in y m \<le> 31"
  by (simp_all add: days_in_def)

lemma days_in_december [simp]: "days_in y 12 = 31"
  by (simp add: days_in_def)

lemma valid_day_before: "valid_date c \<Longrightarrow> valid_date (day_before c)"
  using days_in_bounds by (cases c) (auto simp: Suc_le_eq intro: less_le_trans [of 0 28])

lemma day_after_before: "valid_date c \<Longrightarrow> day_after (day_before c) = c"
  by (cases c) auto

lemma valid_day_before_pow: "valid_date c \<Longrightarrow> valid_date ((day_before ^^ n) c)"
  by (induction n) (simp_all add: valid_day_before del: valid_date.simps)

lemma day_after_pow_before: "valid_date c \<Longrightarrow> (day_after ^^ n) ((day_before ^^ n) c) = c"
proof (induction n)
  case (Suc n)
  have "(day_after ^^ Suc n) ((day_before ^^ Suc n) c) = (day_after ^^ n) (day_after (day_before ((day_before ^^ n) c)))"
    by (simp add: funpow_swap1)
  then show ?case using Suc valid_day_before_pow by (simp add: day_after_before del: valid_date.simps)
qed simp

text \<open>The weekly report of a day without an explicit date covers the seven days that end with yesterday, and a run a week later starts
  with the day after.\<close>

lemma weekly_default: "weekly_period today None = ((day_before ^^ 6) (day_before today), day_before today)"
  by (simp only: weekly_period_def option.case Let_def)

lemma weekly_covers_seven:
  assumes "valid_date today" and "weekly_period today None = (a, b)"
  shows "(day_after ^^ 6) a = b \<and> day_after b = today"
  using day_after_pow_before [OF valid_day_before [OF assms(1)], of 6] day_after_before [OF assms(1)] assms(2)
  unfolding weekly_default by blast

lemma weeks_adjoin:
  assumes "valid_date today" and "weekly_period today None = (a, b)" and "weekly_period ((day_before ^^ 7) today) None = (a0, b0)"
  shows "day_after b0 = a"
proof -
  let ?e = "(day_before ^^ 7) today"
  have "day_after b0 = ?e" using weekly_covers_seven [OF valid_day_before_pow [OF assms(1)] assms(3)] by blast
  moreover have "a = (day_before ^^ 6) (day_before today)" using assms(2) unfolding weekly_default by blast
  moreover have "(day_before ^^ 6) (day_before today) = ?e" by (simp add: eval_nat_numeral)
  ultimately show ?thesis by (simp only:)
qed

text \<open>The monthly report is about the month before, in every month of the year, and different months are reported under different
  names.\<close>

lemma monthly_previous:
  "1 \<le> m \<Longrightarrow> monthly_period (y, m, d) None = year_month_text (if m = 1 then (y - 1, 12, 31) else (y, m - 1, days_in y (m - 1)))"
  by (simp add: monthly_period_def)


section \<open>What a start plans\<close>

lemma jobs_okD:
  assumes "jobs_ok J planned running"
  shows "\<exists>w'. jp_add J j w = (Inr (), w') \<and> planned w' = (planned w)(j_id j \<mapsto> j) \<and> running w' = running w"
    "\<not> running w \<Longrightarrow> \<exists>w'. jp_start J w = (Inr (), w') \<and> planned w' = planned w \<and> running w'"
    "running w \<Longrightarrow> \<exists>w'. jp_start J w = (Inl ''SchedulerAlreadyRunningError'', w') \<and> planned w' = planned w \<and> running w'"
    "running w \<Longrightarrow> \<exists>w'. jp_shutdown J w = (Inr (), w') \<and> \<not> running w'"
    "\<not> running w \<Longrightarrow> \<exists>w'. jp_shutdown J w = (Inl ''SchedulerNotRunningError'', w') \<and> \<not> running w'"
proof -
  have a: "\<forall>j w. \<exists>w'. jp_add J j w = (Inr (), w') \<and> planned w' = (planned w)(j_id j \<mapsto> j) \<and> running w' = running w"
    and b: "\<forall>w. \<exists>w'. jp_start J w = (if running w then Inl ''SchedulerAlreadyRunningError'' else Inr (), w')
           \<and> planned w' = planned w \<and> running w'"
    and c: "\<forall>w. \<exists>w'. jp_shutdown J w = (if running w then Inr () else Inl ''SchedulerNotRunningError'', w') \<and> \<not> running w'"
    using assms unfolding jobs_ok_def by blast+
  show "\<exists>w'. jp_add J j w = (Inr (), w') \<and> planned w' = (planned w)(j_id j \<mapsto> j) \<and> running w' = running w" using a by blast
  show "\<not> running w \<Longrightarrow> \<exists>w'. jp_start J w = (Inr (), w') \<and> planned w' = planned w \<and> running w'"
    "running w \<Longrightarrow> \<exists>w'. jp_start J w = (Inl ''SchedulerAlreadyRunningError'', w') \<and> planned w' = planned w \<and> running w'"
    using b [THEN spec, of w] by simp_all
  show "running w \<Longrightarrow> \<exists>w'. jp_shutdown J w = (Inr (), w') \<and> \<not> running w'"
    "\<not> running w \<Longrightarrow> \<exists>w'. jp_shutdown J w = (Inl ''SchedulerNotRunningError'', w') \<and> \<not> running w'"
    using c [THEN spec, of w] by simp_all
qed

text \<open>The plan a job that is added by a valid crontab leads to.\<close>

definition with_job :: "string \<Rightarrow> string \<Rightarrow> 'f \<Rightarrow> 't \<Rightarrow> (string \<Rightarrow> ('t, 'f) job option) \<Rightarrow> string \<Rightarrow> ('t, 'f) job option" where
  "with_job i n f t p = p(i \<mapsto> \<lparr>j_id = i, j_name = n, j_trigger = t, j_func = f\<rparr>)"

lemma add_crontab_plans:
  assumes "jobs_ok J planned running" and "jp_crontab J cron = Inr t"
  shows "\<exists>w'. add_crontab J i n f cron w = (Inr (), w') \<and> planned w' = with_job i n f t (planned w) \<and> running w' = running w"
  using jobs_okD(1) [OF assms(1), of "\<lparr>j_id = i, j_name = n, j_trigger = t, j_func = f\<rparr>" w] assms(2)
  by (simp add: add_crontab_def with_job_def eff_defs)

lemma add_if_plans:
  assumes "jobs_ok J planned running" and "b \<Longrightarrow> jp_crontab J cron = Inr t"
  shows "\<exists>w'. add_if b (add_crontab J i n f cron) w = (Inr (), w')
    \<and> planned w' = (if b then with_job i n f t (planned w) else planned w) \<and> running w' = running w"
  using add_crontab_plans [OF assms(1), of cron t i n f w] assms(2) by (cases b) (simp_all add: add_if_def eff_defs)

text \<open>From a stopped scheduler and with texts that \<open>from_crontab\<close> reads, a start succeeds, and exactly the reports that are enabled
  are planned, each on its own schedule; what was planned under other identifiers is left.\<close>

lemma compliance_start_plans:
  assumes ok: "jobs_ok J planned running" and "mkdir w = (Inr (), w)" "\<not> running w"
    and cron: "cs_daily S \<Longrightarrow> jp_crontab J (sc_daily_cron (cs_schedule S)) = Inr td"
      "cs_weekly S \<Longrightarrow> jp_crontab J (sc_weekly_cron (cs_schedule S)) = Inr tw"
      "cs_monthly S \<Longrightarrow> jp_crontab J (sc_monthly_cron (cs_schedule S)) = Inr tm"
  shows "\<exists>w'. compliance_start J mkdir S w = (Inr (), w') \<and> running w'
    \<and> planned w' = (let p = planned w;
                        p = (if cs_daily S then with_job ''daily_report'' ''NCC Daily Compliance Report'' Daily_report td p else p);
                        p = (if cs_weekly S then with_job ''weekly_report'' ''NCC Weekly Compliance Report'' Weekly_report tw p else p) in
                    if cs_monthly S then with_job ''monthly_report'' ''NCC Monthly Compliance Report'' Monthly_report tm p else p)"
proof -
  note plan = add_if_plans [OF ok]
  obtain w1 where w1: "add_if (cs_daily S) (add_crontab J ''daily_report'' ''NCC Daily Compliance Report'' Daily_report
      (sc_daily_cron (cs_schedule S))) w = (Inr (), w1)" "running w1 = running w"
    "planned w1 = (if cs_daily S then with_job ''daily_report'' ''NCC Daily Compliance Report'' Daily_report td (planned w) else planned w)"
    using plan [OF cron(1), where w = w] by blast
  obtain w2 where w2: "add_if (cs_weekly S) (add_crontab J ''weekly_report'' ''NCC Weekly Compliance Report'' Weekly_report
      (sc_weekly_cron (cs_schedule S))) w1 = (Inr (), w2)" "running w2 = running w1"
    "planned w2 = (if cs_weekly S then with_job ''weekly_report'' ''NCC Weekly Compliance Report'' Weekly_report tw (planned w1) else planned w1)"
    using plan [OF cron(2), where w = w1] by blast
  obtain w3 where w3: "add_if (cs_monthly S) (add_crontab J ''monthly_report'' ''NCC Monthly Compliance Report'' Monthly_report
      (sc_monthly_cron (cs_schedule S))) w2 = (Inr (), w3)" "running w3 = running w2"
    "planned w3 = (if cs_monthly S then with_job ''monthly_report'' ''NCC Monthly Compliance Report'' Monthly_report tm (planned w2) else planned w2)"
    using plan [OF cron(3), where w = w2] by blast
  obtain w4 where w4: "jp_start J w3 = (Inr (), w4)" "planned w4 = planned w3" "running w4"
    using jobs_okD(2) [OF ok, of w3] assms(3) w1(2) w2(2) w3(2) by blast
  have "compliance_start J mkdir S w = (Inr (), w4)"
    by (simp add: compliance_start_def eff_then_step assms(2) w1(1) w2(1) w3(1) w4(1))
  then show ?thesis using w4(2,3) by (simp add: w3(3) w2(3) w1(3) Let_def)
qed

text \<open>A text that \<open>from_crontab\<close> refuses stops the start where it stands: what was planned before stays and nothing runs.\<close>

lemma bad_crontab_stops_start:
  assumes ok: "jobs_ok J planned running" and "mkdir w = (Inr (), w)" "\<not> running w" "cs_daily S" "cs_weekly S"
    and "jp_crontab J (sc_daily_cron (cs_schedule S)) = Inr td" "jp_crontab J (sc_weekly_cron (cs_schedule S)) = Inl e"
  shows "\<exists>w'. compliance_start J mkdir S w = (Inl e, w') \<and> \<not> running w'
    \<and> planned w' = with_job ''daily_report'' ''NCC Daily Compliance Report'' Daily_report td (planned w)"
proof -
  obtain w1 where w1: "add_crontab J ''daily_report'' ''NCC Daily Compliance Report'' Daily_report (sc_daily_cron (cs_schedule S)) w = (Inr (), w1)"
      "planned w1 = with_job ''daily_report'' ''NCC Daily Compliance Report'' Daily_report td (planned w)" "running w1 = running w"
    using add_crontab_plans [OF ok assms(6), where w = w] by blast
  have "compliance_start J mkdir S w = (Inl e, w1)"
    by (simp add: compliance_start_def eff_then_step assms(2,4,5) add_if_def w1(1)) (simp add: add_crontab_def assms(7) eff_defs)
  then show ?thesis using w1(2,3) assms(3) by simp
qed

text \<open>The archival service plans its three jobs whatever its settings are, and then lists each of them once.\<close>

lemma archival_start_lists:
  assumes ok: "jobs_ok J planned running" and "\<not> running w" "planned w = Map.empty" "jp_crontab J (ar_cron S) = Inr t"
  shows "\<exists>w'. archival_start J S w = (Inr (), w') \<and> running w'
    \<and> mset (map (j_id \<circ> fst) (jp_jobs J w')) = {#''monthly_archival'', ''daily_cleanup'', ''weekly_stats''#}"
proof -
  let ?c = "\<lparr>j_id = ''daily_cleanup'', j_name = ''Daily Archive Cleanup'', j_trigger = jp_cron J None 3 0, j_func = Daily_cleanup\<rparr>"
  let ?s = "\<lparr>j_id = ''weekly_stats'', j_name = ''Weekly Retention Statistics'', j_trigger = jp_cron J (Some ''mon'') 8 0,
    j_func = Weekly_statistics\<rparr>"
  obtain w1 where w1: "add_crontab J ''monthly_archival'' ''Monthly Data Archival'' Monthly_archival (ar_cron S) w = (Inr (), w1)"
      "planned w1 = with_job ''monthly_archival'' ''Monthly Data Archival'' Monthly_archival t (planned w)" "running w1 = running w"
    using add_crontab_plans [OF ok assms(4), where w = w] by blast
  obtain w2 where w2: "jp_add J ?c w1 = (Inr (), w2)" "planned w2 = (planned w1)(j_id ?c \<mapsto> ?c)" "running w2 = running w1"
    using jobs_okD(1) [OF ok] by blast
  obtain w3 where w3: "jp_add J ?s w2 = (Inr (), w3)" "planned w3 = (planned w2)(j_id ?s \<mapsto> ?s)" "running w3 = running w2"
    using jobs_okD(1) [OF ok] by blast
  obtain w4 where w4: "jp_start J w3 = (Inr (), w4)" "planned w4 = planned w3" "running w4"
    using jobs_okD(2) [OF ok, of w3] assms(2) w1(3) w2(3) w3(3) by blast
  have run: "archival_start J S w = (Inr (), w4)"
    by (simp add: archival_start_def eff_then_step w1(1) w2(1) w3(1) w4(1))
  have d: "distinct (map (j_id \<circ> fst) (jp_jobs J w4))"
    and m: "map_of (map (\<lambda>(j, _). (j_id j, j)) (jp_jobs J w4)) = planned w4"
    using ok w4(3) unfolding jobs_ok_def by blast+
  have "set (map (j_id \<circ> fst) (jp_jobs J w4)) = dom (planned w4)"
    unfolding m [symmetric] dom_map_of_conv_image_fst by (force simp: image_iff)
  also have "\<dots> = set [''monthly_archival'', ''daily_cleanup'', ''weekly_stats'']"
    by (auto simp: w4(2) w3(2) w2(2) w1(2) with_job_def assms(3))
  finally have "mset (map (j_id \<circ> fst) (jp_jobs J w4)) = mset [''monthly_archival'', ''daily_cleanup'', ''weekly_stats'']"
    by (subst set_eq_iff_mset_eq_distinct [symmetric]) (simp_all add: d)
  then show ?thesis using run w4(3) by auto
qed

text \<open>A stop of a scheduler that does not run raises before the connection of the archival service is closed.\<close>

lemma stop_leaves_connection:
  "jobs_ok J planned running \<Longrightarrow> \<not> running w \<Longrightarrow> \<exists>w'. archival_stop J close w = (Inl ''SchedulerNotRunningError'', w')"
  using jobs_okD(5) [of J planned running w] by (auto simp: archival_stop_def eff_then_fails)

text \<open>A scheduler in memory behaves as documented.\<close>

definition kept_jobs :: "('t, 'f) job list \<Rightarrow> string \<Rightarrow> ('t, 'f) job option" where
  "kept_jobs js = map_of (map (\<lambda>j. (j_id j, j)) js)"

definition mem_jobs :: "((string, 'f) job list \<times> bool, string, 'f) job_ports" where
  "mem_jobs =
     \<lparr>jp_crontab = (\<lambda>c. if c = [] then Inl ''ValueError'' else Inr c), jp_cron = (\<lambda>d h m. ''cron''),
      jp_add = (\<lambda>j (js, r). (Inr (), j # js, r)),
      jp_start = (\<lambda>(js, r). (if r then Inl ''SchedulerAlreadyRunningError'' else Inr (), js, True)),
      jp_shutdown = (\<lambda>(js, r). (if r then Inr () else Inl ''SchedulerNotRunningError'', [], False)),
      jp_jobs = (\<lambda>(js, r). map (\<lambda>k. (the (kept_jobs js k), None)) (remdups (map j_id js)))\<rparr>"

lemma kept_jobs_id: "k \<in> j_id ` set js \<Longrightarrow> \<exists>j. kept_jobs js k = Some j \<and> j_id j = k"
  by (induction js) (auto simp: kept_jobs_def)

lemma kept_jobs_listed:
  "set ks \<subseteq> j_id ` set js \<Longrightarrow> map_of (map (\<lambda>k. (j_id (the (kept_jobs js k)), the (kept_jobs js k))) ks) = kept_jobs js |` set ks"
proof (induction ks)
  case (Cons k ks)
  obtain j where "kept_jobs js k = Some j" "j_id j = k" using kept_jobs_id [of k js] Cons.prems by auto
  then show ?case using Cons by (auto simp: restrict_map_def fun_eq_iff)
qed (simp add: restrict_map_def)

lemma kept_jobs_dom: "kept_jobs js |` (j_id ` set js) = kept_jobs js"
  by (rule map_le_antisym) (auto simp: map_le_def restrict_map_def kept_jobs_def dom_map_of_conv_image_fst image_image)

lemma mem_jobs_ok: "jobs_ok mem_jobs (\<lambda>(js, r). kept_jobs js) snd"
proof -
  have i: "map (j_id \<circ> (the \<circ> kept_jobs js)) (remdups (map j_id js)) = remdups (map j_id js)" for js :: "(string, 'f) job list"
    using kept_jobs_id [of _ js] by (fastforce intro!: map_idI)
  have "distinct (map (j_id \<circ> fst) (jp_jobs mem_jobs (js, r)))" for js :: "(string, 'f) job list" and r
    using i [of js] by (simp add: mem_jobs_def comp_def)
  moreover have "map_of (map (\<lambda>(j, _). (j_id j, j)) (jp_jobs mem_jobs (js, r))) = kept_jobs js" for js :: "(string, 'f) job list" and r
    using kept_jobs_listed [of "remdups (map j_id js)" js] by (simp add: mem_jobs_def comp_def kept_jobs_dom)
  ultimately show ?thesis
    unfolding jobs_ok_def by (auto simp: mem_jobs_def kept_jobs_def)
qed

definition monthly_settings :: archival_settings where
  "monthly_settings =
     \<lparr>ar_hot_days = 90, ar_warm_days = 365, ar_cold_years = 7, ar_frequency = MONTHLY, ar_compression = ZSTD, ar_level = 3,
      ar_chunk_size = 10000, ar_tables = [], ar_cron = ''0 2 1 * *'', ar_prefix = [], ar_metadata_prefix = [], ar_max_workers = 4,
      ar_batch_timeout = 300, ar_metrics = True, ar_metrics_port = 9092, ar_gdpr_deletion = True, ar_gdpr_days = 2555\<rparr>"

lemma archival_start_example:
  "\<exists>w'. archival_start mem_jobs monthly_settings ([], False) = (Inr (), w')
    \<and> mset (map (j_id \<circ> fst) (jp_jobs mem_jobs w')) = {#''monthly_archival'', ''daily_cleanup'', ''weekly_stats''#}"
proof -
  have cron: "jp_crontab mem_jobs (ar_cron monthly_settings) = Inr ''0 2 1 * *''" by (simp add: mem_jobs_def monthly_settings_def)
  show ?thesis using archival_start_lists [OF mem_jobs_ok _ _ cron, of "([], False)"] by (simp add: kept_jobs_def) blast
qed

end
