(* ===== verification/ModelRegistry.thy ===== *)
theory ModelRegistry
  imports Effects PyText "HOL-Library.List_Lexorder" "HOL-Library.Char_ord"
begin

text \<open>
  The model registry, \<open>services/ml-pipeline/model_registry.py\<close>: the index of models kept in memory and
  on disk, the directory of each model, and the champion. A directory holds the metadata file and model
  files; model ids are single path components, so different ids have different directories. The clock, the
  order in which the file system lists a directory and the existence of a source file are parameters.
\<close>

section \<open>State\<close>

record model_metadata =
  md_id :: string
  md_version :: string
  md_created :: string
  md_algorithm :: string
  md_samples :: int
  md_auc :: rat
  md_precision :: rat
  md_recall :: rat
  md_f1 :: rat
  md_accuracy :: rat
  md_features :: "string list"
  md_importance :: "(string, rat) dict"
  md_hyperparameters :: "(string, py_val) dict"
  md_status :: string
  md_deployed :: "string option"
  md_replaced_by :: "string option"
  md_production :: "(string, rat) dict option"

record index_entry =
  ie_version :: string
  ie_created :: string
  ie_status :: string
  ie_auc :: rat
  ie_path :: string
  ie_deployed :: "string option"

record model_dir =
  dir_meta :: "model_metadata option"
  dir_files :: "string list"

type_synonym index_file = "(string, index_entry) dict \<times> string option \<times> string"

record registry =
  rg_models :: "(string, index_entry) dict"
  rg_champion :: "string option"
  rg_updated :: string
  rg_dirs :: "string \<Rightarrow> model_dir option"
  rg_disk :: "index_file option"
  rg_ticks :: nat

record registry_env =
  time_at :: "nat \<Rightarrow> string"
  source_exists :: "string \<Rightarrow> bool"
  listing :: "string list \<Rightarrow> string list"
  base_path :: string

datatype os_error = MissingFile string

type_synonym 'a reg_eff = "(registry, os_error, 'a) eff"


section \<open>The index\<close>

definition save_index :: "registry_env \<Rightarrow> registry \<Rightarrow> registry" where
  "save_index E r =
     r\<lparr>rg_updated := time_at E (rg_ticks r), rg_ticks := Suc (rg_ticks r),
       rg_disk := Some (rg_models r, rg_champion r, time_at E (rg_ticks r))\<rparr>"

definition load_index :: "registry_env \<Rightarrow> registry \<Rightarrow> registry" where
  "load_index E r =
     (case rg_disk r of
        Some (ms, c, t) \<Rightarrow> r\<lparr>rg_models := ms, rg_champion := c, rg_updated := t\<rparr>
      | None \<Rightarrow> save_index E
          (r\<lparr>rg_models := [], rg_champion := None, rg_updated := time_at E (rg_ticks r), rg_ticks := Suc (rg_ticks r)\<rparr>))"

text \<open>\<open>ModelRegistry(path)\<close> over what the disk holds: nothing is left in memory from before.\<close>

definition empty_disk :: registry where
  "empty_disk = \<lparr>rg_models = [], rg_champion = None, rg_updated = [], rg_dirs = (\<lambda>_. None), rg_disk = None, rg_ticks = 0\<rparr>"

definition new_registry :: "registry_env \<Rightarrow> registry" where
  "new_registry E = load_index E empty_disk"

definition reopen :: "registry_env \<Rightarrow> registry \<Rightarrow> registry" where
  "reopen E r = load_index E (r\<lparr>rg_models := [], rg_champion := None, rg_updated := []\<rparr>)"


section \<open>Operations\<close>

text \<open>\<open>Path(p).suffix\<close>: from the last dot of the last component, unless the dot is its first or last character.\<close>

definition path_name :: "string \<Rightarrow> string" where
  "path_name p = last (split_on (CHR ''/'') p)"

definition path_suffix :: "string \<Rightarrow> string" where
  "path_suffix p =
     (let n = path_name p; tail = takeWhile (\<lambda>c. c \<noteq> CHR ''.'') (rev n); k = length n - length tail in
      if k \<le> 1 \<or> tail = [] then [] else CHR ''.'' # rev tail)"

definition insert_name :: "string \<Rightarrow> string list \<Rightarrow> string list" where
  "insert_name n ns = (if n \<in> set ns then ns else ns @ [n])"

definition entry_of :: "string \<Rightarrow> model_metadata \<Rightarrow> index_entry" where
  "entry_of path m = \<lparr>ie_version = md_version m, ie_created = md_created m, ie_status = md_status m,
     ie_auc = md_auc m, ie_path = path, ie_deployed = None\<rparr>"

definition register_model :: "registry_env \<Rightarrow> string \<Rightarrow> model_metadata \<Rightarrow> string reg_eff" where
  "register_model E path m r =
     (let i = md_id m;
          d = (case rg_dirs r i of Some d \<Rightarrow> d | None \<Rightarrow> \<lparr>dir_meta = None, dir_files = []\<rparr>);
          r0 = r\<lparr>rg_dirs := (rg_dirs r)(i \<mapsto> d)\<rparr>; file = ''model'' @ path_suffix path in
      if \<not> source_exists E path then (Inl (MissingFile path), r0)
      else (Inr i, save_index E
        (r0\<lparr>rg_dirs := (rg_dirs r)(i \<mapsto> \<lparr>dir_meta = Some m, dir_files = insert_name file (dir_files d)\<rparr>),
            rg_models := dict_set i (entry_of (base_path E @ ''/'' @ i @ ''/'' @ file) m) (rg_models r0)\<rparr>)))"

definition get_metadata_of :: "registry \<Rightarrow> string \<Rightarrow> model_metadata option" where
  "get_metadata_of r i = (case rg_dirs r i of None \<Rightarrow> None | Some d \<Rightarrow> dir_meta d)"

definition get_model_path :: "registry_env \<Rightarrow> registry \<Rightarrow> string \<Rightarrow> string option" where
  "get_model_path E r i =
     (if dict_get (rg_models r) i = None then None
      else case rg_dirs r i of
        None \<Rightarrow> None
      | Some d \<Rightarrow> (case filter (startswith ''model.'') (listing E (dir_files d)) of
                      [] \<Rightarrow> None
                    | f # _ \<Rightarrow> Some (base_path E @ ''/'' @ i @ ''/'' @ f)))"

definition update_metadata :: "registry_env \<Rightarrow> string \<Rightarrow> model_metadata \<Rightarrow> bool reg_eff" where
  "update_metadata E i m r =
     (case dict_get (rg_models r) i of
        None \<Rightarrow> (Inr False, r)
      | Some info \<Rightarrow>
          (case rg_dirs r i of
             None \<Rightarrow> (Inl (MissingFile i), r)
           | Some d \<Rightarrow>
               (Inr True, save_index E
                 (r\<lparr>rg_dirs := (rg_dirs r)(i \<mapsto> d\<lparr>dir_meta := Some m\<rparr>),
                    rg_models := dict_set i
                      (info\<lparr>ie_status := md_status m,
                            ie_deployed := (if truthy (md_deployed m) then md_deployed m else ie_deployed info)\<rparr>)
                      (rg_models r)\<rparr>))))"

definition archive_old :: "registry_env \<Rightarrow> string \<Rightarrow> bool reg_eff" where
  "archive_old E i r =
     (if truthy (rg_champion r)
      then case get_metadata_of r (the (rg_champion r)) of
             None \<Rightarrow> (Inr False, r)
           | Some m \<Rightarrow> update_metadata E (the (rg_champion r))
                         (m\<lparr>md_status := ''archived'', md_replaced_by := Some i\<rparr>) r
      else (Inr False, r))"

definition read_clock :: "registry_env \<Rightarrow> string reg_eff" where
  "read_clock E r = (Inr (time_at E (rg_ticks r)), r\<lparr>rg_ticks := Suc (rg_ticks r)\<rparr>)"

definition promote_to_champion :: "registry_env \<Rightarrow> string \<Rightarrow> bool reg_eff" where
  "promote_to_champion E i r =
     (if dict_get (rg_models r) i = None then (Inr False, r)
      else eff_then (archive_old E i)
        (eff_bind (eff_gets (\<lambda>s. get_metadata_of s i)) (\<lambda>found.
           case found of
             None \<Rightarrow> eff_return False
           | Some m \<Rightarrow>
               eff_bind (read_clock E) (\<lambda>now.
               eff_then (update_metadata E i (m\<lparr>md_status := ''champion'', md_deployed := Some now\<rparr>))
               (eff_then (eff_modify (\<lambda>s. save_index E (s\<lparr>rg_champion := Some i\<rparr>)))
                (eff_return True))))) r)"

definition get_champion :: "registry_env \<Rightarrow> registry \<Rightarrow> (string \<times> string) option" where
  "get_champion E r =
     (if \<not> truthy (rg_champion r) then None
      else case get_model_path E r (the (rg_champion r)) of
             None \<Rightarrow> None
           | Some p \<Rightarrow> if p = [] then None else Some (the (rg_champion r), p))"

record model_summary =
  su_id :: string
  su_version :: string
  su_status :: string
  su_created :: string
  su_auc :: rat
  su_precision :: rat
  su_recall :: rat
  su_deployed :: "string option"

definition summary_of :: "string \<Rightarrow> model_metadata \<Rightarrow> model_summary" where
  "summary_of i m = \<lparr>su_id = i, su_version = md_version m, su_status = md_status m, su_created = md_created m,
     su_auc = md_auc m, su_precision = md_precision m, su_recall = md_recall m, su_deployed = md_deployed m\<rparr>"

fun summaries :: "registry \<Rightarrow> string option \<Rightarrow> (string, index_entry) dict \<Rightarrow> model_summary list" where
  "summaries r status [] = []"
| "summaries r status ((i, info) # rest) =
     (if truthy status \<and> Some (ie_status info) \<noteq> status then summaries r status rest
      else case get_metadata_of r i of
             None \<Rightarrow> summaries r status rest
           | Some m \<Rightarrow> summary_of i m # summaries r status rest)"

text \<open>\<open>sort(key, reverse=True)\<close> keeps the order of equal keys.\<close>

definition list_models :: "registry \<Rightarrow> string option \<Rightarrow> model_summary list" where
  "list_models r status = rev (sort_key su_created (rev (summaries r status (rg_models r))))"

record model_scores =
  ms_auc :: rat
  ms_precision :: rat
  ms_recall :: rat
  ms_f1 :: rat

definition scores_of :: "model_metadata \<Rightarrow> model_scores" where
  "scores_of m = \<lparr>ms_auc = md_auc m, ms_precision = md_precision m, ms_recall = md_recall m, ms_f1 = md_f1 m\<rparr>"

definition score_delta :: "model_scores \<Rightarrow> model_scores \<Rightarrow> model_scores" where
  "score_delta b a = \<lparr>ms_auc = ms_auc b - ms_auc a, ms_precision = ms_precision b - ms_precision a,
     ms_recall = ms_recall b - ms_recall a, ms_f1 = ms_f1 b - ms_f1 a\<rparr>"

definition compare_registered ::
  "registry \<Rightarrow> string \<Rightarrow> string \<Rightarrow> (model_scores \<times> model_scores \<times> model_scores \<times> string) option" where
  "compare_registered r a b =
     (case (get_metadata_of r a, get_metadata_of r b) of
        (Some ma, Some mb) \<Rightarrow>
          Some (scores_of ma, scores_of mb, score_delta (scores_of mb) (scores_of ma),
                if md_auc mb > md_auc ma then b else a)
      | _ \<Rightarrow> None)"

definition archive_model :: "registry_env \<Rightarrow> string \<Rightarrow> bool reg_eff" where
  "archive_model E i r =
     (case get_metadata_of r i of
        None \<Rightarrow> (Inr False, r)
      | Some m \<Rightarrow> update_metadata E i (m\<lparr>md_status := ''archived''\<rparr>) r)"

definition delete_model :: "registry_env \<Rightarrow> string \<Rightarrow> bool reg_eff" where
  "delete_model E i r =
     (if dict_get (rg_models r) i = None then (Inr False, r)
      else if rg_champion r = Some i then (Inr False, r)
      else (Inr True, save_index E (r\<lparr>rg_dirs := (rg_dirs r)(i := None), rg_models := dict_pop i (rg_models r)\<rparr>)))"



section \<open>Runs\<close>

datatype registry_call = Register string model_metadata | Promote string | Archive_model string | Delete_model string

definition registry_step :: "registry_env \<Rightarrow> registry_call \<Rightarrow> registry \<Rightarrow> registry" where
  "registry_step E c r =
     (case c of
        Register path m \<Rightarrow> snd (register_model E path m r)
      | Promote i \<Rightarrow> snd (promote_to_champion E i r)
      | Archive_model i \<Rightarrow> snd (archive_model E i r)
      | Delete_model i \<Rightarrow> snd (delete_model E i r))"

text \<open>What holds between calls: the file of the index is the index in memory, every model of the index has
  its metadata on disk with the same status, and the champion is a model of the index.\<close>

definition entry_ok :: "registry \<Rightarrow> string \<Rightarrow> index_entry \<Rightarrow> bool" where
  "entry_ok r i info \<longleftrightarrow> (\<exists>m. get_metadata_of r i = Some m \<and> md_status m = ie_status info)"

definition registry_ok :: "registry \<Rightarrow> bool" where
  "registry_ok r \<longleftrightarrow>
     rg_disk r = Some (rg_models r, rg_champion r, rg_updated r)
   \<and> dict_wf (rg_models r)
   \<and> (\<forall>i info. dict_get (rg_models r) i = Some info \<longrightarrow> entry_ok r i info)
   \<and> (\<forall>c. rg_champion r = Some c \<longrightarrow> dict_get (rg_models r) c \<noteq> None)"

lemma registry_okD:
  assumes "registry_ok r"
  shows "rg_disk r = Some (rg_models r, rg_champion r, rg_updated r)" and "dict_wf (rg_models r)"
    and "dict_get (rg_models r) i = Some info \<Longrightarrow> \<exists>m. get_metadata_of r i = Some m \<and> md_status m = ie_status info"
    and "rg_champion r = Some c \<Longrightarrow> dict_get (rg_models r) c \<noteq> None"
  using assms by (auto simp: registry_ok_def entry_ok_def)

lemma save_index_simps [simp]:
  "rg_models (save_index E r) = rg_models r" "rg_champion (save_index E r) = rg_champion r"
  "rg_dirs (save_index E r) = rg_dirs r" "get_metadata_of (save_index E r) i = get_metadata_of r i"
  "rg_disk (save_index E r) = Some (rg_models r, rg_champion r, rg_updated (save_index E r))"
  by (simp_all add: save_index_def get_metadata_of_def)

lemma registry_ok_save:
  "registry_ok (save_index E r) \<longleftrightarrow> dict_wf (rg_models r)
     \<and> (\<forall>i info. dict_get (rg_models r) i = Some info \<longrightarrow> entry_ok r i info)
     \<and> (\<forall>c. rg_champion r = Some c \<longrightarrow> dict_get (rg_models r) c \<noteq> None)"
  by (simp add: registry_ok_def entry_ok_def)

lemma new_registry_ok: "registry_ok (new_registry E)"
  by (simp add: new_registry_def load_index_def empty_disk_def registry_ok_save)

lemma get_metadata_upd [simp]:
  "get_metadata_of (r\<lparr>rg_dirs := (rg_dirs s)(i \<mapsto> d)\<rparr>) j = (if j = i then dir_meta d else get_metadata_of s j)"
  "get_metadata_of (r\<lparr>rg_dirs := (rg_dirs s)(i \<mapsto> d), rg_models := ms\<rparr>) j
     = (if j = i then dir_meta d else get_metadata_of s j)"
  "get_metadata_of (r\<lparr>rg_dirs := (rg_dirs s)(i := None), rg_models := ms\<rparr>) j
     = (if j = i then None else get_metadata_of s j)"
  by (simp_all add: get_metadata_of_def)

lemma register_ok: "registry_ok r \<Longrightarrow> registry_ok (snd (register_model E path m r))"
proof (cases "source_exists E path")
  case False
  assume ok: "registry_ok r"
  have "get_metadata_of (snd (register_model E path m r)) = get_metadata_of r"
    using False by (auto simp: register_model_def Let_def get_metadata_of_def split: option.split)
  moreover have "rg_models (snd (register_model E path m r)) = rg_models r"
    "rg_champion (snd (register_model E path m r)) = rg_champion r"
    "rg_updated (snd (register_model E path m r)) = rg_updated r"
    "rg_disk (snd (register_model E path m r)) = rg_disk r"
    using False by (simp_all add: register_model_def Let_def)
  ultimately show ?thesis using ok by (simp add: registry_ok_def entry_ok_def)
next
  case True
  assume ok: "registry_ok r"
  let ?r = "snd (register_model E path m r)"
  obtain e where e: "rg_models ?r = dict_set (md_id m) e (rg_models r)" "ie_status e = md_status m"
    using True by (simp add: register_model_def Let_def entry_of_def)
  have m: "get_metadata_of ?r j = (if j = md_id m then Some m else get_metadata_of r j)" for j
    using True by (simp add: register_model_def Let_def)
  have c: "rg_champion ?r = rg_champion r" "rg_disk ?r = Some (rg_models ?r, rg_champion ?r, rg_updated ?r)"
    using True by (simp_all add: register_model_def Let_def)
  have "entry_ok ?r i info" if "dict_get (rg_models ?r) i = Some info" for i info
    using that registry_okD(3) [OF ok, of i info] e(2) unfolding e(1) entry_ok_def m
    by (cases "i = md_id m") simp_all
  moreover have "dict_get (rg_models ?r) i \<noteq> None" if "rg_champion ?r = Some i" for i
    using that registry_okD(4) [OF ok, of i] unfolding e(1) c(1) by simp
  moreover have "dict_wf (rg_models ?r)" using registry_okD(2) [OF ok] unfolding e(1) by simp
  ultimately show ?thesis unfolding registry_ok_def using c(2) by blast
qed

lemma dict_keys_set_present: "dict_get d k = Some w \<Longrightarrow> dict_keys (dict_set k v d) = dict_keys d"
  using dict_get_None_iff [of d k] by (auto simp: dict_keys_def dict_set_def update_keys)

text \<open>\<open>update_metadata\<close> on a registered model: what it returns, and what it leaves.\<close>

lemma update_metadata_run:
  assumes "registry_ok r" "dict_get (rg_models r) i = Some info"
  obtains r' where "update_metadata E i m r = (Inr True, r')" "registry_ok r'" "rg_champion r' = rg_champion r"
    "\<And>j. get_metadata_of r' j = (if j = i then Some m else get_metadata_of r j)"
    "\<And>j. map_option ie_status (dict_get (rg_models r') j)
        = (if j = i then Some (md_status m) else map_option ie_status (dict_get (rg_models r) j))"
    "dict_keys (rg_models r') = dict_keys (rg_models r)"
proof -
  obtain d where d: "rg_dirs r i = Some d"
    using registry_okD(3) [OF assms] by (auto simp: get_metadata_of_def split: option.splits)
  let ?r = "snd (update_metadata E i m r)"
  have run: "update_metadata E i m r = (Inr True, ?r)" using assms(2) d by (simp add: update_metadata_def)
  have md: "get_metadata_of ?r j = (if j = i then Some m else get_metadata_of r j)" for j
    using assms(2) d by (simp add: update_metadata_def)
  obtain e where e: "rg_models ?r = dict_set i e (rg_models r)" "ie_status e = md_status m"
    using assms(2) d by (simp add: update_metadata_def)
  have keys: "dict_keys (rg_models ?r) = dict_keys (rg_models r)"
    unfolding e(1) by (rule dict_keys_set_present [OF assms(2)])
  have c: "rg_champion ?r = rg_champion r" "rg_disk ?r = Some (rg_models ?r, rg_champion ?r, rg_updated ?r)"
    using assms(2) d by (simp_all add: update_metadata_def)
  have "entry_ok ?r k info" if "dict_get (rg_models ?r) k = Some info" for k info
    using that registry_okD(3) [OF assms(1), of k info] e(2) unfolding e(1) entry_ok_def md
    by (cases "k = i") simp_all
  moreover have "dict_get (rg_models ?r) k \<noteq> None" if "rg_champion ?r = Some k" for k
    using that registry_okD(4) [OF assms(1), of k] unfolding e(1) c(1) by simp
  moreover have "dict_wf (rg_models ?r)" using registry_okD(2) [OF assms(1)] unfolding e(1) by simp
  ultimately have ok: "registry_ok ?r" unfolding registry_ok_def using c(2) by blast
  show ?thesis
    by (rule that [OF run ok _ _ _ keys]) (simp_all add: c md e)
qed

definition retired :: "string \<Rightarrow> model_metadata \<Rightarrow> model_metadata" where
  "retired i m = m\<lparr>md_status := ''archived'', md_replaced_by := Some i\<rparr>"

definition crowned :: "string \<Rightarrow> model_metadata \<Rightarrow> model_metadata" where
  "crowned now m = m\<lparr>md_status := ''champion'', md_deployed := Some now\<rparr>"

lemma archive_old_run:
  assumes "registry_ok r"
  obtains b r' where "archive_old E i r = (Inr b, r')" "registry_ok r'" "rg_champion r' = rg_champion r"
    "\<And>j. get_metadata_of r' j =
       (if truthy (rg_champion r) \<and> rg_champion r = Some j then map_option (retired i) (get_metadata_of r j)
        else get_metadata_of r j)"
    "dict_keys (rg_models r') = dict_keys (rg_models r)"
proof (cases "truthy (rg_champion r)")
  case False
  then show ?thesis using that [of False r] assms by (simp add: archive_old_def)
next
  case True
  then obtain c where c: "rg_champion r = Some c" by (auto simp: truthy_def split: option.splits)
  obtain info where info: "dict_get (rg_models r) c = Some info" using registry_okD(4) [OF assms c] by blast
  obtain m where m: "get_metadata_of r c = Some m" using registry_okD(3) [OF assms info] by blast
  obtain r' where r': "update_metadata E c (retired i m) r = (Inr True, r')" "registry_ok r'"
    "rg_champion r' = rg_champion r" "\<And>j. get_metadata_of r' j = (if j = c then Some (retired i m) else get_metadata_of r j)"
    "dict_keys (rg_models r') = dict_keys (rg_models r)"
    using update_metadata_run [OF assms info] by metis
  show ?thesis
    by (rule that [OF _ r'(2,3) _ r'(5)]) (use True c m r'(1,4) in \<open>auto simp: archive_old_def retired_def\<close>)
qed

lemma dict_keys_iff: "i \<in> set (dict_keys d) \<longleftrightarrow> dict_get d i \<noteq> None"
  by (simp add: dict_keys_def dict_get_None_iff)

lemma promote_run:
  assumes ok: "registry_ok r" and reg: "dict_get (rg_models r) i \<noteq> None"
  obtains now r' where "promote_to_champion E i r = (Inr True, r')" "registry_ok r'" "rg_champion r' = Some i"
    "\<And>j. get_metadata_of r' j =
       (let m = (if truthy (rg_champion r) \<and> rg_champion r = Some j then map_option (retired i) (get_metadata_of r j)
                 else get_metadata_of r j)
        in if j = i then map_option (crowned now) m else m)"
    "dict_keys (rg_models r') = dict_keys (rg_models r)"
proof -
  obtain b r1 where r1: "archive_old E i r = (Inr b, r1)" "registry_ok r1" "rg_champion r1 = rg_champion r"
    "\<And>j. get_metadata_of r1 j =
       (if truthy (rg_champion r) \<and> rg_champion r = Some j then map_option (retired i) (get_metadata_of r j)
        else get_metadata_of r j)"
    "dict_keys (rg_models r1) = dict_keys (rg_models r)"
    using archive_old_run [OF ok] by metis
  have "dict_get (rg_models r1) i \<noteq> None" using reg r1(5) by (metis dict_keys_iff)
  then obtain info m where m: "dict_get (rg_models r1) i = Some info" "get_metadata_of r1 i = Some m"
    using registry_okD(3) [OF r1(2)] by blast
  let ?now = "time_at E (rg_ticks r1)" and ?r2 = "r1\<lparr>rg_ticks := Suc (rg_ticks r1)\<rparr>"
  have md2: "get_metadata_of ?r2 = get_metadata_of r1" by (rule ext) (simp add: get_metadata_of_def)
  have ok2: "registry_ok ?r2" using r1(2) md2 by (simp add: registry_ok_def entry_ok_def)
  have m2: "dict_get (rg_models ?r2) i = Some info" using m(1) by simp
  obtain r3 where r3: "update_metadata E i (crowned ?now m) ?r2 = (Inr True, r3)" "registry_ok r3"
    "\<And>j. get_metadata_of r3 j = (if j = i then Some (crowned ?now m) else get_metadata_of ?r2 j)"
    "dict_keys (rg_models r3) = dict_keys (rg_models ?r2)"
    using update_metadata_run [OF ok2 m2] by metis
  let ?r4 = "save_index E (r3\<lparr>rg_champion := Some i\<rparr>)"
  have md4: "get_metadata_of ?r4 = get_metadata_of r3" by (rule ext) (simp add: save_index_def get_metadata_of_def)
  have k4: "dict_keys (rg_models ?r4) = dict_keys (rg_models r)" using r3(4) r1(5) by simp
  have "dict_keys (rg_models r3) = dict_keys (rg_models r)" using r3(4) r1(5) by simp
  then have reg3: "dict_get (rg_models r3) i \<noteq> None" using reg by (metis dict_keys_iff)
  have mdc: "get_metadata_of (r3\<lparr>rg_champion := Some i\<rparr>) = get_metadata_of r3"
    by (rule ext) (simp add: get_metadata_of_def)
  have ok4: "registry_ok ?r4"
    using registry_okD(2,3) [OF r3(2)] reg3 unfolding registry_ok_save entry_ok_def mdc by simp
  have run: "promote_to_champion E i r = (Inr True, ?r4)"
    using reg r1(1) m r3(1)
    by (auto simp: promote_to_champion_def eff_then_def eff_bind_def eff_gets_def read_clock_def eff_modify_def
        eff_return_def crowned_def)
  show ?thesis
    by (rule that [OF run ok4 _ _ k4, of ?now]) (use m(2) in \<open>auto simp: md4 r3(3) md2 r1(4) Let_def\<close>)
qed

lemma archive_model_run:
  assumes "registry_ok r"
  shows "registry_ok (snd (archive_model E i r))" and "rg_champion (snd (archive_model E i r)) = rg_champion r"
    and "get_metadata_of (snd (archive_model E i r)) j \<in>
      {get_metadata_of r j, map_option (md_status_update (\<lambda>_. ''archived'')) (get_metadata_of r j)}"
    and "dict_keys (rg_models (snd (archive_model E i r))) = dict_keys (rg_models r)"
proof -
  have "registry_ok (snd (archive_model E i r)) \<and> rg_champion (snd (archive_model E i r)) = rg_champion r
    \<and> (\<forall>j. get_metadata_of (snd (archive_model E i r)) j \<in>
      {get_metadata_of r j, map_option (md_status_update (\<lambda>_. ''archived'')) (get_metadata_of r j)})
    \<and> dict_keys (rg_models (snd (archive_model E i r))) = dict_keys (rg_models r)"
  proof (cases "get_metadata_of r i")
    case None
    then show ?thesis using assms by (simp add: archive_model_def)
  next
    case (Some m)
    show ?thesis
    proof (cases "dict_get (rg_models r) i")
      case None
      then show ?thesis using Some assms by (simp add: archive_model_def update_metadata_def)
    next
      case info: (Some info)
      obtain r' where "update_metadata E i (m\<lparr>md_status := ''archived''\<rparr>) r = (Inr True, r')" "registry_ok r'"
        "rg_champion r' = rg_champion r"
        "\<And>j. get_metadata_of r' j = (if j = i then Some (m\<lparr>md_status := ''archived''\<rparr>) else get_metadata_of r j)"
        "dict_keys (rg_models r') = dict_keys (rg_models r)"
        using update_metadata_run [OF assms info] by metis
      then show ?thesis using Some by (simp add: archive_model_def)
    qed
  qed
  then show "registry_ok (snd (archive_model E i r))" and "rg_champion (snd (archive_model E i r)) = rg_champion r"
    and "get_metadata_of (snd (archive_model E i r)) j \<in>
      {get_metadata_of r j, map_option (md_status_update (\<lambda>_. ''archived'')) (get_metadata_of r j)}"
    and "dict_keys (rg_models (snd (archive_model E i r))) = dict_keys (rg_models r)" by blast+
qed

lemma delete_model_run:
  assumes ok: "registry_ok r"
  shows "registry_ok (snd (delete_model E i r))" and "rg_champion (snd (delete_model E i r)) = rg_champion r"
    and "get_metadata_of (snd (delete_model E i r)) j \<in> {get_metadata_of r j, None}"
    and "dict_get (rg_models (snd (delete_model E i r))) j = Some info \<Longrightarrow> dict_get (rg_models r) j = Some info"
proof -
  have dirs: "get_metadata_of (r\<lparr>rg_dirs := (rg_dirs r)(i := None), rg_models := ms\<rparr>) k
      = (if k = i then None else get_metadata_of r k)" for k ms by (simp add: get_metadata_of_def)
  show "registry_ok (snd (delete_model E i r))"
    using registry_okD [OF ok] ok
    by (auto simp: delete_model_def registry_ok_save entry_ok_def dirs)
  show "rg_champion (snd (delete_model E i r)) = rg_champion r" by (simp add: delete_model_def)
  show "get_metadata_of (snd (delete_model E i r)) j \<in> {get_metadata_of r j, None}"
    by (simp add: delete_model_def dirs)
  show "dict_get (rg_models (snd (delete_model E i r))) j = Some info \<Longrightarrow> dict_get (rg_models r) j = Some info"
    by (simp add: delete_model_def split: if_splits)
qed

lemma promote_ok: "registry_ok r \<Longrightarrow> registry_ok (snd (promote_to_champion E i r))"
proof (cases "dict_get (rg_models r) i = None")
  case False
  assume "registry_ok r"
  then show ?thesis by (rule promote_run [where E = E, OF _ False]) simp
qed (simp add: promote_to_champion_def)

interpretation models: step_machine "registry_step E" registry_ok for E
  by unfold_locales
    (auto simp: registry_step_def register_ok promote_ok archive_model_run(1) delete_model_run(1) split: registry_call.split)

text \<open>At most one model of the index has the status of a champion, the one the index names.\<close>

definition sole_champion :: "registry \<Rightarrow> bool" where
  "sole_champion r \<longleftrightarrow> (\<forall>i m. dict_get (rg_models r) i \<noteq> None \<and> get_metadata_of r i = Some m
     \<and> md_status m = ''champion'' \<longrightarrow> rg_champion r = Some i)"

definition registers_candidate :: "registry_call \<Rightarrow> bool" where
  "registers_candidate c \<longleftrightarrow> (case c of Register path m \<Rightarrow> md_status m \<noteq> ''champion'' | Promote i \<Rightarrow> i \<noteq> [] | _ \<Rightarrow> True)"

lemma sole_champion_register:
  assumes "sole_champion r" "md_status m \<noteq> ''champion''"
  shows "sole_champion (snd (register_model E path m r))"
proof (cases "source_exists E path")
  case False
  then have "get_metadata_of (snd (register_model E path m r)) = get_metadata_of r"
    "rg_models (snd (register_model E path m r)) = rg_models r" "rg_champion (snd (register_model E path m r)) = rg_champion r"
    by (auto simp: register_model_def Let_def get_metadata_of_def split: option.split)
  then show ?thesis using assms(1) by (simp add: sole_champion_def)
next
  case True
  let ?r = "snd (register_model E path m r)"
  have md: "get_metadata_of ?r j = (if j = md_id m then Some m else get_metadata_of r j)"
    "rg_champion ?r = rg_champion r"
    "dict_get (rg_models ?r) j \<noteq> None \<longleftrightarrow> j = md_id m \<or> dict_get (rg_models r) j \<noteq> None" for j
    using True by (simp_all add: register_model_def Let_def)
  show ?thesis
    using assms by (auto simp: sole_champion_def md md(3) simp del: not_None_eq split: if_splits)
qed

lemma sole_champion_promote:
  assumes ok: "registry_ok r" and sole: "sole_champion r" and named: "rg_champion r \<noteq> Some []" and i: "i \<noteq> []"
  shows "sole_champion (snd (promote_to_champion E i r))" and "rg_champion (snd (promote_to_champion E i r)) \<noteq> Some []"
proof -
  have "sole_champion (snd (promote_to_champion E i r)) \<and> rg_champion (snd (promote_to_champion E i r)) \<noteq> Some []"
  proof (cases "dict_get (rg_models r) i = None")
    case True
    then show ?thesis using sole named by (simp add: promote_to_champion_def)
  next
    case False
    show ?thesis
    proof (rule promote_run [where E = E, OF ok False])
      fix now r'
      assume p: "promote_to_champion E i r = (Inr True, r')" "rg_champion r' = Some i"
        "dict_keys (rg_models r') = dict_keys (rg_models r)"
        "\<And>j. get_metadata_of r' j =
           (let m = (if truthy (rg_champion r) \<and> rg_champion r = Some j then map_option (retired i) (get_metadata_of r j)
                     else get_metadata_of r j)
            in if j = i then map_option (crowned now) m else m)"
      have "j = i" if "dict_get (rg_models r') j \<noteq> None" "get_metadata_of r' j = Some m" "md_status m = ''champion''" for j m
      proof (rule ccontr)
        assume j: "j \<noteq> i"
        show False
        proof (cases "rg_champion r = Some j")
          case True
          then have "truthy (rg_champion r)" using named by (auto simp: truthy_def)
          then show False using that(2,3) j True by (auto simp: p(4) retired_def)
        next
          case False
          then have "get_metadata_of r j = Some m" using that(2) j by (simp add: p(4) Let_def)
          moreover have "dict_get (rg_models r) j \<noteq> None" using that(1) p(3) by (metis dict_keys_iff)
          ultimately show False using sole that(3) False by (simp add: sole_champion_def)
        qed
      qed
      then show ?thesis using p(1,2) i by (auto simp: sole_champion_def)
    qed
  qed
  then show "sole_champion (snd (promote_to_champion E i r))"
    and "rg_champion (snd (promote_to_champion E i r)) \<noteq> Some []" by blast+
qed

lemma sole_champion_step:
  assumes ok: "registry_ok r" and sole: "sole_champion r" "rg_champion r \<noteq> Some []" and c: "registers_candidate c"
  shows "sole_champion (registry_step E c r)" and "rg_champion (registry_step E c r) \<noteq> Some []"
proof -
  have "sole_champion (registry_step E c r) \<and> rg_champion (registry_step E c r) \<noteq> Some []"
  proof (cases c)
    case (Register path m)
    then show ?thesis
      using sole_champion_register [OF sole(1), of m E path] c sole(2)
      by (simp add: registry_step_def registers_candidate_def register_model_def Let_def)
  next
    case (Promote i)
    then show ?thesis
      using sole_champion_promote [OF ok sole] c by (simp add: registry_step_def registers_candidate_def)
  next
    case (Archive_model i)
    have "get_metadata_of (snd (archive_model E i r)) j = Some m \<Longrightarrow> md_status m = ''champion'' \<Longrightarrow> get_metadata_of r j = Some m" for j m
      using archive_model_run(3) [OF ok, of E i j] by (cases "get_metadata_of r j") auto
    moreover have "dict_get (rg_models (snd (archive_model E i r))) j \<noteq> None \<Longrightarrow> dict_get (rg_models r) j \<noteq> None" for j
      using archive_model_run(4) [OF ok, of E i] by (metis dict_keys_iff)
    ultimately show ?thesis
      using sole Archive_model archive_model_run(2) [OF ok, of E i] by (simp add: registry_step_def sole_champion_def)
  next
    case (Delete_model i)
    have "get_metadata_of (snd (delete_model E i r)) j = Some m \<Longrightarrow> get_metadata_of r j = Some m" for j m
      using delete_model_run(3) [OF ok, of E i j] by auto
    moreover have "dict_get (rg_models (snd (delete_model E i r))) j \<noteq> None \<Longrightarrow> dict_get (rg_models r) j \<noteq> None" for j
      using delete_model_run(4) [OF ok, of E i j] by auto
    ultimately show ?thesis
      using sole Delete_model delete_model_run(2) [OF ok, of E i] by (simp add: registry_step_def sole_champion_def)
  qed
  then show "sole_champion (registry_step E c r)" and "rg_champion (registry_step E c r) \<noteq> Some []" by blast+
qed

lemma sole_champion_run:
  "registry_ok r \<Longrightarrow> sole_champion r \<Longrightarrow> rg_champion r \<noteq> Some [] \<Longrightarrow> list_all registers_candidate cs \<Longrightarrow>
     sole_champion (fold (registry_step E) cs r)"
proof (induction cs arbitrary: r)
  case (Cons c cs)
  then show ?case using sole_champion_step [of r c E] models.step_keeps [of r E c] by simp
qed simp

lemma set_summaries:
  "su \<in> set (summaries r status d) \<longleftrightarrow>
     (\<exists>i info m. (i, info) \<in> set d \<and> \<not> (truthy status \<and> Some (ie_status info) \<noteq> status)
        \<and> get_metadata_of r i = Some m \<and> su = summary_of i m)"
proof -
  let ?one = "\<lambda>(i, info). if truthy status \<and> Some (ie_status info) \<noteq> status then []
    else case get_metadata_of r i of None \<Rightarrow> [] | Some m \<Rightarrow> [summary_of i m]"
  have "summaries r status d = concat (map ?one d)"
    by (induction r status d rule: summaries.induct) (simp_all split: option.split)
  then have "su \<in> set (summaries r status d) \<longleftrightarrow> (\<exists>x\<in>set d. su \<in> set (?one x))" by simp
  also have "\<dots> \<longleftrightarrow> (\<exists>i info. (i, info) \<in> set d \<and> su \<in> set (?one (i, info)))" unfolding Bex_def split_paired_Ex ..
  also have "\<dots> \<longleftrightarrow> (\<exists>i info m. (i, info) \<in> set d \<and> \<not> (truthy status \<and> Some (ie_status info) \<noteq> status)
        \<and> get_metadata_of r i = Some m \<and> su = summary_of i m)"
  proof (intro ex_cong1)
    fix i info
    show "(i, info) \<in> set d \<and> su \<in> set (?one (i, info)) \<longleftrightarrow>
        (\<exists>m. (i, info) \<in> set d \<and> \<not> (truthy status \<and> Some (ie_status info) \<noteq> status)
          \<and> get_metadata_of r i = Some m \<and> su = summary_of i m)"
      by (cases "get_metadata_of r i") simp_all
  qed
  finally show ?thesis .
qed


section \<open>Properties\<close>

text \<open>C16: After any sequence of registrations, promotions, archivals and deletions on a new registry, the index in
  memory is the one on disk, each model of the index has its metadata on disk with the same status, and
  the champion is still in the index; so a registry opened again on that disk has the same models and the
  same champion.\<close>
theorem registry_reachable:
  "registry_ok (fold (registry_step E) cs (new_registry E))
   \<and> rg_models (reopen E' (fold (registry_step E) cs (new_registry E))) = rg_models (fold (registry_step E) cs (new_registry E))
   \<and> rg_champion (reopen E' (fold (registry_step E) cs (new_registry E))) = rg_champion (fold (registry_step E) cs (new_registry E))"
proof -
  have "registry_ok (fold (registry_step E) cs (new_registry E))" by (rule models.run_keeps [OF new_registry_ok])
  then show ?thesis by (simp add: registry_okD(1) reopen_def load_index_def)
qed

text \<open>A promotion of a model of the index succeeds: that model becomes the champion with its deployment time
  set, the previous champion is archived with the new one as its replacement, and no other model's
  metadata changes.\<close>
theorem promotion_swaps:
  assumes "registry_ok r" "dict_get (rg_models r) i \<noteq> None" "rg_champion r = Some old" "old \<noteq> i" "old \<noteq> []"
  shows "\<exists>r' now. promote_to_champion E i r = (Inr True, r') \<and> rg_champion r' = Some i
    \<and> get_metadata_of r' i = map_option (crowned now) (get_metadata_of r i)
    \<and> get_metadata_of r' old = map_option (retired i) (get_metadata_of r old)
    \<and> (\<forall>j. j \<noteq> i \<and> j \<noteq> old \<longrightarrow> get_metadata_of r' j = get_metadata_of r j)"
  by (rule promote_run [OF assms(1,2), where E = E])
    (use assms(3,4,5) in \<open>auto simp: truthy_def Let_def split: option.split\<close>)

text \<open>At most one model is champion: when no model is registered with the status of a champion, then after any
  sequence of calls every model of the index that has it is the one the index names.\<close>
theorem at_most_one_champion:
  assumes "list_all registers_candidate cs"
  shows "sole_champion (fold (registry_step E) cs (new_registry E))"
proof (rule sole_champion_run [OF new_registry_ok _ _ assms])
  show "sole_champion (new_registry E)" "rg_champion (new_registry E) \<noteq> Some []"
    by (simp_all add: new_registry_def load_index_def empty_disk_def sole_champion_def save_index_def)
qed

text \<open>The listing holds exactly the models of the index with the status asked for, newest first.\<close>
theorem listing_complete_sorted:
  assumes "registry_ok r"
  shows "sorted_wrt (\<lambda>a b. su_created b \<le> su_created a) (list_models r status)
    \<and> (\<forall>su. su \<in> set (list_models r status) \<longleftrightarrow>
         (\<exists>i m. dict_get (rg_models r) i \<noteq> None \<and> get_metadata_of r i = Some m
            \<and> (truthy status \<longrightarrow> status = Some (md_status m)) \<and> su = summary_of i m))"
proof -
  have "sorted (map su_created (sort_key su_created (rev (summaries r status (rg_models r)))))"
    by (rule sorted_sort_key)
  then have "sorted_wrt (\<lambda>a b. su_created b \<le> su_created a) (list_models r status)"
    by (simp add: list_models_def sorted_wrt_rev sorted_wrt_map)
  moreover have "su \<in> set (list_models r status) \<longleftrightarrow>
         (\<exists>i m. dict_get (rg_models r) i \<noteq> None \<and> get_metadata_of r i = Some m
            \<and> (truthy status \<longrightarrow> status = Some (md_status m)) \<and> su = summary_of i m)" (is "?L \<longleftrightarrow> ?R") for su
  proof -
    have "?L \<longleftrightarrow> (\<exists>i info m. dict_get (rg_models r) i = Some info \<and> \<not> (truthy status \<and> Some (ie_status info) \<noteq> status)
        \<and> get_metadata_of r i = Some m \<and> su = summary_of i m)"
      by (simp add: list_models_def set_summaries dict_get_wf [OF registry_okD(2) [OF assms]])
    also have "\<dots> \<longleftrightarrow> ?R"
      using registry_okD(3) [OF assms] by fastforce
    finally show ?thesis .
  qed
  ultimately show ?thesis by blast
qed

text \<open>Archiving the champion leaves it the champion of the index, with the status of an archived model.\<close>
lemma archived_champion_stays:
  assumes "registry_ok r" "rg_champion r = Some c" "get_metadata_of r c = Some m"
  shows "rg_champion (snd (archive_model E c r)) = Some c
    \<and> map_option md_status (get_metadata_of (snd (archive_model E c r)) c) = Some ''archived''"
proof -
  obtain info where "dict_get (rg_models r) c = Some info" using registry_okD(4) [OF assms(1,2)] by blast
  then obtain r' where "update_metadata E c (m\<lparr>md_status := ''archived''\<rparr>) r = (Inr True, r')"
    "rg_champion r' = rg_champion r"
    "get_metadata_of r' c = Some (m\<lparr>md_status := ''archived''\<rparr>)"
    using update_metadata_run [OF assms(1)] by metis
  then show ?thesis using assms(2,3) by (simp add: archive_model_def)
qed

text \<open>Promoting the champion again marks it as replaced by itself.\<close>
lemma promoted_again:
  assumes "registry_ok r" "rg_champion r = Some c" "c \<noteq> []"
  shows "map_option md_replaced_by (get_metadata_of (snd (promote_to_champion E c r)) c) = Some (Some c)"
proof -
  obtain info where info: "dict_get (rg_models r) c = Some info" using registry_okD(4) [OF assms(1,2)] by blast
  obtain m where m: "get_metadata_of r c = Some m" using registry_okD(3) [OF assms(1) info] by blast
  have "dict_get (rg_models r) c \<noteq> None" using info by simp
  then show ?thesis
    by (rule promote_run [OF assms(1), where E = E])
      (use assms(2,3) m in \<open>auto simp: truthy_def Let_def crowned_def retired_def split: option.split\<close>)
qed

text \<open>A registry of two models for the instances.\<close>

definition sample_env :: registry_env where
  "sample_env = \<lparr>time_at = (\<lambda>n. ''t'' @ show_nat n), source_exists = (\<lambda>_. True), listing = (\<lambda>ns. ns), base_path = ''r''\<rparr>"

definition sample_model :: "string \<Rightarrow> string \<Rightarrow> model_metadata" where
  "sample_model i t = \<lparr>md_id = i, md_version = ''1'', md_created = t, md_algorithm = ''xgboost'', md_samples = 9,
     md_auc = 9/10, md_precision = 9/10, md_recall = 8/10, md_f1 = 8/10, md_accuracy = 9/10, md_features = [],
     md_importance = [], md_hyperparameters = [], md_status = ''candidate'', md_deployed = None,
     md_replaced_by = None, md_production = None\<rparr>"

definition sample_calls :: "registry_call list" where
  "sample_calls = [Register ''a.json'' (sample_model ''a'' ''2026-01''), Register ''b.json'' (sample_model ''b'' ''2026-02''),
     Promote ''a'']"

definition sample_registry :: registry where
  "sample_registry = fold (registry_step sample_env) sample_calls (new_registry sample_env)"

lemma sample_registry_ok: "registry_ok sample_registry"
  unfolding sample_registry_def by (rule models.run_keeps [OF new_registry_ok])

lemma sample_registry_facts:
  "rg_champion sample_registry = Some ''a''" "dict_keys (rg_models sample_registry) = [''a'', ''b'']"
  "map_option md_status (get_metadata_of sample_registry ''b'') = Some ''candidate''"
  "map su_id (list_models sample_registry None) = [''b'', ''a'']"
  by code_simp+

theorem promotion_swaps_witness:
  "\<exists>r'. promote_to_champion sample_env ''b'' sample_registry = (Inr True, r') \<and> rg_champion r' = Some ''b''"
proof -
  have "dict_get (rg_models sample_registry) ''b'' \<noteq> None"
    using sample_registry_facts(2) dict_keys_iff [of "''b''" "rg_models sample_registry"] by simp
  then show ?thesis
    using promotion_swaps [OF sample_registry_ok _ sample_registry_facts(1), of "''b''" sample_env] by auto
qed

theorem at_most_one_champion_witness:
  "sole_champion (fold (registry_step sample_env) sample_calls (new_registry sample_env))"
proof -
  have "list_all registers_candidate sample_calls"
    by (simp add: sample_calls_def registers_candidate_def sample_model_def)
  then show ?thesis by (rule at_most_one_champion)
qed

theorem listing_complete_sorted_witness:
  "sorted_wrt (\<lambda>a b. su_created b \<le> su_created a) (list_models sample_registry None)
   \<and> map su_id (list_models sample_registry None) = [''b'', ''a'']"
  using listing_complete_sorted [OF sample_registry_ok, of None] sample_registry_facts(4) by simp

end
