(* ===== verification/PyFloat.thy ===== *)
theory PyFloat
  imports PyText
begin

text \<open>
  Python's floats: the rounding of a rational number to a binary64 double, to the nearest one and to the even one of two
  as near. A float is modelled by the rational number it is; where the code's comparisons depend on what an operation loses,
  the operation is the exact one followed by \<open>double_round\<close>. Neither infinities nor NaN appear where it is used.
\<close>

section \<open>The exponent of a number\<close>

text \<open>\<open>int.bit_length\<close>.\<close>

function bit_length :: "int \<Rightarrow> int" where
  "bit_length n = (if n \<le> 0 then 0 else 1 + bit_length (n div 2))"
  by pat_completeness auto
termination
  by (relation "measure nat") (auto simp: nat_less_iff)

declare bit_length.simps [simp del]

lemma bit_length_nonneg: "0 \<le> bit_length n"
  by (induction n rule: bit_length.induct) (simp add: bit_length.simps)

lemma bit_length_bounds:
  "0 < n \<Longrightarrow> (2 :: rat) powi (bit_length n - 1) \<le> of_int n \<and> of_int n < (2 :: rat) powi bit_length n"
proof (induction n rule: bit_length.induct)
  case (1 n)
  show ?case
  proof (cases "n = 1")
    case True
    then show ?thesis by (simp add: bit_length.simps)
  next
    case False
    with 1(2) have pos: "0 < n div 2" by auto
    have b: "bit_length n = 1 + bit_length (n div 2)" using 1(2) by (simp add: bit_length.simps [of n])
    have d: "2 * (n div 2) \<le> n" "n < 2 * (n div 2) + 2" by auto
    have ih: "(2 :: rat) powi (bit_length (n div 2) - 1) \<le> of_int (n div 2)" "of_int (n div 2) < (2 :: rat) powi bit_length (n div 2)"
      using 1 pos by auto
    have "(2 :: rat) powi bit_length (n div 2) = 2 * 2 powi (bit_length (n div 2) - 1)"
      by (simp add: power_int_diff)
    with ih(1) have lo: "(2 :: rat) powi bit_length (n div 2) \<le> of_int n"
    proof -
      have "(of_int (2 * (n div 2)) :: rat) \<le> of_int n" using d(1) by (simp only: of_int_le_iff)
      with ih(1) show ?thesis by (simp only: of_int_mult of_int_numeral \<open>(2 :: rat) powi bit_length (n div 2) = 2 * 2 powi (bit_length (n div 2) - 1)\<close>)
    qed
    have "(2 :: rat) powi bit_length (n div 2) = of_int (2 ^ nat (bit_length (n div 2)))"
      using bit_length_nonneg by (simp add: power_int_def)
    with ih(2) have "n div 2 + 1 \<le> 2 ^ nat (bit_length (n div 2))" by (simp only: of_int_less_iff)
    then have "n < 2 * 2 ^ nat (bit_length (n div 2))" using d(2) by linarith
    then have "of_int n < (of_int (2 * 2 ^ nat (bit_length (n div 2))) :: rat)" by (simp only: of_int_less_iff)
    also have "\<dots> = 2 powi bit_length n"
      using \<open>(2 :: rat) powi bit_length (n div 2) = of_int (2 ^ nat (bit_length (n div 2)))\<close>
      by (simp add: b power_int_add)
    finally show ?thesis using lo by (simp add: b)
  qed
qed

definition double_exponent :: "rat \<Rightarrow> int" where
  "double_exponent x =
     (case quotient_of x of (p, q) \<Rightarrow>
      let e = bit_length p - bit_length q in if 2 powi e \<le> x then e else e - 1)"

lemma double_exponent_bounds:
  assumes "0 < x"
  shows "2 powi double_exponent x \<le> x" and "x < 2 powi (double_exponent x + 1)"
proof -
  obtain p q where pq: "quotient_of x = (p, q)" by (cases "quotient_of x")
  have x: "x = of_int p / of_int q" and q: "0 < q"
    using quotient_of_div [OF pq] quotient_of_denom_pos [OF pq] by simp_all
  have "0 < (of_int p :: rat)" using assms q by (simp add: x zero_less_divide_iff)
  then have p: "0 < p" by simp
  note bp = bit_length_bounds [OF p] and bq = bit_length_bounds [OF q]
  let ?e = "bit_length p - bit_length q"
  have "x < 2 powi bit_length p / 2 powi (bit_length q - 1)"
    unfolding x using bp bq q p by (intro frac_less) auto
  then have up: "x < 2 powi (?e + 1)" by (simp add: power_int_diff power_int_add)
  have "2 powi (bit_length p - 1) / 2 powi bit_length q \<le> x"
    unfolding x using bp bq q p by (intro frac_le) auto
  then have low: "2 powi (?e - 1) \<le> x" by (simp add: power_int_diff)
  show "2 powi double_exponent x \<le> x" "x < 2 powi (double_exponent x + 1)"
    using up low by (auto simp: double_exponent_def pq Let_def)
qed


section \<open>Rounding\<close>

text \<open>The last place of the doubles near a number: 53 binary digits, and no digit below the last of the subnormal ones.\<close>

definition last_place :: "rat \<Rightarrow> int" where
  "last_place x = max (double_exponent \<bar>x\<bar> - 52) (- 1074)"

definition double_round :: "rat \<Rightarrow> rat" where
  "double_round x =
     (if x = 0 then 0 else of_int (round_half_even (x / 2 powi last_place x)) * 2 powi last_place x)"

lemma double_round_error: "x \<noteq> 0 \<Longrightarrow> \<bar>double_round x - x\<bar> \<le> 2 powi (last_place x - 1)"
proof -
  assume x: "x \<noteq> 0"
  let ?u = "2 powi last_place x :: rat"
  have "\<bar>of_int (round_half_even (x / ?u)) - x / ?u\<bar> * ?u \<le> 1 / 2 * ?u"
    by (intro mult_right_mono round_half_even_close) simp
  moreover have "\<bar>of_int (round_half_even (x / ?u)) - x / ?u\<bar> * ?u = \<bar>double_round x - x\<bar>"
  proof -
    have "\<bar>of_int (round_half_even (x / ?u)) - x / ?u\<bar> * ?u = \<bar>(of_int (round_half_even (x / ?u)) - x / ?u) * ?u\<bar>"
      by (simp add: abs_mult)
    then show ?thesis by (simp add: double_round_def x left_diff_distrib)
  qed
  ultimately show ?thesis by (simp add: power_int_diff)
qed

lemma powi_less_iff: "(2 :: rat) powi a < 2 powi b \<longleftrightarrow> a < b"
  by (metis (no_types, opaque_lifting) linorder_not_less one_less_numeral_iff power_int_increasing power_int_strict_increasing semiring_norm(76) less_imp_le)

lemma double_exponent_less: "0 < x \<Longrightarrow> x < 2 powi k \<Longrightarrow> double_exponent x < k"
  using double_exponent_bounds(1) [of x] powi_less_iff [of "double_exponent x" k] by simp

text \<open>Up to two, the error is at most \<open>2 ^ - 53\<close>.\<close>

lemma double_round_close:
  assumes "0 \<le> x" "x \<le> 2" shows "\<bar>double_round x - x\<bar> \<le> 1 / 2 ^ 53"
proof (cases "x = 0 \<or> x = 2")
  case True
  moreover have "double_round 2 = 2" by code_simp
  ultimately show ?thesis by (auto simp: double_round_def)
next
  case False
  with assms have x: "0 < x" "x < 2 powi 1" by auto
  then have "last_place x \<le> - 52" using double_exponent_less [OF x] by (simp add: last_place_def)
  then have "(2 :: rat) powi (last_place x - 1) \<le> 2 powi (- 53)" by (intro power_int_increasing) auto
  also have "(2 :: rat) powi (- 53) = 1 / 2 ^ 53" by (simp add: power_int_def power_one_over)
  finally show ?thesis using double_round_error [of x] x(1) by simp
qed

lemma rounded_between:
  assumes "of_int a * 2 powi k \<le> x" "x \<le> of_int b * (2 :: rat) powi k"
  shows "of_int a * 2 powi k \<le> of_int (round_half_even (x / 2 powi k)) * (2 :: rat) powi k"
    and "of_int (round_half_even (x / 2 powi k)) * 2 powi k \<le> of_int b * (2 :: rat) powi k"
proof -
  have "of_int a \<le> x / 2 powi k" "x / 2 powi k \<le> of_int b" using assms by (simp_all add: field_simps)
  then have "a \<le> round_half_even (x / 2 powi k)" "round_half_even (x / 2 powi k) \<le> b"
    using round_half_even_ge round_half_even_le by blast+
  then show "of_int a * 2 powi k \<le> of_int (round_half_even (x / 2 powi k)) * (2 :: rat) powi k"
    "of_int (round_half_even (x / 2 powi k)) * 2 powi k \<le> of_int b * (2 :: rat) powi k"
    by (simp_all add: mult_right_mono)
qed

lemma double_round_mono:
  assumes "0 \<le> x" "x \<le> y" shows "double_round x \<le> double_round y"
proof (cases "x = 0 \<or> last_place x = last_place y")
  case True
  have "0 \<le> round_half_even (y / 2 powi last_place y)"
    using assms by (intro round_half_even_ge) simp
  with True assms show ?thesis
    by (auto simp: double_round_def intro!: mult_right_mono round_half_even_mono divide_right_mono)
next
  case False
  with assms have pos: "0 < x" "0 < y" by auto
  let ?k = "last_place x" and ?l = "last_place y"
  have "double_exponent x \<le> double_exponent y"
    using double_exponent_less [OF pos(1), of "double_exponent y + 1"] double_exponent_bounds(2) [OF pos(2)] assms(2) by linarith
  with False have less: "?k < ?l" and l: "?l = double_exponent y - 52" and k: "double_exponent x + 1 \<le> ?k + 53"
    using pos by (auto simp: last_place_def)
  have "x \<le> 2 powi (?k + 53)"
    using double_exponent_bounds(2) [OF pos(1)] power_int_increasing [OF k, of "2 :: rat"] by simp
  then have "x \<le> of_int (2 ^ 53) * 2 powi ?k" by (simp add: power_int_add)
  from rounded_between(2) [of 0, OF _ this] pos have "double_round x \<le> of_int (2 ^ 53) * 2 powi ?k"
    by (simp add: double_round_def)
  also have "\<dots> = 2 powi (?k + 53)" by (simp add: power_int_add)
  also have "\<dots> \<le> 2 powi (?l + 52)" using less by (intro power_int_increasing) auto
  also have "\<dots> = of_int (2 ^ 52) * 2 powi ?l" by (simp add: power_int_add)
  also have "\<dots> \<le> double_round y"
  proof -
    have "of_int (2 ^ 52) * 2 powi ?l \<le> y"
      using double_exponent_bounds(1) [OF pos(2)] by (simp add: l power_int_diff)
    moreover have "y \<le> of_int (\<lceil>y / 2 powi ?l\<rceil>) * 2 powi ?l" by (simp flip: pos_divide_le_eq)
    ultimately show ?thesis using rounded_between(1) [of "2 ^ 52" ?l y] pos by (simp add: double_round_def)
  qed
  finally show ?thesis .
qed

text \<open>The doubles written 0.1, 0.3 and 0.29 in the source, and what Python computes with them.\<close>

lemma double_tenth: "double_round (1 / 10) = 3602879701896397 / 36028797018963968"
  by code_simp

lemma double_samples:
  "double_round (double_round (1 / 10) + double_round (2 / 10)) = double_round (3 / 10) + 1 / 2 ^ 54"
  "double_round (double_round (29 / 100) * 100) < 29"
  by code_simp+

end
