(* ===== verification/Rollout.thy ===== *)
theory Rollout
  imports ModelRegistry PyFloat
begin

text \<open>
  A/B testing of models, \<open>services/ml-pipeline/ab_testing\<close>: the traffic splitter and gradual rollout of
  \<open>traffic_splitter.py\<close> and the deployment manager of \<open>deployment_manager.py\<close>. Random draws, the hash of a
  request id, the clock, the t-test and the square root are parameters. The manager calls methods that its
  registry and its splitter do not have; such a call raises \<open>AttributeError\<close>. The arithmetic of
  \<open>traffic_splitter.py\<close> is that of doubles, each operation rounded by \<open>double_round\<close>; the means and rates of the manager
  are exact.
\<close>

section \<open>Traffic splitting\<close>

datatype ml_error = Value_error string | Attribute_error string | Type_error string | Runtime_error string

record traffic_config =
  tc_a :: rat
  tc_b :: rat

definition make_traffic_config :: "rat \<Rightarrow> rat \<Rightarrow> ml_error + traffic_config" where
  "make_traffic_config a b =
     (if double_round (99/100) \<le> double_round (a + b) \<and> double_round (a + b) \<le> double_round (101/100)
      then Inr \<lparr>tc_a = a, tc_b = b\<rparr>
      else Inl (Value_error ''Traffic splits must sum to 1.0''))"

record splitter =
  sp_config :: traffic_config
  sp_a_count :: nat
  sp_b_count :: nat

definition new_splitter :: "rat \<Rightarrow> rat \<Rightarrow> ml_error + splitter" where
  "new_splitter a b =
     (case make_traffic_config a b of
        Inl e \<Rightarrow> Inl e
      | Inr c \<Rightarrow> Inr \<lparr>sp_config = c, sp_a_count = 0, sp_b_count = 0\<rparr>)"

text \<open>\<open>u\<close> is what \<open>random.random()\<close> returns.\<close>

definition should_use_model_b :: "rat \<Rightarrow> splitter \<Rightarrow> bool \<times> splitter" where
  "should_use_model_b u s =
     (if u < tc_b (sp_config s) then (True, s\<lparr>sp_b_count := Suc (sp_b_count s)\<rparr>)
      else (False, s\<lparr>sp_a_count := Suc (sp_a_count s)\<rparr>))"

text \<open>\<open>int(x)\<close> cuts towards zero.\<close>

definition int_of_float :: "rat \<Rightarrow> int" where
  "int_of_float x = (if 0 \<le> x then \<lfloor>x\<rfloor> else \<lceil>x\<rceil>)"

text \<open>\<open>h\<close> is \<open>hash(request_id)\<close>.\<close>

definition get_model_assignment :: "int \<Rightarrow> splitter \<Rightarrow> string \<times> splitter" where
  "get_model_assignment h s =
     (if h mod 100 < int_of_float (double_round (tc_a (sp_config s) * 100))
      then (''model_a'', s\<lparr>sp_a_count := Suc (sp_a_count s)\<rparr>)
      else (''model_b'', s\<lparr>sp_b_count := Suc (sp_b_count s)\<rparr>))"

definition update_traffic_split :: "rat \<Rightarrow> rat \<Rightarrow> splitter \<Rightarrow> ml_error + splitter" where
  "update_traffic_split a b s =
     (case make_traffic_config a b of Inl e \<Rightarrow> Inl e | Inr c \<Rightarrow> Inr (s\<lparr>sp_config := c\<rparr>))"

record traffic_stats =
  ts_a_count :: nat
  ts_b_count :: nat
  ts_a_percentage :: rat
  ts_b_percentage :: rat
  ts_total :: nat

definition get_traffic_stats :: "splitter \<Rightarrow> traffic_stats" where
  "get_traffic_stats s =
     (let n = sp_a_count s + sp_b_count s in
      if n = 0 then \<lparr>ts_a_count = 0, ts_b_count = 0, ts_a_percentage = 0, ts_b_percentage = 0, ts_total = 0\<rparr>
      else \<lparr>ts_a_count = sp_a_count s, ts_b_count = sp_b_count s,
            ts_a_percentage = double_round (double_round (of_nat (sp_a_count s) / of_nat n) * 100),
            ts_b_percentage = double_round (double_round (of_nat (sp_b_count s) / of_nat n) * 100), ts_total = n\<rparr>)"

definition reset_counters :: "splitter \<Rightarrow> splitter" where
  "reset_counters s = s\<lparr>sp_a_count := 0, sp_b_count := 0\<rparr>"


section \<open>Gradual rollout\<close>

record gradual_rollout =
  ro_current :: rat
  ro_step :: rat
  ro_max :: rat

definition default_rollout :: gradual_rollout where
  "default_rollout = \<lparr>ro_current = double_round (1/10), ro_step = double_round (1/10), ro_max = 1\<rparr>"

definition increase_traffic :: "gradual_rollout \<Rightarrow> rat \<times> gradual_rollout" where
  "increase_traffic g =
     (let t = min (double_round (ro_current g + ro_step g)) (ro_max g) in (t, g\<lparr>ro_current := t\<rparr>))"

definition raise_share :: "gradual_rollout \<Rightarrow> gradual_rollout" where
  "raise_share g = snd (increase_traffic g)"

definition is_complete :: "gradual_rollout \<Rightarrow> bool" where
  "is_complete g \<longleftrightarrow> ro_current g \<ge> ro_max g"

definition get_current_split :: "gradual_rollout \<Rightarrow> rat \<times> rat" where
  "get_current_split g = (double_round (1 - ro_current g), ro_current g)"


section \<open>The deployment manager\<close>

datatype deployment_phase = INACTIVE | PILOT | RAMP_UP | FULL_ROLLOUT | ROLLBACK

record ab_config =
  ab_champion :: string
  ab_challenger :: string
  ab_pilot_traffic :: rat
  ab_min_samples :: nat
  ab_confidence :: rat
  ab_min_effect :: rat
  ab_max_latency :: rat
  ab_min_auc :: rat
  ab_max_error_rate :: rat
  ab_auto_rollback :: bool
  ab_on_latency :: bool
  ab_on_accuracy :: bool

record metric_log =
  ml_latencies :: "rat list"
  ml_predictions :: "rat list"
  ml_errors :: "nat list"

record manager =
  mg_config :: ab_config
  mg_splitter :: splitter
  mg_phase :: deployment_phase
  mg_start :: "instant option"
  mg_traffic_pct :: rat
  mg_champion_log :: metric_log
  mg_challenger_log :: metric_log

definition empty_log :: metric_log where
  "empty_log = \<lparr>ml_latencies = [], ml_predictions = [], ml_errors = []\<rparr>"

definition new_manager :: "ab_config \<Rightarrow> ml_error + manager" where
  "new_manager C =
     (case new_splitter (double_round (1 - ab_pilot_traffic C)) (ab_pilot_traffic C) of
        Inl e \<Rightarrow> Inl e
      | Inr s \<Rightarrow> Inr \<lparr>mg_config = C, mg_splitter = s, mg_phase = INACTIVE, mg_start = None, mg_traffic_pct = 0,
                      mg_champion_log = empty_log, mg_challenger_log = empty_log\<rparr>)"

text \<open>The two calls that find no method: \<open>ModelRegistry.set_challenger\<close> and \<open>TrafficSplitter.set_traffic_split\<close>.\<close>

definition set_challenger :: "string \<Rightarrow> registry \<Rightarrow> ml_error + registry" where
  "set_challenger i r = Inl (Attribute_error ''set_challenger'')"

definition set_traffic_split :: "rat \<Rightarrow> rat \<Rightarrow> splitter \<Rightarrow> ml_error + splitter" where
  "set_traffic_split a b s = Inl (Attribute_error ''set_traffic_split'')"

definition start_pilot :: "instant \<Rightarrow> manager \<times> registry \<Rightarrow> bool \<times> (manager \<times> registry)" where
  "start_pilot now s =
     (case s of (m, r) \<Rightarrow>
      case set_challenger (ab_challenger (mg_config m)) r of
        Inl _ \<Rightarrow> (False, (m, r))
      | Inr r1 \<Rightarrow>
          (case set_traffic_split (1 - ab_pilot_traffic (mg_config m)) (ab_pilot_traffic (mg_config m)) (mg_splitter m) of
             Inl _ \<Rightarrow> (False, (m, r1))
           | Inr sp \<Rightarrow> (True, (m\<lparr>mg_splitter := sp, mg_phase := PILOT, mg_start := Some now,
                                mg_traffic_pct := ab_pilot_traffic (mg_config m) * 100\<rparr>, r1))))"

definition ramp_up :: "instant \<Rightarrow> rat \<Rightarrow> manager \<Rightarrow> bool \<times> manager" where
  "ramp_up now target m =
     (let t = (if target > 1 then 1 else target) in
      case set_traffic_split (1 - t) t (mg_splitter m) of
        Inl _ \<Rightarrow> (False, m)
      | Inr sp \<Rightarrow> (True, m\<lparr>mg_splitter := sp, mg_phase := (if t < 1 then RAMP_UP else FULL_ROLLOUT),
                           mg_traffic_pct := t * 100, mg_start := Some now\<rparr>))"

definition promote_challenger :: "registry_env \<Rightarrow> manager \<times> registry \<Rightarrow> bool \<times> (manager \<times> registry)" where
  "promote_challenger E s =
     (case s of (m, r) \<Rightarrow>
      case promote_to_champion E (ab_challenger (mg_config m)) r of
        (Inl _, r1) \<Rightarrow> (False, (m, r1))
      | (Inr _, r1) \<Rightarrow>
          (case set_traffic_split 0 1 (mg_splitter m) of
             Inl _ \<Rightarrow> (False, (m, r1))
           | Inr sp \<Rightarrow> (True, (m\<lparr>mg_splitter := sp, mg_phase := FULL_ROLLOUT, mg_traffic_pct := 100\<rparr>, r1))))"

definition roll_back :: "manager \<Rightarrow> bool \<times> manager" where
  "roll_back m =
     (case set_traffic_split 1 0 (mg_splitter m) of
        Inl _ \<Rightarrow> (False, m)
      | Inr sp \<Rightarrow> (True, m\<lparr>mg_splitter := sp, mg_phase := ROLLBACK, mg_traffic_pct := 0\<rparr>))"

record ab_prediction =
  pr_champion :: bool
  pr_latency :: rat
  pr_probability :: rat
  pr_error :: bool

definition log_prediction :: "ab_prediction \<Rightarrow> metric_log \<Rightarrow> metric_log" where
  "log_prediction p l = \<lparr>ml_latencies = ml_latencies l @ [pr_latency p],
     ml_predictions = ml_predictions l @ [pr_probability p], ml_errors = ml_errors l @ [if pr_error p then 1 else 0]\<rparr>"

definition record_prediction :: "ab_prediction \<Rightarrow> manager \<Rightarrow> manager" where
  "record_prediction p m =
     (if pr_champion p then m\<lparr>mg_champion_log := log_prediction p (mg_champion_log m)\<rparr>
      else m\<lparr>mg_challenger_log := log_prediction p (mg_challenger_log m)\<rparr>)"


section \<open>Evaluating a deployment\<close>

record stat_ports =
  ttest_p :: "rat list \<Rightarrow> rat list \<Rightarrow> rat option"
  square_root :: "rat \<Rightarrow> rat"

definition mean :: "rat list \<Rightarrow> rat" where
  "mean xs = sum_list xs / of_nat (length xs)"

definition variance :: "rat list \<Rightarrow> rat" where
  "variance xs = mean (map (\<lambda>x. (x - mean xs)\<^sup>2) xs)"

text \<open>The p-value of the t-test is \<open>None\<close> when scipy returns nan, which is below no bound.\<close>

definition test_significance ::
  "stat_ports \<Rightarrow> ab_config \<Rightarrow> rat list \<Rightarrow> rat list \<Rightarrow> bool \<times> rat option \<times> (rat \<times> rat)" where
  "test_significance P C champ chall =
     (if length champ < ab_min_samples C then (False, Some 1, (0, 0))
      else if length chall < ab_min_samples C then (False, Some 1, (0, 0))
      else let p = ttest_p P champ chall;
               diff = mean chall - mean champ;
               se = square_root P (variance champ / of_nat (length champ) + variance chall / of_nat (length chall));
               margin = 196/100 * se in
           ((case p of None \<Rightarrow> False | Some x \<Rightarrow> x < 1 - ab_confidence C), p, (diff - margin, diff + margin)))"

datatype recommendation = Promote_it | Continue_it | Rollback_it

definition generate_recommendation ::
  "ab_config \<Rightarrow> rat \<Rightarrow> rat \<Rightarrow> rat \<Rightarrow> rat \<Rightarrow> bool \<Rightarrow> recommendation" where
  "generate_recommendation C chall_latency champ_auc chall_auc chall_errors significant =
     (if ab_auto_rollback C \<and> ab_on_latency C \<and> chall_latency > ab_max_latency C then Rollback_it
      else if ab_auto_rollback C \<and> ab_on_accuracy C \<and> chall_auc < ab_min_auc C then Rollback_it
      else if ab_auto_rollback C \<and> chall_errors > ab_max_error_rate C then Rollback_it
      else if significant \<and> chall_auc - champ_auc \<ge> ab_min_effect C then Promote_it
      else Continue_it)"

record ab_metrics =
  am_champion_requests :: nat
  am_challenger_requests :: nat
  am_champion_latency :: rat
  am_challenger_latency :: rat
  am_champion_auc :: rat
  am_challenger_auc :: rat
  am_champion_errors :: rat
  am_challenger_errors :: rat
  am_significant :: bool
  am_p_value :: "rat option"
  am_interval :: "rat \<times> rat"
  am_recommendation :: recommendation

definition average_latency :: "metric_log \<Rightarrow> rat" where
  "average_latency l = (if length (ml_latencies l) > 0 then mean (ml_latencies l) else 0)"

definition error_rate :: "metric_log \<Rightarrow> rat" where
  "error_rate l = of_nat (length (filter (\<lambda>e. e > 0) (ml_errors l))) / of_nat (max (length (ml_latencies l)) 1)"

definition collect_and_analyze_metrics :: "stat_ports \<Rightarrow> manager \<Rightarrow> ab_metrics" where
  "collect_and_analyze_metrics P m =
     (let champ = mg_champion_log m; chall = mg_challenger_log m;
          champ_auc = 88/100; chall_auc = 90/100 in
      case test_significance P (mg_config m) (ml_predictions champ) (ml_predictions chall) of
        (sig, p, ci) \<Rightarrow>
          \<lparr>am_champion_requests = length (ml_latencies champ), am_challenger_requests = length (ml_latencies chall),
           am_champion_latency = average_latency champ, am_challenger_latency = average_latency chall,
           am_champion_auc = champ_auc, am_challenger_auc = chall_auc,
           am_champion_errors = error_rate champ, am_challenger_errors = error_rate chall,
           am_significant = sig, am_p_value = p, am_interval = ci,
           am_recommendation = generate_recommendation (mg_config m) (average_latency chall) champ_auc chall_auc
             (error_rate chall) sig\<rparr>)"

definition evaluate_pilot :: "stat_ports \<Rightarrow> manager \<Rightarrow> ab_metrics \<times> manager" where
  "evaluate_pilot P m =
     (let a = collect_and_analyze_metrics P m in
      (a, if am_recommendation a = Rollback_it then snd (roll_back m) else m))"

text \<open>One stage of the rollout after its change of traffic: the predictions made while it sleeps, then the
  evaluation.\<close>

definition observe_stage :: "stat_ports \<Rightarrow> ab_prediction list \<Rightarrow> manager \<Rightarrow> ab_metrics \<times> manager" where
  "observe_stage P preds m = evaluate_pilot P (fold record_prediction preds m)"

fun ramp_stages ::
  "stat_ports \<Rightarrow> (rat \<times> instant \<times> ab_prediction list) list \<Rightarrow> ab_metrics \<times> manager \<Rightarrow> ab_metrics \<times> manager" where
  "ramp_stages P [] s = s"
| "ramp_stages P ((target, now, preds) # rest) (a, m) =
     (if am_recommendation a = Rollback_it then (a, m)
      else ramp_stages P rest (observe_stage P preds (snd (ramp_up now target m))))"

text \<open>\<open>during k\<close> are the clock reading at the start of stage \<open>k\<close> and the predictions recorded in its sleep.\<close>

definition run_gradual_rollout ::
  "stat_ports \<Rightarrow> registry_env \<Rightarrow> (nat \<Rightarrow> instant \<times> ab_prediction list) \<Rightarrow> manager \<times> registry \<Rightarrow> manager \<times> registry" where
  "run_gradual_rollout P E during s =
     (case snd (start_pilot (fst (during 0)) s) of (m1, r1) \<Rightarrow>
      case ramp_stages P [(10/100, during 1), (20/100, during 2), (50/100, during 3)]
             (observe_stage P (snd (during 0)) m1) of
        (a, m2) \<Rightarrow>
          if am_recommendation a = Promote_it then snd (promote_challenger E (m2, r1)) else (m2, r1))"

record deployment_status =
  ds_phase :: deployment_phase
  ds_traffic :: rat
  ds_start :: "instant option"
  ds_champion :: string
  ds_challenger :: string
  ds_champion_requests :: nat
  ds_challenger_requests :: nat

definition get_deployment_status :: "manager \<Rightarrow> deployment_status" where
  "get_deployment_status m =
     \<lparr>ds_phase = mg_phase m, ds_traffic = mg_traffic_pct m, ds_start = mg_start m,
      ds_champion = ab_champion (mg_config m), ds_challenger = ab_challenger (mg_config m),
      ds_champion_requests = length (ml_latencies (mg_champion_log m)),
      ds_challenger_requests = length (ml_latencies (mg_challenger_log m))\<rparr>"


section \<open>Splitting\<close>

lemma card_mod_less:
  fixes n t m :: int
  assumes "0 \<le> t" "t \<le> m" "0 < m"
  shows "card {h \<in> {n..<n + m}. h mod m < t} = nat t"
proof -
  have "bij_betw (\<lambda>h. h mod m) {n..<n + m} {0..<m}"
  proof (rule bij_betwI')
    fix x y assume xy: "x \<in> {n..<n + m}" "y \<in> {n..<n + m}"
    show "x mod m = y mod m \<longleftrightarrow> x = y"
    proof
      assume "x mod m = y mod m"
      then obtain k where k: "x - y = m * k" by (metis mod_eq_dvd_iff dvd_def)
      have "\<bar>m * k\<bar> < m" using xy k by auto
      then have "k = 0" using assms(3) by (simp add: abs_mult zero_less_mult_iff mult_less_cancel_left1)
      then show "x = y" using k by simp
    qed simp
  next
    fix x assume "x \<in> {n..<n + m}"
    then show "x mod m \<in> {0..<m}" using assms(3) by simp
  next
    fix y assume y: "y \<in> {0..<m}"
    have "(n + (y - n) mod m) mod m = y" using y by (simp add: mod_add_right_eq)
    moreover have "n + (y - n) mod m \<in> {n..<n + m}" using assms(3) by simp
    ultimately show "\<exists>x\<in>{n..<n + m}. y = x mod m" by metis
  qed
  then have inj: "inj_on (\<lambda>h. h mod m) {n..<n + m}" and img: "(\<lambda>h. h mod m) ` {n..<n + m} = {0..<m}"
    by (simp_all add: bij_betw_def)
  have "(\<lambda>h. h mod m) ` {h \<in> {n..<n + m}. h mod m < t} = {k \<in> {0..<m}. k < t}"
    unfolding img [symmetric] by blast
  moreover have "inj_on (\<lambda>h. h mod m) {h \<in> {n..<n + m}. h mod m < t}"
    using inj by (rule inj_on_subset) blast
  ultimately have "card {h \<in> {n..<n + m}. h mod m < t} = card {k \<in> {0..<m}. k < t}"
    using card_image [of "\<lambda>h. h mod m" "{h \<in> {n..<n + m}. h mod m < t}"] by simp
  also have "{k \<in> {0..<m}. k < t} = {0..<t}" using assms by auto
  finally show ?thesis by simp
qed

lemma int_of_float_mono: "x \<le> y \<Longrightarrow> int_of_float x \<le> int_of_float y"
proof (cases "0 \<le> x \<or> y < 0")
  case True
  assume "x \<le> y"
  with True show ?thesis by (auto simp: int_of_float_def floor_mono ceiling_mono)
next
  case False
  then have "\<lceil>x\<rceil> \<le> 0" "0 \<le> \<lfloor>y\<rfloor>" by (simp_all add: ceiling_le_iff)
  then have "\<lceil>x\<rceil> \<le> \<lfloor>y\<rfloor>" by (rule order_trans)
  with False show ?thesis by (simp add: int_of_float_def)
qed

lemma int_of_float_between: "of_int a \<le> x \<Longrightarrow> x \<le> of_int b \<Longrightarrow> 0 \<le> a \<Longrightarrow> a \<le> int_of_float x \<and> int_of_float x \<le> b"
  by (auto simp: int_of_float_def le_floor_iff floor_le_iff)


text \<open>The requests a splitter has routed are counted, each once.\<close>

datatype split_call = Draw rat | Assign int | Resplit rat rat

definition split_step :: "split_call \<Rightarrow> splitter \<Rightarrow> splitter" where
  "split_step c s =
     (case c of
        Draw u \<Rightarrow> snd (should_use_model_b u s)
      | Assign h \<Rightarrow> snd (get_model_assignment h s)
      | Resplit a b \<Rightarrow> (case update_traffic_split a b s of Inl _ \<Rightarrow> s | Inr s' \<Rightarrow> s'))"

definition routes :: "split_call \<Rightarrow> bool" where
  "routes c \<longleftrightarrow> (case c of Resplit a b \<Rightarrow> False | _ \<Rightarrow> True)"

definition splits_sum :: "splitter \<Rightarrow> bool" where
  "splits_sum s \<longleftrightarrow> double_round (99/100) \<le> double_round (tc_a (sp_config s) + tc_b (sp_config s))
     \<and> double_round (tc_a (sp_config s) + tc_b (sp_config s)) \<le> double_round (101/100)"

lemma split_step_keeps: "splits_sum s \<Longrightarrow> splits_sum (split_step c s)"
  by (auto simp: splits_sum_def split_step_def should_use_model_b_def get_model_assignment_def
      update_traffic_split_def make_traffic_config_def split: split_call.split)

interpretation splits: step_machine split_step splits_sum
  by unfold_locales (rule split_step_keeps)

lemma split_step_counts:
  "sp_a_count (split_step c s) + sp_b_count (split_step c s)
     = sp_a_count s + sp_b_count s + (if routes c then 1 else 0)"
  by (auto simp: split_step_def routes_def should_use_model_b_def get_model_assignment_def
      update_traffic_split_def make_traffic_config_def split: split_call.split)

lemma split_run_counts:
  "sp_a_count (fold split_step cs s) + sp_b_count (fold split_step cs s)
     = sp_a_count s + sp_b_count s + length (filter routes cs)"
  by (induction cs arbitrary: s) (simp_all add: split_step_counts)

lemma raise_share_simps:
  "ro_current (raise_share g) = min (double_round (ro_current g + ro_step g)) (ro_max g)"
  "ro_step (raise_share g) = ro_step g" "ro_max (raise_share g) = ro_max g"
  by (simp_all add: raise_share_def increase_traffic_def Let_def)

text \<open>Any hundred consecutive hash values give model A exactly the whole percents of its share as doubles have them, and a
  request that model A serves is still served by it after its share grows.\<close>
theorem assignment_share:
  assumes "0 \<le> tc_a (sp_config s)" "tc_a (sp_config s) \<le> 1"
  shows "card {h \<in> {n..<n + 100}. fst (get_model_assignment h s) = ''model_a''} = nat \<lfloor>double_round (tc_a (sp_config s) * 100)\<rfloor>
    \<and> (\<forall>s' h. tc_a (sp_config s) \<le> tc_a (sp_config s') \<and> fst (get_model_assignment h s) = ''model_a''
         \<longrightarrow> fst (get_model_assignment h s') = ''model_a'')"
proof -
  let ?x = "double_round (tc_a (sp_config s) * 100)"
  let ?t = "int_of_float ?x"
  have "double_round 0 = 0" "double_round 100 = 100" by code_simp+
  then have "0 \<le> ?x" "?x \<le> 100"
    using double_round_mono [of 0 "tc_a (sp_config s) * 100"] double_round_mono [of "tc_a (sp_config s) * 100" 100] assms by auto
  then have t: "0 \<le> ?t" "?t \<le> 100" "?t = \<lfloor>?x\<rfloor>"
    using int_of_float_between [of 0 ?x 100] by (simp_all add: int_of_float_def)
  have a: "fst (get_model_assignment h q) = ''model_a'' \<longleftrightarrow> h mod 100 < int_of_float (double_round (tc_a (sp_config q) * 100))" for h q
    by (simp add: get_model_assignment_def)
  have "card {h \<in> {n..<n + 100}. h mod 100 < ?t} = nat ?t" by (rule card_mod_less) (use t in simp_all)
  moreover have "?t \<le> int_of_float (double_round (tc_a (sp_config s') * 100))"
    if "tc_a (sp_config s) \<le> tc_a (sp_config s')" for s'
    using that assms(1) by (intro int_of_float_mono double_round_mono) auto
  ultimately show ?thesis unfolding a t(3) [symmetric] by (meson less_le_trans)
qed

text \<open>A share written 0.29 serves twenty-eight requests of a hundred.\<close>

theorem assignment_share_witness:
  "card {h \<in> {0..<100}. fst (get_model_assignment h \<lparr>sp_config = \<lparr>tc_a = double_round (29/100), tc_b = double_round (71/100)\<rparr>,
     sp_a_count = 0, sp_b_count = 0\<rparr>) = ''model_a''} = 28"
proof -
  have b: "0 \<le> double_round (29/100)" "double_round (29/100) \<le> 1" "\<lfloor>double_round (double_round (29/100) * 100)\<rfloor> = 28" by code_simp+
  then show ?thesis
    using conjunct1 [OF assignment_share [of "\<lparr>sp_config = \<lparr>tc_a = double_round (29/100), tc_b = double_round (71/100)\<rparr>,
      sp_a_count = 0, sp_b_count = 0\<rparr>" 0]] by simp
qed

lemma raise_share_step:
  assumes "0 \<le> ro_current g" "ro_current g \<le> ro_max g" "ro_max g \<le> 1" "0 \<le> ro_step g" "ro_step g \<le> 1"
  shows "ro_current (raise_share g) \<le> ro_max g" and "ro_current (raise_share g) \<le> ro_current g + (ro_step g + 1 / 2 ^ 53)"
    and "ro_current (raise_share g) \<ge> min (ro_max g) (ro_current g + (ro_step g - 1 / 2 ^ 53))"
proof -
  have "\<bar>double_round (ro_current g + ro_step g) - (ro_current g + ro_step g)\<bar> \<le> 1 / 2 ^ 53"
    using assms by (intro double_round_close) auto
  then show "ro_current (raise_share g) \<le> ro_max g" "ro_current (raise_share g) \<le> ro_current g + (ro_step g + 1 / 2 ^ 53)"
    "ro_current (raise_share g) \<ge> min (ro_max g) (ro_current g + (ro_step g - 1 / 2 ^ 53))"
    unfolding raise_share_simps abs_le_iff min_def by (simp_all only: split: if_split) linarith+
qed

text \<open>The default rollout, step by step.\<close>

definition default_at :: "rat \<Rightarrow> gradual_rollout" where
  "default_at x = default_rollout\<lparr>ro_current := x\<rparr>"

lemma default_at_step: "double_round (x + 3602879701896397 / 36028797018963968) = y \<Longrightarrow> raise_share (default_at x) = default_at (min y 1)"
  by (simp add: default_at_def default_rollout_def raise_share_def increase_traffic_def double_tenth Let_def)

lemma default_sums:
  "double_round (3602879701896397 / 36028797018963968 + 3602879701896397 / 36028797018963968) = 3602879701896397 / 18014398509481984"
  "double_round (3602879701896397 / 18014398509481984 + 3602879701896397 / 36028797018963968) = 1351079888211149 / 4503599627370496"
  "double_round (1351079888211149 / 4503599627370496 + 3602879701896397 / 36028797018963968) = 3602879701896397 / 9007199254740992"
  "double_round (3602879701896397 / 9007199254740992 + 3602879701896397 / 36028797018963968) = 1 / 2"
  "double_round (1 / 2 + 3602879701896397 / 36028797018963968) = 5404319552844595 / 9007199254740992"
  "double_round (5404319552844595 / 9007199254740992 + 3602879701896397 / 36028797018963968) = 3152519739159347 / 4503599627370496"
  "double_round (3152519739159347 / 4503599627370496 + 3602879701896397 / 36028797018963968) = 7205759403792793 / 9007199254740992"
  "double_round (7205759403792793 / 9007199254740992 + 3602879701896397 / 36028797018963968) = 2026619832316723 / 2251799813685248"
  "double_round (2026619832316723 / 2251799813685248 + 3602879701896397 / 36028797018963968) = 9007199254740991 / 9007199254740992"
  "double_round (9007199254740991 / 9007199254740992 + 3602879701896397 / 36028797018963968) = 4953959590107545 / 4503599627370496"
  by code_simp+

lemmas default_steps = default_sums [THEN default_at_step]

lemma default_nine: "(raise_share ^^ 9) default_rollout = default_at (9007199254740991 / 9007199254740992)"
  and default_ten: "(raise_share ^^ 10) default_rollout = default_at 1"
proof -
  have e: "default_rollout = default_at (3602879701896397 / 36028797018963968)" by (simp add: default_at_def default_rollout_def double_tenth)
  show "(raise_share ^^ 9) default_rollout = default_at (9007199254740991 / 9007199254740992)"
    "(raise_share ^^ 10) default_rollout = default_at 1"
    by (simp_all add: e numeral_eq_Suc default_steps)
qed

text \<open>C26: A rollout in doubles, from a share between zero and its maximum, with steps that a double near one can show: each
  step leaves the share where it was or raises it, never above the maximum; the rollout completes, at the latest after the
  number of steps the distance takes when each loses \<open>2 ^ - 53\<close>, and no earlier than when each gains as much. What the last
  place costs decides where the distance is a whole number of steps: the default rollout, from 0.1 by 0.1 to 1.0, is not
  complete after nine steps but after ten.\<close>
theorem rollout_progress:
  assumes "0 \<le> ro_current g" "ro_current g \<le> ro_max g" "ro_max g \<le> 1" "1 / 2 ^ 53 < ro_step g" "ro_step g \<le> 1"
  shows "ro_current ((raise_share ^^ n) g) \<le> ro_current ((raise_share ^^ Suc n) g)
    \<and> ro_current ((raise_share ^^ Suc n) g) \<le> ro_max g
    \<and> (ro_max g - ro_current g \<le> of_nat n * (ro_step g - 1 / 2 ^ 53) \<longrightarrow> is_complete ((raise_share ^^ n) g))
    \<and> (is_complete ((raise_share ^^ n) g) \<longrightarrow> ro_max g - ro_current g \<le> of_nat n * (ro_step g + 1 / 2 ^ 53))
    \<and> (\<exists>k. is_complete ((raise_share ^^ k) g))
    \<and> \<not> is_complete ((raise_share ^^ 9) default_rollout) \<and> is_complete ((raise_share ^^ 10) default_rollout)"
proof -
  let ?c = "\<lambda>n. ro_current ((raise_share ^^ n) g)"
  define u :: rat where "u = 1 / 2 ^ 53"
  note bounds = assms(1-3) assms(4) [folded u_def] assms(5)
  have "0 < u" by (simp add: u_def)
  then have pos: "0 < ro_step g" using bounds by linarith
  have same: "ro_step ((raise_share ^^ n) g) = ro_step g" "ro_max ((raise_share ^^ n) g) = ro_max g" for n
    by (induction n) (simp_all add: raise_share_simps)
  have step: "?c (Suc n) \<le> ro_max g" "?c (Suc n) \<le> ?c n + (ro_step g + u)" "min (ro_max g) (?c n + (ro_step g - u)) \<le> ?c (Suc n)"
    if "0 \<le> ?c n" "?c n \<le> ro_max g" for n
    using raise_share_step [of "(raise_share ^^ n) g", folded u_def] that bounds pos by (simp_all add: same)
  have inv: "0 \<le> ?c n \<and> ?c n \<le> ro_max g \<and> ?c n \<le> ro_current g + of_nat n * (ro_step g + u)
    \<and> min (ro_max g) (ro_current g + of_nat n * (ro_step g - u)) \<le> ?c n" for n
  proof (induction n)
    case (Suc n)
    define a b where "a = of_nat n * (ro_step g + u)" and "b = of_nat n * (ro_step g - u)"
    have m: "of_nat (Suc n) * (ro_step g + u) = a + (ro_step g + u)" "of_nat (Suc n) * (ro_step g - u) = b + (ro_step g - u)"
      by (simp_all add: a_def b_def distrib_right)
    have c: "0 \<le> ?c n" "?c n \<le> ro_max g" "?c n \<le> ro_current g + a" "min (ro_max g) (ro_current g + b) \<le> ?c n"
      using Suc by (auto simp: a_def b_def)
    show ?case unfolding m using step [OF c(1,2)] c bounds by (auto simp: min_def split: if_splits simp del: funpow.simps)
  qed (use bounds in auto)
  have "?c n \<le> ?c (Suc n)" using step(3) [of n] inv [of n] bounds(4) by (auto simp: min_def split: if_splits simp del: funpow.simps)
  moreover have compl: "is_complete ((raise_share ^^ n) g)" if "ro_max g - ro_current g \<le> of_nat n * (ro_step g - u)" for n
    using that inv [of n] by (auto simp: is_complete_def same)
  moreover have "\<exists>k. is_complete ((raise_share ^^ k) g)"
  proof -
    obtain k where "ro_max g - ro_current g < of_nat k * (ro_step g - u)"
      using bounds(4) ex_less_of_nat_mult [of "ro_step g - u" "ro_max g - ro_current g"] by auto
    then show ?thesis using compl [of k] by auto
  qed
  moreover have "\<not> is_complete ((raise_share ^^ 9) default_rollout)" "is_complete ((raise_share ^^ 10) default_rollout)"
    unfolding default_nine default_ten by (simp_all add: is_complete_def default_at_def default_rollout_def)
  moreover have "ro_max g - ro_current g \<le> of_nat n * (ro_step g + u)" if "is_complete ((raise_share ^^ n) g)"
    using that inv [of n] by (simp add: is_complete_def same)
  moreover have "?c (Suc n) \<le> ro_max g" using inv [of "Suc n"] by blast
  ultimately show ?thesis unfolding u_def by blast
qed

theorem rollout_progress_witness:
  "ro_current ((raise_share ^^ 9) default_rollout) = 9007199254740991 / 9007199254740992
   \<and> ro_current ((raise_share ^^ Suc 9) default_rollout) \<le> ro_max default_rollout"
proof -
  have "0 \<le> ro_current default_rollout" "ro_current default_rollout \<le> ro_max default_rollout" "ro_max default_rollout \<le> 1"
    "1 / 2 ^ 53 < ro_step default_rollout" "ro_step default_rollout \<le> 1"
    by (simp_all add: default_rollout_def double_tenth)
  from rollout_progress [OF this, of 9] show ?thesis by (simp only: default_nine) (simp add: default_at_def)
qed


section \<open>What a deployment does\<close>

text \<open>What the manager's own state keeps: its configuration, its splitter, its phase and its traffic.\<close>

definition same_traffic :: "manager \<Rightarrow> manager \<Rightarrow> bool" where
  "same_traffic m m' \<longleftrightarrow> mg_config m' = mg_config m \<and> mg_splitter m' = mg_splitter m \<and> mg_phase m' = mg_phase m
     \<and> mg_start m' = mg_start m \<and> mg_traffic_pct m' = mg_traffic_pct m"

lemma same_traffic_refl [simp]: "same_traffic m m"
  by (simp add: same_traffic_def)

lemma same_traffic_trans: "same_traffic m1 m2 \<Longrightarrow> same_traffic m2 m3 \<Longrightarrow> same_traffic m1 m3"
  by (simp add: same_traffic_def)

lemma stage_changes_fail [simp]:
  "start_pilot now s = (False, s)" "ramp_up now t m = (False, m)" "roll_back m = (False, m)"
  by (simp_all add: start_pilot_def ramp_up_def roll_back_def set_challenger_def set_traffic_split_def Let_def split: prod.split)

lemma record_same_traffic: "same_traffic m (fold record_prediction ps m)"
  by (induction ps arbitrary: m) (auto simp: record_prediction_def same_traffic_def)

lemma observe_stage_same: "observe_stage P preds m = (a, m') \<Longrightarrow> same_traffic m m' \<and> a = collect_and_analyze_metrics P m'"
  using record_same_traffic [of m preds] by (auto simp: observe_stage_def evaluate_pilot_def Let_def)

lemma ramp_stages_same:
  "ramp_stages P rest (a, m) = (a', m') \<Longrightarrow> a = collect_and_analyze_metrics P m \<Longrightarrow>
     same_traffic m m' \<and> a' = collect_and_analyze_metrics P m'"
proof (induction rest arbitrary: a m)
  case (Cons stage rest)
  obtain t now preds where stage: "stage = (t, now, preds)" by (metis prod.exhaust)
  show ?case
  proof (cases "am_recommendation a = Rollback_it")
    case True
    then show ?thesis using Cons.prems stage by auto
  next
    case False
    obtain a1 m1 where o: "observe_stage P preds m = (a1, m1)" by (cases "observe_stage P preds m")
    have "ramp_stages P rest (a1, m1) = (a', m')" using Cons.prems(1) stage False o by simp
    then show ?thesis using Cons.IH observe_stage_same [OF o] same_traffic_trans by blast
  qed
qed simp

lemma rollout_result:
  assumes "run_gradual_rollout P E during (m, r) = (m', r')"
  shows "same_traffic m m'"
    and "r' \<noteq> r \<Longrightarrow> am_recommendation (collect_and_analyze_metrics P m') = Promote_it
           \<and> r' = snd (promote_to_champion E (ab_challenger (mg_config m)) r)"
proof -
  obtain a0 m0 where o: "observe_stage P (snd (during 0)) m = (a0, m0)" by (cases "observe_stage P (snd (during 0)) m")
  obtain a1 m1 where st: "ramp_stages P [(10/100, during 1), (20/100, during 2), (50/100, during 3)] (a0, m0) = (a1, m1)"
    by (cases "ramp_stages P [(10/100, during 1), (20/100, during 2), (50/100, during 3)] (a0, m0)")
  have s1: "same_traffic m m1" "a1 = collect_and_analyze_metrics P m1"
    using observe_stage_same [OF o] ramp_stages_same [OF st] same_traffic_trans by blast+
  obtain x r1 where p: "promote_to_champion E (ab_challenger (mg_config m1)) r = (x, r1)"
    by (cases "promote_to_champion E (ab_challenger (mg_config m1)) r")
  have run: "run_gradual_rollout P E during (m, r) = (if am_recommendation a1 = Promote_it then (m1, r1) else (m1, r))"
    using o st p by (cases x)
      (simp_all add: run_gradual_rollout_def promote_challenger_def set_traffic_split_def del: ramp_stages.simps)
  show "same_traffic m m'" using assms run s1(1) by (simp split: if_splits)
  have "mg_config m1 = mg_config m" using s1(1) by (simp add: same_traffic_def)
  then show "r' \<noteq> r \<Longrightarrow> am_recommendation (collect_and_analyze_metrics P m') = Promote_it
           \<and> r' = snd (promote_to_champion E (ab_challenger (mg_config m)) r)"
    using assms run s1(2) p by (simp split: if_splits)
qed

text \<open>A gradual rollout never moves traffic: whatever is observed in it, the manager ends with the splitter, the
  phase and the traffic share it started with, because each of its changes of traffic calls a method that
  does not exist and reports failure.\<close>
theorem rollout_moves_no_traffic:
  "same_traffic m (fst (run_gradual_rollout P E during (m, r)))
   \<and> fst (start_pilot now (m, r)) = False \<and> fst (ramp_up now t m) = False \<and> fst (roll_back m) = False"
proof -
  obtain m' r' where run: "run_gradual_rollout P E during (m, r) = (m', r')" by (cases "run_gradual_rollout P E during (m, r)")
  show ?thesis using rollout_result(1) [OF run] by (simp add: run)
qed

lemma promote_recommendation:
  assumes "am_recommendation (collect_and_analyze_metrics P m) = Promote_it"
  shows "ab_min_samples (mg_config m) \<le> length (ml_predictions (mg_champion_log m))"
    and "ab_min_samples (mg_config m) \<le> length (ml_predictions (mg_challenger_log m))"
    and "ab_auto_rollback (mg_config m) \<Longrightarrow> ab_on_latency (mg_config m) \<Longrightarrow>
           average_latency (mg_challenger_log m) \<le> ab_max_latency (mg_config m)"
    and "ab_auto_rollback (mg_config m) \<Longrightarrow> error_rate (mg_challenger_log m) \<le> ab_max_error_rate (mg_config m)"
    and "ab_min_effect (mg_config m) \<le> 2/100"
  using assms
  by (auto simp: collect_and_analyze_metrics_def generate_recommendation_def test_significance_def Let_def
      split: if_splits)

text \<open>C18: A rollout promotes on evidence only: if it changes the registry, it does so by promoting the challenger, after
  both models have the configured number of predictions, with the challenger's mean latency and error rate
  within the bounds (where automatic rollback watches them). Its accuracy is not among the evidence: any
  configured effect up to two percent is taken to be reached.\<close>
theorem rollout_promotes_on_evidence:
  assumes "run_gradual_rollout P E during (m, r) = (m', r')" "r' \<noteq> r"
  shows "r' = snd (promote_to_champion E (ab_challenger (mg_config m)) r)
    \<and> ab_min_samples (mg_config m) \<le> length (ml_predictions (mg_champion_log m'))
    \<and> ab_min_samples (mg_config m) \<le> length (ml_predictions (mg_challenger_log m'))
    \<and> (ab_auto_rollback (mg_config m) \<longrightarrow> error_rate (mg_challenger_log m') \<le> ab_max_error_rate (mg_config m)
         \<and> (ab_on_latency (mg_config m) \<longrightarrow> average_latency (mg_challenger_log m') \<le> ab_max_latency (mg_config m)))
    \<and> ab_min_effect (mg_config m) \<le> 2/100"
proof -
  have c: "mg_config m' = mg_config m" using rollout_result(1) [OF assms(1)] by (simp add: same_traffic_def)
  have "am_recommendation (collect_and_analyze_metrics P m') = Promote_it"
    "r' = snd (promote_to_champion E (ab_challenger (mg_config m)) r)"
    using rollout_result(2) [OF assms] by simp_all
  with promote_recommendation [of P m'] show ?thesis unfolding c by simp
qed

text \<open>The promotion of a challenger that the registry knows takes effect and is reported as a failure.\<close>
theorem promotion_reported_failed:
  assumes "registry_ok r" "dict_get (rg_models r) (ab_challenger (mg_config m)) \<noteq> None"
  shows "\<exists>r'. promote_challenger E (m, r) = (False, (m, r')) \<and> rg_champion r' = Some (ab_challenger (mg_config m))"
  by (rule promote_run [OF assms, where E = E]) (auto simp: promote_challenger_def set_traffic_split_def)

definition sample_manager :: manager where
  "sample_manager = \<lparr>mg_config = \<lparr>ab_champion = ''a'', ab_challenger = ''b'', ab_pilot_traffic = 5/100, ab_min_samples = 1,
     ab_confidence = 95/100, ab_min_effect = 2/100, ab_max_latency = 2, ab_min_auc = 85/100, ab_max_error_rate = 1/100,
     ab_auto_rollback = True, ab_on_latency = True, ab_on_accuracy = True\<rparr>,
     mg_splitter = \<lparr>sp_config = \<lparr>tc_a = 95/100, tc_b = 5/100\<rparr>, sp_a_count = 0, sp_b_count = 0\<rparr>, mg_phase = INACTIVE,
     mg_start = None, mg_traffic_pct = 0, mg_champion_log = empty_log, mg_challenger_log = empty_log\<rparr>"

definition sample_predictions :: "nat \<Rightarrow> instant \<times> ab_prediction list" where
  "sample_predictions k = (0, [\<lparr>pr_champion = True, pr_latency = 1, pr_probability = 1/2, pr_error = False\<rparr>,
     \<lparr>pr_champion = False, pr_latency = 1, pr_probability = 9/10, pr_error = False\<rparr>])"

definition sample_stats :: stat_ports where
  "sample_stats = \<lparr>ttest_p = (\<lambda>_ _. Some (1/100)), square_root = (\<lambda>x. x)\<rparr>"

theorem rollout_promotes_on_evidence_witness:
  "\<exists>m' r'. run_gradual_rollout sample_stats sample_env sample_predictions (sample_manager, sample_registry) = (m', r')
     \<and> rg_champion r' = Some ''b'' \<and> 1 \<le> length (ml_predictions (mg_challenger_log m'))"
proof -
  let ?run = "run_gradual_rollout sample_stats sample_env sample_predictions (sample_manager, sample_registry)"
  obtain m' r' where run: "?run = (m', r')" by (cases ?run)
  have "rg_champion (snd ?run) = Some ''b''" by code_simp
  then have b: "rg_champion r' = Some ''b''" using run by simp
  then have ne: "r' \<noteq> sample_registry" using sample_registry_facts(1) by force
  have "ab_min_samples (mg_config sample_manager) = 1" by (simp add: sample_manager_def)
  then have "1 \<le> length (ml_predictions (mg_challenger_log m'))"
    using rollout_promotes_on_evidence [OF run ne] by metis
  then show ?thesis using run b by blast
qed

theorem promotion_reported_failed_witness:
  "\<exists>r'. promote_challenger sample_env (sample_manager, sample_registry) = (False, (sample_manager, r'))
     \<and> rg_champion r' = Some ''b''"
proof -
  have b: "ab_challenger (mg_config sample_manager) = ''b''" by (simp add: sample_manager_def)
  have "dict_get (rg_models sample_registry) ''b'' \<noteq> None"
    using sample_registry_facts(2) dict_keys_iff [of "''b''" "rg_models sample_registry"] by simp
  then show ?thesis using promotion_reported_failed [OF sample_registry_ok, of sample_manager sample_env] b by simp
qed

end
