(* ===== verification/Training.thy ===== *)
theory Training
  imports Rollout "HOL-Library.Multiset"
begin

text \<open>
  The training side of \<open>services/ml-pipeline\<close>: evaluation (\<open>training/evaluator.py\<close>), the preparation of
  the data set (\<open>data_collector.py\<close>) and the retraining job (\<open>retraining_orchestrator.py\<close>). The metrics
  of scikit-learn, the merge, sampling and removal of duplicates of pandas, the generated data and XGBoost are parameters.
\<close>

section \<open>Evaluation\<close>

record confusion =
  cf_tn :: nat
  cf_fp :: nat
  cf_fn :: nat
  cf_tp :: nat

record sk_ports =
  roc_auc :: "bool list \<Rightarrow> rat list \<Rightarrow> ml_error + rat"
  sk_accuracy :: "bool list \<Rightarrow> bool list \<Rightarrow> rat"
  sk_precision :: "bool list \<Rightarrow> bool list \<Rightarrow> rat"
  sk_recall :: "bool list \<Rightarrow> bool list \<Rightarrow> rat"
  sk_f1 :: "bool list \<Rightarrow> bool list \<Rightarrow> rat"
  confusion_matrix :: "bool list \<Rightarrow> bool list \<Rightarrow> ml_error + confusion"

record evaluation =
  ev_auc :: rat
  ev_accuracy :: rat
  ev_precision :: rat
  ev_recall :: rat
  ev_f1 :: rat
  ev_confusion :: confusion
  ev_specificity :: rat
  ev_fpr :: rat
  ev_fnr :: rat
  ev_total :: nat
  ev_positive :: nat
  ev_negative :: int

definition passes_thresholds :: "rat \<Rightarrow> rat \<Rightarrow> rat \<Rightarrow> evaluation \<Rightarrow> bool" where
  "passes_thresholds auc prec rec e \<longleftrightarrow> ev_auc e \<ge> auc \<and> ev_precision e \<ge> prec \<and> ev_recall e \<ge> rec"

definition is_better_than :: "evaluation \<Rightarrow> evaluation \<Rightarrow> rat \<Rightarrow> bool" where
  "is_better_than e other improvement \<longleftrightarrow> ev_auc e - ev_auc other \<ge> improvement"

definition ratio :: "nat \<Rightarrow> nat \<Rightarrow> rat" where
  "ratio a b = (if a + b > 0 then of_nat a / of_nat (a + b) else 0)"

definition evaluate :: "sk_ports \<Rightarrow> rat \<Rightarrow> bool list \<Rightarrow> rat list \<Rightarrow> ml_error + evaluation" where
  "evaluate P threshold y proba =
     (let pred = map (\<lambda>p. p \<ge> threshold) proba in
      case roc_auc P y proba of
        Inl e \<Rightarrow> Inl e
      | Inr auc \<Rightarrow>
          (case confusion_matrix P y pred of
             Inl e \<Rightarrow> Inl e
           | Inr c \<Rightarrow>
               Inr \<lparr>ev_auc = auc, ev_accuracy = sk_accuracy P y pred, ev_precision = sk_precision P y pred,
                    ev_recall = sk_recall P y pred, ev_f1 = sk_f1 P y pred, ev_confusion = c,
                    ev_specificity = ratio (cf_tn c) (cf_fp c), ev_fpr = ratio (cf_fp c) (cf_tn c),
                    ev_fnr = ratio (cf_fn c) (cf_tp c), ev_total = length y, ev_positive = length (filter id y),
                    ev_negative = int (length y) - int (length (filter id y))\<rparr>))"

text \<open>The evaluator's threshold is overwritten for each evaluation and put back after it.\<close>

fun threshold_sensitivity ::
  "sk_ports \<Rightarrow> bool list \<Rightarrow> rat list \<Rightarrow> rat list \<Rightarrow> (rat, evaluation) dict \<Rightarrow> rat \<Rightarrow>
   (ml_error + (rat, evaluation) dict) \<times> rat" where
  "threshold_sensitivity P y proba [] acc self = (Inr acc, self)"
| "threshold_sensitivity P y proba (t # ts) acc self =
     (case evaluate P t y proba of
        Inl e \<Rightarrow> (Inl e, t)
      | Inr m \<Rightarrow> threshold_sensitivity P y proba ts (dict_set t m acc) self)"

record evaluation_delta =
  ed_auc :: rat
  ed_accuracy :: rat
  ed_precision :: rat
  ed_recall :: rat
  ed_f1 :: rat

definition compare_evaluated ::
  "sk_ports \<Rightarrow> rat \<Rightarrow> bool list \<Rightarrow> rat list \<Rightarrow> rat list \<Rightarrow>
   ml_error + (evaluation \<times> evaluation \<times> evaluation_delta \<times> string \<times> rat)" where
  "compare_evaluated P threshold y pa pb =
     (case evaluate P threshold y pa of
        Inl e \<Rightarrow> Inl e
      | Inr a \<Rightarrow>
          (case evaluate P threshold y pb of
             Inl e \<Rightarrow> Inl e
           | Inr b \<Rightarrow>
               if ev_auc a = 0 then Inl (Value_error ''float division by zero'')
               else Inr (a, b,
                 \<lparr>ed_auc = ev_auc b - ev_auc a, ed_accuracy = ev_accuracy b - ev_accuracy a,
                  ed_precision = ev_precision b - ev_precision a, ed_recall = ev_recall b - ev_recall a,
                  ed_f1 = ev_f1 b - ev_f1 a\<rparr>,
                 if ev_auc b > ev_auc a then ''model_b'' else ''model_a'',
                 (ev_auc b - ev_auc a) / ev_auc a * 100)))"


section \<open>The data set\<close>

text \<open>A value of a frame is \<open>None\<close> where pandas has NaN.\<close>

record merged_row =
  mr_asr :: "rat option"
  mr_aloc :: "rat option"
  mr_overlap :: "rat option"
  mr_distinct :: "rat option"
  mr_rate :: "rat option"
  mr_short :: "rat option"
  mr_fraud :: "rat option"

record feature_row =
  fr_asr :: "rat option"
  fr_aloc :: "rat option"
  fr_overlap :: "rat option"
  fr_mismatch :: "rat option"
  fr_distinct :: "rat option"
  fr_rate :: "rat option"
  fr_short :: "rat option"
  fr_volume :: "rat option"
  fr_fraud :: "rat option"

text \<open>\<open>flags\<close> are the random mismatch flags, one per row of the merge.\<close>

definition engineer_row :: "merged_row \<times> rat \<Rightarrow> feature_row" where
  "engineer_row = (\<lambda>(m, flag).
     \<lparr>fr_asr = mr_asr m, fr_aloc = mr_aloc m, fr_overlap = mr_overlap m, fr_mismatch = Some flag,
      fr_distinct = mr_distinct m, fr_rate = mr_rate m, fr_short = mr_short m,
      fr_volume = Some (case mr_distinct m of None \<Rightarrow> 0 | Some d \<Rightarrow> if d > 10 then 1 else 0), fr_fraud = mr_fraud m\<rparr>)"

definition engineer_features :: "merged_row list \<Rightarrow> rat list \<Rightarrow> feature_row list" where
  "engineer_features rows flags = filter (\<lambda>f. fr_fraud f \<noteq> None) (map engineer_row (zip rows flags))"

definition between :: "rat \<Rightarrow> rat \<Rightarrow> rat option \<Rightarrow> bool" where
  "between a b v \<longleftrightarrow> (case v of None \<Rightarrow> False | Some x \<Rightarrow> a \<le> x \<and> x \<le> b)"

definition at_least_zero :: "rat option \<Rightarrow> bool" where
  "at_least_zero v \<longleftrightarrow> (case v of None \<Rightarrow> False | Some x \<Rightarrow> 0 \<le> x)"

definition zero_or_one :: "rat option \<Rightarrow> bool" where
  "zero_or_one v \<longleftrightarrow> v = Some 0 \<or> v = Some 1"

definition complete_row :: "feature_row \<Rightarrow> bool" where
  "complete_row f \<longleftrightarrow> list_all (\<lambda>v. v \<noteq> None)
     [fr_asr f, fr_aloc f, fr_overlap f, fr_mismatch f, fr_distinct f, fr_rate f, fr_short f, fr_volume f, fr_fraud f]"

definition valid_row :: "feature_row \<Rightarrow> bool" where
  "valid_row f \<longleftrightarrow> between 0 100 (fr_asr f) \<and> at_least_zero (fr_aloc f) \<and> between 0 1 (fr_overlap f)
     \<and> zero_or_one (fr_mismatch f) \<and> at_least_zero (fr_distinct f) \<and> at_least_zero (fr_rate f)
     \<and> between 0 1 (fr_short f) \<and> zero_or_one (fr_volume f) \<and> zero_or_one (fr_fraud f)"

record pandas_ports =
  drop_duplicates :: "feature_row list \<Rightarrow> feature_row list"
  oversample :: "nat \<Rightarrow> feature_row list \<Rightarrow> ml_error + feature_row list"
  shuffle :: "feature_row list \<Rightarrow> feature_row list"

definition validate_and_clean :: "pandas_ports \<Rightarrow> feature_row list \<Rightarrow> feature_row list" where
  "validate_and_clean P df = drop_duplicates P (filter valid_row (filter complete_row df))"

record collector =
  co_total :: nat
  co_fraud :: nat
  co_non_fraud :: nat
  co_open :: bool

definition fraud_rows :: "feature_row list \<Rightarrow> feature_row list" where
  "fraud_rows df = filter (\<lambda>f. fr_fraud f = Some 1) df"

definition clean_rows :: "feature_row list \<Rightarrow> feature_row list" where
  "clean_rows df = filter (\<lambda>f. fr_fraud f = Some 0) df"

definition target_fraud_count :: "nat \<Rightarrow> nat" where
  "target_fraud_count n = nat \<lfloor>of_nat n * (3/10) / (7/10) :: rat\<rfloor>"

definition balance_dataset :: "pandas_ports \<Rightarrow> feature_row list \<Rightarrow> collector \<Rightarrow> (ml_error + feature_row list) \<times> collector" where
  "balance_dataset P df c =
     (let fraud = fraud_rows df; clean = clean_rows df;
          c1 = c\<lparr>co_fraud := length fraud, co_non_fraud := length clean\<rparr>;
          target = target_fraud_count (length clean) in
      if length fraud < target
      then case oversample P target fraud of
             Inl e \<Rightarrow> (Inl e, c1)
           | Inr extra \<Rightarrow> (Inr (shuffle P (clean @ extra)), c1)
      else (Inr (shuffle P (clean @ fraud)), c1))"

text \<open>\<open>extract\<close> is the merge of what the two queries returned and the random flags.\<close>

definition collect_training_data ::
  "pandas_ports \<Rightarrow> ml_error + (merged_row list \<times> rat list) \<Rightarrow> collector \<Rightarrow> (ml_error + feature_row list) \<times> collector" where
  "collect_training_data P extracted c =
     (case extracted of
        Inl e \<Rightarrow> (Inl e, c)
      | Inr (rows, flags) \<Rightarrow>
          (case balance_dataset P (validate_and_clean P (engineer_features rows flags)) c of
             (Inl e, c1) \<Rightarrow> (Inl e, c1)
           | (Inr df, c1) \<Rightarrow> (Inr df, c1\<lparr>co_total := length df\<rparr>)))"

record collector_metrics =
  cm_total :: nat
  cm_fraud :: nat
  cm_non_fraud :: nat
  cm_percentage :: rat

definition collector_get_metrics :: "collector \<Rightarrow> collector_metrics" where
  "collector_get_metrics c =
     \<lparr>cm_total = co_total c, cm_fraud = co_fraud c, cm_non_fraud = co_non_fraud c,
      cm_percentage = (if co_total c > 0 then of_nat (co_fraud c) / of_nat (co_total c) * 100 else 0)\<rparr>"



section \<open>Training\<close>

text \<open>The columns a frame must have, its split by scikit-learn, and the booster XGBoost returns (\<open>'b\<close>).\<close>

record ('r, 'b) train_ports =
  train_test_split :: "rat \<Rightarrow> 'r list \<Rightarrow> ml_error + 'r list \<times> 'r list"
  xgb_train :: "'r list \<Rightarrow> 'r list \<Rightarrow> ml_error + 'b"
  gain_scores :: "'b \<Rightarrow> (string, rat) dict"
  booster_scores :: "'b \<Rightarrow> rat list list \<Rightarrow> ml_error + rat list"

definition trainer_features :: "string list" where
  "trainer_features = [''asr'', ''aloc'', ''overlap_ratio'', ''cli_mismatch'', ''distinct_a_count'', ''call_rate'',
     ''short_call_ratio'', ''high_volume_flag'']"

definition missing_columns :: "string list \<Rightarrow> string list" where
  "missing_columns cols = filter (\<lambda>c. c \<notin> set cols) (trainer_features @ [''label''])"

definition prepare_data ::
  "('r, 'b) train_ports \<Rightarrow> string list \<Rightarrow> rat \<Rightarrow> rat \<Rightarrow> 'r list \<Rightarrow> ml_error + 'r list \<times> 'r list \<times> 'r list" where
  "prepare_data P cols test_size validation_size rows =
     (if missing_columns cols \<noteq> [] then Inl (Value_error ''Missing required columns'')
      else case train_test_split P test_size rows of
        Inl e \<Rightarrow> Inl e
      | Inr (temp, test) \<Rightarrow>
          if 1 - test_size = 0 then Inl (Value_error ''float division by zero'')
          else (case train_test_split P (validation_size / (1 - test_size)) temp of
                  Inl e \<Rightarrow> Inl e
                | Inr (train, val) \<Rightarrow> Inr (train, val, test)))"

text \<open>The trainer keeps the last booster it trained or loaded.\<close>

definition trainer_train :: "('r, 'b) train_ports \<Rightarrow> 'r list \<Rightarrow> 'r list \<Rightarrow> 'b option \<Rightarrow> (ml_error + unit) \<times> 'b option" where
  "trainer_train P train val model =
     (case xgb_train P train val of Inl e \<Rightarrow> (Inl e, model) | Inr b \<Rightarrow> (Inr (), Some b))"

definition get_feature_importance :: "('r, 'b) train_ports \<Rightarrow> 'b option \<Rightarrow> ml_error + (string, rat) dict" where
  "get_feature_importance P model =
     (case model of
        None \<Rightarrow> Inl (Runtime_error ''Model not trained'')
      | Some b \<Rightarrow>
          (let n = sum_list (map snd (gain_scores P b)) in
           if gain_scores P b \<noteq> [] \<and> n = 0 then Inl (Value_error ''float division by zero'')
           else Inr (map (\<lambda>(k, v). (k, v / n)) (gain_scores P b))))"

definition trainer_predict :: "('r, 'b) train_ports \<Rightarrow> 'b option \<Rightarrow> rat list list \<Rightarrow> ml_error + rat list" where
  "trainer_predict P model rows =
     (case model of None \<Rightarrow> Inl (Runtime_error ''Model not trained or loaded'') | Some b \<Rightarrow> booster_scores P b rows)"

definition create_model_id :: "string \<Rightarrow> string" where
  "create_model_id version = ''xgboost_v'' @ version"

text \<open>What a split promises: the rows, each in one part.\<close>

definition split_ok :: "('r, 'b) train_ports \<Rightarrow> bool" where
  "split_ok P \<longleftrightarrow> (\<forall>t rows a b. train_test_split P t rows = Inr (a, b) \<longrightarrow> mset a + mset b = mset rows)"

lemma prepare_data_partition:
  assumes "split_ok P" "prepare_data P cols t v rows = Inr (train, val, test)"
  shows "mset train + mset val + mset test = mset rows \<and> set trainer_features \<subseteq> set cols \<and> ''label'' \<in> set cols"
proof -
  have "missing_columns cols = []" using assms(2) by (auto simp: prepare_data_def split: if_splits)
  then have cols: "set trainer_features \<subseteq> set cols \<and> ''label'' \<in> set cols"
    by (auto simp: missing_columns_def filter_empty_conv split: if_splits)
  obtain temp where "train_test_split P t rows = Inr (temp, test)"
    "train_test_split P (v / (1 - t)) temp = Inr (train, val)"
    using assms(2) by (auto simp: prepare_data_def split: if_splits sum.splits)
  then have "mset temp + mset test = mset rows" "mset train + mset val = mset temp"
    using assms(1) unfolding split_ok_def by blast+
  then show ?thesis using cols by simp
qed

lemma sum_list_scaled: "sum_list (map (\<lambda>(k, v). v / n) xs) = sum_list (map snd xs) / (n :: rat)"
  by (induction xs) (auto simp: add_divide_distrib)

lemma importance_sums_to_one:
  assumes "get_feature_importance P (Some b) = Inr imp" "imp \<noteq> []"
  shows "sum_list (map snd imp) = 1"
proof -
  let ?n = "sum_list (map snd (gain_scores P b))"
  have imp: "imp = map (\<lambda>(k, v). (k, v / ?n)) (gain_scores P b)" "?n \<noteq> 0"
    using assms by (auto simp: get_feature_importance_def Let_def split: if_splits)
  then have "map snd imp = map (\<lambda>(k, v). v / ?n) (gain_scores P b)" by auto
  then show ?thesis using imp(2) by (simp add: sum_list_scaled)
qed


section \<open>The retraining job\<close>

datatype retraining_status = Rt_completed | Rt_failed | Rt_skipped

record retraining_config =
  rc_enabled :: bool
  rc_min_samples :: nat
  rc_min_auc :: rat
  rc_min_precision :: rat
  rc_min_recall :: rat
  rc_improvement :: rat
  rc_path :: string
  rc_auto_promote :: bool

record retraining_result =
  rr_status :: retraining_status
  rr_start :: instant
  rr_end :: instant
  rr_duration :: rat
  rr_samples :: nat
  rr_fraud :: nat
  rr_non_fraud :: nat
  rr_model :: "string option"
  rr_auc :: "rat option"
  rr_passed :: bool
  rr_improvement :: bool
  rr_challenger :: bool
  rr_champion :: bool
  rr_error :: "ml_error option"

record orchestrator =
  or_config :: retraining_config
  or_collector :: collector
  or_registry :: registry
  or_running :: bool
  or_last_run :: "instant option"
  or_last_result :: "retraining_result option"
  or_total :: nat
  or_successful :: nat
  or_failed :: nat

text \<open>What one run meets: the collector's connection, the extracted data, training by XGBoost, and the model id
  made from the clock.\<close>

record run_ports =
  rp_connect :: "ml_error + unit"
  rp_extract :: "ml_error + (merged_row list \<times> rat list)"
  rp_train :: "feature_row list \<Rightarrow> ml_error + unit"
  rp_model_id :: string
  rp_pandas :: pandas_ports

definition without_result :: "retraining_status \<Rightarrow> instant \<Rightarrow> instant \<Rightarrow> ml_error option \<Rightarrow> retraining_result" where
  "without_result st t0 t1 err = \<lparr>rr_status = st, rr_start = t0, rr_end = t1, rr_duration = t1 - t0, rr_samples = 0,
     rr_fraud = 0, rr_non_fraud = 0, rr_model = None, rr_auc = None, rr_passed = False, rr_improvement = False,
     rr_challenger = False, rr_champion = False, rr_error = err\<rparr>"

text \<open>The collector is closed whether the collection returned or raised.\<close>

definition collect_data :: "run_ports \<Rightarrow> collector \<Rightarrow> (ml_error + feature_row list) \<times> collector" where
  "collect_data P c =
     (case rp_connect P of
        Inl e \<Rightarrow> (Inl e, c)
      | Inr _ \<Rightarrow> (case collect_training_data (rp_pandas P) (rp_extract P) (c\<lparr>co_open := True\<rparr>) of
                    (r, c1) \<Rightarrow> (r, c1\<lparr>co_open := False\<rparr>)))"

definition train_model :: "run_ports \<Rightarrow> retraining_config \<Rightarrow> feature_row list \<Rightarrow> ml_error + string \<times> string" where
  "train_model P C df =
     (case rp_train P df of
        Inl e \<Rightarrow> Inl e
      | Inr _ \<Rightarrow> Inr (rp_model_id P, rc_path C @ ''/'' @ rp_model_id P @ ''.json''))"

text \<open>\<open>ModelEvaluator.evaluate\<close> takes two arguments beside the evaluator; the job passes three.\<close>

definition evaluate_model :: "feature_row list \<Rightarrow> string \<Rightarrow> ml_error + (string, rat) dict" where
  "evaluate_model df path = Inl (Type_error ''evaluate() takes 3 positional arguments but 4 were given'')"

definition metric :: "(string, rat) dict \<Rightarrow> string \<Rightarrow> rat" where
  "metric ms k = (case dict_get ms k of None \<Rightarrow> 0 | Some v \<Rightarrow> v)"

text \<open>The registry has no \<open>get_model_metadata\<close>.\<close>

definition check_quality_gates ::
  "registry_env \<Rightarrow> retraining_config \<Rightarrow> registry \<Rightarrow> (string, rat) dict \<Rightarrow> ml_error + bool \<times> bool" where
  "check_quality_gates E C r ms =
     (let passed = metric ms ''auc'' \<ge> rc_min_auc C \<and> metric ms ''precision'' \<ge> rc_min_precision C
            \<and> metric ms ''recall'' \<ge> rc_min_recall C in
      case get_champion E r of
        Some _ \<Rightarrow> Inl (Attribute_error ''get_model_metadata'')
      | None \<Rightarrow> Inr (passed, passed))"

text \<open>\<open>register_model\<close> takes a path and a metadata object and no \<open>model_id\<close>, so the first call already raises.\<close>

definition handle_promotion :: "string \<Rightarrow> string \<Rightarrow> bool \<Rightarrow> bool \<Rightarrow> registry \<Rightarrow> ml_error + (bool \<times> bool)" where
  "handle_promotion i path passed improved r =
     Inl (Type_error ''register_model() got an unexpected keyword argument 'model_id' '')"

text \<open>The body of the \<open>try\<close>.\<close>

definition retraining_pipeline ::
  "registry_env \<Rightarrow> run_ports \<Rightarrow> instant \<Rightarrow> instant \<Rightarrow> orchestrator \<Rightarrow> (ml_error + retraining_result) \<times> orchestrator" where
  "retraining_pipeline E P t0 t1 s =
     (let C = or_config s in
      case collect_data P (or_collector s) of
        (Inl e, c) \<Rightarrow> (Inl e, s\<lparr>or_collector := c\<rparr>)
      | (Inr df, c) \<Rightarrow>
          (let s1 = s\<lparr>or_collector := c\<rparr> in
           if length df < rc_min_samples C then (Inl (Value_error ''Insufficient samples''), s1)
           else case train_model P C df of
             Inl e \<Rightarrow> (Inl e, s1)
           | Inr (i, path) \<Rightarrow>
           case evaluate_model df path of
             Inl e \<Rightarrow> (Inl e, s1)
           | Inr ms \<Rightarrow>
           case check_quality_gates E C (or_registry s1) ms of
             Inl e \<Rightarrow> (Inl e, s1)
           | Inr (passed, improved) \<Rightarrow>
           case handle_promotion i path passed improved (or_registry s1) of
             Inl e \<Rightarrow> (Inl e, s1)
           | Inr (chall, champ) \<Rightarrow>
               (Inr \<lparr>rr_status = Rt_completed, rr_start = t0, rr_end = t1, rr_duration = t1 - t0,
                     rr_samples = co_total c, rr_fraud = co_fraud c, rr_non_fraud = co_non_fraud c, rr_model = Some i,
                     rr_auc = dict_get ms ''auc'', rr_passed = passed, rr_improvement = improved,
                     rr_challenger = chall, rr_champion = champ, rr_error = None\<rparr>, s1)))"

text \<open>A run is a beginning, which the check for a run in progress guards, and an end after the awaited pipeline;
  other calls may come between the two.\<close>

definition begin_retraining :: "orchestrator \<Rightarrow> orchestrator option" where
  "begin_retraining s = (if or_running s then None else Some (s\<lparr>or_running := True, or_total := Suc (or_total s)\<rparr>))"

definition finish_retraining ::
  "registry_env \<Rightarrow> run_ports \<Rightarrow> instant \<Rightarrow> instant \<Rightarrow> orchestrator \<Rightarrow> retraining_result \<times> orchestrator" where
  "finish_retraining E P t0 t1 s =
     (case retraining_pipeline E P t0 t1 s of
        (Inr r, s1) \<Rightarrow> (r, s1\<lparr>or_successful := Suc (or_successful s1), or_last_result := Some r, or_last_run := Some t1,
                            or_running := False\<rparr>)
      | (Inl e, s1) \<Rightarrow>
          (let r = without_result Rt_failed t0 t1 (Some e) in
           (r, s1\<lparr>or_failed := Suc (or_failed s1), or_last_result := Some r, or_last_run := Some t1,
                 or_running := False\<rparr>)))"

definition run_retraining ::
  "registry_env \<Rightarrow> run_ports \<Rightarrow> instant \<Rightarrow> instant \<Rightarrow> orchestrator \<Rightarrow> retraining_result \<times> orchestrator" where
  "run_retraining E P t0 t1 s =
     (case begin_retraining s of
        None \<Rightarrow> (without_result Rt_skipped t0 t0 (Some (Value_error ''Previous run still in progress'')), s)
      | Some s1 \<Rightarrow> finish_retraining E P t0 t1 s1)"

text \<open>The wait until two o'clock, in a local time without clock changes: \<open>now\<close> counts from a midnight.\<close>

definition seconds_to_next_run :: "instant \<Rightarrow> rat" where
  "seconds_to_next_run now =
     (let today = of_int \<lfloor>now / 86400\<rfloor> * 86400 + 7200; next_run = (if today \<le> now then today + 86400 else today)
      in next_run - now)"

record orchestrator_metrics =
  om_total :: nat
  om_successful :: nat
  om_failed :: nat
  om_rate :: rat
  om_last :: "instant option"
  om_running :: bool

definition orchestrator_get_metrics :: "orchestrator \<Rightarrow> orchestrator_metrics" where
  "orchestrator_get_metrics s =
     \<lparr>om_total = or_total s, om_successful = or_successful s, om_failed = or_failed s,
      om_rate = (if or_total s > 0 then of_nat (or_successful s) / of_nat (or_total s) * 100 else 0),
      om_last = or_last_run s, om_running = or_running s\<rparr>"



section \<open>Lemmas\<close>

lemma target_fraud_count_bounds:
  "7 * target_fraud_count n \<le> 3 * n" "3 * n < 7 * (target_fraud_count n + 1)"
proof -
  let ?q = "of_nat n * (3/10) / (7/10) :: rat"
  have q: "?q = of_nat (3 * n) / 7" by simp
  have t: "of_nat (target_fraud_count n) = (of_int \<lfloor>?q\<rfloor> :: rat)" by (simp add: target_fraud_count_def)
  have "of_nat (target_fraud_count n) \<le> ?q" "?q < of_nat (target_fraud_count n) + 1"
    unfolding t by linarith+
  then have "(of_nat (7 * target_fraud_count n) :: rat) \<le> of_nat (3 * n)"
    "(of_nat (3 * n) :: rat) < of_nat (7 * (target_fraud_count n + 1))"
    unfolding q by (simp_all add: field_simps)
  then show "7 * target_fraud_count n \<le> 3 * n" "3 * n < 7 * (target_fraud_count n + 1)"
    unfolding of_nat_le_iff of_nat_less_iff by simp_all
qed

lemma target_fraud_count_div: "target_fraud_count n = 3 * n div 7"
  using target_fraud_count_bounds [of n] by (simp add: div_nat_eqI)

text \<open>What pandas promises: without its duplicates a frame has the same rows, each once; a sample with replacement has the size
  asked for and only rows of the frame, and there is one of every frame that is not empty; a shuffle permutes.\<close>

definition pandas_ok :: "pandas_ports \<Rightarrow> bool" where
  "pandas_ok P \<longleftrightarrow>
     (\<forall>rows. distinct (drop_duplicates P rows) \<and> set (drop_duplicates P rows) = set rows)
   \<and> (\<forall>n rows out. oversample P n rows = Inr out \<longrightarrow> length out = n \<and> set out \<subseteq> set rows)
   \<and> (\<forall>n rows. rows \<noteq> [] \<longrightarrow> (\<exists>out. oversample P n rows = Inr out))
   \<and> (\<forall>rows. mset (shuffle P rows) = mset rows)"

lemma rows_of_clean:
  "pandas_ok P \<Longrightarrow> f \<in> set (validate_and_clean P df) \<longleftrightarrow> f \<in> set df \<and> complete_row f \<and> valid_row f"
  by (auto simp: validate_and_clean_def pandas_ok_def)

lemma clean_distinct: "pandas_ok P \<Longrightarrow> distinct (validate_and_clean P df)"
  by (simp add: validate_and_clean_def pandas_ok_def)

lemma shuffle_filter:
  assumes "pandas_ok P"
  shows "mset (filter p (shuffle P rows)) = mset (filter p rows)"
  using assms by (simp add: pandas_ok_def mset_filter)

lemma fraud_of_rows: "set xs \<subseteq> set (fraud_rows df) \<Longrightarrow> fraud_rows xs = xs \<and> clean_rows xs = []"
  by (auto simp: fraud_rows_def clean_rows_def filter_id_conv filter_empty_conv)

lemma clean_of_rows [simp]: "fraud_rows (clean_rows df) = []" "clean_rows (clean_rows df) = clean_rows df"
  by (simp_all add: fraud_rows_def clean_rows_def filter_empty_conv)

lemma rows_append [simp]: "fraud_rows (a @ b) = fraud_rows a @ fraud_rows b" "clean_rows (a @ b) = clean_rows a @ clean_rows b"
  by (simp_all add: fraud_rows_def clean_rows_def)



section \<open>Runs of the orchestrator\<close>

text \<open>Calls of \<open>run_retraining\<close> in any interleaving: a call begins a run, or is skipped while one is in progress; the
  run in progress ends.\<close>

inductive retraining_step :: "registry_env \<Rightarrow> orchestrator \<Rightarrow> orchestrator \<Rightarrow> bool" for E where
  begins: "begin_retraining s = Some s' \<Longrightarrow> retraining_step E s s'"
| skipped: "begin_retraining s = None \<Longrightarrow> retraining_step E s s"
| ends: "or_running s \<Longrightarrow> finish_retraining E P t0 t1 s = (r, s') \<Longrightarrow> retraining_step E s s'"

inductive_cases retraining_stepE: "retraining_step E s s'"

lemma pipeline_fails: "\<exists>e c. retraining_pipeline E P t0 t1 s = (Inl e, s\<lparr>or_collector := c\<rparr>)"
proof -
  obtain x c where "collect_data P (or_collector s) = (x, c)" by (cases "collect_data P (or_collector s)")
  then have "\<exists>e. retraining_pipeline E P t0 t1 s = (Inl e, s\<lparr>or_collector := c\<rparr>)"
    by (cases x) (simp_all add: retraining_pipeline_def evaluate_model_def Let_def split: sum.split prod.split)
  then show ?thesis by blast
qed

lemma finish_retraining_fails:
  "\<exists>e c. finish_retraining E P t0 t1 s = (without_result Rt_failed t0 t1 (Some e),
     s\<lparr>or_collector := c, or_failed := Suc (or_failed s), or_last_result := Some (without_result Rt_failed t0 t1 (Some e)),
       or_last_run := Some t1, or_running := False\<rparr>)"
proof -
  obtain e c where "retraining_pipeline E P t0 t1 s = (Inl e, s\<lparr>or_collector := c\<rparr>)" using pipeline_fails by blast
  then show ?thesis by (intro exI [of _ e] exI [of _ c]) (simp add: finish_retraining_def Let_def)
qed

text \<open>Every run that has begun is counted once more when it ends, and at most one is in progress.\<close>

definition runs_accounted :: "orchestrator \<Rightarrow> bool" where
  "runs_accounted s \<longleftrightarrow> or_total s = or_successful s + or_failed s + (if or_running s then 1 else 0)"

lemma finish_accounted:
  assumes "runs_accounted s" "or_running s" "finish_retraining E P t0 t1 s = (r, s')"
  shows "runs_accounted s' \<and> \<not> or_running s'"
proof -
  obtain e c where "finish_retraining E P t0 t1 s = (without_result Rt_failed t0 t1 (Some e),
     s\<lparr>or_collector := c, or_failed := Suc (or_failed s), or_last_result := Some (without_result Rt_failed t0 t1 (Some e)),
       or_last_run := Some t1, or_running := False\<rparr>)" using finish_retraining_fails by blast
  then have "s' = s\<lparr>or_collector := c, or_failed := Suc (or_failed s),
      or_last_result := Some (without_result Rt_failed t0 t1 (Some e)), or_last_run := Some t1, or_running := False\<rparr>"
    using assms(3) by simp
  then show ?thesis using assms(1,2) by (simp add: runs_accounted_def)
qed

lemma step_accounted:
  assumes "retraining_step E s s'" "runs_accounted s"
  shows "runs_accounted s' \<and> or_successful s' = or_successful s \<and> or_registry s' = or_registry s"
  using assms(1)
proof cases
  case begins
  then show ?thesis using assms(2) by (auto simp: begin_retraining_def runs_accounted_def split: if_splits)
next
  case skipped
  then show ?thesis using assms(2) by simp
next
  case (ends P t0 t1 r)
  obtain e c where "finish_retraining E P t0 t1 s = (without_result Rt_failed t0 t1 (Some e),
     s\<lparr>or_collector := c, or_failed := Suc (or_failed s), or_last_result := Some (without_result Rt_failed t0 t1 (Some e)),
       or_last_run := Some t1, or_running := False\<rparr>)" using finish_retraining_fails by blast
  then have "or_successful s' = or_successful s \<and> or_registry s' = or_registry s" using ends(2) by auto
  then show ?thesis using finish_accounted [OF assms(2) ends] by blast
qed

lemma steps_accounted:
  "(retraining_step E)\<^sup>*\<^sup>* s s' \<Longrightarrow> runs_accounted s \<Longrightarrow>
     runs_accounted s' \<and> or_successful s' = or_successful s \<and> or_registry s' = or_registry s"
  by (induction rule: rtranclp_induct) (auto dest: step_accounted)


section \<open>Properties\<close>

text \<open>Cleaning a cleaned frame removes nothing.\<close>
lemma cleaning_idempotent:
  assumes "pandas_ok P"
  shows "mset (validate_and_clean P (validate_and_clean P df)) = mset (validate_and_clean P df)"
proof -
  have "set (validate_and_clean P (validate_and_clean P df)) = set (validate_and_clean P df)"
    using rows_of_clean [OF assms] by blast
  then show ?thesis using clean_distinct [OF assms] by (simp add: set_eq_iff_mset_eq_distinct)
qed

text \<open>What balancing makes of a frame: its clean rows and, with them, its fraud rows or copies of these.\<close>

lemma balance_rows:
  assumes "pandas_ok P" "balance_dataset P df c = (Inr out, c')"
  obtains extra where "mset out = mset (clean_rows df) + mset extra" "set extra \<subseteq> set (fraud_rows df)"
    "length extra = max (length (fraud_rows df)) (target_fraud_count (length (clean_rows df)))"
    "target_fraud_count (length (clean_rows df)) \<le> length (fraud_rows df) \<Longrightarrow> extra = fraud_rows df"
    "c' = c\<lparr>co_fraud := length (fraud_rows df), co_non_fraud := length (clean_rows df)\<rparr>"
proof (cases "length (fraud_rows df) < target_fraud_count (length (clean_rows df))")
  case True
  then obtain extra where e: "oversample P (target_fraud_count (length (clean_rows df))) (fraud_rows df) = Inr extra"
    "out = shuffle P (clean_rows df @ extra)" "c' = c\<lparr>co_fraud := length (fraud_rows df), co_non_fraud := length (clean_rows df)\<rparr>"
    using assms(2) by (auto simp: balance_dataset_def Let_def split: sum.splits)
  from e(1) assms(1) have "length extra = target_fraud_count (length (clean_rows df))" "set extra \<subseteq> set (fraud_rows df)"
    by (simp_all add: pandas_ok_def)
  with that [of extra] e True assms(1) show thesis by (simp add: pandas_ok_def)
next
  case False
  with that [of "fraud_rows df"] assms show thesis by (auto simp: balance_dataset_def Let_def pandas_ok_def)
qed

text \<open>A row that survives labelling and cleaning, from the merged row and the flag it was made of.\<close>

lemma clean_engineered:
  assumes "pandas_ok P"
  shows "f \<in> set (validate_and_clean P (engineer_features rows flags)) \<and> fr_fraud f = Some y \<longleftrightarrow>
    (y = 0 \<or> y = 1) \<and>
    (\<exists>a l q x d r h. f = \<lparr>fr_asr = Some a, fr_aloc = Some l, fr_overlap = Some q, fr_mismatch = Some x, fr_distinct = Some d,
         fr_rate = Some r, fr_short = Some h, fr_volume = Some (if d > 10 then 1 else 0), fr_fraud = Some y\<rparr>
       \<and> (\<lparr>mr_asr = Some a, mr_aloc = Some l, mr_overlap = Some q, mr_distinct = Some d, mr_rate = Some r, mr_short = Some h,
          mr_fraud = Some y\<rparr>, x) \<in> set (zip rows flags)
       \<and> 0 \<le> a \<and> a \<le> 100 \<and> 0 \<le> l \<and> 0 \<le> q \<and> q \<le> 1 \<and> (x = 0 \<or> x = 1) \<and> 0 \<le> d \<and> 0 \<le> r \<and> 0 \<le> h \<and> h \<le> 1)"
    (is "?lhs \<longleftrightarrow> ?rhs")
proof
  assume ?lhs
  then have f: "f \<in> set (engineer_features rows flags)" "complete_row f" "valid_row f" "fr_fraud f = Some y"
    using rows_of_clean [OF assms] by auto
  then obtain m x where m: "(m, x) \<in> set (zip rows flags)" "f = engineer_row (m, x)"
    by (auto simp: engineer_features_def)
  then obtain a l q d r h where v: "mr_asr m = Some a" "mr_aloc m = Some l" "mr_overlap m = Some q" "mr_distinct m = Some d"
    "mr_rate m = Some r" "mr_short m = Some h" "mr_fraud m = Some y"
    using f(2,4) by (auto simp: engineer_row_def complete_row_def)
  then have mm: "m = \<lparr>mr_asr = Some a, mr_aloc = Some l, mr_overlap = Some q, mr_distinct = Some d, mr_rate = Some r,
      mr_short = Some h, mr_fraud = Some y\<rparr>"
    by (cases m) simp
  have ff: "f = \<lparr>fr_asr = Some a, fr_aloc = Some l, fr_overlap = Some q, fr_mismatch = Some x, fr_distinct = Some d,
         fr_rate = Some r, fr_short = Some h, fr_volume = Some (if d > 10 then 1 else 0), fr_fraud = Some y\<rparr>"
    by (simp add: m(2) engineer_row_def v)
  have "(y = 0 \<or> y = 1) \<and> 0 \<le> a \<and> a \<le> 100 \<and> 0 \<le> l \<and> 0 \<le> q \<and> q \<le> 1 \<and> (x = 0 \<or> x = 1) \<and> 0 \<le> d \<and> 0 \<le> r \<and> 0 \<le> h \<and> h \<le> 1"
    using f(3) unfolding ff valid_row_def between_def at_least_zero_def zero_or_one_def by simp
  with ff m(1) [unfolded mm] show ?rhs by blast
next
  assume ?rhs
  then show ?lhs
    using assms by (auto simp: rows_of_clean engineer_features_def engineer_row_def complete_row_def valid_row_def between_def
        at_least_zero_def zero_or_one_def image_iff intro!: bexI)
qed

text \<open>C27: What the training set holds. When \<open>collect_training_data\<close> returns a frame, its rows labelled 0 are exactly those made of a
  merged row with that label and its mismatch flag where no value is missing, the answer rate is between 0 and 100, the overlap
  and the share of short calls between 0 and 1, the call length, the callers and the call rate not negative and the flag 0 or 1,
  each distinct one once; the volume flag says whether there were more than ten callers. Every other row is such a row labelled
  1: each once when there are at least three for seven of the others, and otherwise copies of them, drawn until there are three
  for seven, cut to a whole number. The counters are the numbers of distinct rows of each label and the size of the frame. That
  the code removes rows with missing values first does not show: no comparison holds of a missing value.\<close>
theorem training_set_valid:
  assumes pandas: "pandas_ok P" and run: "collect_training_data P (Inr (rows, flags)) c = (Inr df, c')"
  shows "let made = \<lambda>y. {\<lparr>fr_asr = Some a, fr_aloc = Some l, fr_overlap = Some q, fr_mismatch = Some x, fr_distinct = Some d,
         fr_rate = Some r, fr_short = Some h, fr_volume = Some (if d > 10 then 1 else 0), fr_fraud = Some y\<rparr> | a l q x d r h.
         (\<lparr>mr_asr = Some a, mr_aloc = Some l, mr_overlap = Some q, mr_distinct = Some d, mr_rate = Some r, mr_short = Some h,
           mr_fraud = Some y\<rparr>, x) \<in> set (zip rows flags)
         \<and> 0 \<le> a \<and> a \<le> 100 \<and> 0 \<le> l \<and> 0 \<le> q \<and> q \<le> 1 \<and> (x = 0 \<or> x = 1) \<and> 0 \<le> d \<and> 0 \<le> r \<and> 0 \<le> h \<and> h \<le> 1} in
      \<exists>clean fraud. mset df = mset clean + mset fraud
        \<and> set clean = made 0 \<and> distinct clean
        \<and> set fraud \<subseteq> made 1 \<and> length fraud = max (card (made 1)) (3 * card (made 0) div 7)
        \<and> (3 * card (made 0) div 7 \<le> card (made 1) \<longrightarrow> set fraud = made 1 \<and> distinct fraud)
        \<and> c' = c\<lparr>co_fraud := card (made 1), co_non_fraud := card (made 0), co_total := length df\<rparr>"
proof -
  let ?v = "validate_and_clean P (engineer_features rows flags)"
  obtain c1 where b: "balance_dataset P ?v c = (Inr df, c1)" and c': "c' = c1\<lparr>co_total := length df\<rparr>"
    using run by (auto simp: collect_training_data_def split: prod.splits sum.splits)
  obtain extra where e: "mset df = mset (clean_rows ?v) + mset extra" "set extra \<subseteq> set (fraud_rows ?v)"
    "length extra = max (length (fraud_rows ?v)) (target_fraud_count (length (clean_rows ?v)))"
    "target_fraud_count (length (clean_rows ?v)) \<le> length (fraud_rows ?v) \<Longrightarrow> extra = fraud_rows ?v"
    "c1 = c\<lparr>co_fraud := length (fraud_rows ?v), co_non_fraud := length (clean_rows ?v)\<rparr>"
    using balance_rows [OF pandas b] by blast
  have d: "distinct (clean_rows ?v)" "distinct (fraud_rows ?v)"
    using clean_distinct [OF pandas] by (simp_all add: clean_rows_def fraud_rows_def)
  note sizes = distinct_card [OF d(1)] distinct_card [OF d(2)]
  have sets: "set (clean_rows ?v) = {f. f \<in> set ?v \<and> fr_fraud f = Some 0}" "set (fraud_rows ?v) = {f. f \<in> set ?v \<and> fr_fraud f = Some 1}"
    by (auto simp: clean_rows_def fraud_rows_def)
  show ?thesis
    unfolding Let_def
    by (rule exI [of _ "clean_rows ?v"], rule exI [of _ extra])
      (use e d sizes c' in \<open>simp add: sets clean_engineered [OF pandas] target_fraud_count_div\<close>)
qed

text \<open>Balancing keeps every clean row once, adds only copies of fraud rows, and reaches the share of three fraud
  rows to seven clean ones up to one row; with a fraud row to copy it always returns.\<close>
theorem balanced_share:
  assumes "pandas_ok P" "balance_dataset P df c = (r, c')"
  shows "(fraud_rows df \<noteq> [] \<longrightarrow> (\<exists>out. r = Inr out))
    \<and> (\<forall>out. r = Inr out \<longrightarrow> mset (clean_rows out) = mset (clean_rows df) \<and> set (fraud_rows out) \<subseteq> set (fraud_rows df)
        \<and> length (fraud_rows out) = max (length (fraud_rows df)) (target_fraud_count (length (clean_rows df)))
        \<and> 3 * length (clean_rows df) < 7 * (length (fraud_rows out) + 1))"
proof -
  have "\<exists>out. r = Inr out" if "fraud_rows df \<noteq> []"
    using assms that by (auto simp: balance_dataset_def Let_def pandas_ok_def split: if_splits sum.splits)
  moreover have "mset (clean_rows out) = mset (clean_rows df) \<and> set (fraud_rows out) \<subseteq> set (fraud_rows df)
        \<and> length (fraud_rows out) = max (length (fraud_rows df)) (target_fraud_count (length (clean_rows df)))
        \<and> 3 * length (clean_rows df) < 7 * (length (fraud_rows out) + 1)" if "r = Inr out" for out
  proof -
    have run: "balance_dataset P df c = (Inr out, c')" using assms(2) that by simp
    obtain extra where e: "mset out = mset (clean_rows df) + mset extra" "set extra \<subseteq> set (fraud_rows df)"
      "length extra = max (length (fraud_rows df)) (target_fraud_count (length (clean_rows df)))"
      by (rule balance_rows [OF assms(1) run])
    have m: "mset (clean_rows out) = mset (clean_rows (clean_rows df @ extra))" "mset (fraud_rows out) = mset (fraud_rows (clean_rows df @ extra))"
      using e(1) by (simp_all only: clean_rows_def fraud_rows_def mset_filter mset_append)
    then have c: "mset (clean_rows out) = mset (clean_rows df)" "mset (fraud_rows out) = mset extra"
      using fraud_of_rows [OF e(2)] by simp_all
    from mset_eq_length [OF c(2)] mset_eq_setD [OF c(2)] c(1) e(2,3) target_fraud_count_bounds(2) [of "length (clean_rows df)"]
    show ?thesis by (simp add: max_def)
  qed
  ultimately show ?thesis by blast
qed

text \<open>An evaluation at several thresholds puts the evaluator's own threshold back when it returns; when one
  evaluation raises, the threshold that failed stays in the evaluator.\<close>
theorem threshold_restored:
  "(case threshold_sensitivity P y proba ts acc self of
      (Inr _, t) \<Rightarrow> t = self
    | (Inl e, t) \<Rightarrow> t \<in> set ts \<and> evaluate P t y proba = Inl e)"
proof (induction ts arbitrary: acc)
  case (Cons t ts)
  show ?case
  proof (cases "evaluate P t y proba")
    case (Inr m)
    show ?thesis using Cons [of "dict_set t m acc"] Inr by (auto split: sum.splits prod.splits)
  qed simp
qed simp

text \<open>Retraining never completes: whatever the data, the training and the registry, a call is skipped or fails,
  because the evaluation is called with arguments it does not take; no success is ever counted and the
  registry is as it was.\<close>
theorem retraining_never_completes:
  "rr_status (fst (run_retraining E P t0 t1 s)) = (if or_running s then Rt_skipped else Rt_failed)
   \<and> or_successful (snd (run_retraining E P t0 t1 s)) = or_successful s
   \<and> or_registry (snd (run_retraining E P t0 t1 s)) = or_registry s"
proof (cases "or_running s")
  case True
  then show ?thesis by (simp add: run_retraining_def begin_retraining_def without_result_def)
next
  case False
  let ?s = "s\<lparr>or_running := True, or_total := Suc (or_total s)\<rparr>"
  obtain e c where "finish_retraining E P t0 t1 ?s = (without_result Rt_failed t0 t1 (Some e),
     ?s\<lparr>or_collector := c, or_failed := Suc (or_failed ?s), or_last_result := Some (without_result Rt_failed t0 t1 (Some e)),
       or_last_run := Some t1, or_running := False\<rparr>)" using finish_retraining_fails by blast
  then show ?thesis using False by (simp add: run_retraining_def begin_retraining_def without_result_def)
qed

text \<open>In every interleaving of calls, the runs begun are those that ended and the one in progress, if any; a run
  that ends clears the way for the next.\<close>
theorem retraining_runs_accounted:
  assumes "(retraining_step E)\<^sup>*\<^sup>* s s'" "runs_accounted s"
  shows "or_total s' = or_successful s' + or_failed s' + (if or_running s' then 1 else 0)
    \<and> (or_running s' \<longrightarrow> (\<forall>P t0 t1. \<not> or_running (snd (finish_retraining E P t0 t1 s'))))"
proof -
  have ok: "runs_accounted s'" using steps_accounted [OF assms] by blast
  have "\<not> or_running (snd (finish_retraining E P t0 t1 s'))" if "or_running s'" for P t0 t1
    using finish_accounted [OF ok that, of E P t0 t1] by (metis prod.collapse)
  then show ?thesis using ok by (simp add: runs_accounted_def)
qed

text \<open>The scheduler waits for a positive time of at most a day, and wakes at two o'clock.\<close>
theorem next_run_at_two:
  "0 < seconds_to_next_run now \<and> seconds_to_next_run now \<le> 86400
   \<and> (\<exists>day. now + seconds_to_next_run now = of_int day * 86400 + 7200)"
proof -
  let ?d = "\<lfloor>now / 86400\<rfloor>"
  have "of_int ?d \<le> now / 86400" "now / 86400 < of_int ?d + 1" by linarith+
  then have d: "of_int ?d * 86400 \<le> now" "now < of_int ?d * 86400 + 86400" by (simp_all add: field_simps)
  show ?thesis
  proof (cases "of_int ?d * 86400 + 7200 \<le> now")
    case True
    then have "now + seconds_to_next_run now = of_int (?d + 1) * 86400 + 7200"
      by (simp add: seconds_to_next_run_def Let_def)
    moreover have "0 < seconds_to_next_run now \<and> seconds_to_next_run now \<le> 86400"
      using True d by (simp add: seconds_to_next_run_def Let_def)
    ultimately show ?thesis by blast
  next
    case False
    then have "now + seconds_to_next_run now = of_int ?d * 86400 + 7200"
      by (simp add: seconds_to_next_run_def Let_def)
    moreover have "0 < seconds_to_next_run now \<and> seconds_to_next_run now \<le> 86400"
      using False d by (simp add: seconds_to_next_run_def Let_def)
    ultimately show ?thesis by blast
  qed
qed


definition sample_row :: "rat \<Rightarrow> feature_row" where
  "sample_row label = \<lparr>fr_asr = Some 50, fr_aloc = Some 60, fr_overlap = Some 0, fr_mismatch = Some 0, fr_distinct = Some 1,
     fr_rate = Some 1, fr_short = Some 0, fr_volume = Some 0, fr_fraud = Some label\<rparr>"

definition sample_pandas :: pandas_ports where
  "sample_pandas = \<lparr>drop_duplicates = remdups, oversample = (\<lambda>n rows. case rows of [] \<Rightarrow> Inl (Value_error ''empty'') | r # _ \<Rightarrow> Inr (replicate n r)),
     shuffle = rev\<rparr>"

lemma sample_pandas_ok: "pandas_ok sample_pandas"
  by (auto simp: pandas_ok_def sample_pandas_def split: list.splits)

definition sample_frame :: "feature_row list" where
  "sample_frame = sample_row 1 # replicate 7 (sample_row 0)"

theorem balanced_share_witness:
  "\<exists>out c'. balance_dataset sample_pandas sample_frame \<lparr>co_total = 0, co_fraud = 0, co_non_fraud = 0, co_open = True\<rparr>
      = (Inr out, c') \<and> length (fraud_rows out) = 3"
proof -
  let ?c = "\<lparr>co_total = 0, co_fraud = 0, co_non_fraud = 0, co_open = True\<rparr>"
  obtain r c' where run: "balance_dataset sample_pandas sample_frame ?c = (r, c')"
    by (cases "balance_dataset sample_pandas sample_frame ?c")
  have rows: "fraud_rows sample_frame = [sample_row 1]" "length (clean_rows sample_frame) = 7"
    by (simp_all add: sample_frame_def fraud_rows_def clean_rows_def sample_row_def)
  have t: "target_fraud_count 7 = 3" by (simp add: target_fraud_count_def)
  note b = balanced_share [OF sample_pandas_ok run, unfolded rows t]
  obtain out where "r = Inr out" using b by auto
  then show ?thesis using b run by auto
qed

text \<open>A row twice, a row with an answer rate above a hundred, and a fraud row.\<close>

definition sample_merged :: "rat \<Rightarrow> rat \<Rightarrow> merged_row" where
  "sample_merged a y = \<lparr>mr_asr = Some a, mr_aloc = Some 60, mr_overlap = Some 0, mr_distinct = Some 11, mr_rate = Some 1,
     mr_short = Some 0, mr_fraud = Some y\<rparr>"

theorem training_set_valid_witness:
  "\<exists>df c'. collect_training_data sample_pandas
       (Inr ([sample_merged 50 0, sample_merged 50 0, sample_merged 101 0, sample_merged 50 1], [0, 0, 0, 1]))
       \<lparr>co_total = 0, co_fraud = 0, co_non_fraud = 0, co_open = True\<rparr> = (Inr df, c')
     \<and> length df = 2 \<and> co_total c' = length df"
proof -
  let ?r = "collect_training_data sample_pandas
       (Inr ([sample_merged 50 0, sample_merged 50 0, sample_merged 101 0, sample_merged 50 1], [0, 0, 0, 1]))
       \<lparr>co_total = 0, co_fraud = 0, co_non_fraud = 0, co_open = True\<rparr>"
  have "(case fst ?r of Inl _ \<Rightarrow> 0 | Inr df \<Rightarrow> length df) = 2" by code_simp
  then obtain df c' where run: "?r = (Inr df, c')" and n: "length df = 2" by (cases ?r) (auto split: sum.splits)
  from training_set_valid [OF sample_pandas_ok run] have "co_total c' = length df" unfolding Let_def by force
  with run n show ?thesis by blast
qed

definition idle_orchestrator :: "registry \<Rightarrow> orchestrator" where
  "idle_orchestrator r = \<lparr>or_config = \<lparr>rc_enabled = True, rc_min_samples = 1000, rc_min_auc = 85/100, rc_min_precision = 8/10,
     rc_min_recall = 75/100, rc_improvement = 2/100, rc_path = ''models/registry'', rc_auto_promote = False\<rparr>,
     or_collector = \<lparr>co_total = 0, co_fraud = 0, co_non_fraud = 0, co_open = False\<rparr>, or_registry = r, or_running = False,
     or_last_run = None, or_last_result = None, or_total = 0, or_successful = 0, or_failed = 0\<rparr>"

theorem retraining_runs_accounted_witness:
  "\<exists>s'. (retraining_step sample_env)\<^sup>*\<^sup>* (idle_orchestrator sample_registry) s' \<and> or_running s' \<and> or_total s' = 1
     \<and> (\<forall>P t0 t1. \<not> or_running (snd (finish_retraining sample_env P t0 t1 s')))"
proof -
  let ?s = "idle_orchestrator sample_registry" and ?s' = "(idle_orchestrator sample_registry)\<lparr>or_running := True, or_total := 1\<rparr>"
  have "begin_retraining ?s = Some ?s'" by (simp add: begin_retraining_def idle_orchestrator_def)
  then have steps: "(retraining_step sample_env)\<^sup>*\<^sup>* ?s ?s'" by (intro r_into_rtranclp retraining_step.begins)
  have "runs_accounted ?s" by (simp add: runs_accounted_def idle_orchestrator_def)
  then show ?thesis using retraining_runs_accounted [OF steps] steps by (intro exI [of _ ?s']) simp
qed

end
