(* ===== verification/TrainingData.thy ===== *)
theory TrainingData
  imports Training
begin

text \<open>
  The rest of the training side: the generated tables and the merge of \<open>data_collector.py\<close>, its main, the scheduler of
  \<open>retraining_orchestrator.py\<close>, saving and loading of \<open>training/trainer.py\<close> and the reports of \<open>training/evaluator.py\<close>. The draws of
  numpy and the merge of pandas are parameters.
\<close>

section \<open>The generated tables\<close>

record collection_config =
  dc_lookback_days :: nat
  dc_min_samples :: nat
  dc_output_path :: string
  dc_version :: string

definition num_samples :: nat where
  "num_samples = 5000"

record cdr_row =
  cd_time :: instant
  cd_b :: string
  cd_a :: string
  cd_duration :: rat
  cd_status :: string
  cd_asr :: rat
  cd_aloc :: rat
  cd_distinct :: nat
  cd_rate :: rat
  cd_overlap :: rat
  cd_short :: rat

record label_row =
  lb_b :: string
  lb_time :: instant
  lb_fraud :: bool
  lb_probability :: rat
  lb_type :: string
  lb_method :: string

text \<open>The draws for each row: the two parts of a number (70 to 89, and eight digits) and the columns.\<close>

record cdr_draws =
  dr_b :: "nat \<Rightarrow> nat \<times> nat"
  dr_a :: "nat \<Rightarrow> nat \<times> nat"
  dr_duration :: "nat \<Rightarrow> rat"
  dr_status :: "nat \<Rightarrow> string"
  dr_asr :: "nat \<Rightarrow> rat"
  dr_aloc :: "nat \<Rightarrow> rat"
  dr_distinct :: "nat \<Rightarrow> nat"
  dr_rate :: "nat \<Rightarrow> rat"
  dr_overlap :: "nat \<Rightarrow> rat"
  dr_short :: "nat \<Rightarrow> rat"

record label_draws =
  ld_b :: "nat \<Rightarrow> nat \<times> nat"
  ld_fraud :: "nat \<Rightarrow> bool"
  ld_high :: "nat \<Rightarrow> rat"
  ld_low :: "nat \<Rightarrow> rat"
  ld_type :: "nat \<Rightarrow> string"
  ld_method :: "nat \<Rightarrow> string"

definition phone_number :: "nat \<times> nat \<Rightarrow> string" where
  "phone_number p = ''234'' @ show_nat (fst p) @ show_nat (snd p)"

text \<open>\<open>pd.date_range(start, end, periods=n)\<close>, without its rounding to nanoseconds.\<close>

definition grid :: "instant \<Rightarrow> instant \<Rightarrow> nat \<Rightarrow> instant" where
  "grid s e i = s + of_nat i * ((e - s) / of_nat (num_samples - 1))"

definition extract_cdr_metrics :: "cdr_draws \<Rightarrow> instant \<Rightarrow> instant \<Rightarrow> cdr_row list" where
  "extract_cdr_metrics D s e =
     map (\<lambda>i. \<lparr>cd_time = grid s e i, cd_b = phone_number (dr_b D i), cd_a = phone_number (dr_a D i), cd_duration = dr_duration D i,
               cd_status = dr_status D i, cd_asr = dr_asr D i, cd_aloc = dr_aloc D i, cd_distinct = dr_distinct D i, cd_rate = dr_rate D i,
               cd_overlap = dr_overlap D i, cd_short = dr_short D i\<rparr>) [0..<num_samples]"

definition extract_fraud_labels :: "label_draws \<Rightarrow> instant \<Rightarrow> instant \<Rightarrow> label_row list" where
  "extract_fraud_labels L s e =
     map (\<lambda>i. \<lparr>lb_b = phone_number (ld_b L i), lb_time = grid s e i, lb_fraud = ld_fraud L i,
               lb_probability = (if ld_fraud L i then ld_high L i else ld_low L i),
               lb_type = (if ld_fraud L i then ld_type L i else ''none''), lb_method = ld_method L i\<rparr>) [0..<num_samples]"

text \<open>\<open>pd.merge_asof\<close> by number, nearest in time within the tolerance: for each row of the left frame the row of the right one, if any.\<close>

type_synonym asof_port = "rat \<Rightarrow> cdr_row list \<Rightarrow> label_row list \<Rightarrow> label_row option list"

definition merged :: "cdr_row \<Rightarrow> label_row option \<Rightarrow> merged_row" where
  "merged c l =
     \<lparr>mr_asr = Some (cd_asr c), mr_aloc = Some (cd_aloc c), mr_overlap = Some (cd_overlap c), mr_distinct = Some (of_nat (cd_distinct c)),
      mr_rate = Some (cd_rate c), mr_short = Some (cd_short c), mr_fraud = map_option (\<lambda>r. if lb_fraud r then 1 else 0) l\<rparr>"

definition merge_labels :: "asof_port \<Rightarrow> cdr_row list \<Rightarrow> label_row list \<Rightarrow> merged_row list" where
  "merge_labels M cdr labels =
     (let l = sort_key cd_time cdr; r = sort_key lb_time labels in map (\<lambda>(c, m). merged c m) (zip l (M 5 l r)))"

text \<open>What the two queries, the merge and the draw of the flags give.\<close>

definition extracted_rows :: "asof_port \<Rightarrow> cdr_draws \<Rightarrow> label_draws \<Rightarrow> instant \<Rightarrow> instant \<Rightarrow> merged_row list" where
  "extracted_rows M D L s e = merge_labels M (extract_cdr_metrics D s e) (extract_fraud_labels L s e)"

definition save_dataset :: "collection_config \<Rightarrow> string \<Rightarrow> string option \<Rightarrow> string" where
  "save_dataset C stamp path =
     (case path of
        Some p \<Rightarrow> if p \<noteq> [] then p
                  else dc_output_path C @ ''/training_data_'' @ (if dc_version C = [] then stamp else dc_version C) @ ''.parquet''
      | None \<Rightarrow> dc_output_path C @ ''/training_data_'' @ (if dc_version C = [] then stamp else dc_version C) @ ''.parquet'')"

definition new_collector :: collector where
  "new_collector = \<lparr>co_total = 0, co_fraud = 0, co_non_fraud = 0, co_open = False\<rparr>"

definition connect_collector :: "collector \<Rightarrow> collector" where
  "connect_collector c = c\<lparr>co_open := True\<rparr>"

definition close_collector :: "collector \<Rightarrow> collector" where
  "close_collector c = c\<lparr>co_open := False\<rparr>"

text \<open>\<open>main\<close>: the path and the metrics, or the error, after the connections are closed.\<close>

definition collector_main ::
  "pandas_ports \<Rightarrow> asof_port \<Rightarrow> cdr_draws \<Rightarrow> label_draws \<Rightarrow> rat list \<Rightarrow> instant \<Rightarrow> string \<Rightarrow> (ml_error + string \<times> collector_metrics) \<times> collector" where
  "collector_main P M D L flags now stamp =
     (let C = \<lparr>dc_lookback_days = 7, dc_min_samples = 1000, dc_output_path = ''data/training'', dc_version = []\<rparr>;
          s = now - of_nat (dc_lookback_days C) * 86400 in
      case collect_training_data P (Inr (extracted_rows M D L s now, flags)) (connect_collector new_collector) of
        (Inl e, c) \<Rightarrow> (Inl e, close_collector c)
      | (Inr df, c) \<Rightarrow> (Inr (save_dataset C stamp None, collector_get_metrics c), close_collector c))"


section \<open>The scheduler of the retraining\<close>

text \<open>The loop sleeps until two o'clock and runs, until it is cancelled in a sleep; a wake-up brings what the run meets and the clock
  readings of its beginning and its end. Nothing in the loop raises but the run, which returns its errors.\<close>

fun scheduler_loop ::
  "registry_env \<Rightarrow> (run_ports \<times> instant \<times> instant) list \<Rightarrow> orchestrator \<Rightarrow> retraining_result list \<times> orchestrator" where
  "scheduler_loop E [] s = ([], s)"
| "scheduler_loop E ((P, t0, t1) # ws) s =
     (case run_retraining E P t0 t1 s of (r, s1) \<Rightarrow> (case scheduler_loop E ws s1 of (rs, s2) \<Rightarrow> (r # rs, s2)))"

definition start_scheduler ::
  "registry_env \<Rightarrow> (run_ports \<times> instant \<times> instant) list \<Rightarrow> orchestrator \<Rightarrow> retraining_result list \<times> orchestrator" where
  "start_scheduler E ws s = (if rc_enabled (or_config s) then scheduler_loop E ws s else ([], s))"


section \<open>The trainer\<close>

record trainer_params =
  tp_max_depth :: int
  tp_eta :: rat
  tp_subsample :: rat
  tp_colsample :: rat
  tp_seed :: int
  tp_estimators :: int

definition default_trainer :: "bool \<Rightarrow> ml_error + trainer_params" where
  "default_trainer available =
     (if \<not> available then Inl (Runtime_error ''XGBoost is not installed'')
      else Inr \<lparr>tp_max_depth = 6, tp_eta = 1 / 10, tp_subsample = 8 / 10, tp_colsample = 8 / 10, tp_seed = 42, tp_estimators = 100\<rparr>)"

text \<open>\<open>put\<close> makes the folders and writes the booster.\<close>

definition trainer_save :: "('b \<Rightarrow> ('w, ml_error, unit) eff) \<Rightarrow> 'b option \<Rightarrow> ('w, ml_error, unit) eff" where
  "trainer_save put model = (case model of None \<Rightarrow> eff_raise (Runtime_error ''Model not trained'') | Some b \<Rightarrow> put b)"

text \<open>The new booster is the model before it is loaded.\<close>

definition trainer_load :: "'b \<Rightarrow> (string \<Rightarrow> ml_error + 'b) \<Rightarrow> string \<Rightarrow> 'b option \<Rightarrow> (ml_error + unit) \<times> 'b option" where
  "trainer_load fresh get path model = (case get path of Inl e \<Rightarrow> (Inl e, Some fresh) | Inr b \<Rightarrow> (Inr (), Some b))"

definition predict_from_dmatrix :: "('b \<Rightarrow> 'm \<Rightarrow> ml_error + rat list) \<Rightarrow> 'b option \<Rightarrow> 'm \<Rightarrow> ml_error + rat list" where
  "predict_from_dmatrix scores model m =
     (case model of None \<Rightarrow> Inl (Runtime_error ''Model not trained or loaded'') | Some b \<Rightarrow> scores b m)"


section \<open>Reports of the evaluator\<close>

text \<open>\<open>f"{x:.4f}"\<close>: the digits of the nearest multiple of a ten-thousandth, the even one of two.\<close>

definition four_digits :: "nat \<Rightarrow> string" where
  "four_digits n = show_nat (n div 1000 mod 10) @ show_nat (n div 100 mod 10) @ show_nat (n div 10 mod 10) @ show_nat (n mod 10)"

definition show_four :: "rat \<Rightarrow> string" where
  "show_four x =
     (let k = nat \<bar>round_half_even (x * 10000)\<bar> in
      (if x < 0 then ''-'' else []) @ show_nat (k div 10000) @ ''.'' @ four_digits (k mod 10000))"

definition format_metrics :: "evaluation \<Rightarrow> string" where
  "format_metrics e =
     (let nl = [CHR 0x0A]; c = ev_confusion e in
      ''Evaluation Results:'' @ nl @ ''  AUC: '' @ show_four (ev_auc e) @ nl @ ''  Accuracy: '' @ show_four (ev_accuracy e) @ nl
      @ ''  Precision: '' @ show_four (ev_precision e) @ nl @ ''  Recall: '' @ show_four (ev_recall e) @ nl
      @ ''  F1 Score: '' @ show_four (ev_f1 e) @ nl @ ''  Specificity: '' @ show_four (ev_specificity e) @ nl
      @ ''  Confusion Matrix:'' @ nl @ ''    TP='' @ show_nat (cf_tp c) @ '', TN='' @ show_nat (cf_tn c) @ nl
      @ ''    FP='' @ show_nat (cf_fp c) @ '', FN='' @ show_nat (cf_fn c) @ nl
      @ ''  Samples: '' @ show_nat (ev_total e) @ '' (Pos='' @ show_nat (ev_positive e) @ '', Neg='' @ show_int (ev_negative e) @ '')'')"

text \<open>The dictionary with the names of the fields; counts are rationals here.\<close>

definition evaluation_dict :: "evaluation \<Rightarrow> (string, rat) dict" where
  "evaluation_dict e =
     (let c = ev_confusion e in
      [(''auc_score'', ev_auc e), (''accuracy'', ev_accuracy e), (''precision'', ev_precision e), (''recall'', ev_recall e),
       (''f1_score'', ev_f1 e), (''true_positives'', of_nat (cf_tp c)), (''true_negatives'', of_nat (cf_tn c)),
       (''false_positives'', of_nat (cf_fp c)), (''false_negatives'', of_nat (cf_fn c)), (''specificity'', ev_specificity e),
       (''false_positive_rate'', ev_fpr e), (''false_negative_rate'', ev_fnr e), (''total_samples'', of_nat (ev_total e)),
       (''positive_samples'', of_nat (ev_positive e)), (''negative_samples'', of_int (ev_negative e))])"

text \<open>\<open>classification_report\<close> of scikit-learn gets the labels, the predictions at the threshold and the names of the classes.\<close>

definition generate_report :: "(bool list \<Rightarrow> bool list \<Rightarrow> string list \<Rightarrow> 'r) \<Rightarrow> rat \<Rightarrow> bool list \<Rightarrow> rat list \<Rightarrow> 'r" where
  "generate_report classification_report threshold y proba =
     classification_report y (map (\<lambda>p. threshold \<le> p) proba) [''Not Fraud'', ''Fraud'']"



section \<open>What is collected\<close>

text \<open>The documented behaviour of the merge: a row of the left frame gets a nearest of the rows of the right one that have its number and
  are within the tolerance, if there is one.\<close>

definition candidates :: "rat \<Rightarrow> cdr_row \<Rightarrow> label_row list \<Rightarrow> label_row list" where
  "candidates tol c rs = filter (\<lambda>r. lb_b r = cd_b c \<and> \<bar>lb_time r - cd_time c\<bar> \<le> tol) rs"

definition asof_ok :: "asof_port \<Rightarrow> bool" where
  "asof_ok M \<longleftrightarrow>
     (\<forall>tol ls rs. sorted (map cd_time ls) \<and> sorted (map lb_time rs) \<longrightarrow>
        length (M tol ls rs) = length ls
      \<and> (\<forall>i<length ls. case M tol ls rs ! i of
            None \<Rightarrow> candidates tol (ls ! i) rs = []
          | Some r \<Rightarrow> r \<in> set (candidates tol (ls ! i) rs)
              \<and> (\<forall>q\<in>set (candidates tol (ls ! i) rs). \<bar>lb_time r - cd_time (ls ! i)\<bar> \<le> \<bar>lb_time q - cd_time (ls ! i)\<bar>)))"

lemma asof_okD:
  assumes "asof_ok M" "sorted (map cd_time ls)" "sorted (map lb_time rs)"
  shows "length (M tol ls rs) = length ls"
    "i < length ls \<Longrightarrow> M tol ls rs ! i = None \<Longrightarrow> candidates tol (ls ! i) rs = []"
    "i < length ls \<Longrightarrow> M tol ls rs ! i = Some r \<Longrightarrow> r \<in> set (candidates tol (ls ! i) rs)"
proof -
  note h = assms(1) [unfolded asof_ok_def, THEN spec [where x = tol], THEN spec [where x = ls], THEN spec [where x = rs]]
  show "length (M tol ls rs) = length ls" using h assms(2,3) by blast
  show "i < length ls \<Longrightarrow> M tol ls rs ! i = None \<Longrightarrow> candidates tol (ls ! i) rs = []" using h assms(2,3) by fastforce
  show "i < length ls \<Longrightarrow> M tol ls rs ! i = Some r \<Longrightarrow> r \<in> set (candidates tol (ls ! i) rs)" using h assms(2,3) by fastforce
qed

lemma grid_mono: "s \<le> e \<Longrightarrow> i \<le> j \<Longrightarrow> grid s e i \<le> grid s e j"
  by (simp add: grid_def num_samples_def mult_right_mono)

lemma extracted_sorted:
  assumes "s \<le> e"
  shows "sorted (map cd_time (extract_cdr_metrics D s e))" "sorted (map lb_time (extract_fraud_labels L s e))"
  using grid_mono [OF assms] by (auto simp: extract_cdr_metrics_def extract_fraud_labels_def sorted_iff_nth_mono comp_def)

text \<open>On the grid two rows are within five seconds only when they are at the same place.\<close>

lemma grid_apart:
  assumes "5 * of_nat (num_samples - 1) < e - s" and "\<bar>grid s e j - grid s e i\<bar> \<le> 5"
  shows "i = j"
proof (rule ccontr)
  let ?d = "(e - s) / of_nat (num_samples - 1)"
  assume "i \<noteq> j"
  have d: "5 < ?d" using assms(1) by (simp add: num_samples_def)
  have "1 \<le> \<bar>of_nat j - (of_nat i :: rat)\<bar>"
  proof -
    have "1 \<le> \<bar>int j - int i\<bar>" using \<open>i \<noteq> j\<close> by linarith
    then have "(of_int 1 :: rat) \<le> of_int \<bar>int j - int i\<bar>" by (simp only: of_int_le_iff)
    then show ?thesis by simp
  qed
  then have "1 * ?d \<le> \<bar>of_nat j - (of_nat i :: rat)\<bar> * ?d" using d by (intro mult_right_mono) simp_all
  also have "\<dots> = \<bar>(of_nat j - of_nat i) * ?d\<bar>"
  proof -
    have "0 < ?d" using d by (rule less_trans [of 0 5, rotated]) simp
    then show ?thesis unfolding abs_mult by (simp only: abs_of_pos)
  qed
  also have "(of_nat j - of_nat i) * ?d = grid s e j - grid s e i" unfolding grid_def by (simp only: left_diff_distrib) simp
  finally show False using assms(2) d by simp
qed

lemma label_found:
  assumes "asof_ok M" and gap: "5 * of_nat (num_samples - 1) < e - s" and i: "i < num_samples"
  shows "M 5 (extract_cdr_metrics D s e) (extract_fraud_labels L s e) ! i
    = (if phone_number (dr_b D i) = phone_number (ld_b L i) then Some (extract_fraud_labels L s e ! i) else None)"
proof -
  let ?l = "extract_cdr_metrics D s e" and ?r = "extract_fraud_labels L s e"
  have le: "s \<le> e" using gap by (simp add: num_samples_def)
  have li: "cd_time (?l ! i) = grid s e i" "cd_b (?l ! i) = phone_number (dr_b D i)" "i < length ?l"
    using i by (simp_all add: extract_cdr_metrics_def)
  have ri: "lb_time (?r ! j) = grid s e j" "lb_b (?r ! j) = phone_number (ld_b L j)" if "j < num_samples" for j
    using that by (simp_all add: extract_fraud_labels_def)
  have len: "length ?r = num_samples" by (simp add: extract_fraud_labels_def)
  have cand: "q \<in> set (candidates 5 (?l ! i) ?r) \<longleftrightarrow> q = ?r ! i \<and> phone_number (dr_b D i) = phone_number (ld_b L i)" for q
  proof
    assume "q \<in> set (candidates 5 (?l ! i) ?r)"
    then have q: "q \<in> set ?r" "lb_b q = phone_number (dr_b D i)" "\<bar>lb_time q - grid s e i\<bar> \<le> 5"
      unfolding candidates_def by (simp_all add: li(1,2))
    from q(1) obtain j where j: "j < num_samples" "?r ! j = q" unfolding in_set_conv_nth len by blast
    have "i = j" using grid_apart [OF gap] ri(1) [OF j(1)] j(2) q(3) by simp
    then show "q = ?r ! i \<and> phone_number (dr_b D i) = phone_number (ld_b L i)" using j ri(2) [OF i] q(2) by simp
  next
    assume "q = ?r ! i \<and> phone_number (dr_b D i) = phone_number (ld_b L i)"
    moreover have "?r ! i \<in> set ?r" using i len by simp
    ultimately show "q \<in> set (candidates 5 (?l ! i) ?r)" using ri [OF i] by (simp add: candidates_def li(1,2))
  qed
  show ?thesis
  proof (cases "M 5 ?l ?r ! i")
    case None
    then have "candidates 5 (?l ! i) ?r = []" by (rule asof_okD(2) [OF assms(1) extracted_sorted [OF le] li(3)])
    then show ?thesis using None cand [of "?r ! i"] by auto
  next
    case (Some r)
    then have "r \<in> set (candidates 5 (?l ! i) ?r)" by (rule asof_okD(3) [OF assms(1) extracted_sorted [OF le] li(3)])
    then show ?thesis using Some unfolding cand by simp
  qed
qed

lemma merge_length:
  assumes "asof_ok M" "s \<le> e"
  shows "length (M 5 (extract_cdr_metrics D s e) (extract_fraud_labels L s e)) = num_samples"
  using asof_okD(1) [OF assms(1) extracted_sorted [OF assms(2)]] by (simp add: extract_cdr_metrics_def)

lemma extracted_rows_eq:
  assumes "asof_ok M" and gap: "5 * of_nat (num_samples - 1) < e - s"
  shows "extracted_rows M D L s e = map (\<lambda>i. merged (extract_cdr_metrics D s e ! i)
    (if phone_number (dr_b D i) = phone_number (ld_b L i) then Some (extract_fraud_labels L s e ! i) else None)) [0..<num_samples]"
proof -
  have le: "s \<le> e" using gap by (simp add: num_samples_def)
  have len: "length (extract_cdr_metrics D s e) = num_samples" by (simp add: extract_cdr_metrics_def)
  have "extracted_rows M D L s e = map (\<lambda>(c, m). merged c m)
      (zip (extract_cdr_metrics D s e) (M 5 (extract_cdr_metrics D s e) (extract_fraud_labels L s e)))"
    using extracted_sorted [OF le] by (simp add: extracted_rows_def merge_labels_def Let_def sort_key_id_if_sorted)
  also have "\<dots> = map (\<lambda>i. merged (extract_cdr_metrics D s e ! i)
    (if phone_number (dr_b D i) = phone_number (ld_b L i) then Some (extract_fraud_labels L s e ! i) else None)) [0..<num_samples]"
    using label_found [OF assms] by (intro nth_equalityI) (simp_all add: len merge_length [OF assms(1) le])
  finally show ?thesis .
qed

lemma filter_zip_left:
  assumes "length flags = length xs"
  shows "length (filter (\<lambda>f. fr_fraud f \<noteq> None) (map engineer_row (zip xs flags))) = length (filter (\<lambda>m. mr_fraud m \<noteq> None) xs)"
  using assms
proof (induction xs arbitrary: flags)
  case (Cons x xs)
  then show ?case by (cases flags) (simp_all add: engineer_row_def)
qed simp

lemma labelled_samples:
  assumes "asof_ok M" and "5 * of_nat (num_samples - 1) < e - s" and "length flags = num_samples"
  shows "length (engineer_features (extracted_rows M D L s e) flags)
    = length (filter (\<lambda>i. phone_number (dr_b D i) = phone_number (ld_b L i)) [0..<num_samples])"
proof -
  have "length flags = length (extracted_rows M D L s e)" using assms by (simp add: extracted_rows_eq)
  then have "length (engineer_features (extracted_rows M D L s e) flags) = length (filter (\<lambda>m. mr_fraud m \<noteq> None) (extracted_rows M D L s e))"
    unfolding engineer_features_def by (rule filter_zip_left)
  also have "\<dots> = length (filter (\<lambda>i. phone_number (dr_b D i) = phone_number (ld_b L i)) [0..<num_samples])"
    by (simp add: extracted_rows_eq [OF assms(1,2)] filter_map comp_def merged_def)
  finally show ?thesis .
qed

text \<open>C38: The training data are coincidences: over a period of more than about seven hours the samples that have a label are exactly as many as
  the places at which the two generated tables happen to draw the same number.\<close>

theorem collected_coincidences:
  assumes "asof_ok M" and "5 * of_nat (num_samples - 1) < e - s" and "length flags = num_samples"
  shows "length (engineer_features (extracted_rows M D L s e) flags)
    = length (filter (\<lambda>i. phone_number (dr_b D i) = phone_number (ld_b L i)) [0..<num_samples])"
  using assms by (rule labelled_samples)

text \<open>The flag for a high volume is constant: the generated numbers of callers stay below ten.\<close>

lemma volume_flag_constant:
  assumes "asof_ok M" "5 * of_nat (num_samples - 1) < e - s" and "\<And>i. dr_distinct D i < 10"
    and "f \<in> set (engineer_features (extracted_rows M D L s e) flags)"
  shows "fr_volume f = Some 0"
proof -
  obtain m a where f: "f = engineer_row (m, a)" "m \<in> set (extracted_rows M D L s e)"
    using assms(4) by (auto simp: engineer_features_def dest: set_zip_leftD)
  then obtain i where "i < num_samples" "mr_distinct m = Some (of_nat (dr_distinct D i))"
    by (auto simp: extracted_rows_eq [OF assms(1,2)] merged_def extract_cdr_metrics_def)
  moreover have "\<not> (10 :: rat) < of_nat (dr_distinct D i)"
    using assms(3) [of i] of_nat_less_iff [of 10 "dr_distinct D i", where 'a = rat] by simp
  ultimately show ?thesis using f(1) by (simp add: engineer_row_def)
qed

text \<open>Without a coincidence nothing is collected, and a retraining fails for too few samples.\<close>

lemma nothing_collected:
  assumes "pandas_ok P" "asof_ok M" "5 * of_nat (num_samples - 1) < e - s" "length flags = num_samples"
    and "list_all (\<lambda>i. phone_number (dr_b D i) \<noteq> phone_number (ld_b L i)) [0..<num_samples]"
  shows "collect_training_data P (Inr (extracted_rows M D L s e, flags)) c = (Inr [], c\<lparr>co_fraud := 0, co_non_fraud := 0, co_total := 0\<rparr>)"
proof -
  have "filter (\<lambda>i. phone_number (dr_b D i) = phone_number (ld_b L i)) [0..<num_samples] = []"
    using assms(5) by (auto simp: filter_empty_conv list_all_iff)
  then have none: "engineer_features (extracted_rows M D L s e) flags = []"
    using labelled_samples [OF assms(2-4), of D L] by simp
  have "set (drop_duplicates P []) = {}" "mset (shuffle P []) = {#}" using assms(1) by (simp_all add: pandas_ok_def)
  then have "drop_duplicates P [] = []" "shuffle P [] = []" by simp_all
  then show ?thesis
    by (simp add: collect_training_data_def none validate_and_clean_def balance_dataset_def Let_def fraud_rows_def clean_rows_def
        target_fraud_count_def)
qed

lemma retraining_without_samples:
  assumes "pandas_ok (rp_pandas R)" "asof_ok M" "5 * of_nat (num_samples - 1) < e - s" "length flags = num_samples"
    and "list_all (\<lambda>i. phone_number (dr_b D i) \<noteq> phone_number (ld_b L i)) [0..<num_samples]"
    and "rp_extract R = Inr (extracted_rows M D L s e, flags)" "rp_connect R = Inr ()" "\<not> or_running o0" "0 < rc_min_samples (or_config o0)"
  shows "rr_status (fst (run_retraining E R t0 t1 o0)) = Rt_failed \<and> rr_error (fst (run_retraining E R t0 t1 o0)) = Some (Value_error ''Insufficient samples'')"
  using nothing_collected [OF assms(1-5)] assms(6-9)
  by (simp add: run_retraining_def begin_retraining_def finish_retraining_def retraining_pipeline_def collect_data_def without_result_def Let_def)

text \<open>A load that fails leaves a new booster where the trained model was, and the check for a model passes.\<close>

lemma failed_load_replaces_model:
  "get path = Inl e \<Longrightarrow> trainer_load fresh get path (Some b) = (Inl e, Some fresh)
   \<and> predict_from_dmatrix scores (snd (trainer_load fresh get path (Some b))) m = scores fresh m"
  by (simp add: trainer_load_def predict_from_dmatrix_def)

text \<open>The scheduler runs once for each wake-up, and a run is counted whatever its end.\<close>

lemma scheduler_results: "length (fst (scheduler_loop E ws s)) = length ws"
proof (induction ws arbitrary: s)
  case (Cons w ws)
  obtain P t0 t1 where "w = (P, t0, t1)" by (cases w)
  moreover obtain r s1 where "run_retraining E P t0 t1 s = (r, s1)" by fastforce
  moreover obtain rs s2 where "scheduler_loop E ws s1 = (rs, s2)" by fastforce
  ultimately show ?case using Cons.IH [of s1] by simp
qed simp


section \<open>A merge\<close>

definition nearest_label :: "rat \<Rightarrow> label_row list \<Rightarrow> cdr_row \<Rightarrow> label_row option" where
  "nearest_label tol rs c =
     (case candidates tol c rs of [] \<Rightarrow> None | q # qs \<Rightarrow> Some (arg_min_list (\<lambda>r. \<bar>lb_time r - cd_time c\<bar>) (q # qs)))"

definition nearest_merge :: asof_port where
  "nearest_merge tol ls rs = map (nearest_label tol rs) ls"

lemma nearest_merge_ok: "asof_ok nearest_merge"
proof -
  have "case nearest_label tol rs c of
      None \<Rightarrow> candidates tol c rs = []
    | Some r \<Rightarrow> r \<in> set (candidates tol c rs) \<and> (\<forall>q\<in>set (candidates tol c rs). \<bar>lb_time r - cd_time c\<bar> \<le> \<bar>lb_time q - cd_time c\<bar>)" for tol rs c
  proof (cases "candidates tol c rs")
    case (Cons q qs)
    let ?f = "\<lambda>r. \<bar>lb_time r - cd_time c\<bar>"
    have "?f (arg_min_list ?f (q # qs)) = Min (?f ` set (q # qs))" by (rule f_arg_min_list_f) simp
    moreover have "p \<in> set (q # qs) \<Longrightarrow> Min (?f ` set (q # qs)) \<le> ?f p" for p by (intro Min_le finite_imageI finite_set imageI)
    ultimately have "p \<in> set (q # qs) \<Longrightarrow> ?f (arg_min_list ?f (q # qs)) \<le> ?f p" for p by (simp only:)
    then show ?thesis using Cons arg_min_list_in [of "q # qs" ?f] unfolding nearest_label_def by (simp del: arg_min_list.simps)
  qed (simp add: nearest_label_def)
  then show ?thesis unfolding asof_ok_def nearest_merge_def by simp
qed

definition sample_draws :: cdr_draws where
  "sample_draws =
     \<lparr>dr_b = (\<lambda>i. (80, 10000000 + i)), dr_a = (\<lambda>i. (81, 10000000)), dr_duration = (\<lambda>i. 60), dr_status = (\<lambda>i. ''answered''),
      dr_asr = (\<lambda>i. 50), dr_aloc = (\<lambda>i. 60), dr_distinct = (\<lambda>i. 3), dr_rate = (\<lambda>i. 1), dr_overlap = (\<lambda>i. 0), dr_short = (\<lambda>i. 0)\<rparr>"

definition sample_labels :: label_draws where
  "sample_labels =
     \<lparr>ld_b = (\<lambda>i. (80, 10000005)), ld_fraud = (\<lambda>i. i = 5), ld_high = (\<lambda>i. 9 / 10), ld_low = (\<lambda>i. 1 / 10), ld_type = (\<lambda>i. ''simbox''),
      ld_method = (\<lambda>i. ''xgboost'')\<rparr>"

lemma same_number: "phone_number (80, 10000000 + i) = phone_number (80, 10000005) \<longleftrightarrow> i = 5"
  using show_nat_inject [of "10000000 + i" 10000005] by (auto simp: phone_number_def)

theorem collected_coincidences_witness:
  "length (engineer_features (extracted_rows nearest_merge sample_draws sample_labels 0 604800) (replicate num_samples 0)) = 1"
proof -
  have "[0..<num_samples] = [0..<5] @ [5..<num_samples]" using upt_add_eq_append [of 0 5 "num_samples - 5"] by (simp add: num_samples_def)
  moreover have "[5..<num_samples] = 5 # [6..<num_samples]" by (subst upt_conv_Cons) (simp_all add: num_samples_def)
  moreover have "filter (\<lambda>i. i = 5) [0..<5 :: nat] = []" "filter (\<lambda>i. i = 5) [6..<num_samples] = []" by (auto simp: filter_empty_conv)
  ultimately have "filter (\<lambda>i. i = 5) [0..<num_samples] = [5]" by simp
  moreover have "length (engineer_features (extracted_rows nearest_merge sample_draws sample_labels 0 604800) (replicate num_samples 0))
    = length (filter (\<lambda>i. phone_number (dr_b sample_draws i) = phone_number (ld_b sample_labels i)) [0..<num_samples])"
    by (rule collected_coincidences [OF nearest_merge_ok]) (simp_all add: num_samples_def)
  moreover have "(\<lambda>i. phone_number (dr_b sample_draws i) = phone_number (ld_b sample_labels i)) = (\<lambda>i. i = 5)"
    by (simp add: sample_draws_def sample_labels_def same_number)
  ultimately show ?thesis by simp
qed

end
