(* ===== verification/ModelServer.thy ===== *)
theory ModelServer
  imports Rollout
begin

text \<open>
  The model server, \<open>services/ml-pipeline/inference_server.py\<close>: the choice between champion and challenger,
  single requests and the batch processor. XGBoost, the clock and the random draws are parameters; a model
  is named by the path it was loaded from.
\<close>

record prediction_request =
  pq_features :: "rat list"
  pq_id :: string

record prediction_response =
  ps_is_fraud :: bool
  ps_probability :: rat
  ps_model :: string
  ps_latency :: rat

record model_server =
  sv_champion :: string
  sv_champion_path :: string
  sv_ab :: bool
  sv_splitter :: "splitter option"
  sv_challenger :: "(string \<times> string) option"
  sv_batch_size :: nat
  sv_total :: nat
  sv_champion_requests :: nat
  sv_challenger_requests :: nat
  sv_latency :: rat

record xgb_ports =
  load_booster :: "string \<Rightarrow> ml_error + unit"
  booster_predict :: "string \<Rightarrow> rat list list \<Rightarrow> ml_error + rat list"

definition new_server :: "xgb_ports \<Rightarrow> registry_env \<Rightarrow> registry \<Rightarrow> nat \<Rightarrow> bool \<Rightarrow> ml_error + model_server" where
  "new_server X E r batch ab =
     (case get_champion E r of
        None \<Rightarrow> Inl (Runtime_error ''No champion model found in registry'')
      | Some (i, path) \<Rightarrow>
          (case load_booster X path of
             Inl e \<Rightarrow> Inl e
           | Inr _ \<Rightarrow> Inr \<lparr>sv_champion = i, sv_champion_path = path, sv_ab = ab, sv_splitter = None, sv_challenger = None,
                           sv_batch_size = batch, sv_total = 0, sv_champion_requests = 0, sv_challenger_requests = 0,
                           sv_latency = 0\<rparr>))"

definition set_challenger_model ::
  "xgb_ports \<Rightarrow> registry_env \<Rightarrow> registry \<Rightarrow> string \<Rightarrow> model_server \<Rightarrow> (ml_error + bool) \<times> model_server" where
  "set_challenger_model X E r i s =
     (case get_model_path E r i of
        None \<Rightarrow> (Inr False, s)
      | Some path \<Rightarrow>
          (case load_booster X path of
             Inl e \<Rightarrow> (Inl e, s)
           | Inr _ \<Rightarrow>
               (case new_splitter (double_round (9/10)) (double_round (1/10)) of
                  Inl e \<Rightarrow> (Inl e, s\<lparr>sv_challenger := Some (i, path)\<rparr>)
                | Inr sp \<Rightarrow> (Inr True, s\<lparr>sv_challenger := Some (i, path), sv_splitter := Some sp\<rparr>))))"

text \<open>\<open>u\<close> is the random draw, used when both models are in the test.\<close>

definition predict_with ::
  "xgb_ports \<Rightarrow> rat \<Rightarrow> rat list list \<Rightarrow> model_server \<Rightarrow> (ml_error + rat list \<times> string) \<times> model_server" where
  "predict_with X u rows s =
     (let champion = (\<lambda>s. (case booster_predict X (sv_champion_path s) rows of
            Inl e \<Rightarrow> (Inl e, s\<lparr>sv_champion_requests := Suc (sv_champion_requests s)\<rparr>)
          | Inr ps \<Rightarrow> (Inr (ps, sv_champion s), s\<lparr>sv_champion_requests := Suc (sv_champion_requests s)\<rparr>))) in
      case (sv_ab s, sv_splitter s, sv_challenger s) of
        (True, Some sp, Some (i, path)) \<Rightarrow>
          (case should_use_model_b u sp of
             (True, sp') \<Rightarrow>
               (case booster_predict X path rows of
                  Inl e \<Rightarrow> (Inl e, s\<lparr>sv_splitter := Some sp', sv_challenger_requests := Suc (sv_challenger_requests s)\<rparr>)
                | Inr ps \<Rightarrow> (Inr (ps, i),
                    s\<lparr>sv_splitter := Some sp', sv_challenger_requests := Suc (sv_challenger_requests s)\<rparr>))
           | (False, sp') \<Rightarrow> champion (s\<lparr>sv_splitter := Some sp'\<rparr>))
      | _ \<Rightarrow> champion s)"

definition response_of :: "rat \<Rightarrow> string \<Rightarrow> rat \<Rightarrow> prediction_response" where
  "response_of p model latency =
     \<lparr>ps_is_fraud = (p \<ge> 7/10), ps_probability = p, ps_model = model, ps_latency = latency\<rparr>"

text \<open>\<open>proba[0]\<close> of an empty array raises \<open>IndexError\<close>; \<open>lat\<close> is the time measured, in milliseconds.\<close>

definition handle_request ::
  "xgb_ports \<Rightarrow> rat \<Rightarrow> rat \<Rightarrow> prediction_request \<Rightarrow> model_server \<Rightarrow> (ml_error + prediction_response) \<times> model_server" where
  "handle_request X u lat q s =
     (case predict_with X u [pq_features q] s of
        (Inl e, s1) \<Rightarrow> (Inl e, s1)
      | (Inr ([], model), s1) \<Rightarrow> (Inl (Value_error ''index 0 is out of bounds''), s1)
      | (Inr (p # _, model), s1) \<Rightarrow>
          (Inr (response_of p model lat), s1\<lparr>sv_total := Suc (sv_total s1), sv_latency := sv_latency s1 + lat\<rparr>))"

text \<open>One pass of the batch processor: it takes at most the batch size of the requests that are there before its
  time is over (\<open>arrived\<close> of them), predicts once for all of them and answers each request with its own row.
  The result is the answers by request, and the queue left. Of a prediction with too few
  rows only the exception is told here; theory \<open>ServerTasks\<close> has the answers that are set before it.\<close>

definition batch_pass ::
  "xgb_ports \<Rightarrow> rat \<Rightarrow> rat \<Rightarrow> nat \<Rightarrow> prediction_request list \<Rightarrow> model_server \<Rightarrow>
   (ml_error + (prediction_request \<times> prediction_response) list) \<times> prediction_request list \<times> model_server" where
  "batch_pass X u lat arrived queue s =
     (let n = min arrived (sv_batch_size s); batch = take n queue; rest = drop n queue in
      if batch = [] then (Inr [], rest, s)
      else case predict_with X u (map pq_features batch) s of
        (Inl e, s1) \<Rightarrow> (Inl e, rest, s1)
      | (Inr (ps, model), s1) \<Rightarrow>
          if length ps < length batch then (Inl (Value_error ''index out of bounds''), rest, s1)
          else (Inr (map (\<lambda>(q, p). (q, response_of p model (lat / of_nat (length batch)))) (zip batch ps)), rest,
                s1\<lparr>sv_total := sv_total s1 + length batch, sv_latency := sv_latency s1 + lat\<rparr>))"

record server_metrics =
  sm_total :: nat
  sm_champion :: nat
  sm_challenger :: nat
  sm_latency :: rat
  sm_champion_pct :: rat

definition server_get_metrics :: "model_server \<Rightarrow> server_metrics" where
  "server_get_metrics s =
     \<lparr>sm_total = sv_total s, sm_champion = sv_champion_requests s, sm_challenger = sv_challenger_requests s,
      sm_latency = (if sv_total s > 0 then sv_latency s / of_nat (sv_total s) else 0),
      sm_champion_pct = (if sv_total s > 0 then of_nat (sv_champion_requests s) / of_nat (sv_total s) * 100 else 0)\<rparr>"


section \<open>Passes over a queue\<close>

text \<open>Passes until the queue is empty or a prediction raises, which ends the processor.\<close>

fun batch_run ::
  "xgb_ports \<Rightarrow> (rat \<times> rat \<times> nat) list \<Rightarrow> prediction_request list \<Rightarrow> model_server \<Rightarrow>
   (prediction_request \<times> prediction_response) list \<times> prediction_request list \<times> model_server" where
  "batch_run X [] queue s = ([], queue, s)"
| "batch_run X ((u, lat, arrived) # passes) queue s =
     (case batch_pass X u lat arrived queue s of
        (Inl _, rest, s1) \<Rightarrow> ([], rest, s1)
      | (Inr answers, rest, s1) \<Rightarrow>
          (case batch_run X passes rest s1 of (more_answers, rest', s2) \<Rightarrow> (answers @ more_answers, rest', s2)))"

text \<open>What XGBoost promises: one probability for each row.\<close>

definition xgb_ok :: "xgb_ports \<Rightarrow> bool" where
  "xgb_ok X \<longleftrightarrow> (\<forall>path rows. \<exists>ps. booster_predict X path rows = Inr ps \<and> length ps = length rows)"

lemma predict_with_result:
  assumes "xgb_ok X"
  obtains ps model path s1 where "predict_with X u rows s = (Inr (ps, model), s1)" "booster_predict X path rows = Inr ps"
    "length ps = length rows" "sv_total s1 = sv_total s" "sv_batch_size s1 = sv_batch_size s"
    "sv_champion_requests s1 + sv_challenger_requests s1 = Suc (sv_champion_requests s + sv_challenger_requests s)"
    "(model, path) = (sv_champion s, sv_champion_path s) \<or> sv_challenger s = Some (model, path)"
    "sv_champion s1 = sv_champion s" "sv_champion_path s1 = sv_champion_path s" "sv_challenger s1 = sv_challenger s"
proof -
  obtain pc where pc: "booster_predict X (sv_champion_path s) rows = Inr pc" "length pc = length rows"
    using assms by (auto simp: xgb_ok_def)
  consider (both) sp i path where "sv_ab s" "sv_splitter s = Some sp" "sv_challenger s = Some (i, path)"
    | (one) "\<not> (sv_ab s \<and> sv_splitter s \<noteq> None \<and> sv_challenger s \<noteq> None)" by force
  then show ?thesis
  proof cases
    case both
    obtain pd where pd: "booster_predict X path rows = Inr pd" "length pd = length rows"
      using assms by (auto simp: xgb_ok_def)
    obtain b sp' where d: "should_use_model_b u sp = (b, sp')" by force
    show ?thesis
    proof (cases b)
      case True
      show ?thesis by (rule that [of pd i "s\<lparr>sv_splitter := Some sp', sv_challenger_requests := Suc (sv_challenger_requests s)\<rparr>" path]) (use both d True pd in \<open>simp_all add: predict_with_def Let_def\<close>)
    next
      case False
      show ?thesis
        by (rule that [of pc "sv_champion s"
              "s\<lparr>sv_splitter := Some sp', sv_champion_requests := Suc (sv_champion_requests s)\<rparr>" "sv_champion_path s"])
          (use both d False pc in \<open>simp_all add: predict_with_def Let_def\<close>)
    qed
  next
    case one
    show ?thesis
      by (rule that [of pc "sv_champion s" "s\<lparr>sv_champion_requests := Suc (sv_champion_requests s)\<rparr>" "sv_champion_path s"])
        (use one pc in \<open>auto simp: predict_with_def Let_def split: bool.split option.split prod.split\<close>)
  qed
qed

lemma batch_pass_result:
  assumes ok: "xgb_ok X" and size: "0 < sv_batch_size s"
  obtains answers s1 where "batch_pass X u lat arrived queue s = (Inr answers, drop (min arrived (sv_batch_size s)) queue, s1)"
    "map fst answers = take (min arrived (sv_batch_size s)) queue"
    "sv_total s1 = sv_total s + length answers" "sv_batch_size s1 = sv_batch_size s"
    "sv_champion_requests s1 + sv_challenger_requests s1
       = sv_champion_requests s + sv_challenger_requests s + (if answers = [] then 0 else 1)"
proof (cases "take (min arrived (sv_batch_size s)) queue = []")
  case True
  then show ?thesis by (intro that [of "[]" s]) (simp_all add: batch_pass_def Let_def)
next
  case False
  let ?batch = "take (min arrived (sv_batch_size s)) queue"
  obtain ps model path s1 where p: "predict_with X u (map pq_features ?batch) s = (Inr (ps, model), s1)"
    "length ps = length (map pq_features ?batch)" "sv_total s1 = sv_total s" "sv_batch_size s1 = sv_batch_size s"
    "sv_champion_requests s1 + sv_challenger_requests s1 = Suc (sv_champion_requests s + sv_challenger_requests s)"
    by (rule predict_with_result [OF ok, of u "map pq_features ?batch" s])
  let ?answers = "map (\<lambda>(q, p). (q, response_of p model (lat / of_nat (length ?batch)))) (zip ?batch ps)"
  have fst: "map fst ?answers = ?batch" using p(2) by (simp add: comp_def case_prod_beta)
  have len: "length ?answers = length ?batch" using fst by (metis length_map)
  have n0: "min arrived (sv_batch_size s) \<noteq> 0" using False by (metis take_0)
  have ne: "?answers \<noteq> []" using len False by (metis length_0_conv)
  show ?thesis
    by (rule that [OF _ fst, of "s1\<lparr>sv_total := sv_total s1 + length ?batch, sv_latency := sv_latency s1 + lat\<rparr>"])
      (use p False n0 len ne in \<open>simp_all add: batch_pass_def Let_def del: take_eq_Nil take_eq_Nil2\<close>)
qed


section \<open>Properties\<close>

text \<open>Every request taken off the queue is answered once and in order: what has been answered followed by what is
  left is the queue, whatever arrives when, and each is counted.\<close>
theorem batches_answer_in_order:
  assumes "xgb_ok X" "0 < sv_batch_size s" "batch_run X passes queue s = (answers, rest, s')"
  shows "map fst answers @ rest = queue \<and> sv_total s' = sv_total s + length answers"
  using assms(2,3)
proof (induction passes arbitrary: queue s answers rest s')
  case (Cons pass passes)
  obtain u lat arrived where pass: "pass = (u, lat, arrived)" by (metis prod.exhaust)
  let ?n = "min arrived (sv_batch_size s)"
  obtain a1 s1 where a1: "batch_pass X u lat arrived queue s = (Inr a1, drop ?n queue, s1)" "map fst a1 = take ?n queue"
    "sv_total s1 = sv_total s + length a1" "sv_batch_size s1 = sv_batch_size s"
    by (rule batch_pass_result [OF assms(1) Cons.prems(1)])
  obtain a2 rest' s2 where a2: "batch_run X passes (drop ?n queue) s1 = (a2, rest', s2)"
    by (cases "batch_run X passes (drop ?n queue) s1")
  have "map fst a2 @ rest' = drop ?n queue \<and> sv_total s2 = sv_total s1 + length a2"
    by (rule Cons.IH) (use Cons.prems(1) a1(4) a2 in simp_all)
  moreover have "answers = a1 @ a2" "rest = rest'" "s' = s2" using Cons.prems(2) pass a1(1) a2 by simp_all
  ultimately show ?case using a1(2,3) by simp
qed simp

text \<open>The two models' request counts are counts of batches: a pass that answers \<open>n\<close> requests adds \<open>n\<close> to the
  total and one to the two counts together, so with batches of more than one request the reported share of
  the champion is not its share of the requests.\<close>
theorem batch_counted_once:
  assumes "xgb_ok X" "sv_ab s = False" "0 < n" "n \<le> sv_batch_size s" "n \<le> length queue" "sv_total s = 0"
    "sv_champion_requests s = 0"
  shows "sm_champion_pct (server_get_metrics (snd (snd (batch_pass X u lat n queue s)))) = 100 / of_nat n"
proof -
  have take: "take (min n (sv_batch_size s)) queue \<noteq> []" using assms by (auto simp: min_def)
  let ?batch = "take (min n (sv_batch_size s)) queue"
  obtain ps where ps: "booster_predict X (sv_champion_path s) (map pq_features ?batch) = Inr ps"
    "length ps = length (map pq_features ?batch)" using assms(1) unfolding xgb_ok_def by blast
  have len: "length ?batch = n" using assms by simp
  have pr: "predict_with X u (map pq_features ?batch) s
      = (Inr (ps, sv_champion s), s\<lparr>sv_champion_requests := Suc (sv_champion_requests s)\<rparr>)"
    using assms(2) ps(1) by (simp add: predict_with_def Let_def)
  show ?thesis
    using take pr ps(2) len assms by (simp add: batch_pass_def Let_def server_get_metrics_def)
qed

definition sample_xgb :: xgb_ports where
  "sample_xgb = \<lparr>load_booster = (\<lambda>_. Inr ()), booster_predict = (\<lambda>_ rows. Inr (map (\<lambda>r. 1/2) rows))\<rparr>"

lemma sample_xgb_ok: "xgb_ok sample_xgb"
  by (simp add: xgb_ok_def sample_xgb_def)

definition sample_server :: model_server where
  "sample_server = \<lparr>sv_champion = ''a'', sv_champion_path = ''r/a/model.json'', sv_ab = False, sv_splitter = None,
     sv_challenger = None, sv_batch_size = 32, sv_total = 0, sv_champion_requests = 0, sv_challenger_requests = 0,
     sv_latency = 0\<rparr>"

definition sample_queue :: "prediction_request list" where
  "sample_queue = [\<lparr>pq_features = [], pq_id = ''1''\<rparr>, \<lparr>pq_features = [], pq_id = ''2''\<rparr>, \<lparr>pq_features = [], pq_id = ''3''\<rparr>,
     \<lparr>pq_features = [], pq_id = ''4''\<rparr>]"

theorem batches_answer_in_order_witness:
  "\<exists>answers rest s'. batch_run sample_xgb [(0, 1, 3), (0, 1, 3)] sample_queue sample_server = (answers, rest, s')
     \<and> map (pq_id \<circ> fst) answers = [''1'', ''2'', ''3'', ''4''] \<and> sv_total s' = 4"
proof -
  let ?run = "batch_run sample_xgb [(0, 1, 3), (0, 1, 3)] sample_queue sample_server"
  obtain answers rest s' where run: "?run = (answers, rest, s')" by (cases ?run)
  have "0 < sv_batch_size sample_server" by (simp add: sample_server_def)
  note b = batches_answer_in_order [OF sample_xgb_ok this run]
  have "fst (snd ?run) = []" by code_simp
  then have "rest = []" using run by simp
  with b have "map fst answers = sample_queue" "sv_total s' = length answers" by (simp_all add: sample_server_def)
  moreover have "map pq_id sample_queue = [''1'', ''2'', ''3'', ''4'']" "length sample_queue = 4"
    by (simp_all add: sample_queue_def)
  ultimately have "map pq_id (map fst answers) = [''1'', ''2'', ''3'', ''4'']" "length answers = 4"
    by (metis, metis length_map)
  then show ?thesis using run \<open>sv_total s' = length answers\<close> by simp
qed

theorem batch_counted_once_witness:
  "sm_champion_pct (server_get_metrics (snd (snd (batch_pass sample_xgb 0 1 4 sample_queue sample_server)))) = 25"
  using batch_counted_once [OF sample_xgb_ok, of sample_server 4 sample_queue 0 1]
  by (simp add: sample_server_def sample_queue_def)

end
