(* ===== verification/ServerTasks.thy ===== *)
theory ServerTasks
  imports ModelServer "HOL-Library.Multiset"
begin

text \<open>
  The model server of \<open>services/ml-pipeline/inference_server.py\<close> as tasks of \<open>asyncio\<close>: a batch processor collects
  requests, with a wait before each, predicts and sets the futures without a wait in between, and may be cancelled at any
  wait. An event is what happens between two waits, so a list of events is an interleaving of the processors, the
  clients and the server's own start and stop. A future is named by a ticket.
\<close>

section \<open>Processors\<close>

type_synonym ticketed = "nat \<times> prediction_request"

text \<open>Each phase has the requests that the processor has taken off the queue and not answered: its local variables while it
  collects, and what it leaves behind once it has raised or has been cancelled.\<close>

datatype task_phase = Collecting "ticketed list" | Failed_with ml_error "ticketed list" | Cancelled_task "ticketed list"

fun phase_batch :: "task_phase \<Rightarrow> ticketed list" where
  "phase_batch (Collecting b) = b"
| "phase_batch (Failed_with e b) = b"
| "phase_batch (Cancelled_task b) = b"

record server_tasks =
  tk_server :: model_server
  tk_queue :: "ticketed list"
  tk_tasks :: "task_phase list"
  tk_current :: "nat option"
  tk_issued :: nat
  tk_given_up :: "nat set"
  tk_answers :: "(nat \<times> prediction_response) list"

definition fresh_tasks :: "model_server \<Rightarrow> server_tasks" where
  "fresh_tasks sv = \<lparr>tk_server = sv, tk_queue = [], tk_tasks = [], tk_current = None, tk_issued = 0, tk_given_up = {},
     tk_answers = []\<rparr>"

text \<open>A client: it puts a request with its future on the queue, or cancels its future before that has a result.\<close>

definition put_request :: "prediction_request \<Rightarrow> server_tasks \<Rightarrow> server_tasks" where
  "put_request q s = s\<lparr>tk_queue := tk_queue s @ [(tk_issued s, q)], tk_issued := Suc (tk_issued s)\<rparr>"

definition cancel_future :: "nat \<Rightarrow> server_tasks \<Rightarrow> server_tasks" where
  "cancel_future t s = (if t \<in> fst ` set (tk_answers s) then s else s\<lparr>tk_given_up := insert t (tk_given_up s)\<rparr>)"

text \<open>A second start replaces the handle; the first processor goes on and can no longer be stopped.\<close>

definition start_batch_processor :: "server_tasks \<Rightarrow> server_tasks" where
  "start_batch_processor s = s\<lparr>tk_tasks := tk_tasks s @ [Collecting []], tk_current := Some (length (tk_tasks s))\<rparr>"

text \<open>One round of the collecting loop.\<close>

definition take_request :: "nat \<Rightarrow> server_tasks \<Rightarrow> server_tasks" where
  "take_request i s =
     (if i < length (tk_tasks s) then
        (case (tk_tasks s ! i, tk_queue s) of
           (Collecting b, x # rest) \<Rightarrow>
             if length b < sv_batch_size (tk_server s)
             then s\<lparr>tk_queue := rest, tk_tasks := (tk_tasks s)[i := Collecting (b @ [x])]\<rparr> else s
         | _ \<Rightarrow> s)
      else s)"

text \<open>\<open>set_result\<close> for each future that its client has not cancelled. When fewer probabilities than requests come back, the
  loop raises after it has answered the first ones.\<close>

definition set_results :: "nat set \<Rightarrow> string \<Rightarrow> rat \<Rightarrow> ticketed list \<Rightarrow> rat list \<Rightarrow> (nat \<times> prediction_response) list" where
  "set_results gone model lat b ps =
     map (\<lambda>((t, q), p). (t, response_of p model lat)) (filter (\<lambda>((t, q), p). t \<notin> gone) (zip b ps))"

definition process_batch :: "xgb_ports \<Rightarrow> rat \<Rightarrow> rat \<Rightarrow> nat \<Rightarrow> server_tasks \<Rightarrow> server_tasks" where
  "process_batch X u lat i s =
     (if i < length (tk_tasks s) then
        (case tk_tasks s ! i of
           Collecting b \<Rightarrow>
             if b = [] then s
             else (case predict_with X u (map (pq_features \<circ> snd) b) (tk_server s) of
                (Inl e, sv) \<Rightarrow> s\<lparr>tk_server := sv, tk_tasks := (tk_tasks s)[i := Failed_with e b]\<rparr>
              | (Inr (ps, model), sv) \<Rightarrow>
                  let answers = tk_answers s @ set_results (tk_given_up s) model (lat / of_nat (length b)) b ps in
                  if length ps < length b then
                    s\<lparr>tk_server := sv,
                      tk_tasks := (tk_tasks s)[i := Failed_with (Value_error ''index out of bounds'') (drop (length ps) b)],
                      tk_answers := answers\<rparr>
                  else s\<lparr>tk_server := sv\<lparr>sv_total := sv_total sv + length b, sv_latency := sv_latency sv + lat\<rparr>,
                         tk_tasks := (tk_tasks s)[i := Collecting []], tk_answers := answers\<rparr>)
         | _ \<Rightarrow> s)
      else s)"

text \<open>Stopping cancels the processor and waits for it: a processor that has raised raises here once more.\<close>

definition stop_batch_processor :: "server_tasks \<Rightarrow> ml_error option \<times> server_tasks" where
  "stop_batch_processor s =
     (case tk_current s of
        None \<Rightarrow> (None, s)
      | Some i \<Rightarrow>
          (case tk_tasks s ! i of
             Collecting b \<Rightarrow> (None, s\<lparr>tk_tasks := (tk_tasks s)[i := Cancelled_task b]\<rparr>)
           | Failed_with e b \<Rightarrow> (Some e, s)
           | Cancelled_task b \<Rightarrow> (None, s)))"

datatype server_event =
    Put prediction_request
  | Cancel_future nat
  | Start_processor
  | Take_request nat
  | Process_batch rat rat nat
  | Stop_processor
  | Single rat rat prediction_request

fun server_step :: "xgb_ports \<Rightarrow> server_event \<Rightarrow> server_tasks \<Rightarrow> server_tasks" where
  "server_step X (Put q) s = put_request q s"
| "server_step X (Cancel_future t) s = cancel_future t s"
| "server_step X Start_processor s = start_batch_processor s"
| "server_step X (Take_request i) s = take_request i s"
| "server_step X (Process_batch u lat i) s = process_batch X u lat i s"
| "server_step X Stop_processor s = snd (stop_batch_processor s)"
| "server_step X (Single u lat q) s = s\<lparr>tk_server := snd (handle_request X u lat q (tk_server s))\<rparr>"

text \<open>\<open>serve\<close> starts the processor, logs metrics until it is cancelled, then stops the processor; \<open>es\<close> is what else happens in
  that time. The result is the exception that leaves it.\<close>

definition serve :: "xgb_ports \<Rightarrow> server_event list \<Rightarrow> server_tasks \<Rightarrow> ml_error option \<times> server_tasks" where
  "serve X es s = stop_batch_processor (fold (server_step X) es (start_batch_processor s))"

definition server_main :: "xgb_ports \<Rightarrow> registry_env \<Rightarrow> registry \<Rightarrow> server_event list \<Rightarrow> ml_error + ml_error option \<times> server_tasks" where
  "server_main X E r es = (case new_server X E r 32 False of Inl e \<Rightarrow> Inl e | Inr sv \<Rightarrow> Inr (serve X es (fresh_tasks sv)))"


section \<open>Every request is somewhere\<close>

definition held :: "server_tasks \<Rightarrow> nat list" where
  "held s = concat (map (map fst \<circ> phase_batch) (tk_tasks s))"

text \<open>The tickets that are waiting, in a batch or answered are distinct; they are the ones issued, but for some that their
  client has given up.\<close>

definition tickets :: "server_tasks \<Rightarrow> nat multiset" where
  "tickets s = mset (map fst (tk_queue s)) + mset (held s) + mset (map fst (tk_answers s))"

definition tasks_inv :: "server_tasks \<Rightarrow> bool" where
  "tasks_inv s \<longleftrightarrow> (\<exists>gone. set_mset gone \<subseteq> tk_given_up s \<and> tickets s + gone = mset [0..<tk_issued s])
     \<and> (case tk_current s of None \<Rightarrow> True | Some i \<Rightarrow> i < length (tk_tasks s))"

lemma held_update:
  assumes "i < length (tk_tasks s)"
  shows "mset (held (s\<lparr>tk_tasks := (tk_tasks s)[i := p]\<rparr>)) + mset (map fst (phase_batch (tk_tasks s ! i)))
    = mset (held s) + mset (map fst (phase_batch p))"
proof -
  have "mset (concat (map f (xs[i := p]))) + mset (f (xs ! i)) = mset (concat (map f xs)) + mset (f p)"
    if "i < length xs" for xs :: "task_phase list" and f :: "task_phase \<Rightarrow> nat list"
    using that by (induction xs arbitrary: i) (auto split: nat.split simp: ac_simps)
  from this [OF assms, of "map fst \<circ> phase_batch"] show ?thesis by (simp add: held_def)
qed

lemma held_simps [simp]:
  "held (s\<lparr>tk_queue := q\<rparr>) = held s" "held (s\<lparr>tk_server := sv\<rparr>) = held s" "held (s\<lparr>tk_answers := a\<rparr>) = held s"
  "held (s\<lparr>tk_issued := n\<rparr>) = held s" "held (s\<lparr>tk_given_up := g\<rparr>) = held s" "held (s\<lparr>tk_current := c\<rparr>) = held s"
  "held (s\<lparr>tk_tasks := ts\<rparr>) = concat (map (map fst \<circ> phase_batch) ts)"
  by (simp_all add: held_def)

lemma set_results_tickets:
  "\<exists>gone. set_mset gone \<subseteq> g \<and> mset (map fst (set_results g m l b ps)) + gone = mset (map fst (take (length ps) b))"
proof (induction b arbitrary: ps)
  case (Cons x b)
  show ?case
  proof (cases ps)
    case (Cons p ps')
    from Cons.IH [of ps'] obtain gone where g: "set_mset gone \<subseteq> g"
      "mset (map fst (set_results g m l b ps')) + gone = mset (map fst (take (length ps') b))" by blast
    show ?thesis
    proof (cases "fst x \<in> g")
      case True
      then show ?thesis using g Cons
        by (intro exI [where x = "add_mset (fst x) gone"]) (auto simp: set_results_def split: prod.splits)
    next
      case False
      then show ?thesis using g Cons by (intro exI [where x = gone]) (auto simp: set_results_def split: prod.splits)
    qed
  qed (simp add: set_results_def)
qed (simp add: set_results_def)

lemma tasks_invI:
  assumes "tickets s + gone = mset [0..<tk_issued s]" "set_mset gone \<subseteq> tk_given_up s"
    "case tk_current s of None \<Rightarrow> True | Some i \<Rightarrow> i < length (tk_tasks s)"
  shows "tasks_inv s"
  using assms by (auto simp: tasks_inv_def)

lemma tasks_invE:
  assumes "tasks_inv s"
  obtains gone where "tickets s + gone = mset [0..<tk_issued s]" "set_mset gone \<subseteq> tk_given_up s"
    "case tk_current s of None \<Rightarrow> True | Some i \<Rightarrow> i < length (tk_tasks s)"
  using assms by (auto simp: tasks_inv_def)

lemma put_inv: "tasks_inv s \<Longrightarrow> tasks_inv (put_request q s)"
  by (erule tasks_invE, rule tasks_invI) (auto simp: tickets_def put_request_def split: option.splits)

lemma cancel_future_inv: "tasks_inv s \<Longrightarrow> tasks_inv (cancel_future t s)"
  by (erule tasks_invE, rule tasks_invI) (auto simp: tickets_def cancel_future_def split: option.splits)

lemma start_inv: "tasks_inv s \<Longrightarrow> tasks_inv (start_batch_processor s)"
  by (erule tasks_invE, rule tasks_invI) (auto simp: tickets_def start_batch_processor_def held_def)

text \<open>What one processor changes: its phase, the queue, the answers.\<close>

lemma phase_inv:
  assumes "tasks_inv s" "i < length (tk_tasks s)" "set_mset dropped \<subseteq> tk_given_up s"
    and "mset (map fst q) + mset (map fst (phase_batch p)) + mset (map fst a) + dropped
       = mset (map fst (tk_queue s)) + mset (map fst (phase_batch (tk_tasks s ! i))) + mset (map fst (tk_answers s))"
  shows "tasks_inv (s\<lparr>tk_server := sv, tk_queue := q, tk_tasks := (tk_tasks s)[i := p], tk_answers := a\<rparr>)"
proof -
  from assms(1) obtain gone where g: "tickets s + gone = mset [0..<tk_issued s]" "set_mset gone \<subseteq> tk_given_up s"
    "case tk_current s of None \<Rightarrow> True | Some i \<Rightarrow> i < length (tk_tasks s)" by (rule tasks_invE)
  let ?s = "s\<lparr>tk_server := sv, tk_queue := q, tk_tasks := (tk_tasks s)[i := p], tk_answers := a\<rparr>"
  have h: "mset (held ?s) + mset (map fst (phase_batch (tk_tasks s ! i))) = mset (held s) + mset (map fst (phase_batch p))"
    using held_update [OF assms(2), of p] by simp
  have "tickets ?s + dropped = tickets s"
  proof -
    have "tickets ?s + dropped + mset (map fst (phase_batch (tk_tasks s ! i)))
      = (mset (map fst q) + mset (map fst a) + dropped) + (mset (held ?s) + mset (map fst (phase_batch (tk_tasks s ! i))))"
      by (simp add: tickets_def)
    also have "\<dots> = tickets s + mset (map fst (phase_batch (tk_tasks s ! i)))"
      unfolding h using assms(4) by (simp add: tickets_def ac_simps)
    finally show ?thesis by simp
  qed
  then have "tickets ?s + (dropped + gone) = tickets s + gone" by (simp only: add.assoc [symmetric])
  then have "tickets ?s + (dropped + gone) = mset [0..<tk_issued ?s]" using g(1) by simp
  then show ?thesis by (rule tasks_invI) (use g assms(3) in \<open>simp_all split: option.splits\<close>)
qed

lemma take_inv:
  assumes "tasks_inv s"
  shows "tasks_inv (take_request i s)"
proof (cases "\<exists>b x rest. i < length (tk_tasks s) \<and> tk_tasks s ! i = Collecting b \<and> tk_queue s = x # rest
    \<and> length b < sv_batch_size (tk_server s)")
  case True
  then obtain b x rest where c: "i < length (tk_tasks s)" "tk_tasks s ! i = Collecting b" "tk_queue s = x # rest"
    "length b < sv_batch_size (tk_server s)" by blast
  have "tasks_inv (s\<lparr>tk_server := tk_server s, tk_queue := rest, tk_tasks := (tk_tasks s)[i := Collecting (b @ [x])],
      tk_answers := tk_answers s\<rparr>)"
    by (rule phase_inv [OF assms c(1), of "{#}"]) (simp_all add: c)
  then show ?thesis using c by (simp add: take_request_def)
next
  case False
  then have "take_request i s = s" by (auto simp: take_request_def split: task_phase.split list.split)
  then show ?thesis using assms by simp
qed

lemma process_inv:
  assumes "tasks_inv s"
  shows "tasks_inv (process_batch X u lat i s)"
proof (cases "\<exists>b. i < length (tk_tasks s) \<and> tk_tasks s ! i = Collecting b \<and> b \<noteq> []")
  case True
  then obtain b where c: "i < length (tk_tasks s)" "tk_tasks s ! i = Collecting b" "b \<noteq> []" by blast
  obtain r sv where p: "predict_with X u (map (pq_features \<circ> snd) b) (tk_server s) = (r, sv)" by fastforce
  show ?thesis
  proof (cases r)
    case (Inl e)
    have "tasks_inv (s\<lparr>tk_server := sv, tk_queue := tk_queue s, tk_tasks := (tk_tasks s)[i := Failed_with e b],
        tk_answers := tk_answers s\<rparr>)"
      by (rule phase_inv [OF assms c(1), of "{#}"]) (simp_all add: c)
    then show ?thesis using c p Inl by (simp add: process_batch_def)
  next
    case (Inr y)
    obtain ps model where y: "y = (ps, model)" by fastforce
    let ?a = "set_results (tk_given_up s) model (lat / of_nat (length b)) b ps"
    obtain dropped where d: "set_mset dropped \<subseteq> tk_given_up s"
      "mset (map fst ?a) + dropped = mset (map fst (take (length ps) b))" using set_results_tickets by blast
    have "mset (map fst b) = mset (map fst (take (length ps) b @ drop (length ps) b))" by simp
    then have b: "mset (map fst b) = mset (map fst ?a) + dropped + mset (map fst (drop (length ps) b))"
      using d(2) by (simp only: map_append mset_append)
    have "tasks_inv (s\<lparr>tk_server := sv', tk_queue := tk_queue s, tk_tasks := (tk_tasks s)[i := p], tk_answers := tk_answers s @ ?a\<rparr>)"
      if "phase_batch p = drop (length ps) b" for sv' p
      by (rule phase_inv [OF assms c(1) d(1)]) (use b in \<open>simp add: c that ac_simps\<close>)
    from this [of "Collecting []" "sv\<lparr>sv_total := sv_total sv + length b, sv_latency := sv_latency sv + lat\<rparr>"]
      this [of "Failed_with (Value_error ''index out of bounds'') (drop (length ps) b)" sv]
    show ?thesis using c p Inr y by (simp add: process_batch_def Let_def)
  qed
next
  case False
  then have "process_batch X u lat i s = s" by (auto simp: process_batch_def split: task_phase.split)
  then show ?thesis using assms by simp
qed

lemma stop_inv:
  assumes "tasks_inv s"
  shows "tasks_inv (snd (stop_batch_processor s))"
proof (cases "\<exists>i b. tk_current s = Some i \<and> tk_tasks s ! i = Collecting b")
  case True
  then obtain i b where c: "tk_current s = Some i" "tk_tasks s ! i = Collecting b" by blast
  have i: "i < length (tk_tasks s)" using assms c(1) by (simp add: tasks_inv_def)
  have "tasks_inv (s\<lparr>tk_server := tk_server s, tk_queue := tk_queue s, tk_tasks := (tk_tasks s)[i := Cancelled_task b],
      tk_answers := tk_answers s\<rparr>)"
    by (rule phase_inv [OF assms i, of "{#}"]) (simp_all add: c)
  then show ?thesis using c by (simp add: stop_batch_processor_def)
next
  case False
  then have "snd (stop_batch_processor s) = s" by (auto simp: stop_batch_processor_def split: option.split task_phase.split)
  then show ?thesis using assms by simp
qed

lemma server_step_inv: "tasks_inv s \<Longrightarrow> tasks_inv (server_step X e s)"
proof (cases e)
  case (Single u lat q)
  assume "tasks_inv s"
  then show ?thesis unfolding Single by (auto elim!: tasks_invE intro!: tasks_invI simp: tickets_def split: option.splits)
qed (simp_all add: put_inv cancel_future_inv start_inv take_inv process_inv stop_inv)

interpretation serving: step_machine "server_step X" tasks_inv for X
  by unfold_locales (rule server_step_inv)

lemma fresh_tasks_inv: "tasks_inv (fresh_tasks sv)"
  by (rule tasks_invI [where gone = "{#}"]) (simp_all add: tickets_def fresh_tasks_def held_def)

text \<open>C39: Whatever clients, processors, starts and stops do in whatever order: no request is answered twice, only requests that
  were put are answered, and one that is not answered waits in the queue, is in the batch of a processor, or has
  been given up by its client.\<close>

theorem served_at_most_once:
  "case fold (server_step X) es (fresh_tasks sv) of s \<Rightarrow>
     distinct (map fst (tk_answers s)) \<and> fst ` set (tk_answers s) \<subseteq> {..<tk_issued s}
     \<and> {..<tk_issued s} \<subseteq> fst ` set (tk_answers s) \<union> fst ` set (tk_queue s) \<union> set (held s) \<union> tk_given_up s"
proof -
  obtain s where s: "s = fold (server_step X) es (fresh_tasks sv)" by simp
  have "tasks_inv s" using serving.run_keeps [OF fresh_tasks_inv] s by simp
  then obtain gone where g: "tickets s + gone = mset [0..<tk_issued s]" "set_mset gone \<subseteq> tk_given_up s" by (rule tasks_invE)
  obtain zs where "mset zs = gone" using ex_mset by blast
  then have "mset (map fst (tk_queue s) @ held s @ map fst (tk_answers s) @ zs) = mset [0..<tk_issued s]"
    unfolding g(1) [symmetric] tickets_def by (simp add: ac_simps)
  from mset_eq_imp_distinct_iff [OF this] have d: "distinct (map fst (tk_answers s))" by simp
  have "set_mset (tickets s + gone) = {..<tk_issued s}" using g(1) by auto
  then have "{..<tk_issued s} = fst ` set (tk_queue s) \<union> set (held s) \<union> fst ` set (tk_answers s) \<union> set_mset gone"
    by (simp add: tickets_def)
  then show ?thesis using d g(2) unfolding s [symmetric] by auto
qed


section \<open>Failure and shutdown\<close>

text \<open>Without a processor that collects nothing is answered: once the only one has raised, every later request waits for
  ever, unless the processor is started again, which nothing in the code does.\<close>

definition no_processor :: "server_tasks \<Rightarrow> bool" where
  "no_processor s \<longleftrightarrow> (\<forall>p\<in>set (tk_tasks s). case p of Collecting b \<Rightarrow> False | _ \<Rightarrow> True)"

lemma no_processor_step:
  assumes "no_processor s" "e \<noteq> Start_processor"
  shows "no_processor (server_step X e s) \<and> tk_answers (server_step X e s) = tk_answers s"
proof -
  have n: "tk_tasks s ! i \<noteq> Collecting b" if "i < length (tk_tasks s)" for i b
    using assms(1) nth_mem [OF that] by (auto simp: no_processor_def split: task_phase.splits)
  have t: "tk_tasks (snd (stop_batch_processor s)) = tk_tasks s \<or> no_processor (snd (stop_batch_processor s))"
    using assms(1) by (auto simp: stop_batch_processor_def no_processor_def split: option.split task_phase.split dest!: set_update_subset_insert [THEN subsetD])
  have a: "tk_answers (snd (stop_batch_processor s)) = tk_answers s"
    by (simp add: stop_batch_processor_def split: option.split task_phase.split)
  show ?thesis
  proof (cases e)
    case Stop_processor
    then show ?thesis using assms(1) t a by (auto simp: no_processor_def)
  qed (use assms n in \<open>auto simp: no_processor_def put_request_def cancel_future_def take_request_def process_batch_def
    split: task_phase.splits list.splits\<close>)
qed

lemma dead_processor_answers_nothing:
  assumes "no_processor s" "Start_processor \<notin> set es"
  shows "tk_answers (fold (server_step X) es s) = tk_answers s"
  using assms
proof (induction es arbitrary: s)
  case (Cons e es)
  from Cons.prems have "no_processor s" "e \<noteq> Start_processor" "Start_processor \<notin> set es" by auto
  with no_processor_step [OF this(1,2), of X] Cons.IH show ?case by simp
qed simp

text \<open>A prediction that raises ends the processor with its batch unanswered; the server goes on until it is stopped, and then
  raises that error.\<close>

lemma failed_prediction_ends_processor:
  assumes "tk_tasks s = [Collecting b]" "tk_current s = Some 0" "b \<noteq> []"
    and "predict_with X u (map (pq_features \<circ> snd) b) (tk_server s) = (Inl e, sv)"
  shows "no_processor (process_batch X u lat 0 s) \<and> tk_answers (process_batch X u lat 0 s) = tk_answers s
    \<and> held (process_batch X u lat 0 s) = map fst b \<and> fst (stop_batch_processor (process_batch X u lat 0 s)) = Some e"
  using assms by (simp add: process_batch_def no_processor_def held_def stop_batch_processor_def)

text \<open>A stop drops what the processor has collected: those clients wait for ever.\<close>

lemma stop_leaves_batch:
  assumes "tk_tasks s = [Collecting b]" "tk_current s = Some 0"
  shows "no_processor (snd (stop_batch_processor s)) \<and> held (snd (stop_batch_processor s)) = map fst b"
  using assms by (simp add: no_processor_def held_def stop_batch_processor_def)

text \<open>Nothing in the code puts a request on the queue, and \<open>serve\<close> does not listen on its port: left to itself it answers
  nothing.\<close>

definition from_code :: "server_event \<Rightarrow> bool" where
  "from_code e \<longleftrightarrow> (case e of Take_request i \<Rightarrow> True | Process_batch u lat i \<Rightarrow> True | _ \<Rightarrow> False)"

lemma serve_answers_nothing:
  assumes "list_all from_code es"
  shows "tk_answers (snd (serve X es (fresh_tasks sv))) = []"
proof -
  have step: "server_step X e s = s"
    if "from_code e" "tk_queue s = []" "tk_tasks s = [Collecting []]" for e s
    using that by (cases e) (auto simp: from_code_def take_request_def process_batch_def)
  have "fold (server_step X) es s = s" if "tk_queue s = []" "tk_tasks s = [Collecting []]" for s
    using assms that by (induction es) (simp_all add: step)
  then show ?thesis
    by (simp add: serve_def start_batch_processor_def fresh_tasks_def stop_batch_processor_def)
qed


section \<open>Undisturbed passes\<close>

text \<open>A processor that nobody disturbs takes and answers what \<open>batch_pass\<close> says.\<close>

lemma takes_batch:
  assumes "tk_tasks s = [Collecting b]" "n \<le> length (tk_queue s)" "length b + n \<le> sv_batch_size (tk_server s)"
  shows "(take_request 0 ^^ n) s = s\<lparr>tk_queue := drop n (tk_queue s), tk_tasks := [Collecting (b @ take n (tk_queue s))]\<rparr>"
  using assms
proof (induction n arbitrary: s b)
  case (Suc n)
  then obtain x rest where q: "tk_queue s = x # rest" by (cases "tk_queue s") auto
  have t: "take_request 0 s = s\<lparr>tk_queue := rest, tk_tasks := [Collecting (b @ [x])]\<rparr>"
    using Suc.prems q by (simp add: take_request_def)
  show ?case unfolding funpow_Suc_right comp_apply t
    by (subst Suc.IH [where b = "b @ [x]"]) (use Suc.prems q in simp_all)
qed simp

lemma pass_as_tasks:
  assumes "tk_tasks s = [Collecting []]" "tk_given_up s = {}" "n \<le> sv_batch_size (tk_server s)" "n \<le> length (tk_queue s)"
    and "batch_pass X u lat n (map snd (tk_queue s)) (tk_server s) = (Inr answers, rest, sv)"
    and "s' = process_batch X u lat 0 ((take_request 0 ^^ n) s)" and "xgb_ok X"
  shows "map snd (tk_queue s') = rest \<and> tk_server s' = sv \<and> tk_tasks s' = [Collecting []]
    \<and> map snd (tk_answers s') = map snd (tk_answers s) @ map snd answers
    \<and> map fst (tk_answers s') = map fst (tk_answers s) @ map fst (take n (tk_queue s))"
proof -
  let ?b = "take n (tk_queue s)"
  have t: "(take_request 0 ^^ n) s = s\<lparr>tk_queue := drop n (tk_queue s), tk_tasks := [Collecting ?b]\<rparr>"
    using takes_batch [of s "[]" n] assms by simp
  have m: "min n (sv_batch_size (tk_server s)) = n" using assms by simp
  show ?thesis
  proof (cases "?b = []")
    case True
    then show ?thesis using assms(1,5,6) t m by (auto simp: process_batch_def batch_pass_def Let_def drop_map take_map)
  next
    case False
    have f: "map (pq_features \<circ> snd) ?b = map pq_features (take n (map snd (tk_queue s)))" by (simp add: take_map)
    obtain ps model path s1 where p: "predict_with X u (map (pq_features \<circ> snd) ?b) (tk_server s) = (Inr (ps, model), s1)"
      "length ps = length (map (pq_features \<circ> snd) ?b)" by (rule predict_with_result [OF assms(7)])
    have l: "length ps = length ?b" using p(2) by simp
    have z: "map snd (set_results {} model r ?b ps) = map snd (map (\<lambda>(q, p). (q, response_of p model r)) (zip (map snd ?b) ps))"
      "map fst (set_results {} model r ?b ps) = map fst ?b" for r
      using l by (auto simp: set_results_def intro!: nth_equalityI split: prod.splits)
    have s': "s' = s\<lparr>tk_server := s1\<lparr>sv_total := sv_total s1 + length ?b, sv_latency := sv_latency s1 + lat\<rparr>,
        tk_queue := drop n (tk_queue s), tk_tasks := [Collecting []],
        tk_answers := tk_answers s @ set_results {} model (lat / of_nat (length ?b)) ?b ps\<rparr>"
      unfolding assms(6) t
      by (rule server_tasks.equality) (use False p(1) l assms(2,4) in \<open>simp_all add: process_batch_def Let_def\<close>)
    have "batch_pass X u lat n (map snd (tk_queue s)) (tk_server s)
      = (Inr (map (\<lambda>(q, p). (q, response_of p model (lat / of_nat (length ?b)))) (zip (map snd ?b) ps)), drop n (map snd (tk_queue s)),
         s1\<lparr>sv_total := sv_total s1 + length ?b, sv_latency := sv_latency s1 + lat\<rparr>)"
      using False p(1) l m unfolding f by (simp add: batch_pass_def Let_def take_map)
    then show ?thesis using assms(5) z unfolding s' by (auto simp: drop_map)
  qed
qed

end
