(* ===== verification/CsvReader.thy ===== *)
theory CsvReader
  imports PyText
begin

text \<open>
  Python's \<open>csv.DictReader\<close> over a string, as \<open>services/sip-processor/app/sentinel/parser.py\<close> uses it: the state
  machine of the default dialect (comma, double quotes, doubled quotes inside quotes, not strict), the lines of
  \<open>io.StringIO\<close>, and the pairing of each row with the header.
\<close>

section \<open>The state machine\<close>

datatype csv_state = Start_record | Start_field | In_field | In_quoted | Quote_in_quoted | Eat_crnl

record csv_reader =
  cs_state :: csv_state
  cs_field :: string
  cs_fields :: "string list"

definition csv_start :: csv_reader where
  "csv_start = \<lparr>cs_state = Start_record, cs_field = [], cs_fields = []\<rparr>"

definition newline_char :: "char \<Rightarrow> bool" where
  "newline_char c \<longleftrightarrow> c = CHR 0x0A \<or> c = CHR 0x0D"

definition save_field :: "csv_state \<Rightarrow> csv_reader \<Rightarrow> csv_reader" where
  "save_field st s = s\<lparr>cs_state := st, cs_fields := cs_fields s @ [cs_field s], cs_field := []\<rparr>"

definition add_char :: "char \<Rightarrow> csv_state \<Rightarrow> csv_reader \<Rightarrow> csv_reader" where
  "add_char c st s = s\<lparr>cs_state := st, cs_field := cs_field s @ [c]\<rparr>"

definition csv_start_field :: "char \<Rightarrow> csv_reader \<Rightarrow> csv_reader" where
  "csv_start_field c s =
     (if newline_char c then save_field Eat_crnl s
      else if c = CHR 0x22 then s\<lparr>cs_state := In_quoted\<rparr>
      else if c = CHR '','' then save_field Start_field s
      else add_char c In_field s)"

text \<open>One character; \<open>Inl\<close> is the \<open>csv.Error\<close> for a character after a bare carriage return.\<close>

definition csv_char :: "char \<Rightarrow> csv_reader \<Rightarrow> string + csv_reader" where
  "csv_char c s =
     (case cs_state s of
        Start_record \<Rightarrow> Inr (if newline_char c then s\<lparr>cs_state := Eat_crnl\<rparr> else csv_start_field c s)
      | Start_field \<Rightarrow> Inr (csv_start_field c s)
      | In_field \<Rightarrow>
          Inr (if newline_char c then save_field Eat_crnl s
               else if c = CHR '','' then save_field Start_field s
               else add_char c In_field s)
      | In_quoted \<Rightarrow> Inr (if c = CHR 0x22 then s\<lparr>cs_state := Quote_in_quoted\<rparr> else add_char c In_quoted s)
      | Quote_in_quoted \<Rightarrow>
          Inr (if c = CHR 0x22 then add_char c In_quoted s
               else if c = CHR '','' then save_field Start_field s
               else if newline_char c then save_field Eat_crnl s
               else add_char c In_field s)
      | Eat_crnl \<Rightarrow> if newline_char c then Inr s else Inl ''new-line character seen in unquoted field'')"

text \<open>The end of a line of the input.\<close>

definition csv_end_of_line :: "csv_reader \<Rightarrow> csv_reader" where
  "csv_end_of_line s =
     (case cs_state s of
        Start_record \<Rightarrow> s
      | In_quoted \<Rightarrow> s
      | Eat_crnl \<Rightarrow> s\<lparr>cs_state := Start_record\<rparr>
      | _ \<Rightarrow> save_field Start_record s)"

fun csv_chars :: "string \<Rightarrow> csv_reader \<Rightarrow> string + csv_reader" where
  "csv_chars [] s = Inr s"
| "csv_chars (c # cs) s = (case csv_char c s of Inl e \<Rightarrow> Inl e | Inr s1 \<Rightarrow> csv_chars cs s1)"

text \<open>The rows read before the input ends or an error is raised, and the error.\<close>

fun csv_rows :: "string list \<Rightarrow> csv_reader \<Rightarrow> string list list \<times> string option" where
  "csv_rows [] s =
     (if cs_field s \<noteq> [] \<or> cs_state s = In_quoted then ([cs_fields s @ [cs_field s]], None) else ([], None))"
| "csv_rows (l # ls) s =
     (case csv_chars l s of
        Inl e \<Rightarrow> ([], Some e)
      | Inr s1 \<Rightarrow>
          (let s2 = csv_end_of_line s1 in
           if cs_state s2 = Start_record
           then (case csv_rows ls csv_start of (rows, err) \<Rightarrow> (cs_fields s2 # rows, err))
           else csv_rows ls s2))"

text \<open>The lines of a text, each with its line feed.\<close>

fun text_lines :: "string \<Rightarrow> string list" where
  "text_lines [] = []"
| "text_lines (c # cs) =
     (if c = CHR 0x0A then [c] # text_lines cs
      else case text_lines cs of [] \<Rightarrow> [[c]] | l # ls \<Rightarrow> (c # l) # ls)"

definition csv_parse :: "string \<Rightarrow> string list list \<times> string option" where
  "csv_parse t = csv_rows (text_lines t) csv_start"


section \<open>Rows as dictionaries\<close>

text \<open>A short row leaves the remaining keys at \<open>None\<close>; what a long row has beyond the header is not read.\<close>

fun dict_row :: "string list \<Rightarrow> string list \<Rightarrow> (string, string option) dict \<Rightarrow> (string, string option) dict" where
  "dict_row [] row d = d"
| "dict_row (k # ks) [] d = dict_row ks [] (dict_set k None d)"
| "dict_row (k # ks) (v # vs) d = dict_row ks vs (dict_set k (Some v) d)"

text \<open>The header (\<open>None\<close> for an empty input), the rows that are not blank, and the error that ended the reading.\<close>

definition dict_reader ::
  "string \<Rightarrow> string list option \<times> (string, string option) dict list \<times> string option" where
  "dict_reader t =
     (case csv_parse t of
        ([], err) \<Rightarrow> (None, [], err)
      | (header # rows, err) \<Rightarrow> (Some header, map (\<lambda>r. dict_row header r []) (filter (\<lambda>r. r \<noteq> []) rows), err))"


section \<open>Plain text reads back\<close>

definition plain_char :: "char \<Rightarrow> bool" where
  "plain_char c \<longleftrightarrow> \<not> newline_char c \<and> c \<noteq> CHR 0x22 \<and> c \<noteq> CHR '',''"

text \<open>A row as the writer prints it when no field needs quotes: commas between the fields and \<open>\r\n\<close> after the last.\<close>

definition plain_line :: "string list \<Rightarrow> string" where
  "plain_line row = join_with '','' row @ [CHR 0x0D, CHR 0x0A]"

definition plain_row :: "string list \<Rightarrow> bool" where
  "plain_row row \<longleftrightarrow> row \<noteq> [] \<and> row \<noteq> [[]] \<and> list_all (list_all plain_char) row"

lemma csv_chars_append:
  "csv_chars (a @ b) s = (case csv_chars a s of Inl e \<Rightarrow> Inl e | Inr s1 \<Rightarrow> csv_chars b s1)"
  by (induction a arbitrary: s) (auto split: sum.split)

lemma plain_in_field:
  "list_all plain_char f \<Longrightarrow> cs_state s = In_field \<Longrightarrow> csv_chars f s = Inr (s\<lparr>cs_field := cs_field s @ f\<rparr>)"
proof (induction f arbitrary: s)
  case (Cons c f)
  then show ?case by (simp add: csv_char_def plain_char_def add_char_def)
qed simp

text \<open>What a field does from the start of a field, or of the record.\<close>

lemma plain_field:
  assumes "list_all plain_char f" "cs_state s = Start_field \<or> cs_state s = Start_record" "cs_field s = []" "f \<noteq> []"
  shows "csv_chars f s = Inr (s\<lparr>cs_state := In_field, cs_field := f\<rparr>)"
proof (cases f)
  case (Cons c g)
  have c: "csv_char c s = Inr (s\<lparr>cs_state := In_field, cs_field := [c]\<rparr>)"
    using assms(1,2,3) Cons by (auto simp: csv_char_def csv_start_field_def plain_char_def add_char_def)
  then show ?thesis using plain_in_field [of g "s\<lparr>cs_state := In_field, cs_field := [c]\<rparr>"] assms(1) Cons by simp
qed (use assms(4) in simp)

lemma plain_fields:
  assumes "list_all (list_all plain_char) fs" "fs \<noteq> []" "fs \<noteq> [[]] \<or> cs_state s = Start_field"
    "cs_state s = Start_field \<or> cs_state s = Start_record" "cs_field s = []"
  shows "csv_chars (join_with '','' fs @ [CHR 0x0D, CHR 0x0A]) s
    = Inr \<lparr>cs_state = Eat_crnl, cs_field = [], cs_fields = cs_fields s @ fs\<rparr>"
  using assms
proof (induction fs arbitrary: s)
  case (Cons f fs)
  show ?case
  proof (cases fs)
    case Nil
    show ?thesis
    proof (cases "f = []")
      case True
      then show ?thesis using Cons.prems Nil
        by (auto simp: csv_char_def csv_start_field_def newline_char_def save_field_def)
    next
      case False
      then show ?thesis
        using Cons.prems Nil plain_field [of f s]
        by (auto simp: csv_chars_append csv_char_def newline_char_def save_field_def)
    qed
  next
    case (Cons g gs)
    let ?s = "\<lparr>cs_state = Start_field, cs_field = [], cs_fields = cs_fields s @ [f]\<rparr>"
    have head: "csv_chars (f @ '','') s = Inr ?s"
    proof (cases "f = []")
      case True
      then show ?thesis using Cons.prems
        by (auto simp: csv_char_def csv_start_field_def newline_char_def save_field_def)
    next
      case False
      then show ?thesis
        using Cons.prems plain_field [of f s]
        by (auto simp: csv_chars_append csv_char_def newline_char_def save_field_def)
    qed
    have ih: "csv_chars (join_with '','' fs @ [CHR 0x0D, CHR 0x0A]) ?s
        = Inr \<lparr>cs_state = Eat_crnl, cs_field = [], cs_fields = cs_fields s @ f # fs\<rparr>"
      using Cons.IH [of ?s] Cons.prems \<open>fs = g # gs\<close> by simp
    have eq: "join_with '','' (f # fs) @ [CHR 0x0D, CHR 0x0A] = (f @ '','') @ (join_with '','' fs @ [CHR 0x0D, CHR 0x0A])"
      using \<open>fs = g # gs\<close> by simp
    show ?thesis unfolding eq csv_chars_append [of "f @ '',''"] head sum.case ih by simp
  qed
qed simp

lemma text_lines_one: "CHR 0x0A \<notin> set l \<Longrightarrow> text_lines (l @ CHR 0x0A # t) = (l @ [CHR 0x0A]) # text_lines t"
  by (induction l) auto

lemma plain_join: "list_all (list_all plain_char) row \<Longrightarrow> CHR 0x0A \<notin> set (join_with '','' row)"
proof (induction row)
  case (Cons f row)
  have "CHR 0x0A \<notin> set f" using Cons.prems by (auto simp: list_all_iff plain_char_def newline_char_def)
  then show ?case using Cons by (cases row) auto
qed simp

lemma text_lines_plain:
  "list_all (list_all plain_char) row \<Longrightarrow> text_lines (plain_line row @ t) = plain_line row # text_lines t"
  using text_lines_one [of "join_with '','' row @ [CHR 0x0D]" t] plain_join [of row]
  by (simp add: plain_line_def)

lemma csv_rows_plain:
  assumes "plain_row row"
  shows "csv_rows (plain_line row # ls) csv_start = (case csv_rows ls csv_start of (rows, err) \<Rightarrow> (row # rows, err))"
proof -
  have "csv_chars (plain_line row) csv_start = Inr \<lparr>cs_state = Eat_crnl, cs_field = [], cs_fields = row\<rparr>"
    using plain_fields [of row csv_start] assms by (simp add: plain_row_def plain_line_def csv_start_def)
  then show ?thesis by (simp add: csv_end_of_line_def Let_def)
qed

lemma csv_parse_plain:
  "list_all plain_row rows \<Longrightarrow> csv_parse (concat (map plain_line rows)) = (rows, None)"
proof (induction rows)
  case Nil
  then show ?case by (simp add: csv_parse_def csv_start_def)
next
  case (Cons row rows)
  then have p: "plain_row row" "list_all plain_row rows" by simp_all
  have "text_lines (concat (map plain_line (row # rows))) = plain_line row # text_lines (concat (map plain_line rows))"
    using text_lines_plain [of row] p(1) by (simp add: plain_row_def)
  then show ?case using Cons.IH [OF p(2)] csv_rows_plain [OF p(1)] by (simp add: csv_parse_def del: csv_rows.simps)
qed

end
