(* ===== verification/Sentinel.thy ===== *)
theory Sentinel
  imports CsvReader Effects
begin

text \<open>
  The batch detection engine, \<open>services/sip-processor/app/sentinel\<close>: call records and their validation
  (\<open>models.py\<close>), the CSV parser (\<open>parser.py\<close>), the tables of \<open>migrations/001_sentinel_tables.sql\<close> with the
  operations on them (\<open>database.py\<close>), the short-duration-high-frequency detection (\<open>detector.py\<close>) and the
  endpoints (\<open>routes.py\<close>).

  The two tables are lists of rows, in the order of insertion; a query is the function of the rows that its text
  denotes. Parameters: decoding the uploaded bytes, \<open>strptime\<close>, the clock, what the database driver refuses, the
  Python type it reads an average as, and the delivery of a notification.
\<close>

section \<open>Call records\<close>

text \<open>A \<open>datetime\<close> without or with a time zone.\<close>

datatype stamp = Naive instant | Aware instant

record call_record =
  sr_stamp :: stamp
  sr_caller :: string
  sr_callee :: string
  sr_duration :: int
  sr_direction :: "string option"
  sr_cause :: "string option"
  sr_location :: "string option"

text \<open>\<open>re.match(r'^\+?[1-9]\d{1,14}$', v)\<close>; the dollar sign also matches before a final line feed.\<close>

definition is_e164 :: "string \<Rightarrow> bool" where
  "is_e164 v =
     (let w = (case v of c # cs \<Rightarrow> if c = CHR ''+'' then cs else v | [] \<Rightarrow> []);
          ds = takeWhile is_digit w; rest = dropWhile is_digit w
      in ds \<noteq> [] \<and> hd ds \<noteq> CHR ''0'' \<and> 2 \<le> length ds \<and> length ds \<le> 15 \<and> (rest = [] \<or> rest = [CHR 0x0A]))"

definition valid_number :: "string \<Rightarrow> bool" where
  "valid_number v \<longleftrightarrow> 1 \<le> length v \<and> length v \<le> 20 \<and> is_e164 v"

definition at_most :: "nat \<Rightarrow> string option \<Rightarrow> bool" where
  "at_most n v \<longleftrightarrow> (case v of None \<Rightarrow> True | Some s \<Rightarrow> length s \<le> n)"

definition valid_direction :: "string option \<Rightarrow> bool" where
  "valid_direction v \<longleftrightarrow> at_most 10 v \<and> (v = None \<or> v = Some ''inbound'' \<or> v = Some ''outbound'')"

text \<open>The constructor of \<open>CallRecord\<close>: the record, or a \<open>ValidationError\<close>.\<close>

definition valid_record :: "call_record \<Rightarrow> bool" where
  "valid_record r \<longleftrightarrow> valid_number (sr_caller r) \<and> valid_number (sr_callee r) \<and> sr_duration r \<ge> 0
     \<and> valid_direction (sr_direction r) \<and> at_most 50 (sr_cause r) \<and> at_most 10 (sr_location r)"


section \<open>The parser\<close>

datatype row_error =
    No_value string           \<comment> \<open>a short row: the method of a \<open>None\<close> value\<close>
  | Bad_timestamp string
  | Bad_duration string
  | Invalid_record call_record

datatype csv_error =
    No_headers
  | Missing_fields "string list"
  | Row_error nat row_error
  | File_error string

definition required_fields :: "string list" where
  "required_fields = [''call_date'', ''call_time'', ''caller_number'', ''callee_number'', ''duration_seconds'']"

definition missing_fields :: "string list \<Rightarrow> string list" where
  "missing_fields headers = filter (\<lambda>f. f \<notin> set headers) required_fields"

text \<open>\<open>_validate_headers\<close>: the errors it adds; none when it returns True.\<close>

definition validate_headers :: "string list option \<Rightarrow> csv_error list" where
  "validate_headers headers =
     (case headers of
        None \<Rightarrow> [No_headers]
      | Some hs \<Rightarrow> if hs = [] then [No_headers]
                  else if missing_fields hs \<noteq> [] then [Missing_fields (missing_fields hs)] else [])"

type_synonym csv_row = "(string, string option) dict"

text \<open>\<open>row[k].strip()\<close> and \<open>row.get(k, '').strip() or None\<close>: a key without a value is \<open>None\<close>, which has no
  \<open>strip\<close>. The headers hold the required keys.\<close>

definition stripped :: "csv_row \<Rightarrow> string \<Rightarrow> row_error + string" where
  "stripped row k = (case dict_get row k of Some (Some v) \<Rightarrow> Inr (py_strip v) | _ \<Rightarrow> Inl (No_value k))"

definition optional_field :: "csv_row \<Rightarrow> string \<Rightarrow> row_error + string option" where
  "optional_field row k =
     (case dict_get row k of
        None \<Rightarrow> Inr None
      | Some None \<Rightarrow> Inl (No_value k)
      | Some (Some v) \<Rightarrow> Inr (if py_strip v = [] then None else Some (py_strip v)))"

definition bind_row :: "row_error + 'a \<Rightarrow> ('a \<Rightarrow> row_error + 'b) \<Rightarrow> row_error + 'b" where
  "bind_row r f = (case r of Inl e \<Rightarrow> Inl e | Inr x \<Rightarrow> f x)"

definition parse_duration :: "csv_row \<Rightarrow> row_error + int" where
  "parse_duration row =
     (case dict_get row ''duration_seconds'' of
        Some (Some v) \<Rightarrow> (case py_int v of Some n \<Rightarrow> Inr n | None \<Rightarrow> Inl (Bad_duration v))
      | _ \<Rightarrow> Inl (No_value ''duration_seconds''))"

text \<open>\<open>strptime t\<close> is \<open>datetime.strptime(t, "%Y-%m-%d %H:%M:%S")\<close>, \<open>None\<close> for its \<open>ValueError\<close>.\<close>

definition parse_timestamp :: "(string \<Rightarrow> instant option) \<Rightarrow> string \<Rightarrow> string \<Rightarrow> row_error + instant" where
  "parse_timestamp strptime d t =
     (case strptime (d @ '' '' @ t) of Some i \<Rightarrow> Inr i | None \<Rightarrow> Inl (Bad_timestamp (d @ '' '' @ t)))"

definition parse_row :: "(string \<Rightarrow> instant option) \<Rightarrow> csv_row \<Rightarrow> row_error + call_record" where
  "parse_row strptime row =
     bind_row (stripped row ''call_date'') (\<lambda>d.
     bind_row (stripped row ''call_time'') (\<lambda>t.
     bind_row (parse_timestamp strptime d t) (\<lambda>i.
     bind_row (parse_duration row) (\<lambda>n.
     bind_row (stripped row ''caller_number'') (\<lambda>caller.
     bind_row (stripped row ''callee_number'') (\<lambda>callee.
     bind_row (optional_field row ''call_direction'') (\<lambda>direction.
     bind_row (optional_field row ''termination_cause'') (\<lambda>cause.
     bind_row (optional_field row ''location_code'') (\<lambda>location.
       let r = \<lparr>sr_stamp = Naive i, sr_caller = caller, sr_callee = callee, sr_duration = n,
                sr_direction = direction, sr_cause = cause, sr_location = location\<rparr> in
       if valid_record r then Inr r else Inl (Invalid_record r))))))))))"

text \<open>The rows, numbered from \<open>n\<close>: what parses, and an error for each row that does not.\<close>

fun parse_rows ::
  "(string \<Rightarrow> instant option) \<Rightarrow> nat \<Rightarrow> csv_row list \<Rightarrow> call_record list \<times> csv_error list" where
  "parse_rows strptime n [] = ([], [])"
| "parse_rows strptime n (row # rows) =
     (case parse_rows strptime (n + 1) rows of (rs, es) \<Rightarrow>
        (case parse_row strptime row of Inr r \<Rightarrow> (r # rs, es) | Inl e \<Rightarrow> (rs, Row_error n e # es)))"

text \<open>\<open>decode\<close> is \<open>bytes.decode('utf-8')\<close>, with the message of its \<open>UnicodeDecodeError\<close> on the left.\<close>

definition parse_csv ::
  "(string \<Rightarrow> string + string) \<Rightarrow> (string \<Rightarrow> instant option) \<Rightarrow> string \<Rightarrow> call_record list \<times> csv_error list" where
  "parse_csv decode strptime content =
     (case decode content of
        Inl e \<Rightarrow> ([], [File_error e])
      | Inr t \<Rightarrow>
          (case dict_reader t of
             (None, _, Some e) \<Rightarrow> ([], [File_error e])
           | (headers, rows, err) \<Rightarrow>
               if validate_headers headers \<noteq> [] then ([], validate_headers headers)
               else (case parse_rows strptime 2 rows of (rs, es) \<Rightarrow>
                       (rs, es @ (case err of None \<Rightarrow> [] | Some e \<Rightarrow> [File_error e])))))"

type_synonym record_key = "string \<times> string \<times> stamp"

definition record_key :: "call_record \<Rightarrow> record_key" where
  "record_key r = (sr_caller r, sr_callee r, sr_stamp r)"

fun dedup_loop :: "record_key list \<Rightarrow> call_record list \<Rightarrow> call_record list \<times> nat" where
  "dedup_loop seen [] = ([], 0)"
| "dedup_loop seen (r # rs) =
     (if record_key r \<notin> set seen
      then (case dedup_loop (record_key r # seen) rs of (us, n) \<Rightarrow> (r # us, n))
      else (case dedup_loop seen rs of (us, n) \<Rightarrow> (us, n + 1)))"

definition deduplicate :: "call_record list \<Rightarrow> call_record list \<times> nat" where
  "deduplicate rs = dedup_loop [] rs"


section \<open>The tables\<close>

text \<open>\<open>SentinelFraudAlert\<close> before it is stored, and as a row of \<open>sentinel_fraud_alerts\<close>.\<close>

record sentinel_alert =
  sa_type :: string
  sa_suspect :: string
  sa_severity :: string
  sa_evidence :: string
  sa_call_count :: nat
  sa_unique :: nat
  sa_avg :: rat
  sa_rule :: string

record alert_entry =
  ae_id :: nat
  ae_alert :: sentinel_alert
  ae_created :: instant
  ae_reviewed :: bool
  ae_notes :: "string option"

record sentinel_db =
  sd_calls :: "call_record list"
  sd_alerts :: "alert_entry list"
  sd_next_id :: nat

text \<open>What comes from the database driver: whether it and the server accept a row, and the number type it reads
  the average of an integer column as.\<close>

datatype py_num = Decimal rat | Float rat

record driver =
  accepts_call :: "call_record \<Rightarrow> bool"
  accepts_alert :: "sentinel_alert \<Rightarrow> bool"
  reads_average :: "rat \<Rightarrow> py_num"

datatype db_error = Refused_call call_record | Refused_alert sentinel_alert | Invalid_alert sentinel_alert


section \<open>Call records in the database\<close>

text \<open>\<open>xs[0:n]\<close>, \<open>xs[n:2n]\<close> and so on.\<close>

function slices :: "nat \<Rightarrow> 'a list \<Rightarrow> 'a list list" where
  "slices n xs = (if n = 0 \<or> xs = [] then [] else take n xs # slices n (drop n xs))"
  by pat_completeness auto
termination by (relation "measure (\<lambda>(n, xs). length xs)") auto

declare slices.simps [simp del]

definition batch_size :: nat where "batch_size = 1000"

text \<open>One transaction. The only unique column is the serial \<open>id\<close>, so \<open>ON CONFLICT DO NOTHING\<close> skips no row.\<close>

definition insert_batch :: "driver \<Rightarrow> call_record list \<Rightarrow> (sentinel_db, db_error, unit) eff" where
  "insert_batch D batch db =
     (case filter (\<lambda>r. \<not> accepts_call D r) batch of
        r # _ \<Rightarrow> (Inl (Refused_call r), db)
      | [] \<Rightarrow> (Inr (), db\<lparr>sd_calls := sd_calls db @ batch\<rparr>))"

definition insert_call_records :: "driver \<Rightarrow> call_record list \<Rightarrow> (sentinel_db, db_error, nat) eff" where
  "insert_call_records D rs =
     (if rs = [] then eff_return 0
      else eff_then (eff_for (slices batch_size rs) (insert_batch D)) (eff_return (length rs)))"

definition check_duplicates :: "sentinel_db \<Rightarrow> call_record list \<Rightarrow> call_record list" where
  "check_duplicates db rs = filter (\<lambda>r. list_all (\<lambda>x. record_key x \<noteq> record_key r) (sd_calls db)) rs"

record ingest_response =
  ir_status :: string
  ir_processed :: nat
  ir_inserted :: nat
  ir_skipped :: nat
  ir_seconds :: rat
  ir_errors :: "csv_error list option"

datatype 'a reply = Reply 'a | Http_error nat

definition ingest_cdr ::
  "(string \<Rightarrow> string + string) \<Rightarrow> (string \<Rightarrow> instant option) \<Rightarrow> driver \<Rightarrow> rat \<Rightarrow> string \<Rightarrow> string \<Rightarrow>
   sentinel_db \<Rightarrow> ingest_response reply \<times> sentinel_db" where
  "ingest_cdr decode strptime D elapsed filename content db =
     (if \<not> endswith ''.csv'' filename then (Http_error 400, db)
      else
        (let (records, errors) = parse_csv decode strptime content in
         if errors \<noteq> [] \<and> records = []
         then (Reply \<lparr>ir_status = ''error'', ir_processed = 0, ir_inserted = 0, ir_skipped = 0,
                 ir_seconds = elapsed, ir_errors = Some errors\<rparr>, db)
         else
           (let (uniques, csv_duplicates) = deduplicate records;
                fresh = check_duplicates db uniques;
                db_duplicates = length uniques - length fresh in
            case insert_call_records D fresh db of
              (Inl _, db') \<Rightarrow> (Http_error 500, db')
            | (Inr inserted, db') \<Rightarrow>
                (Reply \<lparr>ir_status = (if inserted > 0 then ''success'' else ''partial''), ir_processed = length records,
                   ir_inserted = inserted, ir_skipped = csv_duplicates + db_duplicates,
                   ir_seconds = py_round 2 elapsed, ir_errors = (if errors = [] then None else Some errors)\<rparr>, db'))))"


section \<open>Alerts in the database\<close>

definition insert_alert :: "driver \<Rightarrow> instant \<Rightarrow> sentinel_alert \<Rightarrow> (sentinel_db, db_error, nat) eff" where
  "insert_alert D now a db =
     (if accepts_alert D a
      then (Inr (sd_next_id db),
            db\<lparr>sd_alerts := sd_alerts db @ [\<lparr>ae_id = sd_next_id db, ae_alert = a, ae_created = now, ae_reviewed = False, ae_notes = None\<rparr>],
               sd_next_id := sd_next_id db + 1\<rparr>)
      else (Inl (Refused_alert a), db))"

text \<open>The newest first; rows of the same moment may come in any order, here in that of their insertion.\<close>

definition select_alerts :: "string option \<Rightarrow> bool option \<Rightarrow> nat \<Rightarrow> sentinel_db \<Rightarrow> alert_entry list" where
  "select_alerts severity reviewed limit db =
     take limit (sort_key (\<lambda>a. - ae_created a)
       (filter (\<lambda>a. (truthy severity \<longrightarrow> severity = Some (sa_severity (ae_alert a)))
                  \<and> (case reviewed of None \<Rightarrow> True | Some b \<Rightarrow> ae_reviewed a = b)) (sd_alerts db)))"

definition severity_levels :: "string list" where
  "severity_levels = [''LOW'', ''MEDIUM'', ''HIGH'', ''CRITICAL'']"

text \<open>The endpoints; FastAPI answers 422 to a query outside the declared ranges.\<close>

definition get_alerts_endpoint ::
  "string option \<Rightarrow> bool option \<Rightarrow> nat \<Rightarrow> sentinel_db \<Rightarrow> (nat \<times> alert_entry list) reply" where
  "get_alerts_endpoint severity reviewed limit db =
     (if (case severity of None \<Rightarrow> True | Some s \<Rightarrow> s \<in> set severity_levels) \<and> 1 \<le> limit \<and> limit \<le> 1000
      then Reply (let as = select_alerts severity reviewed limit db in (length as, as))
      else Http_error 422)"

definition mark_alert :: "bool \<Rightarrow> string option \<Rightarrow> alert_entry \<Rightarrow> alert_entry" where
  "mark_alert reviewed notes a = a\<lparr>ae_reviewed := reviewed, ae_notes := notes\<rparr>"

definition update_alert ::
  "nat \<Rightarrow> bool \<Rightarrow> string option \<Rightarrow> sentinel_db \<Rightarrow> (nat \<times> bool \<times> string option) reply \<times> sentinel_db" where
  "update_alert i reviewed notes db =
     (if i \<in> set (map ae_id (sd_alerts db))
      then (Reply (i, reviewed, notes),
            db\<lparr>sd_alerts := map (\<lambda>a. if ae_id a = i then mark_alert reviewed notes a else a) (sd_alerts db)\<rparr>)
      else (Http_error 404, db))"


section \<open>Short duration, high frequency\<close>

definition stamp_instant :: "stamp \<Rightarrow> instant" where
  "stamp_instant t = (case t of Naive i \<Rightarrow> i | Aware i \<Rightarrow> i)"

definition average :: "int list \<Rightarrow> rat" where
  "average ds = of_int (sum_list ds) / of_nat (length ds)"

text \<open>\<open>ROUND(x, 2)\<close> of PostgreSQL: half away from zero.\<close>

definition sql_round2 :: "rat \<Rightarrow> rat" where
  "sql_round2 x = (if x \<ge> 0 then of_int \<lfloor>x * 100 + 1 / 2\<rfloor> / 100 else - (of_int \<lfloor>- x * 100 + 1 / 2\<rfloor> / 100))"

record caller_stats =
  st_caller :: string
  st_calls :: nat
  st_unique :: nat
  st_avg :: rat
  st_first :: instant
  st_last :: instant

definition calls_since :: "instant \<Rightarrow> call_record list \<Rightarrow> call_record list" where
  "calls_since t rows = filter (\<lambda>r. stamp_instant (sr_stamp r) \<ge> t) rows"

definition calls_of :: "string \<Rightarrow> call_record list \<Rightarrow> call_record list" where
  "calls_of c rows = filter (\<lambda>r. sr_caller r = c) rows"

definition destinations :: "call_record list \<Rightarrow> nat" where
  "destinations rows = length (remdups (map sr_callee rows))"

text \<open>A group of the query, its average not yet rounded.\<close>

definition stats_of_caller :: "call_record list \<Rightarrow> string \<Rightarrow> caller_stats" where
  "stats_of_caller rows c =
     (let rs = calls_of c rows; ts = map (\<lambda>r. stamp_instant (sr_stamp r)) rs in
      \<lparr>st_caller = c, st_calls = length rs, st_unique = destinations rs, st_avg = average (map sr_duration rs),
       st_first = fold min ts (hd ts), st_last = fold max ts (hd ts)\<rparr>)"

text \<open>The groups that pass the \<open>HAVING\<close> clause, rounded and ordered: more destinations first, then the shorter
  average. The order of groups that are equal in both is left open by the query; here it is that of the rows.\<close>

definition detect_sdhf_patterns :: "instant \<Rightarrow> nat \<Rightarrow> nat \<Rightarrow> rat \<Rightarrow> sentinel_db \<Rightarrow> caller_stats list" where
  "detect_sdhf_patterns now hours min_unique max_avg db =
     (let rows = calls_since (now - of_nat hours * 3600) (sd_calls db);
          groups = map (stats_of_caller rows) (remdups (map sr_caller rows));
          kept = filter (\<lambda>g. st_unique g > min_unique \<and> st_avg g < max_avg) groups in
      sort_key (\<lambda>g. - int (st_unique g))
        (sort_key st_avg (map (\<lambda>g. g\<lparr>st_avg := sql_round2 (st_avg g)\<rparr>) kept)))"

definition calculate_severity :: "nat \<Rightarrow> rat \<Rightarrow> nat \<Rightarrow> string" where
  "calculate_severity unique avg count =
     (if unique \<ge> 200 \<and> avg \<le> 3 / 2 then ''CRITICAL''
      else if unique \<ge> 100 \<and> avg \<le> 2 then ''HIGH''
      else if unique \<ge> 75 \<or> avg \<le> 1 then ''HIGH''
      else ''MEDIUM'')"

text \<open>\<open>shows\<close> is the pair of \<open>str\<close> on a \<open>Decimal\<close> and on a \<open>datetime\<close>.\<close>

definition evidence_summary :: "(rat \<Rightarrow> string) \<times> (instant \<Rightarrow> string) \<Rightarrow> nat \<Rightarrow> caller_stats \<Rightarrow> string" where
  "evidence_summary shows hours d =
     ''Caller '' @ st_caller d @ '' made '' @ show_nat (st_calls d) @ '' calls ''
     @ ''to '' @ show_nat (st_unique d) @ '' unique destinations ''
     @ ''with average duration of '' @ fst shows (st_avg d) @ ''s ''
     @ ''in the last '' @ show_nat hours @ '' hours. ''
     @ ''First call: '' @ snd shows (st_first d) @ '', Last call: '' @ snd shows (st_last d) @ ''.''"

definition sdhf_alert :: "(rat \<Rightarrow> string) \<times> (instant \<Rightarrow> string) \<Rightarrow> nat \<Rightarrow> caller_stats \<Rightarrow> sentinel_alert" where
  "sdhf_alert shows hours d =
     \<lparr>sa_type = ''SDHF_SIMBOX'', sa_suspect = st_caller d,
      sa_severity = calculate_severity (st_unique d) (st_avg d) (st_calls d),
      sa_evidence = evidence_summary shows hours d, sa_call_count = st_calls d, sa_unique = st_unique d,
      sa_avg = st_avg d, sa_rule = ''SDHF_001''\<rparr>"

definition valid_alert :: "sentinel_alert \<Rightarrow> bool" where
  "valid_alert a \<longleftrightarrow> length (sa_type a) \<le> 50 \<and> length (sa_suspect a) \<le> 20 \<and> sa_severity a \<in> set severity_levels
     \<and> length (sa_rule a) \<le> 100"

text \<open>The row is inserted first; what the notification does to the hub, and that its exceptions are swallowed, is
  \<open>notify\<close>.\<close>

definition create_sdhf_alert ::
  "driver \<Rightarrow> (alert_entry \<Rightarrow> 'h \<Rightarrow> 'h) \<Rightarrow> instant \<Rightarrow> sentinel_alert \<Rightarrow> ('h \<times> sentinel_db, db_error, nat) eff" where
  "create_sdhf_alert D notify now a =
     eff_bind (on_world (insert_alert D now a)) (\<lambda>i.
     eff_then (on_self (notify \<lparr>ae_id = i, ae_alert = a, ae_created = now, ae_reviewed = False, ae_notes = None\<rparr>))
       (eff_return i))"

definition generate_sdhf_alerts ::
  "driver \<Rightarrow> (alert_entry \<Rightarrow> 'h \<Rightarrow> 'h) \<Rightarrow> (rat \<Rightarrow> string) \<times> (instant \<Rightarrow> string) \<Rightarrow> instant \<Rightarrow> nat \<Rightarrow> nat \<Rightarrow> rat \<Rightarrow>
   ('h \<times> sentinel_db, db_error, nat list) eff" where
  "generate_sdhf_alerts D notify shows now hours min_unique max_avg =
     eff_bind (eff_gets (\<lambda>s. detect_sdhf_patterns now hours min_unique max_avg (snd s))) (\<lambda>ds.
     eff_map (\<lambda>d. let a = sdhf_alert shows hours d in
       if valid_alert a then create_sdhf_alert D notify now a else eff_raise (Invalid_alert a)) ds)"

definition run_all_detections ::
  "driver \<Rightarrow> (alert_entry \<Rightarrow> 'h \<Rightarrow> 'h) \<Rightarrow> (rat \<Rightarrow> string) \<times> (instant \<Rightarrow> string) \<Rightarrow> instant \<Rightarrow>
   ('h \<times> sentinel_db, db_error, (string, nat list) dict) eff" where
  "run_all_detections D notify shows now =
     eff_bind (generate_sdhf_alerts D notify shows now 24 50 3) (\<lambda>ids. eff_return [(''SDHF'', ids)])"

record sdhf_response =
  sh_generated :: nat
  sh_ids :: "nat list"
  sh_suspects :: "string list"

definition detect_sdhf ::
  "driver \<Rightarrow> (alert_entry \<Rightarrow> 'h \<Rightarrow> 'h) \<Rightarrow> (rat \<Rightarrow> string) \<times> (instant \<Rightarrow> string) \<Rightarrow> instant \<Rightarrow> nat \<Rightarrow> nat \<Rightarrow> rat \<Rightarrow>
   'h \<times> sentinel_db \<Rightarrow> sdhf_response reply \<times> ('h \<times> sentinel_db)" where
  "detect_sdhf D notify shows now hours min_unique max_avg s =
     (if \<not> (1 \<le> hours \<and> hours \<le> 168 \<and> 1 \<le> min_unique \<and> 0 \<le> max_avg) then (Http_error 422, s)
      else
        case generate_sdhf_alerts D notify shows now hours min_unique max_avg s of
          (Inl _, s') \<Rightarrow> (Http_error 500, s')
        | (Inr ids, s') \<Rightarrow>
            (Reply \<lparr>sh_generated = length ids, sh_ids = ids,
               sh_suspects = (if ids = [] then []
                 else map (\<lambda>a. sa_suspect (ae_alert a)) (filter (\<lambda>a. ae_id a \<in> set ids) (sd_alerts (snd s'))))\<rparr>, s'))"


section \<open>Real-time events\<close>

text \<open>\<open>avg / 3.0\<close>: a \<open>Decimal\<close> divided by a \<open>float\<close> is a \<open>TypeError\<close>.\<close>

definition duration_risk :: "py_num \<Rightarrow> rat option" where
  "duration_risk avg = (case avg of Decimal _ \<Rightarrow> None | Float a \<Rightarrow> Some (max (1 - a / 3) 0 * (3 / 10)))"

definition is_positive :: "py_num \<Rightarrow> bool" where
  "is_positive avg = (case avg of Decimal a \<Rightarrow> a > 0 | Float a \<Rightarrow> a > 0)"

text \<open>The body of the \<open>try\<close>; \<open>None\<close> is its exception, which is answered with 0.5.\<close>

definition risk_of_activity :: "nat \<Rightarrow> py_num \<Rightarrow> nat \<Rightarrow> rat option" where
  "risk_of_activity unique avg count =
     (let destination = min (of_nat unique / 100) 1 * (1 / 2); frequency = min (of_nat count / 200) 1 * (1 / 5) in
      if is_positive avg
      then map_option (\<lambda>d. min (destination + d + frequency) 1) (duration_risk avg)
      else Some (min (destination + frequency) 1))"

definition calculate_risk_score :: "driver \<Rightarrow> instant \<Rightarrow> string \<Rightarrow> sentinel_db \<Rightarrow> rat" where
  "calculate_risk_score D now caller db =
     (let rs = calls_of caller (calls_since (now - 24 * 3600) (sd_calls db)) in
      if rs = [] then 0
      else case risk_of_activity (destinations rs) (reads_average D (average (map sr_duration rs))) (length rs) of
             Some x \<Rightarrow> x | None \<Rightarrow> 1 / 2)"

record realtime_event =
  ce_caller :: string
  ce_callee :: string
  ce_duration :: int
  ce_direction :: "string option"
  ce_timestamp :: string

record event_response =
  er_status :: string
  er_id :: string
  er_risk :: rat

definition utc_suffix :: "string \<Rightarrow> string" where
  "utc_suffix t = concat (map (\<lambda>c. if c = CHR ''Z'' then ''+00:00'' else [c]) t)"

text \<open>\<open>fromiso\<close> is \<open>datetime.fromisoformat\<close>; \<open>uuid\<close> the hexadecimal digits drawn for the event.\<close>

definition receive_call_event ::
  "(string \<Rightarrow> stamp option) \<Rightarrow> driver \<Rightarrow> instant \<Rightarrow> string \<Rightarrow> realtime_event \<Rightarrow> sentinel_db \<Rightarrow> event_response reply \<times> sentinel_db" where
  "receive_call_event fromiso D now uuid e db =
     (if \<not> (ce_duration e \<ge> 0 \<and> (ce_direction e = None \<or> ce_direction e = Some ''inbound'' \<or> ce_direction e = Some ''outbound''))
      then (Http_error 422, db)
      else case fromiso (utc_suffix (ce_timestamp e)) of
        None \<Rightarrow> (Http_error 400, db)
      | Some t \<Rightarrow>
          (let r = \<lparr>sr_stamp = t, sr_caller = ce_caller e, sr_callee = ce_callee e, sr_duration = ce_duration e,
                    sr_direction = ce_direction e, sr_cause = None, sr_location = None\<rparr> in
           if \<not> valid_record r then (Http_error 500, db)
           else case insert_call_records D [r] db of
             (Inl _, db') \<Rightarrow> (Http_error 500, db')
           | (Inr _, db') \<Rightarrow>
               (Reply \<lparr>er_status = ''accepted'', er_id = ''evt_'' @ take 12 uuid,
                  er_risk = py_round 2 (calculate_risk_score D now (ce_caller e) db')\<rparr>, db')))"


section \<open>Ingestion\<close>

lemma slices_Nil [simp]: "slices n [] = []"
  by (simp add: slices.simps)

lemma concat_slices: "n > 0 \<Longrightarrow> concat (slices n xs) = xs"
proof (induction n xs rule: slices.induct)
  case (1 n xs)
  then show ?case by (cases "xs = []") (simp_all add: slices.simps [of n xs])
qed

lemma slices_bounded: "n > 0 \<Longrightarrow> b \<in> set (slices n xs) \<Longrightarrow> b \<noteq> [] \<and> length b \<le> n"
proof (induction n xs rule: slices.induct)
  case (1 n xs)
  then show ?case by (cases "xs = []") (auto simp: slices.simps [of n xs])
qed

lemma dedup_loop_spec:
  "dedup_loop seen rs = (us, n) \<Longrightarrow>
     subseq us rs \<and> distinct (map record_key us) \<and> record_key ` set us = record_key ` set rs - set seen
     \<and> length us + n = length rs"
proof (induction seen rs arbitrary: us n rule: dedup_loop.induct)
  case (2 seen r rs)
  show ?case
  proof (cases "record_key r \<in> set seen")
    case True
    then obtain n0 where d: "dedup_loop seen rs = (us, n0)" "n = n0 + 1"
      using "2.prems" by (auto split: prod.splits)
    with "2.IH"(2) [of us n0] True show ?thesis by auto
  next
    case False
    then obtain us0 where d: "dedup_loop (record_key r # seen) rs = (us0, n)" "us = r # us0"
      using "2.prems" by (auto split: prod.splits)
    from "2.IH"(1) [OF False d(1)]
    have ih: "subseq us0 rs" "distinct (map record_key us0)" "length us0 + n = length rs"
      "record_key ` set us0 = record_key ` set rs - insert (record_key r) (set seen)" by auto
    have "record_key r \<notin> set (map record_key us0)" using ih(4) by simp
    then show ?thesis using ih False d(2) by auto
  qed
qed simp

lemma deduplicate_spec:
  assumes "deduplicate rs = (us, n)"
  shows "subseq us rs" "distinct (map record_key us)" "record_key ` set us = record_key ` set rs"
    "length us + n = length rs"
  using dedup_loop_spec [of "[]" rs us n] assms by (auto simp: deduplicate_def)

lemma insert_batch_cases:
  "insert_batch D b db = (q, db') \<Longrightarrow>
     (\<exists>e. q = Inl e \<and> db' = db) \<or> (q = Inr () \<and> db' = db\<lparr>sd_calls := sd_calls db @ b\<rparr>)"
  by (auto simp: insert_batch_def split: list.splits)

lemma insert_slices:
  assumes "eff_for (slices n rs) (insert_batch D) db = (q, db')" "n > 0"
  shows "\<exists>k. db' = db\<lparr>sd_calls := sd_calls db @ take (k * n) rs\<rparr> \<and> (\<forall>x. q = Inr x \<longrightarrow> length rs \<le> k * n)"
  using assms
proof (induction n rs arbitrary: db rule: slices.induct)
  case (1 n rs)
  show ?case
  proof (cases "rs = []")
    case True
    with 1 show ?thesis by (auto intro: exI [of _ 0])
  next
    case False
    with 1 have s: "slices n rs = take n rs # slices n (drop n rs)" by (simp add: slices.simps [of n rs])
    obtain q0 db0 where b: "insert_batch D (take n rs) db = (q0, db0)" by fastforce
    show ?thesis
    proof (cases q0)
      case (Inl e)
      with b s 1(2) insert_batch_cases [OF b] have "q = Inl e" "db' = db"
        by (auto simp: eff_then_fails)
      then show ?thesis by (intro exI [of _ 0]) simp
    next
      case (Inr u)
      with insert_batch_cases [OF b] have db0: "db0 = db\<lparr>sd_calls := sd_calls db @ take n rs\<rparr>" by simp
      have "eff_for (slices n (drop n rs)) (insert_batch D) db0 = (q, db')"
        using 1(2) b Inr unfolding s by (simp add: eff_then_def eff_bind_def)
      from "1.IH" [OF _ this] False 1(3) obtain k where
        k: "db' = db0\<lparr>sd_calls := sd_calls db0 @ take (k * n) (drop n rs)\<rparr>"
          "\<forall>x. q = Inr x \<longrightarrow> length (drop n rs) \<le> k * n" by auto
      have "db' = db\<lparr>sd_calls := sd_calls db @ take (Suc k * n) rs\<rparr>"
        using k(1) db0 take_add [of n "k * n" rs] by simp
      moreover have "\<forall>x. q = Inr x \<longrightarrow> length rs \<le> Suc k * n" using k(2) by auto
      ultimately show ?thesis by blast
    qed
  qed
qed

text \<open>What any call leaves in the table: whole batches, all of them when it returns.\<close>

lemma insert_call_records_cases:
  assumes "insert_call_records D rs db = (q, db')"
  shows "\<exists>k. db' = db\<lparr>sd_calls := sd_calls db @ take (k * batch_size) rs\<rparr>
    \<and> (\<forall>n. q = Inr n \<longrightarrow> n = length rs \<and> db' = db\<lparr>sd_calls := sd_calls db @ rs\<rparr>)"
proof (cases "rs = []")
  case True
  with assms show ?thesis by (auto simp: insert_call_records_def)
next
  case False
  obtain q0 db0 where f: "eff_for (slices batch_size rs) (insert_batch D) db = (q0, db0)" by fastforce
  have q: "q = (case q0 of Inl e \<Rightarrow> Inl e | Inr _ \<Rightarrow> Inr (length rs))" "db' = db0"
    using assms False f
    by (auto simp: insert_call_records_def eff_then_def eff_bind_def eff_return_def split: sum.splits)
  from insert_slices [OF f] obtain k where k: "db0 = db\<lparr>sd_calls := sd_calls db @ take (k * batch_size) rs\<rparr>"
    "\<forall>x. q0 = Inr x \<longrightarrow> length rs \<le> k * batch_size" by (auto simp: batch_size_def)
  with q show ?thesis by (intro exI [of _ k]) (auto split: sum.splits)
qed

lemma new_key_iff: "list_all (\<lambda>x. record_key x \<noteq> record_key r) xs \<longleftrightarrow> record_key r \<notin> record_key ` set xs"
  by (induction xs) auto

lemma image_filter_diff: "f ` {x \<in> A. f x \<notin> K} = f ` A - K"
  by auto

lemma check_duplicates_keys:
  "record_key ` set (check_duplicates db rs) = record_key ` set rs - record_key ` set (sd_calls db)"
  by (simp add: check_duplicates_def new_key_iff image_filter_diff)

lemma fresh_distinct: "distinct (map record_key rs) \<Longrightarrow> distinct (map record_key (check_duplicates db rs))"
  by (simp add: check_duplicates_def distinct_map_filter)

text \<open>The records of an upload that are new, in the order of the file.\<close>

definition fresh_records :: "sentinel_db \<Rightarrow> call_record list \<Rightarrow> call_record list" where
  "fresh_records db rs = check_duplicates db (fst (deduplicate rs))"

lemma fresh_records_spec:
  "subseq (fresh_records db rs) rs" "distinct (map record_key (fresh_records db rs))"
  "record_key ` set (fresh_records db rs) = record_key ` set rs - record_key ` set (sd_calls db)"
  "length (fresh_records db rs) \<le> length (fst (deduplicate rs))"
proof -
  obtain us n where d: "deduplicate rs = (us, n)" by fastforce
  note s = deduplicate_spec [OF d]
  show "subseq (fresh_records db rs) rs" using s(1) d
    by (auto simp: fresh_records_def check_duplicates_def intro: subseq_order.trans subseq_filter_left)
  show "distinct (map record_key (fresh_records db rs))" using s(2) d by (simp add: fresh_records_def fresh_distinct)
  show "record_key ` set (fresh_records db rs) = record_key ` set rs - record_key ` set (sd_calls db)"
    using s(3) d by (simp add: fresh_records_def check_duplicates_keys)
  show "length (fresh_records db rs) \<le> length (fst (deduplicate rs))"
    by (simp add: fresh_records_def check_duplicates_def)
qed

text \<open>Every outcome of an upload.\<close>

lemma ingest_cases:
  assumes "ingest_cdr decode strptime D elapsed filename content db = (reply, db')"
    and "parse_csv decode strptime content = (records, errors)"
  obtains (filetype) "\<not> endswith ''.csv'' filename" "reply = Http_error 400" "db' = db"
  | (unreadable) r where "endswith ''.csv'' filename" "records = []" "errors \<noteq> []" "reply = Reply r" "db' = db"
      "ir_status r = ''error''" "ir_processed r = 0" "ir_inserted r = 0" "ir_skipped r = 0" "ir_errors r = Some errors"
  | (failed) k where "reply = Http_error 500"
      "db' = db\<lparr>sd_calls := sd_calls db @ take (k * batch_size) (fresh_records db records)\<rparr>"
  | (stored) r where "endswith ''.csv'' filename" "reply = Reply r"
      "db' = db\<lparr>sd_calls := sd_calls db @ fresh_records db records\<rparr>"
      "ir_status r = (if fresh_records db records \<noteq> [] then ''success'' else ''partial'')"
      "ir_processed r = length records" "ir_inserted r = length (fresh_records db records)"
      "ir_inserted r + ir_skipped r = length records"
      "ir_errors r = (if errors = [] then None else Some errors)"
proof -
  obtain us n where d: "deduplicate records = (us, n)" by fastforce
  let ?f = "fresh_records db records"
  have f: "check_duplicates db us = ?f" by (simp add: fresh_records_def d)
  obtain q db1 where i: "insert_call_records D ?f db = (q, db1)" by fastforce
  from insert_call_records_cases [OF i] obtain k where
    k: "db1 = db\<lparr>sd_calls := sd_calls db @ take (k * batch_size) ?f\<rparr>"
      "\<And>m. q = Inr m \<Longrightarrow> m = length ?f \<and> db1 = db\<lparr>sd_calls := sd_calls db @ ?f\<rparr>" by auto
  have len: "length ?f + (n + (length us - length ?f)) = length records"
    using deduplicate_spec(4) [OF d] fresh_records_spec(4) [of db records] d by simp
  consider "\<not> endswith ''.csv'' filename" | "endswith ''.csv'' filename" "errors \<noteq> [] \<and> records = []"
    | e where "endswith ''.csv'' filename" "\<not> (errors \<noteq> [] \<and> records = [])" "q = Inl e"
    | m where "endswith ''.csv'' filename" "\<not> (errors \<noteq> [] \<and> records = [])" "q = Inr m"
    by (cases q) auto
  then show thesis
  proof cases
    case 1
    then have "ingest_cdr decode strptime D elapsed filename content db = (Http_error 400, db)"
      by (simp add: ingest_cdr_def)
    with assms 1 show thesis by (simp add: filetype)
  next
    case 2
    let ?r = "\<lparr>ir_status = ''error'', ir_processed = 0, ir_inserted = 0, ir_skipped = 0, ir_seconds = elapsed, ir_errors = Some errors\<rparr>"
    from 2 have "ingest_cdr decode strptime D elapsed filename content db = (Reply ?r, db)"
      by (simp add: ingest_cdr_def assms(2))
    with assms 2 show thesis by (intro unreadable [of ?r]) simp_all
  next
    case 3
    then have "ingest_cdr decode strptime D elapsed filename content db = (Http_error 500, db1)"
      using f d i by (auto simp: ingest_cdr_def assms(2) Let_def)
    with assms k(1) show thesis by (intro failed [of k]) simp_all
  next
    case 4
    let ?r = "\<lparr>ir_status = (if length ?f > 0 then ''success'' else ''partial''), ir_processed = length records, ir_inserted = length ?f,
      ir_skipped = n + (length us - length ?f), ir_seconds = py_round 2 elapsed, ir_errors = (if errors = [] then None else Some errors)\<rparr>"
    have m: "m = length ?f" "db1 = db\<lparr>sd_calls := sd_calls db @ ?f\<rparr>" using k(2) [OF 4(3)] by simp_all
    have "ingest_cdr decode strptime D elapsed filename content db = (Reply ?r, db1)"
      using 4 f d i m(1) by (auto simp: ingest_cdr_def assms(2) Let_def)
    with assms m(2) len 4 show thesis by (intro stored [of ?r]) simp_all
  qed
qed

text \<open>C4: An upload that is answered stores exactly the valid calls of the file that the table lacks, each once and in the
  order of the file, and its counts say so: what was processed is what was inserted and what was skipped.\<close>

theorem ingest_exact:
  assumes "ingest_cdr decode strptime D elapsed filename content db = (Reply r, db')"
    and "parse_csv decode strptime content = (records, errors)"
  shows "\<exists>new. db' = db\<lparr>sd_calls := sd_calls db @ new\<rparr> \<and> subseq new records \<and> distinct (map record_key new)
    \<and> record_key ` set new = record_key ` set records - record_key ` set (sd_calls db)
    \<and> ir_processed r = length records \<and> ir_inserted r = length new \<and> ir_processed r = ir_inserted r + ir_skipped r
    \<and> (ir_status r = ''success'' \<longleftrightarrow> new \<noteq> [])"
  using assms
proof (cases rule: ingest_cases)
  case (unreadable r)
  with assms show ?thesis by (intro exI [of _ "[]"]) auto
next
  case (stored r)
  with assms fresh_records_spec [of db records] show ?thesis
    by (intro exI [of _ "fresh_records db records"]) auto
qed auto

text \<open>A table with the records of a prefix of the new ones lacks the others.\<close>

lemma fresh_after_prefix:
  "fresh_records (db\<lparr>sd_calls := sd_calls db @ take k (fresh_records db rs)\<rparr>) rs = drop k (fresh_records db rs)"
proof -
  let ?f = "fresh_records db rs"
  have "fresh_records (db\<lparr>sd_calls := sd_calls db @ take k ?f\<rparr>) rs
      = filter (\<lambda>r. record_key r \<notin> set (map record_key (take k ?f))) ?f"
    by (simp add: fresh_records_def check_duplicates_def new_key_iff image_Un conj_commute)
  also have "\<dots> = filter (\<lambda>r. record_key r \<notin> set (map record_key (take k ?f))) (take k ?f @ drop k ?f)"
    by simp
  also have "\<dots> = drop k ?f"
  proof -
    have "distinct (map record_key (take k ?f) @ map record_key (drop k ?f))"
      using fresh_records_spec(2) [of db rs] by (metis append_take_drop_id map_append)
    then have "\<forall>r\<in>set (drop k ?f). record_key r \<notin> set (map record_key (take k ?f))" by auto
    then have "filter (\<lambda>r. record_key r \<notin> set (map record_key (take k ?f))) (drop k ?f) = drop k ?f"
      by (simp add: filter_id_conv)
    moreover have "filter (\<lambda>r. record_key r \<notin> set (map record_key (take k ?f))) (take k ?f) = []"
      by (auto simp: filter_empty_conv)
    ultimately show ?thesis by (simp only: filter_append append_Nil)
  qed
  finally show ?thesis .
qed

text \<open>Uploading a file again is safe. After an upload that was answered, the same file stores nothing, whatever the driver
  refuses; after one that failed half way, a later upload of the same file that is answered leaves exactly the table that
  the first would have left, had it been answered.\<close>

theorem ingest_again:
  assumes "ingest_cdr decode strptime D elapsed filename content db = (reply, db1)"
    and "ingest_cdr decode strptime D2 elapsed2 filename2 content db1 = (Reply r2, db2)"
    and "endswith ''.csv'' filename"
  shows "db2 = db\<lparr>sd_calls := sd_calls db @ fresh_records db (fst (parse_csv decode strptime content))\<rparr>
    \<and> (\<forall>r1. reply = Reply r1 \<longrightarrow> db2 = db1 \<and> ir_inserted r2 = 0)"
proof -
  obtain records errors where p: "parse_csv decode strptime content = (records, errors)" by fastforce
  let ?f = "fresh_records db records"
  have second: "db2 = db1\<lparr>sd_calls := sd_calls db1 @ fresh_records db1 records\<rparr> \<and> ir_inserted r2 = length (fresh_records db1 records)"
    using assms(2) p
  proof (cases rule: ingest_cases)
    case (unreadable r)
    then show ?thesis by (simp add: fresh_records_def deduplicate_def check_duplicates_def)
  qed auto
  have first: "\<exists>k. db1 = db\<lparr>sd_calls := sd_calls db @ take k ?f\<rparr> \<and> ((\<exists>r1. reply = Reply r1) \<longrightarrow> length ?f \<le> k)"
    using assms(1) p
  proof (cases rule: ingest_cases)
    case (unreadable r)
    then show ?thesis by (intro exI [of _ "0"]) (simp add: fresh_records_def deduplicate_def check_duplicates_def)
  next
    case (failed k)
    then show ?thesis by (intro exI [of _ "k * batch_size"]) simp
  next
    case (stored r)
    then show ?thesis by (intro exI [of _ "length ?f"]) simp
  qed (use assms(3) in auto)
  then obtain k where k: "db1 = db\<lparr>sd_calls := sd_calls db @ take k ?f\<rparr>" "(\<exists>r1. reply = Reply r1) \<longrightarrow> length ?f \<le> k"
    by blast
  have "fresh_records db1 records = drop k ?f" unfolding k(1) by (rule fresh_after_prefix)
  with second k show ?thesis by (auto simp: p)
qed

text \<open>A file of three calls, the second a copy of the first, into an empty table.\<close>

definition sample_file :: string where
  "sample_file = concat (map plain_line
     [required_fields,
      [''2026-01-01'', ''10:00:00'', ''+2348012345678'', ''+2348012345679'', ''3''],
      [''2026-01-01'', ''10:00:00'', ''+2348012345678'', ''+2348012345679'', ''3''],
      [''2026-01-01'', ''10:00:05'', ''+2348012345678'', ''2348012345670'', ''12'']])"

definition sample_time :: "string \<Rightarrow> instant option" where
  "sample_time s = (if length s = 19 then Some (of_nat (digits_value (drop 17 s))) else None)"

definition sample_driver :: driver where
  "sample_driver = \<lparr>accepts_call = (\<lambda>_. True), accepts_alert = (\<lambda>_. True), reads_average = Decimal\<rparr>"

definition empty_tables :: sentinel_db where
  "empty_tables = \<lparr>sd_calls = [], sd_alerts = [], sd_next_id = 1\<rparr>"

definition sample_record :: "instant \<Rightarrow> string \<Rightarrow> int \<Rightarrow> call_record" where
  "sample_record t callee n = \<lparr>sr_stamp = Naive t, sr_caller = ''+2348012345678'', sr_callee = callee, sr_duration = n,
     sr_direction = None, sr_cause = None, sr_location = None\<rparr>"

definition sample_tables :: sentinel_db where
  "sample_tables = \<lparr>sd_calls = [sample_record 0 ''+2348012345679'' 3, sample_record 5 ''2348012345670'' 12],
     sd_alerts = [], sd_next_id = 1\<rparr>"

lemma sample_ingest:
  "ingest_cdr Inr sample_time sample_driver 1 ''a.csv'' sample_file empty_tables
     = (Reply \<lparr>ir_status = ''success'', ir_processed = 3, ir_inserted = 2, ir_skipped = 1, ir_seconds = 1, ir_errors = None\<rparr>, sample_tables)"
  by code_simp

theorem ingest_exact_witness:
  "\<exists>new. sample_tables = empty_tables\<lparr>sd_calls := sd_calls empty_tables @ new\<rparr> \<and> length new = 2 \<and> distinct (map record_key new)"
  using ingest_exact [OF sample_ingest, of "fst (parse_csv Inr sample_time sample_file)" "snd (parse_csv Inr sample_time sample_file)"]
  by auto

text \<open>The first upload is refused as a whole, since its second call is; the second upload is answered.\<close>

definition refusing_driver :: driver where
  "refusing_driver = sample_driver\<lparr>accepts_call := (\<lambda>r. sr_duration r < 10)\<rparr>"

lemma sample_refused:
  "ingest_cdr Inr sample_time refusing_driver 1 ''a.csv'' sample_file empty_tables = (Http_error 500, empty_tables)"
  by code_simp

theorem ingest_again_witness:
  "sample_tables = empty_tables\<lparr>sd_calls := sd_calls empty_tables
     @ fresh_records empty_tables (fst (parse_csv Inr sample_time sample_file))\<rparr>"
proof -
  have "endswith ''.csv'' ''a.csv''" by code_simp
  from ingest_again [OF sample_refused sample_ingest this] show ?thesis by simp
qed


section \<open>Files read back\<close>

lemma digit_plain: "is_digit c \<Longrightarrow> plain_char c"
  by (auto simp: is_digit_def plain_char_def newline_char_def char_code_def)

lemma is_e164_plain:
  assumes "is_e164 v" "py_strip v = v"
  shows "list_all plain_char v" "v \<noteq> []"
proof -
  let ?w = "case v of c # cs \<Rightarrow> if c = CHR ''+'' then cs else v | [] \<Rightarrow> []"
  let ?ds = "takeWhile is_digit ?w" and ?rest = "dropWhile is_digit ?w"
  have e: "?ds \<noteq> []" "?rest = [] \<or> ?rest = [CHR 0x0A]" using assms(1) by (auto simp: is_e164_def Let_def)
  show ne: "v \<noteq> []" using e(1) by auto
  have w: "v = ?w \<or> v = CHR ''+'' # ?w" by (cases v) auto
  have split: "?w = ?ds @ ?rest" by simp
  have "?rest \<noteq> [CHR 0x0A]"
  proof
    assume "?rest = [CHR 0x0A]"
    then have "?w = ?ds @ [CHR 0x0A]" using split by simp
    then have "last v = CHR 0x0A" using w by (metis last_ConsR last_snoc snoc_eq_iff_butlast)
    moreover have "\<not> is_space (last v)" using py_strip_ends [of v] assms(2) ne by simp
    moreover have "is_space (CHR 0x0A)" by code_simp
    ultimately show False by simp
  qed
  then have "?rest = []" using e(2) by blast
  then have "?w = ?ds" using split by (metis append_Nil2)
  then have "list_all is_digit ?w" by (metis list_all_iff set_takeWhileD)
  then have "list_all plain_char ?w" by (auto simp: list_all_iff intro: digit_plain)
  moreover have "plain_char (CHR ''+'')" by code_simp
  ultimately have "list_all plain_char ?w" "list_all plain_char (CHR ''+'' # ?w)" by simp_all
  with w show "list_all plain_char v" by metis
qed

lemma show_nat_underscore: "CHR ''_'' \<notin> set (show_nat n)"
proof
  assume "CHR ''_'' \<in> set (show_nat n)"
  then have "is_digit (CHR ''_'')" using show_nat_digits [of n] by (auto simp: list_all_iff)
  then show False by (simp add: is_digit_def char_code_def)
qed

lemma py_strip_digits: "list_all is_digit s \<Longrightarrow> py_strip s = s"
  by (rule py_strip_id) (auto simp: list_all_iff dest: is_digit_not_space)

lemma py_int_show: "n \<ge> 0 \<Longrightarrow> py_int (show_nat (nat n)) = Some n"
proof -
  assume n: "n \<ge> 0"
  let ?s = "show_nat (nat n)"
  have d: "list_all is_digit ?s" by (rule show_nat_digits)
  then have strip: "py_strip ?s = ?s" by (rule py_strip_digits)
  obtain c cs where s: "?s = c # cs" by (cases ?s) auto
  then have "is_digit c" using d by simp
  then have "c \<noteq> CHR ''-''" "c \<noteq> CHR ''+''" by (auto simp: is_digit_def char_code_def)
  then have "py_int ?s = map_option (\<lambda>ds. 1 * int (digits_value ds)) (digit_groups (split_on (CHR ''_'') ?s))"
    unfolding py_int_def Let_def strip by (simp add: s)
  also have "\<dots> = Some n"
    unfolding split_on_absent [OF show_nat_underscore] using d n by (simp add: digits_value_show)
  finally show ?thesis .
qed

text \<open>A record as a row of the file, its date and its time given by \<open>day\<close> and \<open>clock\<close>.\<close>

definition or_empty :: "string option \<Rightarrow> string" where
  "or_empty v = (case v of None \<Rightarrow> [] | Some s \<Rightarrow> s)"

definition record_row :: "(instant \<Rightarrow> string) \<Rightarrow> (instant \<Rightarrow> string) \<Rightarrow> call_record \<Rightarrow> string list" where
  "record_row day clock r =
     [day (stamp_instant (sr_stamp r)), clock (stamp_instant (sr_stamp r)), sr_caller r, sr_callee r,
      show_nat (nat (sr_duration r)), or_empty (sr_direction r), or_empty (sr_cause r), or_empty (sr_location r)]"

definition full_header :: "string list" where
  "full_header = required_fields @ [''call_direction'', ''termination_cause'', ''location_code'']"

definition tidy :: "string \<Rightarrow> bool" where
  "tidy s \<longleftrightarrow> list_all plain_char s \<and> py_strip s = s"

definition tidy_option :: "string option \<Rightarrow> bool" where
  "tidy_option v \<longleftrightarrow> (case v of None \<Rightarrow> True | Some s \<Rightarrow> tidy s \<and> s \<noteq> [])"

text \<open>A valid record without quotes, commas, line ends or outer white space in its texts, whose date and time are read back.\<close>

definition printable :: "(string \<Rightarrow> instant option) \<Rightarrow> (instant \<Rightarrow> string) \<Rightarrow> (instant \<Rightarrow> string) \<Rightarrow> call_record \<Rightarrow> bool" where
  "printable strptime day clock r \<longleftrightarrow> valid_record r \<and> py_strip (sr_caller r) = sr_caller r \<and> py_strip (sr_callee r) = sr_callee r
     \<and> tidy_option (sr_direction r) \<and> tidy_option (sr_cause r) \<and> tidy_option (sr_location r)
     \<and> (case sr_stamp r of Naive i \<Rightarrow> tidy (day i) \<and> tidy (clock i) \<and> strptime (day i @ '' '' @ clock i) = Some i | Aware _ \<Rightarrow> False)"

lemma printable_plain: "printable strptime day clock r \<Longrightarrow> plain_row (record_row day clock r)"
proof -
  assume p: "printable strptime day clock r"
  have n: "list_all plain_char (sr_caller r)" "list_all plain_char (sr_callee r)"
    using p by (auto simp: printable_def valid_record_def valid_number_def intro: is_e164_plain)
  have d: "list_all plain_char (show_nat k)" for k
    using show_nat_digits [of k] digit_plain by (auto simp: list_all_iff)
  have o: "tidy_option v \<Longrightarrow> list_all plain_char (or_empty v)" for v
    by (auto simp: tidy_option_def tidy_def or_empty_def split: option.splits)
  show ?thesis using p n d o
    by (auto simp: printable_def plain_row_def record_row_def tidy_def stamp_instant_def split: stamp.splits)
qed

lemma optional_field_empty:
  "dict_get row k = Some (Some (or_empty v)) \<Longrightarrow> tidy_option v \<Longrightarrow> optional_field row k = Inr v"
  by (cases v) (auto simp: optional_field_def or_empty_def tidy_option_def tidy_def py_strip_def)

text \<open>A row whose fields are those of a printable record, whatever the columns of the file.\<close>

lemma parse_row_fields:
  assumes p: "printable strptime day clock r"
    and g: "dict_get row ''call_date'' = Some (Some (day (stamp_instant (sr_stamp r))))"
      "dict_get row ''call_time'' = Some (Some (clock (stamp_instant (sr_stamp r))))"
      "dict_get row ''caller_number'' = Some (Some (sr_caller r))" "dict_get row ''callee_number'' = Some (Some (sr_callee r))"
      "dict_get row ''duration_seconds'' = Some (Some (show_nat (nat (sr_duration r))))"
    and o: "optional_field row ''call_direction'' = Inr (sr_direction r)" "optional_field row ''termination_cause'' = Inr (sr_cause r)"
      "optional_field row ''location_code'' = Inr (sr_location r)"
  shows "parse_row strptime row = Inr r"
proof -
  obtain i where i: "sr_stamp r = Naive i" "tidy (day i)" "tidy (clock i)" "strptime (day i @ '' '' @ clock i) = Some i"
    using p by (auto simp: printable_def split: stamp.splits)
  have v: "valid_record r" "py_strip (sr_caller r) = sr_caller r" "py_strip (sr_callee r) = sr_callee r"
    using p by (simp_all add: printable_def)
  have n: "sr_duration r \<ge> 0" using v(1) by (simp add: valid_record_def)
  have s: "stripped row ''call_date'' = Inr (day i)" "stripped row ''call_time'' = Inr (clock i)"
    "stripped row ''caller_number'' = Inr (sr_caller r)" "stripped row ''callee_number'' = Inr (sr_callee r)"
    using i v by (simp_all add: stripped_def g tidy_def stamp_instant_def)
  have d: "parse_duration row = Inr (sr_duration r)"
    by (simp add: parse_duration_def g py_int_show [OF n])
  have r: "\<lparr>sr_stamp = Naive i, sr_caller = sr_caller r, sr_callee = sr_callee r, sr_duration = sr_duration r,
    sr_direction = sr_direction r, sr_cause = sr_cause r, sr_location = sr_location r\<rparr> = r"
    using i(1) by simp
  show ?thesis
    unfolding parse_row_def s d o bind_row_def sum.case parse_timestamp_def i(4) option.case Let_def r
    using v(1) by simp
qed

lemma parse_row_printed:
  assumes "printable strptime day clock r"
  shows "parse_row strptime (dict_row full_header (record_row day clock r) []) = Inr r"
proof -
  have t: "tidy_option (sr_direction r)" "tidy_option (sr_cause r)" "tidy_option (sr_location r)"
    using assms by (simp_all add: printable_def)
  show ?thesis
    by (rule parse_row_fields [OF assms])
      (use t in \<open>simp_all add: optional_field_empty full_header_def required_fields_def record_row_def\<close>)
qed

lemma parse_rows_ok:
  "(\<And>r. r \<in> set rs \<Longrightarrow> parse_row strptime (dict_row h (f r) []) = Inr r) \<Longrightarrow>
     parse_rows strptime n (map (\<lambda>r. dict_row h (f r) []) rs) = (rs, [])"
  by (induction rs arbitrary: n) simp_all

lemma parse_csv_printed:
  assumes h: "plain_row h" "validate_headers (Some h) = []"
    and rows: "\<And>r. r \<in> set rs \<Longrightarrow> plain_row (f r)" "\<And>r. r \<in> set rs \<Longrightarrow> parse_row strptime (dict_row h (f r) []) = Inr r"
    and decode: "decode content = Inr (concat (map plain_line (h # map f rs)))"
  shows "parse_csv decode strptime content = (rs, [])"
proof -
  have "list_all plain_row (h # map f rs)" using h(1) rows(1) by (auto simp: list_all_iff)
  then have parse: "csv_parse (concat (map plain_line (h # map f rs))) = (h # map f rs, None)"
    by (rule csv_parse_plain)
  have ne: "filter (\<lambda>r. r \<noteq> []) (map f rs) = map f rs"
    using rows(1) by (auto simp: filter_id_conv plain_row_def)
  have read: "dict_reader (concat (map plain_line (h # map f rs))) = (Some h, map (\<lambda>r. dict_row h (f r) []) rs, None)"
    unfolding dict_reader_def parse by (simp only: prod.case list.case ne map_map comp_def)
  have p: "parse_rows strptime 2 (map (\<lambda>r. dict_row h (f r) []) rs) = (rs, [])"
    using rows(2) by (rule parse_rows_ok)
  show ?thesis unfolding parse_csv_def decode sum.case read prod.case option.case h(2) by (simp add: p)
qed

text \<open>C15: A file written from valid records is read back: with a header of all the columns, one plain row for each record
  and dates that \<open>strptime\<close> reads, the parser returns the records in their order and no error.\<close>

theorem csv_roundtrip:
  assumes "list_all (printable strptime day clock) rs"
    and "decode content = Inr (concat (map plain_line (full_header # map (record_row day clock) rs)))"
  shows "parse_csv decode strptime content = (rs, [])"
proof (rule parse_csv_printed [where f = "record_row day clock" and h = full_header])
  show "decode content = Inr (concat (map plain_line (full_header # map (record_row day clock) rs)))" by (rule assms(2))
  show "plain_row full_header" by code_simp
  show "validate_headers (Some full_header) = []" by code_simp
  fix r assume "r \<in> set rs"
  then have "printable strptime day clock r" using assms(1) by (auto simp: list_all_iff)
  then show "plain_row (record_row day clock r)" "parse_row strptime (dict_row full_header (record_row day clock r) []) = Inr r"
    by (rule printable_plain, rule parse_row_printed)
qed

theorem csv_roundtrip_witness:
  "parse_csv Inr (\<lambda>s. Some 7) (concat (map plain_line
     (full_header # map (record_row (\<lambda>_. ''2026-01-01'') (\<lambda>_. ''00:00:07'')) [sample_record 7 ''+2348012345679'' 3])))
   = ([sample_record 7 ''+2348012345679'' 3], [])"
proof -
  have "list_all (printable (\<lambda>s. Some 7) (\<lambda>_. ''2026-01-01'') (\<lambda>_. ''00:00:07'')) [sample_record 7 ''+2348012345679'' 3]"
    by code_simp
  from csv_roundtrip [OF this] show ?thesis by simp
qed


section \<open>Detection\<close>

lemma create_sdhf_alert_InrD:
  "create_sdhf_alert D notify now a (h, db) = (Inr i, s') \<Longrightarrow>
     i = sd_next_id db
     \<and> fst s' = notify \<lparr>ae_id = i, ae_alert = a, ae_created = now, ae_reviewed = False, ae_notes = None\<rparr> h
     \<and> snd s' = db\<lparr>sd_alerts := sd_alerts db @ [\<lparr>ae_id = i, ae_alert = a, ae_created = now, ae_reviewed = False, ae_notes = None\<rparr>],
                    sd_next_id := i + 1\<rparr>"
  by (auto simp: create_sdhf_alert_def eff_defs insert_alert_def split: if_splits)

definition new_entries :: "nat \<Rightarrow> instant \<Rightarrow> sentinel_alert list \<Rightarrow> alert_entry list" where
  "new_entries n now as = map (\<lambda>(i, a). \<lparr>ae_id = i, ae_alert = a, ae_created = now, ae_reviewed = False, ae_notes = None\<rparr>)
     (zip [n..<n + length as] as)"

lemma new_entries_Nil [simp]: "new_entries n now [] = []"
  by (simp add: new_entries_def)

lemma new_entries_Cons:
  "new_entries n now (a # as) = \<lparr>ae_id = n, ae_alert = a, ae_created = now, ae_reviewed = False, ae_notes = None\<rparr> # new_entries (n + 1) now as"
  by (simp add: new_entries_def upt_conv_Cons del: upt_Suc)

lemma new_entries_alerts [simp]: "map ae_alert (new_entries n now as) = as"
  by (induction as arbitrary: n) (simp_all add: new_entries_Cons)

lemma new_entries_ids [simp]: "map ae_id (new_entries n now as) = [n..<n + length as]"
  by (induction as arbitrary: n) (simp_all add: new_entries_Cons upt_conv_Cons del: upt_Suc)

lemma create_all:
  "eff_map (\<lambda>d. let a = sdhf_alert shows hours d in
      if valid_alert a then create_sdhf_alert D notify now a else eff_raise (Invalid_alert a)) ds (h, db) = (Inr ids, s') \<Longrightarrow>
   (let new = new_entries (sd_next_id db) now (map (sdhf_alert shows hours) ds) in
    ids = map ae_id new \<and> fst s' = fold notify new h \<and> list_all valid_alert (map (sdhf_alert shows hours) ds)
    \<and> snd s' = db\<lparr>sd_alerts := sd_alerts db @ new, sd_next_id := sd_next_id db + length ds\<rparr>)"
proof (induction ds arbitrary: h db ids)
  case (Cons d ds)
  let ?a = "sdhf_alert shows hours d"
  have v: "valid_alert ?a" using Cons.prems by (auto simp: Let_def eff_bind_Inr_iff split: if_splits)
  from Cons.prems obtain i s1 is' where c: "create_sdhf_alert D notify now ?a (h, db) = (Inr i, s1)" and
    m: "eff_map (\<lambda>d. let a = sdhf_alert shows hours d in
      if valid_alert a then create_sdhf_alert D notify now a else eff_raise (Invalid_alert a)) ds s1 = (Inr is', s')" and
    ids: "ids = i # is'"
    using v by (auto simp: Let_def eff_bind_Inr_iff)
  note c' = create_sdhf_alert_InrD [OF c]
  obtain h1 db1 where s1: "s1 = (h1, db1)" by fastforce
  from Cons.IH [OF m [unfolded s1]] c' ids v s1 show ?case
    by (simp add: Let_def new_entries_Cons)
qed simp

text \<open>The callers the query finds, and what it reports of each.\<close>

definition is_suspect :: "nat \<Rightarrow> rat \<Rightarrow> call_record list \<Rightarrow> string \<Rightarrow> bool" where
  "is_suspect min_unique max_avg rows c \<longleftrightarrow>
     destinations (calls_of c rows) > min_unique \<and> average (map sr_duration (calls_of c rows)) < max_avg"

lemma stats_of_caller_fields [simp]:
  "st_caller (stats_of_caller rows c) = c" "st_calls (stats_of_caller rows c) = length (calls_of c rows)"
  "st_unique (stats_of_caller rows c) = destinations (calls_of c rows)"
  "st_avg (stats_of_caller rows c) = average (map sr_duration (calls_of c rows))"
  by (simp_all add: stats_of_caller_def Let_def)

lemma sort_key_map_distinct:
  "distinct (map f (sort_key g xs)) \<longleftrightarrow> distinct (map f xs)"
  by (metis distinct_map distinct_sort inj_on_def set_sort)

lemma detect_spec:
  fixes db :: sentinel_db and now :: instant and hours :: nat and min_unique :: nat and max_avg :: rat
  defines "rows \<equiv> calls_since (now - of_nat hours * 3600) (sd_calls db)"
  defines "ds \<equiv> detect_sdhf_patterns now hours min_unique max_avg db"
  shows "distinct (map st_caller ds)" "set (map st_caller ds) = {c. is_suspect min_unique max_avg rows c}"
    "sorted_wrt (\<lambda>d e. st_unique d \<ge> st_unique e) ds"
    "\<forall>d\<in>set ds. \<exists>c. d = (stats_of_caller rows c)\<lparr>st_avg := sql_round2 (average (map sr_duration (calls_of c rows)))\<rparr>"
proof -
  let ?g = "\<lambda>c. (stats_of_caller rows c)\<lparr>st_avg := sql_round2 (average (map sr_duration (calls_of c rows)))\<rparr>"
  let ?cs = "filter (is_suspect min_unique max_avg rows) (remdups (map sr_caller rows))"
  have ds: "ds = sort_key (\<lambda>g. - int (st_unique g)) (sort_key st_avg (map ?g ?cs))"
    by (simp add: ds_def rows_def detect_sdhf_patterns_def Let_def filter_map comp_def is_suspect_def [abs_def])
  have callers: "map st_caller (map ?g ?cs) = ?cs" by (simp add: comp_def)
  have dist: "distinct (map st_caller (map ?g ?cs))" unfolding callers by simp
  then show "distinct (map st_caller ds)" unfolding ds sort_key_map_distinct .
  have "set (map st_caller ds) = set (map st_caller (map ?g ?cs))" by (simp add: ds image_image)
  also have "\<dots> = set ?cs" unfolding callers ..
  also have "\<dots> = {c. is_suspect min_unique max_avg rows c}"
  proof -
    have "c \<in> sr_caller ` set rows" if "is_suspect min_unique max_avg rows c" for c
    proof (rule ccontr)
      assume "c \<notin> sr_caller ` set rows"
      then have "calls_of c rows = []" by (auto simp: calls_of_def filter_empty_conv)
      with that show False by (simp add: is_suspect_def destinations_def)
    qed
    then show ?thesis by auto
  qed
  finally show "set (map st_caller ds) = {c. is_suspect min_unique max_avg rows c}" .
  have "sorted (map (\<lambda>g. - int (st_unique g)) ds)" unfolding ds by (rule sorted_sort_key)
  then show "sorted_wrt (\<lambda>d e. st_unique d \<ge> st_unique e) ds"
    by (simp add: sorted_map)
  show "\<forall>d\<in>set ds. \<exists>c. d = ?g c" unfolding ds by auto
qed

lemma valid_fixed: "valid_alert (sdhf_alert shows hours d) \<longleftrightarrow> length (st_caller d) \<le> 20"
proof -
  have "calculate_severity u a n \<in> set severity_levels" for u a n
    by (simp add: calculate_severity_def severity_levels_def)
  then show ?thesis by (simp add: valid_alert_def sdhf_alert_def)
qed

text \<open>C6: A detection run that returns adds to the alerts exactly one for each caller of the window with more different
  destinations than the minimum and a shorter average call than the maximum, those with the most destinations first; it
  numbers them consecutively, notifies the hub of each in that order and leaves the call records alone.\<close>

theorem sdhf_alerts_exact:
  assumes "generate_sdhf_alerts D notify shows now hours min_unique max_avg (h, db) = (Inr ids, (h', db'))"
    and "rows = calls_since (now - of_nat hours * 3600) (sd_calls db)"
  shows "\<exists>new. sd_alerts db' = sd_alerts db @ new \<and> sd_calls db' = sd_calls db \<and> h' = fold notify new h
    \<and> ids = map ae_id new \<and> ids = [sd_next_id db..<sd_next_id db'] \<and> distinct (map (sa_suspect \<circ> ae_alert) new)
    \<and> set (map (sa_suspect \<circ> ae_alert) new)
        = {c. destinations (calls_of c rows) > min_unique \<and> average (map sr_duration (calls_of c rows)) < max_avg}
    \<and> sorted_wrt (\<lambda>a b. sa_unique (ae_alert a) \<ge> sa_unique (ae_alert b)) new
    \<and> (\<forall>a\<in>set new. \<not> ae_reviewed a \<and> ae_created a = now
         \<and> sa_call_count (ae_alert a) = length (calls_of (sa_suspect (ae_alert a)) rows)
         \<and> sa_unique (ae_alert a) = destinations (calls_of (sa_suspect (ae_alert a)) rows))"
proof -
  let ?ds = "detect_sdhf_patterns now hours min_unique max_avg db"
  let ?as = "map (sdhf_alert shows hours) ?ds"
  let ?new = "new_entries (sd_next_id db) now ?as"
  note spec = detect_spec [of now hours min_unique max_avg db, folded assms(2)]
  have run: "ids = map ae_id ?new" "h' = fold notify ?new h"
    "db' = db\<lparr>sd_alerts := sd_alerts db @ ?new, sd_next_id := sd_next_id db + length ?ds\<rparr>"
    using create_all [of "shows" hours D notify now ?ds h db ids "(h', db')"] assms(1)
    by (auto simp: generate_sdhf_alerts_def Let_def eff_bind_def eff_gets_def)
  have field: "map (f \<circ> ae_alert) ?new = map (\<lambda>d. f (sdhf_alert shows hours d)) ?ds" for f :: "sentinel_alert \<Rightarrow> 'z"
  proof -
    have "map (f \<circ> ae_alert) ?new = map f (map ae_alert ?new)" by (simp only: map_map)
    then show ?thesis unfolding new_entries_alerts by (simp add: comp_def)
  qed
  have suspects: "map (sa_suspect \<circ> ae_alert) ?new = map st_caller ?ds"
    unfolding field by (simp add: sdhf_alert_def)
  have order: "sorted_wrt (\<lambda>a b. sa_unique (ae_alert a) \<ge> sa_unique (ae_alert b)) ?new"
  proof -
    have "sorted_wrt (\<ge>) (map (sa_unique \<circ> ae_alert) ?new)"
      unfolding field using spec(3) by (simp add: sdhf_alert_def sorted_wrt_map)
    then show ?thesis by (simp add: sorted_wrt_map)
  qed
  have each: "\<not> ae_reviewed a \<and> ae_created a = now \<and> sa_call_count (ae_alert a) = length (calls_of (sa_suspect (ae_alert a)) rows)
      \<and> sa_unique (ae_alert a) = destinations (calls_of (sa_suspect (ae_alert a)) rows)" if "a \<in> set ?new" for a
  proof -
    have a: "\<not> ae_reviewed a" "ae_created a = now" using that by (auto simp: new_entries_def)
    have "ae_alert a \<in> set ?as" using that new_entries_alerts [of "sd_next_id db" now ?as] by (metis image_eqI set_map)
    then obtain d where d: "d \<in> set ?ds" "ae_alert a = sdhf_alert shows hours d" by auto
    with spec(4) obtain c where "d = (stats_of_caller rows c)\<lparr>st_avg := sql_round2 (average (map sr_duration (calls_of c rows)))\<rparr>"
      by blast
    with a d(2) show ?thesis by (simp add: sdhf_alert_def)
  qed
  show ?thesis
    using run suspects spec(1,2) order each
    by (intro exI [of _ ?new]) (simp add: is_suspect_def)
qed

lemma sample_detection:
  "generate_sdhf_alerts sample_driver (#) ((\<lambda>_. []), (\<lambda>_. [])) 10 24 1 8 ([], sample_tables)
     = (Inr [1], (sd_alerts (snd (snd (generate_sdhf_alerts sample_driver (#) ((\<lambda>_. []), (\<lambda>_. [])) 10 24 1 8 ([], sample_tables)))),
          snd (snd (generate_sdhf_alerts sample_driver (#) ((\<lambda>_. []), (\<lambda>_. [])) 10 24 1 8 ([], sample_tables)))))"
  by code_simp

theorem sdhf_alerts_exact_witness:
  "\<exists>new :: alert_entry list. [1] = map ae_id new \<and> set (map (sa_suspect \<circ> ae_alert) new)
     = {c. destinations (calls_of c (calls_since (10 - of_nat 24 * 3600) (sd_calls sample_tables))) > 1
         \<and> average (map sr_duration (calls_of c (calls_since (10 - of_nat 24 * 3600) (sd_calls sample_tables)))) < 8}"
proof -
  from sdhf_alerts_exact [OF sample_detection refl] obtain new :: "alert_entry list" where
    "[1] = map ae_id new" and
    "set (map (sa_suspect \<circ> ae_alert) new)
       = {c. destinations (calls_of c (calls_since (10 - of_nat 24 * 3600) (sd_calls sample_tables))) > 1
           \<and> average (map sr_duration (calls_of c (calls_since (10 - of_nat 24 * 3600) (sd_calls sample_tables)))) < 8}"
    by (elim exE conjE) (erule that, assumption)
  then show ?thesis by (intro exI conjI)
qed

definition severity_rank :: "string \<Rightarrow> nat" where
  "severity_rank s = (if s = ''LOW'' then 0 else if s = ''MEDIUM'' then 1 else if s = ''HIGH'' then 2 else 3)"

text \<open>A suspect with at least as many destinations and calls no longer on average is never rated lower, and no
  detection is rated low.\<close>

theorem severity_monotone:
  assumes "u \<le> u'" "a' \<le> a"
  shows "severity_rank (calculate_severity u a n) \<le> severity_rank (calculate_severity u' a' n')
    \<and> calculate_severity u a n \<noteq> ''LOW''"
  using assms by (auto simp: calculate_severity_def severity_rank_def)

theorem severity_monotone_witness:
  "severity_rank (calculate_severity 80 2 90) \<le> severity_rank (calculate_severity 200 1 300) \<and> calculate_severity 80 2 90 \<noteq> ''LOW''"
  using severity_monotone [of 80 200 1 2 90 300] by simp


section \<open>Risk\<close>

lemma duration_risk_nonneg: "duration_risk avg = Some d \<Longrightarrow> 0 \<le> d"
proof (cases avg)
  case (Float a)
  assume "duration_risk avg = Some d"
  then have d: "d = max (1 - a / 3) 0 * (3 / 10)" using Float by (simp add: duration_risk_def)
  show ?thesis unfolding d by simp
qed (simp add: duration_risk_def)

lemma risk_of_activity_bounds:
  assumes "risk_of_activity u avg n = Some x"
  shows "0 \<le> x \<and> x \<le> 1"
proof -
  have "0 \<le> min (of_nat u / 100) (1 :: rat)" "0 \<le> min (of_nat n / 200) (1 :: rat)" by simp_all
  then show ?thesis using assms
    by (cases "is_positive avg") (auto simp: risk_of_activity_def Let_def dest!: duration_risk_nonneg)
qed

text \<open>The risk of a caller always lies between zero and one. With no call in the last day it is zero. When the driver
  reads averages as \<open>Decimal\<close>, as asyncpg does for an integer column, every caller whose calls have lasted at all is
  given the neutral 0.5 of the exception, whatever the destinations and the number of calls.\<close>

theorem risk_score:
  fixes D :: driver
  defines "recent \<equiv> \<lambda>caller now db. calls_of caller (calls_since (now - 24 * 3600) (sd_calls db))"
  assumes "reads_average D = Decimal"
  shows "0 \<le> calculate_risk_score D now caller db \<and> calculate_risk_score D now caller db \<le> 1
    \<and> (recent caller now db = [] \<longrightarrow> calculate_risk_score D now caller db = 0)
    \<and> (recent caller now db \<noteq> [] \<and> average (map sr_duration (recent caller now db)) > 0
         \<longrightarrow> calculate_risk_score D now caller db = 1 / 2)"
proof -
  let ?rs = "recent caller now db"
  let ?avg = "average (map sr_duration ?rs)"
  have rs: "calls_of caller (calls_since (now - 24 * 3600) (sd_calls db)) = ?rs" by (simp add: recent_def)
  have half: "risk_of_activity (destinations ?rs) (Decimal ?avg) (length ?rs) = None" if "?avg > 0"
    using that by (simp add: risk_of_activity_def is_positive_def duration_risk_def Let_def)
  have bounds: "0 \<le> x \<and> x \<le> 1" if "risk_of_activity (destinations ?rs) (Decimal ?avg) (length ?rs) = Some x" for x
    using that by (rule risk_of_activity_bounds)
  show ?thesis
    unfolding calculate_risk_score_def Let_def rs assms(2)
    using half bounds by (auto split: option.splits)
qed

theorem risk_score_witness:
  "calculate_risk_score sample_driver 10 ''+2348012345678'' sample_tables = 1 / 2"
proof -
  have "reads_average sample_driver = Decimal" by (simp add: sample_driver_def)
  note r = risk_score [OF this, of 10 "''+2348012345678''" sample_tables]
  have "calls_of ''+2348012345678'' (calls_since (10 - 24 * 3600) (sd_calls sample_tables)) \<noteq> []" by code_simp
  moreover have "average (map sr_duration (calls_of ''+2348012345678'' (calls_since (10 - 24 * 3600) (sd_calls sample_tables)))) > 0"
    by code_simp
  ultimately show ?thesis using r by blast
qed


text \<open>An event with a time zone, such as the \<open>Z\<close> of the documented format: the column has none, so a driver that
  refuses the row makes every such event an error, and nothing is stored.\<close>

lemma zoned_event_refused:
  assumes "fromiso (utc_suffix (ce_timestamp e)) = Some (Aware t)"
    and "\<And>r t. sr_stamp r = Aware t \<Longrightarrow> \<not> accepts_call D r"
  shows "\<exists>code. receive_call_event fromiso D now uuid e db = (Http_error code, db)"
  using assms(1)
  by (auto simp: assms(2) receive_call_event_def insert_call_records_def insert_batch_def slices.simps batch_size_def eff_defs Let_def)

end
