(* ===== verification/SentinelOps.thy ===== *)
theory SentinelOps
  imports Sentinel
begin

text \<open>
  What runs around the batch detection engine: the cache, the performance monitor and the batch processor of
  \<open>app/sentinel/performance.py\<close>, the alert stream of \<open>app/sentinel/websocket.py\<close> and the metrics of
  \<open>app/sentinel/metrics.py\<close>.

  Every method that takes the \<open>asyncio.Lock\<close> is one step. Parameters: the clock, whether a socket can be written to,
  what other tasks do to the set of connections while one waits for a socket, and how a float is printed.
\<close>

section \<open>The cache\<close>

text \<open>A value is an optional one, as \<open>None\<close> can be stored.\<close>

record 'v simple_cache =
  ch_entries :: "(string, 'v option \<times> instant) dict"
  ch_ttl :: int
  ch_hits :: nat
  ch_misses :: nat

definition new_cache :: "int \<Rightarrow> 'v simple_cache" where
  "new_cache ttl = \<lparr>ch_entries = [], ch_ttl = ttl, ch_hits = 0, ch_misses = 0\<rparr>"

definition cache_get :: "instant \<Rightarrow> string \<Rightarrow> 'v simple_cache \<Rightarrow> 'v option \<times> 'v simple_cache" where
  "cache_get now k c =
     (case dict_get (ch_entries c) k of
        None \<Rightarrow> (None, c\<lparr>ch_misses := ch_misses c + 1\<rparr>)
      | Some (v, expires) \<Rightarrow>
          if now > expires
          then (None, c\<lparr>ch_entries := dict_pop k (ch_entries c), ch_misses := ch_misses c + 1\<rparr>)
          else (v, c\<lparr>ch_hits := ch_hits c + 1\<rparr>))"

definition cache_set :: "instant \<Rightarrow> string \<Rightarrow> 'v option \<Rightarrow> int option \<Rightarrow> 'v simple_cache \<Rightarrow> 'v simple_cache" where
  "cache_set now k v ttl c =
     (let t = (case ttl of None \<Rightarrow> ch_ttl c | Some t \<Rightarrow> t) in
      c\<lparr>ch_entries := dict_set k (v, now + of_int t) (ch_entries c)\<rparr>)"

definition cache_delete :: "string \<Rightarrow> 'v simple_cache \<Rightarrow> 'v simple_cache" where
  "cache_delete k c = c\<lparr>ch_entries := dict_pop k (ch_entries c)\<rparr>"

definition cache_clear :: "'v simple_cache \<Rightarrow> 'v simple_cache" where
  "cache_clear c = c\<lparr>ch_entries := [], ch_hits := 0, ch_misses := 0\<rparr>"

record cache_stats =
  cx_hits :: nat
  cx_misses :: nat
  cx_rate :: rat
  cx_size :: nat

definition cache_stats_of :: "'v simple_cache \<Rightarrow> cache_stats" where
  "cache_stats_of c =
     (let total = ch_hits c + ch_misses c;
          rate = (if total > 0 then of_nat (ch_hits c) / of_nat total * 100 else 0) in
      \<lparr>cx_hits = ch_hits c, cx_misses = ch_misses c, cx_rate = py_round 2 rate, cx_size = length (ch_entries c)\<rparr>)"

text \<open>The wrapper of \<open>@cached\<close>: the key is made of the name and the arguments; a \<open>None\<close> that was stored is
  indistinguishable from a miss, so the function runs again.\<close>

definition cached_call ::
  "int \<Rightarrow> string \<Rightarrow> instant \<Rightarrow> instant \<Rightarrow> ('s, 'x, 'v option) eff \<Rightarrow> ('v simple_cache \<times> 's, 'x, 'v option) eff" where
  "cached_call ttl k t1 t2 m cs =
     (case cache_get t1 k (fst cs) of (r, c) \<Rightarrow>
        case r of
          Some v \<Rightarrow> (Inr (Some v), (c, snd cs))
        | None \<Rightarrow>
            eff_bind (on_world m) (\<lambda>x. eff_then (on_self (cache_set t2 k x (Some ttl))) (eff_return x)) (c, snd cs))"

subsection \<open>Refinement: the entries of the last writes\<close>

datatype 'v cache_call = Get string | Set string "'v option" "int option" | Delete string | Clear

fun cache_step :: "instant \<times> 'v cache_call \<Rightarrow> 'v simple_cache \<Rightarrow> 'v simple_cache" where
  "cache_step (now, Get k) c = snd (cache_get now k c)"
| "cache_step (now, Set k v ttl) c = cache_set now k v ttl c"
| "cache_step (now, Delete k) c = cache_delete k c"
| "cache_step (now, Clear) c = cache_clear c"

text \<open>The abstract cache is a map from keys to values with their expiry, which reading leaves alone.\<close>

fun spec_step :: "int \<Rightarrow> instant \<times> 'v cache_call \<Rightarrow> (string \<Rightarrow> ('v option \<times> instant) option) \<Rightarrow> string \<Rightarrow> ('v option \<times> instant) option" where
  "spec_step d (now, Get k) m = m"
| "spec_step d (now, Set k v ttl) m = m(k \<mapsto> (v, now + of_int (case ttl of None \<Rightarrow> d | Some t \<Rightarrow> t)))"
| "spec_step d (now, Delete k) m = m(k := None)"
| "spec_step d (now, Clear) m = Map.empty"

definition live :: "instant \<Rightarrow> ('v option \<times> instant) option \<Rightarrow> 'v option" where
  "live now e = (case e of None \<Rightarrow> None | Some (v, expires) \<Rightarrow> if now > expires then None else v)"

text \<open>The cache lacks of the abstract one only entries that had expired.\<close>

definition cache_abs :: "instant \<Rightarrow> 'v simple_cache \<Rightarrow> (string \<Rightarrow> ('v option \<times> instant) option) \<Rightarrow> bool" where
  "cache_abs now c m \<longleftrightarrow> (\<forall>k. dict_get (ch_entries c) k = m k
     \<or> (dict_get (ch_entries c) k = None \<and> (\<exists>v expires. m k = Some (v, expires) \<and> expires < now)))"

lemma cache_step_ttl: "ch_ttl (cache_step e c) = ch_ttl c"
  by (cases e; cases "snd e")
    (auto simp: cache_get_def cache_set_def cache_delete_def cache_clear_def Let_def split: option.splits)

lemma cache_step_abs:
  assumes "cache_abs t c m" "t \<le> fst e"
  shows "cache_abs (fst e) (cache_step e c) (spec_step (ch_ttl c) e m)"
proof -
  obtain now call where e: "e = (now, call)" by fastforce
  have old: "dict_get (ch_entries c) k = m k \<or> (dict_get (ch_entries c) k = None \<and> (\<exists>v expires. m k = Some (v, expires) \<and> expires < now))" for k
    using assms unfolding cache_abs_def e by fastforce
  show ?thesis
  proof (cases call)
    case (Get k)
    show ?thesis
    proof (cases "dict_get (ch_entries c) k")
      case None
      then show ?thesis using old by (simp add: e Get cache_get_def cache_abs_def)
    next
      case (Some p)
      obtain v expires where p: "p = (v, expires)" by fastforce
      have mk: "m k = Some (v, expires)" using old [of k] Some p by simp
      show ?thesis
        unfolding e Get cache_abs_def fst_conv
      proof (intro allI)
        fix j
        show "dict_get (ch_entries (cache_step (now, cache_call.Get k) c)) j = spec_step (ch_ttl c) (now, cache_call.Get k) m j \<or>
          (dict_get (ch_entries (cache_step (now, cache_call.Get k) c)) j = None \<and>
            (\<exists>v expires. spec_step (ch_ttl c) (now, cache_call.Get k) m j = Some (v, expires) \<and> expires < now))"
          using old [of j] Some p mk by (cases "j = k"; cases "now > expires") (simp_all add: cache_get_def)
      qed
    qed
  next
    case (Set k v ttl)
    then show ?thesis using old by (simp add: e cache_set_def cache_abs_def Let_def)
  next
    case (Delete k)
    then show ?thesis using old by (simp add: e cache_delete_def cache_abs_def)
  next
    case Clear
    then show ?thesis by (simp add: e cache_clear_def cache_abs_def)
  qed
qed

lemma cache_run_abs:
  assumes "sorted (t # map fst es)" "cache_abs t c m"
  shows "cache_abs (last (t # map fst es)) (fold cache_step es c) (fold (spec_step (ch_ttl c)) es m)"
  using assms
proof (induction es arbitrary: t c m)
  case (Cons e es)
  have a: "cache_abs (fst e) (cache_step e c) (spec_step (ch_ttl c) e m)"
    using Cons.prems by (intro cache_step_abs) auto
  from Cons.IH [OF _ a] Cons.prems show ?case by (simp add: cache_step_ttl)
qed simp

lemma cache_get_abs: "cache_abs t c m \<Longrightarrow> t \<le> now \<Longrightarrow> fst (cache_get now k c) = live now (m k)"
  unfolding cache_abs_def cache_get_def live_def
  by (drule spec [of _ k]) (auto split: option.splits)

text \<open>C14: The cache is a map with expiry: whatever has been read, written, deleted and cleared before, with a clock that does
  not go back, a read returns what the last write of the key since its deletion stored, until its time is over.\<close>

theorem cache_refines_map:
  assumes "sorted (map fst es @ [now])"
  shows "fst (cache_get now k (fold cache_step es (new_cache d))) = live now (fold (spec_step d) es Map.empty k)"
proof (cases es)
  case Nil
  then show ?thesis by (simp add: cache_get_def new_cache_def live_def)
next
  case (Cons e es')
  have "cache_abs (fst e) (new_cache d) Map.empty" by (simp add: cache_abs_def new_cache_def)
  moreover have "sorted (fst e # map fst es)" using assms Cons by (auto simp: sorted_append)
  moreover have "last (fst e # map fst es) \<le> now"
  proof -
    have "last (fst e # map fst es) \<in> set (fst e # map fst es)" by (rule last_in_set) simp
    then show ?thesis using assms Cons by (auto simp: sorted_append)
  qed
  moreover have "ch_ttl (new_cache d) = d" by (simp add: new_cache_def)
  ultimately show ?thesis by (metis cache_get_abs cache_run_abs)
qed

theorem cache_refines_map_witness:
  "fst (cache_get 65 ''a'' (fold cache_step
      [(0, Set ''a'' (Some (1 :: nat)) (Some 60)), (60, Get ''a''), (61, Get ''a''), (62, Set ''a'' (Some 2) None), (63, Delete ''b'')]
      (new_cache 300))) = Some 2"
  using cache_refines_map [of "[(0, Set ''a'' (Some (1 :: nat)) (Some 60)), (60, Get ''a''), (61, Get ''a''),
      (62, Set ''a'' (Some 2) None), (63, Delete ''b'')]" 65 "''a''" 300]
  by (simp add: live_def)


section \<open>The performance monitor\<close>

type_synonym monitor = "(string, rat list) dict"

definition record_operation :: "string \<Rightarrow> rat \<Rightarrow> monitor \<Rightarrow> monitor" where
  "record_operation operation duration m =
     (let xs = (case dict_get m operation of None \<Rightarrow> [] | Some xs \<Rightarrow> xs) in
      dict_set operation (push_bounded 1000 duration xs) m)"

record operation_stats =
  os_count :: nat
  os_min :: rat
  os_max :: rat
  os_avg :: rat
  os_p50 :: rat
  os_p95 :: rat
  os_p99 :: rat

definition quantile_index :: "nat \<Rightarrow> rat \<Rightarrow> nat" where
  "quantile_index n p = nat \<lfloor>of_nat n * p\<rfloor>"

definition operation_stats_of :: "string \<Rightarrow> monitor \<Rightarrow> operation_stats option" where
  "operation_stats_of operation m =
     (case dict_get m operation of
        None \<Rightarrow> None
      | Some xs \<Rightarrow>
          if xs = [] then None
          else
            (let ds = sort xs; n = length ds in
             Some \<lparr>os_count = n, os_min = py_round 3 (hd ds), os_max = py_round 3 (last ds),
                   os_avg = py_round 3 (sum_list ds / of_nat n),
                   os_p50 = py_round 3 (ds ! quantile_index n (1 / 2)),
                   os_p95 = py_round 3 (ds ! quantile_index n (95 / 100)),
                   os_p99 = py_round 3 (ds ! quantile_index n (99 / 100))\<rparr>))"

definition all_stats :: "monitor \<Rightarrow> (string, operation_stats option) dict" where
  "all_stats m = map (\<lambda>op. (op, operation_stats_of op m)) (dict_keys m)"

text \<open>The wrapper of \<open>@monitor_performance\<close>: the duration is recorded however the call ends.\<close>

definition monitored_call :: "string \<Rightarrow> instant \<Rightarrow> instant \<Rightarrow> ('s, 'x, 'a) eff \<Rightarrow> (monitor \<times> 's, 'x, 'a) eff" where
  "monitored_call operation start stop m ms =
     (case m (snd ms) of (r, s) \<Rightarrow> (r, (record_operation operation (stop - start) (fst ms), s)))"

lemma quantile_index_less: "n > 0 \<Longrightarrow> p < 1 \<Longrightarrow> quantile_index n p < n"
proof -
  assume n: "n > 0" "p < 1"
  have "of_nat n * p < of_int (int n)" using n by simp
  then have "\<lfloor>of_nat n * p\<rfloor> < int n" by (simp only: floor_less_iff)
  then show ?thesis using n by (simp add: quantile_index_def)
qed

lemma quantile_index_mono: "p \<le> q \<Longrightarrow> quantile_index n p \<le> quantile_index n q"
  unfolding quantile_index_def by (intro nat_mono floor_mono mult_left_mono) auto

lemma py_round_mono: "x \<le> y \<Longrightarrow> py_round n x \<le> py_round n y"
  by (simp add: py_round_def divide_right_mono round_half_even_mono)

lemma mean_bounds:
  fixes xs :: "rat list"
  assumes "xs \<noteq> []" "\<And>x. x \<in> set xs \<Longrightarrow> lo \<le> x \<and> x \<le> hi"
  shows "lo \<le> sum_list xs / of_nat (length xs)" "sum_list xs / of_nat (length xs) \<le> hi"
proof -
  have "sum_list xs \<le> of_nat (length xs) * hi \<and> of_nat (length xs) * lo \<le> sum_list xs"
    using assms(2)
  proof (induction xs)
    case (Cons x xs)
    then have "sum_list xs \<le> of_nat (length xs) * hi \<and> of_nat (length xs) * lo \<le> sum_list xs" "lo \<le> x" "x \<le> hi" by auto
    then show ?case by (simp add: algebra_simps)
  qed simp
  then show "lo \<le> sum_list xs / of_nat (length xs)" "sum_list xs / of_nat (length xs) \<le> hi"
    using assms(1) by (simp_all add: field_simps)
qed

lemma recorded_durations:
  "(case dict_get (fold (\<lambda>(op, d). record_operation op d) es []) k of None \<Rightarrow> [] | Some xs \<Rightarrow> xs)
     = take_last 1000 (map snd (filter (\<lambda>e. fst e = k) es))"
proof (induction es rule: rev_induct)
  case (snoc e es)
  obtain op d where e: "e = (op, d)" by fastforce
  let ?m = "fold (\<lambda>(op, d). record_operation op d) es []"
  let ?xs = "case dict_get ?m k of None \<Rightarrow> [] | Some xs \<Rightarrow> xs"
  show ?case
  proof (cases "op = k")
    case True
    have "(case dict_get (record_operation op d ?m) k of None \<Rightarrow> [] | Some xs \<Rightarrow> xs) = push_bounded 1000 d ?xs"
      by (simp add: record_operation_def Let_def True)
    then show ?thesis using snoc True
      by (simp add: e push_bounded_eq take_last_append_take_last)
  next
    case False
    have "dict_get (record_operation op d ?m) k = dict_get ?m k" using False by (simp add: record_operation_def Let_def)
    then show ?thesis using snoc False by (simp add: e)
  qed
qed simp

text \<open>After any sequence of recordings the statistics of an operation are those of its last thousand durations, and they
  are in order: the minimum, the three quantiles and the maximum rise, and the average lies between the ends.\<close>

theorem stats_ordered:
  assumes "operation_stats_of k (fold (\<lambda>(op, d). record_operation op d) es []) = Some s"
  shows "os_count s = min 1000 (length (filter (\<lambda>e. fst e = k) es)) \<and> os_count s > 0
    \<and> os_min s \<le> os_p50 s \<and> os_p50 s \<le> os_p95 s \<and> os_p95 s \<le> os_p99 s \<and> os_p99 s \<le> os_max s
    \<and> os_min s \<le> os_avg s \<and> os_avg s \<le> os_max s"
proof -
  let ?m = "fold (\<lambda>(op, d). record_operation op d) es []"
  obtain xs where xs: "dict_get ?m k = Some xs" "xs \<noteq> []"
    using assms by (auto simp: operation_stats_of_def split: option.splits if_splits)
  have len: "length xs = min 1000 (length (filter (\<lambda>e. fst e = k) es))"
    using recorded_durations [where k = k and es = es] xs(1) by simp
  let ?ds = "sort xs"
  let ?n = "length ?ds"
  have ne: "?ds \<noteq> []" using xs(2) by (metis length_0_conv length_sort)
  have n: "?n > 0" using xs(2) by simp
  have mono: "i \<le> j \<Longrightarrow> j < ?n \<Longrightarrow> ?ds ! i \<le> ?ds ! j" for i j by (simp add: sorted_nth_mono)
  have ends: "hd ?ds = ?ds ! 0" "last ?ds = ?ds ! (?n - 1)" using ne by (simp_all add: hd_conv_nth last_conv_nth del: length_sort)
  have all: "hd ?ds \<le> x \<and> x \<le> last ?ds" if "x \<in> set ?ds" for x
    using that mono n unfolding ends in_set_conv_nth by (metis Suc_pred' less_Suc_eq_le zero_le diff_less zero_less_one)
  have s: "s = \<lparr>os_count = ?n, os_min = py_round 3 (hd ?ds), os_max = py_round 3 (last ?ds),
                   os_avg = py_round 3 (sum_list ?ds / of_nat ?n),
                   os_p50 = py_round 3 (?ds ! quantile_index ?n (1 / 2)),
                   os_p95 = py_round 3 (?ds ! quantile_index ?n (95 / 100)),
                   os_p99 = py_round 3 (?ds ! quantile_index ?n (99 / 100))\<rparr>"
    using assms xs by (simp add: operation_stats_of_def Let_def)
  have q: "quantile_index ?n (1/2) < ?n" "quantile_index ?n (95/100) < ?n" "quantile_index ?n (99/100) < ?n"
    using n by (simp_all add: quantile_index_less del: length_sort)
  have "hd ?ds \<le> ?ds ! quantile_index ?n (1/2)" "?ds ! quantile_index ?n (99/100) \<le> last ?ds"
    using all q by (simp_all del: length_sort set_sort)
  moreover have "?ds ! quantile_index ?n (1/2) \<le> ?ds ! quantile_index ?n (95/100)"
    "?ds ! quantile_index ?n (95/100) \<le> ?ds ! quantile_index ?n (99/100)"
    using q by (auto intro!: mono quantile_index_mono simp del: length_sort)
  ultimately show ?thesis
    using len n py_round_mono mean_bounds [OF ne all] unfolding s by simp
qed

theorem stats_ordered_witness:
  "\<exists>s. operation_stats_of ''q'' (fold (\<lambda>(op, d). record_operation op d) [(''q'', 2), (''r'', 1), (''q'', 1 / 2)] []) = Some s
     \<and> os_count s = 2 \<and> os_p50 s \<le> os_p95 s"
proof -
  let ?s = "\<lparr>os_count = 2, os_min = 1 / 2, os_max = 2, os_avg = 5 / 4, os_p50 = 2, os_p95 = 2, os_p99 = 2\<rparr>"
  have "operation_stats_of ''q'' (fold (\<lambda>(op, d). record_operation op d) [(''q'', 2), (''r'', 1), (''q'', 1 / 2)] []) = Some ?s"
    by code_simp
  from this stats_ordered [OF this] show ?thesis by (intro exI [of _ ?s]) simp
qed


section \<open>The batch processor\<close>

text \<open>A batch function returns a list, whose elements are added to the results, or any other value, which is added
  itself.\<close>

datatype 'b batch_result = Many "'b list" | One 'b

text \<open>A run: the results, an exception (a \<open>ValueError\<close> of \<open>range\<close> or of the semaphore, or one of a batch, here that
  of the first in the list, where the code raises the one that comes first in time), or never: a semaphore of
  zero is never acquired.\<close>

datatype ('x, 'b) batches_run = Results "'b list" | Value_error | Batch_error 'x | Never

definition batch_results :: "'b batch_result list \<Rightarrow> 'b list" where
  "batch_results rs = concat (map (\<lambda>r. case r of Many ys \<Rightarrow> ys | One y \<Rightarrow> [y]) rs)"

fun gather :: "('a list \<Rightarrow> 'x + 'b batch_result) \<Rightarrow> 'a list list \<Rightarrow> 'x + 'b batch_result list" where
  "gather f [] = Inr []"
| "gather f (b # bs) =
     (case f b of
        Inl e \<Rightarrow> Inl e
      | Inr r \<Rightarrow> (case gather f bs of Inl e \<Rightarrow> Inl e | Inr rs \<Rightarrow> Inr (r # rs)))"

definition process_in_batches ::
  "('a list \<Rightarrow> 'x + 'b batch_result) \<Rightarrow> int \<Rightarrow> int \<Rightarrow> 'a list \<Rightarrow> ('x, 'b) batches_run" where
  "process_in_batches f bsize concurrency items =
     (if bsize = 0 \<or> concurrency < 0 then Value_error
      else
        let batches = (if bsize < 0 then [] else slices (nat bsize) items) in
        if batches \<noteq> [] \<and> concurrency = 0 then Never
        else case gather f batches of Inl e \<Rightarrow> Batch_error e | Inr rs \<Rightarrow> Results (batch_results rs))"

lemma gather_map:
  "(\<And>b. b \<in> set bs \<Longrightarrow> f b = Inr (Many (map g b))) \<Longrightarrow>
     \<exists>rs. gather f bs = Inr rs \<and> batch_results rs = map g (concat bs)"
proof (induction bs)
  case (Cons b bs)
  then obtain rs where "gather f bs = Inr rs" "batch_results rs = map g (concat bs)" by auto
  with Cons.prems [of b] show ?case by (simp add: batch_results_def)
qed (simp add: batch_results_def)

text \<open>Cutting into batches does not show: a batch function that works element by element gives, with any positive
  batch size and any positive concurrency, the results of the whole list in its order.\<close>

theorem batches_are_map:
  assumes "bsize > 0" "concurrency > 0"
    and "\<And>b. b \<noteq> [] \<Longrightarrow> length b \<le> nat bsize \<Longrightarrow> f b = Inr (Many (map g b))"
  shows "process_in_batches f bsize concurrency items = Results (map g items)"
proof -
  let ?bs = "slices (nat bsize) items"
  have "f b = Inr (Many (map g b))" if "b \<in> set ?bs" for b
    using slices_bounded [OF _ that] assms by simp
  from gather_map [OF this] obtain rs where "gather f ?bs = Inr rs" "batch_results rs = map g (concat ?bs)" by blast
  then show ?thesis using assms(1,2) by (simp add: process_in_batches_def Let_def concat_slices)
qed

theorem batches_are_map_witness:
  "process_in_batches (\<lambda>b. Inr (Many (map Suc b)) :: string + nat batch_result) 2 5 [1, 2, 3] = Results [2, 3, 4]"
  using batches_are_map [of 2 5 "\<lambda>b. Inr (Many (map Suc b)) :: string + nat batch_result" Suc "[1, 2, 3]"] by simp


section \<open>The alert stream\<close>

text \<open>The set of connections is a list without repetitions, in the order in which Python walks it. Whenever the code waits,
  other tasks run: clients connect and leave, another broadcast drops the connections it could not write to.\<close>

definition connect_socket :: "'c \<Rightarrow> 'c list \<Rightarrow> 'c list" where
  "connect_socket c hub = (if c \<in> set hub then hub else hub @ [c])"

definition disconnect_socket :: "'c \<Rightarrow> 'c list \<Rightarrow> 'c list" where
  "disconnect_socket c hub = removeAll c hub"

datatype 'c hub_action = Connect 'c | Disconnect 'c

primrec hub_act :: "'c hub_action \<Rightarrow> 'c list \<Rightarrow> 'c list" where
  "hub_act (Connect c) hub = connect_socket c hub"
| "hub_act (Disconnect c) hub = disconnect_socket c hub"

text \<open>One wait of a task: what the others do to the connections meanwhile and, when it waits for a socket, which sockets
  cannot be written to and which connections the loop goes on with when the others did something and the size of the set is
  what it was: Python leaves open what the walk through a changed set meets.\<close>

record 'c wait =
  wt_actions :: "'c hub_action list"
  wt_failing :: "'c list"
  wt_walk :: "'c list"

record 'c sending =
  sg_hub :: "'c list"
  sg_failed :: "'c list"
  sg_sent :: "'c list"
  sg_disturbed :: bool
  sg_raised :: bool

text \<open>The loop over the connections. Before the next one, and at the end, Python raises a \<open>RuntimeError\<close> when the set has
  another size than at the start. Each send takes one of the waits to come; when there are none left nobody interferes any
  more. The waits that are left over belong to whatever the task does next.\<close>

fun send_loop :: "nat \<Rightarrow> 'c list \<Rightarrow> 'c wait list \<Rightarrow> 'c sending \<Rightarrow> 'c wait list \<times> 'c sending" where
  "send_loop sz [] ws s = (ws, s\<lparr>sg_raised := length (sg_hub s) \<noteq> sz\<rparr>)"
| "send_loop sz (c # cs) [] s =
     (if length (sg_hub s) \<noteq> sz then ([], s\<lparr>sg_raised := True\<rparr>)
      else send_loop sz cs [] (s\<lparr>sg_sent := sg_sent s @ [c]\<rparr>))"
| "send_loop sz (c # cs) (w # ws) s =
     (if length (sg_hub s) \<noteq> sz then (w # ws, s\<lparr>sg_raised := True\<rparr>)
      else send_loop sz (if wt_actions w = [] then cs else wt_walk w) ws
        (s\<lparr>sg_hub := fold hub_act (wt_actions w) (sg_hub s),
           sg_failed := (if c \<in> set (wt_failing w) then c # sg_failed s else sg_failed s),
           sg_sent := (if c \<in> set (wt_failing w) then sg_sent s else sg_sent s @ [c]),
           sg_disturbed := sg_disturbed s \<or> wt_actions w \<noteq> []\<rparr>))"

text \<open>The broadcast: the connections that failed leave the set, unless the loop raised.\<close>

definition broadcast :: "'c wait list \<Rightarrow> 'c list \<Rightarrow> 'c wait list \<times> 'c sending" where
  "broadcast ws hub =
     (case send_loop (length hub) hub ws \<lparr>sg_hub = hub, sg_failed = [], sg_sent = [], sg_disturbed = False, sg_raised = False\<rparr> of
        (ws', s) \<Rightarrow> (ws', if sg_raised s then s else s\<lparr>sg_hub := filter (\<lambda>c. c \<notin> set (sg_failed s)) (sg_hub s)\<rparr>))"

text \<open>One client: it is told it is connected, its messages are acknowledged, thirty silent seconds bring a heartbeat, and
  however the session ends the client leaves the set, to which other tasks have done \<open>others\<close> meanwhile. The number of messages
  that can still be written to the socket bounds what is sent.\<close>

datatype stream_event = Message string | Silence | Closed

datatype stream_message = Connected | Ack string | Heartbeat

fun session_replies :: "stream_event list \<Rightarrow> stream_message list" where
  "session_replies [] = []"
| "session_replies (Message m # es) = Ack m # session_replies es"
| "session_replies (Silence # es) = Heartbeat # session_replies es"
| "session_replies (Closed # es) = []"

definition client_session :: "'c \<Rightarrow> nat \<Rightarrow> stream_event list \<Rightarrow> 'c hub_action list \<Rightarrow> 'c list \<Rightarrow> stream_message list \<times> 'c list" where
  "client_session c writable es others hub =
     (take writable (Connected # session_replies es), disconnect_socket c (fold hub_act others (connect_socket c hub)))"

text \<open>The stream as the detector uses it: the connections, the waits to come, and for the proofs a report of each broadcast.
  \<open>_create_alert\<close> first waits for the database, then for the broadcast, whose exception it catches.\<close>

record 'c report =
  br_alert :: alert_entry
  br_sent :: "'c list"
  br_disturbed :: bool
  br_raised :: bool

record 'c alert_stream =
  st_hub :: "'c list"
  st_waits :: "'c wait list"
  st_log :: "'c report list"

definition database_wait :: "'c alert_stream \<Rightarrow> 'c alert_stream" where
  "database_wait h =
     (case st_waits h of [] \<Rightarrow> h | w # ws \<Rightarrow> h\<lparr>st_hub := fold hub_act (wt_actions w) (st_hub h), st_waits := ws\<rparr>)"

definition notify_new_alert :: "alert_entry \<Rightarrow> 'c alert_stream \<Rightarrow> 'c alert_stream" where
  "notify_new_alert a h =
     (case broadcast (st_waits h) (st_hub h) of (ws, s) \<Rightarrow>
        \<lparr>st_hub = sg_hub s, st_waits = ws,
         st_log = st_log h @ [\<lparr>br_alert = a, br_sent = sg_sent s, br_disturbed = sg_disturbed s, br_raised = sg_raised s\<rparr>]\<rparr>)"

definition publish_alert :: "alert_entry \<Rightarrow> 'c alert_stream \<Rightarrow> 'c alert_stream" where
  "publish_alert a h = notify_new_alert a (database_wait h)"


subsection \<open>What a broadcast reaches\<close>

text \<open>A client stays when no task disconnects it and its socket can be written to.\<close>

definition spares :: "'c \<Rightarrow> 'c wait list \<Rightarrow> bool" where
  "spares c ws \<longleftrightarrow> (\<forall>w \<in> set ws. Disconnect c \<notin> set (wt_actions w) \<and> c \<notin> set (wt_failing w))"

definition hub_ok :: "'c \<Rightarrow> 'c list \<Rightarrow> bool" where
  "hub_ok c hub \<longleftrightarrow> distinct hub \<and> c \<in> set hub"

lemma hub_act_ok: "a \<noteq> Disconnect c \<Longrightarrow> hub_ok c hub \<Longrightarrow> hub_ok c (hub_act a hub)"
  by (cases a) (auto simp: hub_ok_def connect_socket_def disconnect_socket_def distinct_removeAll)

lemma hub_acts_ok: "Disconnect c \<notin> set as \<Longrightarrow> hub_ok c hub \<Longrightarrow> hub_ok c (fold hub_act as hub)"
  by (induction as arbitrary: hub) (auto simp: hub_act_ok)

lemma send_loop_waits: "send_loop sz cs ws s = (ws', s') \<Longrightarrow> set ws' \<subseteq> set ws"
  by (induction sz cs ws s arbitrary: ws' s' rule: send_loop.induct) (fastforce split: if_splits)+

lemma send_loop_keeps:
  "send_loop sz cs ws s = (ws', s') \<Longrightarrow> spares c ws \<Longrightarrow> hub_ok c (sg_hub s) \<Longrightarrow> c \<notin> set (sg_failed s) \<Longrightarrow>
     hub_ok c (sg_hub s') \<and> c \<notin> set (sg_failed s')"
proof (induction sz cs ws s arbitrary: ws' s' rule: send_loop.induct)
  case (3 sz x xs w ws s)
  then have "Disconnect c \<notin> set (wt_actions w)" "x \<in> set (wt_failing w) \<longrightarrow> c \<noteq> x" "spares c ws"
    by (auto simp: spares_def)
  with 3 show ?case
    by (cases "length (sg_hub s) = sz"; cases "x \<in> set (wt_failing w)") (auto simp: hub_acts_ok split del: if_split)
qed (auto split: if_splits)

lemma send_loop_disturbed: "send_loop sz cs ws s = (ws', s') \<Longrightarrow> sg_disturbed s \<Longrightarrow> sg_disturbed s'"
  by (induction sz cs ws s arbitrary: ws' s' rule: send_loop.induct) (auto split: if_splits)

lemma send_loop_quiet:
  "send_loop sz cs ws s = (ws', s') \<Longrightarrow> \<forall>w \<in> set ws. wt_actions w = [] \<Longrightarrow> sg_disturbed s' = sg_disturbed s"
  by (induction sz cs ws s arbitrary: ws' s' rule: send_loop.induct) (auto split: if_splits)

lemma send_loop_undisturbed:
  "send_loop sz cs ws s = (ws', s') \<Longrightarrow> \<not> sg_disturbed s' \<Longrightarrow> length (sg_hub s) = sz \<Longrightarrow> spares c ws \<Longrightarrow>
     \<not> sg_raised s' \<and> sg_hub s' = sg_hub s \<and> count_list (sg_sent s') c = count_list (sg_sent s) c + count_list cs c"
proof (induction sz cs ws s arbitrary: ws' s' rule: send_loop.induct)
  case (3 sz x xs w ws s)
  have "wt_actions w = []"
    using 3(2-4) by (cases "wt_actions w = []") (auto dest: send_loop_disturbed)
  then have "send_loop sz xs ws (s\<lparr>sg_failed := (if x \<in> set (wt_failing w) then x # sg_failed s else sg_failed s),
      sg_sent := (if x \<in> set (wt_failing w) then sg_sent s else sg_sent s @ [x])\<rparr>) = (ws', s')"
    "spares c ws" "x \<in> set (wt_failing w) \<longrightarrow> c \<noteq> x"
    using 3(2,4,5) by (auto simp: spares_def)
  with 3(1) [of ws' s'] 3(3,4) \<open>wt_actions w = []\<close> show ?case by auto
next
  case (2 sz x xs s)
  from 2(2,4) have "send_loop sz xs [] (s\<lparr>sg_sent := sg_sent s @ [x]\<rparr>) = (ws', s')" by simp
  with 2(1) [of ws' s'] 2(3-5) show ?case by simp
qed simp

lemma count_distinct: "distinct xs \<Longrightarrow> count_list xs x = (if x \<in> set xs then 1 else 0)"
  by (induction xs) auto

text \<open>A client that leaves while the broadcast waits for it: the loop raises, and those after it are not sent the message.\<close>

theorem broadcast_interrupted:
  "distinct (c # d # cs) \<Longrightarrow>
     broadcast (\<lparr>wt_actions = [Disconnect c], wt_failing = [], wt_walk = walk\<rparr> # ws) (c # d # cs)
       = (ws, \<lparr>sg_hub = d # cs, sg_failed = [], sg_sent = [c], sg_disturbed = True, sg_raised = True\<rparr>)"
  by (cases walk; cases ws) (auto simp: broadcast_def disconnect_socket_def removeAll_id)


subsection \<open>Detection and stream together\<close>

definition received_by :: "'c \<Rightarrow> 'c report list \<Rightarrow> alert_entry list" where
  "received_by c lg = concat (map (\<lambda>b. replicate (count_list (br_sent b) c) (br_alert b)) lg)"

lemma received_by_simps [simp]:
  "received_by c [] = []" "received_by c (xs @ ys) = received_by c xs @ received_by c ys"
  "received_by c [b] = replicate (count_list (br_sent b) c) (br_alert b)"
  by (simp_all add: received_by_def)

text \<open>What the broadcasts of a run keep: the client stays, and it has been sent every alert whose broadcast was not disturbed.\<close>

definition stream_inv :: "'c \<Rightarrow> 'c alert_stream \<Rightarrow> bool" where
  "stream_inv c h \<longleftrightarrow> hub_ok c (st_hub h) \<and> spares c (st_waits h)
     \<and> (\<forall>b \<in> set (st_log h). br_raised b \<longrightarrow> br_disturbed b)
     \<and> received_by c (filter (Not \<circ> br_disturbed) (st_log h)) = map br_alert (filter (Not \<circ> br_disturbed) (st_log h))"

lemma database_wait_inv: "stream_inv c h \<Longrightarrow> stream_inv c (database_wait h)"
  by (auto simp: stream_inv_def database_wait_def spares_def hub_acts_ok split: list.split)

lemma notify_inv:
  assumes inv: "stream_inv c h" shows "stream_inv c (notify_new_alert a h)"
proof -
  let ?s0 = "\<lparr>sg_hub = st_hub h, sg_failed = [], sg_sent = [], sg_disturbed = False, sg_raised = False\<rparr>"
  obtain ws s where run: "send_loop (length (st_hub h)) (st_hub h) (st_waits h) ?s0 = (ws, s)" by fastforce
  from inv have h: "hub_ok c (st_hub h)" "spares c (st_waits h)" by (simp_all add: stream_inv_def)
  from send_loop_keeps [OF run h(2)] h(1) have keep: "hub_ok c (sg_hub s)" "c \<notin> set (sg_failed s)" by simp_all
  have w: "spares c ws" using send_loop_waits [OF run] h(2) by (auto simp: spares_def)
  have "\<not> sg_raised s \<and> count_list (sg_sent s) c = 1" if "\<not> sg_disturbed s"
    using send_loop_undisturbed [OF run that _ h(2)] h(1) by (simp add: hub_ok_def count_distinct)
  with inv keep w run show ?thesis
    by (auto simp: stream_inv_def notify_new_alert_def broadcast_def hub_ok_def)
qed

lemma publish_inv: "stream_inv c h \<Longrightarrow> stream_inv c (publish_alert a h)"
  by (simp add: publish_alert_def database_wait_inv notify_inv)

lemma publish_all_inv: "stream_inv c h \<Longrightarrow> stream_inv c (fold publish_alert as h)"
  by (induction as arbitrary: h) (simp_all add: publish_inv)

lemma publish_logs: "\<exists>b. st_log (publish_alert a h) = st_log h @ [b] \<and> br_alert b = a"
  by (auto simp: publish_alert_def notify_new_alert_def database_wait_def split: prod.split list.split)

lemma publish_all_logs: "map br_alert (st_log (fold publish_alert as h)) = map br_alert (st_log h) @ as"
proof (induction as arbitrary: h)
  case (Cons a as)
  then show ?case using publish_logs [of a h] by auto
qed simp

lemma publish_quiet:
  assumes "\<forall>w \<in> set (st_waits h). wt_actions w = []" "\<forall>b \<in> set (st_log h). \<not> br_disturbed b"
  shows "(\<forall>w \<in> set (st_waits (publish_alert a h)). wt_actions w = []) \<and> (\<forall>b \<in> set (st_log (publish_alert a h)). \<not> br_disturbed b)"
proof -
  let ?h = "database_wait h"
  let ?s0 = "\<lparr>sg_hub = st_hub ?h, sg_failed = [], sg_sent = [], sg_disturbed = False, sg_raised = False\<rparr>"
  obtain ws s where run: "send_loop (length (st_hub ?h)) (st_hub ?h) (st_waits ?h) ?s0 = (ws, s)" by fastforce
  have q: "\<forall>w \<in> set (st_waits ?h). wt_actions w = []" "\<forall>b \<in> set (st_log ?h). \<not> br_disturbed b"
    using assms by (auto simp: database_wait_def split: list.split)
  from send_loop_quiet [OF run q(1)] send_loop_waits [OF run] q run show ?thesis
    by (auto simp: publish_alert_def notify_new_alert_def broadcast_def)
qed

lemma publish_all_quiet:
  "\<forall>w \<in> set (st_waits h). wt_actions w = [] \<Longrightarrow> \<forall>b \<in> set (st_log h). \<not> br_disturbed b \<Longrightarrow>
     \<forall>b \<in> set (st_log (fold publish_alert as h)). \<not> br_disturbed b"
proof (induction as arbitrary: h)
  case (Cons a as)
  note q = publish_quiet [OF Cons.prems, of a]
  show ?case unfolding fold.simps comp_def by (rule Cons.IH [OF conjunct1 [OF q] conjunct2 [OF q]])
qed simp

text \<open>C19: Detection and stream together. Clients may connect and leave during every wait of a detection run: while an alert is
  inserted, and while the broadcast waits for a socket. For a client that is connected when the run begins, that no task
  disconnects and whose socket can be written to: the run adds one alert to the table for each broadcast, raising ones
  included; of the alerts whose broadcast no connecting or leaving client disturbed it is sent each exactly once, in the order
  in which they were added; only a disturbed broadcast raises; the client is still connected at the end; and when nobody
  connects or leaves while the run waits, it has been sent exactly the alerts added. A disturbed broadcast promises nothing:
  it may raise before it comes to the client.\<close>

theorem alerts_reach_clients:
  assumes run: "generate_sdhf_alerts D publish_alert shows now hours min_unique max_avg (h, db) = (Inr ids, (h', db'))"
    and start: "st_log h = []" "distinct (st_hub h)" "c \<in> set (st_hub h)"
    and spared: "\<forall>w \<in> set (st_waits h). Disconnect c \<notin> set (wt_actions w) \<and> c \<notin> set (wt_failing w)"
  shows "sd_alerts db' = sd_alerts db @ map br_alert (st_log h')
    \<and> received_by c (filter (Not \<circ> br_disturbed) (st_log h')) = map br_alert (filter (Not \<circ> br_disturbed) (st_log h'))
    \<and> (\<forall>b \<in> set (st_log h'). br_raised b \<longrightarrow> br_disturbed b)
    \<and> c \<in> set (st_hub h')
    \<and> ((\<forall>w \<in> set (st_waits h). wt_actions w = []) \<longrightarrow> received_by c (st_log h') = map br_alert (st_log h'))"
proof -
  let ?ds = "detect_sdhf_patterns now hours min_unique max_avg db"
  let ?new = "new_entries (sd_next_id db) now (map (sdhf_alert shows hours) ?ds)"
  have n: "h' = fold publish_alert ?new h" "db' = db\<lparr>sd_alerts := sd_alerts db @ ?new, sd_next_id := sd_next_id db + length ?ds\<rparr>"
    using create_all [of "shows" hours D publish_alert now ?ds h db ids "(h', db')"] run
    by (auto simp: generate_sdhf_alerts_def Let_def eff_bind_def eff_gets_def)
  have inv: "stream_inv c h'"
    unfolding n(1) using start spared by (intro publish_all_inv) (simp add: stream_inv_def hub_ok_def spares_def)
  have quiet: "filter (Not \<circ> br_disturbed) (st_log h') = st_log h'" if "\<forall>w \<in> set (st_waits h). wt_actions w = []"
    using publish_all_quiet [OF that, of ?new] start unfolding n(1) by (simp add: filter_id_conv)
  have "map br_alert (st_log h') = ?new" using publish_all_logs [of ?new h] start n(1) by simp
  with inv quiet n(2) show ?thesis by (auto simp: stream_inv_def hub_ok_def)
qed

text \<open>While the alert is inserted a third client connects; then the second cannot be written to.\<close>

definition sample_stream :: "nat alert_stream" where
  "sample_stream = \<lparr>st_hub = [1, 2], st_waits = [\<lparr>wt_actions = [Connect 3], wt_failing = [], wt_walk = []\<rparr>,
     \<lparr>wt_actions = [], wt_failing = [], wt_walk = []\<rparr>, \<lparr>wt_actions = [], wt_failing = [2], wt_walk = []\<rparr>], st_log = []\<rparr>"

theorem alerts_reach_clients_witness:
  "let r = generate_sdhf_alerts sample_driver publish_alert ((\<lambda>_. []), (\<lambda>_. [])) 10 24 1 8 (sample_stream, sample_tables); h = fst (snd r) in
   length (st_log h) = 1 \<and> st_hub h = [1, 3] \<and> sd_alerts (snd (snd r)) = sd_alerts sample_tables @ received_by 1 (st_log h)"
proof -
  let ?r = "generate_sdhf_alerts sample_driver publish_alert ((\<lambda>_. []), (\<lambda>_. [])) 10 24 1 8 (sample_stream, sample_tables)"
  have e: "fst ?r = Inr [1]" "st_hub (fst (snd ?r)) = [1, 3]" "map br_disturbed (st_log (fst (snd ?r))) = [False]" by code_simp+
  then have "?r = (Inr [1], (fst (snd ?r), snd (snd ?r)))" by (simp add: prod_eq_iff)
  note t = alerts_reach_clients [OF this, of 1]
  have s: "st_log sample_stream = []" "distinct (st_hub sample_stream)" "1 \<in> set (st_hub sample_stream)"
    "\<forall>w \<in> set (st_waits sample_stream). Disconnect 1 \<notin> set (wt_actions w) \<and> 1 \<notin> set (wt_failing w)"
    by (simp_all add: sample_stream_def)
  obtain b where b: "st_log (fst (snd ?r)) = [b]" "\<not> br_disturbed b" using e(3) by (auto simp: map_eq_Cons_conv)
  have "sd_alerts (snd (snd ?r)) = sd_alerts sample_tables @ received_by 1 (st_log (fst (snd ?r)))"
    using t [OF s] unfolding b(1) by (simp add: b(2))
  with e(2) b(1) show ?thesis unfolding Let_def by (metis length_Cons list.size(3) One_nat_def)
qed


section \<open>Metrics\<close>

record sentinel_metrics =
  pm_ingested :: int
  pm_duplicates :: int
  pm_errors :: int
  pm_alerts :: int
  pm_by_severity :: "(string, int) dict"
  pm_runs :: int
  pm_connections :: int
  pm_disconnections :: int
  pm_events :: int
  pm_active :: int
  pm_unreviewed :: int
  pm_last_run :: "instant option"    \<comment> \<open>\<open>None\<close> is the initial integer 0\<close>
  pm_ingestion :: "rat list"
  pm_detection :: "rat list"
  pm_api :: "(string, rat list) dict"
  pm_hit_rate :: rat
  pm_pool :: rat

definition initial_metrics :: sentinel_metrics where
  "initial_metrics = \<lparr>pm_ingested = 0, pm_duplicates = 0, pm_errors = 0, pm_alerts = 0,
     pm_by_severity = [(''LOW'', 0), (''MEDIUM'', 0), (''HIGH'', 0), (''CRITICAL'', 0)],
     pm_runs = 0, pm_connections = 0, pm_disconnections = 0, pm_events = 0, pm_active = 0, pm_unreviewed = 0,
     pm_last_run = None, pm_ingestion = [], pm_detection = [], pm_api = [], pm_hit_rate = 0, pm_pool = 0\<rparr>"

datatype metric_event =
    Cdr_ingested int | Cdr_duplicates int | Ingestion_errors int | Alert_generated string | Detection_run instant
  | Websocket_connected | Websocket_disconnected | Realtime_events int | Unreviewed int
  | Ingestion_took rat | Detection_took rat | Api_request string rat | Hit_rate rat | Pool_utilization rat

definition increment_alert_generated :: "string \<Rightarrow> sentinel_metrics \<Rightarrow> sentinel_metrics" where
  "increment_alert_generated severity m =
     (let m1 = m\<lparr>pm_alerts := pm_alerts m + 1\<rparr> in
      case dict_get (pm_by_severity m1) severity of
        None \<Rightarrow> m1
      | Some n \<Rightarrow> m1\<lparr>pm_by_severity := dict_set severity (n + 1) (pm_by_severity m1)\<rparr>)"

definition decrement_websocket_connection :: "sentinel_metrics \<Rightarrow> sentinel_metrics" where
  "decrement_websocket_connection m =
     m\<lparr>pm_disconnections := pm_disconnections m + 1, pm_active := (if pm_active m > 0 then pm_active m - 1 else pm_active m)\<rparr>"

definition record_api_request :: "string \<Rightarrow> rat \<Rightarrow> sentinel_metrics \<Rightarrow> sentinel_metrics" where
  "record_api_request endpoint d m = m\<lparr>pm_api := record_operation endpoint d (pm_api m)\<rparr>"

fun metric_step :: "metric_event \<Rightarrow> sentinel_metrics \<Rightarrow> sentinel_metrics" where
  "metric_step (Cdr_ingested n) m = m\<lparr>pm_ingested := pm_ingested m + n\<rparr>"
| "metric_step (Cdr_duplicates n) m = m\<lparr>pm_duplicates := pm_duplicates m + n\<rparr>"
| "metric_step (Ingestion_errors n) m = m\<lparr>pm_errors := pm_errors m + n\<rparr>"
| "metric_step (Alert_generated s) m = increment_alert_generated s m"
| "metric_step (Detection_run now) m = m\<lparr>pm_runs := pm_runs m + 1, pm_last_run := Some now\<rparr>"
| "metric_step Websocket_connected m = m\<lparr>pm_connections := pm_connections m + 1, pm_active := pm_active m + 1\<rparr>"
| "metric_step Websocket_disconnected m = decrement_websocket_connection m"
| "metric_step (Realtime_events n) m = m\<lparr>pm_events := pm_events m + n\<rparr>"
| "metric_step (Unreviewed n) m = m\<lparr>pm_unreviewed := n\<rparr>"
| "metric_step (Ingestion_took d) m = m\<lparr>pm_ingestion := push_bounded 1000 d (pm_ingestion m)\<rparr>"
| "metric_step (Detection_took d) m = m\<lparr>pm_detection := push_bounded 1000 d (pm_detection m)\<rparr>"
| "metric_step (Api_request e d) m = record_api_request e d m"
| "metric_step (Hit_rate r) m = m\<lparr>pm_hit_rate := r\<rparr>"
| "metric_step (Pool_utilization r) m = m\<lparr>pm_pool := r\<rparr>"

definition calculate_percentile :: "rat list \<Rightarrow> rat \<Rightarrow> rat" where
  "calculate_percentile xs p =
     (if xs = [] then 0
      else let ds = sort xs in py_round 3 (ds ! min (quantile_index (length ds) p) (length ds - 1)))"

text \<open>The exposition format. \<open>num\<close> is \<open>str\<close> on a float.\<close>

definition metric_head :: "string \<Rightarrow> string \<Rightarrow> string \<Rightarrow> string list" where
  "metric_head name help kind =
     [''# HELP sentinel_'' @ name @ '' '' @ help, ''# TYPE sentinel_'' @ name @ '' '' @ kind]"

definition metric_lines :: "string \<Rightarrow> string \<Rightarrow> string \<Rightarrow> string \<Rightarrow> string list" where
  "metric_lines name help kind value = metric_head name help kind @ [''sentinel_'' @ name @ '' '' @ value]"

definition quoted :: "string \<Rightarrow> string" where
  "quoted s = CHR 0x22 # s @ [CHR 0x22]"

definition quantile_line :: "(rat \<Rightarrow> string) \<Rightarrow> string \<Rightarrow> rat list \<Rightarrow> string \<times> rat \<Rightarrow> string" where
  "quantile_line num name xs q =
     ''sentinel_'' @ name @ ''{quantile='' @ quoted (fst q) @ ''} '' @ num (calculate_percentile xs (snd q))"

definition quantile_lines :: "(rat \<Rightarrow> string) \<Rightarrow> string \<Rightarrow> string \<Rightarrow> rat list \<Rightarrow> string list" where
  "quantile_lines num name help xs =
     (if xs = [] then []
      else metric_head name help ''histogram''
        @ map (quantile_line num name xs) [(''0.5'', 1 / 2), (''0.95'', 95 / 100), (''0.99'', 99 / 100)])"

definition api_lines :: "(rat \<Rightarrow> string) \<Rightarrow> string \<times> rat list \<Rightarrow> string list" where
  "api_lines num e =
     (if snd e = [] then []
      else metric_head ''api_request_duration_seconds'' (''API request duration for '' @ fst e) ''histogram''
        @ [''sentinel_api_request_duration_seconds{endpoint='' @ quoted (fst e) @ '',quantile='' @ quoted ''0.95'' @ ''} ''
             @ num (calculate_percentile (snd e) (95 / 100))])"

definition get_prometheus_metrics :: "(rat \<Rightarrow> string) \<Rightarrow> sentinel_metrics \<Rightarrow> string" where
  "get_prometheus_metrics num m = join_with [CHR 0x0A]
     (metric_lines ''cdr_records_ingested_total'' ''Total CDR records ingested'' ''counter'' (show_int (pm_ingested m))
      @ metric_lines ''cdr_records_duplicate_total'' ''Total duplicate CDR records skipped'' ''counter'' (show_int (pm_duplicates m))
      @ metric_lines ''cdr_ingestion_errors_total'' ''Total CDR ingestion errors'' ''counter'' (show_int (pm_errors m))
      @ metric_lines ''alerts_generated_total'' ''Total fraud alerts generated'' ''counter'' (show_int (pm_alerts m))
      @ metric_head ''alerts_by_severity_total'' ''Alerts by severity level'' ''counter''
      @ map (\<lambda>(severity, count). ''sentinel_alerts_by_severity_total{severity='' @ quoted severity @ ''} '' @ show_int count) (pm_by_severity m)
      @ metric_lines ''detection_runs_total'' ''Total detection runs executed'' ''counter'' (show_int (pm_runs m))
      @ metric_lines ''websocket_connections_total'' ''Total WebSocket connections'' ''counter'' (show_int (pm_connections m))
      @ metric_lines ''realtime_events_received_total'' ''Total real-time events received'' ''counter'' (show_int (pm_events m))
      @ metric_lines ''active_websocket_connections'' ''Current active WebSocket connections'' ''gauge'' (show_int (pm_active m))
      @ metric_lines ''unreviewed_alerts'' ''Current unreviewed alerts'' ''gauge'' (show_int (pm_unreviewed m))
      @ metric_lines ''last_detection_timestamp'' ''Unix timestamp of last detection run'' ''gauge''
          (case pm_last_run m of None \<Rightarrow> ''0'' | Some t \<Rightarrow> num t)
      @ quantile_lines num ''ingestion_duration_seconds'' ''CDR ingestion duration'' (pm_ingestion m)
      @ quantile_lines num ''detection_duration_seconds'' ''Detection run duration'' (pm_detection m)
      @ concat (map (api_lines num) (pm_api m))
      @ metric_lines ''cache_hit_rate'' ''Cache hit rate percentage'' ''gauge'' (num (pm_hit_rate m))
      @ metric_lines ''database_pool_utilization'' ''Database connection pool utilization'' ''gauge'' (num (pm_pool m)))
     @ [CHR 0x0A]"

definition json_quantiles :: "rat list \<Rightarrow> py_val" where
  "json_quantiles xs =
     (if xs = [] then PNone
      else PDict [(''p50'', PFloat (calculate_percentile xs (1 / 2))), (''p95'', PFloat (calculate_percentile xs (95 / 100))),
                  (''p99'', PFloat (calculate_percentile xs (99 / 100)))])"

definition get_json_metrics :: "sentinel_metrics \<Rightarrow> py_val" where
  "get_json_metrics m = PDict
     [(''counters'', PDict
        [(''cdr_records_ingested_total'', PInt (pm_ingested m)), (''cdr_records_duplicate_total'', PInt (pm_duplicates m)),
         (''cdr_ingestion_errors_total'', PInt (pm_errors m)), (''alerts_generated_total'', PInt (pm_alerts m)),
         (''alerts_by_severity'', PDict (map (\<lambda>(s, n). (s, PInt n)) (pm_by_severity m))),
         (''detection_runs_total'', PInt (pm_runs m)), (''websocket_connections_total'', PInt (pm_connections m)),
         (''realtime_events_received_total'', PInt (pm_events m))]),
      (''gauges'', PDict
        [(''active_websocket_connections'', PInt (pm_active m)), (''unreviewed_alerts'', PInt (pm_unreviewed m)),
         (''last_detection_timestamp'', case pm_last_run m of None \<Rightarrow> PInt 0 | Some t \<Rightarrow> PFloat t),
         (''cache_hit_rate'', PFloat (pm_hit_rate m)), (''database_pool_utilization'', PFloat (pm_pool m))]),
      (''histograms'', PDict
        [(''ingestion_duration'', json_quantiles (pm_ingestion m)), (''detection_duration'', json_quantiles (pm_detection m))])]"

subsection \<open>What the metrics count\<close>

lemmas metric_step_defs = increment_alert_generated_def decrement_websocket_connection_def record_api_request_def Let_def

lemma severity_counts_step:
  "pm_by_severity m = map (\<lambda>s. (s, n s)) severity_levels \<Longrightarrow>
   pm_by_severity (metric_step e m)
     = map (\<lambda>s. (s, n s + (if e = Alert_generated s then 1 else 0))) severity_levels"
  by (cases e) (auto simp: metric_step_defs severity_levels_def dict_get_def dict_set_def)

definition websocket_inv :: "sentinel_metrics \<Rightarrow> bool" where
  "websocket_inv m \<longleftrightarrow> 0 \<le> pm_active m \<and> pm_active m \<le> pm_connections m
     \<and> pm_connections m \<le> pm_active m + pm_disconnections m \<and> 0 \<le> pm_disconnections m"

interpretation sockets: step_machine metric_step websocket_inv
proof unfold_locales
  fix m e assume "websocket_inv m"
  then show "websocket_inv (metric_step e m)"
    by (cases e) (auto simp: websocket_inv_def metric_step_defs split: option.splits)
qed

definition is_alert_event :: "metric_event \<Rightarrow> bool" where
  "is_alert_event e \<longleftrightarrow> (case e of Alert_generated _ \<Rightarrow> True | _ \<Rightarrow> False)"

definition ingestion_times :: "metric_event list \<Rightarrow> rat list" where
  "ingestion_times es = concat (map (\<lambda>e. case e of Ingestion_took d \<Rightarrow> [d] | _ \<Rightarrow> []) es)"

lemma metric_counts:
  "pm_by_severity (fold metric_step es initial_metrics) = map (\<lambda>s. (s, int (count_list es (Alert_generated s)))) severity_levels"
  "pm_alerts (fold metric_step es initial_metrics) = int (length (filter is_alert_event es))"
  "pm_ingestion (fold metric_step es initial_metrics) = take_last 1000 (ingestion_times es)"
proof -
  show "pm_by_severity (fold metric_step es initial_metrics) = map (\<lambda>s. (s, int (count_list es (Alert_generated s)))) severity_levels"
  proof (induction es rule: rev_induct)
    case Nil
    then show ?case by (simp add: initial_metrics_def severity_levels_def)
  next
    case (snoc e es)
    from severity_counts_step [OF snoc, of e] show ?case by auto
  qed
  show "pm_alerts (fold metric_step es initial_metrics) = int (length (filter is_alert_event es))"
  proof (induction es rule: rev_induct)
    case (snoc e es)
    then show ?case by (cases e) (auto simp: is_alert_event_def metric_step_defs split: option.splits)
  qed (simp add: initial_metrics_def)
  show "pm_ingestion (fold metric_step es initial_metrics) = take_last 1000 (ingestion_times es)"
  proof (induction es rule: rev_induct)
    case (snoc e es)
    then show ?case
      by (cases e) (auto simp: ingestion_times_def metric_step_defs push_bounded_eq take_last_append_take_last split: option.splits)
  qed (simp add: initial_metrics_def ingestion_times_def)
qed

text \<open>After any sequence of measurements each known severity counts its alerts and the total counts all of them; the gauge
  of open sockets is never negative, at most the connections made and at least those not yet counted as closed; the
  ingestion times kept are the last thousand.\<close>

theorem metrics_account:
  "pm_by_severity (fold metric_step es initial_metrics) = map (\<lambda>s. (s, int (count_list es (Alert_generated s)))) severity_levels
   \<and> pm_alerts (fold metric_step es initial_metrics) = int (length (filter is_alert_event es))
   \<and> 0 \<le> pm_active (fold metric_step es initial_metrics)
   \<and> pm_active (fold metric_step es initial_metrics) \<le> pm_connections (fold metric_step es initial_metrics)
   \<and> pm_connections (fold metric_step es initial_metrics)
       \<le> pm_active (fold metric_step es initial_metrics) + pm_disconnections (fold metric_step es initial_metrics)
   \<and> pm_ingestion (fold metric_step es initial_metrics) = take_last 1000 (ingestion_times es)"
proof -
  have "websocket_inv initial_metrics" by (simp add: websocket_inv_def initial_metrics_def)
  from sockets.run_keeps [OF this, of es] show ?thesis
    by (simp add: metric_counts websocket_inv_def)
qed

end
