(* ===== verification/MockData.thy ===== *)
theory MockData
  imports Sentinel "HOL-Library.Multiset"
begin

text \<open>
  The generator of test files, \<open>app/sentinel/mock_data.py\<close>, and its composition with the parser it feeds.

  \<open>random.Random\<close> is a stream of draws, read at a position that every call moves on; shuffling is a parameter that
  permutes. A generated call is a \<^typ>\<open>call_record\<close> without a location, its date and time printed by \<open>strftime\<close>.
\<close>

section \<open>Draws\<close>

type_synonym stream = "nat \<Rightarrow> nat"

type_synonym 'a rand = "nat \<Rightarrow> 'a \<times> nat"

definition randint :: "stream \<Rightarrow> nat \<Rightarrow> nat \<Rightarrow> nat rand" where
  "randint d lo hi i = (lo + d i mod (hi - lo + 1), i + 1)"

definition pick :: "stream \<Rightarrow> 'a list \<Rightarrow> 'a rand" where
  "pick d xs i = (xs ! (d i mod length xs), i + 1)"

fun repeat_rand :: "nat \<Rightarrow> 'a rand \<Rightarrow> 'a list rand" where
  "repeat_rand 0 m i = ([], i)"
| "repeat_rand (Suc n) m i = (case m i of (x, j) \<Rightarrow> case repeat_rand n m j of (xs, k) \<Rightarrow> (x # xs, k))"


section \<open>The generator\<close>

definition number_prefixes :: "string list" where
  "number_prefixes = map (\<lambda>n. ''+234'' @ show_nat n) ([701..<710] @ [801..<819] @ [901..<919])"

definition termination_causes :: "string list" where
  "termination_causes = [''NORMAL_CLEARING'', ''USER_BUSY'', ''NO_ANSWER'', ''CALL_REJECTED'', ''NETWORK_ERROR'']"

definition call_directions :: "string list" where
  "call_directions = [''inbound'', ''outbound'']"

definition generate_phone_number :: "stream \<Rightarrow> string rand" where
  "generate_phone_number d i =
     (case pick d number_prefixes i of (p, j) \<Rightarrow>
        case repeat_rand 7 (randint d 0 9) j of (ds, k) \<Rightarrow> (p @ concat (map show_nat ds), k))"

definition generate_normal_call :: "stream \<Rightarrow> instant \<Rightarrow> call_record rand" where
  "generate_normal_call d t i0 =
     (case randint d 30 1800 i0 of (n, i1) \<Rightarrow>
      case generate_phone_number d i1 of (caller, i2) \<Rightarrow>
      case generate_phone_number d i2 of (callee, i3) \<Rightarrow>
      case pick d call_directions i3 of (direction, i4) \<Rightarrow>
      case pick d termination_causes i4 of (cause, i5) \<Rightarrow>
        (\<lparr>sr_stamp = Naive t, sr_caller = caller, sr_callee = callee, sr_duration = int n,
          sr_direction = Some direction, sr_cause = Some cause, sr_location = None\<rparr>, i5))"

definition generate_simbox_call :: "stream \<Rightarrow> string \<Rightarrow> instant \<Rightarrow> call_record rand" where
  "generate_simbox_call d caller t i0 =
     (case randint d 1 5 i0 of (n, i1) \<Rightarrow>
      case generate_phone_number d i1 of (callee, i2) \<Rightarrow>
        (\<lparr>sr_stamp = Naive t, sr_caller = caller, sr_callee = callee, sr_duration = int n,
          sr_direction = Some ''outbound'', sr_cause = Some ''NORMAL_CLEARING'', sr_location = None\<rparr>, i2))"

text \<open>A call at a random minute of the twenty-three hours after \<open>base\<close>.\<close>

definition at_random_minute :: "stream \<Rightarrow> instant \<Rightarrow> (instant \<Rightarrow> 'a rand) \<Rightarrow> 'a rand" where
  "at_random_minute d base f i = (case randint d 0 (23 * 60) i of (k, j) \<Rightarrow> f (base + of_nat k * 60) j)"

fun simbox_calls :: "stream \<Rightarrow> instant \<Rightarrow> nat \<Rightarrow> string list \<Rightarrow> call_record list rand" where
  "simbox_calls d base n [] i = ([], i)"
| "simbox_calls d base n (c # cs) i =
     (case repeat_rand n (at_random_minute d base (generate_simbox_call d c)) i of (rs, j) \<Rightarrow>
      case simbox_calls d base n cs j of (qs, k) \<Rightarrow> (rs @ qs, k))"

definition generate_dataset ::
  "stream \<Rightarrow> (call_record list \<Rightarrow> call_record list) \<Rightarrow> instant \<Rightarrow> nat \<Rightarrow> nat \<Rightarrow> nat \<Rightarrow> call_record list \<times> string list" where
  "generate_dataset d shuffle base total_records callers per_caller =
     (case repeat_rand callers (generate_phone_number d) 0 of (simboxes, i) \<Rightarrow>
      case simbox_calls d base per_caller simboxes i of (rs, j) \<Rightarrow>
      case repeat_rand (total_records - length rs) (at_random_minute d base (generate_normal_call d)) j of (qs, k) \<Rightarrow>
        (shuffle (rs @ qs), simboxes))"

definition mock_header :: "string list" where
  "mock_header = required_fields @ [''call_direction'', ''termination_cause'']"

definition mock_row :: "(instant \<Rightarrow> string) \<Rightarrow> (instant \<Rightarrow> string) \<Rightarrow> call_record \<Rightarrow> string list" where
  "mock_row day clock r = butlast (record_row day clock r)"

text \<open>The writer quotes nothing, as no field has a quote, a comma or a line end in it.\<close>

definition generate_csv ::
  "stream \<Rightarrow> (call_record list \<Rightarrow> call_record list) \<Rightarrow> (instant \<Rightarrow> string) \<Rightarrow> (instant \<Rightarrow> string) \<Rightarrow> instant \<Rightarrow> nat \<Rightarrow> nat \<Rightarrow> nat \<Rightarrow>
   string \<times> string list" where
  "generate_csv d shuffle day clock base total_records callers per_caller =
     (case generate_dataset d shuffle base total_records callers per_caller of (rs, simboxes) \<Rightarrow>
        (concat (map plain_line (mock_header # map (mock_row day clock) rs)), simboxes))"


section \<open>What is generated\<close>

lemma repeat_rand_all:
  "repeat_rand n m i = (xs, j) \<Longrightarrow> (\<And>k x k'. m k = (x, k') \<Longrightarrow> P x) \<Longrightarrow> list_all P xs \<and> length xs = n"
  by (induction n arbitrary: i xs) (auto split: prod.splits)

lemma pick_in: "xs \<noteq> [] \<Longrightarrow> pick d xs i = (x, j) \<Longrightarrow> x \<in> set xs"
  by (auto simp: pick_def)

definition mock_number :: "string \<Rightarrow> bool" where
  "mock_number v \<longleftrightarrow> valid_number v \<and> py_strip v = v"

lemma prefix_shape: "p \<in> set number_prefixes \<Longrightarrow> \<exists>x ds. p = CHR ''+'' # x # ds \<and> is_digit x \<and> x \<noteq> CHR ''0'' \<and> list_all is_digit ds \<and> length ds = 5"
proof -
  assume p: "p \<in> set number_prefixes"
  have "list_all (\<lambda>p. length p = 7 \<and> hd p = CHR ''+'' \<and> hd (tl p) = CHR ''2'' \<and> list_all is_digit (drop 2 p)) number_prefixes"
    by code_simp
  then have "length p = 7 \<and> hd p = CHR ''+'' \<and> hd (tl p) = CHR ''2'' \<and> list_all is_digit (drop 2 p)"
    using p by (auto simp: list_all_iff)
  then show ?thesis
    by (intro exI [of _ "CHR ''2''"] exI [of _ "drop 2 p"]; cases p; cases "tl p") (auto simp: is_digit_def char_code_def)
qed

lemma show_digit: "n \<le> 9 \<Longrightarrow> \<exists>c. show_nat n = [c] \<and> is_digit c"
  by (subst show_nat.simps) (auto intro: is_digit_char)

lemma seven_digits:
  "list_all (\<lambda>n. n \<le> 9) ns \<Longrightarrow> list_all is_digit (concat (map show_nat ns)) \<and> length (concat (map show_nat ns)) = length ns"
proof (induction ns)
  case (Cons n ns)
  then show ?case using show_digit [of n] by auto
qed simp

lemma generated_number:
  assumes "generate_phone_number d i = (v, j)"
  shows "mock_number v"
proof -
  obtain p i1 where p: "pick d number_prefixes i = (p, i1)" by fastforce
  obtain ns i2 where ns: "repeat_rand 7 (randint d 0 9) i1 = (ns, i2)" by fastforce
  have v: "v = p @ concat (map show_nat ns)" using assms p ns by (simp add: generate_phone_number_def)
  have "number_prefixes \<noteq> []" by (simp add: number_prefixes_def)
  from prefix_shape [OF pick_in [OF this p]] obtain x ds where
    x: "p = CHR ''+'' # x # ds" "is_digit x" "x \<noteq> CHR ''0''" "list_all is_digit ds" "length ds = 5" by blast
  have n: "list_all (\<lambda>n. n \<le> 9) ns \<and> length ns = 7"
  proof (rule repeat_rand_all [OF ns])
    fix k y k' assume r: "randint d 0 9 k = (y, k')"
    have "d k mod 10 < 10" by simp
    with r show "y \<le> 9" by (auto simp: randint_def)
  qed
  obtain t where t0: "t = concat (map show_nat ns)" by simp
  have t: "list_all is_digit t" "length t = 7" using seven_digits [of ns] n by (auto simp: t0)
  have v: "v = CHR ''+'' # x # ds @ t" using v by (simp add: x(1) t0)
  have all: "list_all is_digit (x # ds @ t)" using x t by simp
  then have tw: "takeWhile is_digit (x # ds @ t) = x # ds @ t" "dropWhile is_digit (x # ds @ t) = []"
    by (simp_all only: takeWhile_eq_all_conv dropWhile_eq_Nil_conv list_all_iff)
  have w: "(case v of c # cs \<Rightarrow> if c = CHR ''+'' then cs else v | [] \<Rightarrow> []) = x # ds @ t" by (simp add: v)
  have e: "is_e164 v" unfolding is_e164_def w Let_def tw using x(3,5) t(2) by simp
  have "py_strip v = v"
  proof (rule py_strip_id)
    have "last v \<in> set (x # ds @ t)" unfolding v by (metis append_Cons last_ConsR last_in_set list.distinct(1))
    then have "is_digit (last v)" using all by (auto simp: list_all_iff)
    then show "v = [] \<or> \<not> is_space (hd v) \<and> \<not> is_space (last v)"
      by (auto simp: v is_space_def char_code_def dest: is_digit_not_space)
  qed
  then show ?thesis using e x(5) t(2) by (simp add: mock_number_def valid_number_def v)
qed

definition mock_call :: "instant \<Rightarrow> call_record \<Rightarrow> bool" where
  "mock_call base r \<longleftrightarrow> mock_number (sr_caller r) \<and> mock_number (sr_callee r) \<and> sr_duration r \<ge> 0
     \<and> sr_direction r \<in> Some ` set call_directions \<and> sr_cause r \<in> Some ` set termination_causes \<and> sr_location r = None
     \<and> (\<exists>k \<le> 1380. sr_stamp r = Naive (base + of_nat k * 60))"

lemma simbox_call:
  assumes "generate_simbox_call d c t i = (r, j)"
  shows "sr_caller r = c \<and> mock_number (sr_callee r) \<and> 1 \<le> sr_duration r \<and> sr_duration r \<le> 5 \<and> sr_stamp r = Naive t
    \<and> sr_direction r = Some ''outbound'' \<and> sr_cause r = Some ''NORMAL_CLEARING'' \<and> sr_location r = None"
proof -
  obtain callee k where c: "generate_phone_number d (i + 1) = (callee, k)" by fastforce
  have "d i mod 5 \<le> 4" by (metis Suc_numeral less_Suc_eq_le mod_less_divisor semiring_norm(2) zero_less_numeral semiring_norm(5))
  then show ?thesis using assms c generated_number [OF c]
    by (auto simp: generate_simbox_call_def randint_def)
qed

lemma normal_call:
  assumes "generate_normal_call d t i = (r, j)"
  shows "mock_number (sr_caller r) \<and> mock_number (sr_callee r) \<and> sr_duration r \<ge> 0 \<and> sr_stamp r = Naive t
    \<and> sr_direction r \<in> Some ` set call_directions \<and> sr_cause r \<in> Some ` set termination_causes \<and> sr_location r = None"
proof -
  obtain caller i2 where a: "generate_phone_number d (i + 1) = (caller, i2)" by fastforce
  obtain callee i3 where b: "generate_phone_number d i2 = (callee, i3)" by fastforce
  obtain dir i4 where c: "pick d call_directions i3 = (dir, i4)" by fastforce
  obtain cause i5 where e: "pick d termination_causes i4 = (cause, i5)" by fastforce
  have "dir \<in> set call_directions" by (rule pick_in [OF _ c]) (simp add: call_directions_def)
  moreover have "cause \<in> set termination_causes" by (rule pick_in [OF _ e]) (simp add: termination_causes_def)
  ultimately show ?thesis using assms a b c e generated_number [OF a] generated_number [OF b]
    by (auto simp: generate_normal_call_def randint_def)
qed

lemma random_minute:
  assumes "at_random_minute d base f i = (r, j)"
  obtains k i1 where "k \<le> 1380" "f (base + of_nat k * 60) i1 = (r, j)"
proof -
  have "d i mod 1381 \<le> 1380" by (simp add: less_Suc_eq_le [symmetric])
  then show thesis using that [of "d i mod 1381" "i + 1"] assms by (simp add: at_random_minute_def randint_def)
qed

lemma minute_simbox_call:
  assumes "at_random_minute d base (generate_simbox_call d c) i = (r, j)" "mock_number c"
  shows "mock_call base r \<and> sr_caller r = c \<and> sr_duration r \<le> 5"
proof -
  from random_minute [OF assms(1)] obtain k i1 where k: "k \<le> 1380" "generate_simbox_call d c (base + of_nat k * 60) i1 = (r, j)" .
  from simbox_call [OF k(2)] k(1) assms(2) show ?thesis
    by (auto simp: mock_call_def call_directions_def termination_causes_def)
qed

lemma minute_normal_call:
  assumes "at_random_minute d base (generate_normal_call d) i = (r, j)"
  shows "mock_call base r"
proof -
  from random_minute [OF assms(1)] obtain k i1 where k: "k \<le> 1380" "generate_normal_call d (base + of_nat k * 60) i1 = (r, j)" .
  from normal_call [OF k(2)] k(1) show ?thesis by (auto simp: mock_call_def)
qed

lemma simbox_calls_all:
  assumes "simbox_calls d base n cs i = (rs, j)" "list_all mock_number cs"
  shows "list_all (mock_call base) rs \<and> length rs = n * length cs
    \<and> (\<forall>c\<in>set cs. n \<le> length (calls_of c rs)) \<and> list_all (\<lambda>r. sr_duration r \<le> 5) rs"
  using assms
proof (induction cs arbitrary: i rs)
  case (Cons c cs)
  obtain as i1 where a: "repeat_rand n (at_random_minute d base (generate_simbox_call d c)) i = (as, i1)" by fastforce
  obtain bs where b: "simbox_calls d base n cs i1 = (bs, j)" "rs = as @ bs"
    using Cons.prems(1) a by (auto split: prod.splits)
  have c: "mock_number c" "list_all mock_number cs" using Cons.prems(2) by simp_all
  have "list_all (\<lambda>r. mock_call base r \<and> sr_caller r = c \<and> sr_duration r \<le> 5) as \<and> length as = n"
    by (rule repeat_rand_all [OF a]) (rule minute_simbox_call [OF _ c(1)])
  then have as: "list_all (mock_call base) as" "calls_of c as = as" "list_all (\<lambda>r. sr_duration r \<le> 5) as" "length as = n"
    by (auto simp: list_all_iff calls_of_def filter_id_conv)
  from Cons.IH [OF b(1) c(2)] as b(2) show ?case
    by (auto simp: calls_of_def algebra_simps trans_le_add2)
qed simp

text \<open>What \<open>strftime\<close> and \<open>strptime\<close> do on the minutes of the generated day.\<close>

definition reads_back :: "(string \<Rightarrow> instant option) \<Rightarrow> (instant \<Rightarrow> string) \<Rightarrow> (instant \<Rightarrow> string) \<Rightarrow> instant \<Rightarrow> bool" where
  "reads_back strptime day clock base \<longleftrightarrow>
     (\<forall>k \<le> 1380. let t = base + of_nat k * 60 in tidy (day t) \<and> tidy (clock t) \<and> strptime (day t @ '' '' @ clock t) = Some t)"

lemma mock_call_printable:
  assumes "mock_call base r" "reads_back strptime day clock base"
  shows "printable strptime day clock r" "sr_location r = None" "sr_direction r \<noteq> None" "sr_cause r \<noteq> None"
proof -
  obtain k where k: "k \<le> 1380" "sr_stamp r = Naive (base + of_nat k * 60)" using assms(1) by (auto simp: mock_call_def)
  have t: "tidy (day (base + of_nat k * 60))" "tidy (clock (base + of_nat k * 60))"
    "strptime (day (base + of_nat k * 60) @ '' '' @ clock (base + of_nat k * 60)) = Some (base + of_nat k * 60)"
    using assms(2) k(1) by (simp_all add: reads_back_def Let_def)
  have d: "list_all (\<lambda>v. valid_direction (Some v) \<and> tidy_option (Some v)) call_directions" by code_simp
  have c: "list_all (\<lambda>v. at_most 50 (Some v) \<and> tidy_option (Some v)) termination_causes" by code_simp
  have m: "mock_number (sr_caller r)" "mock_number (sr_callee r)" "sr_duration r \<ge> 0" "sr_location r = None"
    "sr_direction r \<in> Some ` set call_directions" "sr_cause r \<in> Some ` set termination_causes"
    using assms(1) by (simp_all add: mock_call_def)
  have "valid_direction (sr_direction r)" "tidy_option (sr_direction r)" "at_most 50 (sr_cause r)" "tidy_option (sr_cause r)"
    using m(5,6) d c by (auto simp: list_all_iff)
  then show "printable strptime day clock r"
    using m k(2) t by (simp add: printable_def valid_record_def mock_number_def at_most_def tidy_option_def)
  show "sr_location r = None" "sr_direction r \<noteq> None" "sr_cause r \<noteq> None" using m by auto
qed

lemma mock_row_eq:
  "mock_row day clock r = [day (stamp_instant (sr_stamp r)), clock (stamp_instant (sr_stamp r)), sr_caller r, sr_callee r,
      show_nat (nat (sr_duration r)), or_empty (sr_direction r), or_empty (sr_cause r)]"
  by (simp add: mock_row_def record_row_def)

lemma mock_row_read:
  assumes "printable strptime day clock r" "sr_location r = None"
  shows "plain_row (mock_row day clock r)" "parse_row strptime (dict_row mock_header (mock_row day clock r) []) = Inr r"
proof -
  show "plain_row (mock_row day clock r)"
    using printable_plain [OF assms(1)] unfolding plain_row_def mock_row_eq record_row_def by simp
  have t: "tidy_option (sr_direction r)" "tidy_option (sr_cause r)" using assms(1) by (simp_all add: printable_def)
  show "parse_row strptime (dict_row mock_header (mock_row day clock r) []) = Inr r"
    by (rule parse_row_fields [OF assms(1)])
      (use t assms(2) in \<open>simp_all add: optional_field_empty mock_header_def required_fields_def mock_row_eq optional_field_def [of _ "''location_code''"]\<close>)
qed

lemma generate_dataset_spec:
  assumes "generate_dataset d shuffle base total_records callers per_caller = (rs, simboxes)"
    and "\<And>xs. mset (shuffle xs) = mset xs"
  shows "list_all (mock_call base) rs" "length rs = max total_records (per_caller * callers)" "length simboxes = callers"
    "\<forall>c\<in>set simboxes. per_caller \<le> length (calls_of c rs)"
proof -
  obtain i where n: "repeat_rand callers (generate_phone_number d) 0 = (simboxes, i)"
    using assms(1) by (auto simp: generate_dataset_def split: prod.splits)
  obtain as j where a: "simbox_calls d base per_caller simboxes i = (as, j)" by fastforce
  obtain bs k where b: "repeat_rand (total_records - length as) (at_random_minute d base (generate_normal_call d)) j = (bs, k)" by fastforce
  have rs: "rs = shuffle (as @ bs)" using assms(1) n a b by (simp add: generate_dataset_def)
  have s: "list_all mock_number simboxes \<and> length simboxes = callers" by (rule repeat_rand_all [OF n]) (rule generated_number)
  from simbox_calls_all [OF a] s
  have as: "list_all (mock_call base) as" "length as = per_caller * callers" "\<forall>c\<in>set simboxes. per_caller \<le> length (calls_of c as)"
    by auto
  have bs: "list_all (mock_call base) bs \<and> length bs = total_records - length as" by (rule repeat_rand_all [OF b]) (rule minute_normal_call)
  have m: "mset rs = mset as + mset bs" using assms(2) rs by simp
  have "set rs = set as \<union> set bs" using m by (metis mset_append set_append set_mset_mset)
  then show "list_all (mock_call base) rs" using as(1) bs by (auto simp: list_all_iff)
  have "length rs = length as + length bs" using m by (metis mset_append length_append size_mset)
  then show "length rs = max total_records (per_caller * callers)" using as(2) bs by simp
  show "length simboxes = callers" using s by simp
  have "length (calls_of c rs) = length (calls_of c as) + length (calls_of c bs)" for c
  proof -
    have "mset (calls_of c rs) = mset (calls_of c as @ calls_of c bs)" using m by (simp add: calls_of_def mset_filter)
    then show ?thesis by (metis length_append size_mset)
  qed
  then show "\<forall>c\<in>set simboxes. per_caller \<le> length (calls_of c rs)" using as(3) by (simp add: trans_le_add1)
qed

lemma generated_file_parses:
  assumes "list_all (mock_call base) rs" "reads_back strptime day clock base"
    and "content = concat (map plain_line (mock_header # map (mock_row day clock) rs))" "decode content = Inr content"
  shows "parse_csv decode strptime content = (rs, [])"
proof -
  have p: "printable strptime day clock r" "sr_location r = None" if "r \<in> set rs" for r
    using mock_call_printable [OF _ assms(2), of r] assms(1) that by (auto simp: list_all_iff)
  show ?thesis
  proof (rule parse_csv_printed [where f = "mock_row day clock" and h = mock_header])
    show "plain_row mock_header" by code_simp
    show "validate_headers (Some mock_header) = []" by code_simp
    show "decode content = Inr (concat (map plain_line (mock_header # map (mock_row day clock) rs)))" using assms(3,4) by simp
    show "plain_row (mock_row day clock r)" if "r \<in> set rs" for r
      using mock_row_read(1) [OF p [OF that]] .
    show "parse_row strptime (dict_row mock_header (mock_row day clock r) []) = Inr r" if "r \<in> set rs" for r
      using mock_row_read(2) [OF p [OF that]] .
  qed
qed

text \<open>Generator and parser fit: the parser accepts a generated file without an error and returns the records that were
  generated, at least as many as asked for, and each of the declared SIM box numbers is the caller of at least as many
  as it should be.\<close>

theorem mock_file_parses:
  assumes "\<And>xs. mset (shuffle xs) = mset xs" and "reads_back strptime day clock base"
    and "generate_dataset d shuffle base total_records callers per_caller = (rs, simboxes)"
    and "decode (fst (generate_csv d shuffle day clock base total_records callers per_caller))
         = Inr (fst (generate_csv d shuffle day clock base total_records callers per_caller))"
  shows "parse_csv decode strptime (fst (generate_csv d shuffle day clock base total_records callers per_caller)) = (rs, [])
    \<and> length rs = max total_records (per_caller * callers) \<and> length simboxes = callers
    \<and> (\<forall>c\<in>set simboxes. per_caller \<le> length (calls_of c rs))"
proof -
  note spec = generate_dataset_spec [OF assms(3,1)]
  have "parse_csv decode strptime (fst (generate_csv d shuffle day clock base total_records callers per_caller)) = (rs, [])"
    by (rule generated_file_parses [OF spec(1) assms(2)]) (use assms(3,4) in \<open>simp_all add: generate_csv_def\<close>)
  with spec(2-4) show ?thesis by blast
qed

text \<open>Days and times that are read back: a fixed day, and the seconds since midnight.\<close>

definition seconds_clock :: "instant \<Rightarrow> string" where
  "seconds_clock t = show_nat (nat \<lfloor>t\<rfloor>)"

definition read_seconds :: "string \<Rightarrow> instant option" where
  "read_seconds s = Some (of_nat (digits_value (drop 11 s)))"

lemma sample_reads_back: "reads_back read_seconds (\<lambda>_. ''2026-01-01'') seconds_clock 0"
proof -
  have day: "tidy ''2026-01-01''" by code_simp
  have "tidy (show_nat n)" for n
    using show_nat_digits [of n] py_strip_digits [OF show_nat_digits] by (auto simp: tidy_def list_all_iff intro: digit_plain)
  moreover have "seconds_clock (of_nat k * 60) = show_nat (k * 60)" for k
  proof -
    have "\<lfloor>of_nat k * (60 :: rat)\<rfloor> = int (k * 60)" by (metis floor_of_nat of_nat_mult of_nat_numeral)
    then have "nat \<lfloor>of_nat k * (60 :: rat)\<rfloor> = k * 60" by (metis nat_int)
    then show ?thesis by (simp only: seconds_clock_def)
  qed
  ultimately show ?thesis using day by (simp add: reads_back_def read_seconds_def Let_def digits_value_show)
qed

theorem mock_file_parses_witness:
  "parse_csv Inr read_seconds (fst (generate_csv (\<lambda>i. i) rev (\<lambda>_. ''2026-01-01'') seconds_clock 0 3 1 2))
     = (fst (generate_dataset (\<lambda>i. i) rev 0 3 1 2), [])"
proof -
  have "mset (rev xs) = mset xs" for xs :: "call_record list" by simp
  from mock_file_parses [OF this sample_reads_back, of "\<lambda>i. i" 3 1 2 "fst (generate_dataset (\<lambda>i. i) rev 0 3 1 2)"
      "snd (generate_dataset (\<lambda>i. i) rev 0 3 1 2)" Inr]
  show ?thesis by simp
qed

text \<open>A declared SIM box need not be one that the detector finds: its calls last three seconds on average, and the detector
  asks for less.\<close>

definition three_seconds :: stream where
  "three_seconds i = (if i = 9 \<or> i = 19 then 2 else if i = 20 then 1 else 0)"

lemma simbox_missed:
  "case generate_dataset three_seconds id 0 2 1 2 of (rs, simboxes) \<Rightarrow>
     simboxes \<noteq> [] \<and> destinations (calls_of (hd simboxes) rs) = 2
     \<and> detect_sdhf_patterns 0 24 1 3 (empty_tables\<lparr>sd_calls := rs\<rparr>) = []"
  by code_simp

end
