(* ===== verification/Guardrail.thy ===== *)
theory Guardrail
  imports PyText "HOL-Library.Char_ord" "HOL-Library.List_Lexorder"
begin

text \<open>
  The checks that guard changes of the repository: the tier check of pull requests (\<open>scripts/ci/aidd_guardrail_check.py\<close>),
  the drift report between two directories (\<open>scripts/transform/detect_conflicts.py\<close>) and the self-healing of failed
  workflows (\<open>scripts/self_heal.py\<close>). Files are given by their contents; the shell commands are parameters.
\<close>

section \<open>Patterns and paths\<close>

definition t0_patterns :: "string list" where
  "t0_patterns = [''*.md'', ''*.mdx'', ''*.rst'', ''*.txt'', ''*.adoc'', ''docs/**'', ''.gitignore'', ''.editorconfig'',
     ''.prettierrc'', ''.prettierignore'', ''.gitattributes'', ''CHANGELOG.md'', ''README.md'', ''CONTRIBUTING.md'']"

definition t2_patterns :: "string list" where
  "t2_patterns = [''.github/workflows/**'', ''infrastructure/**'', ''database/**'', ''hasura/**'', ''security/**'',
     ''monitoring/**'', ''Dockerfile'', ''**/Dockerfile'', ''**/*.sql'', ''**/migrations/**'', ''**/auth/**'',
     ''**/authorization/**'']"

text \<open>\<open>fnmatch.fnmatch\<close> on a POSIX system: a star matches any text, slashes included, a question mark one character. The
  patterns have no brackets.\<close>

fun fnmatch :: "string \<Rightarrow> string \<Rightarrow> bool" where
  "fnmatch [] s = (s = [])"
| "fnmatch (x # p) [] = (x = CHR ''*'' \<and> fnmatch p [])"
| "fnmatch (x # p) (c # s) =
     (if x = CHR ''*'' then fnmatch p (c # s) \<or> fnmatch (x # p) s
      else (x = CHR ''?'' \<or> x = c) \<and> fnmatch p s)"

definition matches_any :: "string \<Rightarrow> string list \<Rightarrow> bool" where
  "matches_any path patterns = list_ex (\<lambda>p. fnmatch p path) patterns"

definition normalize_path :: "string \<Rightarrow> string" where
  "normalize_path p = dropWhile (\<lambda>c. c = CHR ''.'' \<or> c = CHR ''/'') (py_strip p)"

definition classify_file :: "string \<Rightarrow> nat" where
  "classify_file path = (if matches_any path t2_patterns then 2 else if matches_any path t0_patterns then 0 else 1)"

text \<open>\<open>str.splitlines()\<close>: a carriage return with its line feed is one end.\<close>

definition line_end :: "char \<Rightarrow> bool" where
  "line_end c \<longleftrightarrow> (let n = char_code c in (10 \<le> n \<and> n \<le> 13) \<or> (28 \<le> n \<and> n \<le> 30) \<or> n = 133)"

fun splitlines_from :: "string \<Rightarrow> string \<Rightarrow> string list" where
  "splitlines_from cur [] = (if cur = [] then [] else [cur])"
| "splitlines_from cur (c # cs) =
     (if \<not> line_end c then splitlines_from (cur @ [c]) cs
      else if c = CHR 0x0D \<and> cs \<noteq> [] \<and> hd cs = CHR 0x0A then cur # splitlines_from [] (tl cs)
      else cur # splitlines_from [] cs)"

definition splitlines :: "string \<Rightarrow> string list" where
  "splitlines s = splitlines_from [] s"

text \<open>\<open>None\<close> is a file that does not exist.\<close>

definition load_changed_files :: "string option \<Rightarrow> string list" where
  "load_changed_files f = (case f of None \<Rightarrow> [] | Some t \<Rightarrow> filter (\<lambda>p. p \<noteq> []) (map normalize_path (splitlines t)))"


section \<open>The declaration in the pull request\<close>

text \<open>A match of \<open>-\s*\[(x|X)\]\s*\*\*T([012])\*\*\<close> at the start of a text: the tier and the rest.\<close>

definition checkbox_at :: "string \<Rightarrow> (nat \<times> string) option" where
  "checkbox_at s =
     (case s of [] \<Rightarrow> None | c # a \<Rightarrow>
        if c \<noteq> CHR ''-'' then None
        else
          (let b = dropWhile is_space a in
           if \<not> (startswith ''[x]'' b \<or> startswith ''[X]'' b) then None
           else
             (let d = dropWhile is_space (drop 3 b) in
              if startswith ''**T0**'' d then Some (0, drop 6 d)
              else if startswith ''**T1**'' d then Some (1, drop 6 d)
              else if startswith ''**T2**'' d then Some (2, drop 6 d) else None)))"

lemma checkbox_at_shorter: "checkbox_at s = Some (t, r) \<Longrightarrow> length r < length s"
proof -
  assume c: "checkbox_at s = Some (t, r)"
  then obtain a where s: "s = CHR ''-'' # a" by (auto simp: checkbox_at_def Let_def split: list.splits if_splits)
  let ?b = "dropWhile is_space a"
  have "r = drop 6 (dropWhile is_space (drop 3 ?b))"
    using c s by (auto simp: checkbox_at_def Let_def split: if_splits)
  then have "length r \<le> length (dropWhile is_space (drop 3 ?b))" by simp
  also have "\<dots> \<le> length (drop 3 ?b)" by (rule length_dropWhile_le)
  also have "\<dots> \<le> length ?b" by simp
  also have "\<dots> \<le> length a" by (rule length_dropWhile_le)
  finally show ?thesis using s by simp
qed

text \<open>\<open>re.findall\<close>: the tiers of the matches, from left to right and without overlap.\<close>

function checkboxes :: "string \<Rightarrow> nat list" where
  "checkboxes s =
     (if s = [] then []
      else case checkbox_at s of Some (t, r) \<Rightarrow> t # checkboxes r | None \<Rightarrow> checkboxes (tl s))"
  by pat_completeness auto
termination by (relation "measure length") (auto dest: checkbox_at_shorter)

declare checkboxes.simps [simp del]

datatype tier_error = No_tier | Several_tiers

definition parse_declared_tier :: "string \<Rightarrow> tier_error + nat" where
  "parse_declared_tier body = (case checkboxes body of [] \<Rightarrow> Inl No_tier | [t] \<Rightarrow> Inr t | _ \<Rightarrow> Inl Several_tiers)"

text \<open>What \<open>(?im)^Admin Approval Reference:\s*(.+)$\<close> captures after the colon, stripped. The white space it skips may
  hold line ends; when nothing else follows, it gives back a blank that is not a line end, if there is one.\<close>

definition reference_after :: "string \<Rightarrow> string option" where
  "reference_after r =
     (if dropWhile is_space r \<noteq> [] then Some (py_strip (takeWhile (\<lambda>c. c \<noteq> CHR 0x0A) (dropWhile is_space r)))
      else if list_ex (\<lambda>c. c \<noteq> CHR 0x0A) r then Some [] else None)"

definition reference_label :: string where
  "reference_label = ''admin approval reference:''"

fun search_reference :: "bool \<Rightarrow> string \<Rightarrow> string option" where
  "search_reference start [] = None"
| "search_reference start (c # cs) =
     (let n = length reference_label;
          here = (if start \<and> py_lower (take n (c # cs)) = reference_label then reference_after (drop n (c # cs)) else None) in
      case here of Some v \<Rightarrow> Some v | None \<Rightarrow> search_reference (c = CHR 0x0A) cs)"

definition parse_admin_approval_reference :: "string \<Rightarrow> string option" where
  "parse_admin_approval_reference body = (if body = [] then None else search_reference True body)"

definition invalid_approval_values :: "string list" where
  "invalid_approval_values = ['''', ''n/a'', ''na'', ''none'', ''pending'', ''tbd'', ''not required'']"


section \<open>The verdict\<close>

datatype guard_error = Tier_error tier_error | Tier_too_low nat nat | Approval_missing

record verdict =
  vd_required :: nat
  vd_declared :: "nat option"
  vd_files :: "string list"
  vd_tiers :: "(string, nat) dict"
  vd_approval :: "string option"
  vd_errors :: "guard_error list"
  vd_warnings :: "(nat \<times> nat) list"
  vd_exit :: int

definition file_tiers :: "string list \<Rightarrow> (string, nat) dict" where
  "file_tiers files = fold (\<lambda>p d. dict_set p (classify_file p) d) files []"

definition check_pull_request :: "string option \<Rightarrow> string option \<Rightarrow> verdict" where
  "check_pull_request changed body_file =
     (let files = load_changed_files changed;
          body = (case body_file of None \<Rightarrow> [] | Some t \<Rightarrow> t);
          tiers = file_tiers files;
          required = fold max (map snd tiers) 0;
          parsed = parse_declared_tier body;
          declared = (case parsed of Inl _ \<Rightarrow> None | Inr t \<Rightarrow> Some t);
          approval = parse_admin_approval_reference body;
          tier_errors = (case parsed of Inl e \<Rightarrow> [Tier_error e] | Inr t \<Rightarrow> if t < required then [Tier_too_low t required] else []);
          warnings = (case declared of Some t \<Rightarrow> if t > required then [(t, required)] else [] | None \<Rightarrow> []);
          value = py_lower (py_strip (case approval of None \<Rightarrow> [] | Some v \<Rightarrow> v));
          approval_errors = (if declared = Some 2 \<and> value \<in> set invalid_approval_values then [Approval_missing] else []);
          errors = tier_errors @ approval_errors in
      \<lparr>vd_required = required, vd_declared = declared, vd_files = files, vd_tiers = tiers, vd_approval = approval,
       vd_errors = errors, vd_warnings = warnings, vd_exit = (if errors \<noteq> [] then 1 else 0)\<rparr>)"

lemma set_dict_set_same: "(\<And>v. (k, v) \<in> set d \<Longrightarrow> v = g k) \<Longrightarrow> set (dict_set k (g k) d) = insert (k, g k) (set d)"
  by (induction d) (auto simp: dict_set_def)

lemma fold_file_tiers:
  "(\<And>k v. (k, v) \<in> set d \<Longrightarrow> v = g k) \<Longrightarrow>
     set (fold (\<lambda>p d. dict_set p (g p) d) fs d) = set d \<union> (\<lambda>p. (p, g p)) ` set fs"
proof (induction fs arbitrary: d)
  case (Cons f fs)
  have s: "set (dict_set f (g f) d) = insert (f, g f) (set d)"
    by (rule set_dict_set_same) (rule Cons.prems)
  have "v = g k" if "(k, v) \<in> set (dict_set f (g f) d)" for k v
    using that Cons.prems unfolding s by auto
  then have "set (fold (\<lambda>p d. dict_set p (g p) d) fs (dict_set f (g f) d)) = set (dict_set f (g f) d) \<union> (\<lambda>p. (p, g p)) ` set fs"
    by (rule Cons.IH)
  then show ?case by (simp add: s)
qed simp

lemma set_file_tiers: "set (map snd (file_tiers files)) = classify_file ` set files"
  using fold_file_tiers [of "[]" classify_file files] by (simp add: file_tiers_def image_image)

lemma fold_max_le: "fold max xs m \<le> t \<longleftrightarrow> m \<le> t \<and> (\<forall>x\<in>set xs. x \<le> t)" for t :: nat
  by (induction xs arbitrary: m) auto

text \<open>C21: The check passes exactly when the body ticks one tier, that tier is at least the tier of every changed file, and a
  tick of tier two comes with an approval that is not a placeholder.\<close>

theorem guardrail_passes:
  "vd_exit (check_pull_request changed (Some body)) = 0 \<longleftrightarrow>
     (\<exists>t. checkboxes body = [t] \<and> (\<forall>f\<in>set (load_changed_files changed). classify_file f \<le> t)
        \<and> (t = 2 \<longrightarrow> (\<exists>v. parse_admin_approval_reference body = Some v
             \<and> py_lower (py_strip v) \<notin> set invalid_approval_values)))"
proof -
  let ?files = "load_changed_files changed"
  let ?required = "fold max (map snd (file_tiers ?files)) 0"
  let ?reference = "py_lower (py_strip (case parse_admin_approval_reference body of None \<Rightarrow> [] | Some v \<Rightarrow> v))"
  have req: "?required \<le> t \<longleftrightarrow> (\<forall>f\<in>set ?files. classify_file f \<le> t)" for t
    unfolding fold_max_le set_file_tiers by auto
  have val: "?reference \<notin> set invalid_approval_values \<longleftrightarrow>
      (\<exists>v. parse_admin_approval_reference body = Some v \<and> py_lower (py_strip v) \<notin> set invalid_approval_values)"
    by (auto simp: invalid_approval_values_def py_strip_def py_lower_def split: option.splits)
  have "vd_exit (check_pull_request changed (Some body)) = 0 \<longleftrightarrow>
      (\<exists>t. parse_declared_tier body = Inr t \<and> \<not> t < ?required \<and> \<not> (t = 2 \<and> ?reference \<in> set invalid_approval_values))"
    by (auto simp: check_pull_request_def Let_def split: sum.splits)
  also have "\<dots> \<longleftrightarrow> (\<exists>t. checkboxes body = [t] \<and> ?required \<le> t \<and> (t = 2 \<longrightarrow> ?reference \<notin> set invalid_approval_values))"
    by (auto simp: parse_declared_tier_def split: list.splits)
  finally show ?thesis unfolding req val .
qed

definition sample_body :: string where
  "sample_body = ''- [x] **T2**'' @ [CHR 0x0A] @ ''Admin approval reference: OPS-7'' @ [CHR 0x0A]"

theorem guardrail_passes_witness:
  "vd_exit (check_pull_request (Some ''database/schema.sql'') (Some sample_body)) = 0"
proof -
  have "checkboxes sample_body = [2]" by code_simp
  moreover have "load_changed_files (Some ''database/schema.sql'') = [''database/schema.sql'']" by code_simp
  moreover have "parse_admin_approval_reference sample_body = Some ''OPS-7''" by code_simp
  moreover have "py_lower (py_strip ''OPS-7'') \<notin> set invalid_approval_values" by code_simp
  moreover have "classify_file ''database/schema.sql'' \<le> 2" by code_simp
  ultimately show ?thesis
    using guardrail_passes [of "Some ''database/schema.sql''" sample_body] by auto
qed

lemma normalized_head: "normalize_path raw = c # cs \<Longrightarrow> c \<noteq> CHR ''.''"
  by (auto simp: normalize_path_def dest: dropWhile_rev_head)

text \<open>No normalized path begins with a dot, so the patterns that do are dead: a change of a workflow under
  \<open>.github/workflows\<close> is not of tier two because of its place, and \<open>.gitignore\<close> is not of tier zero.\<close>

theorem dotted_patterns_dead:
  "matches_any (normalize_path raw) ps = matches_any (normalize_path raw) (filter (\<lambda>p. \<not> (p \<noteq> [] \<and> hd p = CHR ''.'')) ps)"
proof -
  have dead: "\<not> fnmatch p (normalize_path raw)" if "p \<noteq> [] \<and> hd p = CHR ''.''" for p
  proof -
    have p: "p = CHR ''.'' # tl p" using that by (cases p) simp_all
    show ?thesis
    proof (cases "normalize_path raw")
      case (Cons c cs)
      with normalized_head [OF Cons] show ?thesis by (subst p) simp
    qed (subst p, simp)
  qed
  show ?thesis unfolding matches_any_def list_ex_iff using dead by auto
qed

lemma workflow_change_passes:
  "vd_exit (check_pull_request (Some ''.github/workflows/deploy.yml'') (Some ''- [x] **T1**'')) = 0"
  by code_simp

text \<open>An approval line left blank takes the next line that is not.\<close>

lemma blank_approval_passes:
  "vd_exit (check_pull_request None
     (Some (''- [x] **T2**'' @ [CHR 0x0A] @ ''Admin Approval Reference:'' @ [CHR 0x0A, CHR 0x0A] @ ''## Summary''))) = 0"
  by code_simp


section \<open>Drift between two directories\<close>

datatype node = File string string | Dir string "node list"

definition default_ignore :: "string list" where
  "default_ignore = [''.git'', ''.DS_Store'', ''__pycache__'', ''node_modules'', ''venv'', ''.env'', ''dist'', ''build'',
     ''.idea'', ''.vscode'']"

text \<open>The files below a directory with their contents, by their relative paths; ignored names are not entered.\<close>

fun files_below :: "string list \<Rightarrow> string \<Rightarrow> node \<Rightarrow> (string \<times> string) list" where
  "files_below ignored at_path (File n c) = (if n \<in> set ignored then [] else [(at_path @ n, c)])"
| "files_below ignored at_path (Dir n ns) =
     (if n \<in> set ignored then [] else concat (map (files_below ignored (at_path @ n @ ''/'')) ns))"

definition get_all_files :: "string list \<Rightarrow> node list \<Rightarrow> (string \<times> string) list" where
  "get_all_files ignored tree = concat (map (files_below ignored []) tree)"

record drift_report =
  dr_total :: nat
  dr_unchanged :: nat
  dr_new :: "string list"
  dr_modified :: "string list"
  dr_deleted :: "string list"
  dr_conflict :: bool

text \<open>One file of the sorted union; the counts of the report are the lengths of its lists.\<close>

definition compare_file :: "(string \<times> string) list \<Rightarrow> (string \<times> string) list \<Rightarrow> string \<Rightarrow> drift_report \<Rightarrow> drift_report" where
  "compare_file src tgt f r =
     (if f \<in> fst ` set src \<and> f \<notin> fst ` set tgt then r\<lparr>dr_new := dr_new r @ [f]\<rparr>
      else if f \<notin> fst ` set src \<and> f \<in> fst ` set tgt then r\<lparr>dr_deleted := dr_deleted r @ [f]\<rparr>
      else if map_of src f = map_of tgt f then r\<lparr>dr_unchanged := dr_unchanged r + 1\<rparr>
      else r\<lparr>dr_modified := dr_modified r @ [f]\<rparr>)"

definition detect_drift :: "string list \<Rightarrow> node list \<Rightarrow> node list \<Rightarrow> drift_report" where
  "detect_drift ignored source target =
     (let src = get_all_files ignored source; tgt = get_all_files ignored target;
          all = sort (remdups (map fst src @ map fst tgt));
          r = fold (compare_file src tgt) all
                \<lparr>dr_total = length all, dr_unchanged = 0, dr_new = [], dr_modified = [], dr_deleted = [], dr_conflict = False\<rparr> in
      r\<lparr>dr_conflict := length (dr_new r) > 0 \<or> length (dr_modified r) > 0 \<or> length (dr_deleted r) > 0\<rparr>)"

text \<open>The exit code of the script; \<open>None\<close> is a directory that does not exist.\<close>

definition detect_conflicts_main :: "bool \<Rightarrow> node list option \<Rightarrow> node list option \<Rightarrow> int" where
  "detect_conflicts_main exit_on_conflict source target =
     (case (source, target) of
        (Some s, Some t) \<Rightarrow> if exit_on_conflict \<and> dr_conflict (detect_drift default_ignore s t) then 1 else 0
      | _ \<Rightarrow> 1)"

lemma compare_files_fold:
  "fold (compare_file src tgt) fs r = r\<lparr>
     dr_new := dr_new r @ filter (\<lambda>f. f \<in> fst ` set src \<and> f \<notin> fst ` set tgt) fs,
     dr_deleted := dr_deleted r @ filter (\<lambda>f. f \<notin> fst ` set src \<and> f \<in> fst ` set tgt) fs,
     dr_unchanged := dr_unchanged r + length (filter (\<lambda>f. (f \<in> fst ` set src \<longleftrightarrow> f \<in> fst ` set tgt) \<and> map_of src f = map_of tgt f) fs),
     dr_modified := dr_modified r @ filter (\<lambda>f. (f \<in> fst ` set src \<longleftrightarrow> f \<in> fst ` set tgt) \<and> map_of src f \<noteq> map_of tgt f) fs\<rparr>"
proof (induction fs arbitrary: r)
  case (Cons f fs)
  show ?case unfolding fold_Cons comp_def Cons.IH by (auto simp: compare_file_def)
qed simp

lemma length_filter_partition3:
  assumes "\<And>x. x \<in> set xs \<Longrightarrow> (P x \<and> \<not> Q x \<and> \<not> R x \<and> \<not> S x) \<or> (\<not> P x \<and> Q x \<and> \<not> R x \<and> \<not> S x)
     \<or> (\<not> P x \<and> \<not> Q x \<and> R x \<and> \<not> S x) \<or> (\<not> P x \<and> \<not> Q x \<and> \<not> R x \<and> S x)"
  shows "length (filter P xs) + length (filter Q xs) + length (filter R xs) + length (filter S xs) = length xs"
  using assms
proof (induction xs)
  case (Cons x xs)
  then have "length (filter P xs) + length (filter Q xs) + length (filter R xs) + length (filter S xs) = length xs" by simp
  with Cons.prems [of x] show ?case by auto
qed simp

lemma maps_agree:
  "m = n \<longleftrightarrow> dom m - dom n = {} \<and> dom n - dom m = {} \<and> {k \<in> dom m \<inter> dom n. m k \<noteq> n k} = {}"
proof
  assume h: "dom m - dom n = {} \<and> dom n - dom m = {} \<and> {k \<in> dom m \<inter> dom n. m k \<noteq> n k} = {}"
  show "m = n"
  proof
    fix k
    have "k \<in> dom m \<longleftrightarrow> k \<in> dom n" "k \<in> dom m \<inter> dom n \<Longrightarrow> m k = n k" using h by auto
    then show "m k = n k" by (metis IntI domIff)
  qed
qed auto

text \<open>C28: The drift report is exact: the four classes of files add up to the total, each list is sorted and without
  repetition, the directories are called clean exactly when they hold the same files with the same contents, and a file
  is listed as new, deleted or modified exactly when it is.\<close>

theorem drift_exact:
  fixes source target ignored
  defines "src \<equiv> map_of (get_all_files ignored source)" and "tgt \<equiv> map_of (get_all_files ignored target)"
    and "r \<equiv> detect_drift ignored source target"
  shows "dr_total r = dr_unchanged r + length (dr_new r) + length (dr_modified r) + length (dr_deleted r)
    \<and> (dr_conflict r \<longleftrightarrow> src \<noteq> tgt)
    \<and> set (dr_new r) = dom src - dom tgt \<and> set (dr_deleted r) = dom tgt - dom src
    \<and> set (dr_modified r) = {f \<in> dom src \<inter> dom tgt. src f \<noteq> tgt f}
    \<and> distinct (dr_new r @ dr_modified r @ dr_deleted r)
    \<and> sorted (dr_new r) \<and> sorted (dr_modified r) \<and> sorted (dr_deleted r)"
proof -
  let ?s = "get_all_files ignored source" and ?t = "get_all_files ignored target"
  let ?all = "sort (remdups (map fst ?s @ map fst ?t))"
  have s: "f \<in> fst ` set ?s \<longleftrightarrow> f \<in> dom src" and t: "f \<in> fst ` set ?t \<longleftrightarrow> f \<in> dom tgt" for f
    by (simp_all add: src_def tgt_def dom_map_of_conv_image_fst)
  have new: "dr_new r = filter (\<lambda>f. f \<in> dom src \<and> f \<notin> dom tgt) ?all"
    and del: "dr_deleted r = filter (\<lambda>f. f \<notin> dom src \<and> f \<in> dom tgt) ?all"
    and same: "dr_unchanged r = length (filter (\<lambda>f. (f \<in> dom src \<longleftrightarrow> f \<in> dom tgt) \<and> src f = tgt f) ?all)"
    and mod: "dr_modified r = filter (\<lambda>f. (f \<in> dom src \<longleftrightarrow> f \<in> dom tgt) \<and> src f \<noteq> tgt f) ?all"
    and tot: "dr_total r = length ?all"
    and con: "dr_conflict r \<longleftrightarrow> dr_new r \<noteq> [] \<or> dr_modified r \<noteq> [] \<or> dr_deleted r \<noteq> []"
    unfolding r_def detect_drift_def Let_def compare_files_fold s t
    by (simp_all add: src_def tgt_def)
  have all: "set ?all = dom src \<union> dom tgt" by (simp add: src_def tgt_def dom_map_of_conv_image_fst)
  have dist: "distinct ?all" and sorted: "sorted ?all" by simp_all
  have sets: "set (dr_new r) = dom src - dom tgt" "set (dr_deleted r) = dom tgt - dom src"
    "set (dr_modified r) = {f \<in> dom src \<inter> dom tgt. src f \<noteq> tgt f}"
    unfolding new del mod set_filter all by auto
  have "dr_total r = dr_unchanged r + length (dr_new r) + length (dr_modified r) + length (dr_deleted r)"
    unfolding new del same mod tot
    by (rule length_filter_partition3 [symmetric]) auto
  moreover have "dr_conflict r \<longleftrightarrow> src \<noteq> tgt"
    unfolding con maps_agree sets [symmetric] by auto
  moreover have "distinct (dr_new r @ dr_modified r @ dr_deleted r)"
    using sets dist by (auto simp: new del mod)
  moreover have "sorted (dr_new r)" "sorted (dr_modified r)" "sorted (dr_deleted r)"
    unfolding new mod del using sorted by (simp_all only: sorted_wrt_filter)
  ultimately show ?thesis using sets by blast
qed


section \<open>Self-healing\<close>

fun contains :: "string \<Rightarrow> string \<Rightarrow> bool" where
  "contains p [] = (p = [])"
| "contains p (c # s) = (startswith p (c # s) \<or> contains p s)"

definition tier2_keywords :: "string list" where
  "tier2_keywords = [''deploy'', ''production'', ''infrastructure'', ''auth'', ''payment'', ''security'', ''migration'',
     ''terraform'', ''helm'', ''k8s'']"

definition tier0_keywords :: "string list" where
  "tier0_keywords = [''test'', ''lint'', ''doc'', ''research'', ''alignment'', ''audit'', ''scan'', ''analysis'']"

text \<open>The failed jobs are an argument that is not used.\<close>

definition classify_failure_tier :: "string \<Rightarrow> string list \<Rightarrow> nat" where
  "classify_failure_tier workflow failed_jobs =
     (let w = py_lower workflow in
      if list_ex (\<lambda>k. contains k w) tier2_keywords then 2 else if list_ex (\<lambda>k. contains k w) tier0_keywords then 0 else 1)"

record checkout =
  co_status :: string         \<comment> \<open>the output of \<open>git status --porcelain\<close>\<close>
  co_requirements :: bool
  co_package :: bool
  co_black :: int             \<comment> \<open>the exit codes of the two formatters\<close>
  co_prettier :: int

datatype fix_type = Formatting | Dependencies | Unknown_failure

definition analyze_common_failures :: "checkout \<Rightarrow> bool \<times> fix_type" where
  "analyze_common_failures c =
     (if list_ex (\<lambda>l. list_ex (\<lambda>e. endswith e l) [''.py'', ''.js'', ''.ts'', ''.md'']) (split_on (CHR 0x0A) (co_status c))
      then (True, Formatting)
      else if co_package c \<or> co_requirements c then (False, Dependencies)
      else (False, Unknown_failure))"

datatype shell = Install_black | Run_black | Run_prettier

definition attempt_safe_fix :: "checkout \<Rightarrow> bool \<times> shell list" where
  "attempt_safe_fix c =
     (case analyze_common_failures c of (fixable, kind) \<Rightarrow>
        if \<not> fixable then (False, [])
        else if kind = Formatting then
          (let py = (if co_requirements c then [Install_black, Run_black] else []) in
           if co_requirements c \<and> co_black c = 0 then (True, py)
           else if co_package c then (co_prettier c = 0, py @ [Run_prettier])
           else (False, py))
        else (False, []))"

text \<open>The exit code and the commands that were run.\<close>

definition self_heal :: "string \<Rightarrow> string list \<Rightarrow> checkout \<Rightarrow> int \<times> shell list" where
  "self_heal workflow failed_jobs c =
     (if classify_failure_tier workflow failed_jobs = 2 then (1, [])
      else case attempt_safe_fix c of (fixed, cmds) \<Rightarrow> (if fixed then 0 else 1, cmds))"

text \<open>Healing is confined: no command is run for a workflow of tier two or when no file of a formatted type has changed,
  and it reports success exactly when a formatter was run and returned zero.\<close>

theorem self_heal_confined:
  "(classify_failure_tier w jobs = 2 \<longrightarrow> self_heal w jobs c = (1, []))
   \<and> (fst (self_heal w jobs c) = 0 \<longleftrightarrow> classify_failure_tier w jobs \<noteq> 2 \<and> fst (analyze_common_failures c)
        \<and> (co_requirements c \<and> co_black c = 0 \<or> co_package c \<and> co_prettier c = 0))
   \<and> (snd (self_heal w jobs c) \<noteq> [] \<longrightarrow> classify_failure_tier w jobs \<noteq> 2 \<and> fst (analyze_common_failures c)
        \<and> (co_requirements c \<or> co_package c))"
  by (auto simp: self_heal_def attempt_safe_fix_def analyze_common_failures_def Let_def split: if_splits)

theorem self_heal_confined_witness:
  "self_heal ''Deploy to production'' [] \<lparr>co_status = '' M app.py'', co_requirements = True, co_package = False, co_black = 0, co_prettier = 0\<rparr> = (1, [])"
proof -
  have "classify_failure_tier ''Deploy to production'' [] = 2" by code_simp
  then show ?thesis
    using self_heal_confined [of "''Deploy to production''" "[]"
      "\<lparr>co_status = '' M app.py'', co_requirements = True, co_package = False, co_black = 0, co_prettier = 0\<rparr>"] by blast
qed

text \<open>The keyword of documentation is part of a name that has nothing to do with it.\<close>

lemma docker_is_tier0: "classify_failure_tier ''Build Docker images'' [] = 0"
  by code_simp

end
