(* ===== verification/PyJson.thy ===== *)
theory PyJson
  imports PyText
begin

text \<open>
  Values as Python's \<open>json\<close> and \<open>yaml\<close> modules return them, with the operations the modelled code applies to values it has not
  checked: each of them is \<open>None\<close> where the value's type makes Python raise.
\<close>

section \<open>Values of a JSON file\<close>

text \<open>\<open>x.get(k, d)\<close>, \<open>k in x\<close> and \<open>{**x, **y}\<close>; \<open>None\<close> is the exception on a value of another type.\<close>

definition json_get :: "py_val \<Rightarrow> string \<Rightarrow> py_val \<Rightarrow> py_val option" where
  "json_get x k d = (case x of PDict kvs \<Rightarrow> Some (case map_of kvs k of Some v \<Rightarrow> v | None \<Rightarrow> d) | _ \<Rightarrow> None)"

fun substring :: "string \<Rightarrow> string \<Rightarrow> bool" where
  "substring p [] = (p = [])"
| "substring p (c # s) = (startswith p (c # s) \<or> substring p s)"

definition json_in :: "string \<Rightarrow> py_val \<Rightarrow> bool option" where
  "json_in k x =
     (case x of
        PDict kvs \<Rightarrow> Some (k \<in> fst ` set kvs)
      | PList vs \<Rightarrow> Some (PStr k \<in> set vs)
      | PStr s \<Rightarrow> Some (substring k s)
      | _ \<Rightarrow> None)"

definition json_merge :: "py_val \<Rightarrow> py_val \<Rightarrow> (string, py_val) dict option" where
  "json_merge x y = (case (x, y) of (PDict a, PDict b) \<Rightarrow> Some (fold (\<lambda>(k, v) d. dict_set k v d) b a) | _ \<Rightarrow> None)"

section \<open>Truth and replacement\<close>

fun py_truth :: "py_val \<Rightarrow> bool" where
  "py_truth PNone = False"
| "py_truth (PBool b) = b"
| "py_truth (PInt i) = (i \<noteq> 0)"
| "py_truth (PFloat r) = (r \<noteq> 0)"
| "py_truth (PStr s) = (s \<noteq> [])"
| "py_truth (PList xs) = (xs \<noteq> [])"
| "py_truth (PDict xs) = (xs \<noteq> [])"

text \<open>\<open>s.replace(old, new)\<close> for an \<open>old\<close> that is not empty; the counter skips the rest of a replaced occurrence.\<close>

fun replace_skip :: "nat \<Rightarrow> string \<Rightarrow> string \<Rightarrow> string \<Rightarrow> string" where
  "replace_skip k old new [] = []"
| "replace_skip (Suc k) old new (c # s) = replace_skip k old new s"
| "replace_skip 0 old new (c # s) =
     (if startswith old (c # s) then new @ replace_skip (length old - 1) old new s else c # replace_skip 0 old new s)"

definition py_replace :: "string \<Rightarrow> string \<Rightarrow> string \<Rightarrow> string" where
  "py_replace old new s = replace_skip 0 old new s"

section \<open>Substrings\<close>

lemma substring_iff: "substring p s \<longleftrightarrow> (\<exists>a b. s = a @ p @ b)"
proof (induction s)
  case (Cons c s)
  have "startswith p (c # s) \<longleftrightarrow> (\<exists>b. c # s = p @ b)"
    by (auto simp: startswith_def) (metis append_take_drop_id)
  with Cons show ?case by (auto simp: Cons_eq_append_conv)
qed auto

lemma substring_trans: "substring p q \<Longrightarrow> substring q s \<Longrightarrow> substring p s"
  unfolding substring_iff by (metis append.assoc)

end
