(* ===== verification/TechStack.thy ===== *)
theory TechStack
  imports PyJson
begin

text \<open>
  The detection of a repository's technology, \<open>scripts/universal/detect_tech_stack.py\<close>. The repository is a record of
  what the script asks of the file system: which files exist, whether a pattern finds one, the text of a file and the
  value of a JSON file, \<open>None\<close> when reading or parsing it raises.
\<close>

record repository =
  rp_exists :: "string \<Rightarrow> bool"
  rp_glob :: "string \<Rightarrow> bool"
  rp_text :: "string \<Rightarrow> string option"
  rp_json :: "string \<Rightarrow> py_val option"

section \<open>What the files say\<close>

text \<open>The dependencies and the scripts of \<open>package.json\<close>.\<close>

definition dependencies_of :: "py_val \<Rightarrow> string list option" where
  "dependencies_of data =
     Option.bind (json_get data ''dependencies'' (PDict [])) (\<lambda>a.
     Option.bind (json_get data ''devDependencies'' (PDict [])) (\<lambda>b. map_option dict_keys (json_merge a b)))"

definition package_json :: "repository \<Rightarrow> py_val option" where
  "package_json R = (if rp_exists R ''package.json'' then rp_json R ''package.json'' else None)"

definition requirements :: "repository \<Rightarrow> string option" where
  "requirements R = (if rp_exists R ''requirements.txt'' then map_option py_lower (rp_text R ''requirements.txt'') else None)"

text \<open>Whether the scripts have an entry, \<open>None\<close> when the file is missing or anything raises.\<close>

definition script_entry :: "string \<Rightarrow> repository \<Rightarrow> bool option" where
  "script_entry k R =
     Option.bind (package_json R) (\<lambda>data. Option.bind (json_get data ''scripts'' (PDict [])) (json_in k))"


section \<open>Detection\<close>

definition manager_indicators :: "(string \<times> string list) list" where
  "manager_indicators =
     [(''npm'', [''package-lock.json'', ''npm-shrinkwrap.json'']),
      (''yarn'', [''yarn.lock'']),
      (''pnpm'', [''pnpm-lock.yaml'']),
      (''pip'', [''requirements.txt'', ''Pipfile'', ''setup.py'', ''pyproject.toml'']),
      (''poetry'', [''poetry.lock'']),
      (''cargo'', [''Cargo.lock'', ''Cargo.toml'']),
      (''go'', [''go.mod'', ''go.sum'']),
      (''pub'', [''pubspec.lock'']),
      (''bundle'', [''Gemfile.lock'']),
      (''maven'', [''pom.xml'']),
      (''gradle'', [''build.gradle'', ''build.gradle.kts''])]"

text \<open>The first entry whose test holds.\<close>

fun first_such :: "('a \<Rightarrow> bool) \<Rightarrow> 'a list \<Rightarrow> 'a option" where
  "first_such P [] = None"
| "first_such P (x # xs) = (if P x then Some x else first_such P xs)"

definition detect_package_manager :: "repository \<Rightarrow> string option" where
  "detect_package_manager R = map_option fst (first_such (\<lambda>e. list_ex (rp_exists R) (snd e)) manager_indicators)"

definition language_indicators :: "(string \<times> string \<times> string option) list" where
  "language_indicators =
     [(''pubspec.yaml'', ''dart'', Some ''flutter''), (''requirements.txt'', ''python'', None), (''Pipfile'', ''python'', None),
      (''pyproject.toml'', ''python'', None), (''package.json'', ''javascript'', None), (''Cargo.toml'', ''rust'', None),
      (''go.mod'', ''go'', None), (''Gemfile'', ''ruby'', None), (''pom.xml'', ''java'', None), (''build.gradle'', ''java'', None),
      (''*.csproj'', ''csharp'', None), (''*.fsproj'', ''fsharp'', None)]"

record language_info =
  li_language :: string
  li_framework :: "string option"
  li_via :: "string option"

definition indicator_found :: "repository \<Rightarrow> string \<Rightarrow> bool" where
  "indicator_found R p = (if CHR ''*'' \<in> set p then rp_glob R p else rp_exists R p)"

definition detect_language :: "repository \<Rightarrow> language_info" where
  "detect_language R =
     (case first_such (\<lambda>e. indicator_found R (fst e)) language_indicators of
        Some (p, l, f) \<Rightarrow> \<lparr>li_language = l, li_framework = f, li_via = Some p\<rparr>
      | None \<Rightarrow> \<lparr>li_language = ''unknown'', li_framework = None, li_via = None\<rparr>)"

definition javascript_frameworks :: "(string \<times> string list) list" where
  "javascript_frameworks =
     [(''react'', [''react'', ''@types/react'']), (''vue'', [''vue'', ''@vue/cli'']), (''angular'', [''@angular/core'']),
      (''express'', [''express'']), (''next'', [''next'']), (''nuxt'', [''nuxt'']), (''svelte'', [''svelte''])]"

definition python_frameworks :: "(string \<times> string list) list" where
  "python_frameworks = [(''django'', [''django'']), (''flask'', [''flask'']), (''fastapi'', [''fastapi'']), (''pyramid'', [''pyramid''])]"

definition detect_framework :: "repository \<Rightarrow> string \<Rightarrow> string option" where
  "detect_framework R language =
     (let js = (if language = ''javascript''
                then Option.bind (Option.bind (package_json R) dependencies_of) (\<lambda>ds.
                       first_such (\<lambda>e. list_ex (\<lambda>i. i \<in> set ds) (snd e)) javascript_frameworks)
                else None);
          py = (if language = ''python''
                then Option.bind (requirements R) (\<lambda>t.
                       first_such (\<lambda>e. list_ex (\<lambda>i. substring i t) (snd e)) python_frameworks)
                else None) in
      case js of Some e \<Rightarrow> Some (fst e) | None \<Rightarrow>
      case py of Some e \<Rightarrow> Some (fst e) | None \<Rightarrow>
      if rp_exists R ''pubspec.yaml'' \<and> language = ''dart'' then Some ''flutter'' else None)"

text \<open>What a tool is called with, when it is enabled.\<close>

record tool_info =
  ti_enabled :: bool
  ti_command :: "string option"
  ti_output :: "string option"
  ti_coverage :: bool

definition no_tool :: tool_info where
  "no_tool = \<lparr>ti_enabled = False, ti_command = None, ti_output = None, ti_coverage = False\<rparr>"

definition use_tool :: "string \<Rightarrow> tool_info \<Rightarrow> tool_info" where
  "use_tool cmd t = t\<lparr>ti_enabled := True, ti_command := Some cmd\<rparr>"

definition use_build :: "string \<Rightarrow> string \<Rightarrow> tool_info \<Rightarrow> tool_info" where
  "use_build cmd out t = (use_tool cmd t)\<lparr>ti_output := Some out\<rparr>"

definition with_manager :: "string option \<Rightarrow> string \<Rightarrow> string" where
  "with_manager pm cmd = (case pm of Some m \<Rightarrow> m | None \<Rightarrow> ''npm'') @ cmd"

definition detect_build_system :: "repository \<Rightarrow> string \<Rightarrow> string option \<Rightarrow> tool_info" where
  "detect_build_system R language pm =
     (let b0 = no_tool;
          b1 = (if script_entry ''build'' R = Some True then use_build (with_manager pm '' run build'') ''dist'' b0 else b0);
          b2 = (if language = ''dart'' then use_build ''flutter build'' ''build'' b1 else b1);
          b3 = (if language = ''python'' \<and> rp_exists R ''setup.py'' then use_build ''python setup.py build'' ''build'' b2 else b2);
          b4 = (if language = ''go'' then use_build ''go build'' ''.'' b3 else b3) in
      if language = ''rust'' then use_build ''cargo build --release'' ''target/release'' b4 else b4)"

definition python_tests :: "repository \<Rightarrow> tool_info \<Rightarrow> tool_info" where
  "python_tests R t =
     (let t1 = t\<lparr>ti_enabled := True\<rparr>;
          t2 = (case requirements R of
                  Some r \<Rightarrow> if substring ''pytest'' r then t1\<lparr>ti_command := Some ''pytest'', ti_coverage := True\<rparr> else t1
                | None \<Rightarrow> t1) in
      if ti_command t2 = None then t2\<lparr>ti_command := Some ''python -m unittest discover''\<rparr> else t2)"

definition detect_test_system :: "repository \<Rightarrow> string \<Rightarrow> string option \<Rightarrow> tool_info" where
  "detect_test_system R language pm =
     (let tests_exist = (rp_exists R ''tests'' \<or> rp_exists R ''test'');
          t1 = (if script_entry ''test'' R = Some True
                then (use_tool (with_manager pm '' test'') no_tool)\<lparr>ti_coverage := script_entry ''coverage'' R = Some True\<rparr>
                else no_tool);
          t2 = (if language = ''python'' \<and> tests_exist then python_tests R t1 else t1);
          t3 = (if language = ''dart'' then use_tool ''flutter test'' t2 else t2);
          t4 = (if language = ''go'' then use_tool ''go test ./...'' t3 else t3) in
      if language = ''rust'' then use_tool ''cargo test'' t4 else t4)"

definition python_linters :: "(string \<times> string) list" where
  "python_linters = [(''pylint'', ''pylint src''), (''flake8'', ''flake8 src''), (''black'', ''black --check src''), (''ruff'', ''ruff check .'')]"

text \<open>The dependencies are merged before the scripts are asked, so both must be well formed.\<close>

definition detect_lint_system :: "repository \<Rightarrow> string \<Rightarrow> string option \<Rightarrow> tool_info" where
  "detect_lint_system R language pm =
     (let l1 = (case Option.bind (package_json R) dependencies_of of
                  None \<Rightarrow> no_tool
                | Some ds \<Rightarrow>
                    (case script_entry ''lint'' R of
                       None \<Rightarrow> no_tool
                     | Some True \<Rightarrow> use_tool (with_manager pm '' run lint'') no_tool
                     | Some False \<Rightarrow> if ''eslint'' \<in> set ds then use_tool ''eslint .'' no_tool else no_tool));
          l2 = (if language = ''python''
                then (case Option.bind (requirements R) (\<lambda>t. first_such (\<lambda>e. substring (fst e) t) python_linters) of
                        Some e \<Rightarrow> use_tool (snd e) l1 | None \<Rightarrow> l1)
                else l1);
          l3 = (if language = ''dart'' then use_tool ''flutter analyze'' l2 else l2);
          l4 = (if language = ''go'' then use_tool ''go vet ./...'' l3 else l3) in
      if language = ''rust'' then use_tool ''cargo clippy'' l4 else l4)"

record tech_stack =
  tk_language :: string
  tk_framework :: "string option"
  tk_manager :: "string option"
  tk_via :: "string option"
  tk_build :: tool_info
  tk_test :: tool_info
  tk_lint :: tool_info

definition detect_tech_stack :: "repository \<Rightarrow> tech_stack" where
  "detect_tech_stack R =
     (let info = detect_language R; language = li_language info; pm = detect_package_manager R in
      \<lparr>tk_language = language,
       tk_framework = (case detect_framework R language of Some f \<Rightarrow> Some f | None \<Rightarrow> li_framework info),
       tk_manager = pm, tk_via = li_via info,
       tk_build = detect_build_system R language pm, tk_test = detect_test_system R language pm,
       tk_lint = detect_lint_system R language pm\<rparr>)"


section \<open>What is detected\<close>

lemma first_such_None: "first_such P xs = None \<longleftrightarrow> (\<forall>x\<in>set xs. \<not> P x)"
  by (induction xs) auto

lemma first_such_Some: "first_such P xs = Some x \<Longrightarrow> x \<in> set xs \<and> P x"
  by (induction xs) (auto split: if_splits)

text \<open>A tool is enabled exactly when it has a command.\<close>

definition tool_wf :: "tool_info \<Rightarrow> bool" where
  "tool_wf t \<longleftrightarrow> (ti_enabled t \<longleftrightarrow> ti_command t \<noteq> None) \<and> (ti_output t \<noteq> None \<longrightarrow> ti_enabled t)"

lemma no_tool_wf [simp]: "tool_wf no_tool"
  by (simp add: tool_wf_def no_tool_def)

lemma use_tool_wf [simp]: "tool_wf (use_tool c t)" "tool_wf (use_build c out t)"
  "tool_wf ((use_tool c t)\<lparr>ti_coverage := b\<rparr>)"
  by (simp_all add: tool_wf_def use_tool_def use_build_def)

lemma python_tests_wf [simp]: "tool_wf (python_tests R t)"
  by (auto simp: tool_wf_def python_tests_def Let_def split: option.splits)

text \<open>The detection is consistent: each of the three tools is enabled exactly when a command was found for it, only an enabled
  build has an output directory, the language is unknown exactly when no indicator is present, and it is the language of the
  first indicator that is; a repository of Dart, Go or Rust has all three tools.\<close>

theorem detection_consistent:
  fixes R :: repository
  defines "s \<equiv> detect_tech_stack R"
  shows "tool_wf (tk_build s) \<and> tool_wf (tk_test s) \<and> tool_wf (tk_lint s)
    \<and> (tk_via s = None \<longleftrightarrow> (\<forall>e\<in>set language_indicators. \<not> indicator_found R (fst e)))
    \<and> (tk_via s = None \<longleftrightarrow> tk_language s = ''unknown'')
    \<and> (tk_language s \<in> {''dart'', ''go'', ''rust''} \<longrightarrow> ti_enabled (tk_build s) \<and> ti_enabled (tk_test s) \<and> ti_enabled (tk_lint s))"
proof -
  have build: "tool_wf (detect_build_system R l pm)" for l pm by (simp add: detect_build_system_def Let_def)
  have test: "tool_wf (detect_test_system R l pm)" for l pm by (simp add: detect_test_system_def Let_def)
  have lint: "tool_wf (detect_lint_system R l pm)" for l pm
    by (simp add: detect_lint_system_def Let_def split: option.split bool.split)
  have known: "(p, l, f) \<in> set language_indicators \<Longrightarrow> l \<noteq> ''unknown''" for p l f by (auto simp: language_indicators_def)
  have via: "li_via (detect_language R) = None \<longleftrightarrow> (\<forall>e\<in>set language_indicators. \<not> indicator_found R (fst e))"
    by (auto simp: detect_language_def first_such_None [symmetric] split: option.splits)
  have lang: "li_via (detect_language R) = None \<longleftrightarrow> li_language (detect_language R) = ''unknown''"
    by (auto simp: detect_language_def split: option.splits dest!: first_such_Some dest: known)
  have all: "ti_enabled (detect_build_system R l pm) \<and> ti_enabled (detect_test_system R l pm) \<and> ti_enabled (detect_lint_system R l pm)"
    if "l \<in> {''dart'', ''go'', ''rust''}" for l pm
    using that by (auto simp: detect_build_system_def detect_test_system_def detect_lint_system_def Let_def use_tool_def use_build_def)
  show ?thesis using build test lint via lang all by (simp add: s_def detect_tech_stack_def Let_def del: insert_iff)
qed

theorem detection_consistent_witness:
  "ti_enabled (tk_lint (detect_tech_stack \<lparr>rp_exists = (\<lambda>f. f = ''go.mod''), rp_glob = (\<lambda>_. False), rp_text = (\<lambda>_. None), rp_json = (\<lambda>_. None)\<rparr>))"
proof -
  let ?R = "\<lparr>rp_exists = (\<lambda>f. f = ''go.mod''), rp_glob = (\<lambda>_. False), rp_text = (\<lambda>_. None), rp_json = (\<lambda>_. None)\<rparr>"
  have "tk_language (detect_tech_stack ?R) = ''go''" by code_simp
  with detection_consistent [of ?R] show ?thesis by simp
qed

text \<open>A project of poetry, which has a \<open>pyproject.toml\<close> beside its lock file, is taken for one of pip.\<close>

lemma poetry_is_pip:
  "rp_exists R ''pyproject.toml'' \<Longrightarrow> \<not> list_ex (rp_exists R) [''package-lock.json'', ''npm-shrinkwrap.json'', ''yarn.lock'', ''pnpm-lock.yaml''] \<Longrightarrow>
     detect_package_manager R = Some ''pip''"
  by (simp add: detect_package_manager_def manager_indicators_def)

end
