(* ===== verification/Runners.thy ===== *)
theory Runners
  imports TechStack
begin

text \<open>
  The universal runners, \<open>scripts/universal/universal_build.py\<close>, \<open>universal_test.py\<close> and \<open>universal_lint.py\<close>: which
  command they choose, how a flag changes it, and what they exit with. The shell, the parsers of YAML and JSON files and the
  process that prints the detected technology are parameters; what that process prints is the model of \<open>TechStack\<close>.
\<close>

text \<open>\<open>rx_shell\<close> gets whether \<open>NODE_ENV\<close> was set, the directory and the command, which a configuration file can make any
  value, and answers the return code, \<open>None\<close> when \<open>subprocess.run\<close> raises. \<open>rx_str\<close> is \<open>str()\<close> on values that are no text.\<close>

record 'w runner_env =
  rx_exists :: "string \<Rightarrow> bool"
  rx_yaml :: "string \<Rightarrow> py_val option"
  rx_json :: "string \<Rightarrow> py_val option"
  rx_resolve :: "string \<Rightarrow> string"
  rx_detect :: "string \<Rightarrow> py_val option"
  rx_str :: "py_val \<Rightarrow> string"
  rx_shell :: "bool \<Rightarrow> string \<Rightarrow> py_val \<Rightarrow> 'w \<Rightarrow> int option \<times> 'w"

record runner_args =
  ra_config :: "string option"
  ra_flag :: bool
  ra_command :: "string option"
  ra_path :: string

section \<open>Commands as values\<close>

text \<open>\<open>if k in cmd: ... else: ...\<close>; \<open>None\<close> is the \<open>TypeError\<close> of a command that has no members.\<close>

definition when_in :: "string \<Rightarrow> py_val \<Rightarrow> 'r option \<Rightarrow> 'r option \<Rightarrow> 'r option" where
  "when_in k cmd yes no = Option.bind (json_in k cmd) (\<lambda>b. if b then yes else no)"

definition render :: "'w runner_env \<Rightarrow> py_val \<Rightarrow> string" where
  "render X v = (case v of PStr s \<Rightarrow> s | _ \<Rightarrow> rx_str X v)"

definition appended :: "'w runner_env \<Rightarrow> py_val \<Rightarrow> string \<Rightarrow> py_val" where
  "appended X cmd s = PStr (render X cmd @ s)"

definition replaced :: "string \<Rightarrow> string \<Rightarrow> py_val \<Rightarrow> py_val option" where
  "replaced old new cmd = (case cmd of PStr s \<Rightarrow> Some (PStr (py_replace old new s)) | _ \<Rightarrow> None)"

text \<open>\<open>pathlib\<close>'s suffix of the last part of a path.\<close>

definition suffix_of :: "string \<Rightarrow> string" where
  "suffix_of p =
     (let name = last (split_on (CHR ''/'') p); ext = rev (takeWhile (\<lambda>c. c \<noteq> CHR ''.'') (rev name)) in
      if ext \<noteq> [] \<and> length ext + 1 < length name then CHR ''.'' # ext else [])"


section \<open>Which command\<close>

definition load_config :: "'w runner_env \<Rightarrow> string option \<Rightarrow> py_val" where
  "load_config X config_path =
     (case config_path of
        None \<Rightarrow> PDict []
      | Some p \<Rightarrow>
          if \<not> rx_exists X p then PDict []
          else case (if suffix_of p \<in> {''.yaml'', ''.yml''} then rx_yaml X p else rx_json X p) of
                 Some v \<Rightarrow> v | None \<Rightarrow> PDict [])"

definition detect_script :: string where
  "detect_script = ''/scripts/universal/detect_tech_stack.py''"

text \<open>\<open>detect_build_command\<close>, \<open>detect_test_command\<close> and \<open>detect_lint_command\<close> differ in the key only. What raises is caught.\<close>

definition detect_command :: "'w runner_env \<Rightarrow> string \<Rightarrow> string \<Rightarrow> py_val" where
  "detect_command X key repo_path =
     (if \<not> rx_exists X (repo_path @ detect_script) then PNone
      else case Option.bind (rx_detect X repo_path) (\<lambda>info. Option.bind (json_get info key (PDict [])) (\<lambda>t. json_get t ''command'' PNone)) of
             Some v \<Rightarrow> v | None \<Rightarrow> PNone)"

text \<open>\<open>config.get('tech_stack', {}).get(key, {}).get('command')\<close> is outside the code's \<open>try\<close>: \<open>None\<close> is the \<open>AttributeError\<close>
  of a configuration that is not made of objects.\<close>

definition configured_command :: "string \<Rightarrow> py_val \<Rightarrow> py_val option" where
  "configured_command key config =
     Option.bind (json_get config ''tech_stack'' (PDict [])) (\<lambda>s. Option.bind (json_get s key (PDict [])) (\<lambda>t. json_get t ''command'' PNone))"

definition choose_command :: "'w runner_env \<Rightarrow> string \<Rightarrow> runner_args \<Rightarrow> py_val option" where
  "choose_command X key A =
     Option.bind
       (if truthy (ra_command A) then Some (PStr (the (ra_command A)))
        else case ra_config A of None \<Rightarrow> Some PNone | Some p \<Rightarrow> configured_command key (load_config X (Some p)))
       (\<lambda>c. Some (if py_truth c then c else detect_command X key (rx_resolve X (ra_path A))))"


section \<open>Running it\<close>

definition shell_exit :: "'w runner_env \<Rightarrow> bool \<Rightarrow> string \<Rightarrow> py_val \<Rightarrow> 'w \<Rightarrow> int option \<times> 'w" where
  "shell_exit X node_env repo_path cmd w =
     (case rx_shell X node_env repo_path cmd w of (Some n, w') \<Rightarrow> (Some n, w') | (None, w') \<Rightarrow> (Some 1, w'))"

text \<open>The command for a build in production, and whether \<open>NODE_ENV\<close> is set.\<close>

definition production_command :: "'w runner_env \<Rightarrow> py_val \<Rightarrow> (bool \<times> py_val) option" where
  "production_command X cmd =
     (let released = Some (False, appended X cmd '' --release'');
          node = when_in ''npm run build'' cmd (Some (True, cmd)) (when_in ''yarn build'' cmd (Some (True, cmd)) (Some (False, cmd))) in
      when_in ''flutter build'' cmd released
        (when_in ''cargo build'' cmd (when_in ''--release'' cmd node released) node))"

definition coverage_command :: "'w runner_env \<Rightarrow> py_val \<Rightarrow> py_val option" where
  "coverage_command X cmd =
     (let node = replaced ''test'' ''test -- --coverage'' cmd in
      when_in ''pytest'' cmd (Some (appended X cmd '' --cov --cov-report=html --cov-report=term''))
        (when_in ''npm'' cmd node (when_in ''yarn'' cmd node
          (when_in ''flutter test'' cmd (Some (appended X cmd '' --coverage''))
            (when_in ''go test'' cmd (Some (appended X cmd '' -cover''))
              (when_in ''cargo test'' cmd (Some (PStr ''cargo tarpaulin'')) (Some cmd)))))))"

definition fix_command :: "'w runner_env \<Rightarrow> py_val \<Rightarrow> py_val option" where
  "fix_command X cmd =
     (let fixed = Some (appended X cmd '' --fix'') in
      when_in ''eslint'' cmd fixed
        (when_in ''black'' cmd (replaced ''--check'' [] cmd)
          (when_in ''ruff'' cmd fixed (when_in ''cargo clippy'' cmd fixed (Some cmd)))))"

text \<open>\<open>None\<close> is an exception that leaves the runner, otherwise the exit code.\<close>

definition run_build :: "'w runner_env \<Rightarrow> py_val \<Rightarrow> bool \<Rightarrow> string \<Rightarrow> 'w \<Rightarrow> int option \<times> 'w" where
  "run_build X cmd production repo_path w =
     (if \<not> py_truth cmd then (Some 1, w)
      else case (if production then production_command X cmd else Some (False, cmd)) of
             None \<Rightarrow> (None, w)
           | Some (node_env, c) \<Rightarrow> shell_exit X node_env repo_path c w)"

definition run_tests :: "'w runner_env \<Rightarrow> py_val \<Rightarrow> bool \<Rightarrow> string \<Rightarrow> 'w \<Rightarrow> int option \<times> 'w" where
  "run_tests X cmd coverage repo_path w =
     (if \<not> py_truth cmd then (Some 1, w)
      else case (if coverage then coverage_command X cmd else Some cmd) of
             None \<Rightarrow> (None, w)
           | Some c \<Rightarrow> shell_exit X False repo_path c w)"

definition run_lint :: "'w runner_env \<Rightarrow> py_val \<Rightarrow> bool \<Rightarrow> string \<Rightarrow> 'w \<Rightarrow> int option \<times> 'w" where
  "run_lint X cmd fix_flag repo_path w =
     (if \<not> py_truth cmd then (Some 1, w)
      else case (if fix_flag then fix_command X cmd else Some cmd) of
             None \<Rightarrow> (None, w)
           | Some c \<Rightarrow> shell_exit X False repo_path c w)"

definition build_main :: "'w runner_env \<Rightarrow> runner_args \<Rightarrow> 'w \<Rightarrow> int option \<times> 'w" where
  "build_main X A w =
     (case choose_command X ''build'' A of None \<Rightarrow> (None, w) | Some c \<Rightarrow> run_build X c (ra_flag A) (rx_resolve X (ra_path A)) w)"

definition test_main :: "'w runner_env \<Rightarrow> runner_args \<Rightarrow> 'w \<Rightarrow> int option \<times> 'w" where
  "test_main X A w =
     (case choose_command X ''test'' A of None \<Rightarrow> (None, w) | Some c \<Rightarrow> run_tests X c (ra_flag A) (rx_resolve X (ra_path A)) w)"

definition lint_main :: "'w runner_env \<Rightarrow> runner_args \<Rightarrow> 'w \<Rightarrow> int option \<times> 'w" where
  "lint_main X A w =
     (case choose_command X ''lint'' A of None \<Rightarrow> (None, w) | Some c \<Rightarrow> run_lint X c (ra_flag A) (rx_resolve X (ra_path A)) w)"

text \<open>What \<open>detect_tech_stack.py\<close> prints.\<close>

definition opt_str :: "string option \<Rightarrow> py_val" where
  "opt_str v = (case v of None \<Rightarrow> PNone | Some s \<Rightarrow> PStr s)"

definition stack_json :: "tech_stack \<Rightarrow> py_val" where
  "stack_json s =
     PDict
      [(''tech_stack'', PDict
          [(''primary_language'', PStr (tk_language s)), (''framework'', opt_str (tk_framework s)),
           (''package_manager'', opt_str (tk_manager s)), (''detected_via'', opt_str (tk_via s))]),
       (''build'', PDict
          [(''enabled'', PBool (ti_enabled (tk_build s))), (''command'', opt_str (ti_command (tk_build s))),
           (''output_dir'', opt_str (ti_output (tk_build s)))]),
       (''test'', PDict
          [(''enabled'', PBool (ti_enabled (tk_test s))), (''command'', opt_str (ti_command (tk_test s))),
           (''coverage_enabled'', PBool (ti_coverage (tk_test s)))]),
       (''lint'', PDict
          [(''enabled'', PBool (ti_enabled (tk_lint s))), (''command'', opt_str (ti_command (tk_lint s)))])]"


section \<open>The commands that can be detected\<close>

definition managers :: "string list" where
  "managers = map fst manager_indicators"

definition build_commands :: "string list" where
  "build_commands = map (\<lambda>m. m @ '' run build'') managers
     @ [''flutter build'', ''python setup.py build'', ''go build'', ''cargo build --release'']"

definition test_commands :: "string list" where
  "test_commands = map (\<lambda>m. m @ '' test'') managers
     @ [''pytest'', ''python -m unittest discover'', ''flutter test'', ''go test ./...'', ''cargo test'']"

definition lint_commands :: "string list" where
  "lint_commands = map (\<lambda>m. m @ '' run lint'') managers @ map snd python_linters
     @ [''eslint .'', ''flutter analyze'', ''go vet ./...'', ''cargo clippy'']"

lemma with_manager_listed: "with_manager (detect_package_manager R) x \<in> set (map (\<lambda>m. m @ x) managers)"
proof (cases "detect_package_manager R")
  case None
  then show ?thesis by (simp add: with_manager_def managers_def manager_indicators_def)
next
  case (Some m)
  then have "m \<in> set managers" by (force simp: detect_package_manager_def managers_def dest!: first_such_Some)
  with Some show ?thesis by (simp add: with_manager_def)
qed

lemmas tool_defs = Let_def use_tool_def use_build_def no_tool_def

lemma build_detected:
  "ti_command (detect_build_system R l (detect_package_manager R)) = Some c \<Longrightarrow> c \<in> set build_commands"
  using with_manager_listed [of R "'' run build''"]
  by (auto simp: detect_build_system_def build_commands_def tool_defs split: if_splits)

lemma python_tests_command:
  "ti_command (python_tests R t) \<in> {ti_command t, Some ''pytest'', Some ''python -m unittest discover''}"
  by (simp add: python_tests_def Let_def split: option.split)

lemma test_detected:
  assumes "ti_command (detect_test_system R l (detect_package_manager R)) = Some c"
  shows "c \<in> set test_commands"
  using assms with_manager_listed [of R "'' test''"] python_tests_command [of R no_tool]
    python_tests_command [of R "(use_tool (with_manager (detect_package_manager R) '' test'') no_tool)\<lparr>ti_coverage := script_entry ''coverage'' R = Some True\<rparr>"]
  by (auto simp: detect_test_system_def test_commands_def tool_defs split: if_splits)

lemma lint_detected:
  "ti_command (detect_lint_system R l (detect_package_manager R)) = Some c \<Longrightarrow> c \<in> set lint_commands"
  using with_manager_listed [of R "'' run lint''"]
  by (auto simp: detect_lint_system_def lint_commands_def tool_defs split: if_splits option.splits bool.splits
      dest!: first_such_Some bind_eq_Some_conv [THEN iffD1])


section \<open>What a flag makes of them\<close>

lemma when_in_text [simp]: "when_in k (PStr s) yes no = (if substring k s then yes else no)"
  by (simp add: when_in_def json_in_def)

lemma text_values [simp]: "appended X (PStr s) t = PStr (s @ t)" "replaced old new (PStr s) = Some (PStr (py_replace old new s))"
  by (simp_all add: appended_def replaced_def render_def)

text \<open>A table of rewritten commands; one that is not listed is left alone.\<close>

definition reworded :: "(string \<times> string) list \<Rightarrow> string \<Rightarrow> string" where
  "reworded table c = (case map_of table c of Some d \<Rightarrow> d | None \<Rightarrow> c)"

definition production_words :: "(string \<times> string) list" where
  "production_words = [(''flutter build'', ''flutter build --release'')]"

definition coverage_words :: "(string \<times> string) list" where
  "coverage_words =
     [(''pytest'', ''pytest --cov --cov-report=html --cov-report=term''), (''npm test'', ''npm test -- --coverage''),
      (''pnpm test'', ''pnpm test -- --coverage''), (''yarn test'', ''yarn test -- --coverage''), (''flutter test'', ''flutter test --coverage''),
      (''go test ./...'', ''go test ./... -cover''), (''go test'', ''go test -cover''), (''cargo test'', ''cargo test -cover'')]"

definition fix_words :: "(string \<times> string) list" where
  "fix_words =
     [(''eslint .'', ''eslint . --fix''), (''black --check src'', ''black  src''), (''ruff check .'', ''ruff check . --fix''),
      (''cargo clippy'', ''cargo clippy --fix'')]"

lemma production_detected:
  assumes "c \<in> set build_commands"
  shows "production_command X (PStr c) = Some (c \<in> {''npm run build'', ''pnpm run build''}, PStr (reworded production_words c))"
proof -
  have "list_all (\<lambda>c. production_command X (PStr c) = Some (c \<in> {''npm run build'', ''pnpm run build''}, PStr (reworded production_words c)))
      build_commands"
    by code_simp
  with assms show ?thesis by (simp add: list_all_iff)
qed

lemma coverage_detected:
  assumes "c \<in> set test_commands"
  shows "coverage_command X (PStr c) = Some (PStr (reworded coverage_words c))"
proof -
  have "list_all (\<lambda>c. coverage_command X (PStr c) = Some (PStr (reworded coverage_words c))) test_commands" by code_simp
  with assms show ?thesis by (simp add: list_all_iff)
qed

lemma fix_detected:
  assumes "c \<in> set lint_commands"
  shows "fix_command X (PStr c) = Some (PStr (reworded fix_words c))"
proof -
  have "list_all (\<lambda>c. fix_command X (PStr c) = Some (PStr (reworded fix_words c))) lint_commands" by code_simp
  with assms show ?thesis by (simp add: list_all_iff)
qed


section \<open>Detection and runners together\<close>

lemma detect_command_stack [simp]:
  assumes "rx_exists X (path @ detect_script)" and "rx_detect X path = Some (stack_json s)"
  shows "detect_command X ''build'' path = opt_str (ti_command (tk_build s))"
    and "detect_command X ''test'' path = opt_str (ti_command (tk_test s))"
    and "detect_command X ''lint'' path = opt_str (ti_command (tk_lint s))"
  using assms by (simp_all add: detect_command_def stack_json_def json_get_def)

lemma choose_detected:
  "\<not> truthy (ra_command A) \<Longrightarrow> ra_config A = None \<Longrightarrow>
     choose_command X key A = Some (detect_command X key (rx_resolve X (ra_path A)))"
  by (simp add: choose_command_def)

lemma opt_str_simps [simp]: "opt_str None = PNone" "opt_str (Some c) = PStr c"
  by (simp_all add: opt_str_def)

lemma listed_nonempty: "[] \<notin> set build_commands" "[] \<notin> set test_commands" "[] \<notin> set lint_commands"
  by (auto simp: build_commands_def test_commands_def lint_commands_def python_linters_def)

lemma detect_tech_stack_tools:
  "tk_build (detect_tech_stack R) = detect_build_system R (tk_language (detect_tech_stack R)) (detect_package_manager R)"
  "tk_test (detect_tech_stack R) = detect_test_system R (tk_language (detect_tech_stack R)) (detect_package_manager R)"
  "tk_lint (detect_tech_stack R) = detect_lint_system R (tk_language (detect_tech_stack R)) (detect_package_manager R)"
  by (simp_all add: detect_tech_stack_def Let_def)

text \<open>C30: Without configuration each runner runs what the detection found: when the detection script prints the technology of the
  repository and neither a command nor a configuration file is given, a tool that was not found gives exit code 1 without any
  process started; otherwise the shell runs one command in the repository, the detected one, reworded by the table when the
  flag is given, and the runner exits with its return code, or 1 when it cannot be started.\<close>

theorem runners_follow_detection:
  assumes "rx_exists X (path @ detect_script)" and "rx_detect X path = Some (stack_json s)"
    and "s = detect_tech_stack R" and "path = rx_resolve X (ra_path A)"
    and "\<not> truthy (ra_command A)" and "ra_config A = None"
  shows "build_main X A w =
      (case ti_command (tk_build s) of
         None \<Rightarrow> (Some 1, w)
       | Some c \<Rightarrow> shell_exit X (ra_flag A \<and> c \<in> {''npm run build'', ''pnpm run build''}) path
                     (PStr (if ra_flag A then reworded production_words c else c)) w)
    \<and> test_main X A w =
      (case ti_command (tk_test s) of
         None \<Rightarrow> (Some 1, w)
       | Some c \<Rightarrow> shell_exit X False path (PStr (if ra_flag A then reworded coverage_words c else c)) w)
    \<and> lint_main X A w =
      (case ti_command (tk_lint s) of
         None \<Rightarrow> (Some 1, w)
       | Some c \<Rightarrow> shell_exit X False path (PStr (if ra_flag A then reworded fix_words c else c)) w)"
proof -
  note chosen = choose_detected [OF assms(5,6)] detect_command_stack [OF assms(1,2)]
  have "c \<in> set build_commands" if "ti_command (tk_build s) = Some c" for c
    using that build_detected by (simp add: assms(3) detect_tech_stack_tools)
  then have "build_main X A w =
      (case ti_command (tk_build s) of
         None \<Rightarrow> (Some 1, w)
       | Some c \<Rightarrow> shell_exit X (ra_flag A \<and> c \<in> {''npm run build'', ''pnpm run build''}) path
                     (PStr (if ra_flag A then reworded production_words c else c)) w)"
    using listed_nonempty(1)
    by (auto simp: build_main_def run_build_def chosen production_detected assms(4) [symmetric] split: option.split)
  moreover have "c \<in> set test_commands" if "ti_command (tk_test s) = Some c" for c
    using that test_detected by (simp add: assms(3) detect_tech_stack_tools)
  then have "test_main X A w =
      (case ti_command (tk_test s) of
         None \<Rightarrow> (Some 1, w)
       | Some c \<Rightarrow> shell_exit X False path (PStr (if ra_flag A then reworded coverage_words c else c)) w)"
    using listed_nonempty(2)
    by (auto simp: test_main_def run_tests_def chosen coverage_detected assms(4) [symmetric] split: option.split)
  moreover have "c \<in> set lint_commands" if "ti_command (tk_lint s) = Some c" for c
    using that lint_detected by (simp add: assms(3) detect_tech_stack_tools)
  then have "lint_main X A w =
      (case ti_command (tk_lint s) of
         None \<Rightarrow> (Some 1, w)
       | Some c \<Rightarrow> shell_exit X False path (PStr (if ra_flag A then reworded fix_words c else c)) w)"
    using listed_nonempty(3)
    by (auto simp: lint_main_def run_lint_def chosen fix_detected assms(4) [symmetric] split: option.split)
  ultimately show ?thesis by blast
qed

definition rust_repository :: repository where
  "rust_repository = \<lparr>rp_exists = (\<lambda>f. f = ''Cargo.toml''), rp_glob = (\<lambda>_. False), rp_text = (\<lambda>_. None), rp_json = (\<lambda>_. None)\<rparr>"

definition rust_env :: "(string list) runner_env" where
  "rust_env =
     \<lparr>rx_exists = (\<lambda>_. True), rx_yaml = (\<lambda>_. None), rx_json = (\<lambda>_. None), rx_resolve = (\<lambda>p. p),
      rx_detect = (\<lambda>_. Some (stack_json (detect_tech_stack rust_repository))), rx_str = (\<lambda>_. []),
      rx_shell = (\<lambda>_ _ cmd w. (Some 0, w @ [case cmd of PStr s \<Rightarrow> s | _ \<Rightarrow> []]))\<rparr>"

theorem runners_follow_detection_witness:
  "lint_main rust_env \<lparr>ra_config = None, ra_flag = True, ra_command = None, ra_path = ''/r''\<rparr> []
     = (Some 0, [''cargo clippy --fix''])"
proof -
  let ?A = "\<lparr>ra_config = None, ra_flag = True, ra_command = None, ra_path = ''/r''\<rparr>"
  have "ti_command (tk_lint (detect_tech_stack rust_repository)) = Some ''cargo clippy''" by code_simp
  moreover have "reworded fix_words ''cargo clippy'' = ''cargo clippy --fix''" by code_simp
  ultimately show ?thesis
    using runners_follow_detection [of rust_env "''/r''" "detect_tech_stack rust_repository" rust_repository ?A "[]"]
    by (simp add: rust_env_def truthy_def shell_exit_def)
qed


section \<open>Where the rewording goes wrong\<close>

text \<open>\<open>cargo test\<close> contains \<open>go test\<close>, which is asked first: the branch of \<open>cargo tarpaulin\<close> is never taken.\<close>

lemma tarpaulin_unreachable:
  assumes "substring ''cargo test'' s"
    and "\<not> substring ''pytest'' s" "\<not> substring ''npm'' s" "\<not> substring ''yarn'' s" "\<not> substring ''flutter test'' s"
  shows "coverage_command X (PStr s) = Some (PStr (s @ '' -cover''))"
proof -
  have "substring ''go test'' ''cargo test''" by code_simp
  then have "substring ''go test'' s" using assms(1) substring_trans by blast
  with assms show ?thesis by (simp add: coverage_command_def)
qed

text \<open>The default test command of Python gets no coverage, the detected build command of yarn no \<open>NODE_ENV\<close>, and a script
  whose own name contains \<open>test\<close> is reworded twice.\<close>

lemma flags_ignored:
  "coverage_command X (PStr ''python -m unittest discover'') = Some (PStr ''python -m unittest discover'')"
  "production_command X (PStr ''yarn run build'') = Some (False, PStr ''yarn run build'')"
  "coverage_command X (PStr ''npm run test:unit'') = Some (PStr ''npm run test -- --coverage:unit'')"
  by code_simp+

text \<open>A JavaScript project beside Python requirements, without a lock file of npm, is built with \<open>pip\<close>.\<close>

lemma pip_runs_scripts:
  assumes "rp_exists R = (\<lambda>f. f \<in> {''package.json'', ''requirements.txt''})" and "script_entry ''build'' R = Some True"
    and "language \<notin> {''dart'', ''go'', ''rust''}"
  shows "ti_command (detect_build_system R language (detect_package_manager R)) = Some ''pip run build''"
  using assms
  by (simp add: detect_build_system_def detect_package_manager_def manager_indicators_def with_manager_def use_build_def use_tool_def Let_def)

text \<open>An empty YAML file, which parses to null, stops the runner with an exception.\<close>

lemma empty_config_crashes:
  assumes "rx_exists X ''c.yaml''" and "rx_yaml X ''c.yaml'' = Some PNone" and "\<not> truthy (ra_command A)" and "ra_config A = Some ''c.yaml''"
  shows "fst (build_main X A w) = None"
proof -
  have "suffix_of ''c.yaml'' = ''.yaml''" by code_simp
  with assms show ?thesis
    by (simp add: build_main_def choose_command_def load_config_def configured_command_def json_get_def)
qed

end
