(* ===== verification/SyncManager.thy ===== *)
theory SyncManager
  imports Effects PyText
begin

text \<open>
  The registry of derived repositories and their synchronisation, \<open>scripts/agents/sync_manager.py\<close>. The manifest file is
  the state: every operation loads it, and saves it when it has changed it. Parameters: the clock and the answer of the
  GitHub API to the dispatch of a workflow.
\<close>

section \<open>The manifest\<close>

record sync_path =
  sy_source :: string
  sy_target :: string
  sy_strategy :: "string option"

datatype sync_status = Success | Failed | In_progress

record derived_repo =
  de_name :: string
  de_registered :: instant
  de_updated :: instant
  de_last_sync :: "instant option"
  de_last_status :: "sync_status option"
  de_details :: "py_val option"
  de_paths :: "sync_path list"
  de_enabled :: bool
  de_auto :: bool

text \<open>\<open>None\<close> in \<open>mf_repos\<close> is a manifest without the key \<open>derived_repos\<close>.\<close>

record manifest =
  mf_repos :: "derived_repo list option"
  mf_updated :: "instant option"

text \<open>The file, \<open>None\<close> when it does not exist.\<close>

type_synonym manifest_file = "manifest option"

definition load_manifest :: "manifest_file \<Rightarrow> manifest" where
  "load_manifest f = (case f of None \<Rightarrow> \<lparr>mf_repos = Some [], mf_updated = None\<rparr> | Some m \<Rightarrow> m)"

definition repos_of :: "manifest_file \<Rightarrow> derived_repo list" where
  "repos_of f = (case mf_repos (load_manifest f) of None \<Rightarrow> [] | Some rs \<Rightarrow> rs)"


section \<open>Operations\<close>

text \<open>\<open>for repo in repos: if repo["name"] == name: change repo; break\<close>.\<close>

fun change_first :: "string \<Rightarrow> (derived_repo \<Rightarrow> derived_repo) \<Rightarrow> derived_repo list \<Rightarrow> derived_repo list option" where
  "change_first n f [] = None"
| "change_first n f (r # rs) =
     (if de_name r = n then Some (f r # rs) else map_option ((#) r) (change_first n f rs))"

definition register_derived_repo :: "instant \<Rightarrow> string \<Rightarrow> sync_path list \<Rightarrow> manifest_file \<Rightarrow> bool \<times> manifest_file" where
  "register_derived_repo now n paths file =
     (let m = load_manifest file; rs = repos_of file in
      case change_first n (\<lambda>r. r\<lparr>de_paths := paths, de_updated := now\<rparr>) rs of
        Some rs' \<Rightarrow> (True, Some (m\<lparr>mf_repos := Some rs'\<rparr>))
      | None \<Rightarrow>
          (True, Some (m\<lparr>mf_repos := Some (rs @ [\<lparr>de_name = n, de_registered = now, de_updated = now, de_last_sync = None,
               de_last_status = None, de_details = None, de_paths = paths, de_enabled = True, de_auto = True\<rparr>]),
             mf_updated := Some now\<rparr>)))"

definition unregister_derived_repo :: "instant \<Rightarrow> string \<Rightarrow> manifest_file \<Rightarrow> bool \<times> manifest_file" where
  "unregister_derived_repo now n file =
     (let m = load_manifest file in
      case mf_repos m of
        None \<Rightarrow> (False, file)
      | Some rs \<Rightarrow>
          (let kept = filter (\<lambda>r. de_name r \<noteq> n) rs in
           if length kept < length rs then (True, Some (m\<lparr>mf_repos := Some kept, mf_updated := Some now\<rparr>))
           else (False, file)))"

definition get_repo_sync_status :: "string \<Rightarrow> manifest_file \<Rightarrow> derived_repo option" where
  "get_repo_sync_status n file = find (\<lambda>r. de_name r = n) (repos_of file)"

text \<open>\<open>if details:\<close> is false for \<open>None\<close> and for an empty dictionary.\<close>

definition update_sync_status ::
  "instant \<Rightarrow> string \<Rightarrow> sync_status \<Rightarrow> py_val option \<Rightarrow> manifest_file \<Rightarrow> manifest_file" where
  "update_sync_status now n status details file =
     (let m = load_manifest file in
      case mf_repos m of
        None \<Rightarrow> file
      | Some rs \<Rightarrow>
          (let mark = (\<lambda>r. (let r1 = r\<lparr>de_last_sync := Some now, de_last_status := Some status\<rparr> in
                 if details = None \<or> details = Some (PDict []) then r1 else r1\<lparr>de_details := details\<rparr>)) in
           Some (m\<lparr>mf_repos := Some (case change_first n mark rs of Some rs' \<Rightarrow> rs' | None \<Rightarrow> rs), mf_updated := Some now\<rparr>)))"

text \<open>The answer to a dispatch: a status code, or an exception. The log of the posts is kept for the proofs.\<close>

datatype post_answer = Status int | Post_raises

record sync_world =
  sw_file :: manifest_file
  sw_posts :: "(string \<times> string) list"

definition trigger_sync_workflow ::
  "bool \<Rightarrow> (string \<Rightarrow> string \<Rightarrow> post_answer) \<Rightarrow> instant \<Rightarrow> string \<Rightarrow> string \<Rightarrow> sync_world \<Rightarrow> bool \<times> sync_world" where
  "trigger_sync_workflow has_token post now n path w =
     (if \<not> has_token then (False, w)
      else
        (let w1 = w\<lparr>sw_posts := sw_posts w @ [(n, path)]\<rparr> in
         case post n path of
           Status c \<Rightarrow>
             if c = 204 then (True, w1\<lparr>sw_file := update_sync_status now n In_progress None (sw_file w1)\<rparr>) else (False, w1)
         | Post_raises \<Rightarrow> (False, w1)))"

definition path_mapping :: "sync_path \<Rightarrow> string" where
  "path_mapping p = sy_source p @ '':'' @ sy_target p"

definition auto_repos :: "manifest_file \<Rightarrow> derived_repo list" where
  "auto_repos file = filter (\<lambda>r. de_auto r \<and> de_enabled r) (repos_of file)"

text \<open>The repositories are listed once, before the first is triggered.\<close>

definition sync_all_enabled_repos ::
  "bool \<Rightarrow> (string \<Rightarrow> string \<Rightarrow> post_answer) \<Rightarrow> instant \<Rightarrow> sync_world \<Rightarrow> sync_world" where
  "sync_all_enabled_repos has_token post now w =
     fold (\<lambda>(n, p) w. snd (trigger_sync_workflow has_token post now n p w))
       (concat (map (\<lambda>r. map (\<lambda>p. (de_name r, path_mapping p)) (de_paths r)) (auto_repos (sw_file w)))) w"


section \<open>The registry is a map\<close>

datatype sync_call =
    Register instant string "sync_path list"
  | Unregister instant string
  | Update_status instant string sync_status "py_val option"

fun sync_step :: "sync_call \<Rightarrow> manifest_file \<Rightarrow> manifest_file" where
  "sync_step (Register now n paths) f = snd (register_derived_repo now n paths f)"
| "sync_step (Unregister now n) f = snd (unregister_derived_repo now n f)"
| "sync_step (Update_status now n s d) f = update_sync_status now n s d f"

text \<open>The abstract registry: who is registered, since when, with which paths.\<close>

fun spec_sync :: "sync_call \<Rightarrow> (string \<Rightarrow> (instant \<times> sync_path list) option) \<Rightarrow> string \<Rightarrow> (instant \<times> sync_path list) option" where
  "spec_sync (Register now n paths) m = m(n \<mapsto> (case m n of None \<Rightarrow> now | Some (t, _) \<Rightarrow> t, paths))"
| "spec_sync (Unregister now n) m = m(n := None)"
| "spec_sync (Update_status now n s d) m = m"

definition registry_abs :: "derived_repo list \<Rightarrow> string \<Rightarrow> (instant \<times> sync_path list) option" where
  "registry_abs rs n = map_option (\<lambda>r. (de_registered r, de_paths r)) (find (\<lambda>r. de_name r = n) rs)"

definition sync_inv :: "manifest_file \<Rightarrow> bool" where
  "sync_inv f \<longleftrightarrow> distinct (map de_name (repos_of f))"

lemma registry_abs_Nil [simp]: "registry_abs [] n = None"
  by (simp add: registry_abs_def)

lemma registry_abs_Cons [simp]:
  "registry_abs (r # rs) n = (if de_name r = n then Some (de_registered r, de_paths r) else registry_abs rs n)"
  by (simp add: registry_abs_def)

lemma registry_abs_append:
  "registry_abs (rs @ qs) n = (case registry_abs rs n of None \<Rightarrow> registry_abs qs n | Some x \<Rightarrow> Some x)"
  by (induction rs) auto

lemma registry_abs_None: "registry_abs rs n = None \<longleftrightarrow> n \<notin> de_name ` set rs"
  by (induction rs) auto

lemma registry_abs_filter: "registry_abs (filter (\<lambda>r. de_name r \<noteq> n) rs) k = (if k = n then None else registry_abs rs k)"
  by (induction rs) auto

lemma change_first_None: "change_first n f rs = None \<longleftrightarrow> n \<notin> de_name ` set rs"
  by (induction rs) auto

lemma change_first_Some:
  assumes "change_first n f rs = Some rs'" "\<And>r. de_name (f r) = de_name r"
  shows "map de_name rs' = map de_name rs"
    "\<exists>r \<in> set rs. de_name r = n \<and> registry_abs rs n = Some (de_registered r, de_paths r)
       \<and> registry_abs rs' = (registry_abs rs)(n \<mapsto> (de_registered (f r), de_paths (f r)))"
  using assms
proof (induction rs arbitrary: rs')
  case (Cons r rs)
  {
    case 1
    then show ?case using Cons.IH(1) by (auto split: if_splits)
  next
    case 2
    show ?case
    proof (cases "de_name r = n")
      case True
      with 2 show ?thesis by (auto simp: fun_eq_iff)
    next
      case False
      then obtain qs where q: "change_first n f rs = Some qs" "rs' = r # qs" using 2 by auto
      from Cons.IH(2) [OF q(1) 2(2)] obtain x where x: "x \<in> set rs" "de_name x = n" "registry_abs rs n = Some (de_registered x, de_paths x)"
        "registry_abs qs = (registry_abs rs)(n \<mapsto> (de_registered (f x), de_paths (f x)))" by blast
      have m: "registry_abs rs' = (registry_abs (r # rs))(n \<mapsto> (de_registered (f x), de_paths (f x)))"
        using x(2,4) False by (auto simp: fun_eq_iff q(2))
      have "x \<in> set (r # rs)" "registry_abs (r # rs) n = Some (de_registered x, de_paths x)" using x(1,3) False by simp_all
      with x(2) m show ?thesis by blast
    qed
  }
qed simp_all

lemma sync_step_correct:
  "sync_inv file \<Longrightarrow> sync_inv (sync_step c file)"
  "registry_abs (repos_of (sync_step c file)) = spec_sync c (registry_abs (repos_of file))"
proof -
  let ?rs = "repos_of file"
  have "(sync_inv file \<longrightarrow> sync_inv (sync_step c file)) \<and> registry_abs (repos_of (sync_step c file)) = spec_sync c (registry_abs ?rs)"
  proof (cases c)
    case (Register now n paths)
    let ?f = "\<lambda>r. r\<lparr>de_paths := paths, de_updated := now\<rparr>"
    show ?thesis
    proof (cases "change_first n ?f ?rs")
      case None
      then have new: "n \<notin> de_name ` set ?rs" by (simp add: change_first_None)
      have "registry_abs ?rs n = None" using new by (simp add: registry_abs_None)
      moreover have "registry_abs (?rs @ [r]) = (registry_abs ?rs)(n \<mapsto> (de_registered r, de_paths r))" if "de_name r = n" for r
        using that calculation by (auto simp: fun_eq_iff registry_abs_append split: option.splits)
      ultimately show ?thesis using None new
        by (simp add: Register register_derived_repo_def Let_def sync_inv_def) (simp add: repos_of_def load_manifest_def)
    next
      case (Some rs')
      have name: "de_name (?f r) = de_name r" for r by simp
      note c = change_first_Some [OF Some name]
      have r: "repos_of (sync_step c file) = rs'" using Some by (simp add: Register register_derived_repo_def Let_def) (simp add: repos_of_def load_manifest_def)
      from c(2) have "registry_abs rs' = spec_sync c (registry_abs ?rs)" by (auto simp: Register)
      then show ?thesis using r c(1) by (simp add: sync_inv_def)
    qed
  next
    case (Unregister now n)
    let ?kept = "filter (\<lambda>r. de_name r \<noteq> n) ?rs"
    have abs: "registry_abs ?kept = (registry_abs ?rs)(n := None)" by (auto simp: fun_eq_iff registry_abs_filter)
    have r: "repos_of (sync_step c file) = ?kept"
    proof (cases "mf_repos (load_manifest file)")
      case None
      then show ?thesis by (simp add: Unregister unregister_derived_repo_def Let_def repos_of_def)
    next
      case (Some rs)
      then have rs: "?rs = rs" by (simp add: repos_of_def)
      show ?thesis
      proof (cases "length (filter (\<lambda>r. de_name r \<noteq> n) rs) < length rs")
        case True
        then show ?thesis unfolding rs by (simp add: Unregister unregister_derived_repo_def Let_def Some) (simp add: repos_of_def load_manifest_def)
      next
        case False
        then have "filter (\<lambda>r. de_name r \<noteq> n) rs = rs" by (metis length_filter_less filter_id_conv)
        then show ?thesis using False rs by (simp add: Unregister unregister_derived_repo_def Let_def Some)
      qed
    qed
    have "distinct (map de_name ?kept)" if "distinct (map de_name ?rs)" using that by (simp add: distinct_map_filter)
    then show ?thesis using abs r by (simp add: sync_inv_def Unregister)
  next
    case (Update_status now n s d)
    show ?thesis
    proof (cases "mf_repos (load_manifest file)")
      case None
      then show ?thesis by (simp add: Update_status update_sync_status_def Let_def)
    next
      case (Some rs)
      then have rs: "?rs = rs" by (simp add: repos_of_def)
      let ?f = "\<lambda>r. (let r1 = r\<lparr>de_last_sync := Some now, de_last_status := Some s\<rparr> in
                 if d = None \<or> d = Some (PDict []) then r1 else r1\<lparr>de_details := d\<rparr>)"
      have f: "de_name (?f r) = de_name r" "de_registered (?f r) = de_registered r" "de_paths (?f r) = de_paths r" for r
        by (simp_all add: Let_def)
      let ?new = "case change_first n ?f rs of Some rs' \<Rightarrow> rs' | None \<Rightarrow> rs"
      have r: "repos_of (sync_step c file) = ?new"
        by (simp add: Update_status update_sync_status_def Let_def Some) (simp add: repos_of_def load_manifest_def)
      have "map de_name ?new = map de_name rs \<and> registry_abs ?new = registry_abs rs"
      proof (cases "change_first n ?f rs")
        case (Some rs')
        from change_first_Some [OF Some f(1)] f show ?thesis using Some by (auto simp: fun_eq_iff)
      qed simp
      then show ?thesis using r rs by (simp add: sync_inv_def Update_status)
    qed
  qed
  then show "sync_inv file \<Longrightarrow> sync_inv (sync_step c file)"
    "registry_abs (repos_of (sync_step c file)) = spec_sync c (registry_abs ?rs)" by simp_all
qed

interpretation registry: step_machine sync_step sync_inv
  by unfold_locales (rule sync_step_correct(1))

lemma sync_run_abs: "registry_abs (repos_of (fold sync_step cs f)) = fold spec_sync cs (registry_abs (repos_of f))"
  by (induction cs arbitrary: f) (simp_all add: sync_step_correct(2))

text \<open>C29: The manifest is a map of repositories. After any sequence of registrations, removals and status updates on a missing
  file, no name is listed twice, and the status of a name is found exactly when it was registered and not removed since:
  with the time of its first and the paths of its last registration.\<close>

theorem sync_registry_is_map:
  "distinct (map de_name (repos_of (fold sync_step cs None)))
   \<and> map_option (\<lambda>r. (de_registered r, de_paths r)) (get_repo_sync_status n (fold sync_step cs None)) = fold spec_sync cs Map.empty n"
proof -
  have start: "sync_inv None" "registry_abs (repos_of None) = Map.empty"
    by (auto simp: sync_inv_def repos_of_def load_manifest_def)
  have "sync_inv (fold sync_step cs None)" by (rule registry.run_keeps) (rule start(1))
  moreover have "registry_abs (repos_of (fold sync_step cs None)) n = fold spec_sync cs Map.empty n"
    by (simp add: sync_run_abs start(2))
  ultimately show ?thesis by (simp add: sync_inv_def registry_abs_def get_repo_sync_status_def)
qed

text \<open>With a token, syncing all posts one dispatch for each path of each repository that is enabled and synced automatically,
  in the order of the manifest, whatever the answers are.\<close>

lemma sync_all_posts:
  "sw_posts (sync_all_enabled_repos True post now w)
     = sw_posts w @ concat (map (\<lambda>r. map (\<lambda>p. (de_name r, path_mapping p)) (de_paths r)) (auto_repos (sw_file w)))"
proof -
  have "sw_posts (fold (\<lambda>(n, p) w. snd (trigger_sync_workflow True post now n p w)) ps w) = sw_posts w @ ps" for ps w
    by (induction ps arbitrary: w) (auto simp: trigger_sync_workflow_def Let_def split: post_answer.split)
  then show ?thesis by (simp add: sync_all_enabled_repos_def)
qed

end
