(* ===== verification/SyncCli.thy ===== *)
theory SyncCli
  imports SyncManager
begin

text \<open>
  The report and the command line of \<open>scripts/agents/sync_manager.py\<close>. A sign outside Latin-1 is a named part of a text.
\<close>

section \<open>The report\<close>

datatype part = Plain string | Sign string

definition line_end :: part where
  "line_end = Plain [CHR 0x0A]"

definition flag_parts :: "bool \<Rightarrow> string \<Rightarrow> string \<Rightarrow> part list" where
  "flag_parts b yes no = (if b then [Sign ''check'', Plain ('' '' @ yes)] else [Sign ''cross'', Plain ('' '' @ no)])"

fun status_text :: "sync_status \<Rightarrow> string" where
  "status_text Success = ''success''"
| "status_text Failed = ''failed''"
| "status_text In_progress = ''in_progress''"

fun status_sign :: "sync_status option \<Rightarrow> string" where
  "status_sign None = ''question''"
| "status_sign (Some Success) = ''check''"
| "status_sign (Some Failed) = ''cross''"
| "status_sign (Some In_progress) = ''arrows''"

definition path_parts :: "sync_path \<Rightarrow> part list" where
  "path_parts p =
     [Plain (''  - `'' @ sy_source p @ ''` ''), Sign ''arrow'', Plain ('' `'' @ sy_target p @ ''` ('' @
        (case sy_strategy p of None \<Rightarrow> ''merge'' | Some s \<Rightarrow> s) @ '')''), line_end]"

text \<open>\<open>iso_text\<close> is \<open>isoformat\<close>; the time of a synchronisation is never empty.\<close>

definition repo_parts :: "(instant \<Rightarrow> string) \<Rightarrow> derived_repo \<Rightarrow> part list" where
  "repo_parts iso_text r =
     [Plain (''### '' @ de_name r), line_end, line_end, Plain ''- **Status:** ''] @ flag_parts (de_enabled r) ''Enabled'' ''Disabled''
     @ [line_end, Plain ''- **Auto-sync:** ''] @ flag_parts (de_auto r) ''Yes'' ''No''
     @ [line_end, Plain (''- **Registered:** '' @ iso_text (de_registered r)), line_end]
     @ (case de_last_sync r of
          Some t \<Rightarrow> [Plain (''- **Last Sync:** '' @ iso_text t @ '' ''), Sign (status_sign (de_last_status r)),
                     Plain ('' '' @ (case de_last_status r of None \<Rightarrow> ''Unknown'' | Some s \<Rightarrow> status_text s)), line_end]
        | None \<Rightarrow> [Plain ''- **Last Sync:** Never'', line_end])
     @ [Plain ''- **Sync Paths:**'', line_end] @ concat (map path_parts (de_paths r)) @ [line_end]"

definition generate_sync_report :: "(instant \<Rightarrow> string) \<Rightarrow> string \<Rightarrow> manifest_file \<Rightarrow> part list" where
  "generate_sync_report iso_text stamp f =
     (let rs = repos_of f; n = show_nat (length rs) in
      if rs = [] then [Plain ''# Sync Status Report'', line_end, line_end, Plain ''No derived repositories registered.'', line_end]
      else
        [Plain ''# Sync Status Report'', line_end, line_end, Plain (''**Generated:** '' @ stamp), line_end, line_end,
         Plain (''**Total Repositories:** '' @ n), line_end, line_end, Plain ''## Summary'', line_end, line_end,
         Plain ''- '', Sign ''check'', Plain ('' Enabled: '' @ show_nat (length (filter de_enabled rs)) @ ''/'' @ n), line_end,
         Plain ''- '', Sign ''robot'', Plain ('' Auto-sync: '' @ show_nat (length (filter de_auto rs)) @ ''/'' @ n), line_end, line_end,
         Plain ''## Repositories'', line_end, line_end]
        @ concat (map (repo_parts iso_text) rs))"


section \<open>The command line\<close>

record sync_args =
  ag_command :: string
  ag_repo :: "string option"
  ag_paths :: "string option"
  ag_path :: "string option"

definition commands :: "string list" where
  "commands = [''register'', ''unregister'', ''list'', ''status'', ''sync'', ''sync-all'', ''report'']"

text \<open>\<open>if not args.x\<close>\<close>

definition given :: "string option \<Rightarrow> string option" where
  "given x = (case x of None \<Rightarrow> None | Some v \<Rightarrow> if v = [] then None else Some v)"

text \<open>How the process ends: an exit code, that of \<open>argparse\<close> for a command it does not know included, or an exception that nothing
  catches. The paths are read by \<open>parse\<close>, that is \<open>json.loads\<close>; \<open>writable\<close> tells whether the folder of the report exists.\<close>

datatype ending = Exit_code nat | Uncaught string

record sync_ports =
  sp_token :: bool
  sp_post :: "string \<Rightarrow> string \<Rightarrow> post_answer"
  sp_parse :: "string \<Rightarrow> sync_path list option"
  sp_iso :: "instant \<Rightarrow> string"
  sp_stamp :: string
  sp_writable :: bool

datatype shown_result = Nothing_shown | Listed "(bool \<times> string) list" | Status_shown derived_repo | Report "part list"

definition sync_main :: "sync_ports \<Rightarrow> instant \<Rightarrow> sync_args \<Rightarrow> sync_world \<Rightarrow> ending \<times> shown_result \<times> sync_world" where
  "sync_main P now a w =
     (let c = ag_command a; f = sw_file w in
      if c \<notin> set commands then (Exit_code 2, Nothing_shown, w)
      else if c = ''register'' then
        (case (given (ag_repo a), given (ag_paths a)) of
           (Some n, Some t) \<Rightarrow>
             (case sp_parse P t of
                None \<Rightarrow> (Uncaught ''JSONDecodeError'', Nothing_shown, w)
              | Some ps \<Rightarrow> (Exit_code 0, Nothing_shown, w\<lparr>sw_file := snd (register_derived_repo now n ps f)\<rparr>))
         | _ \<Rightarrow> (Exit_code 1, Nothing_shown, w))
      else if c = ''unregister'' then
        (case given (ag_repo a) of
           None \<Rightarrow> (Exit_code 1, Nothing_shown, w)
         | Some n \<Rightarrow> (Exit_code 0, Nothing_shown, w\<lparr>sw_file := snd (unregister_derived_repo now n f)\<rparr>))
      else if c = ''list'' then (Exit_code 0, Listed (map (\<lambda>r. (de_enabled r, de_name r)) (repos_of f)), w)
      else if c = ''status'' then
        (case given (ag_repo a) of
           None \<Rightarrow> (Exit_code 1, Nothing_shown, w)
         | Some n \<Rightarrow> (Exit_code 0, case get_repo_sync_status n f of None \<Rightarrow> Nothing_shown | Some r \<Rightarrow> Status_shown r, w))
      else if c = ''sync'' then
        (case (given (ag_repo a), given (ag_path a)) of
           (Some n, Some p) \<Rightarrow> (Exit_code 0, Nothing_shown, snd (trigger_sync_workflow (sp_token P) (sp_post P) now n p w))
         | _ \<Rightarrow> (Exit_code 1, Nothing_shown, w))
      else if c = ''sync-all'' then (Exit_code 0, Nothing_shown, sync_all_enabled_repos (sp_token P) (sp_post P) now w)
      else (if sp_writable P then Exit_code 0 else Uncaught ''FileNotFoundError'',
            Report (generate_sync_report (sp_iso P) (sp_stamp P) f), w))"


section \<open>What a command keeps\<close>

text \<open>Each command is steps of the registry: it is a map after any sequence of commands, failing ones included.\<close>

definition steps_to :: "manifest_file \<Rightarrow> manifest_file \<Rightarrow> bool" where
  "steps_to f g \<longleftrightarrow> (\<exists>cs. g = fold sync_step cs f)"

lemma steps_refl [intro]: "steps_to f f"
  by (auto simp: steps_to_def intro: exI [where x = "[]"])

lemma steps_trans: "steps_to f g \<Longrightarrow> steps_to g h \<Longrightarrow> steps_to f h"
  unfolding steps_to_def by (metis fold_append comp_apply)

lemma steps_call:
  "steps_to f (snd (register_derived_repo now n ps f))" "steps_to f (snd (unregister_derived_repo now n f))"
  "steps_to f (update_sync_status now n st d f)"
  unfolding steps_to_def
  by (rule exI [where x = "[Register now n ps]"], simp) (rule exI [where x = "[Unregister now n]"], simp,
      rule exI [where x = "[Update_status now n st d]"], simp)

lemma trigger_steps: "steps_to (sw_file w) (sw_file (snd (trigger_sync_workflow b post now n p w)))"
  by (cases "post n p") (auto simp: trigger_sync_workflow_def Let_def steps_call)

lemma sync_all_steps: "steps_to (sw_file w) (sw_file (sync_all_enabled_repos b post now w))"
proof -
  have "steps_to (sw_file w) (sw_file (fold (\<lambda>(n, p) w. snd (trigger_sync_workflow b post now n p w)) ps w))" for ps w
    by (induction ps arbitrary: w) (auto intro: steps_trans [OF trigger_steps])
  then show ?thesis unfolding sync_all_enabled_repos_def .
qed

lemma sync_main_steps: "steps_to (sw_file w) (sw_file (snd (snd (sync_main P now a w))))"
  by (simp add: sync_main_def Let_def steps_refl steps_call trigger_steps sync_all_steps split: option.split)

fun run_commands :: "sync_ports \<Rightarrow> (instant \<times> sync_args) list \<Rightarrow> sync_world \<Rightarrow> sync_world" where
  "run_commands P [] w = w"
| "run_commands P ((now, a) # as) w = run_commands P as (snd (snd (sync_main P now a w)))"

lemma commands_keep_names: "sync_inv (sw_file w) \<Longrightarrow> sync_inv (sw_file (run_commands P as w))"
proof (induction P as w rule: run_commands.induct)
  case (2 P now a as w)
  obtain cs where "sw_file (snd (snd (sync_main P now a w))) = fold sync_step cs (sw_file w)"
    using sync_main_steps unfolding steps_to_def by blast
  then show ?case using 2 registry.run_keeps [of "sw_file w" cs] by simp
qed simp

text \<open>A dispatch that GitHub refuses, or that is not even sent without a token, ends with exit code zero.\<close>

lemma failed_sync_exits_zero:
  "post n p \<noteq> Status 204 \<Longrightarrow> n \<noteq> [] \<Longrightarrow> p \<noteq> [] \<Longrightarrow>
   sync_main (\<lparr>sp_token = b, sp_post = post, sp_parse = pr, sp_iso = i, sp_stamp = st, sp_writable = wr\<rparr>) now
     \<lparr>ag_command = ''sync'', ag_repo = Some n, ag_paths = x, ag_path = Some p\<rparr> w
   = (Exit_code 0, Nothing_shown, if b then w\<lparr>sw_posts := sw_posts w @ [(n, p)]\<rparr> else w)"
  by (cases "post n p") (auto simp: sync_main_def commands_def given_def trigger_sync_workflow_def Let_def)

text \<open>The report has a section for each repository of the manifest, in its order.\<close>

definition headings :: "part list \<Rightarrow> string list" where
  "headings ps = concat (map (\<lambda>p. case p of Plain t \<Rightarrow> if take 4 t = ''### '' then [drop 4 t] else [] | Sign s \<Rightarrow> []) ps)"

lemma headings_append [simp]: "headings [] = []" "headings (a @ b) = headings a @ headings b"
  by (simp_all add: headings_def)

lemma headings_repo: "headings (repo_parts i r) = [de_name r]"
proof -
  have "headings (concat (map path_parts ps)) = []" for ps
    by (induction ps) (simp_all add: path_parts_def headings_def line_end_def)
  then show ?thesis by (auto simp: repo_parts_def headings_def line_end_def flag_parts_def split: option.split)
qed

lemma report_lists_all: "headings (generate_sync_report i st f) = map de_name (repos_of f)"
proof -
  have "headings (concat (map (repo_parts i) rs)) = map de_name rs" for rs by (induction rs) (simp_all add: headings_repo)
  then show ?thesis by (simp add: generate_sync_report_def Let_def) (simp add: headings_def line_end_def)
qed

end
