(* ===== verification/GapAudit.thy ===== *)
theory GapAudit
  imports Effects PyJson
begin

text \<open>
  The architecture auditor, \<open>scripts/architecture_audit.py\<close>: it looks for the blueprint's files and directories and opens an
  issue for each gap that has none. The file system and the GitHub client are parameters. \<open>ap_open\<close> gives the titles of the open
  maintenance issues that the iteration delivers before it ends or raises: after an exception the code answers as for the end.
\<close>

record 'w audit_ports =
  ap_is_file :: "string \<Rightarrow> bool"
  ap_names :: "string \<Rightarrow> string list option"
  ap_repo :: "string \<Rightarrow> ('w, string, unit) eff"
  ap_open :: "string \<Rightarrow> ('w, string, string list) eff"
  ap_get_label :: "string \<Rightarrow> ('w, string, unit) eff"
  ap_create_label :: "string \<Rightarrow> ('w, string, unit) eff"
  ap_create_issue :: "string \<Rightarrow> string \<Rightarrow> string \<Rightarrow> ('w, string, int) eff"

definition critical_files :: "string list" where
  "critical_files =
     [''CLAUDE.md'', ''.github/CODEOWNERS'', ''.github/pull_request_template.md'', ''.github/workflows/aidd-tier-guardrails.yml'',
      ''docs/AIDD_APPROVAL_TIERS.md'', ''.coderabbit.yaml'']"

definition critical_dirs :: "string list" where
  "critical_dirs = [''docs/technical/'', ''infrastructure/'']"

text \<open>\<open>ap_is_file\<close> is \<open>exists() and is_file()\<close>, \<open>ap_names\<close> the names in a directory, \<open>None\<close> when it is none.\<close>

definition check_dir_empty :: "'w audit_ports \<Rightarrow> string \<Rightarrow> bool" where
  "check_dir_empty P d = (case ap_names P d of None \<Rightarrow> True | Some names \<Rightarrow> filter (\<lambda>n. n \<noteq> ''.gitkeep'') names = [])"

definition missing_files :: "'w audit_ports \<Rightarrow> string list" where
  "missing_files P = filter (\<lambda>f. \<not> ap_is_file P f) critical_files"

definition empty_dirs :: "'w audit_ports \<Rightarrow> string list" where
  "empty_dirs P = filter (check_dir_empty P) critical_dirs"

definition gap_title :: "string \<Rightarrow> string" where
  "gap_title name = ''Critical Gap: Missing '' @ name"

definition gap_body :: "string \<Rightarrow> string" where
  "gap_body name =
     ''The Autonomous Auditor detected that '' @ [CHR 0x60] @ name @ [CHR 0x60]
     @ '' is missing. This violates the BillyRonks Blueprint. Please restore it.'' @ [CHR 0x0A, CHR 0x0A]
     @ ''---'' @ [CHR 0x0A] @ ''*Auto-generated by Architecture Audit System*''"

definition search_existing_issue :: "'w audit_ports \<Rightarrow> string \<Rightarrow> string \<Rightarrow> ('w, string, bool) eff" where
  "search_existing_issue P repo name =
     eff_catch (eff_then (ap_repo P repo) (eff_bind (ap_open P repo) (\<lambda>ts. eff_return (list_ex (substring (gap_title name)) ts))))
       (\<lambda>_. eff_return False)"

definition create_gap_issue :: "'w audit_ports \<Rightarrow> string \<Rightarrow> string \<Rightarrow> ('w, string, int option) eff" where
  "create_gap_issue P repo name =
     eff_catch
       (eff_then (ap_repo P repo)
         (eff_then (eff_catch (ap_get_label P repo) (\<lambda>_. ap_create_label P repo))
           (eff_bind (ap_create_issue P repo (gap_title name) (gap_body name)) (\<lambda>i. eff_return (Some i)))))
       (\<lambda>_. eff_return None)"

record audit_counts =
  ac_created :: nat
  ac_existing :: nat

definition process_gap :: "'w audit_ports \<Rightarrow> string \<Rightarrow> string \<Rightarrow> audit_counts \<Rightarrow> ('w, string, audit_counts) eff" where
  "process_gap P repo name c =
     eff_bind (search_existing_issue P repo name) (\<lambda>found.
       if found then eff_return (c\<lparr>ac_existing := ac_existing c + 1\<rparr>)
       else eff_bind (create_gap_issue P repo name) (\<lambda>i.
              eff_return (case i of Some _ \<Rightarrow> c\<lparr>ac_created := ac_created c + 1\<rparr> | None \<Rightarrow> c)))"

fun process_gaps :: "'w audit_ports \<Rightarrow> string \<Rightarrow> string list \<Rightarrow> audit_counts \<Rightarrow> ('w, string, audit_counts) eff" where
  "process_gaps P repo [] c = eff_return c"
| "process_gaps P repo (n # ns) c = eff_bind (process_gap P repo n c) (process_gaps P repo ns)"

definition default_repo :: string where
  "default_repo = ''billyronks/billyronks-production-01''"

text \<open>The two settings come from the environment. The exit code and the counts of the printed summary are returned.\<close>

definition audit_main :: "'w audit_ports \<Rightarrow> string option \<Rightarrow> string option \<Rightarrow> ('w, string, int \<times> audit_counts) eff" where
  "audit_main P token github_repo =
     (let zero = \<lparr>ac_created = 0, ac_existing = 0\<rparr>;
          repo = (if truthy github_repo then the github_repo else default_repo);
          gaps = missing_files P @ empty_dirs P in
      if \<not> truthy token then eff_return (1, zero)
      else eff_bind (process_gaps P repo gaps zero) (\<lambda>c. eff_return (if gaps \<noteq> [] then 1 else 0, c)))"


section \<open>Gaps and their titles\<close>

definition gaps_of :: "'w audit_ports \<Rightarrow> string list" where
  "gaps_of P = missing_files P @ empty_dirs P"

text \<open>No title of a gap contains the title of another, so an issue belongs to one gap.\<close>

definition apart :: "string list \<Rightarrow> bool" where
  "apart ns \<longleftrightarrow> distinct ns \<and> (\<forall>g\<in>set ns. \<forall>h\<in>set ns. substring (gap_title g) (gap_title h) \<longrightarrow> g = h)"

lemma critical_apart: "apart (critical_files @ critical_dirs)"
  unfolding apart_def by code_simp

lemma apart_subset: "apart ns \<Longrightarrow> distinct ms \<Longrightarrow> set ms \<subseteq> set ns \<Longrightarrow> apart ms"
  unfolding apart_def by blast

lemma apart_gaps: "apart (gaps_of P)"
proof (rule apart_subset [OF critical_apart])
  have "distinct (critical_files @ critical_dirs)" using critical_apart by (simp add: apart_def)
  then show "distinct (gaps_of P)" by (auto simp: gaps_of_def missing_files_def empty_dirs_def)
qed (auto simp: gaps_of_def missing_files_def empty_dirs_def)

definition has_issue :: "string list \<Rightarrow> string \<Rightarrow> bool" where
  "has_issue titles name \<longleftrightarrow> list_ex (substring (gap_title name)) titles"

lemma substring_refl [simp]: "substring s s"
  unfolding substring_iff by (metis append.left_neutral append.right_neutral)

lemma has_issue_made:
  "apart (g # ns) \<Longrightarrow> h \<in> set ns \<Longrightarrow> has_issue (ts @ [gap_title g]) h = has_issue ts h"
  by (auto simp: has_issue_def apart_def)


section \<open>A tracker that answers\<close>

text \<open>What GitHub documents, for \<open>T\<close> the open maintenance issues: reading succeeds and changes nothing, a new issue carries its
  title and label, and an issue that could not be created was not.\<close>

definition tracks :: "'w audit_ports \<Rightarrow> string \<Rightarrow> ('w \<Rightarrow> string list) \<Rightarrow> bool" where
  "tracks P repo T \<longleftrightarrow>
     (\<forall>w. \<exists>w'. ap_repo P repo w = (Inr (), w') \<and> T w' = T w)
   \<and> (\<forall>w. \<exists>w'. ap_open P repo w = (Inr (T w), w') \<and> T w' = T w)
   \<and> (\<forall>w. T (snd (ap_get_label P repo w)) = T w) \<and> (\<forall>w. T (snd (ap_create_label P repo w)) = T w)
   \<and> (\<forall>w t b. T (snd (ap_create_issue P repo t b w)) =
        (case fst (ap_create_issue P repo t b w) of Inr _ \<Rightarrow> T w @ [t] | Inl _ \<Rightarrow> T w))"

lemma search_tracked:
  assumes "tracks P repo T"
  shows "\<exists>w'. search_existing_issue P repo n w = (Inr (has_issue (T w) n), w') \<and> T w' = T w"
proof -
  obtain w1 where "ap_repo P repo w = (Inr (), w1)" "T w1 = T w" using assms unfolding tracks_def by blast
  moreover obtain w2 where "ap_open P repo w1 = (Inr (T w1), w2)" "T w2 = T w1" using assms unfolding tracks_def by blast
  ultimately show ?thesis by (simp add: search_existing_issue_def has_issue_def eff_defs)
qed

lemma create_tracked:
  assumes "tracks P repo T"
  shows "(\<exists>i w'. create_gap_issue P repo n w = (Inr (Some i), w') \<and> T w' = T w @ [gap_title n])
    \<or> (\<exists>w'. create_gap_issue P repo n w = (Inr None, w') \<and> T w' = T w)"
proof -
  obtain w1 where w1: "ap_repo P repo w = (Inr (), w1)" "T w1 = T w" using assms unfolding tracks_def by blast
  obtain r w2 where w2: "eff_catch (ap_get_label P repo) (\<lambda>_. ap_create_label P repo) w1 = (r, w2)" by fastforce
  have label: "T (snd (ap_get_label P repo v)) = T v" "T (snd (ap_create_label P repo v)) = T v" for v
    using assms by (auto simp: tracks_def)
  have "T w2 = T w1"
    using w2 label [of w1] label(2) [of "snd (ap_get_label P repo w1)"]
    by (auto simp: eff_catch_def split: prod.splits sum.splits)
  moreover obtain q w3 where w3: "ap_create_issue P repo (gap_title n) (gap_body n) w2 = (q, w3)" by fastforce
  have "T w3 = (case q of Inr _ \<Rightarrow> T w2 @ [gap_title n] | Inl _ \<Rightarrow> T w2)"
    using assms w3 unfolding tracks_def by (metis fst_conv snd_conv)
  moreover have "create_gap_issue P repo n w =
      (case r of Inl _ \<Rightarrow> (Inr None, w2) | Inr _ \<Rightarrow> (case q of Inl _ \<Rightarrow> (Inr None, w3) | Inr i \<Rightarrow> (Inr (Some i), w3)))"
    unfolding create_gap_issue_def eff_catch_def [where m = "eff_then _ _"]
    by (simp add: eff_then_def eff_bind_def w1(1) w2 w3 eff_return_def split: sum.split)
  ultimately show ?thesis using w1(2) by (auto split: sum.split)
qed


text \<open>Going through the gaps opens an issue, with the gap's own title, for some of those that have none, and counts.\<close>

lemma process_gaps_tracked:
  assumes "tracks P repo T" and "apart ns"
  shows "\<exists>made w'. process_gaps P repo ns c w
      = (Inr \<lparr>ac_created = ac_created c + length made, ac_existing = ac_existing c + length (filter (has_issue (T w)) ns)\<rparr>, w')
    \<and> T w' = T w @ map gap_title made \<and> subseq made (filter (\<lambda>n. \<not> has_issue (T w) n) ns)"
  using assms(2)
proof (induction ns arbitrary: c w)
  case (Cons n ns)
  have apart: "apart ns" using Cons.prems by (auto simp: apart_def)
  obtain w1 where w1: "search_existing_issue P repo n w = (Inr (has_issue (T w) n), w1)" "T w1 = T w"
    using search_tracked [OF assms(1)] by blast
  show ?case
  proof (cases "has_issue (T w) n")
    case True
    with Cons.IH [OF apart, of "c\<lparr>ac_existing := ac_existing c + 1\<rparr>" w1] w1 show ?thesis
      by (force simp: process_gap_def eff_defs)
  next
    case False
    from create_tracked [OF assms(1), of n w1] show ?thesis
    proof (elim disjE exE conjE)
      fix i w2 assume "create_gap_issue P repo n w1 = (Inr (Some i), w2)" and T2: "T w2 = T w1 @ [gap_title n]"
      with w1 False have step: "process_gap P repo n c w = (Inr (c\<lparr>ac_created := ac_created c + 1\<rparr>), w2)"
        by (simp add: process_gap_def eff_defs)
      have same: "filter (has_issue (T w2)) ns = filter (has_issue (T w)) ns"
        "filter (\<lambda>h. \<not> has_issue (T w2) h) ns = filter (\<lambda>h. \<not> has_issue (T w) h) ns"
        using has_issue_made [OF Cons.prems] by (auto simp: T2 w1(2) intro!: filter_cong)
      obtain made w' where "process_gaps P repo ns (c\<lparr>ac_created := ac_created c + 1\<rparr>) w2
          = (Inr \<lparr>ac_created = ac_created c + 1 + length made, ac_existing = ac_existing c + length (filter (has_issue (T w)) ns)\<rparr>, w')"
        "T w' = T w2 @ map gap_title made" "subseq made (filter (\<lambda>h. \<not> has_issue (T w) h) ns)"
        using Cons.IH [OF apart, of "c\<lparr>ac_created := ac_created c + 1\<rparr>" w2] by (auto simp: same)
      with step False T2 w1(2) show ?thesis
        by (intro exI [of _ "n # made"] exI [of _ w']) (simp add: eff_bind_def)
    next
      fix w2 assume "create_gap_issue P repo n w1 = (Inr None, w2)" and T2: "T w2 = T w1"
      with w1 False have "process_gap P repo n c w = (Inr c, w2)" by (simp add: process_gap_def eff_defs)
      with Cons.IH [OF apart, of c w2] T2 w1(2) False show ?thesis by (fastforce simp: eff_bind_def)
    qed
  qed
qed (simp add: eff_return_def)

lemma audit_main_tracked:
  assumes "tracks P repo T" and "truthy token" and "truthy github_repo" "repo = the github_repo"
  shows "\<exists>made w'. audit_main P token github_repo w
      = (Inr (if gaps_of P \<noteq> [] then 1 else 0,
              \<lparr>ac_created = length made, ac_existing = length (filter (has_issue (T w)) (gaps_of P))\<rparr>), w')
    \<and> T w' = T w @ map gap_title made \<and> subseq made (filter (\<lambda>n. \<not> has_issue (T w) n) (gaps_of P))"
proof -
  have "audit_main P token github_repo
      = eff_bind (process_gaps P repo (gaps_of P) \<lparr>ac_created = 0, ac_existing = 0\<rparr>)
          (\<lambda>c. eff_return (if gaps_of P \<noteq> [] then 1 else 0, c))"
    using assms(2-4) by (simp add: audit_main_def gaps_of_def [symmetric] Let_def)
  then show ?thesis
    using process_gaps_tracked [OF assms(1) apart_gaps [of P], where c = "\<lparr>ac_created = 0, ac_existing = 0\<rparr>" and w = w]
    by (auto simp: eff_bind_def eff_return_def)
qed

text \<open>C31: The audit can be repeated: on a tracker that answers, an audit opens issues only for gaps that have none and at most one
  for each, and counts them; if it opened all it had to, a second audit of the same repository opens nothing and finds an issue
  for every gap. The exit code tells whether there is a gap.\<close>

theorem audit_repeats_safely:
  assumes "tracks P repo T" and "truthy token" and "github_repo = Some repo" "repo \<noteq> []"
    and "audit_main P token github_repo w = (r, w1)" and "T w2 = T w1" and "audit_main P token github_repo w2 = (r', w3)"
  shows "\<exists>made c c'. r = Inr (if gaps_of P = [] then 0 else 1, c) \<and> T w1 = T w @ map gap_title made
    \<and> distinct made \<and> (\<forall>g\<in>set made. g \<in> set (gaps_of P) \<and> \<not> has_issue (T w) g) \<and> ac_created c = length made
    \<and> r' = Inr (if gaps_of P = [] then 0 else 1, c')
    \<and> (ac_created c + ac_existing c = length (gaps_of P) \<longrightarrow>
         T w3 = T w1 \<and> ac_created c' = 0 \<and> ac_existing c' = length (gaps_of P))"
proof -
  have repo: "truthy github_repo" "repo = the github_repo" using assms(3,4) by (simp_all add: truthy_def)
  let ?open = "\<lambda>w n. has_issue (T w) n"
  obtain made where made: "r = Inr (if gaps_of P \<noteq> [] then 1 else 0, \<lparr>ac_created = length made, ac_existing = length (filter (?open w) (gaps_of P))\<rparr>)"
    "T w1 = T w @ map gap_title made" "subseq made (filter (\<lambda>n. \<not> ?open w n) (gaps_of P))"
    using audit_main_tracked [OF assms(1,2) repo, of w] assms(5) by auto
  obtain made' where made': "r' = Inr (if gaps_of P \<noteq> [] then 1 else 0, \<lparr>ac_created = length made', ac_existing = length (filter (?open w2) (gaps_of P))\<rparr>)"
    "T w3 = T w2 @ map gap_title made'" "subseq made' (filter (\<lambda>n. \<not> ?open w2 n) (gaps_of P))"
    using audit_main_tracked [OF assms(1,2) repo, of w2] assms(7) by auto
  have dist: "distinct made" using made(3) apart_gaps [of P] by (auto simp: apart_def subseq_conv_nths intro!: distinct_nthsI distinct_filter)
  have in_gaps: "\<forall>g\<in>set made. g \<in> set (gaps_of P) \<and> \<not> ?open w g"
    using made(3) by (auto simp: subseq_conv_nths dest!: in_set_nthsD)
  have settled: "filter (\<lambda>n. \<not> ?open w2 n) (gaps_of P) = []"
    if "length made + length (filter (?open w) (gaps_of P)) = length (gaps_of P)"
  proof -
    have "length made = length (filter (\<lambda>n. \<not> ?open w n) (gaps_of P))"
      using that sum_length_filter_compl [of "?open w" "gaps_of P"] by linarith
    then have "made = filter (\<lambda>n. \<not> ?open w n) (gaps_of P)" using made(3) subseq_same_length by blast
    then have made_all: "g \<in> set made" if "g \<in> set (gaps_of P)" "\<not> ?open w g" for g using that by simp
    have "?open w2 g" if "g \<in> set (gaps_of P)" for g
      using made_all [OF that] assms(6) made(2)
      by (cases "?open w g") (auto simp: has_issue_def list_ex_iff bex_Un intro: bexI [of _ g])
    then show ?thesis by (simp add: filter_empty_conv)
  qed
  have found: "filter (?open w2) (gaps_of P) = gaps_of P" if "filter (\<lambda>n. \<not> ?open w2 n) (gaps_of P) = []"
    using that by (simp add: filter_empty_conv)
  show ?thesis
    using made made' dist in_gaps settled found assms(6)
    by (intro exI [of _ made] exI [of _ "snd (projr r)"] exI [of _ "snd (projr r')"]) auto
qed

definition mem_audit :: "(string list) audit_ports" where
  "mem_audit =
     \<lparr>ap_is_file = (\<lambda>f. f \<noteq> ''CLAUDE.md''), ap_names = (\<lambda>_. Some [''a'']), ap_repo = (\<lambda>_ w. (Inr (), w)),
      ap_open = (\<lambda>_ w. (Inr w, w)), ap_get_label = (\<lambda>_ w. (Inl ''404'', w)), ap_create_label = (\<lambda>_ w. (Inr (), w)),
      ap_create_issue = (\<lambda>_ t _ w. (Inr 1, w @ [t]))\<rparr>"

theorem audit_repeats_safely_witness:
  "\<exists>c'. audit_main mem_audit (Some ''t'') (Some ''r'') [gap_title ''CLAUDE.md''] = (Inr (1, c'), [gap_title ''CLAUDE.md'']) \<and> ac_created c' = 0"
proof -
  have tracks: "tracks mem_audit ''r'' (\<lambda>w. w)" by (simp add: tracks_def mem_audit_def)
  have gaps: "gaps_of mem_audit = [''CLAUDE.md'']" by code_simp
  have one: "audit_main mem_audit (Some ''t'') (Some ''r'') [] = (Inr (1, \<lparr>ac_created = 1, ac_existing = 0\<rparr>), [gap_title ''CLAUDE.md''])"
    by code_simp
  obtain r' w3 where two: "audit_main mem_audit (Some ''t'') (Some ''r'') [gap_title ''CLAUDE.md''] = (r', w3)" by fastforce
  show ?thesis
    using audit_repeats_safely [OF tracks _ _ _ one _ two] two by (auto simp: truthy_def gaps)
qed

text \<open>A failing search is taken for no issue: then the audit opens a second one.\<close>

lemma failed_search_duplicates:
  assumes "ap_repo P repo w = (Inl e, w1)"
  shows "search_existing_issue P repo name w = (Inr False, w1)"
  using assms by (simp add: search_existing_issue_def eff_defs)

end
