(* ===== verification/PyObjects.thy ===== *)
theory PyObjects
  imports Effects PyJson
begin

text \<open>
  Computations on values that are not checked: items, assignments and iteration, with the exceptions they raise.
\<close>

text \<open>\<open>x[k]\<close>, \<open>x[k] = v\<close>, what an option stands for, and what \<open>for\<close> goes through.\<close>

definition item :: "py_val \<Rightarrow> string \<Rightarrow> ('w, string, py_val) eff" where
  "item x k =
     (case x of
        PDict kvs \<Rightarrow> (case map_of kvs k of Some v \<Rightarrow> eff_return v | None \<Rightarrow> eff_raise ''KeyError'')
      | _ \<Rightarrow> eff_raise ''TypeError'')"

definition set_key :: "string \<Rightarrow> py_val \<Rightarrow> py_val \<Rightarrow> ('w, string, py_val) eff" where
  "set_key k v a = (case a of PDict kvs \<Rightarrow> eff_return (PDict (dict_set k v kvs)) | _ \<Rightarrow> eff_raise ''TypeError'')"

definition or_raise :: "string \<Rightarrow> 'a option \<Rightarrow> ('w, string, 'a) eff" where
  "or_raise e x = (case x of Some v \<Rightarrow> eff_return v | None \<Rightarrow> eff_raise e)"

definition iterate :: "py_val \<Rightarrow> py_val list option" where
  "iterate v =
     (case v of
        PList vs \<Rightarrow> Some vs
      | PDict kvs \<Rightarrow> Some (map (\<lambda>kv. PStr (fst kv)) kvs)
      | PStr s \<Rightarrow> Some (map (\<lambda>c. PStr [c]) s)
      | _ \<Rightarrow> None)"


section \<open>Normal returns and kept predicates\<close>

lemma item_Inr: "item x k w = (Inr v, w') \<longleftrightarrow> (\<exists>kvs. x = PDict kvs \<and> map_of kvs k = Some v \<and> w' = w)"
  by (auto simp: item_def split: py_val.splits option.splits)

lemma or_raise_Inr: "or_raise e x w = (Inr v, w') \<longleftrightarrow> x = Some v \<and> w' = w"
  by (auto simp: or_raise_def split: option.splits)

lemma set_key_Inr:
  "set_key k v a w = (Inr b, w') \<longleftrightarrow> (\<exists>kvs. a = PDict kvs \<and> b = PDict (dict_set k v kvs) \<and> w' = w)"
  by (auto simp: set_key_def split: py_val.splits)

lemma keeps_item [preserved, intro]: "keeps Q (item x k)"
  by (auto simp: item_def split: py_val.split option.split)

lemma keeps_or_raise [preserved, intro]: "keeps Q (or_raise e x)"
  by (auto simp: or_raise_def split: option.split)

end
