(* ===== verification/Engines.thy ===== *)
theory Engines
  imports PyObjects "HOL-Library.Countable"
begin

text \<open>
  The two engines that run every day, \<open>scripts/autonomous_growth.py\<close> (it creates repositories and registers them) and
  \<open>scripts/autonomous_janitor.py\<close> (it opens refactoring requests for the registered ones). They share the manifest
  \<open>.repo-index/manifest.yaml\<close> and the dashboard \<open>docs/GROWTH_DASHBOARD.md\<close>. Files, processes, the language model, the clock, JSON
  and YAML are parameters. An instant is a number of microseconds; a prompt is what its template is filled with.
\<close>

datatype engine_prompt =
  Janitor_prompt "string option" py_val int
| Growth_prompt string string string

text \<open>\<open>ep_run\<close> gets the directory and the arguments and answers return code and output.\<close>

record 'w engine_ports =
  ep_base :: string
  ep_owner :: string
  ep_exists :: "string \<Rightarrow> ('w, string, bool) eff"
  ep_read :: "string \<Rightarrow> ('w, string, string) eff"
  ep_write :: "string \<Rightarrow> string \<Rightarrow> ('w, string, unit) eff"
  ep_mkdir :: "string \<Rightarrow> ('w, string, unit) eff"
  ep_run :: "string \<Rightarrow> string list \<Rightarrow> ('w, string, int \<times> string) eff"
  ep_ask :: "engine_prompt \<Rightarrow> ('w, string, string) eff"
  ep_now :: "('w, string, int) eff"
  ep_yaml :: "string \<Rightarrow> py_val option"
  ep_dump :: "py_val \<Rightarrow> string"
  ep_loads :: "string \<Rightarrow> py_val option"
  ep_str :: "py_val \<Rightarrow> string"
  ep_iso :: "int \<Rightarrow> string"
  ep_from_iso :: "string \<Rightarrow> int option"
  ep_stamp :: "int \<Rightarrow> string"
  ep_date :: "int \<Rightarrow> string"
  ep_datetime :: "int \<Rightarrow> string"

definition nl :: string where
  "nl = [CHR 0x0A]"

definition shown_val :: "'w engine_ports \<Rightarrow> py_val \<Rightarrow> string" where
  "shown_val P v = (case v of PStr s \<Rightarrow> s | _ \<Rightarrow> ep_str P v)"

definition getv :: "py_val \<Rightarrow> string \<Rightarrow> py_val \<Rightarrow> ('w, string, py_val) eff" where
  "getv x k d = or_raise ''AttributeError'' (json_get x k d)"

definition in_base :: "'w engine_ports \<Rightarrow> string \<Rightarrow> string" where
  "in_base P p = ep_base P @ ''/'' @ p"

definition manifest_file :: "'w engine_ports \<Rightarrow> string" where
  "manifest_file P = in_base P ''.repo-index/manifest.yaml''"

definition dashboard_file :: "'w engine_ports \<Rightarrow> string" where
  "dashboard_file P = in_base P ''docs/GROWTH_DASHBOARD.md''"

text \<open>\<open>subprocess.run(..., check=True)\<close>.\<close>

definition checked :: "'w engine_ports \<Rightarrow> string \<Rightarrow> string list \<Rightarrow> ('w, string, unit) eff" where
  "checked P dir args =
     eff_bind (ep_run P dir args) (\<lambda>(code, _). if code = 0 then eff_return () else eff_raise ''CalledProcessError'')"

definition or_empty :: "py_val \<Rightarrow> py_val" where
  "or_empty v = (if py_truth v then v else PDict [])"

definition load_yaml :: "'w engine_ports \<Rightarrow> string \<Rightarrow> ('w, string, py_val) eff" where
  "load_yaml P path = eff_bind (ep_read P path) (\<lambda>t. eff_bind (or_raise ''YAMLError'' (ep_yaml P t)) (\<lambda>v. eff_return (or_empty v)))"


section \<open>Text\<close>

definition fence :: string where
  "fence = [CHR 0x60, CHR 0x60, CHR 0x60]"

text \<open>What follows a mark up to the next fence; without one the index -1 cuts the last character.\<close>

definition fenced :: "string \<Rightarrow> string \<Rightarrow> string" where
  "fenced mark t =
     (let rest = drop (the (find_sub mark t) + length mark) t in
      py_strip (case find_sub fence rest of Some j \<Rightarrow> take j rest | None \<Rightarrow> butlast rest))"

definition unfence_json :: "string \<Rightarrow> string" where
  "unfence_json t = (if substring (fence @ ''json'') t then fenced (fence @ ''json'') t else t)"

definition unfence_any :: "string \<Rightarrow> string" where
  "unfence_any t =
     (if substring (fence @ ''json'') t then fenced (fence @ ''json'') t
      else if substring fence t then fenced fence t else t)"


section \<open>The janitor\<close>

definition day_length :: int where
  "day_length = 86400000000"

definition calculate_quality_score :: "'w engine_ports \<Rightarrow> py_val \<Rightarrow> ('w, string, int) eff" where
  "calculate_quality_score P repo =
     eff_bind (ep_now P) (\<lambda>n0.
     eff_bind (getv repo ''created'' (PStr (ep_iso P n0))) (\<lambda>created.
       case created of
         PStr s \<Rightarrow>
           eff_bind (or_raise ''ValueError'' (ep_from_iso P (py_replace ''Z'' ''+00:00'' s))) (\<lambda>c.
           eff_bind (ep_now P) (\<lambda>n1. eff_return (max 50 (100 - (n1 - c) div day_length * 2))))
       | _ \<Rightarrow> eff_raise ''AttributeError''))"

text \<open>A repository whose score cannot be computed is skipped, after its name was asked for.\<close>

definition scan_one :: "'w engine_ports \<Rightarrow> py_val \<Rightarrow> (py_val \<times> int) list \<Rightarrow> ('w, string, (py_val \<times> int) list) eff" where
  "scan_one P repo scored =
     eff_bind (eff_catch (eff_bind (calculate_quality_score P repo) (\<lambda>s. eff_return (Some s))) (\<lambda>_. eff_return None)) (\<lambda>r.
       case r of
         Some s \<Rightarrow> eff_return (scored @ [(repo, s)])
       | None \<Rightarrow> eff_bind (getv repo ''name'' (PStr ''unknown'')) (\<lambda>_. eff_return scored))"

definition scan_repositories :: "'w engine_ports \<Rightarrow> ('w, string, (py_val \<times> int) list) eff" where
  "scan_repositories P =
     eff_bind (ep_exists P (manifest_file P)) (\<lambda>e.
       if \<not> e then eff_return []
       else
         eff_bind (load_yaml P (manifest_file P)) (\<lambda>manifest.
         eff_bind (getv manifest ''components'' (PList [])) (\<lambda>repos.
         eff_bind (or_raise ''TypeError'' (iterate repos)) (\<lambda>rs.
         eff_bind (eff_fold (scan_one P) rs []) (\<lambda>scored. eff_return (sort_key snd scored))))))"

definition identify_refactoring_needs :: "'w engine_ports \<Rightarrow> py_val \<times> int \<Rightarrow> ('w, string, (py_val \<times> py_val) option) eff" where
  "identify_refactoring_needs P info =
     (let (repo, score) = info; config = in_base P ''config/janitor_compliance.txt'' in
      eff_then (item repo ''name'')
        (eff_bind (ep_exists P config) (\<lambda>e.
         eff_bind (if e then eff_bind (ep_read P config) (\<lambda>t. eff_return (Some t)) else eff_return None) (\<lambda>system.
           eff_catch
             (eff_bind (ep_ask P (Janitor_prompt system repo score)) (\<lambda>answer.
              eff_bind (or_raise ''JSONDecodeError'' (ep_loads P (unfence_json (py_strip answer)))) (\<lambda>plan.
              eff_then (eff_map (item plan) [''title'', ''refactor_type'', ''estimated_risk'', ''impact''])
                (eff_return (Some (repo, plan))))))
             (\<lambda>_. eff_return None)))))"

definition gh_clone :: "string \<Rightarrow> string \<Rightarrow> string list" where
  "gh_clone name dir = [''gh'', ''repo'', ''clone'', name, dir]"

text \<open>What the marker file holds; only this file is added to the clone.\<close>

definition marker_text :: "'w engine_ports \<Rightarrow> py_val list \<Rightarrow> py_val list \<Rightarrow> string \<Rightarrow> string" where
  "marker_text P parts affected date =
     (let pt = (\<lambda>i. shown_val P (parts ! i)) in
      ''# Refactoring Applied'' @ nl @ nl
      @ ''**Type:** '' @ pt 0 @ nl @ ''**Title:** '' @ pt 1 @ nl @ ''**Date:** '' @ date @ nl @ nl
      @ ''## Description'' @ nl @ pt 2 @ nl @ nl @ ''## Rationale'' @ nl @ pt 3 @ nl @ nl
      @ ''## Files Affected'' @ nl @ join_with nl (map (\<lambda>f. ''- '' @ shown_val P f) affected) @ nl @ nl
      @ ''## Risk Assessment'' @ nl @ ''- **Tier:** '' @ pt 4 @ nl @ ''- **Impact:** '' @ pt 5 @ nl @ nl
      @ ''---'' @ nl @ ''*Generated by Autonomous Janitor Engine*'' @ nl)"

definition request_body :: "'w engine_ports \<Rightarrow> py_val list \<Rightarrow> py_val list \<Rightarrow> string" where
  "request_body P parts affected =
     (let pt = (\<lambda>i. shown_val P (parts ! i)); tick = [CHR 0x60] in
      ''## Refactoring Summary'' @ nl @ nl
      @ ''**Type:** '' @ pt 0 @ nl @ ''**Impact:** '' @ pt 5 @ nl @ ''**Risk Tier:** '' @ pt 4 @ nl @ nl
      @ ''### Description'' @ nl @ pt 2 @ nl @ nl @ ''### Rationale'' @ nl @ pt 3 @ nl @ nl
      @ ''### Files Affected'' @ nl @ join_with nl (map (\<lambda>f. ''- '' @ tick @ shown_val P f @ tick) affected) @ nl @ nl
      @ ''### Action Required'' @ nl @ ''- [ ] Review changes'' @ nl @ ''- [ ] Verify tests pass'' @ nl
      @ ''- [ ] '' @ (if parts ! 4 = PStr ''tier_0'' then ''Merge (Tier 0 - Auto-merge eligible)'' else ''Request review (Tier 1)'') @ nl @ nl
      @ ''---'' @ nl
      @ ''Generated by [Autonomous Janitor Engine](https://github.com/abiolaogu/factory-template)'' @ nl)"

text \<open>The entries of the plan in the order in which the marker reads them, and the time it carries.\<close>

definition plan_parts :: "'w engine_ports \<Rightarrow> py_val \<Rightarrow> ('w, string, py_val list \<times> py_val list \<times> string) eff" where
  "plan_parts P plan =
     eff_bind (eff_map (item plan) [''refactor_type'', ''title'']) (\<lambda>p01.
     eff_bind (ep_now P) (\<lambda>t.
     eff_bind (eff_map (item plan) [''description'', ''rationale'']) (\<lambda>p23.
     eff_bind (item plan ''files_affected'') (\<lambda>fa.
     eff_bind (or_raise ''TypeError'' (iterate fa)) (\<lambda>affected.
     eff_bind (eff_map (item plan) [''estimated_risk'', ''impact'']) (\<lambda>p45.
       eff_return (p01 @ p23 @ p45, affected, ep_iso P t)))))))"

definition commit_message :: "'w engine_ports \<Rightarrow> py_val list \<Rightarrow> string" where
  "commit_message P parts =
     ''refactor: '' @ shown_val P (parts ! 1) @ nl @ nl @ shown_val P (parts ! 2) @ nl @ nl
     @ ''Generated by Autonomous Janitor Engine'' @ nl @ ''Tier: '' @ shown_val P (parts ! 4)"

text \<open>Commit, push and request; the clone is removed when the request was made.\<close>

definition publish_refactoring :: "'w engine_ports \<Rightarrow> string \<Rightarrow> string \<Rightarrow> py_val list \<Rightarrow> py_val list \<Rightarrow> ('w, string, string option) eff" where
  "publish_refactoring P clone_dir branch parts affected =
     eff_then (checked P clone_dir [''git'', ''add'', ''.''])
       (eff_then (checked P clone_dir [''git'', ''commit'', ''-m'', commit_message P parts])
         (eff_then (checked P clone_dir [''git'', ''push'', ''-u'', ''origin'', branch])
           (eff_bind (ep_run P clone_dir
               [''gh'', ''pr'', ''create'', ''--title'', ''refactor: '' @ shown_val P (parts ! 1), ''--body'', request_body P parts affected,
                ''--base'', ''main'', ''--head'', branch]) (\<lambda>(code, out).
              if code = 0 then eff_then (checked P ''.'' [''rm'', ''-rf'', clone_dir]) (eff_return (Some (py_strip out)))
              else eff_return None))))"

text \<open>An empty name, or a dot, is the directory of the clones itself.\<close>

definition clone_repository :: "'w engine_ports \<Rightarrow> string \<Rightarrow> ('w, string, string) eff" where
  "clone_repository P repo_name =
     (let temp = in_base P ''temp''; here = (repo_name = [] \<or> repo_name = ''.'');
          clone_dir = (if here then temp else temp @ ''/'' @ repo_name) in
      eff_then (ep_mkdir P (if here then ep_base P else temp))
        (eff_bind (ep_exists P clone_dir) (\<lambda>e.
           eff_then (if e then checked P ''.'' [''rm'', ''-rf'', clone_dir] else eff_return ())
             (eff_then (checked P ''.'' (gh_clone (ep_owner P @ ''/'' @ repo_name) clone_dir))
               (eff_return clone_dir)))))"

definition url_name :: "py_val \<Rightarrow> string option" where
  "url_name v = (case v of PStr u \<Rightarrow> Some (last (split_on (CHR ''/'') u)) | _ \<Rightarrow> None)"

definition apply_refactoring :: "'w engine_ports \<Rightarrow> py_val \<times> py_val \<Rightarrow> ('w, string, string option) eff" where
  "apply_refactoring P info =
     (let (repo, plan) = info in
      eff_then (item repo ''name'')
        (eff_bind (item repo ''url'') (\<lambda>url.
         eff_bind (or_raise ''AttributeError'' (url_name url)) (\<lambda>repo_name.
           eff_catch
             (eff_bind (clone_repository P repo_name) (\<lambda>clone_dir.
              eff_bind (ep_now P) (\<lambda>t.
                let branch = ''refactor/daily-cleanup-'' @ ep_stamp P t in
                eff_then (checked P clone_dir [''git'', ''checkout'', ''-b'', branch])
                  (eff_then (item plan ''description'')
                    (eff_bind (plan_parts P plan) (\<lambda>(parts, affected, date).
                       eff_then (ep_write P (clone_dir @ ''/REFACTOR_APPLIED.md'') (marker_text P parts affected date))
                         (publish_refactoring P clone_dir branch parts affected)))))))
             (\<lambda>_. eff_return None)))))"

record refactor_entry =
  re_repo :: py_val
  re_url :: string
  re_title :: py_val
  re_type :: py_val
  re_tier :: py_val
  re_timestamp :: string

text \<open>The loop over the chosen repositories, which stops when the target is reached.\<close>

definition refactor_one :: "'w engine_ports \<Rightarrow> nat \<Rightarrow> py_val \<times> int \<Rightarrow> refactor_entry list \<Rightarrow> ('w, string, refactor_entry list) eff" where
  "refactor_one P target info acc =
     (if target \<le> length acc then eff_return acc
      else eff_bind (identify_refactoring_needs P info) (\<lambda>r. case r of
             None \<Rightarrow> eff_return acc
           | Some (repo, plan) \<Rightarrow>
               eff_bind (item plan ''estimated_risk'') (\<lambda>risk.
                 if risk = PStr ''tier_2'' then eff_return acc
                 else eff_bind (apply_refactoring P (repo, plan)) (\<lambda>u. case u of
                        None \<Rightarrow> eff_return acc
                      | Some url \<Rightarrow>
                          if url = [] then eff_return acc
                          else
                            eff_bind (item repo ''name'') (\<lambda>name.
                            eff_bind (item plan ''title'') (\<lambda>title.
                            eff_bind (item plan ''refactor_type'') (\<lambda>ty.
                            eff_bind (ep_now P) (\<lambda>t.
                              eff_return (acc @ [\<lparr>re_repo = name, re_url = url, re_title = title, re_type = ty, re_tier = risk,
                                                  re_timestamp = ep_iso P t\<rparr>])))))))))"

definition run_janitor_loop :: "'w engine_ports \<Rightarrow> nat \<Rightarrow> ('w, string, refactor_entry list) eff" where
  "run_janitor_loop P target =
     eff_bind (scan_repositories P) (\<lambda>scored. eff_fold (refactor_one P target) (take (target * 2) scored) [])"


definition refactor_heading :: string where
  "refactor_heading = ''### Refactor Actions (Janitor Engine)'' @ nl @ nl"

text \<open>The numbered lines of a report.\<close>

definition numbered :: "'w engine_ports \<Rightarrow> ('a \<Rightarrow> string) \<Rightarrow> 'a list \<Rightarrow> string" where
  "numbered P f xs = concat (map2 (\<lambda>i x. ep_str P (PInt i) @ ''. **'' @ f x) [1..int (length xs)] xs)"

definition link :: "string \<Rightarrow> string" where
  "link u = ''['' @ u @ '']('' @ u @ '')''"

definition refactor_lines :: "'w engine_ports \<Rightarrow> refactor_entry list \<Rightarrow> string" where
  "refactor_lines P prs =
     (if prs = [] then ''*No refactoring actions today*'' @ nl @ nl
      else numbered P (\<lambda>r. shown_val P (re_title r) @ ''**'' @ nl @ ''   - PR: '' @ link (re_url r) @ nl
             @ ''   - Repository: '' @ shown_val P (re_repo r) @ nl @ ''   - Type: '' @ shown_val P (re_type r) @ nl @ nl) prs)"

text \<open>The text after the first heading is replaced up to the next heading, else to the next rule, else to the end.\<close>

definition replace_section :: "string \<Rightarrow> string \<Rightarrow> string option" where
  "replace_section new content =
     (case find_sub refactor_heading content of
        None \<Rightarrow> None
      | Some i \<Rightarrow>
          let start = i + length refactor_heading; rest = drop start content;
              next = (case find_sub ''###'' rest of Some j \<Rightarrow> Some j | None \<Rightarrow> find_sub ''---'' rest) in
          Some (take start content @ new @ (case next of Some j \<Rightarrow> drop j rest | None \<Rightarrow> [])))"

definition report_heading :: "string \<Rightarrow> string" where
  "report_heading date = ''## Growth Report: '' @ date"

definition janitor_update_dashboard :: "'w engine_ports \<Rightarrow> refactor_entry list \<Rightarrow> ('w, string, unit) eff" where
  "janitor_update_dashboard P prs =
     eff_then (ep_now P)
       (eff_bind (ep_now P) (\<lambda>t.
        eff_bind (ep_exists P (dashboard_file P)) (\<lambda>e.
          if \<not> e then eff_return ()
          else eff_bind (ep_read P (dashboard_file P)) (\<lambda>content.
            if \<not> substring (report_heading (ep_date P t)) content then eff_return ()
            else case replace_section (refactor_lines P prs) content of
                   None \<Rightarrow> eff_return ()
                 | Some c \<Rightarrow> ep_write P (dashboard_file P) c))))"

text \<open>The keys are the two the environment must hold; every exception ends with 1.\<close>

definition janitor_main :: "'w engine_ports \<Rightarrow> string option \<Rightarrow> string option \<Rightarrow> ('w, string, int) eff" where
  "janitor_main P api_key token =
     eff_catch
       (if \<not> truthy api_key \<or> \<not> truthy token then eff_raise ''ValueError''
        else
          eff_bind (ep_exists P (manifest_file P)) (\<lambda>e.
          eff_bind (if e then eff_bind (load_yaml P (manifest_file P)) (\<lambda>m. eff_bind (getv m ''components'' PNone) (\<lambda>c. eff_return (py_truth c)))
                    else eff_return True) (\<lambda>go.
            if \<not> go then eff_return 0
            else eff_bind (run_janitor_loop P 2) (\<lambda>prs. eff_then (janitor_update_dashboard P prs) (eff_return 0)))))
       (\<lambda>_. eff_return 1)"


section \<open>The growth engine\<close>

record product =
  pd_name :: py_val
  pd_description :: py_val
  pd_files :: py_val

definition tech_backend :: string where
  "tech_backend = ''defined_by_architect''"

definition read_research_insights :: "'w engine_ports \<Rightarrow> ('w, string, string) eff" where
  "read_research_insights P =
     (let f = in_base P ''docs/product/research/daily_briefing.md'' in
      eff_bind (ep_exists P f) (\<lambda>e. if e then ep_read P f else eff_return []))"

text \<open>Only the length of the list of components is used, for a message.\<close>

definition read_repo_index :: "'w engine_ports \<Rightarrow> ('w, string, py_val) eff" where
  "read_repo_index P =
     eff_bind (ep_exists P (manifest_file P)) (\<lambda>e.
       if \<not> e then eff_return (PDict [])
       else
         eff_bind (load_yaml P (manifest_file P)) (\<lambda>m.
         eff_bind (getv m ''components'' (PList [])) (\<lambda>c.
         eff_then (or_raise ''TypeError'' (iterate c)) (eff_return m))))"

definition generate_product_idea :: "'w engine_ports \<Rightarrow> string \<Rightarrow> ('w, string, product option) eff" where
  "generate_product_idea P briefing =
     (let config = in_base P ''config/system_architect.txt'' in
      eff_bind (ep_exists P config) (\<lambda>e.
        if \<not> e then eff_return None
        else
          eff_bind (ep_read P config) (\<lambda>system.
          eff_bind (ep_now P) (\<lambda>t.
            eff_catch
              (eff_bind (ep_ask P (Growth_prompt system (ep_iso P t) (take 500 briefing))) (\<lambda>answer.
               eff_bind (or_raise ''JSONDecodeError'' (ep_loads P (unfence_any (py_strip answer)))) (\<lambda>out.
               eff_bind (getv out ''repo_name'' (PStr ''Unnamed Product'')) (\<lambda>name.
               eff_bind (getv out ''description'' (PStr [])) (\<lambda>desc.
               eff_bind (getv out ''files'' (PList [])) (\<lambda>files.
                 eff_return (Some \<lparr>pd_name = name, pd_description = desc, pd_files = files\<rparr>)))))))
              (\<lambda>_. eff_return None)))))"

text \<open>\<open>next((f['content'] for f in files if ...), default)\<close>.\<close>

fun first_file :: "(py_val \<Rightarrow> bool option) \<Rightarrow> string \<Rightarrow> py_val list \<Rightarrow> ('w, string, py_val) eff" where
  "first_file test d [] = eff_return (PStr d)"
| "first_file test d (f # fs) =
     eff_bind (item f ''path'') (\<lambda>p.
     eff_bind (or_raise ''TypeError'' (test p)) (\<lambda>b. if b then item f ''content'' else first_file test d fs))"

record scaffolding =
  sc_readme :: py_val
  sc_prd :: py_val
  sc_architecture :: py_val
  sc_all :: "py_val list option"

definition generate_scaffolding :: "'w engine_ports \<Rightarrow> product \<Rightarrow> ('w, string, scaffolding) eff" where
  "generate_scaffolding P idea =
     (if py_truth (pd_files idea) then
        eff_bind (or_raise ''TypeError'' (iterate (pd_files idea))) (\<lambda>files.
        eff_bind (first_file (\<lambda>p. Some (p = PStr ''README.md'')) ''# Readme'' files) (\<lambda>readme.
        eff_bind (first_file (\<lambda>p. Option.bind (json_in ''PRD'' p) (\<lambda>b. if b then Some True else json_in ''domain'' p)) ''# Logic'' files) (\<lambda>prd.
        eff_bind (first_file (json_in ''ARCHITECTURE'') ''# Architecture'' files) (\<lambda>architecture.
          eff_return \<lparr>sc_readme = readme, sc_prd = prd, sc_architecture = architecture, sc_all = Some files\<rparr>))))
      else
        eff_return \<lparr>sc_readme = PStr ''# Error'', sc_prd = PStr ''Error'', sc_architecture = PStr ''Error'', sc_all = None\<rparr>)"

definition to_repo_name :: "string \<Rightarrow> string" where
  "to_repo_name s = map (\<lambda>c. if c = CHR '' '' \<or> c = CHR ''_'' then CHR ''-'' else c) (py_lower s)"

text \<open>\<open>repo_dir / p\<close> and \<open>parent\<close>: an absolute \<open>p\<close> replaces the directory.\<close>

definition under :: "string \<Rightarrow> string \<Rightarrow> string" where
  "under dir p = (if p = [] then dir else if startswith ''/'' p then p else dir @ ''/'' @ p)"

definition parent_dir :: "string \<Rightarrow> string" where
  "parent_dir p = (case join_with ''/'' (butlast (split_on (CHR ''/'') p)) of [] \<Rightarrow> ''/'' | d \<Rightarrow> d)"

definition text_of :: "py_val \<Rightarrow> ('w, string, string) eff" where
  "text_of v = (case v of PStr s \<Rightarrow> eff_return s | _ \<Rightarrow> eff_raise ''TypeError'')"

definition write_file :: "'w engine_ports \<Rightarrow> string \<Rightarrow> py_val \<Rightarrow> ('w, string, unit) eff" where
  "write_file P dir obj =
     eff_bind (item obj ''path'') (\<lambda>p.
     eff_bind (text_of p) (\<lambda>path.
     eff_then (ep_mkdir P (parent_dir (under dir path)))
       (eff_bind (item obj ''content'') (\<lambda>c. eff_bind (text_of c) (\<lambda>t. ep_write P (under dir path) t)))))"

definition fill_repository :: "'w engine_ports \<Rightarrow> string \<Rightarrow> product \<Rightarrow> scaffolding \<Rightarrow> ('w, string, unit) eff" where
  "fill_repository P dir idea docs =
     eff_then
       (case sc_all docs of
          Some files \<Rightarrow> eff_for files (write_file P dir)
        | None \<Rightarrow>
            eff_for [(''README.md'', sc_readme docs), (''docs/PRD.md'', sc_prd docs), (''docs/ARCHITECTURE.md'', sc_architecture docs)]
              (\<lambda>(f, v). eff_bind (text_of v) (\<lambda>t. ep_write P (under dir f) t)))
       (eff_then (checked P dir [''git'', ''add'', ''.''])
         (eff_then (checked P dir [''git'', ''commit'', ''-m'', ''feat: initialize '' @ shown_val P (pd_name idea) @ '' via System Architect'' @ nl @ nl
              @ ''Compliant with Factory Constitution v2.0''])
           (checked P dir [''git'', ''push''])))"

definition create_repository :: "'w engine_ports \<Rightarrow> product \<Rightarrow> scaffolding \<Rightarrow> ('w, string, string option) eff" where
  "create_repository P idea docs =
     eff_bind (case pd_name idea of PStr s \<Rightarrow> eff_return (to_repo_name s) | _ \<Rightarrow> eff_raise ''AttributeError'') (\<lambda>repo_name.
       let full_name = ep_owner P @ ''/'' @ repo_name; repo_dir = in_base P repo_name in
       eff_catch
         (eff_bind (ep_run P ''.'' [''gh'', ''repo'', ''view'', full_name]) (\<lambda>(code, _).
            if code = 0 then eff_return None
            else
              eff_bind (ep_run P (ep_base P)
                [''gh'', ''repo'', ''create'', full_name, ''--template'', ''abiolaogu/factory-template'', ''--private'', ''--clone'']) (\<lambda>(code2, _).
                if code2 \<noteq> 0 then eff_return None
                else
                  eff_bind (ep_exists P repo_dir) (\<lambda>e.
                    eff_then (if e then fill_repository P repo_dir idea docs else eff_return ())
                      (eff_return (Some (''https://github.com/'' @ full_name)))))))
         (\<lambda>_. eff_return None))"

definition manifest_entry :: "'w engine_ports \<Rightarrow> product \<Rightarrow> string \<Rightarrow> int \<Rightarrow> py_val" where
  "manifest_entry P idea url t =
     PDict
      [(''name'', pd_name idea), (''url'', PStr url), (''description'', pd_description idea), (''created'', PStr (ep_iso P t)),
       (''reusable_components'', PList []), (''tech_stack'', PDict [(''backend'', PStr tech_backend)])]"

definition append_component :: "py_val \<Rightarrow> py_val \<Rightarrow> ('w, string, py_val) eff" where
  "append_component entry manifest =
     eff_bind (item manifest ''components'') (\<lambda>c. case c of
       PList vs \<Rightarrow> set_key ''components'' (PList (vs @ [entry])) manifest
     | _ \<Rightarrow> eff_raise ''AttributeError'')"

definition register_repository :: "'w engine_ports \<Rightarrow> product \<Rightarrow> string \<Rightarrow> ('w, string, unit) eff" where
  "register_repository P idea url =
     eff_catch
       (eff_bind (ep_exists P (manifest_file P)) (\<lambda>e.
        eff_bind (if e then load_yaml P (manifest_file P) else eff_return (PDict [(''components'', PList [])])) (\<lambda>manifest.
        eff_bind (ep_now P) (\<lambda>t.
        eff_bind (append_component (manifest_entry P idea url t) manifest) (\<lambda>m.
          eff_then (ep_mkdir P (in_base P ''.repo-index'')) (ep_write P (manifest_file P) (ep_dump P m)))))))
       (\<lambda>_. eff_return ())"

record created_repo =
  cr_product :: product
  cr_url :: string
  cr_timestamp :: string

definition create_product :: "'w engine_ports \<Rightarrow> string \<Rightarrow> ('w, string, created_repo option) eff" where
  "create_product P briefing =
     eff_bind (generate_product_idea P briefing) (\<lambda>idea. case idea of
       None \<Rightarrow> eff_return None
     | Some idea \<Rightarrow>
         eff_bind (generate_scaffolding P idea) (\<lambda>docs.
         eff_bind (create_repository P idea docs) (\<lambda>url. case url of
           None \<Rightarrow> eff_return None
         | Some url \<Rightarrow>
             eff_then (register_repository P idea url)
               (eff_bind (ep_now P) (\<lambda>t. eff_return (Some \<lparr>cr_product = idea, cr_url = url, cr_timestamp = ep_iso P t\<rparr>))))))"

text \<open>The argument counts the attempts that are left, at first three for each repository wanted.\<close>

fun creator_loop :: "'w engine_ports \<Rightarrow> string \<Rightarrow> nat \<Rightarrow> nat \<Rightarrow> created_repo list \<Rightarrow> ('w, string, created_repo list) eff" where
  "creator_loop P briefing target 0 created = eff_return created"
| "creator_loop P briefing target (Suc n) created =
     (if length created < target then
        eff_bind (create_product P briefing) (\<lambda>r.
          creator_loop P briefing target n (case r of None \<Rightarrow> created | Some c \<Rightarrow> created @ [c]))
      else eff_return created)"

definition run_creator_loop :: "'w engine_ports \<Rightarrow> nat \<Rightarrow> ('w, string, created_repo list) eff" where
  "run_creator_loop P target =
     eff_bind (read_research_insights P) (\<lambda>briefing.
       eff_then (read_repo_index P) (creator_loop P briefing target (target * 3) []))"

definition initial_dashboard :: string where
  "initial_dashboard =
     ''# Growth Dashboard'' @ nl @ nl
     @ ''This dashboard tracks the autonomous generation of new repositories and daily refactoring actions.'' @ nl @ nl
     @ ''## Overview'' @ nl @ nl @ ''The Growth Engine operates in two modes:'' @ nl @ nl
     @ ''1. **Creator Engine** (4 AM daily): Generates 4 new product repositories based on research insights'' @ nl
     @ ''2. **Janitor Engine** (6 AM daily): Performs daily refactoring on existing repositories'' @ nl @ nl"

text \<open>The entry of a day: what was created, the section of the janitor, the metrics.\<close>

definition report_front :: "'w engine_ports \<Rightarrow> string \<Rightarrow> string \<Rightarrow> created_repo list \<Rightarrow> string" where
  "report_front P date timestamp created =
     nl @ nl @ ''---'' @ nl @ nl @ report_heading date @ nl @ ''**Generated:** '' @ timestamp @ nl @ nl
     @ ''### Today'' @ [CHR 0x27] @ ''s Output (Creator Engine)'' @ nl @ nl
     @ (if created = [] then ''*No repositories created today*'' @ nl @ nl
        else numbered P (\<lambda>r. shown_val P (pd_name (cr_product r)) @ ''** - '' @ shown_val P (pd_description (cr_product r)) @ nl
               @ ''   - URL: '' @ link (cr_url r) @ nl @ ''   - Source: autonomous_system_architect'' @ nl
               @ ''   - Confidence: 95/100'' @ nl @ ''   - Tech Stack: backend: '' @ tech_backend @ nl @ nl) created)"

definition reuse_metrics :: "'w engine_ports \<Rightarrow> created_repo list \<Rightarrow> string" where
  "reuse_metrics P created =
     '' Reuse Metrics'' @ nl @ nl @ ''- **Components Reused:** 0'' @ nl
     @ ''- **Net New Repositories:** '' @ ep_str P (PInt (int (length created))) @ nl"

definition growth_entry :: "'w engine_ports \<Rightarrow> string \<Rightarrow> string \<Rightarrow> created_repo list \<Rightarrow> refactor_entry list \<Rightarrow> string" where
  "growth_entry P date timestamp created prs =
     report_front P date timestamp created @ refactor_heading @ refactor_lines P prs @ ''###'' @ reuse_metrics P created"

definition growth_update_dashboard :: "'w engine_ports \<Rightarrow> created_repo list \<Rightarrow> refactor_entry list \<Rightarrow> ('w, string, unit) eff" where
  "growth_update_dashboard P created prs =
     eff_bind (ep_now P) (\<lambda>t0.
     eff_bind (ep_now P) (\<lambda>t1.
       eff_catch
         (eff_bind (ep_exists P (dashboard_file P)) (\<lambda>e.
          eff_bind (if e then ep_read P (dashboard_file P) else eff_return initial_dashboard) (\<lambda>content.
            eff_then (ep_mkdir P (in_base P ''docs''))
              (ep_write P (dashboard_file P) (content @ growth_entry P (ep_date P t1) (ep_datetime P t0) created prs)))))
         (\<lambda>_. eff_return ())))"

definition growth_main :: "'w engine_ports \<Rightarrow> string option \<Rightarrow> string option \<Rightarrow> ('w, string, int) eff" where
  "growth_main P api_key token =
     eff_catch
       (if \<not> truthy api_key \<or> \<not> truthy token then eff_raise ''ValueError''
        else eff_bind (run_creator_loop P 4) (\<lambda>created. eff_then (growth_update_dashboard P created []) (eff_return 0)))
       (\<lambda>_. eff_return 1)"


section \<open>The dashboard\<close>

text \<open>The heading first appears after \<open>a\<close>.\<close>

definition opens_after :: "string \<Rightarrow> string \<Rightarrow> bool" where
  "opens_after p a \<longleftrightarrow> find_sub p (a @ p) = Some (length a)"

lemma replace_section_at:
  assumes "opens_after refactor_heading a" and "opens_after ''###'' old"
  shows "replace_section new (a @ refactor_heading @ old @ ''###'' @ later) = Some (a @ refactor_heading @ new @ ''###'' @ later)"
proof -
  have "find_sub refactor_heading (a @ refactor_heading @ old @ ''###'' @ later) = Some (length a)"
    using assms(1) find_sub_append [of refactor_heading "a @ refactor_heading"] by (simp add: opens_after_def)
  moreover have "find_sub ''###'' (old @ ''###'' @ later) = Some (length old)"
    using assms(2) find_sub_append [of "''###''" "old @ ''###''"] by (simp add: opens_after_def)
  ultimately show ?thesis by (simp add: replace_section_def Let_def)
qed

lemma no_actions_open: "opens_after ''###'' (refactor_lines P [])"
proof -
  have "opens_after ''###'' (''*No refactoring actions today*'' @ nl @ nl)" unfolding opens_after_def by code_simp
  then show ?thesis by (simp add: refactor_lines_def)
qed

lemma replace_oldest_report:
  assumes "opens_after refactor_heading (earlier @ report_front P date timestamp created)"
  shows "replace_section (refactor_lines P prs) (earlier @ growth_entry P date timestamp created [] @ later)
    = Some (earlier @ growth_entry P date timestamp created prs @ later)"
  using replace_section_at [OF assms no_actions_open, where later = "reuse_metrics P created @ later" and new = "refactor_lines P prs"]
  by (simp add: growth_entry_def)

text \<open>Files that keep what is written to them, \<open>F\<close> being their contents, and a clock that stays within one day and does not touch
  them.\<close>

definition file_store :: "'w engine_ports \<Rightarrow> ('w \<Rightarrow> string \<Rightarrow> string option) \<Rightarrow> bool" where
  "file_store P F \<longleftrightarrow>
     (\<forall>w p. \<exists>w'. ep_exists P p w = (Inr (F w p \<noteq> None), w') \<and> F w' = F w)
   \<and> (\<forall>w p t. F w p = Some t \<longrightarrow> (\<exists>w'. ep_read P p w = (Inr t, w') \<and> F w' = F w))
   \<and> (\<forall>w p t. \<exists>w'. ep_write P p t w = (Inr (), w') \<and> F w' = (F w)(p \<mapsto> t))
   \<and> (\<forall>w p. \<exists>w'. ep_mkdir P p w = (Inr (), w') \<and> F w' = F w)
   \<and> (\<forall>w. \<exists>t w'. ep_now P w = (Inr t, w') \<and> F w' = F w)"

lemma file_storeE:
  assumes "file_store P F"
  shows "\<exists>w'. ep_exists P p w = (Inr (F w p \<noteq> None), w') \<and> F w' = F w"
    and "F w p = Some t \<Longrightarrow> \<exists>w'. ep_read P p w = (Inr t, w') \<and> F w' = F w"
    and "\<exists>w'. ep_write P p t w = (Inr (), w') \<and> F w' = (F w)(p \<mapsto> t)"
    and "\<exists>w'. ep_mkdir P p w = (Inr (), w') \<and> F w' = F w"
    and "\<exists>i w'. ep_now P w = (Inr i, w') \<and> F w' = F w"
  using assms unfolding file_store_def by blast+

text \<open>An existing file is found and read.\<close>

lemma file_store_reads:
  assumes "file_store P F" and "F w p = Some t"
  shows "\<exists>w' w''. ep_exists P p w = (Inr True, w') \<and> ep_read P p w' = (Inr t, w'') \<and> F w'' = F w"
proof -
  obtain w1 where w1: "ep_exists P p w = (Inr True, w1)" "F w1 = F w" using file_storeE(1) [OF assms(1), of p w] assms(2) by auto
  then have "F w1 p = Some t" using assms(2) by simp
  then obtain w2 where "ep_read P p w1 = (Inr t, w2)" "F w2 = F w1" using file_storeE(2) [OF assms(1)] by blast
  with w1 show ?thesis by auto
qed

lemma growth_update_writes:
  assumes "file_store P F" and "F w (dashboard_file P) = Some content"
  shows "\<exists>w' t0 t1. growth_update_dashboard P created prs w = (Inr (), w')
    \<and> F w' = (F w)(dashboard_file P \<mapsto> content @ growth_entry P (ep_date P t1) (ep_datetime P t0) created prs)"
proof -
  obtain t0 w1 where w1: "ep_now P w = (Inr t0, w1)" "F w1 = F w" using file_storeE(5) [OF assms(1)] by blast
  obtain t1 w2 where w2: "ep_now P w1 = (Inr t1, w2)" "F w2 = F w1" using file_storeE(5) [OF assms(1)] by blast
  have "F w2 (dashboard_file P) = Some content" using assms(2) w1 w2 by simp
  then obtain w3 w4 where w34: "ep_exists P (dashboard_file P) w2 = (Inr True, w3)" "ep_read P (dashboard_file P) w3 = (Inr content, w4)" "F w4 = F w2"
    using file_store_reads [OF assms(1)] by blast
  obtain w5 where w5: "ep_mkdir P (in_base P ''docs'') w4 = (Inr (), w5)" "F w5 = F w4" using file_storeE(4) [OF assms(1)] by blast
  obtain w6 where w6: "ep_write P (dashboard_file P) (content @ growth_entry P (ep_date P t1) (ep_datetime P t0) created prs) w5 = (Inr (), w6)"
    "F w6 = (F w5)(dashboard_file P \<mapsto> content @ growth_entry P (ep_date P t1) (ep_datetime P t0) created prs)"
    using file_storeE(3) [OF assms(1)] by blast
  have "growth_update_dashboard P created prs w = (Inr (), w6)"
    by (simp add: growth_update_dashboard_def eff_defs w1(1) w2(1) w34(1,2) w5(1) w6(1))
  with w1 w2 w34 w5 w6 show ?thesis by auto
qed

lemma janitor_update_writes:
  assumes "file_store P F" and "F w (dashboard_file P) = Some content"
    and "\<forall>t. substring (report_heading (ep_date P t)) content" and "replace_section (refactor_lines P prs) content = Some content'"
  shows "\<exists>w'. janitor_update_dashboard P prs w = (Inr (), w') \<and> F w' = (F w)(dashboard_file P \<mapsto> content')"
proof -
  obtain t0 w1 where w1: "ep_now P w = (Inr t0, w1)" "F w1 = F w" using file_storeE(5) [OF assms(1)] by blast
  obtain t1 w2 where w2: "ep_now P w1 = (Inr t1, w2)" "F w2 = F w1" using file_storeE(5) [OF assms(1)] by blast
  have "F w2 (dashboard_file P) = Some content" using assms(2) w1 w2 by simp
  then obtain w3 w4 where w34: "ep_exists P (dashboard_file P) w2 = (Inr True, w3)" "ep_read P (dashboard_file P) w3 = (Inr content, w4)" "F w4 = F w2"
    using file_store_reads [OF assms(1)] by blast
  obtain w5 where w5: "ep_write P (dashboard_file P) content' w4 = (Inr (), w5)" "F w5 = (F w4)(dashboard_file P \<mapsto> content')"
    using file_storeE(3) [OF assms(1)] by blast
  have "janitor_update_dashboard P prs w = (Inr (), w5)"
    by (simp add: janitor_update_dashboard_def eff_defs w1(1) w2(1) w34(1,2) w5(1) assms(3,4))
  with w1 w2 w34 w5 show ?thesis by auto
qed

text \<open>The two engines share the dashboard: on a day when the growth engine has appended its report and the janitor then updates
  the file, the requests of the janitor stand in the oldest report, which becomes what the growth engine would have written had
  it known them; on a dashboard without an earlier report this is today's, and otherwise today's report stays without them.\<close>

theorem janitor_completes_oldest_report:
  assumes "file_store P F" and "\<forall>t. ep_date P t = today" and "F w (dashboard_file P) = Some content"
    and "growth_update_dashboard P created [] w = (r, w1)" and "janitor_update_dashboard P prs w1 = (r', w2)"
  shows "\<exists>now \<in> range (ep_datetime P). F w1 (dashboard_file P) = Some (content @ growth_entry P today now created [])
    \<and> (opens_after refactor_heading (content @ report_front P today now created) \<longrightarrow>
         F w2 (dashboard_file P) = Some (content @ growth_entry P today now created prs))
    \<and> (\<forall>earlier later date timestamp old. content = earlier @ growth_entry P date timestamp old [] @ later
          \<and> opens_after refactor_heading (earlier @ report_front P date timestamp old) \<longrightarrow>
         F w2 (dashboard_file P)
           = Some (earlier @ growth_entry P date timestamp old prs @ later @ growth_entry P today now created []))"
proof -
  obtain now where now: "now \<in> range (ep_datetime P)" "F w1 (dashboard_file P) = Some (content @ growth_entry P today now created [])"
  proof -
    obtain t0 where "F w1 (dashboard_file P) = Some (content @ growth_entry P today (ep_datetime P t0) created [])"
      using growth_update_writes [OF assms(1,3), of created "[]"] assms(2,4) by auto
    then show thesis using that by blast
  qed
  obtain rest where "report_front P today now created = (nl @ nl @ ''---'' @ nl @ nl) @ report_heading today @ rest"
    by (simp add: report_front_def)
  then have "content @ growth_entry P today now created [] = (content @ nl @ nl @ ''---'' @ nl @ nl) @ report_heading today @ rest
      @ refactor_heading @ refactor_lines P [] @ ''###'' @ reuse_metrics P created"
    by (simp add: growth_entry_def)
  then have "substring (report_heading today) (content @ growth_entry P today now created [])" unfolding substring_iff by blast
  then have today: "\<forall>t. substring (report_heading (ep_date P t)) (content @ growth_entry P today now created [])"
    using assms(2) by simp
  have replaced: "F w2 (dashboard_file P) = Some c"
    if "replace_section (refactor_lines P prs) (content @ growth_entry P today now created []) = Some c" for c
    using janitor_update_writes [OF assms(1) now(2) today that] assms(5) by auto
  have first: "F w2 (dashboard_file P) = Some (content @ growth_entry P today now created prs)"
    if "opens_after refactor_heading (content @ report_front P today now created)"
    using replaced replace_oldest_report [OF that, where later = "[]"] by simp
  have older: "F w2 (dashboard_file P)
      = Some (earlier @ growth_entry P date timestamp old prs @ later @ growth_entry P today now created [])"
    if "content = earlier @ growth_entry P date timestamp old [] @ later"
      "opens_after refactor_heading (earlier @ report_front P date timestamp old)" for earlier later date timestamp old
    using replaced replace_oldest_report [OF that(2), where later = "later @ growth_entry P today now created []"]
    by (simp add: that(1))
  show ?thesis using now first older by blast
qed

text \<open>Files as a function, a clock that stands still and a day that is always the same.\<close>

definition mem_engine :: "(string \<Rightarrow> string option) engine_ports" where
  "mem_engine =
     \<lparr>ep_base = ''/f'', ep_owner = ''o'', ep_exists = (\<lambda>p w. (Inr (w p \<noteq> None), w)),
      ep_read = (\<lambda>p w. (case w p of Some t \<Rightarrow> Inr t | None \<Rightarrow> Inl ''FileNotFoundError'', w)),
      ep_write = (\<lambda>p t w. (Inr (), w(p \<mapsto> t))), ep_mkdir = (\<lambda>_ w. (Inr (), w)), ep_run = (\<lambda>_ _ w. (Inr (0, []), w)),
      ep_ask = (\<lambda>_ w. (Inl ''timeout'', w)), ep_now = (\<lambda>w. (Inr 0, w)),
      ep_yaml = (\<lambda>_. Some (PDict [(''components'', PList [])])), ep_dump = (\<lambda>_. []), ep_loads = (\<lambda>_. None),
      ep_str = (\<lambda>_. ''1''), ep_iso = (\<lambda>_. []), ep_from_iso = (\<lambda>_. Some 0), ep_stamp = (\<lambda>_. []), ep_date = (\<lambda>_. ''2026-02-05''),
      ep_datetime = (\<lambda>_. ''2026-02-05 04:00:00'')\<rparr>"

theorem janitor_completes_oldest_report_witness:
  "\<exists>r w1 r' w2 now. growth_update_dashboard mem_engine [] [] [dashboard_file mem_engine \<mapsto> initial_dashboard] = (r, w1)
    \<and> janitor_update_dashboard mem_engine [] w1 = (r', w2)
    \<and> w2 (dashboard_file mem_engine) = Some (initial_dashboard @ growth_entry mem_engine ''2026-02-05'' now [] [])"
proof -
  have store: "file_store mem_engine (\<lambda>w. w)" by (auto simp: file_store_def mem_engine_def)
  have day: "\<forall>t. ep_date mem_engine t = ''2026-02-05''" by (simp add: mem_engine_def)
  let ?w = "[dashboard_file mem_engine \<mapsto> initial_dashboard]"
  obtain r w1 where w1: "growth_update_dashboard mem_engine [] [] ?w = (r, w1)" by fastforce
  obtain r' w2 where w2: "janitor_update_dashboard mem_engine [] w1 = (r', w2)" by fastforce
  have "opens_after refactor_heading (initial_dashboard @ report_front mem_engine ''2026-02-05'' ''2026-02-05 04:00:00'' [])"
    unfolding opens_after_def by code_simp
  moreover have "range (ep_datetime mem_engine) = {''2026-02-05 04:00:00''}" by (simp add: mem_engine_def)
  moreover have "?w (dashboard_file mem_engine) = Some initial_dashboard" by simp
  from janitor_completes_oldest_report [OF store day this w1 w2]
  obtain now where "now \<in> range (ep_datetime mem_engine)"
    "opens_after refactor_heading (initial_dashboard @ report_front mem_engine ''2026-02-05'' now []) \<longrightarrow>
       w2 (dashboard_file mem_engine) = Some (initial_dashboard @ growth_entry mem_engine ''2026-02-05'' now [] [])"
    by blast
  ultimately have "w2 (dashboard_file mem_engine) = Some (initial_dashboard @ growth_entry mem_engine ''2026-02-05'' now [] [])"
    by (metis singletonD)
  with w1 w2 show ?thesis by blast
qed


section \<open>The loops\<close>

lemma refactor_one_bound:
  assumes "refactor_one P n info acc s = (Inr acc', s')" and "length acc \<le> n \<and> (\<forall>r\<in>set acc. re_tier r \<noteq> PStr ''tier_2'')"
  shows "length acc' \<le> n \<and> (\<forall>r\<in>set acc'. re_tier r \<noteq> PStr ''tier_2'')"
  using assms
  by (fastforce simp: refactor_one_def eff_bind_Inr_iff split: if_splits option.splits prod.splits)

text \<open>A run of the janitor's loop that returns has made at most as many requests as were wanted, none of them for a plan of tier
  2.\<close>

theorem janitor_spares_risky:
  assumes "run_janitor_loop P n w = (Inr rs, w')"
  shows "length rs \<le> n \<and> (\<forall>r\<in>set rs. re_tier r \<noteq> PStr ''tier_2'')"
proof -
  obtain scored s where "eff_fold (refactor_one P n) (take (n * 2) scored) [] s = (Inr rs, w')"
    using assms by (auto simp: run_janitor_loop_def eff_bind_Inr_iff)
  then show ?thesis
    by (rule eff_fold_invariant [where I = "\<lambda>rs. length rs \<le> n \<and> (\<forall>r\<in>set rs. re_tier r \<noteq> PStr ''tier_2'')"])
      (use refactor_one_bound in \<open>simp_all\<close>)
qed

lemma creator_loop_bound:
  "creator_loop P briefing target n created s = (Inr cs, s') \<Longrightarrow> length created \<le> target \<Longrightarrow> length cs \<le> target"
  by (induction n arbitrary: created s) (fastforce simp: eff_bind_Inr_iff split: if_splits option.splits)+


section \<open>From the growth engine to the janitor\<close>

lemma scan_one_keeps: "scan_one P repo acc s = (Inr acc', s') \<Longrightarrow> set acc \<subseteq> set acc'"
  by (auto simp: scan_one_def eff_bind_Inr_iff split: option.splits)

lemma scan_one_scores:
  assumes "\<And>s. \<exists>v s'. calculate_quality_score P repo s = (Inr v, s')" and "scan_one P repo acc s = (Inr acc', s')"
  shows "\<exists>v. (repo, v) \<in> set acc'"
proof -
  obtain v s1 where "calculate_quality_score P repo s = (Inr v, s1)" using assms(1) by blast
  with assms(2) show ?thesis by (auto simp: scan_one_def eff_defs)
qed

lemma scan_fold_scores:
  assumes "\<And>s. \<exists>v s'. calculate_quality_score P repo s = (Inr v, s')" and "repo \<in> set rs"
    and "eff_fold (scan_one P) rs acc s = (Inr out, s')"
  shows "\<exists>v. (repo, v) \<in> set out"
  using assms(2,3)
proof (induction rs arbitrary: acc s)
  case (Cons r rs)
  from Cons.prems(2) obtain acc1 s1 where step: "scan_one P r acc s = (Inr acc1, s1)" "eff_fold (scan_one P) rs acc1 s1 = (Inr out, s')"
    by (auto simp: eff_bind_Inr_iff)
  show ?case
  proof (cases "r = repo")
    case True
    obtain v where "(repo, v) \<in> set acc1" using scan_one_scores [OF assms(1)] step(1) True by blast
    with step(2) have "(repo, v) \<in> set out"
      by (rule eff_fold_invariant [where I = "\<lambda>a. (repo, v) \<in> set a"]) (metis scan_one_keeps subsetD)
    then show ?thesis ..
  next
    case False
    with Cons.prems(1) step(2) Cons.IH show ?thesis by auto
  qed
qed simp

lemma entry_scored:
  assumes "file_store P F" and "ep_from_iso P (py_replace ''Z'' ''+00:00'' (ep_iso P t)) = Some t"
  shows "\<exists>v s'. calculate_quality_score P (manifest_entry P idea url t) s = (Inr v, s')"
proof -
  obtain t0 s1 where n0: "ep_now P s = (Inr t0, s1)" using file_storeE(5) [OF assms(1)] by blast
  obtain t1 s2 where n1: "ep_now P s1 = (Inr t1, s2)" using file_storeE(5) [OF assms(1)] by blast
  show ?thesis
    by (simp add: calculate_quality_score_def manifest_entry_def getv_def json_get_def or_raise_def eff_defs n0 n1 assms(2))
qed

text \<open>The components of the manifest, none when there is no file.\<close>

definition components_in :: "'w engine_ports \<Rightarrow> (string \<Rightarrow> string option) \<Rightarrow> py_val list \<Rightarrow> bool" where
  "components_in P files vs \<longleftrightarrow>
     (case files (manifest_file P) of
        None \<Rightarrow> vs = []
      | Some t \<Rightarrow> (\<exists>kvs. ep_yaml P t = Some (PDict kvs) \<and> map_of kvs ''components'' = Some (PList vs)))"

lemma append_component_list:
  "map_of kvs ''components'' = Some (PList vs) \<Longrightarrow>
     append_component entry (PDict kvs) s = (Inr (PDict (dict_set ''components'' (PList (vs @ [entry])) kvs)), s)"
  by (simp add: append_component_def item_def set_key_def eff_defs)

lemma load_manifest_value:
  assumes "file_store P F" and "components_in P (F w) vs" and "F w (manifest_file P) = Some t"
  shows "\<exists>kvs w'. load_yaml P (manifest_file P) w = (Inr (PDict kvs), w') \<and> F w' = F w \<and> map_of kvs ''components'' = Some (PList vs)"
proof -
  obtain kvs where kvs: "ep_yaml P t = Some (PDict kvs)" "map_of kvs ''components'' = Some (PList vs)"
    using assms(2,3) by (auto simp: components_in_def)
  obtain w1 where "ep_read P (manifest_file P) w = (Inr t, w1)" "F w1 = F w" using file_storeE(2) [OF assms(1,3)] by blast
  moreover have "kvs \<noteq> []" using kvs(2) by auto
  ultimately show ?thesis using kvs by (auto simp: load_yaml_def or_empty_def or_raise_def eff_defs)
qed

lemma register_appends:
  assumes "file_store P F" and "\<And>v. ep_yaml P (ep_dump P v) = Some v" and "components_in P (F w) vs"
  shows "\<exists>w' t. register_repository P idea url w = (Inr (), w') \<and> F w' (manifest_file P) \<noteq> None
    \<and> components_in P (F w') (vs @ [manifest_entry P idea url t])"
proof -
  obtain b w1 where w1: "ep_exists P (manifest_file P) w = (Inr b, w1)" "F w1 = F w" "b \<longleftrightarrow> F w (manifest_file P) \<noteq> None"
    using file_storeE(1) [OF assms(1)] by blast
  let ?source = "if b then load_yaml P (manifest_file P) else eff_return (PDict [(''components'', PList [])])"
  have "\<exists>kvs w2. ?source w1 = (Inr (PDict kvs), w2) \<and> map_of kvs ''components'' = Some (PList vs)"
  proof (cases "F w (manifest_file P)")
    case None
    with assms(3) w1(3) show ?thesis by (simp add: components_in_def)
  next
    case (Some t)
    then show ?thesis using load_manifest_value [OF assms(1), of w1 vs t] assms(3) w1(2,3) by auto
  qed
  then obtain kvs w2 where w2: "?source w1 = (Inr (PDict kvs), w2)" "map_of kvs ''components'' = Some (PList vs)" by blast
  obtain t w3 where w3: "ep_now P w2 = (Inr t, w3)" using file_storeE(5) [OF assms(1)] by blast
  let ?m = "PDict (dict_set ''components'' (PList (vs @ [manifest_entry P idea url t])) kvs)"
  obtain w4 where w4: "ep_mkdir P (in_base P ''.repo-index'') w3 = (Inr (), w4)" using file_storeE(4) [OF assms(1)] by blast
  obtain w5 where w5: "ep_write P (manifest_file P) (ep_dump P ?m) w4 = (Inr (), w5)" "F w5 = (F w4)(manifest_file P \<mapsto> ep_dump P ?m)"
    using file_storeE(3) [OF assms(1)] by blast
  have "register_repository P idea url w = (Inr (), w5)"
    by (simp add: register_repository_def eff_catch_def eff_bind_def eff_then_def w1(1) w2(1) w3 append_component_list [OF w2(2)] w4 w5(1))
  moreover have "components_in P (F w5) (vs @ [manifest_entry P idea url t])"
    using assms(2) by (simp add: components_in_def w5(2) dict_set_def update_conv')
  ultimately show ?thesis using w5(2) by auto
qed

text \<open>C32: A repository that the growth engine registers is one the janitor works on: when files keep what is written, YAML and time
  stamps are read back, and the manifest is missing or lists components, registering appends the entry to the components that
  are there, and a later scan that returns has a score for it.\<close>

theorem registered_is_scanned:
  assumes "file_store P F" and "\<forall>v. ep_yaml P (ep_dump P v) = Some v"
    and "\<forall>t. ep_from_iso P (py_replace ''Z'' ''+00:00'' (ep_iso P t)) = Some t"
    and "components_in P (F w) vs" and "register_repository P idea url w = (r, w1)"
    and "scan_repositories P w1 = (Inr scored, w2)"
  shows "\<exists>t v. components_in P (F w1) (vs @ [manifest_entry P idea url t]) \<and> (manifest_entry P idea url t, v) \<in> set scored"
proof -
  obtain t where t: "components_in P (F w1) (vs @ [manifest_entry P idea url t])" "F w1 (manifest_file P) \<noteq> None"
    using register_appends [OF assms(1) spec [OF assms(2)] assms(4), of idea url] assms(5) by auto
  let ?e = "manifest_entry P idea url t"
  obtain doc where doc: "F w1 (manifest_file P) = Some doc" using t(2) by blast
  obtain v1 where v1: "ep_exists P (manifest_file P) w1 = (Inr True, v1)" "F v1 = F w1" using file_storeE(1) [OF assms(1), of "manifest_file P" w1] doc by auto
  obtain kvs v2 where v2: "load_yaml P (manifest_file P) v1 = (Inr (PDict kvs), v2)" "map_of kvs ''components'' = Some (PList (vs @ [?e]))"
    using load_manifest_value [OF assms(1), of v1 "vs @ [?e]" doc] t(1) doc v1(2) by auto
  have "scan_repositories P w1 = eff_bind (eff_fold (scan_one P) (vs @ [?e]) []) (\<lambda>s. eff_return (sort_key snd s)) v2"
    by (simp add: scan_repositories_def eff_bind_def v1(1) v2(1) getv_def json_get_def v2(2) or_raise_def eff_return_def iterate_def)
  with assms(6) obtain out s where "eff_fold (scan_one P) (vs @ [?e]) [] s = (Inr out, w2)" "scored = sort_key snd out"
    by (auto simp: eff_bind_Inr_iff)
  then show ?thesis
    using scan_fold_scores [OF entry_scored [OF assms(1)], of t idea url "vs @ [?e]"] assms(3) t(1) by fastforce
qed


text \<open>For the witness: values and instants numbered, and written as that many letters.\<close>

instance py_val :: countable
  by countable_datatype

lemma replace_absent: "c \<notin> set s \<Longrightarrow> py_replace [c] new s = s"
  by (unfold py_replace_def, induction s) (auto simp: startswith_def)

definition coded_engine :: "(string \<Rightarrow> string option) engine_ports" where
  "coded_engine = mem_engine\<lparr>ep_yaml := \<lambda>s. Some (from_nat (length s)), ep_dump := \<lambda>v. replicate (to_nat v) CHR ''a'',
     ep_iso := \<lambda>t. replicate (to_nat t) CHR ''a'', ep_from_iso := \<lambda>s. Some (from_nat (length s))\<rparr>"

lemma coded_simps:
  "ep_exists coded_engine p w = (Inr (w p \<noteq> None), w)"
  "ep_read coded_engine p w = (case w p of Some t \<Rightarrow> Inr t | None \<Rightarrow> Inl ''FileNotFoundError'', w)"
  "ep_write coded_engine p t w = (Inr (), w(p \<mapsto> t))" "ep_mkdir coded_engine p w = (Inr (), w)" "ep_now coded_engine w = (Inr 0, w)"
  "ep_yaml coded_engine (ep_dump coded_engine v) = Some v"
  "ep_from_iso coded_engine (py_replace ''Z'' ''+00:00'' (ep_iso coded_engine i)) = Some i"
  by (simp_all add: coded_engine_def mem_engine_def replace_absent)

theorem registered_is_scanned_witness:
  "\<exists>r w1 scored w2 t v. register_repository coded_engine \<lparr>pd_name = PStr ''n'', pd_description = PStr [], pd_files = PNone\<rparr> ''u'' Map.empty = (r, w1)
    \<and> scan_repositories coded_engine w1 = (Inr scored, w2)
    \<and> (manifest_entry coded_engine \<lparr>pd_name = PStr ''n'', pd_description = PStr [], pd_files = PNone\<rparr> ''u'' t, v) \<in> set scored"
proof -
  let ?idea = "\<lparr>pd_name = PStr ''n'', pd_description = PStr [], pd_files = PNone\<rparr>"
  let ?e = "manifest_entry coded_engine ?idea ''u'' 0"
  let ?w = "[manifest_file coded_engine \<mapsto> ep_dump coded_engine (PDict [(''components'', PList [?e])])]"
  have store: "file_store coded_engine (\<lambda>w. w)" by (auto simp: file_store_def coded_simps)
  have dates: "\<forall>t. ep_from_iso coded_engine (py_replace ''Z'' ''+00:00'' (ep_iso coded_engine t)) = Some t"
    and yaml: "\<forall>v. ep_yaml coded_engine (ep_dump coded_engine v) = Some v" by (simp_all add: coded_simps)
  have reg: "register_repository coded_engine ?idea ''u'' Map.empty = (Inr (), ?w)"
    by (simp add: register_repository_def append_component_def item_def set_key_def eff_defs dict_set_def coded_simps)
  have seen: "ep_exists coded_engine (manifest_file coded_engine) ?w = (Inr True, ?w)"
    "load_yaml coded_engine (manifest_file coded_engine) ?w = (Inr (PDict [(''components'', PList [?e])]), ?w)"
    by (simp_all add: load_yaml_def eff_defs or_raise_def or_empty_def coded_simps)
  obtain v s' where "calculate_quality_score coded_engine ?e ?w = (Inr v, s')"
    using entry_scored [OF store spec [OF dates]] by blast
  then have scan: "scan_repositories coded_engine ?w = (Inr [(?e, v)], s')"
    by (simp add: scan_repositories_def eff_bind_def seen getv_def json_get_def or_raise_def eff_return_def iterate_def scan_one_def eff_catch_def)
  show ?thesis
    using registered_is_scanned [OF store yaml dates _ reg scan, of "[]"] reg scan
    by (auto simp: components_in_def)
qed

text \<open>A manifest without components, such as an empty file, is not extended: the repository exists and is not registered.\<close>

lemma unregistered_without_components:
  assumes "file_store P F" and "F w (manifest_file P) = Some t" and "ep_yaml P t = Some PNone"
  shows "\<exists>w'. register_repository P idea url w = (Inr (), w') \<and> F w' = F w"
proof -
  obtain w1 w2 where w: "ep_exists P (manifest_file P) w = (Inr True, w1)" "ep_read P (manifest_file P) w1 = (Inr t, w2)" "F w2 = F w"
    using file_store_reads [OF assms(1,2)] by blast
  obtain i w3 where w3: "ep_now P w2 = (Inr i, w3)" "F w3 = F w2" using file_storeE(5) [OF assms(1)] by blast
  show ?thesis
    by (simp add: register_repository_def load_yaml_def or_empty_def or_raise_def append_component_def item_def eff_catch_def eff_bind_def
        eff_return_def eff_raise_def w assms(3) w3)
qed

text \<open>A path that the language model gives may be absolute: the file is then written outside the new repository.\<close>

lemma absolute_path_escapes: "startswith ''/'' p \<Longrightarrow> under dir p = p"
  by (auto simp: under_def startswith_def)

end
