(* ===== verification/RepoAgents.thy ===== *)
theory RepoAgents
  imports PyObjects "HOL-Library.Char_ord" "HOL-Library.List_Lexorder"
begin

text \<open>
  The repository assessor and improver, \<open>scripts/agents/repo_assessor.py\<close> and \<open>scripts/agents/repo_improver.py\<close>: what they
  read, what they ask the language model, what they make of its answer, which issues they post and what they leave in
  \<open>.factory-assessment.json\<close>, which the second reads from the first. The file system, the language model, the GitHub API, the
  clock and the JSON module are parameters. A prompt is what its template is filled with. Characters outside Latin-1 (the signs
  that open some titles and lines) are left out.
\<close>

datatype fs_node = Fs_file string | Fs_dir string "fs_node list option"

text \<open>A line of the tree: how deep it is indented, whether it is a directory, its name.\<close>

type_synonym tree_line = "nat \<times> bool \<times> string"

datatype prompt =
  Prd_prompt string "tree_line list"
| Assess_prompt string "tree_line list" "(string, string) dict"
| Improve_prompt string

datatype post = New_issue string string "string list" | New_comment string

record 'w agent_ports =
  ag_exists :: "string \<Rightarrow> ('w, string, bool) eff"
  ag_is_file :: "string \<Rightarrow> ('w, string, bool) eff"
  ag_glob :: "string \<Rightarrow> ('w, string, string list) eff"
  ag_tree :: "('w, string, fs_node list option) eff"
  ag_read :: "string \<Rightarrow> ('w, string, string) eff"
  ag_write :: "string \<Rightarrow> string \<Rightarrow> ('w, string, unit) eff"
  ag_mkdir :: "string \<Rightarrow> ('w, string, unit) eff"
  ag_now :: "('w, string, string \<times> string) eff"
  ag_ask :: "prompt \<Rightarrow> nat \<Rightarrow> ('w, string, string) eff"
  ag_post :: "string \<Rightarrow> post \<Rightarrow> ('w, string, int \<times> py_val option) eff"
  ag_loads :: "string \<Rightarrow> py_val option"
  ag_dumps :: "py_val \<Rightarrow> string"
  ag_str :: "py_val \<Rightarrow> string"
  ag_token :: "string option"
  ag_repo :: "string option"

definition newline :: char where
  "newline = CHR 0x0A"

definition prd_path :: string where
  "prd_path = ''docs/PRD.md''"

definition changelog_path :: string where
  "changelog_path = ''docs/AI_CHANGELOG.md''"

definition assessment_path :: string where
  "assessment_path = ''.factory-assessment.json''"

text \<open>The text of a value in an f-string.\<close>

definition fmt :: "'w agent_ports \<Rightarrow> py_val \<Rightarrow> string" where
  "fmt P v = (case v of PStr s \<Rightarrow> s | _ \<Rightarrow> ag_str P v)"


section \<open>Reading the repository\<close>

definition ignore_dirs :: "string list" where
  "ignore_dirs =
     [''.git'', ''node_modules'', ''__pycache__'', ''.venv'', ''venv'', ''dist'', ''build'', ''.pytest_cache'', ''coverage'']"

definition node_name :: "fs_node \<Rightarrow> string" where
  "node_name n = (case n of Fs_file s \<Rightarrow> s | Fs_dir s _ \<Rightarrow> s)"

definition is_dir :: "fs_node \<Rightarrow> bool" where
  "is_dir n = (case n of Fs_file _ \<Rightarrow> False | Fs_dir _ _ \<Rightarrow> True)"

text \<open>Directories first, each kind by name.\<close>

definition listed :: "fs_node list \<Rightarrow> fs_node list" where
  "listed ns = sort_key node_name (filter is_dir ns) @ sort_key node_name (filter (\<lambda>n. \<not> is_dir n) ns)"

definition shown :: "fs_node \<Rightarrow> bool" where
  "shown n \<longleftrightarrow> node_name n \<notin> set ignore_dirs \<and> \<not> startswith ''.'' (node_name n)"

text \<open>The first argument is the number of levels that are left; a directory that may not be read has no lines.\<close>

fun walk_dir :: "nat \<Rightarrow> nat \<Rightarrow> fs_node list option \<Rightarrow> tree_line list" where
  "walk_dir 0 indent items = []"
| "walk_dir (Suc k) indent None = []"
| "walk_dir (Suc k) indent (Some items) =
     concat (map (\<lambda>n. (indent, is_dir n, node_name n) #
                      (case n of Fs_file _ \<Rightarrow> [] | Fs_dir _ kids \<Rightarrow> walk_dir k (indent + 1) kids))
       (filter shown (listed items)))"

definition scan_repo_structure :: "'w agent_ports \<Rightarrow> ('w, string, tree_line list) eff" where
  "scan_repo_structure P = eff_bind (ag_tree P) (\<lambda>t. eff_return (walk_dir 5 0 t))"

definition key_patterns :: "string list" where
  "key_patterns =
     [''README.md'', ''CLAUDE.md'', ''PRD.md'', ''docs/PRD.md'', ''PRODUCT_REQUIREMENTS.md'', ''package.json'', ''requirements.txt'',
      ''pubspec.yaml'', ''Cargo.toml'', ''go.mod'', ''pom.xml'', ''build.gradle'', ''.github/workflows/*.yml'']"

definition collect_one :: "'w agent_ports \<Rightarrow> nat \<Rightarrow> string \<Rightarrow> (string, string) dict \<Rightarrow> ('w, string, (string, string) dict) eff" where
  "collect_one P limit path d =
     eff_bind (ag_is_file P path) (\<lambda>b.
       if b then eff_catch (eff_bind (ag_read P path) (\<lambda>c. eff_return (dict_set path (take limit c) d))) (\<lambda>_. eff_return d)
       else eff_return d)"

definition collect_key_files :: "'w agent_ports \<Rightarrow> ('w, string, (string, string) dict) eff" where
  "collect_key_files P =
     eff_fold (\<lambda>p d. if CHR ''*'' \<in> set p then eff_bind (ag_glob P p) (\<lambda>ms. eff_fold (collect_one P 2000) (take 5 ms) d)
                     else collect_one P 3000 p d) key_patterns []"


section \<open>The changelog\<close>

text \<open>The line is inserted before the first separator that follows the heading of the log, at the end when there is none.\<close>

fun insert_index :: "string list \<Rightarrow> string list \<Rightarrow> nat" where
  "insert_index seen [] = length seen"
| "insert_index seen (l # ls) =
     (if py_strip l = ''---'' \<and> seen \<noteq> [] \<and> substring ''Operation Log'' (join_with [newline] seen) then length seen
      else insert_index (seen @ [l]) ls)"

definition insert_entry :: "string \<Rightarrow> string \<Rightarrow> string" where
  "insert_entry entry content =
     (let ls = split_on newline content; i = insert_index [] ls in join_with [newline] (take i ls @ entry # drop i ls))"

definition log_ai_action :: "'w agent_ports \<Rightarrow> string \<Rightarrow> string \<Rightarrow> string \<Rightarrow> string \<Rightarrow> ('w, string, unit) eff" where
  "log_ai_action P agent_name target action details =
     eff_bind (ag_now P) (\<lambda>(d, t).
       let entry = ''| '' @ join_with '' | '' [d, t, agent_name, target, action, details] @ '' |'' in
       eff_catch
         (eff_bind (ag_exists P changelog_path) (\<lambda>e.
            if \<not> e then eff_return ()
            else eff_bind (ag_read P changelog_path) (\<lambda>c. ag_write P changelog_path (insert_entry entry c))))
         (\<lambda>_. eff_return ()))"


section \<open>The assessor\<close>

definition check_and_generate_prd :: "'w agent_ports \<Rightarrow> ('w, string, bool \<times> string) eff" where
  "check_and_generate_prd P =
     eff_bind (ag_exists P prd_path) (\<lambda>e.
       if e then eff_catch (eff_bind (ag_read P prd_path) (\<lambda>c. eff_return (True, c))) (\<lambda>_. eff_return (True, []))
       else
         eff_bind (ag_exists P ''README.md'') (\<lambda>r.
         eff_bind (if r then eff_catch (ag_read P ''README.md'') (\<lambda>_. eff_return ''No README.md found'') else eff_return []) (\<lambda>readme.
         eff_bind (scan_repo_structure P) (\<lambda>structure.
           eff_catch
             (eff_bind (ag_ask P (Prd_prompt readme structure) 4000) (\<lambda>c.
                eff_then (ag_mkdir P ''docs'')
                  (eff_then (ag_write P prd_path c)
                    (eff_then (log_ai_action P ''Repository Assessor'' ''docs/PRD.md'' ''GENERATE''
                                 ''Missing PRD detected. Auto-generated docs/PRD.md based on README.'')
                      (eff_return (False, c))))))
             (\<lambda>_. eff_return (False, []))))))"

text \<open>The first match of \<open>\{[^}]+\}\<close>: from an opening brace to the next closing one, when there is something between.\<close>

fun extract_json :: "string \<Rightarrow> string option" where
  "extract_json [] = None"
| "extract_json (c # s) =
     (let body = takeWhile (\<lambda>x. x \<noteq> CHR ''}'') s in
      if c = CHR ''{'' \<and> body \<noteq> [] \<and> length body < length s then Some (c # body @ ''}'') else extract_json s)"

definition fallback :: "string list \<Rightarrow> string \<Rightarrow> py_val" where
  "fallback missing reasoning =
     PDict
      [(''goals_achieved'', PStr ''PARTIAL''), (''prd_exists'', PBool False), (''missing_docs'', PList (map PStr missing)),
       (''completion_percentage'', PInt 50), (''next_steps'', PStr ''CONTINUE_DEVELOPMENT''), (''reasoning'', PStr reasoning)]"

definition assess_completion_status :: "'w agent_ports \<Rightarrow> ('w, string, py_val) eff" where
  "assess_completion_status P =
     eff_bind (check_and_generate_prd P) (\<lambda>(_, prd).
     eff_bind (scan_repo_structure P) (\<lambda>structure.
     eff_bind (collect_key_files P) (\<lambda>key_files.
       eff_catch
         (eff_bind (ag_ask P (Assess_prompt (take 5000 prd) structure key_files) 2000) (\<lambda>text.
            case extract_json text of
              Some j \<Rightarrow> or_raise ''JSONDecodeError'' (ag_loads P j)
            | None \<Rightarrow> eff_return (fallback [''PRD.md'', ''API_DOCS.md'', ''DEPLOYMENT.md''] ''Unable to parse repository properly'')))
         (\<lambda>e. eff_return (fallback [''PRD.md''] (''Error: '' @ e))))))"

definition scope_gap_body :: "'w agent_ports \<Rightarrow> py_val list \<Rightarrow> string" where
  "scope_gap_body P parts =
     (let para = [newline, newline] in
      ''**Automated PRD-Based Analysis:**'' @ para
      @ concat (map2 (\<lambda>h v. h @ [newline] @ fmt P v @ para)
          [''## Issue Type'', ''## PRD Requirement'', ''## Current Status'', ''## Fix Strategy'', ''## Technical Strategy''] parts)
      @ ''---'' @ para @ ''**Automated Request:**'' @ [newline] @ ''@claude please analyze this issue and implement the solution.'')"

definition issues_url :: "string \<Rightarrow> string" where
  "issues_url repo = ''https://api.github.com/repos/'' @ repo @ ''/issues''"

definition create_scope_gap_issue :: "'w agent_ports \<Rightarrow> py_val \<Rightarrow> ('w, string, py_val option) eff" where
  "create_scope_gap_issue P gap =
     (if \<not> truthy (ag_token P) then eff_bind (item gap ''feature_name'') (\<lambda>_. eff_return None)
      else if \<not> truthy (ag_repo P) then eff_return None
      else
        let repo = the (ag_repo P) in
        eff_bind (eff_map (item gap) [''issue_type'', ''prd_requirement'', ''current_status'', ''fix_strategy'', ''technical_strategy'']) (\<lambda>parts.
        eff_bind (item gap ''feature_name'') (\<lambda>feature.
          let title = ''Scope Gap: '' @ fmt P feature;
              label = (if hd parts = PStr ''BROKEN'' then ''bug'' else ''enhancement'') in
          eff_catch
            (eff_bind (ag_post P (issues_url repo)
                         (New_issue title (scope_gap_body P parts) [''claude'', label, ''scope-gap'', ''prd-compliance'', ''auto-fix'']))
              (\<lambda>(status, body).
                if status \<noteq> 201 then eff_return None
                else
                  eff_bind (or_raise ''JSONDecodeError'' body) (\<lambda>data.
                  eff_bind (item data ''number'') (\<lambda>n.
                  eff_bind (item data ''html_url'') (\<lambda>_.
                    eff_then (log_ai_action P ''Repository Assessor'' repo ''ISSUE'' (''Created issue #'' @ fmt P n @ '': '' @ title))
                      (eff_then (ag_post P (issues_url repo @ ''/'' @ fmt P n @ ''/comments'') (New_comment ''@claude start''))
                        (eff_return (Some n))))))))
            (\<lambda>_. eff_return None))))"

definition scope_gaps :: "py_val \<Rightarrow> ('w, string, py_val list) eff" where
  "scope_gaps a =
     eff_bind (or_raise ''TypeError'' (json_in ''scope_gaps'' a)) (\<lambda>b.
       if \<not> b then eff_return []
       else eff_bind (item a ''scope_gaps'') (\<lambda>v. if py_truth v then or_raise ''TypeError'' (iterate v) else eff_return []))"

definition assessor_run :: "'w agent_ports \<Rightarrow> ('w, string, py_val) eff" where
  "assessor_run P =
     eff_bind (assess_completion_status P) (\<lambda>a.
     eff_then (eff_map (item a) [''goals_achieved'', ''prd_exists'', ''completion_percentage'', ''next_steps'', ''reasoning''])
       (eff_bind (scope_gaps a) (\<lambda>gaps.
          eff_then (eff_for gaps (\<lambda>g. eff_then (create_scope_gap_issue P g) (eff_return ())))
            (eff_then (ag_write P assessment_path (ag_dumps P a)) (eff_return a)))))"

text \<open>The exit code of the script, given the key of the language model.\<close>

definition assessor_main :: "'w agent_ports \<Rightarrow> string option \<Rightarrow> ('w, string, int) eff" where
  "assessor_main P api_key =
     (if \<not> truthy api_key then eff_return 1
      else eff_bind (assessor_run P) (\<lambda>a. eff_bind (item a ''next_steps'') (\<lambda>n. eff_return (if n = PStr ''IMPROVE'' then 0 else 10))))"


section \<open>The improver\<close>

definition default_assessment :: py_val where
  "default_assessment =
     PDict
      [(''goals_achieved'', PStr ''PARTIAL''), (''prd_exists'', PBool False), (''missing_docs'', PList []),
       (''completion_percentage'', PInt 50), (''next_steps'', PStr ''IMPROVE'')]"

definition load_assessment :: "'w agent_ports \<Rightarrow> ('w, string, py_val) eff" where
  "load_assessment P =
     eff_bind (ag_exists P assessment_path) (\<lambda>e.
       if \<not> e then eff_return default_assessment
       else eff_bind (ag_read P assessment_path) (\<lambda>s. or_raise ''JSONDecodeError'' (ag_loads P s)))"

definition save_assessment :: "'w agent_ports \<Rightarrow> py_val \<Rightarrow> ('w, string, unit) eff" where
  "save_assessment P a =
     eff_then (ag_write P assessment_path (ag_dumps P a)) (eff_then (item a ''completion_percentage'') (eff_return ()))"

record codebase_info =
  ci_tests :: bool
  ci_ci :: bool
  ci_docker :: bool
  ci_docs :: bool
  ci_config :: bool

definition any_match :: "'w agent_ports \<Rightarrow> string \<Rightarrow> ('w, string, bool) eff" where
  "any_match P p = eff_bind (ag_glob P p) (\<lambda>ms. eff_return (ms \<noteq> []))"

definition scan_codebase :: "'w agent_ports \<Rightarrow> ('w, string, codebase_info) eff" where
  "scan_codebase P =
     eff_bind (eff_bind (any_match P ''**/test_*.py'') (\<lambda>b. if b then eff_return True else any_match P ''**/tests/'')) (\<lambda>tests.
     eff_bind (ag_exists P ''.github/workflows'') (\<lambda>ci.
     eff_bind (ag_exists P ''Dockerfile'') (\<lambda>docker.
     eff_bind (ag_exists P ''docs'') (\<lambda>docs.
     eff_bind (eff_map (ag_exists P) [''config'', ''.env.example'', ''settings.py'']) (\<lambda>config.
       eff_return \<lparr>ci_tests = tests, ci_ci = ci, ci_docker = docker, ci_docs = docs, ci_config = list_ex (\<lambda>b. b) config\<rparr>)))))"

record arch_gap =
  ga_title :: string
  ga_type :: string
  ga_fix :: string
  ga_technical :: "string list"

definition test_gap :: arch_gap where
  "test_gap =
     \<lparr>ga_title = ''Missing Test Suite'', ga_type = ''Testing Infrastructure'',
      ga_fix = ''Set up a comprehensive test suite with unit tests and integration tests. Use pytest for Python projects, Jest for JavaScript, or appropriate testing frameworks for other languages.'',
      ga_technical = [''1. Create tests/ directory'', ''2. Add test framework dependencies'', ''3. Write sample test files'',
        ''4. Configure test runner in CI/CD'']\<rparr>"

definition ci_gap :: arch_gap where
  "ci_gap =
     \<lparr>ga_title = ''Missing CI/CD Pipeline'', ga_type = ''DevOps Infrastructure'',
      ga_fix = ''Implement GitHub Actions workflows for automated testing, linting, and deployment.'',
      ga_technical = [''1. Create .github/workflows/ci.yml'', ''2. Add linting and testing jobs'', ''3. Configure automated deployment'',
        ''4. Add status badges to README'']\<rparr>"

definition docker_gap :: arch_gap where
  "docker_gap =
     \<lparr>ga_title = ''Missing Container Configuration'', ga_type = ''Deployment Infrastructure'',
      ga_fix = ''Add Dockerfile and docker-compose.yml for consistent development and deployment environments.'',
      ga_technical = [''1. Create Dockerfile with multi-stage build'', ''2. Add docker-compose.yml for local development'',
        ''3. Document container usage in README'', ''4. Add .dockerignore file'']\<rparr>"

definition docs_gap :: arch_gap where
  "docs_gap =
     \<lparr>ga_title = ''Missing Documentation Structure'', ga_type = ''Documentation'',
      ga_fix = ''Create comprehensive documentation including API docs, architecture diagrams, and contribution guidelines.'',
      ga_technical = [''1. Create docs/ directory'', ''2. Add ARCHITECTURE.md'', ''3. Add CONTRIBUTING.md'', ''4. Add API documentation'',
        ''5. Set up documentation generator'']\<rparr>"

definition detect_architectural_gaps :: "'w agent_ports \<Rightarrow> ('w, string, arch_gap list) eff" where
  "detect_architectural_gaps P =
     eff_bind (scan_codebase P) (\<lambda>i.
       eff_return
         ((if ci_tests i then [] else [test_gap]) @ (if ci_ci i then [] else [ci_gap])
          @ (if ci_docker i then [] else [docker_gap]) @ (if ci_docs i then [] else [docs_gap])))"

definition generate_prd :: "'w agent_ports \<Rightarrow> ('w, string, bool) eff" where
  "generate_prd P =
     eff_bind (load_assessment P) (\<lambda>a.
     eff_bind (or_raise ''AttributeError'' (json_get a ''prd_exists'' PNone)) (\<lambda>e.
       if py_truth e then eff_return False
       else
         eff_bind (ag_exists P ''README.md'') (\<lambda>r.
         eff_bind (if r then ag_read P ''README.md'' else eff_return []) (\<lambda>readme.
           eff_catch
             (eff_bind (ag_ask P (Improve_prompt readme) 4000) (\<lambda>c.
                eff_then (ag_mkdir P ''docs'') (eff_then (ag_write P prd_path c) (eff_return True))))
             (\<lambda>_. eff_return False)))))"

definition create_agent_issue :: "'w agent_ports \<Rightarrow> string \<Rightarrow> string \<Rightarrow> string list \<Rightarrow> ('w, string, unit) eff" where
  "create_agent_issue P title body labels =
     (if \<not> truthy (ag_token P) \<or> \<not> truthy (ag_repo P) then eff_return ()
      else
        let para = [newline, newline];
            formatted = ''**Automated Analysis:**'' @ para @ body @ para @ ''---'' @ para @ ''**Action Required:**'' @ [newline]
              @ ''@claude implement this fix based on the analysis above.'';
            issue_labels = (if ''auto-fix'' \<in> set labels then labels else labels @ [''auto-fix'']) in
        eff_catch
          (eff_bind (ag_post P (issues_url (the (ag_repo P))) (New_issue title formatted issue_labels)) (\<lambda>(status, body).
             if status = 201 then eff_bind (or_raise ''JSONDecodeError'' body) (\<lambda>d. eff_then (item d ''html_url'') (eff_return ()))
             else eff_return ()))
          (\<lambda>_. eff_return ()))"

definition gap_issue_body :: "arch_gap \<Rightarrow> string" where
  "gap_issue_body g =
     join_with [newline, newline]
       [''## Issue Type'' @ [newline] @ ga_type g, ''## Fix Strategy'' @ [newline] @ ga_fix g,
        ''## Technical Strategy'' @ [newline] @ join_with [newline] (ga_technical g)]"

text \<open>\<open>v + n\<close> and \<open>min(v + n, 100)\<close>.\<close>

definition plus_val :: "py_val \<Rightarrow> int \<Rightarrow> py_val option" where
  "plus_val v n =
     (case v of
        PInt i \<Rightarrow> Some (PInt (i + n))
      | PFloat r \<Rightarrow> Some (PFloat (r + of_int n))
      | PBool b \<Rightarrow> Some (PInt ((if b then 1 else 0) + n))
      | _ \<Rightarrow> None)"

definition cap_hundred :: "py_val \<Rightarrow> py_val" where
  "cap_hundred v =
     (case v of PInt i \<Rightarrow> PInt (min i 100) | PFloat r \<Rightarrow> (if 100 < r then PInt 100 else v) | _ \<Rightarrow> v)"

text \<open>The bonus after the issues of the mode the assessment asks for.\<close>

definition work_bonus :: "'w agent_ports \<Rightarrow> py_val \<Rightarrow> int \<Rightarrow> py_val \<Rightarrow> ('w, string, int) eff" where
  "work_bonus P initial bonus steps =
     (if steps = PStr ''IMPROVE'' then
        eff_bind (detect_architectural_gaps P) (\<lambda>gaps.
          eff_then (eff_for gaps (\<lambda>g. create_agent_issue P (''Architecture Gap: '' @ ga_title g) (gap_issue_body g) [''architecture'', ''improvement'']))
            (eff_return (bonus + 5 * int (length gaps))))
      else
        eff_bind (or_raise ''TypeError'' (plus_val initial (bonus + 5))) (\<lambda>p.
          eff_then (create_agent_issue P (''Continue Development: '' @ fmt P p @ ''% Complete'')
                      (''## Status: '' @ fmt P initial @ ''%'' @ [newline] @ ''1. Review PRD'' @ [newline] @ ''2. Start implementation'')
                      [''development'', ''in-progress''])
            (eff_return (bonus + 5))))"

definition improver_run :: "'w agent_ports \<Rightarrow> ('w, string, py_val) eff" where
  "improver_run P =
     eff_bind (load_assessment P) (\<lambda>a.
     eff_bind (or_raise ''AttributeError'' (json_get a ''completion_percentage'' (PInt 50))) (\<lambda>initial.
     eff_bind (generate_prd P) (\<lambda>generated.
     eff_bind (if generated then set_key ''prd_exists'' (PBool True) a else eff_return a) (\<lambda>a1.
     eff_bind (item a1 ''next_steps'') (\<lambda>steps.
     eff_bind (work_bonus P initial (if generated then 15 else 0) steps) (\<lambda>bonus.
     eff_bind (or_raise ''TypeError'' (plus_val initial bonus)) (\<lambda>p.
     eff_bind (set_key ''completion_percentage'' (cap_hundred p) a1) (\<lambda>a2.
       eff_then (save_assessment P a2) (eff_return a2)))))))))"


section \<open>What an extracted text can hold\<close>

text \<open>The number of objects in a value, and of closing braces in a text.\<close>

fun objects :: "py_val \<Rightarrow> nat" where
  "objects (PList vs) = sum_list (map objects vs)"
| "objects (PDict kvs) = 1 + sum_list (map (\<lambda>kv. objects (snd kv)) kvs)"
| "objects v = 0"

definition braces :: "string \<Rightarrow> nat" where
  "braces s = length (filter (\<lambda>c. c = CHR ''}'') s)"

lemma extract_json_braces: "extract_json s = Some j \<Longrightarrow> braces j = 1"
  by (induction s rule: extract_json.induct)
     (auto simp: Let_def braces_def filter_empty_conv dest: set_takeWhileD split: if_splits)

definition is_object :: "py_val \<Rightarrow> bool" where
  "is_object v = (case v of PDict _ \<Rightarrow> True | _ \<Rightarrow> False)"

lemma no_objects: "objects v = 0 \<Longrightarrow> \<not> is_object v"
  by (cases v) (auto simp: is_object_def)

text \<open>Each object of a JSON text has a closing brace of its own.\<close>

definition closes_objects :: "'w agent_ports \<Rightarrow> bool" where
  "closes_objects P \<longleftrightarrow> (\<forall>s v. ag_loads P s = Some v \<longrightarrow> objects v \<le> braces s)"

lemma objects_fallback [simp]: "objects (fallback missing reasoning) = 1"
proof -
  have "sum_list (map (objects \<circ> PStr) xs) = 0" for xs by (induction xs) auto
  then show ?thesis by (simp add: fallback_def)
qed

lemma assessed_flat:
  assumes "closes_objects P" and "assess_completion_status P w = (Inr a, w')"
  shows "objects a \<le> 1"
proof -
  have answered: "objects a \<le> 1"
    if "(case extract_json t of None \<Rightarrow> eff_return (fallback ms r) | Some j \<Rightarrow> or_raise e (ag_loads P j)) s = (Inr a, s')"
    for t ms r e s s'
  proof (cases "extract_json t")
    case (Some j)
    with that have "ag_loads P j = Some a" by (cases "ag_loads P j") (auto simp: or_raise_def)
    then show ?thesis using assms(1) extract_json_braces [OF Some] unfolding closes_objects_def by metis
  qed (use that in auto)
  from assms(2) show ?thesis
    by (auto simp: assess_completion_status_def eff_bind_Inr_iff eff_catch_Inr_iff dest!: answered)
qed

lemma scope_gaps_plain:
  assumes "objects a \<le> 1" and "scope_gaps a w = (Inr gs, w')" and "g \<in> set gs"
  shows "\<not> is_object g"
proof -
  consider "gs = []" | v where "item a ''scope_gaps'' w = (Inr v, w)" "iterate v = Some gs"
    using assms(2)
    by (auto simp: scope_gaps_def eff_bind_Inr_iff or_raise_def item_def split: if_splits option.splits py_val.splits)
  then show ?thesis
  proof cases
    case 1
    with assms(3) show ?thesis by simp
  next
    case 2
    then obtain kvs where kvs: "a = PDict kvs" "map_of kvs ''scope_gaps'' = Some v"
      by (auto simp: item_def split: py_val.splits option.splits)
    have "(''scope_gaps'', v) \<in> set kvs" using kvs(2) by (rule map_of_SomeD)
    then have "objects v = 0" using assms(1) kvs(1) by force
    with 2(2) assms(3) show ?thesis
      by (cases v) (auto simp: iterate_def is_object_def split: py_val.splits)
  qed
qed


section \<open>The assessor posts nothing\<close>

text \<open>Everything but a post keeps \<open>Q\<close>.\<close>

definition silent :: "'w agent_ports \<Rightarrow> ('w \<Rightarrow> bool) \<Rightarrow> bool" where
  "silent P Q \<longleftrightarrow>
     (\<forall>p. keeps Q (ag_exists P p) \<and> keeps Q (ag_is_file P p) \<and> keeps Q (ag_glob P p) \<and> keeps Q (ag_read P p) \<and> keeps Q (ag_mkdir P p))
   \<and> (\<forall>p s. keeps Q (ag_write P p s)) \<and> keeps Q (ag_tree P) \<and> keeps Q (ag_now P) \<and> (\<forall>q n. keeps Q (ag_ask P q n))"

lemma silentD:
  assumes "silent P Q"
  shows "keeps Q (ag_exists P p)" "keeps Q (ag_is_file P p)" "keeps Q (ag_glob P p)" "keeps Q (ag_read P p)" "keeps Q (ag_mkdir P p)"
    "keeps Q (ag_write P p s)" "keeps Q (ag_tree P)" "keeps Q (ag_now P)" "keeps Q (ag_ask P q n)"
  using assms by (simp_all add: silent_def)

lemma keeps_assess:
  assumes "silent P Q"
  shows "keeps Q (assess_completion_status P)"
proof -
  note keep = silentD [OF assms] preserved
  have scan: "keeps Q (scan_repo_structure P)" unfolding scan_repo_structure_def by (intro keep)
  have entry: "keeps Q (log_ai_action P a b c d)" for a b c d unfolding log_ai_action_def Let_def by (intro keep)
  have "keeps Q (collect_one P n p d)" for n p d unfolding collect_one_def by (intro keep)
  then have "keeps Q (collect_key_files P)" unfolding collect_key_files_def by (intro keep)
  moreover have "keeps Q (check_and_generate_prd P)" unfolding check_and_generate_prd_def by (intro keep scan entry)
  ultimately show ?thesis unfolding assess_completion_status_def by (intro keep scan)
qed

lemma keeps_plain_gap:
  fixes Q :: "'a \<Rightarrow> bool"
  assumes "\<not> is_object g"
  shows "keeps Q (create_scope_gap_issue P g)"
proof -
  have raises: "item g k s \<noteq> (Inr x, s')" for k s x and s' :: 'a
    using assms by (auto simp: item_def is_object_def split: py_val.splits)
  have map_raises: "eff_map (item g) (k # ks) s \<noteq> (Inr x, s')" for k ks s x and s' :: 'a
    using raises by (auto simp: eff_bind_Inr_iff)
  show ?thesis
    unfolding create_scope_gap_issue_def Let_def
    by (intro keeps_if keeps_return keeps_bind_result [OF keeps_map [OF keeps_item]] keeps_bind_result [OF keeps_item])
       (use raises map_raises in blast)+
qed

text \<open>The assessor never opens an issue: whatever the language model answers and whether or not a token is given, a run keeps
  every property that only a post could break, because the answer is cut at its first closing brace and so cannot hold the
  object that describes a gap.\<close>

theorem assessor_posts_nothing:
  assumes "closes_objects P" and "silent P Q"
  shows "keeps Q (assessor_main P api_key)"
proof -
  have gaps: "keeps Q (eff_for gs (\<lambda>g. eff_then (create_scope_gap_issue P g) (eff_return ())))"
    if "\<forall>g\<in>set gs. \<not> is_object g" for gs
    using that keeps_plain_gap by (intro keeps_for keeps_then keeps_return) auto
  have scoped: "keeps Q (scope_gaps a)" for a unfolding scope_gaps_def by (intro preserved)
  have rest: "keeps Q (eff_bind (scope_gaps a) (\<lambda>gaps.
        eff_then (eff_for gaps (\<lambda>g. eff_then (create_scope_gap_issue P g) (eff_return ())))
          (eff_then (ag_write P assessment_path (ag_dumps P a)) (eff_return a))))"
    if "objects a \<le> 1" for a
    by (intro keeps_bind_result [OF scoped] keeps_then keeps_return gaps ballI silentD(6) [OF assms(2)])
       (rule scope_gaps_plain [OF that])
  have "keeps Q (assessor_run P)"
    unfolding assessor_run_def
    by (intro keeps_bind_result [OF keeps_assess [OF assms(2)]] keeps_then keeps_map keeps_item rest) (rule assessed_flat [OF assms(1)])
  then show ?thesis unfolding assessor_main_def by (intro preserved)
qed


text \<open>A repository without files whose model answers with one object; the state counts the posts.\<close>

definition flat_agent :: "nat agent_ports" where
  "flat_agent =
     \<lparr>ag_exists = (\<lambda>_ w. (Inr False, w)), ag_is_file = (\<lambda>_ w. (Inr False, w)), ag_glob = (\<lambda>_ w. (Inr [], w)),
      ag_tree = (\<lambda>w. (Inr (Some []), w)), ag_read = (\<lambda>_ w. (Inl ''FileNotFoundError'', w)), ag_write = (\<lambda>_ _ w. (Inr (), w)),
      ag_mkdir = (\<lambda>_ w. (Inr (), w)), ag_now = (\<lambda>w. (Inr ([], []), w)), ag_ask = (\<lambda>_ _ w. (Inr ''{1}'', w)),
      ag_post = (\<lambda>_ _ w. (Inr (201, None), w + 1)),
      ag_loads = (\<lambda>s. if s = ''{1}'' then Some (PDict [(''scope_gaps'', PList [])]) else None),
      ag_dumps = (\<lambda>_. []), ag_str = (\<lambda>_. []), ag_token = Some ''t'', ag_repo = Some ''r''\<rparr>"

theorem assessor_posts_nothing_witness:
  "snd (assessor_main flat_agent (Some ''k'') 0) = 0"
proof -
  have "closes_objects flat_agent" by (simp add: closes_objects_def flat_agent_def braces_def)
  moreover have "silent flat_agent (\<lambda>n. n = 0)" by (simp add: silent_def flat_agent_def keeps_def)
  ultimately show ?thesis using assessor_posts_nothing [of flat_agent "\<lambda>n. n = 0" "Some ''k''"] by (simp add: keeps_def)
qed


section \<open>The changelog keeps what it has\<close>

lemma insert_index_bound: "insert_index seen ls \<le> length seen + length ls"
  by (induction seen ls rule: insert_index.induct) auto

text \<open>Logging an action adds one line and leaves the others as they are and in order.\<close>

lemma split_on_join_with:
  "(\<forall>l\<in>set ls. c \<notin> set l) \<Longrightarrow> ls \<noteq> [] \<Longrightarrow> split_on c (join_with [c] ls) = ls"
proof (induction "[c]" ls rule: join_with.induct)
  case (3 s t ts)
  have "split_on c (s @ c # r) = s # split_on c r" if "c \<notin> set s" for s r
    using that by (induction s) auto
  with 3 show ?case by simp
qed (auto simp: split_on_absent)

lemma insert_entry_lines:
  assumes "newline \<notin> set entry"
  shows "\<exists>i \<le> length (split_on newline content).
    split_on newline (insert_entry entry content)
      = take i (split_on newline content) @ entry # drop i (split_on newline content)"
proof -
  let ?ls = "split_on newline content"
  let ?i = "insert_index [] ?ls"
  have "\<forall>l\<in>set (take ?i ?ls @ entry # drop ?i ?ls). newline \<notin> set l"
    using assms by (auto dest!: in_set_takeD in_set_dropD split_on_parts)
  then have "split_on newline (insert_entry entry content) = take ?i ?ls @ entry # drop ?i ?ls"
    by (simp add: insert_entry_def Let_def split_on_join_with)
  then show ?thesis using insert_index_bound [of "[]" ?ls] by auto
qed


section \<open>The improver's progress\<close>

lemma gaps_at_most_four: "detect_architectural_gaps P w = (Inr gs, w') \<Longrightarrow> length gs \<le> 4"
  by (auto simp: detect_architectural_gaps_def eff_bind_Inr_iff)

lemma work_bonus_fives:
  "work_bonus P (PInt p) b steps w = (Inr b', w') \<Longrightarrow> \<exists>n \<le> 4. b' = b + 5 * int n \<and> (steps \<noteq> PStr ''IMPROVE'' \<longrightarrow> n = 1)"
  using gaps_at_most_four
  by (force simp: work_bonus_def eff_bind_Inr_iff eff_then_Inr_iff split: if_splits)

text \<open>The completion a run of the improver reports: when it starts from a saved percentage between 0 and 100 and returns, the
  percentage it saves is the old one plus fifteen for a generated document and five for each missing part of the repository, at
  most four, or five when development is to continue, cut at 100; so it never falls and never exceeds 100.\<close>

theorem improver_percentage:
  assumes "load_assessment P w = (Inr (PDict kvs), w1)" and "map_of kvs ''completion_percentage'' = Some (PInt p)"
    and "0 \<le> p" "p \<le> 100" and "improver_run P w = (Inr a, w')"
  shows "\<exists>kvs' g n. a = PDict kvs' \<and> map_of kvs' ''completion_percentage'' = Some (PInt (min (p + 15 * of_bool g + 5 * int n) 100))
    \<and> n \<le> 4 \<and> (map_of kvs ''next_steps'' \<noteq> Some (PStr ''IMPROVE'') \<longrightarrow> n = 1)
    \<and> p \<le> min (p + 15 * of_bool g + 5 * int n) 100"
proof -
  have initial: "json_get (PDict kvs) ''completion_percentage'' (PInt 50) = Some (PInt p)"
    using assms(2) by (simp add: json_get_def)
  obtain x init g a1 steps bonus pv a2 s1 s2 s3 s4 s5 s6 s7 s8 where run:
      "load_assessment P w = (Inr x, s1)"
      "or_raise ''AttributeError'' (json_get x ''completion_percentage'' (PInt 50)) s1 = (Inr init, s2)"
      "(if g then set_key ''prd_exists'' (PBool True) x else eff_return x) s3 = (Inr a1, s4)"
      "item a1 ''next_steps'' s4 = (Inr steps, s5)"
      "work_bonus P init (if g then 15 else 0) steps s5 = (Inr bonus, s6)"
      "or_raise ''TypeError'' (plus_val init bonus) s6 = (Inr pv, s7)"
      "set_key ''completion_percentage'' (cap_hundred pv) a1 s7 = (Inr a2, s8)" "a = a2"
    using assms(5) unfolding improver_run_def eff_bind_Inr_iff eff_then_Inr_iff eff_return_iff sum.inject by blast
  have x: "x = PDict kvs" "init = PInt p" using run(1,2) assms(1) initial by (auto simp: or_raise_Inr)
  define kvs1 where "kvs1 = (if g then dict_set ''prd_exists'' (PBool True) kvs else kvs)"
  have a1: "a1 = PDict kvs1" using run(3) x by (auto simp: kvs1_def set_key_Inr split: if_splits)
  have steps: "map_of kvs1 ''next_steps'' = Some steps" using run(4) a1 by (simp add: item_Inr)
  have bonus: "work_bonus P (PInt p) (if g then 15 else 0) steps s5 = (Inr bonus, s6)" using run(5) x by simp
  have a: "a = PDict (dict_set ''completion_percentage'' (PInt (min (p + bonus) 100)) kvs1)"
    using run(6-8) x a1 by (auto simp: or_raise_Inr plus_val_def cap_hundred_def set_key_Inr)
  have "map_of kvs ''next_steps'' = Some steps" using steps by (auto simp: kvs1_def dict_set_def update_conv' split: if_splits)
  moreover obtain n where "n \<le> 4" "bonus = (if g then 15 else 0) + 5 * int n" "steps \<noteq> PStr ''IMPROVE'' \<longrightarrow> n = 1"
    using work_bonus_fives [OF bonus] by blast
  ultimately show ?thesis
    using a assms(3,4)
    by (intro exI [of _ "dict_set ''completion_percentage'' (PInt (min (p + bonus) 100)) kvs1"] exI [of _ g] exI [of _ n])
       (auto simp: dict_set_def update_conv' of_bool_def add.assoc)
qed

text \<open>A repository with nothing in it, whose model does not answer, gains a fifth at each run.\<close>

definition bare_agent :: "nat agent_ports" where
  "bare_agent = flat_agent\<lparr>ag_ask := \<lambda>_ _ w. (Inl ''timeout'', w),
     ag_exists := \<lambda>p w. (Inr (p = assessment_path), w), ag_read := \<lambda>_ w. (Inr ''{1}'', w),
     ag_loads := \<lambda>_. Some (PDict [(''completion_percentage'', PInt 50), (''next_steps'', PStr ''IMPROVE'')])\<rparr>"

theorem improver_percentage_witness:
  "\<exists>kvs' q. improver_run bare_agent 0 = (Inr (PDict kvs'), 4) \<and> map_of kvs' ''completion_percentage'' = Some (PInt q) \<and> 50 \<le> q"
proof -
  have "load_assessment bare_agent 0 = (Inr (PDict [(''completion_percentage'', PInt 50), (''next_steps'', PStr ''IMPROVE'')]), 0)"
    by code_simp
  moreover obtain a where run: "improver_run bare_agent 0 = (Inr a, 4)"
  proof -
    have "improver_run bare_agent 0 = (Inr (PDict [(''completion_percentage'', PInt 70), (''next_steps'', PStr ''IMPROVE'')]), 4)"
      by code_simp
    then show thesis by (rule that)
  qed
  ultimately have "\<exists>kvs' g n. a = PDict kvs' \<and> map_of kvs' ''completion_percentage'' = Some (PInt (min (50 + 15 * of_bool g + 5 * int n) 100))
      \<and> n \<le> 4 \<and> (map_of [(''completion_percentage'', PInt 50), (''next_steps'', PStr ''IMPROVE'')] ''next_steps'' \<noteq> Some (PStr ''IMPROVE'') \<longrightarrow> n = 1)
      \<and> 50 \<le> min (50 + 15 * of_bool g + 5 * int n) 100"
    by (intro improver_percentage) simp_all
  with run show ?thesis by blast
qed

end
