(* ===== verification/IssueAgents.thy ===== *)
theory IssueAgents
  imports RepoAgents
begin

text \<open>
  The two agents that open at most one issue a run: \<open>scripts/agents/code_auditor.py\<close>, which shows the language model the
  repository, and \<open>scripts/agents/trend_hunter.py\<close>, which shows it what is talked about. The file system, HTTP, the language
  model and JSON are parameters: \<open>ia_get\<close> and \<open>ia_post\<close> stand for a request, \<open>raise_for_status()\<close> and \<open>json()\<close>.
\<close>

text \<open>A line of the drawn tree: for each directory above whether it was the last entry, whether this one is, its name.\<close>

type_synonym drawn_line = "bool list \<times> bool \<times> string"

datatype agent_question =
  Audit_question "drawn_line list" "(string, string) dict"
| Trend_question "(py_val \<times> string \<times> py_val) list"

record 'w issue_ports =
  ia_base :: string
  ia_tree :: "('w, string, fs_node list option) eff"
  ia_exists :: "string \<Rightarrow> ('w, string, bool) eff"
  ia_read :: "string \<Rightarrow> ('w, string, string) eff"
  ia_glob :: "string \<Rightarrow> string \<Rightarrow> ('w, string, string list) eff"
  ia_get :: "string \<Rightarrow> ('w, string, py_val) eff"
  ia_post :: "string \<Rightarrow> post \<Rightarrow> ('w, string, py_val) eff"
  ia_ask :: "agent_question \<Rightarrow> nat \<Rightarrow> ('w, string, string) eff"
  ia_loads :: "string \<Rightarrow> py_val option"
  ia_str :: "py_val \<Rightarrow> string"
  ia_today :: "('w, string, string) eff"
  ia_api_key :: "string option"
  ia_token :: "string option"
  ia_repo :: string

definition val_text :: "'w issue_ports \<Rightarrow> py_val \<Rightarrow> string" where
  "val_text P v = (case v of PStr s \<Rightarrow> s | _ \<Rightarrow> ia_str P v)"

definition get_or :: "py_val \<Rightarrow> string \<Rightarrow> py_val \<Rightarrow> ('w, string, py_val) eff" where
  "get_or x k d = or_raise ''AttributeError'' (json_get x k d)"


section \<open>What the auditor reads\<close>

definition ignore_suffixes :: "string list" where
  "ignore_suffixes = [''.pyc'', ''.pyo'', ''.log'', ''.md'']"

definition ignore_parts :: "string list" where
  "ignore_parts =
     [''.git'', ''.github'', ''node_modules'', ''__pycache__'', ''.venv'', ''venv'', ''dist'', ''build'', ''.next'', ''.cache'', ''coverage'',
      ''.pytest_cache'', ''package-lock.json'', ''yarn.lock'']"

definition should_ignore :: "string \<Rightarrow> bool" where
  "should_ignore path \<longleftrightarrow> list_ex (\<lambda>e. endswith e path) ignore_suffixes \<or> list_ex (\<lambda>p. substring p path) ignore_parts"

definition child :: "string \<Rightarrow> string \<Rightarrow> string" where
  "child dir name = dir @ ''/'' @ name"

text \<open>The first argument is the number of levels that are left.\<close>

fun draw_dir :: "nat \<Rightarrow> string \<Rightarrow> bool list \<Rightarrow> fs_node list option \<Rightarrow> drawn_line list" where
  "draw_dir 0 path bars items = []"
| "draw_dir (Suc k) path bars None = []"
| "draw_dir (Suc k) path bars (Some items) =
     (if should_ignore path then []
      else concat (map (\<lambda>(i, n).
             let is_last = (Suc i = length items); p = child path (node_name n) in
             if should_ignore p then []
             else (bars, is_last, node_name n) #
                  (case n of Fs_file _ \<Rightarrow> [] | Fs_dir _ kids \<Rightarrow> draw_dir k p (bars @ [is_last]) kids))
           (enumerate 0 (listed items))))"

definition generate_repo_structure :: "'w issue_ports \<Rightarrow> ('w, string, drawn_line list) eff" where
  "generate_repo_structure P = eff_bind (ia_tree P) (\<lambda>t. eff_return (draw_dir 4 (ia_base P) [] t))"

definition max_files :: nat where
  "max_files = 20"

definition truncated :: "string \<Rightarrow> string" where
  "truncated content = (if 5000 < length content then take 5000 content @ [newline] @ ''... (truncated)'' else content)"

definition read_key_file :: "'w issue_ports \<Rightarrow> string \<Rightarrow> (string, string) dict \<times> nat \<Rightarrow> ('w, string, (string, string) dict \<times> nat) eff" where
  "read_key_file P key acc =
     eff_catch
       (eff_bind (ia_read P (child (ia_base P) key)) (\<lambda>c. eff_return (dict_set key (truncated c) (fst acc), snd acc + 1)))
       (\<lambda>_. eff_return acc)"

text \<open>The files of a directory that match a pattern, skipped when the limit is reached or the path is to be ignored.\<close>

definition read_matches :: "'w issue_ports \<Rightarrow> string \<Rightarrow> string \<Rightarrow> (string, string) dict \<times> nat \<Rightarrow> ('w, string, (string, string) dict \<times> nat) eff" where
  "read_matches P dir pattern acc =
     eff_bind (ia_exists P (child (ia_base P) dir)) (\<lambda>e.
       if \<not> e then eff_return acc
       else eff_bind (ia_glob P (child (ia_base P) dir) pattern) (\<lambda>names.
         eff_fold (\<lambda>n a. if max_files \<le> snd a \<or> should_ignore (child (ia_base P) (child dir n)) then eff_return a
                         else read_key_file P (child dir n) a) names acc))"

definition priority_files :: "string list" where
  "priority_files =
     [''README.md'', ''CLAUDE.md'', ''requirements.txt'', ''package.json'', ''pyproject.toml'', ''setup.py'', ''Dockerfile'',
      ''.github/workflows/*.yml'']"

definition read_priority :: "'w issue_ports \<Rightarrow> string \<Rightarrow> (string, string) dict \<times> nat \<Rightarrow> ('w, string, (string, string) dict \<times> nat) eff" where
  "read_priority P pattern acc =
     (if max_files \<le> snd acc then eff_return acc
      else if CHR ''*'' \<in> set pattern then
        let parts = split_on (CHR ''/'') pattern in
        if length parts > 1 then read_matches P (join_with ''/'' (butlast parts)) (last parts) acc else eff_return acc
      else eff_bind (ia_exists P (child (ia_base P) pattern)) (\<lambda>e. if e then read_key_file P pattern acc else eff_return acc))"

definition collect_audit_files :: "'w issue_ports \<Rightarrow> ('w, string, (string, string) dict) eff" where
  "collect_audit_files P =
     eff_bind (eff_fold (read_priority P) priority_files ([], 0)) (\<lambda>acc.
     eff_bind (ia_exists P (child (ia_base P) ''scripts'')) (\<lambda>e.
     eff_bind (if e \<and> snd acc < max_files then read_matches P ''scripts'' ''*.py'' acc else eff_return acc) (\<lambda>acc'.
       eff_return (fst acc'))))"


section \<open>The answer of the language model\<close>

definition bare_fence :: string where
  "bare_fence = [CHR 0x60, CHR 0x60, CHR 0x60]"

text \<open>\<open>t.split(mark)[1].split('```')[0].strip()\<close>: what follows the first mark up to the next fence or the end.\<close>

fun before_sub :: "string \<Rightarrow> string \<Rightarrow> string" where
  "before_sub p [] = []"
| "before_sub p (c # s) = (if startswith p (c # s) then [] else c # before_sub p s)"

definition after_sub :: "string \<Rightarrow> string \<Rightarrow> string" where
  "after_sub p s = drop (length (before_sub p s) + length p) s"

definition fenced_part :: "string \<Rightarrow> string" where
  "fenced_part t =
     (let json = bare_fence @ ''json''; inner = (\<lambda>mark. py_strip (before_sub bare_fence (after_sub mark t))) in
      if substring json t then inner json else if substring bare_fence t then inner bare_fence else t)"

text \<open>The answer counts when it says \<open>found\<close> and has the entries that are printed; any exception is caught.\<close>

definition judge_answer :: "'w issue_ports \<Rightarrow> string list \<Rightarrow> ('w, string, string) eff \<Rightarrow> ('w, string, py_val option) eff" where
  "judge_answer P printed question =
     (if \<not> truthy (ia_api_key P) then eff_return None
      else
        eff_catch
          (eff_bind question (\<lambda>answer.
           eff_bind (or_raise ''JSONDecodeError'' (ia_loads P (fenced_part (py_strip answer)))) (\<lambda>result.
           eff_bind (get_or result ''found'' PNone) (\<lambda>found.
             if py_truth found then eff_then (eff_map (item result) printed) (eff_return (Some result)) else eff_return None))))
          (\<lambda>_. eff_return None))"

definition analyze_architecture :: "'w issue_ports \<Rightarrow> drawn_line list \<Rightarrow> (string, string) dict \<Rightarrow> ('w, string, py_val option) eff" where
  "analyze_architecture P structure files =
     judge_answer P [''issue_name'', ''category''] (ia_ask P (Audit_question structure (take 15 files)) 1500)"


section \<open>The auditor's issue\<close>

definition is_cased :: "char \<Rightarrow> bool" where
  "is_cased c \<longleftrightarrow> (let n = char_code c in
     (65 \<le> n \<and> n \<le> 90) \<or> (97 \<le> n \<and> n \<le> 122) \<or> n \<in> {170, 181, 186} \<or> (192 \<le> n \<and> n \<noteq> 215 \<and> n \<noteq> 247))"

text \<open>\<open>s.title()\<close>; the flag says whether the character before was a letter.\<close>

fun title_from :: "bool \<Rightarrow> string \<Rightarrow> string" where
  "title_from prev [] = []"
| "title_from prev (c # s) =
     (if prev then [lower_char c] else if char_code c = 223 then ''Ss'' else upper_char c) @ title_from (is_cased c) s"

definition py_title :: "string \<Rightarrow> string" where
  "py_title s = title_from False s"

definition as_text :: "py_val \<Rightarrow> ('w, string, string) eff" where
  "as_text v = (case v of PStr s \<Rightarrow> eff_return s | _ \<Rightarrow> eff_raise ''AttributeError'')"

definition principle_description :: "py_val \<Rightarrow> string" where
  "principle_description category =
     (if category = PStr ''XP'' then ''Extreme Programming - Simple design, continuous integration''
      else if category = PStr ''DDD'' then ''Domain-Driven Design - Clear boundaries, domain models''
      else if category = PStr ''TDD'' then ''Test-Driven Development - Tests first, high coverage''
      else ''Software engineering best practice'')"

definition fix_text :: "'w issue_ports \<Rightarrow> py_val \<Rightarrow> py_val" where
  "fix_text P f = (case f of PList vs \<Rightarrow> PStr (join_with [newline] (map (\<lambda>v. ''- '' @ val_text P v) vs)) | _ \<Rightarrow> f)"

definition hashable :: "py_val \<Rightarrow> bool" where
  "hashable v = (case v of PList _ \<Rightarrow> False | PDict _ \<Rightarrow> False | _ \<Rightarrow> True)"

definition open_issue :: "'w issue_ports \<Rightarrow> post \<Rightarrow> ('w, string, bool) eff" where
  "open_issue P p =
     eff_bind (ia_post P (issues_url (ia_repo P)) p) (\<lambda>data. eff_bind (get_or data ''html_url'' (PStr [])) (\<lambda>_. eff_return True))"

text \<open>A key of a dictionary that is looked up.\<close>

definition as_key :: "py_val \<Rightarrow> ('w, string, unit) eff" where
  "as_key v = (if hashable v then eff_return () else eff_raise ''TypeError'')"

definition audit_body :: "'w issue_ports \<Rightarrow> string \<Rightarrow> py_val \<Rightarrow> py_val \<Rightarrow> py_val \<Rightarrow> py_val \<Rightarrow> string \<Rightarrow> string" where
  "audit_body P severity desc loc fix cat today =
     (let para = [newline, newline] in
      ''**Severity:** '' @ py_title severity @ para
      @ ''## Description'' @ [newline] @ val_text P desc @ para @ ''## Location'' @ [newline] @ val_text P loc @ para
      @ ''## Proposed Fix Strategy'' @ [newline] @ val_text P (fix_text P fix) @ para
      @ ''## Related Principle'' @ [newline] @ ''**'' @ val_text P cat @ ''** - '' @ principle_description cat @ para
      @ ''---'' @ [newline] @ ''*Generated by Code Auditor Agent on '' @ today @ ''*'')"

definition create_audit_issue :: "'w issue_ports \<Rightarrow> py_val \<Rightarrow> ('w, string, bool) eff" where
  "create_audit_issue P issue =
     eff_bind (item issue ''issue_name'') (\<lambda>name.
       if \<not> truthy (ia_token P) \<or> ia_repo P = [] then eff_return False
       else
         eff_catch
           (eff_bind (item issue ''proposed_fix'') (\<lambda>fix.
            eff_bind (item issue ''severity'') (\<lambda>sev.
            eff_bind (eff_then (as_key sev) (as_text sev)) (\<lambda>severity.
            eff_bind (item issue ''description'') (\<lambda>desc.
            eff_bind (item issue ''location'') (\<lambda>loc.
            eff_bind (item issue ''category'') (\<lambda>cat.
            eff_bind (eff_then (as_key cat) (ia_today P)) (\<lambda>today.
            eff_bind (as_text cat) (\<lambda>category.
              open_issue P (New_issue (''Architecture Gap: '' @ val_text P name) (audit_body P severity desc loc fix cat today)
                [''code-auditor'', ''architecture'', py_lower category, severity]))))))))))
           (\<lambda>_. eff_return False))"

text \<open>What both scripts do with the result: the exit code.\<close>

definition finish_run :: "(py_val \<Rightarrow> ('w, string, bool) eff) \<Rightarrow> py_val option \<Rightarrow> ('w, string, int) eff" where
  "finish_run create result =
     (case result of
        None \<Rightarrow> eff_return 0
      | Some r \<Rightarrow>
          if \<not> py_truth r then eff_return 0
          else eff_bind (get_or r ''found'' PNone) (\<lambda>found.
            if \<not> py_truth found then eff_return 0
            else eff_bind (create r) (\<lambda>ok. eff_return (if ok then 0 else 1))))"

definition auditor_main :: "'w issue_ports \<Rightarrow> ('w, string, int) eff" where
  "auditor_main P =
     eff_catch
       (eff_bind (generate_repo_structure P) (\<lambda>structure.
        eff_bind (collect_audit_files P) (\<lambda>files.
          if files = [] then eff_return 1
          else eff_bind (analyze_architecture P structure files) (finish_run (create_audit_issue P)))))
       (\<lambda>_. eff_return 1)"


section \<open>The trend hunter\<close>

text \<open>\<open>v[:n]\<close>.\<close>

definition slice :: "nat \<Rightarrow> py_val \<Rightarrow> py_val list option" where
  "slice n v = (case v of PList vs \<Rightarrow> Some (take n vs) | PStr s \<Rightarrow> Some (map (\<lambda>c. PStr [c]) (take n s)) | _ \<Rightarrow> None)"

record trend =
  tr_title :: py_val
  tr_url :: py_val
  tr_weight :: py_val
  tr_tags :: "py_val option"
  tr_source :: string

definition top_stories_url :: string where
  "top_stories_url = ''https://hacker-news.firebaseio.com/v0/topstories.json''"

definition story_url :: "string \<Rightarrow> string" where
  "story_url i = ''https://hacker-news.firebaseio.com/v0/item/'' @ i @ ''.json''"

definition devto_url :: "'w issue_ports \<Rightarrow> nat \<Rightarrow> string" where
  "devto_url P n = ''https://dev.to/api/articles?per_page='' @ ia_str P (PInt (int n)) @ ''&top=7&tag=ai%2Csaas%2Cproduct''"

text \<open>A story that cannot be fetched is skipped.\<close>

definition fetch_story :: "'w issue_ports \<Rightarrow> py_val \<Rightarrow> trend list \<Rightarrow> ('w, string, trend list) eff" where
  "fetch_story P story_id stories =
     eff_catch
       (eff_bind (ia_get P (story_url (val_text P story_id))) (\<lambda>it.
          if \<not> py_truth it then eff_return stories
          else
            eff_bind (get_or it ''type'' PNone) (\<lambda>ty.
              if ty \<noteq> PStr ''story'' then eff_return stories
              else
                eff_bind (get_or it ''title'' (PStr ''No title'')) (\<lambda>title.
                eff_bind (get_or it ''url'' (PStr (''https://news.ycombinator.com/item?id='' @ val_text P story_id))) (\<lambda>url.
                eff_bind (get_or it ''score'' (PInt 0)) (\<lambda>score.
                  eff_return (stories @ [\<lparr>tr_title = title, tr_url = url, tr_weight = score, tr_tags = None,
                                          tr_source = ''Hacker News''\<rparr>])))))))
       (\<lambda>_. eff_return stories)"

definition fetch_hacker_news_stories :: "'w issue_ports \<Rightarrow> nat \<Rightarrow> ('w, string, trend list) eff" where
  "fetch_hacker_news_stories P count =
     eff_catch
       (eff_bind (ia_get P top_stories_url) (\<lambda>ids.
        eff_bind (or_raise ''TypeError'' (slice count ids)) (\<lambda>story_ids. eff_fold (fetch_story P) story_ids [])))
       (\<lambda>_. eff_return [])"

text \<open>Here one article that is no object loses all of them.\<close>

definition read_article :: "py_val \<Rightarrow> ('w, string, trend) eff" where
  "read_article article =
     eff_bind (get_or article ''title'' (PStr ''No title'')) (\<lambda>title.
     eff_bind (get_or article ''url'' (PStr [])) (\<lambda>url.
     eff_bind (get_or article ''tag_list'' (PList [])) (\<lambda>tags.
     eff_bind (get_or article ''positive_reactions_count'' (PInt 0)) (\<lambda>n.
       eff_return \<lparr>tr_title = title, tr_url = url, tr_weight = n, tr_tags = Some tags, tr_source = ''Dev.to''\<rparr>))))"

definition fetch_devto_articles :: "'w issue_ports \<Rightarrow> nat \<Rightarrow> ('w, string, trend list) eff" where
  "fetch_devto_articles P count =
     eff_catch
       (eff_bind (ia_get P (devto_url P count)) (\<lambda>articles.
        eff_bind (or_raise ''TypeError'' (slice count articles)) (eff_map read_article)))
       (\<lambda>_. eff_return [])"

definition analyze_trends :: "'w issue_ports \<Rightarrow> trend list \<Rightarrow> ('w, string, py_val option) eff" where
  "analyze_trends P trends =
     judge_answer P [''idea_name''] (ia_ask P (Trend_question (map (\<lambda>t. (tr_title t, tr_source t, tr_url t)) trends)) 1000)"

definition trend_body :: "'w issue_ports \<Rightarrow> py_val \<Rightarrow> py_val list \<Rightarrow> string \<Rightarrow> string" where
  "trend_body P desc sources today =
     (let para = [newline, newline] in
      val_text P desc @ para @ ''## Source Trends'' @ [newline]
      @ join_with [newline] (map (\<lambda>s. ''- '' @ val_text P s) sources) @ para
      @ ''## Next Steps'' @ [newline]
      @ join_with [newline] [''- [ ] Research implementation approach'', ''- [ ] Design architecture'', ''- [ ] Create development plan'',
          ''- [ ] Implement feature''] @ para
      @ ''---'' @ [newline] @ ''*Generated by Trend Hunter Agent on '' @ today @ ''*'')"

definition create_trend_issue :: "'w issue_ports \<Rightarrow> py_val \<Rightarrow> ('w, string, bool) eff" where
  "create_trend_issue P idea =
     eff_bind (item idea ''idea_name'') (\<lambda>name.
       if \<not> truthy (ia_token P) \<or> ia_repo P = [] then eff_return False
       else
         eff_catch
           (eff_bind (item idea ''source_trends'') (\<lambda>src.
            eff_bind (or_raise ''TypeError'' (iterate src)) (\<lambda>sources.
            eff_bind (item idea ''description'') (\<lambda>desc.
            eff_bind (ia_today P) (\<lambda>today.
              open_issue P (New_issue (''Market Trend: '' @ val_text P name) (trend_body P desc sources today)
                [''trend-hunter'', ''market-research'', ''enhancement'']))))))
           (\<lambda>_. eff_return False))"

definition hunter_main :: "'w issue_ports \<Rightarrow> ('w, string, int) eff" where
  "hunter_main P =
     eff_catch
       (eff_bind (fetch_hacker_news_stories P 10) (\<lambda>hn.
        eff_bind (fetch_devto_articles P 10) (\<lambda>devto.
          let trends = hn @ devto in
          if trends = [] then eff_return 1
          else eff_bind (analyze_trends P trends) (finish_run (create_trend_issue P)))))
       (\<lambda>_. eff_return 1)"


section \<open>What is shown to the language model\<close>

definition plain_priority :: "string list" where
  "plain_priority = filter (\<lambda>p. CHR ''*'' \<notin> set p) priority_files"

text \<open>What the loops keep: the count covers the files, and each file is one of those meant to be read, cut to size.\<close>

definition reading :: "(string, string) dict \<times> nat \<Rightarrow> bool" where
  "reading a \<longleftrightarrow> length (fst a) \<le> snd a \<and> snd a \<le> max_files
   \<and> (\<forall>(k, c)\<in>set (fst a). (k \<in> set plain_priority \<or> startswith ''scripts/'' k) \<and> length c \<le> 5016)"

lemma truncated_length: "length (truncated c) \<le> 5016"
  by (simp add: truncated_def)

lemma dict_set_length: "length (dict_set k v d) \<le> length d + 1"
  by (induction d) (auto simp: dict_set_def)

lemma dict_set_subset: "set (dict_set k v d) \<subseteq> insert (k, v) (set d)"
  by (induction d) (auto simp: dict_set_def)

lemma reading_step:
  assumes "reading a" "snd a < max_files" and "key \<in> set plain_priority \<or> startswith ''scripts/'' key"
  shows "reading (dict_set key (truncated c) (fst a), snd a + 1)"
proof -
  have "length (dict_set key (truncated c) (fst a)) \<le> snd a + 1"
    using dict_set_length [of key "truncated c" "fst a"] assms(1) by (simp add: reading_def)
  moreover have "\<forall>(k, t)\<in>set (dict_set key (truncated c) (fst a)). (k \<in> set plain_priority \<or> startswith ''scripts/'' k) \<and> length t \<le> 5016"
    using dict_set_subset [of key "truncated c" "fst a"] assms(1,3) truncated_length [of c] unfolding reading_def by blast
  ultimately show ?thesis using assms(2) by (simp add: reading_def)
qed

lemma read_key_file_reading:
  assumes "read_key_file P key a w = (Inr a', w')" and "reading a" "snd a < max_files"
    and "key \<in> set plain_priority \<or> startswith ''scripts/'' key"
  shows "reading a'"
proof -
  from assms(1) consider "a' = a" | c where "a' = (dict_set key (truncated c) (fst a), snd a + 1)"
    by (auto simp: read_key_file_def eff_catch_Inr_iff eff_bind_Inr_iff)
  then show ?thesis using assms(2) reading_step [OF assms(2-4)] by cases simp_all
qed

lemma git_ignored: "should_ignore (child b (child ''.github/workflows'' n))"
proof -
  have "substring ''.git'' (child b (child ''.github/workflows'' n))"
    unfolding substring_iff child_def by (rule exI [of _ "b @ ''/''"], rule exI [of _ "''hub/workflows/'' @ n"]) simp
  then show ?thesis by (simp add: should_ignore_def ignore_parts_def)
qed

lemma read_matches_reading:
  assumes "read_matches P dir pattern a w = (Inr a', w')" and "reading a" and "dir = ''scripts'' \<or> dir = ''.github/workflows''"
  shows "reading a'"
proof -
  let ?f = "\<lambda>n a. if max_files \<le> snd a \<or> should_ignore (child (ia_base P) (child dir n)) then eff_return a
                  else read_key_file P (child dir n) a"
  have step: "reading b'" if "reading b" "?f n b s = (Inr b', s')" for n b b' s s'
  proof (cases "max_files \<le> snd b \<or> should_ignore (child (ia_base P) (child dir n))")
    case False
    then have "dir = ''scripts''" using assms(3) git_ignored by blast
    moreover have "startswith ''scripts/'' (child ''scripts'' n)" by (simp add: child_def startswith_def)
    ultimately show ?thesis using False that read_key_file_reading [of P "child dir n" b s b' s'] by simp
  qed (use that in simp)
  from assms(1) consider "a' = a" | names s where "eff_fold ?f names a s = (Inr a', w')"
    by (auto simp: read_matches_def eff_bind_Inr_iff split: if_splits)
  then show ?thesis
  proof cases
    case 2
    then show ?thesis by (rule eff_fold_invariant [where I = reading]) (use assms(2) step in blast)+
  qed (use assms(2) in simp)
qed

lemma read_priority_reading:
  assumes "read_priority P pattern a w = (Inr a', w')" and "reading a" and "pattern \<in> set priority_files"
  shows "reading a'"
proof (cases "CHR ''*'' \<in> set pattern")
  case True
  then have "pattern = ''.github/workflows/*.yml''" using assms(3) by (auto simp: priority_files_def)
  moreover have "split_on (CHR ''/'') ''.github/workflows/*.yml'' = [''.github'', ''workflows'', ''*.yml'']" by code_simp
  ultimately have "a' = a \<or> read_matches P ''.github/workflows'' ''*.yml'' a w = (Inr a', w')"
    using assms(1) by (auto simp: read_priority_def Let_def split: if_splits)
  then show ?thesis using assms(2) read_matches_reading [of P "''.github/workflows''" "''*.yml''" a w a' w'] by blast
next
  case False
  with assms(3) have plain: "pattern \<in> set plain_priority" by (simp add: plain_priority_def)
  from False assms(1) consider "a' = a" | s where "read_key_file P pattern a s = (Inr a', w')" "snd a < max_files"
    by (auto simp: read_priority_def eff_bind_Inr_iff not_le split: if_splits)
  then show ?thesis
  proof cases
    case (2 s)
    then show ?thesis by (rule read_key_file_reading [OF _ assms(2)]) (simp add: plain)
  qed (use assms(2) in simp)
qed

text \<open>What the auditor shows the language model is bounded: a collection that returns has at most twenty files, of at most 5,016
  characters each, and only those of the list or of the directory \<open>scripts\<close>; in particular never one of the workflow files
  the list asks for, because their directory matches the pattern \<open>.git\<close> of what is to be ignored.\<close>

theorem auditor_reads:
  assumes "collect_audit_files P w = (Inr d, w')"
  shows "length d \<le> 20 \<and> (\<forall>(k, c)\<in>set d. length c \<le> 5016 \<and> \<not> startswith ''.github'' k)"
proof -
  obtain a s e s' a' where a: "eff_fold (read_priority P) priority_files ([], 0) w = (Inr a, s)"
    and m: "(if e \<and> snd a < max_files then read_matches P ''scripts'' ''*.py'' a else eff_return a) s' = (Inr a', w')"
    and d: "d = fst a'"
    using assms unfolding collect_audit_files_def eff_bind_Inr_iff by (elim exE conjE) simp
  from m have a': "a' = a \<or> read_matches P ''scripts'' ''*.py'' a s' = (Inr a', w')" by (simp split: if_splits)
  have "reading ([], 0)" by (simp add: reading_def max_files_def)
  with a have "reading a"
    by (rule eff_fold_invariant [where I = reading]) (erule (2) read_priority_reading [rotated])
  then have r: "reading a'" using a' read_matches_reading [of P "''scripts''" "''*.py''" a s' a' w'] by blast
  have "list_all (\<lambda>p. \<not> startswith ''.github'' p) plain_priority" by code_simp
  moreover have "\<not> startswith ''.github'' k" if "startswith ''scripts/'' k" for k
    using that by (cases k) (auto simp: startswith_def)
  ultimately show ?thesis
    using r unfolding d reading_def max_files_def list_all_iff by fastforce
qed

text \<open>A repository of two files, services that answer, and a state that counts the posts.\<close>

definition example_services :: "nat issue_ports" where
  "example_services =
     \<lparr>ia_base = ''/repo'', ia_tree = eff_return (Some [Fs_file ''setup.py'', Fs_dir ''scripts'' (Some [Fs_file ''a.py''])]),
      ia_exists = (\<lambda>p. eff_return (p \<in> {''/repo/setup.py'', ''/repo/scripts''})), ia_read = (\<lambda>p. eff_return p),
      ia_glob = (\<lambda>d pat. eff_return [''a.py'']), ia_get = (\<lambda>u. eff_return (PList [])),
      ia_post = (\<lambda>u p n. (Inr (PDict [(''html_url'', PStr u)]), Suc n)), ia_ask = (\<lambda>q m. eff_return ''answer''),
      ia_loads = (\<lambda>t. Some (PDict [(''found'', PBool True), (''issue_name'', PStr ''Size''), (''category'', PStr ''DDD''),
        (''severity'', PStr ''high''), (''description'', PStr ''d''), (''location'', PStr ''l''), (''proposed_fix'', PStr ''f'')])),
      ia_str = (\<lambda>v. []), ia_today = eff_return ''2024-01-01'', ia_api_key = Some ''k'', ia_token = Some ''t'', ia_repo = ''o/r''\<rparr>"

theorem auditor_reads_witness:
  "collect_audit_files example_services 0 = (Inr [(''setup.py'', ''/repo/setup.py''), (''scripts/a.py'', ''/repo/scripts/a.py'')], 0)
   \<and> list_all (\<lambda>(k, c). length c \<le> 5016 \<and> \<not> startswith ''.github'' k)
       [(''setup.py'', ''/repo/setup.py''), (''scripts/a.py'', ''/repo/scripts/a.py'')]"
proof
  show run: "collect_audit_files example_services 0 = (Inr [(''setup.py'', ''/repo/setup.py''), (''scripts/a.py'', ''/repo/scripts/a.py'')], 0)"
    by code_simp
  show "list_all (\<lambda>(k, c). length c \<le> 5016 \<and> \<not> startswith ''.github'' k)
       [(''setup.py'', ''/repo/setup.py''), (''scripts/a.py'', ''/repo/scripts/a.py'')]"
    using auditor_reads [OF run] unfolding list_all_iff by blast
qed


section \<open>One issue at most\<close>

text \<open>Only a post raises the measure, by one.\<close>

definition counts_posts :: "'w issue_ports \<Rightarrow> ('w \<Rightarrow> nat) \<Rightarrow> bool" where
  "counts_posts P c \<longleftrightarrow>
     (\<forall>n. keeps (\<lambda>s. c s \<le> n) (ia_tree P) \<and> keeps (\<lambda>s. c s \<le> n) (ia_today P)
        \<and> (\<forall>x. keeps (\<lambda>s. c s \<le> n) (ia_exists P x) \<and> keeps (\<lambda>s. c s \<le> n) (ia_read P x) \<and> keeps (\<lambda>s. c s \<le> n) (ia_get P x))
        \<and> (\<forall>x y. keeps (\<lambda>s. c s \<le> n) (ia_glob P x y)) \<and> (\<forall>q m. keeps (\<lambda>s. c s \<le> n) (ia_ask P q m)))
   \<and> (\<forall>u p. grows c 1 (ia_post P u p))"

lemma counts_postsD:
  assumes "counts_posts P c"
  shows "keeps (\<lambda>s. c s \<le> n) (ia_tree P)" "keeps (\<lambda>s. c s \<le> n) (ia_today P)" "keeps (\<lambda>s. c s \<le> n) (ia_exists P x)"
    "keeps (\<lambda>s. c s \<le> n) (ia_read P x)" "keeps (\<lambda>s. c s \<le> n) (ia_get P x)" "keeps (\<lambda>s. c s \<le> n) (ia_glob P x y)"
    "keeps (\<lambda>s. c s \<le> n) (ia_ask P q m)" "grows c 1 (ia_post P u p)"
  using assms unfolding counts_posts_def by blast+

lemma keeps_get_or [preserved]: "keeps Q (get_or x k d)"
  unfolding get_or_def by (rule keeps_or_raise)

lemma keeps_as_text [preserved]: "keeps Q (as_text v)"
  unfolding as_text_def by (cases v) auto

lemma keeps_as_key [preserved]: "keeps Q (as_key v)"
  unfolding as_key_def by auto

lemma keeps_judge_answer: "keeps Q question \<Longrightarrow> keeps Q (judge_answer P printed question)"
  unfolding judge_answer_def by (intro preserved)

lemma keeps_read_matches:
  assumes "counts_posts P c"
  shows "keeps (\<lambda>s. c s \<le> n) (read_matches P dir pattern a)" "keeps (\<lambda>s. c s \<le> n) (read_key_file P key a)"
  unfolding read_matches_def read_key_file_def by (intro preserved counts_postsD [OF assms])+

lemma keeps_collect:
  assumes "counts_posts P c"
  shows "keeps (\<lambda>s. c s \<le> n) (collect_audit_files P)"
  unfolding collect_audit_files_def read_priority_def Let_def
  by (intro preserved counts_postsD [OF assms] keeps_read_matches [OF assms])

lemma grows_open_issue: "counts_posts P c \<Longrightarrow> grows c 1 (open_issue P p)"
  unfolding open_issue_def by (intro grows_bind_first counts_postsD(8) preserved)

lemma grows_finish_run: "(\<And>r. grows c 1 (create r)) \<Longrightarrow> grows c 1 (finish_run create result)"
  unfolding finish_run_def
  by (cases result) (simp_all add: grows_return grows_if grows_bind grows_bind_first keeps_get_or keeps_return)

lemma grows_create:
  assumes "counts_posts P c"
  shows "grows c 1 (create_audit_issue P issue)" "grows c 1 (create_trend_issue P issue)"
  unfolding create_audit_issue_def create_trend_issue_def
  by (intro grows_if grows_return grows_catch grows_bind preserved counts_postsD [OF assms] grows_open_issue [OF assms])+

text \<open>C33: A run opens at most one issue: with a measure that only a post raises, and by one, a run of either agent raises it by at most
  one, whatever the services answer.\<close>

theorem one_issue_a_run:
  assumes "counts_posts P c"
  shows "grows c 1 (auditor_main P) \<and> grows c 1 (hunter_main P)"
proof
  note keep = preserved counts_postsD [OF assms]
  have drawn: "keeps (\<lambda>s. c s \<le> n) (generate_repo_structure P)" for n unfolding generate_repo_structure_def by (intro keep)
  have audit: "keeps (\<lambda>s. c s \<le> n) (analyze_architecture P st fs)" for n st fs
    unfolding analyze_architecture_def by (intro keeps_judge_answer keep)
  show "grows c 1 (auditor_main P)"
    unfolding auditor_main_def
    by (intro grows_catch grows_bind grows_if grows_return keeps_return drawn keeps_collect [OF assms] audit grows_finish_run grows_create [OF assms])
  have stories: "keeps (\<lambda>s. c s \<le> n) (fetch_hacker_news_stories P k)" for n k
    unfolding fetch_hacker_news_stories_def fetch_story_def by (intro keep)
  have articles: "keeps (\<lambda>s. c s \<le> n) (fetch_devto_articles P k)" for n k
    unfolding fetch_devto_articles_def read_article_def by (intro keep keeps_map)
  have trends: "keeps (\<lambda>s. c s \<le> n) (analyze_trends P ts)" for n ts
    unfolding analyze_trends_def by (intro keeps_judge_answer keep)
  show "grows c 1 (hunter_main P)"
    unfolding hunter_main_def Let_def
    by (intro grows_catch grows_bind grows_if grows_return keeps_return stories articles trends grows_finish_run grows_create [OF assms])
qed

text \<open>On the example the auditor posts exactly one issue.\<close>

theorem one_issue_a_run_witness:
  "auditor_main example_services 0 = (Inr 0, 1) \<and> grows (\<lambda>n. n) 1 (hunter_main example_services)"
proof
  have "counts_posts example_services (\<lambda>n. n)"
    by (simp add: counts_posts_def example_services_def keeps_return grows_def)
  then show "grows (\<lambda>n. n) 1 (hunter_main example_services)" by (rule one_issue_a_run [THEN conjunct2])
  show "auditor_main example_services 0 = (Inr 0, 1)" by code_simp
qed

end
