(* ===== verification/FrontFiles.thy ===== *)
theory FrontFiles
  imports PyJson
begin

text \<open>
  The files that \<open>scripts/agents/frontend_engine.py\<close> writes into a generated front end, as functions of the product's name, the
  Hasura end point and the Workik key. A text is the list of its lines; signs beyond Latin-1 are left out.
\<close>

definition unlines :: "string list \<Rightarrow> string" where
  "unlines ls = concat (map (\<lambda>l. l @ [CHR 0x0A]) ls)"

definition dockerfile :: "string" where
  "dockerfile = unlines
     [''# Stage 1: Dependencies'', ''FROM node:18-alpine AS deps'', ''WORKDIR /app'', [],
      ''# Install dependencies based on the preferred package manager'', ''COPY package.json package-lock.json* ./'', ''RUN npm ci'', [],
      ''# Stage 2: Build'', ''FROM node:18-alpine AS builder'', ''WORKDIR /app'', [], ''COPY --from=deps /app/node_modules ./node_modules'',
      ''COPY . .'', [], ''# Set environment variables for build'', ''ENV NEXT_TELEMETRY_DISABLED 1'', ''ENV NODE_ENV production'', [],
      ''# Build the application'', ''RUN npm run build'', [], ''# Stage 3: Runner'', ''FROM node:18-alpine AS runner'', ''WORKDIR /app'', [],
      ''ENV NODE_ENV production'', ''ENV NEXT_TELEMETRY_DISABLED 1'', [], ''# Create non-root user for security'',
      ''RUN addgroup --system --gid 1001 nodejs'', ''RUN adduser --system --uid 1001 nextjs'', [], ''# Copy built application'',
      ''COPY --from=builder /app/public ./public'', ''COPY --from=builder /app/.next/standalone ./'',
      ''COPY --from=builder /app/.next/static ./.next/static'', [], ''# Set ownership'', ''RUN chown -R nextjs:nodejs /app'', [], ''USER nextjs'',
      [], ''EXPOSE 3000'', [], ''ENV PORT 3000'', ''ENV HOSTNAME \"0.0.0.0\"'', [], ''# Health check'',
      ''HEALTHCHECK --interval=30s --timeout=3s --start-period=40s --retries=3 '' @ [CHR 0x5C],
      ''  CMD node -e \"require('' @ [CHR 0x27] @ ''http'' @ [CHR 0x27] @ '').get('' @ [CHR 0x27] @ ''http://localhost:3000/api/health'' @ [CHR 0x27] @ '', (r) => {process.exit(r.statusCode === 200 ? 0 : 1)})\"'',
      [], ''CMD [\"node\", \"server.js\"]'']"

definition env_production :: "string \<Rightarrow> string \<Rightarrow> string \<Rightarrow> string" where
  "env_production product endpoint key = unlines
     [''# Production Environment Variables'', ''# Generated by Frontend Engine - Factory Template'', [], ''# Backend API Configuration'',
      ''NEXT_PUBLIC_API_URL='' @ (if endpoint = [] then ''https://api.example.com'' else endpoint),
      ''NEXT_PUBLIC_HASURA_ENDPOINT='' @ (if endpoint = [] then ''https://hasura.example.com/v1/graphql'' else endpoint), [],
      ''# Optional: Hasura Admin Secret (use with caution in frontend)'', ''# NEXT_PUBLIC_HASURA_ADMIN_SECRET=your-hasura-admin-secret'', [],
      ''# Application Configuration'', ''NEXT_PUBLIC_APP_NAME='' @ product @ ''-web'', ''NEXT_PUBLIC_APP_VERSION=1.0.0'',
      ''NEXT_PUBLIC_ENVIRONMENT=production'', [], ''# Workik Integration (if enabled)'', ''WORKIK_API_KEY='' @ (if key = [] then [] else key), [],
      ''# Feature Flags'', ''NEXT_PUBLIC_ENABLE_ANALYTICS=false'', ''NEXT_PUBLIC_ENABLE_DEBUG=false'']"

definition nginx_conf :: "string \<Rightarrow> string \<Rightarrow> string" where
  "nginx_conf product endpoint = unlines
     [''# Nginx configuration for '' @ product @ ''-web'', ''# Optional: Use this if serving static files via nginx'', [], ''server {'',
      ''    listen 80;'', ''    server_name localhost;'', ''    root /app/public;'', [], ''    # Gzip compression'', ''    gzip on;'',
      ''    gzip_types text/plain text/css application/json application/javascript text/xml application/xml application/xml+rss text/javascript;'',
      [], ''    # Security headers'', ''    add_header X-Frame-Options \"SAMEORIGIN\" always;'',
      ''    add_header X-Content-Type-Options \"nosniff\" always;'', ''    add_header X-XSS-Protection \"1; mode=block\" always;'', [],
      ''    # API proxy to backend'', ''    location /api/ {'',
      ''        proxy_pass '' @ (if endpoint = [] then ''http://backend:8000'' else endpoint) @ ''/;'', ''        proxy_http_version 1.1;'',
      ''        proxy_set_header Upgrade $http_upgrade;'', ''        proxy_set_header Connection '' @ [CHR 0x27] @ ''upgrade'' @ [CHR 0x27] @ '';'',
      ''        proxy_set_header Host $host;'', ''        proxy_cache_bypass $http_upgrade;'', ''    }'', [], ''    # Next.js static files'',
      ''    location /_next/static/ {'', ''        alias /app/.next/static/;'', ''        expires 1y;'', ''        access_log off;'', ''    }'', [],
      ''    # Health check endpoint'', ''    location /health {'', ''        access_log off;'',
      ''        return 200 \"healthy'' @ [CHR 0x5C] @ ''n\";'', ''        add_header Content-Type text/plain;'', ''    }'', [],
      ''    # All other routes go to Next.js'', ''    location / {'', ''        proxy_pass http://localhost:3000;'',
      ''        proxy_http_version 1.1;'', ''        proxy_set_header Upgrade $http_upgrade;'',
      ''        proxy_set_header Connection '' @ [CHR 0x27] @ ''upgrade'' @ [CHR 0x27] @ '';'', ''        proxy_set_header Host $host;'',
      ''        proxy_cache_bypass $http_upgrade;'', ''    }'', ''}'']"

definition start_sh :: "string \<Rightarrow> string" where
  "start_sh product = unlines
     [''#!/bin/sh'', ''# Start script for '' @ product @ ''-web'', ''# Generated by Frontend Engine - Factory Template'', [], ''set -e'', [],
      ''echo \"Starting '' @ product @ ''-web...\"'', ''echo \"Environment: ${NODE_ENV:-development}\"'', ''echo \"Port: ${PORT:-3000}\"'', [],
      ''# Wait for backend to be ready (optional)'', ''if [ -n \"$BACKEND_URL\" ]; then'', ''    echo \"Waiting for backend at $BACKEND_URL...\"'',
      ''    until curl -f \"$BACKEND_URL/health\" > /dev/null 2>&1; do'', ''        echo \"Backend not ready, retrying in 2 seconds...\"'',
      ''        sleep 2'', ''    done'', ''    echo \"Backend is ready!\"'', ''fi'', [], ''# Start the Next.js application'', ''exec node server.js'']"

definition dockerignore :: "string" where
  "dockerignore = unlines
     [''# Dependencies'', ''node_modules'', ''npm-debug.log*'', ''yarn-debug.log*'', ''yarn-error.log*'', [], ''# Testing'', ''coverage'',
      ''.nyc_output'', [], ''# Next.js'', ''.next/'', ''out/'', [], ''# Production'', ''build'', ''dist'', [], ''# Misc'', ''.DS_Store'', ''*.pem'',
      ''.env*.local'', [], ''# Debug'', ''*.log'', ''.vscode'', ''.idea'', [], ''# Git'', ''.git'', ''.gitignore'']"

definition next_config :: "string" where
  "next_config = unlines
     [''/** @type {import('' @ [CHR 0x27] @ ''next'' @ [CHR 0x27] @ '').NextConfig} */'', ''const nextConfig = {'',
      ''  output: '' @ [CHR 0x27] @ ''standalone'' @ [CHR 0x27] @ '','', ''  reactStrictMode: true,'', ''  swcMinify: true,'', ''}'', [],
      ''module.exports = nextConfig'']"

definition health_endpoint :: "string" where
  "health_endpoint = unlines
     [''import type { NextApiRequest, NextApiResponse } from '' @ [CHR 0x27] @ ''next'' @ [CHR 0x27], [], ''type HealthResponse = {'',
      ''  status: string'', ''  timestamp: string'', ''  version: string'', ''}'', [], ''export default function handler('',
      ''  req: NextApiRequest,'', ''  res: NextApiResponse<HealthResponse>'', '') {'', ''  res.status(200).json({'',
      ''    status: '' @ [CHR 0x27] @ ''healthy'' @ [CHR 0x27] @ '','', ''    timestamp: new Date().toISOString(),'',
      ''    version: process.env.NEXT_PUBLIC_APP_VERSION || '' @ [CHR 0x27] @ ''1.0.0'' @ [CHR 0x27], ''  })'', ''}'']"

definition data_provider :: "string \<Rightarrow> string" where
  "data_provider endpoint = unlines
     [''import { dataProvider as simpleRestProvider } from \"@refinedev/simple-rest\";'', [], ''// Configure Hasura GraphQL endpoint'',
      ''const HASURA_ENDPOINT = process.env.NEXT_PUBLIC_HASURA_ENDPOINT || \"'' @ endpoint @ ''\";'', [],
      ''// Create data provider with Hasura configuration'', ''export const dataProvider = simpleRestProvider(HASURA_ENDPOINT);'', [],
      ''// For GraphQL implementation, you would use:'', ''// import { GraphQLClient } from \"graphql-request\";'',
      ''// const client = new GraphQLClient(HASURA_ENDPOINT, {'', ''//   headers: {'',
      ''//     \"x-hasura-admin-secret\": process.env.NEXT_PUBLIC_HASURA_ADMIN_SECRET || \"\",'', ''//   },'', ''// });'']"

definition env_template :: "string \<Rightarrow> string \<Rightarrow> string" where
  "env_template endpoint key = unlines
     [''# Hasura Configuration'', ''NEXT_PUBLIC_HASURA_ENDPOINT='' @ endpoint, ''NEXT_PUBLIC_HASURA_ADMIN_SECRET=your-hasura-admin-secret'', [],
      ''# Workik Integration'', ''WORKIK_API_KEY='' @ (if key = [] then ''your-workik-api-key'' else key)]"

definition app_code :: "string \<Rightarrow> string \<Rightarrow> string" where
  "app_code imports definitions = unlines
     [''import { Refine } from \"@refinedev/core\";'', ''import { RefineThemes, ThemedLayoutV2, notificationProvider } from \"@refinedev/antd\";'',
      ''import routerProvider from \"@refinedev/nextjs-router\";'', ''import { ConfigProvider } from \"antd\";'',
      ''import { dataProvider } from \"./providers/data\";'', [], imports, [], ''function App() {'', ''  return ('',
      ''    <ConfigProvider theme={RefineThemes.Blue}>'', ''      <Refine'', ''        routerProvider={routerProvider}'',
      ''        dataProvider={dataProvider}'', ''        notificationProvider={notificationProvider}'', ''        resources={['',
      ''      '' @ definitions, ''        ]}'', ''      >'', ''        <ThemedLayoutV2>'',
      ''          {/* Refine handles routing automatically based on resources */}'', ''        </ThemedLayoutV2>'', ''      </Refine>'',
      ''    </ConfigProvider>'', ''  );'', ''}'', [], ''export default App;'']"

definition list_page :: "string \<Rightarrow> string" where
  "list_page label = unlines
     [''import { AntdInferencer } from \"@refinedev/inferencer/antd\";'', [], ''export default function '' @ label @ ''List() {'',
      ''  return <AntdInferencer />;'', ''}'', [], ''// After the inferencer generates the code, you can:'', ''// 1. Copy the generated code'',
      ''// 2. Replace <AntdInferencer /> with the actual implementation'', ''// 3. Customize as needed'']"

definition show_page :: "string \<Rightarrow> string" where
  "show_page label = unlines
     [''import { AntdInferencer } from \"@refinedev/inferencer/antd\";'', [], ''export default function '' @ label @ ''Show() {'',
      ''  return <AntdInferencer />;'', ''}'']"

definition edit_page :: "string \<Rightarrow> string" where
  "edit_page label = unlines
     [''import { AntdInferencer } from \"@refinedev/inferencer/antd\";'', [], ''export default function '' @ label @ ''Edit() {'',
      ''  return <AntdInferencer />;'', ''}'']"

definition create_page :: "string \<Rightarrow> string" where
  "create_page label = unlines
     [''import { AntdInferencer } from \"@refinedev/inferencer/antd\";'', [], ''export default function '' @ label @ ''Create() {'',
      ''  return <AntdInferencer />;'', ''}'']"

definition workik_context :: "string \<Rightarrow> string \<Rightarrow> string \<Rightarrow> string \<Rightarrow> string" where
  "workik_context product endpoint resources stamp = unlines
     [''# Workik Context - '' @ product, [], ''## Project Overview'',
      ''This is an auto-generated frontend for the '' @ product @ '' product using Refine, Hasura, and Ant Design.'', [], ''## Resources'',
      ''The following resources are available in this application:'', [], resources, [], ''## Data Provider'', ''- **Backend**: Hasura GraphQL'',
      ''- **Endpoint**: '' @ endpoint, ''- **Framework**: Refine v4'', ''- **UI Library**: Ant Design v5'', [], ''## Auto-Generation'',
      ''This context file is automatically updated by the Frontend Engine during:'', ''- Initial scaffolding (--mode init)'',
      ''- Backend synchronization (--mode sync)'', [],
      ''**NOTE**: Update '' @ [CHR 0x60] @ ''.workik/context.md'' @ [CHR 0x60] @ '' with the new Resource list after every sync.'', [],
      ''Last updated: '' @ stamp]"

definition lovable_readme :: "string" where
  "lovable_readme = unlines
     [''# Lovable Integration'', [], ''This project is configured to work with Lovable for design system synchronization.'', [], ''## Setup'', [],
      ''1. Go to [Lovable.dev](https://lovable.dev)'', ''2. Navigate to Settings  Integrations  GitHub'',
      ''3. Install the Lovable App for this repository'', ''4. When code is pushed to GitHub, Lovable automatically syncs the changes'', [],
      ''## Configuration'', [], ''The '' @ [CHR 0x60] @ ''lovable-config.json'' @ [CHR 0x60] @ '' file contains the design system configuration.'',
      ''Modify this file to customize the UI theme and styling preferences.'', [], ''## Sync Workflow'', [],
      ''1. Code changes are committed to this repository'', ''2. GitHub App integration detects the changes'',
      ''3. Lovable automatically syncs and applies the design system'', ''4. Review the UI updates in your Lovable project dashboard'']"

definition initial_package :: "string \<Rightarrow> py_val" where
  "initial_package product =
     PDict [(''name'', PStr (product @ ''-web'')), (''version'', PStr ''0.1.0''), (''private'', PBool True), (''scripts'', PDict [(''dev'',
      PStr ''next dev''), (''build'', PStr ''next build''), (''start'', PStr ''next start''), (''lint'', PStr ''next lint'')]),
      (''dependencies'', PDict [(''@refinedev/core'', PStr ''^4.47.1''), (''@refinedev/nextjs-router'', PStr ''^1.0.0''), (''@refinedev/antd'',
      PStr ''^5.37.4''), (''@refinedev/inferencer'', PStr ''^4.5.18''), (''@refinedev/simple-rest'', PStr ''^4.5.4''), (''next'',
      PStr ''14.0.4''), (''react'', PStr ''^18.2.0''), (''react-dom'', PStr ''^18.2.0''), (''antd'', PStr ''^5.12.0'')]), (''devDependencies'',
      PDict [(''@types/node'', PStr ''^20''), (''@types/react'', PStr ''^18''), (''@types/react-dom'', PStr ''^18''), (''typescript'',
      PStr ''^5'')])]"

definition tsconfig :: "py_val" where
  "tsconfig =
     PDict [(''compilerOptions'', PDict [(''target'', PStr ''es5''), (''lib'', PList [PStr ''dom'', PStr ''dom.iterable'', PStr ''esnext'']),
      (''allowJs'', PBool True), (''skipLibCheck'', PBool True), (''strict'', PBool True), (''forceConsistentCasingInFileNames'', PBool True),
      (''noEmit'', PBool True), (''esModuleInterop'', PBool True), (''module'', PStr ''esnext''), (''moduleResolution'', PStr ''bundler''),
      (''resolveJsonModule'', PBool True), (''isolatedModules'', PBool True), (''jsx'', PStr ''preserve''), (''incremental'', PBool True),
      (''paths'', PDict [(''@/*'', PList [PStr ''./src/*''])])]), (''include'', PList [PStr ''next-env.d.ts'', PStr ''**/*.ts'',
      PStr ''**/*.tsx'']), (''exclude'', PList [PStr ''node_modules''])]"

definition lovable_config :: "string \<Rightarrow> py_val" where
  "lovable_config product =
     PDict [(''version'', PStr ''1.0.0''), (''project_name'', PStr (product @ ''-web'')), (''design_system'', PStr ''BillyRonks-Unified-V3''),
      (''ui_framework'', PStr ''antd''), (''theme'', PDict [(''primary_color'', PStr ''#1890ff''), (''layout'', PStr ''sidebar''), (''mode'',
      PStr ''light'')]), (''sync'', PDict [(''enabled'', PBool True), (''auto_sync'', PBool True), (''github_integration'', PBool True)]),
      (''notes'', PStr ''This is a placeholder for future UI styling integration with Lovable'')]"

end
