(* ===== verification/TextEdit.thy ===== *)
theory TextEdit
  imports PyJson "HOL-Library.Sublist"
begin

text \<open>
  What \<open>str.replace\<close> does to a text: what it keeps, what it inserts, and which occurrences of another text it leaves alone.
\<close>

text \<open>Text that is replaced by a text that holds it stays, in the same order.\<close>

lemma replace_skip_subseq:
  assumes "old \<noteq> []" and "subseq old new"
  shows "subseq (drop k s) (replace_skip k old new s)"
  using assms
proof (induction k old new s rule: replace_skip.induct)
  case (3 old new c s)
  show ?case
  proof (cases "startswith old (c # s)")
    case True
    then obtain t where t: "c # s = old @ t" unfolding startswith_iff by blast
    then have "drop (length old - 1) s = t" using 3(3) by (cases old) auto
    with 3 True t have "subseq t (replace_skip (length old - 1) old new s)" by metis
    with t 3(4) have "subseq (c # s) (new @ replace_skip (length old - 1) old new s)" by (simp add: list_emb_append_mono)
    with True show ?thesis by simp
  qed (use 3 in simp)
qed auto

lemma py_replace_subseq: "old \<noteq> [] \<Longrightarrow> subseq old new \<Longrightarrow> subseq s (py_replace old new s)"
  using replace_skip_subseq [of old new 0 s] by (simp add: py_replace_def)

text \<open>An occurrence is replaced.\<close>

lemma substring_appendI [intro]: "substring p s \<Longrightarrow> substring p (a @ s)" "substring p a \<Longrightarrow> substring p (a @ s)"
  unfolding substring_iff by (metis append.assoc)+

lemma substring_self [simp]: "substring p p"
  unfolding substring_iff by (metis append_Nil append_Nil2)

lemma substring_middle: "substring p (a @ p @ b)"
  unfolding substring_iff by blast

lemma py_replace_inserts: "old \<noteq> [] \<Longrightarrow> substring old s \<Longrightarrow> substring new (py_replace old new s)"
  unfolding py_replace_def
proof (induction s)
  case (Cons c s)
  show ?case
  proof (cases "startswith old (c # s)")
    case False
    with Cons have "substring new (replace_skip 0 old new s)" by simp
    with False show ?thesis by simp
  qed auto
qed simp

text \<open>Texts that cannot overlap: no end of one is a beginning of the other, and neither holds the other.\<close>

definition agree :: "string \<Rightarrow> string \<Rightarrow> bool" where
  "agree a b \<longleftrightarrow> take (length b) a = take (length a) b"

definition apart :: "string \<Rightarrow> string \<Rightarrow> bool" where
  "apart a b \<longleftrightarrow> list_all (\<lambda>i. \<not> agree (drop i a) b) [0..<length a] \<and> list_all (\<lambda>i. \<not> agree (drop i b) a) [0..<length b]"

lemma startswith_agree: "startswith a (b @ s) \<Longrightarrow> agree b a"
  by (auto simp: startswith_def agree_def) (metis take_take min.commute append_eq_conv_conj take_append)

lemma replace_passes:
  assumes "\<And>i. i < length x \<Longrightarrow> \<not> startswith old (drop i x @ b)"
  shows "replace_skip 0 old new (x @ b) = x @ replace_skip 0 old new b"
  using assms
proof (induction x)
  case (Cons c x)
  have "\<not> startswith old (c # x @ b)" using Cons.prems [of 0] by simp
  moreover have "\<not> startswith old (drop i x @ b)" if "i < length x" for i using Cons.prems [of "Suc i"] that by simp
  ultimately show ?case using Cons.IH by simp
qed simp

text \<open>An occurrence before a text that no end of it can begin lies before that text.\<close>

lemma occurrence_before:
  assumes "startswith old ((c # a) @ x @ b)" and "\<And>i. 0 < i \<Longrightarrow> i < length old \<Longrightarrow> \<not> agree (drop i old) x"
  shows "length old - 1 \<le> length a"
proof (rule ccontr)
  assume h: "\<not> length old - 1 \<le> length a"
  then have n: "length (c # a) < length old" by simp
  have "take (length old) ((c # a) @ x @ b) = old" using assms(1) by (simp add: startswith_def)
  then have "drop (length (c # a)) old = take (length old - length (c # a)) (x @ b)"
    by (metis append_eq_conv_conj drop_take)
  moreover have "take (length x) (take m (x @ b)) = take m x" for m by (cases "m \<le> length x") simp_all
  ultimately have "agree (drop (length (c # a)) old) x" unfolding agree_def by (metis length_drop)
  with assms(2) n show False by auto
qed

lemma replace_skip_keeps:
  assumes "apart old x" and "k \<le> length a"
  shows "substring x (replace_skip k old new (a @ x @ b))"
  using assms(2)
proof (induction a arbitrary: k)
  case Nil
  have "\<not> startswith old (drop i x @ b)" if "i < length x" for i
    using assms(1) startswith_agree [of old "drop i x" b] that by (auto simp: apart_def list_all_iff)
  then show ?case using replace_passes [of x old b new] Nil by auto
next
  case (Cons c a)
  show ?case
  proof (cases k)
    case 0
    show ?thesis
    proof (cases "startswith old (c # a @ x @ b)")
      case True
      have "length old - 1 \<le> length a"
        using occurrence_before [of old c a x b] True assms(1) by (auto simp: apart_def list_all_iff)
      with True 0 Cons.IH show ?thesis by auto
    next
      case False
      with 0 Cons.IH [of 0] show ?thesis by simp
    qed
  next
    case (Suc j)
    with Cons show ?thesis by simp
  qed
qed

lemma py_replace_keeps: "apart old x \<Longrightarrow> substring x s \<Longrightarrow> substring x (py_replace old new s)"
  unfolding py_replace_def substring_iff [of x s] using replace_skip_keeps [where k = 0] by auto

text \<open>What stands before a replaced text stays before its replacement.\<close>

lemma replace_skip_context:
  assumes "\<And>i. i < length u \<Longrightarrow> \<not> agree (drop i (u @ old)) old" and "\<And>i. 0 < i \<Longrightarrow> i < length old \<Longrightarrow> \<not> agree (drop i old) (u @ old)"
    and "old \<noteq> []" and "k \<le> length a"
  shows "substring (u @ new) (replace_skip k old new (a @ u @ old @ b))"
  using assms(4)
proof (induction a arbitrary: k)
  case Nil
  have "\<not> startswith old (drop i u @ old @ b)" if "i < length u" for i
    using assms(1) [OF that] startswith_agree [of old "drop i u @ old" b] that by auto
  moreover have "replace_skip 0 old new (old @ b) = new @ replace_skip (length old - 1) old new (drop 1 (old @ b))"
    using assms(3) by (cases old) simp_all
  ultimately have "replace_skip 0 old new (u @ old @ b) = (u @ new) @ replace_skip (length old - 1) old new (drop 1 (old @ b))"
    using replace_passes [of u old "old @ b" new] by simp
  then show ?case using Nil by (metis append_Nil le_0_eq list.size(3) substring_appendI(2) substring_self)
next
  case (Cons c a)
  show ?case
  proof (cases k)
    case 0
    show ?thesis
    proof (cases "startswith old (c # a @ u @ old @ b)")
      case True
      have "length old - 1 \<le> length a"
        using occurrence_before [of old c a "u @ old" b] True assms(2) by simp
      with True 0 Cons.IH show ?thesis by auto
    next
      case False
      with 0 Cons.IH [of 0] show ?thesis by simp
    qed
  next
    case (Suc j)
    with Cons show ?thesis by simp
  qed
qed

definition fits :: "string \<Rightarrow> string \<Rightarrow> bool" where
  "fits u old \<longleftrightarrow> old \<noteq> [] \<and> list_all (\<lambda>i. \<not> agree (drop i (u @ old)) old) [0..<length u]
     \<and> list_all (\<lambda>i. \<not> agree (drop i old) (u @ old)) [1..<length old]"

lemma py_replace_context: "fits u old \<Longrightarrow> substring (u @ old) s \<Longrightarrow> substring (u @ new) (py_replace old new s)"
  unfolding py_replace_def substring_iff [of "u @ old" s]
  using replace_skip_context [of u old 0] by (auto simp: fits_def list_all_iff)

end
