(* ===== verification/FrontEngine.thy ===== *)
theory FrontEngine
  imports FrontFiles TextEdit Engines RepoAgents
begin

text \<open>
  The frontend engine \<open>scripts/agents/frontend_engine.py\<close>: it reads the entities of the backend, writes a front end for them
  (\<open>--mode init\<close>), and later adds what is new without touching the code that is there (\<open>--mode sync\<close>). The file system, the
  clock and \<open>json\<close> are parameters. A label is the text its format string shows.
\<close>

record resource =
  rs_name :: string
  rs_label :: string

record front_config =
  fc_product :: string
  fc_endpoint :: string
  fc_key :: string

record 'w front_ports =
  fp_root :: string
  fp_exists :: "string \<Rightarrow> ('w, string, bool) eff"
  fp_read :: "string \<Rightarrow> ('w, string, string) eff"
  fp_write :: "string \<Rightarrow> string \<Rightarrow> ('w, string, unit) eff"
  fp_mkdir :: "string \<Rightarrow> ('w, string, unit) eff"
  fp_chmod :: "string \<Rightarrow> nat \<Rightarrow> ('w, string, unit) eff"
  fp_utc :: "('w, string, string \<times> string) eff"
  fp_stamp :: "('w, string, string) eff"
  fp_loads :: "string \<Rightarrow> py_val option"
  fp_dumps :: "py_val \<Rightarrow> string"
  fp_str :: "py_val \<Rightarrow> string"

text \<open>\<open>argument or os.getenv(name, "")\<close>.\<close>

definition or_env :: "string option \<Rightarrow> string option \<Rightarrow> string" where
  "or_env arg env = (if truthy arg then the arg else case env of Some e \<Rightarrow> e | None \<Rightarrow> [])"

definition in_root :: "'w front_ports \<Rightarrow> string \<Rightarrow> string" where
  "in_root P p = fp_root P @ ''/'' @ p"

definition in_front :: "'w front_ports \<Rightarrow> string \<Rightarrow> string" where
  "in_front P p = in_root P (''frontend/web/'' @ p)"

definition app_file :: "'w front_ports \<Rightarrow> string" where
  "app_file P = in_front P ''src/App.tsx''"


section \<open>Regular expressions\<close>

text \<open>\<open>\w\<close> on the characters of the model.\<close>

definition is_word :: "char \<Rightarrow> bool" where
  "is_word c \<longleftrightarrow> (let n = char_code c in
     (48 \<le> n \<and> n \<le> 57) \<or> (65 \<le> n \<and> n \<le> 90) \<or> n = 95 \<or> (97 \<le> n \<and> n \<le> 122)
     \<or> n \<in> {170, 178, 179, 181, 185, 186, 188, 189, 190} \<or> (192 \<le> n \<and> n \<noteq> 215 \<and> n \<noteq> 247))"

text \<open>\<open>re.finditer\<close>: a match gives its group and its length; the number counts what is left of the last match.\<close>

fun find_iter :: "(string \<Rightarrow> ('a \<times> nat) option) \<Rightarrow> nat \<Rightarrow> string \<Rightarrow> 'a list" where
  "find_iter m k [] = []"
| "find_iter m (Suc k) (c # s) = find_iter m k s"
| "find_iter m 0 (c # s) =
     (case m (c # s) of None \<Rightarrow> find_iter m 0 s | Some (x, n) \<Rightarrow> x # find_iter m (n - 1) s)"

text \<open>\<open>type\s+(\w+)\s*\{\<close>: no repetition can end elsewhere, since the classes are disjoint.\<close>

definition type_match :: "string \<Rightarrow> (string \<times> nat) option" where
  "type_match s =
     (let r = drop 4 s; sp = takeWhile is_space r; r1 = dropWhile is_space r; w = takeWhile is_word r1;
          r2 = dropWhile is_word r1; sp2 = takeWhile is_space r2; r3 = dropWhile is_space r2 in
      if startswith ''type'' s \<and> sp \<noteq> [] \<and> w \<noteq> [] \<and> startswith ''{'' r3
      then Some (w, 4 + length sp + length w + length sp2 + 1) else None)"

definition is_quote :: "char \<Rightarrow> bool" where
  "is_quote c \<longleftrightarrow> c = CHR 0x22 \<or> c = CHR 0x27"

text \<open>\<open>name:\s*["'](\w+)["']\<close>.\<close>

definition name_match :: "string \<Rightarrow> (string \<times> nat) option" where
  "name_match s =
     (let r = drop 5 s; sp = takeWhile is_space r; r1 = dropWhile is_space r; w = takeWhile is_word (tl r1);
          r2 = dropWhile is_word (tl r1) in
      if startswith ''name:'' s \<and> r1 \<noteq> [] \<and> is_quote (hd r1) \<and> w \<noteq> [] \<and> r2 \<noteq> [] \<and> is_quote (hd r2)
      then Some (w, 5 + length sp + 1 + length w + 1) else None)"


section \<open>The scanner\<close>

definition read_entity :: "py_val \<Rightarrow> ('w, string, py_val \<times> py_val) eff" where
  "read_entity e =
     eff_bind (getv e ''name'' (PStr [])) (\<lambda>n.
     eff_bind (getv e ''label'' n) (\<lambda>l. eff_return (n, l)))"

definition parse_domain_model :: "'w front_ports \<Rightarrow> string \<Rightarrow> ('w, string, (py_val \<times> py_val) list) eff" where
  "parse_domain_model P path =
     eff_catch
       (eff_bind (fp_read P path) (\<lambda>t.
        eff_bind (or_raise ''JSONDecodeError'' (fp_loads P t)) (\<lambda>data.
        eff_bind (getv data ''entities'' (PList [])) (\<lambda>es.
        eff_bind (or_raise ''TypeError'' (iterate es)) (eff_map read_entity)))))
       (\<lambda>_. eff_return [])"

definition schema_types :: "string \<Rightarrow> (py_val \<times> py_val) list" where
  "schema_types t =
     map (\<lambda>w. (PStr (py_lower w), PStr w))
       (filter (\<lambda>w. \<not> startswith ''__'' w \<and> w \<notin> {''Query'', ''Mutation'', ''Subscription''}) (find_iter type_match 0 t))"

definition parse_graphql_schema :: "'w front_ports \<Rightarrow> string \<Rightarrow> ('w, string, (py_val \<times> py_val) list) eff" where
  "parse_graphql_schema P path =
     eff_catch (eff_bind (fp_read P path) (\<lambda>t. eff_return (schema_types t))) (\<lambda>_. eff_return [])"

definition example_resources :: "(py_val \<times> py_val) list" where
  "example_resources =
     [(PStr ''products'', PStr ''Products''), (PStr ''orders'', PStr ''Orders''), (PStr ''customers'', PStr ''Customers'')]"

text \<open>The names are joined for a message, which raises for a name that is no string.\<close>

definition named :: "'w front_ports \<Rightarrow> py_val \<times> py_val \<Rightarrow> ('w, string, resource) eff" where
  "named P r =
     (case fst r of
        PStr n \<Rightarrow> eff_return \<lparr>rs_name = n, rs_label = (case snd r of PStr l \<Rightarrow> l | v \<Rightarrow> fp_str P v)\<rparr>
      | _ \<Rightarrow> eff_raise ''TypeError'')"

definition scan_backend_schema :: "'w front_ports \<Rightarrow> ('w, string, resource list) eff" where
  "scan_backend_schema P =
     (let model = in_root P ''backend/domain_model.json''; schema = in_root P ''backend/hasura/schema.graphql'' in
      eff_bind (fp_exists P model) (\<lambda>e.
      eff_bind (if e then parse_domain_model P model
                else eff_bind (fp_exists P schema) (\<lambda>g.
                  if g then parse_graphql_schema P schema else eff_return example_resources)) (eff_map (named P))))"


section \<open>Scaffolding\<close>

definition write_front :: "'w front_ports \<Rightarrow> string \<Rightarrow> string \<Rightarrow> ('w, string, unit) eff" where
  "write_front P p t = fp_write P (in_front P p) t"

definition generate_deployment_assets :: "front_config \<Rightarrow> 'w front_ports \<Rightarrow> ('w, string, unit) eff" where
  "generate_deployment_assets E P =
     eff_then (write_front P ''Dockerfile'' dockerfile)
    (eff_then (write_front P ''.env.production'' (env_production (fc_product E) (fc_endpoint E) (fc_key E)))
    (eff_then (write_front P ''nginx.conf'' (nginx_conf (fc_product E) (fc_endpoint E)))
    (eff_then (write_front P ''start.sh'' (start_sh (fc_product E)))
    (eff_then (fp_chmod P (in_front P ''start.sh'') 493)
    (eff_then (write_front P ''.dockerignore'' dockerignore)
    (eff_then (write_front P ''next.config.js'' next_config)
    (eff_then (fp_mkdir P (in_front P ''src/pages/api''))
              (write_front P ''src/pages/api/health.ts'' health_endpoint))))))))"

definition scaffold_dirs :: "string list" where
  "scaffold_dirs = [''src/pages'', ''src/providers'', ''src/components'', ''public'', ''.workik'']"

definition create_scaffold_structure :: "front_config \<Rightarrow> 'w front_ports \<Rightarrow> ('w, string, unit) eff" where
  "create_scaffold_structure E P =
     eff_then (eff_for scaffold_dirs (\<lambda>d. fp_mkdir P (in_front P d)))
    (eff_then (generate_deployment_assets E P)
    (eff_then (write_front P ''package.json'' (fp_dumps P (initial_package (fc_product E))))
              (write_front P ''tsconfig.json'' (fp_dumps P tsconfig))))"

definition rename_project :: "front_config \<Rightarrow> 'w front_ports \<Rightarrow> ('w, string, unit) eff" where
  "rename_project E P =
     (let f = in_front P ''package.json'' in
      eff_bind (fp_exists P f) (\<lambda>e.
        if \<not> e then eff_return ()
        else
          eff_bind (fp_read P f) (\<lambda>t.
          eff_bind (or_raise ''JSONDecodeError'' (fp_loads P t)) (\<lambda>data.
          eff_bind (set_key ''name'' (PStr (''billyronks-'' @ fc_product E @ ''-web'')) data) (\<lambda>d. fp_write P f (fp_dumps P d))))))"

definition configure_data_provider :: "front_config \<Rightarrow> 'w front_ports \<Rightarrow> ('w, string, unit) eff" where
  "configure_data_provider E P =
     eff_then (fp_mkdir P (in_front P ''src/providers''))
    (eff_then (write_front P ''src/providers/data.ts'' (data_provider (fc_endpoint E)))
              (write_front P ''.env.local.template'' (env_template (fc_endpoint E) (fc_key E))))"

definition import_line :: "resource \<Rightarrow> string" where
  "import_line r = ''import { '' @ rs_label r @ ''List } from \"./pages/'' @ rs_name r @ ''/list\";''"

definition definition_text :: "resource \<Rightarrow> string" where
  "definition_text r =
     join_with [newline]
       [''{'', ''        name: \"'' @ rs_name r @ ''\",'', ''        list: \"/'' @ rs_name r @ ''\",'', ''        meta: {'',
        ''          label: \"'' @ rs_label r @ ''\",'', ''        },'', ''      }'']"

definition imports_text :: "resource list \<Rightarrow> string" where
  "imports_text rs = join_with [newline] (map import_line rs)"

definition definitions_text :: "resource list \<Rightarrow> string" where
  "definitions_text rs = join_with ('','' @ [newline] @ ''      '') (map definition_text rs)"

definition app_tsx :: "resource list \<Rightarrow> string" where
  "app_tsx rs = app_code (imports_text rs) (definitions_text rs)"

definition generate_app_tsx :: "'w front_ports \<Rightarrow> resource list \<Rightarrow> ('w, string, unit) eff" where
  "generate_app_tsx P rs = eff_then (fp_mkdir P (in_front P ''src'')) (fp_write P (app_file P) (app_tsx rs))"

definition page_texts :: "resource \<Rightarrow> (string \<times> string) list" where
  "page_texts r =
     [(''list.tsx'', list_page (rs_label r)), (''show.tsx'', show_page (rs_label r)), (''edit.tsx'', edit_page (rs_label r)),
      (''create.tsx'', create_page (rs_label r))]"

definition resource_dir :: "'w front_ports \<Rightarrow> resource \<Rightarrow> string" where
  "resource_dir P r = under (in_front P ''src/pages'') (rs_name r)"

definition generate_resource_pages :: "'w front_ports \<Rightarrow> resource list \<Rightarrow> ('w, string, unit) eff" where
  "generate_resource_pages P rs =
     eff_for rs (\<lambda>r.
       eff_then (fp_mkdir P (resource_dir P r))
         (eff_for (page_texts r) (\<lambda>(f, t). fp_write P (resource_dir P r @ ''/'' @ f) t)))"

definition setup_workik :: "front_config \<Rightarrow> 'w front_ports \<Rightarrow> resource list \<Rightarrow> ('w, string, unit) eff" where
  "setup_workik E P rs =
     eff_then (fp_mkdir P (in_front P ''.workik''))
       (eff_bind (fp_stamp P) (\<lambda>t.
          write_front P ''.workik/context.md''
            (workik_context (fc_product E) (fc_endpoint E)
              (join_with [newline] (map (\<lambda>r. ''- '' @ rs_label r @ '' ('' @ rs_name r @ '')'') rs)) t)))"

definition setup_lovable :: "front_config \<Rightarrow> 'w front_ports \<Rightarrow> ('w, string, unit) eff" where
  "setup_lovable E P =
     eff_then (write_front P ''lovable-config.json'' (fp_dumps P (lovable_config (fc_product E))))
       (write_front P ''LOVABLE_INTEGRATION.md'' lovable_readme)"

text \<open>The entry goes into the table of \<open>docs/AI_CHANGELOG.md\<close>, as for the other agents.\<close>

definition log_front :: "'w front_ports \<Rightarrow> string \<Rightarrow> string \<Rightarrow> string \<Rightarrow> ('w, string, unit) eff" where
  "log_front P target action details =
     eff_bind (fp_utc P) (\<lambda>(d, t).
       let entry = ''| '' @ join_with '' | '' [d, t, ''Frontend Engine'', target, action, details] @ '' |'';
           f = in_root P ''docs/AI_CHANGELOG.md'' in
       eff_catch (eff_bind (fp_read P f) (\<lambda>c. fp_write P f (insert_entry entry c))) (\<lambda>_. eff_return ()))"

definition hasura_patterns :: "string list" where
  "hasura_patterns =
     [''HASURA_ENDPOINT'', ''NEXT_PUBLIC_HASURA_ENDPOINT'', ''HASURA_PROJECT_ENDPOINT'', ''process.env.NEXT_PUBLIC_HASURA'']"

definition verify_handshake :: "'w front_ports \<Rightarrow> ('w, string, bool) eff" where
  "verify_handshake P =
     (let f = in_front P ''src/providers/data.ts'';
          say = (\<lambda>ok details. eff_then (log_front P ''src/providers/data.ts'' ''VERIFY'' details) (eff_return ok)) in
      eff_bind (fp_exists P f) (\<lambda>e.
        if \<not> e then say False ''Handshake verification failed - data provider file not found''
        else
          eff_catch
            (eff_bind (fp_read P f) (\<lambda>c.
               if list_ex (\<lambda>p. substring p c) hasura_patterns
               then say True ''Handshake verification passed - backend connection properly configured''
               else say False ''Handshake verification failed - no Hasura endpoint reference found''))
            (\<lambda>x. say False (''Handshake verification error: '' @ x))))"

definition front_target :: "front_config \<Rightarrow> string" where
  "front_target E = ''frontend/web (product: '' @ fc_product E @ '')''"

definition mode_init :: "front_config \<Rightarrow> 'w front_ports \<Rightarrow> ('w, string, unit) eff" where
  "mode_init E P =
     eff_then (create_scaffold_structure E P)
    (eff_then (rename_project E P)
    (eff_then (configure_data_provider E P)
    (eff_bind (scan_backend_schema P) (\<lambda>rs.
     eff_then (generate_app_tsx P rs)
    (eff_then (generate_resource_pages P rs)
    (eff_then (setup_workik E P rs)
    (eff_then (setup_lovable E P)
    (eff_then (verify_handshake P)
              (log_front P (front_target E) ''GENERATE''
                ''Generated deployment-ready frontend scaffold (Dockerfile, .env.production, nginx.conf, health endpoint)'')))))))))"


section \<open>Synchronisation\<close>

definition required_files :: "string list" where
  "required_files = [''package.json'', ''src/App.tsx'']"

definition verify_existing_frontend :: "'w front_ports \<Rightarrow> ('w, string, unit) eff" where
  "verify_existing_frontend P =
     eff_for required_files (\<lambda>f. eff_bind (fp_exists P (in_front P f)) (\<lambda>e. if e then eff_return () else eff_raise ''SystemExit''))"

definition existing_names :: "string \<Rightarrow> string list" where
  "existing_names content = find_iter name_match 0 content"

definition get_existing_resources :: "'w front_ports \<Rightarrow> ('w, string, string list) eff" where
  "get_existing_resources P =
     eff_bind (fp_exists P (app_file P)) (\<lambda>e.
       if \<not> e then eff_return []
       else eff_catch (eff_bind (fp_read P (app_file P)) (\<lambda>c. eff_return (existing_names c))) (\<lambda>_. eff_return []))"

definition detect_new_resources :: "string list \<Rightarrow> resource list \<Rightarrow> resource list" where
  "detect_new_resources existing rs = filter (\<lambda>r. rs_name r \<notin> set existing) rs"

definition import_marker :: string where
  "import_marker = ''// AUTO-GENERATED IMPORTS - DO NOT REMOVE THIS LINE''"

definition resource_marker :: string where
  "resource_marker = ''        // AUTO-GENERATED RESOURCES - DO NOT REMOVE THIS LINE''"

definition array_end :: string where
  "array_end = ''        ]}'' @ [newline] @ ''      >''"

definition add_imports :: "string \<Rightarrow> string \<Rightarrow> string" where
  "add_imports imports content =
     (let c = (if substring import_marker content then content
               else py_replace ''function App()'' ([newline] @ import_marker @ [newline] @ ''function App()'') content) in
      py_replace import_marker (imports @ [newline] @ import_marker) c)"

text \<open>The marker is looked for without the spaces before it, and replaced with them.\<close>

definition add_definitions :: "string \<Rightarrow> string \<Rightarrow> string" where
  "add_definitions definitions content =
     (let c = (if substring (drop 8 resource_marker) content then content
               else py_replace array_end (resource_marker @ [newline] @ array_end) content) in
      py_replace resource_marker (''      '' @ definitions @ '','' @ [newline] @ resource_marker) c)"

definition update_app :: "string \<Rightarrow> resource list \<Rightarrow> string" where
  "update_app content rs = add_definitions (definitions_text rs) (add_imports (imports_text rs) content)"

definition update_app_tsx_safely :: "'w front_ports \<Rightarrow> resource list \<Rightarrow> ('w, string, unit) eff" where
  "update_app_tsx_safely P rs = eff_bind (fp_read P (app_file P)) (\<lambda>c. fp_write P (app_file P) (update_app c rs))"

definition nat_text :: "'w front_ports \<Rightarrow> nat \<Rightarrow> string" where
  "nat_text P n = fp_str P (PInt (int n))"

definition mode_sync :: "front_config \<Rightarrow> 'w front_ports \<Rightarrow> ('w, string, unit) eff" where
  "mode_sync E P =
     eff_bind (fp_exists P (in_root P ''frontend/web'')) (\<lambda>e.
       if \<not> e then eff_raise ''SystemExit''
       else
         eff_then (verify_existing_frontend P)
        (eff_bind (scan_backend_schema P) (\<lambda>rs.
         eff_bind (get_existing_resources P) (\<lambda>old.
           let new = detect_new_resources old rs in
           if new = [] then eff_return ()
           else
             eff_then (eff_for new (\<lambda>r. generate_resource_pages P [r]))
            (eff_then (update_app_tsx_safely P new)
            (eff_then (setup_workik E P rs)
            (eff_then (verify_handshake P)
                      (log_front P (front_target E) ''SYNC''
                        (''Synchronized frontend with backend changes ('' @ nat_text P (length new) @ '' new resources added)'')))))))))"

definition run_front :: "string \<Rightarrow> front_config \<Rightarrow> 'w front_ports \<Rightarrow> ('w, string, unit) eff" where
  "run_front mode E P =
     (if mode = ''init'' then mode_init E P else if mode = ''sync'' then mode_sync E P else eff_raise ''SystemExit'')"

text \<open>The command line: arguments come before the environment.\<close>

definition front_main ::
  "string \<Rightarrow> string \<Rightarrow> string option \<Rightarrow> string option \<Rightarrow> string option \<Rightarrow> string option \<Rightarrow> 'w front_ports \<Rightarrow> ('w, string, unit) eff" where
  "front_main mode product endpoint key env_endpoint env_key P =
     run_front mode \<lparr>fc_product = product, fc_endpoint = or_env endpoint env_endpoint, fc_key = or_env key env_key\<rparr> P"


section \<open>Names in the code\<close>

text \<open>A match is found when no earlier one covers its start.\<close>

lemma find_iter_hit:
  assumes "m (drop i s) = Some (x, n)" and "k \<le> i" "i < length s"
    and "\<And>j y l. j < i \<Longrightarrow> m (drop j s) = Some (y, l) \<Longrightarrow> j + l \<le> i"
  shows "x \<in> set (find_iter m k s)"
  using assms
proof (induction m k s arbitrary: i rule: find_iter.induct)
  case (2 m k c s)
  obtain j where i: "i = Suc j" using 2(3) by (cases i) auto
  have later: "j' + l \<le> j" if "j' < j" "m (drop j' s) = Some (y, l)" for j' y l
    using 2(5) [of "Suc j'" y l] that i by simp
  have "x \<in> set (find_iter m k s)" by (rule 2(1) [of j]) (use 2(2-4) i later in simp_all)
  then show ?case by simp
next
  case (3 m c s)
  show ?case
  proof (cases i)
    case 0
    with 3(3) show ?thesis by simp
  next
    case (Suc j)
    have later: "j' + l \<le> j" if "j' < j" "m (drop j' s) = Some (y, l)" for j' y l
      using 3(6) [of "Suc j'" y l] that Suc by simp
    show ?thesis
    proof (cases "m (c # s)")
      case None
      with 3(1) [OF None, of j] 3(3,5) Suc later show ?thesis by simp
    next
      case (Some yl)
      obtain y l where yl: "yl = (y, l)" by fastforce
      have "l \<le> i" using 3(6) [of 0 y l] Some yl Suc by simp
      with 3(2) [OF Some yl [symmetric], of j] 3(3,5) Suc later Some yl show ?thesis by simp
    qed
  qed
qed simp

lemma name_matchE:
  assumes "name_match s = Some (w, n)"
  obtains sp q q' rest where "s = ''name:'' @ sp @ q # w @ q' # rest" and "list_all is_space sp" "is_quote q" "is_quote q'"
    "w \<noteq> []" "list_all is_word w" "n = 5 + length sp + 1 + length w + 1"
proof -
  let ?r = "drop 5 s" let ?r1 = "dropWhile is_space ?r" let ?r2 = "dropWhile is_word (tl ?r1)"
  have h: "startswith ''name:'' s" "?r1 \<noteq> []" "is_quote (hd ?r1)" "takeWhile is_word (tl ?r1) = w" "w \<noteq> []" "?r2 \<noteq> []" "is_quote (hd ?r2)"
    "n = 5 + length (takeWhile is_space ?r) + 1 + length w + 1"
    using assms by (auto simp: name_match_def Let_def split: if_splits)
  have "s = ''name:'' @ ?r" using h(1) by (auto simp: startswith_iff)
  also have "?r = takeWhile is_space ?r @ hd ?r1 # tl ?r1" using h(2) by simp
  also have "tl ?r1 = w @ hd ?r2 # tl ?r2" using h(4,6) by (metis list.collapse takeWhile_dropWhile_id)
  finally have "s = ''name:'' @ takeWhile is_space ?r @ hd ?r1 # w @ hd ?r2 # tl ?r2" .
  then show thesis
    by (rule that) (use h in \<open>auto simp: list_all_iff dest: set_takeWhileD\<close>)
qed

text \<open>The text of a match: the quotes may differ.\<close>

definition name_text :: "string \<Rightarrow> char \<Rightarrow> string \<Rightarrow> char \<Rightarrow> string" where
  "name_text sp q w q' = ''name:'' @ sp @ q # w @ [q']"

lemma quote_class: "is_quote c \<Longrightarrow> \<not> is_word c \<and> \<not> is_space c"
proof -
  have "\<not> is_word (CHR 0x22) \<and> \<not> is_space (CHR 0x22) \<and> \<not> is_word (CHR 0x27) \<and> \<not> is_space (CHR 0x27)" by code_simp
  then show "is_quote c \<Longrightarrow> ?thesis" by (auto simp: is_quote_def)
qed

lemma name_match_text:
  assumes "w \<noteq> []" "list_all is_word w" "list_all is_space sp" "is_quote q" "is_quote q'"
  shows "\<exists>n. name_match (name_text sp q w q' @ rest) = Some (w, n)"
proof -
  have "takeWhile is_word (w @ q' # rest) = w" "dropWhile is_word (w @ q' # rest) = q' # rest"
    using assms(2) quote_class [OF assms(5)] by (auto simp: list_all_iff takeWhile_append2 dropWhile_append2)
  moreover have "dropWhile is_space (sp @ q # w @ q' # rest) = q # w @ q' # rest"
    using assms(3) quote_class [OF assms(4)] by (auto simp: list_all_iff dropWhile_append2)
  ultimately show ?thesis
    using assms quote_class [OF assms(4)] quote_class [OF assms(5)] by (simp add: name_match_def name_text_def startswith_def)
qed

lemma name_length: "length ''name:'' = 5"
  by simp

lemma name_nth:
  assumes s: "s = ''name:'' @ sp @ q # w @ q' # rest"
  shows "5 \<le> k \<Longrightarrow> s ! k = (sp @ q # w @ q' # rest) ! (k - 5)"
    and "5 + length sp + 1 \<le> k \<Longrightarrow> s ! k = (w @ q' # rest) ! (k - (5 + length sp + 1))"
proof -
  have tail: "s ! k = (sp @ q # w @ q' # rest) ! (k - 5)" if "5 \<le> k" for k
  proof -
    have "(L @ r) ! k = r ! (k - 5)" if "length L = 5" for L r :: string using that \<open>5 \<le> k\<close> by (simp add: nth_append)
    then show ?thesis unfolding s by (metis name_length)
  qed
  have word: "s ! k = (w @ q' # rest) ! (k - (5 + length sp + 1))" if "5 + length sp + 1 \<le> k" for k
  proof -
    have "k - 5 = length (sp @ [q]) + (k - (5 + length sp + 1))" using that by simp
    then have "s ! k = ((sp @ [q]) @ w @ q' # rest) ! (length (sp @ [q]) + (k - (5 + length sp + 1)))"
      using tail [of k] that by simp
    then show ?thesis by (simp only: nth_append_length_plus)
  qed
  show "5 \<le> k \<Longrightarrow> s ! k = (sp @ q # w @ q' # rest) ! (k - 5)" by (rule tail)
  show "5 + length sp + 1 \<le> k \<Longrightarrow> s ! k = (w @ q' # rest) ! (k - (5 + length sp + 1))" by (rule word)
qed

text \<open>A match of a name holds no other start: the colon of the inner one would have to be part of the word.\<close>

lemma name_match_covers_none:
  assumes "name_match s = Some (w, n)" and "0 < i" "i < n"
  shows "\<not> startswith ''name:'' (drop i s)"
proof
  assume "startswith ''name:'' (drop i s)"
  then obtain t where t: "drop i s = ''name:'' @ t" by (auto simp: startswith_iff)
  have at: "s ! (i + j) = ''name:'' ! j" if "j < 5" for j
  proof -
    have "(L @ t) ! j = L ! j" if "length L = 5" for L :: string using that \<open>j < 5\<close> by (simp add: nth_append)
    then have "drop i s ! j = ''name:'' ! j" unfolding t by (metis name_length)
    moreover have "length (drop i s) \<ge> 5" unfolding t by simp
    ultimately show ?thesis by (simp add: nth_drop)
  qed
  obtain sp q q' rest where s: "s = ''name:'' @ sp @ q # w @ q' # rest" and sp: "list_all is_space sp" and q: "is_quote q" "is_quote q'"
    and w: "w \<noteq> []" "list_all is_word w" and n: "n = 5 + length sp + 1 + length w + 1"
    using assms(1) by (rule name_matchE)
  note tail = name_nth(1) [OF s] and word = name_nth(2) [OF s]
  let ?b = "5 + length sp + 1"
  have n0: "s ! i = CHR ''n''" and e3: "s ! (i + 3) = CHR ''e''" and c4: "s ! (i + 4) = CHR '':''"
    using at [of 0] at [of 3] at [of 4] by simp_all
  consider "i < 5" | "5 \<le> i" "i < 5 + length sp" | "i = 5 + length sp" | "?b \<le> i" "i < ?b + length w" | "i = ?b + length w"
    using assms(3) n by linarith
  then show False
  proof cases
    case 1
    then have "i \<in> {1, 2, 3, 4}" using assms(2) by auto
    with n0 show False by (auto simp: s)
  next
    case 2
    moreover have "i - 5 < length sp" using 2 by simp
    ultimately have "s ! i = sp ! (i - 5)" by (simp only: tail [OF 2(1)] nth_append if_True)
    then have "is_space (CHR ''n'')" using n0 \<open>i - 5 < length sp\<close> sp by (metis list_all_length)
    then show False by code_simp
  next
    case 3
    then have "s ! i = q" by (simp add: tail nth_append)
    with n0 q show False by (simp add: is_quote_def)
  next
    case 4
    show False
    proof (cases "i + 4 < ?b + length w")
      case True
      then have l: "i + 4 - ?b < length w" "?b \<le> i + 4" using 4 by linarith+
      then have "s ! (i + 4) = w ! (i + 4 - ?b)" by (simp only: word [OF l(2)] nth_append if_True)
      then have "is_word (CHR '':'')" using c4 l(1) w(2) by (metis list_all_length)
      then show False by code_simp
    next
      case False
      define j where "j = ?b + length w - i"
      have j: "0 < j" "j < 5" "i + j = ?b + length w" using 4 False unfolding j_def by auto
      have "s ! (i + j) = q'" unfolding j(3) by (simp add: word nth_append)
      then have "is_quote (''name:'' ! j)" using at [OF j(2)] q by simp
      moreover have "j \<in> {1, 2, 3, 4}" using j by auto
      ultimately show False by (auto simp: is_quote_def)
    qed
  next
    case 5
    then have "s ! i = q'" by (simp add: word nth_append)
    with n0 q show False by (simp add: is_quote_def)
  qed
qed

lemma find_iter_witness:
  "x \<in> set (find_iter m k s) \<Longrightarrow> \<exists>i n. i < length s \<and> m (drop i s) = Some (x, n)"
proof (induction m k s rule: find_iter.induct)
  case (2 m k c s)
  then show ?case by (metis Suc_less_eq drop_Suc_Cons find_iter.simps(2) length_Cons)
next
  case (3 m c s)
  show ?case
  proof (cases "m (c # s)")
    case None
    with 3 obtain i n where "i < length s" "m (drop i s) = Some (x, n)" by auto
    then show ?thesis by (metis Suc_less_eq drop_Suc_Cons length_Cons)
  next
    case (Some yl)
    obtain y l where yl: "yl = (y, l)" by fastforce
    with Some 3(3) consider "x = y" | "x \<in> set (find_iter m (l - 1) s)" by auto
    then show ?thesis
    proof cases
      case 1
      then have "0 < length (c # s) \<and> m (drop 0 (c # s)) = Some (x, l)" using Some yl by simp
      then show ?thesis by blast
    next
      case 2
      with 3(2) [OF Some yl [symmetric]] obtain i n where "i < length s" "m (drop i s) = Some (x, n)" by auto
      then show ?thesis by (metis Suc_less_eq drop_Suc_Cons length_Cons)
    qed
  qed
qed simp

text \<open>The names that are found are those whose text is there.\<close>

lemma names_iff:
  "w \<in> set (find_iter name_match 0 content) \<longleftrightarrow>
     w \<noteq> [] \<and> list_all is_word w \<and> (\<exists>sp q q'. list_all is_space sp \<and> is_quote q \<and> is_quote q' \<and> substring (name_text sp q w q') content)"
proof
  assume "w \<in> set (find_iter name_match 0 content)"
  then obtain i n where "name_match (drop i content) = Some (w, n)" using find_iter_witness [of w name_match 0 content] by blast
  then obtain sp q q' rest where h: "drop i content = ''name:'' @ sp @ q # w @ q' # rest" "list_all is_space sp" "is_quote q" "is_quote q'"
    "w \<noteq> []" "list_all is_word w"
    by (rule name_matchE)
  obtain a where "content = a @ drop i content" by (rule that [of "take i content"]) simp
  then have "content = a @ name_text sp q w q' @ rest" unfolding h(1) name_text_def by simp
  then have "substring (name_text sp q w q') content" by (simp add: substring_middle)
  with h show "w \<noteq> [] \<and> list_all is_word w \<and> (\<exists>sp q q'. list_all is_space sp \<and> is_quote q \<and> is_quote q' \<and> substring (name_text sp q w q') content)"
    by blast
next
  assume "w \<noteq> [] \<and> list_all is_word w \<and> (\<exists>sp q q'. list_all is_space sp \<and> is_quote q \<and> is_quote q' \<and> substring (name_text sp q w q') content)"
  then obtain sp q q' a b where w: "w \<noteq> []" "list_all is_word w" "list_all is_space sp" "is_quote q" "is_quote q'"
    and content: "content = a @ name_text sp q w q' @ b" by (auto simp: substring_iff)
  have tail: "drop (length a) content = name_text sp q w q' @ b" by (simp add: content)
  obtain n where n: "name_match (drop (length a) content) = Some (w, n)" using name_match_text [OF w, of b] tail by auto
  show "w \<in> set (find_iter name_match 0 content)"
  proof (rule find_iter_hit [where m = name_match and i = "length a", OF n])
    show "length a < length content" by (simp add: content name_text_def)
    fix j y l
    assume j: "j < length a" and m: "name_match (drop j content) = Some (y, l)"
    have "\<not> (0 < length a - j \<and> length a - j < l)"
      using name_match_covers_none [OF m, of "length a - j"] j tail by (auto simp: startswith_def name_text_def)
    then show "j + l \<le> length a" using j by linarith
  qed simp
qed

text \<open>A replacement keeps the names when what it replaces holds no quote, another sign, and no beginning of \<open>name\<close>.\<close>

definition spares_names :: "string \<Rightarrow> bool" where
  "spares_names old \<longleftrightarrow> list_all (\<lambda>c. \<not> is_quote c) old \<and> list_ex (\<lambda>c. \<not> is_word c \<and> \<not> is_space c \<and> c \<noteq> CHR '':'') old
     \<and> list_all (\<lambda>i. \<not> agree (drop i old) ''name:'') [0..<length old]"

lemma agree_shorter: "agree a (b @ c) \<Longrightarrow> agree a b"
  unfolding agree_def by (cases "length a \<le> length b") (auto dest: arg_cong [where f = "take (length b)"])

lemma agree_last:
  assumes "agree (s @ [q]) old" "q \<notin> set old"
  shows "\<exists>r. s = old @ r"
proof (cases "length old \<le> length s")
  case True
  with assms(1) have "take (length old) s = old" by (simp add: agree_def)
  then show ?thesis by (metis append_take_drop_id)
next
  case False
  with assms(1) have "s @ [q] = take (length s + 1) old" by (simp add: agree_def)
  then have "q \<in> set (take (length s + 1) old)" by (metis in_set_conv_decomp)
  then have "q \<in> set old" by (rule in_set_takeD)
  with assms(2) show ?thesis by simp
qed

lemma spares_names_apart:
  assumes "spares_names old" "list_all is_word w" "list_all is_space sp" "is_quote q" "is_quote q'"
  shows "apart old (name_text sp q w q')"
proof -
  let ?x = "name_text sp q w q'"
  have 1: "\<not> agree (drop i old) ?x" if "i < length old" for i
    using assms(1) agree_shorter [of "drop i old" "''name:''"] that
    by (auto simp: spares_names_def list_all_iff name_text_def simp del: append_Cons)
  obtain c where c: "c \<in> set old" "\<not> is_word c" "\<not> is_space c" "c \<noteq> CHR '':''" and quotes: "\<forall>c\<in>set old. \<not> is_quote c"
    using assms(1) by (auto simp: spares_names_def list_ex_iff list_all_iff)
  have letters: "list_all is_word ''name''" by code_simp
  have 2: "\<not> agree (drop i ?x) old" if "i < length ?x" for i
  proof
    assume h: "agree (drop i ?x) old"
    let ?y = "''name:'' @ sp @ q # w"
    have x: "?x = ?y @ [q']" and "i \<le> length ?y" using that by (simp_all add: name_text_def)
    then have "drop i ?x = drop i ?y @ [q']" unfolding x drop_append by simp
    with h have "agree (drop i ?y @ [q']) old" by simp
    then obtain r where "drop i ?y = old @ r" using agree_last quotes assms(5) by blast
    then have "c \<in> set ?y" using c(1) by (metis UnCI in_set_dropD set_append)
    then show False using c quotes assms letters by (auto simp: list_all_iff)
  qed
  show ?thesis using 1 2 by (auto simp: apart_def list_all_iff)
qed

lemma replace_keeps_names:
  "spares_names old \<Longrightarrow> set (find_iter name_match 0 s) \<subseteq> set (find_iter name_match 0 (py_replace old new s))"
  unfolding subset_iff names_iff using spares_names_apart py_replace_keeps by blast

lemma name_found:
  assumes "w \<noteq> []" "list_all is_word w" and "substring (''name: \"'' @ w @ ''\"'') content"
  shows "w \<in> set (find_iter name_match 0 content)"
proof -
  have "list_all is_space '' ''" "is_quote (CHR 0x22)" by code_simp+
  moreover have "name_text '' '' (CHR 0x22) w (CHR 0x22) = ''name: \"'' @ w @ ''\"''" by (simp add: name_text_def)
  ultimately show ?thesis unfolding names_iff using assms by metis
qed


section \<open>What a synchronisation keeps and adds\<close>

definition plain_name :: "string \<Rightarrow> bool" where
  "plain_name n \<longleftrightarrow> n \<noteq> [] \<and> list_all is_word n"

lemma existing_plain: "n \<in> set (existing_names c) \<Longrightarrow> plain_name n"
  by (simp add: existing_names_def plain_name_def names_iff)

lemma substring_join: "x \<in> set xs \<Longrightarrow> substring x (join_with d xs)"
  by (induction d xs rule: join_with.induct) auto

lemma definition_names:
  assumes "r \<in> set rs" "plain_name (rs_name r)" "substring (definitions_text rs) c"
  shows "rs_name r \<in> set (existing_names c)"
proof -
  have "substring (''name: \"'' @ rs_name r @ ''\"'') (''        name: \"'' @ rs_name r @ ''\",'')"
    unfolding substring_iff by (rule exI [of _ "''        ''"], rule exI [of _ "'',''"]) simp
  moreover have "substring (''        name: \"'' @ rs_name r @ ''\",'') (definition_text r)"
    unfolding definition_text_def by (rule substring_join) simp
  ultimately have "substring (''name: \"'' @ rs_name r @ ''\"'') (definition_text r)" by (rule substring_trans)
  moreover have "substring (definition_text r) (definitions_text rs)"
    unfolding definitions_text_def by (rule substring_join) (simp add: assms(1))
  ultimately have "substring (''name: \"'' @ rs_name r @ ''\"'') c" using assms(3) substring_trans by blast
  then show ?thesis using assms(2) name_found unfolding plain_name_def existing_names_def by blast
qed

lemma spared: "spares_names ''function App()''" "spares_names import_marker" "spares_names array_end" "spares_names resource_marker"
  by code_simp+

text \<open>The places at which the engine inserts are found once the imports are in.\<close>

definition updatable :: "string \<Rightarrow> resource list \<Rightarrow> bool" where
  "updatable content new \<longleftrightarrow>
     (let c = add_imports (imports_text new) content in
      if substring (drop 8 resource_marker) c then substring resource_marker c else substring array_end c)"

lemma edits_nonempty: "import_marker \<noteq> []" "resource_marker \<noteq> []" "array_end \<noteq> []"
  by (simp_all add: import_marker_def resource_marker_def array_end_def)

lemma update_keeps_text: "subseq content (update_app content rs)"
proof -
  have marked: "subseq old (a @ old)" for a old :: string by (simp add: subseq_drop_many)
  have with_imports: "subseq c (add_imports i c)" for i c
  proof -
    have "subseq c (py_replace ''function App()'' (([newline] @ import_marker @ [newline]) @ ''function App()'') c)"
      by (rule py_replace_subseq [OF _ marked]) simp
    then show ?thesis
      using py_replace_subseq [OF edits_nonempty(1) marked, of _ "i @ [newline]"]
      unfolding add_imports_def Let_def by (auto intro: subseq_order.order_trans)
  qed
  have with_definitions: "subseq c (add_definitions d c)" for d c
  proof -
    have "subseq c (py_replace array_end ((resource_marker @ [newline]) @ array_end) c)"
      by (rule py_replace_subseq [OF edits_nonempty(3) marked])
    then show ?thesis
      using py_replace_subseq [OF edits_nonempty(2) marked, of _ "''      '' @ d @ '','' @ [newline]"]
      unfolding add_definitions_def Let_def by (auto intro: subseq_order.order_trans)
  qed
  show ?thesis unfolding update_app_def using with_imports with_definitions by (rule subseq_order.order_trans)
qed

lemma update_keeps_names: "set (existing_names content) \<subseteq> set (existing_names (update_app content rs))"
proof -
  have "set (existing_names c) \<subseteq> set (existing_names (py_replace old new c))" if "spares_names old" for c old new
    unfolding existing_names_def by (rule replace_keeps_names [OF that])
  then show ?thesis
    unfolding update_app_def add_definitions_def add_imports_def Let_def using spared by (simp split: if_split) (meson subset_trans)
qed

lemma update_adds_names:
  assumes "updatable content new" and "r \<in> set new" "plain_name (rs_name r)"
  shows "rs_name r \<in> set (existing_names (update_app content new))"
proof -
  let ?c = "add_imports (imports_text new) content"
  let ?c' = "if substring (drop 8 resource_marker) ?c then ?c else py_replace array_end (resource_marker @ [newline] @ array_end) ?c"
  have "substring resource_marker ?c'"
  proof (cases "substring (drop 8 resource_marker) ?c")
    case False
    then have "substring array_end ?c" using assms(1) by (simp add: updatable_def)
    from py_replace_inserts [OF edits_nonempty(3) this, of "resource_marker @ [newline] @ array_end"] False
    have "substring (resource_marker @ [newline] @ array_end) ?c'" by simp
    then show ?thesis by (rule substring_trans [OF substring_appendI(2) [OF substring_self]])
  qed (use assms(1) in \<open>simp add: updatable_def\<close>)
  from py_replace_inserts [OF edits_nonempty(2) this, of "''      '' @ definitions_text new @ '','' @ [newline] @ resource_marker"]
  have "substring (definitions_text new) (update_app content new)"
    unfolding update_app_def add_definitions_def Let_def by (rule substring_trans [OF substring_middle])
  with assms(2,3) show ?thesis by (rule definition_names)
qed

lemma nothing_new_after_update:
  assumes "updatable content (detect_new_resources (existing_names content) rs)" and "\<forall>r\<in>set rs. plain_name (rs_name r)"
  shows "detect_new_resources (existing_names (update_app content (detect_new_resources (existing_names content) rs))) rs = []"
proof -
  let ?new = "detect_new_resources (existing_names content) rs"
  have "rs_name r \<in> set (existing_names (update_app content ?new))" if "r \<in> set rs" for r
  proof (cases "rs_name r \<in> set (existing_names content)")
    case True
    then show ?thesis using update_keeps_names [of content ?new] by blast
  next
    case False
    with that have "r \<in> set ?new" by (simp add: detect_new_resources_def)
    then show ?thesis using update_adds_names [OF assms(1)] assms(2) that by blast
  qed
  then show ?thesis unfolding detect_new_resources_def filter_empty_conv by blast
qed

text \<open>A name with another sign, such as a hyphen, is never seen: the resource is new at every run.\<close>

lemma hyphen_always_new: "r \<in> set rs \<Longrightarrow> \<not> plain_name (rs_name r) \<Longrightarrow> r \<in> set (detect_new_resources (existing_names c) rs)"
  using existing_plain by (auto simp: detect_new_resources_def)

text \<open>The first update of generated code leaves out the comma between the last resource that was there and the first new one.\<close>

definition last_resource :: string where
  "last_resource = ''      }'' @ [newline] @ array_end"

lemma last_resource_spared: "apart ''function App()'' last_resource" "apart import_marker last_resource"
  "fits (''      }'' @ [newline]) array_end" "fits (''      }'' @ [newline]) resource_marker"
  by code_simp+

lemma first_update_drops_comma:
  assumes "substring last_resource content" and "\<not> substring (drop 8 resource_marker) (add_imports (imports_text (r # rs)) content)"
  shows "substring (''      }'' @ [newline] @ ''      {'' @ [newline] @ ''        name: \"'') (update_app content (r # rs))"
proof -
  let ?gap = "''      }'' @ [newline]"
  let ?c = "add_imports (imports_text (r # rs)) content"
  have "substring last_resource ?c"
    using py_replace_keeps [OF last_resource_spared(1)] py_replace_keeps [OF last_resource_spared(2)] assms(1)
    by (simp add: add_imports_def Let_def)
  then have "substring (?gap @ array_end) ?c" by (simp add: last_resource_def)
  from py_replace_context [OF last_resource_spared(3) this, of "resource_marker @ [newline] @ array_end"]
  have "substring (?gap @ resource_marker) (py_replace array_end (resource_marker @ [newline] @ array_end) ?c)"
    by (rule substring_trans [rotated]) (metis append.assoc substring_appendI(2) substring_self)
  from py_replace_context [OF last_resource_spared(4) this]
  have update: "substring (?gap @ ''      '' @ definitions_text (r # rs) @ '','' @ [newline] @ resource_marker) (update_app content (r # rs))"
    using assms(2) by (simp add: update_app_def add_definitions_def)
  obtain d where d: "definitions_text (r # rs) = (''{'' @ [newline] @ ''        name: \"'') @ d"
    by (cases rs) (simp_all add: definitions_text_def definition_text_def)
  have "substring (?gap @ ''      {'' @ [newline] @ ''        name: \"'') (?gap @ ''      '' @ ((''{'' @ [newline] @ ''        name: \"'') @ d) @ e)" for e
    unfolding substring_iff by (rule exI [of _ "[]"], rule exI [of _ "d @ e"]) simp
  from substring_trans [OF this update [unfolded d]] show ?thesis by (simp only: append.assoc)
qed

text \<open>The key of Workik ends up in a template that is not among the files Docker ignores, and in the settings for production.\<close>

lemma substring_unlines: "l \<in> set ls \<Longrightarrow> substring l (unlines ls)"
  unfolding unlines_def by (induction ls) auto

lemma key_in_template: "substring key (env_template endpoint key)" if "key \<noteq> []"
proof -
  have "substring (''WORKIK_API_KEY='' @ key) (env_template endpoint key)"
    unfolding env_template_def by (rule substring_unlines) (simp add: that)
  then show ?thesis by (rule substring_trans [OF substring_appendI(1) [OF substring_self]])
qed


section \<open>Runs\<close>

text \<open>Files that keep what is written, \<open>F\<close> being their contents; nothing else than a write changes them.\<close>

definition file_ports :: "'w front_ports \<Rightarrow> ('w \<Rightarrow> string \<Rightarrow> string option) \<Rightarrow> bool" where
  "file_ports P F \<longleftrightarrow>
     (\<forall>w. \<exists>w'. fp_exists P (app_file P) w = (Inr (F w (app_file P) \<noteq> None), w'))
   \<and> (\<forall>w t. F w (app_file P) = Some t \<longrightarrow> (\<exists>w'. fp_read P (app_file P) w = (Inr t, w')))
   \<and> (\<forall>p w. F (snd (fp_exists P p w)) = F w \<and> F (snd (fp_read P p w)) = F w \<and> F (snd (fp_mkdir P p w)) = F w)
   \<and> (\<forall>p n w. F (snd (fp_chmod P p n w)) = F w) \<and> (\<forall>w. F (snd (fp_utc P w)) = F w \<and> F (snd (fp_stamp P w)) = F w)
   \<and> (\<forall>p t w q. q \<noteq> p \<longrightarrow> F (snd (fp_write P p t w)) q = F w q)
   \<and> (\<forall>p t w. F (snd (fp_write P p t w)) p = Some t \<or> (\<exists>e. fst (fp_write P p t w) = Inl e))"

definition changelog_file :: "'w front_ports \<Rightarrow> string" where
  "changelog_file P = in_root P ''docs/AI_CHANGELOG.md''"

text \<open>Files that no step but the update of the code writes.\<close>

definition fixed_files :: "string list" where
  "fixed_files =
     [''Dockerfile'', ''.env.production'', ''nginx.conf'', ''start.sh'', ''.dockerignore'', ''next.config.js'', ''src/pages/api/health.ts'',
      ''package.json'', ''tsconfig.json'', ''src/providers/data.ts'', ''.env.local.template'', ''.workik/context.md'',
      ''lovable-config.json'', ''LOVABLE_INTEGRATION.md'']"

definition quiet :: "'w front_ports \<Rightarrow> string \<Rightarrow> bool" where
  "quiet P q \<longleftrightarrow> (\<forall>p\<in>set fixed_files. q \<noteq> in_front P p) \<and> q \<noteq> changelog_file P
   \<and> (\<forall>n f. plain_name n \<longrightarrow> q \<noteq> in_front P (''src/pages/'' @ n @ ''/'' @ f))"

text \<open>Everything but the front end and the log.\<close>

definition outside :: "'w front_ports \<Rightarrow> string \<Rightarrow> bool" where
  "outside P q \<longleftrightarrow> \<not> startswith (in_front P []) q \<and> q \<noteq> changelog_file P"

lemma in_front_start: "startswith (in_front P []) (in_front P p)"
  unfolding startswith_iff in_front_def in_root_def by (rule exI [of _ p]) simp

lemma outside_quiet: "outside P q \<Longrightarrow> quiet P q \<and> q \<noteq> app_file P"
  using in_front_start unfolding outside_def quiet_def app_file_def by blast

lemma app_quiet: "quiet P (app_file P)"
  by (simp add: quiet_def app_file_def in_front_def in_root_def fixed_files_def changelog_file_def)

lemma quietD:
  assumes "quiet P q"
  shows "p \<in> set fixed_files \<Longrightarrow> in_front P p \<noteq> q" "in_root P ''docs/AI_CHANGELOG.md'' \<noteq> q"
    "plain_name n \<Longrightarrow> in_front P (''src/pages/'' @ n @ ''/'' @ f) \<noteq> q"
  using assms unfolding quiet_def changelog_file_def by blast+

lemma file_ports_keep:
  assumes "file_ports P F"
  shows "keeps (\<lambda>w. F w q = c) (fp_exists P p)" "keeps (\<lambda>w. F w q = c) (fp_read P p)" "keeps (\<lambda>w. F w q = c) (fp_mkdir P p)"
    "keeps (\<lambda>w. F w q = c) (fp_chmod P p m)" "keeps (\<lambda>w. F w q = c) (fp_utc P)" "keeps (\<lambda>w. F w q = c) (fp_stamp P)"
    "p \<noteq> q \<Longrightarrow> keeps (\<lambda>w. F w q = c) (fp_write P p t)"
  using assms unfolding file_ports_def keeps_def by metis+

lemma keeps_let: "keeps Q (f x) \<Longrightarrow> keeps Q (let y = x in f y)"
  by simp

text \<open>All steps but the update keep a quiet file.\<close>

lemma keeps_scan:
  assumes "file_ports P F"
  shows "keeps (\<lambda>w. F w q = c) (scan_backend_schema P)"
proof -
  note keep = preserved file_ports_keep [OF assms]
  have "keeps (\<lambda>w. F w q = c) (getv x k d)" for x k d unfolding getv_def by (rule keeps_or_raise)
  then have "keeps (\<lambda>w. F w q = c) (read_entity e)" for e unfolding read_entity_def by (intro preserved)
  then have "keeps (\<lambda>w. F w q = c) (parse_domain_model P p)" for p
    unfolding parse_domain_model_def getv_def by (intro keep keeps_or_raise)
  moreover have "keeps (\<lambda>w. F w q = c) (parse_graphql_schema P p)" for p unfolding parse_graphql_schema_def by (intro keep)
  moreover have "keeps (\<lambda>w. F w q = c) (named P r)" for r unfolding named_def by (auto split: py_val.split)
  ultimately show ?thesis unfolding scan_backend_schema_def Let_def by (intro keep)
qed

lemma keeps_log: "file_ports P F \<Longrightarrow> quiet P q \<Longrightarrow> keeps (\<lambda>w. F w q = c) (log_front P a b d)"
  unfolding log_front_def Let_def by (intro preserved file_ports_keep quietD)

lemma keeps_handshake: "file_ports P F \<Longrightarrow> quiet P q \<Longrightarrow> keeps (\<lambda>w. F w q = c) (verify_handshake P)"
  unfolding verify_handshake_def Let_def by (intro preserved file_ports_keep keeps_log)

lemma keeps_write_front:
  "file_ports P F \<Longrightarrow> quiet P q \<Longrightarrow> p \<in> set fixed_files \<Longrightarrow> keeps (\<lambda>w. F w q = c) (write_front P p t)"
  unfolding write_front_def by (intro file_ports_keep quietD)

lemma keeps_pages:
  assumes "file_ports P F" "quiet P q" and "\<forall>r\<in>set rs. plain_name (rs_name r)"
  shows "keeps (\<lambda>w. F w q = c) (generate_resource_pages P rs)"
proof -
  have "resource_dir P r @ ''/'' @ f \<noteq> q" if "r \<in> set rs" for r f
  proof -
    have "plain_name (rs_name r)" using assms(3) that by blast
    moreover from this have "\<not> startswith ''/'' (rs_name r)"
    proof -
      have "\<not> is_word (CHR ''/'')" by code_simp
      then show ?thesis using \<open>plain_name (rs_name r)\<close> by (cases "rs_name r") (auto simp: plain_name_def)
    qed
    moreover have "resource_dir P r @ ''/'' @ f = in_front P (''src/pages/'' @ rs_name r @ ''/'' @ f)"
      using calculation by (simp add: resource_dir_def under_def plain_name_def in_front_def in_root_def)
    ultimately show ?thesis using quietD(3) [OF assms(2)] by metis
  qed
  then show ?thesis
    unfolding generate_resource_pages_def by (intro preserved file_ports_keep [OF assms(1)])
qed

lemma keeps_workik: "file_ports P F \<Longrightarrow> quiet P q \<Longrightarrow> keeps (\<lambda>w. F w q = c) (setup_workik E P rs)"
  unfolding setup_workik_def by (intro preserved file_ports_keep keeps_write_front) (simp_all add: fixed_files_def)

lemma keeps_scaffold:
  assumes "file_ports P F" "quiet P q"
  shows "keeps (\<lambda>w. F w q = c) (create_scaffold_structure E P)" "keeps (\<lambda>w. F w q = c) (rename_project E P)"
    "keeps (\<lambda>w. F w q = c) (configure_data_provider E P)" "keeps (\<lambda>w. F w q = c) (setup_lovable E P)"
proof -
  have key: "keeps (\<lambda>w. F w q = c) (set_key k v d)" for k v d by (auto simp: set_key_def split: py_val.split)
  note keep = preserved file_ports_keep [OF assms(1)] keeps_write_front [OF assms] quietD [OF assms(2)] key
  show "keeps (\<lambda>w. F w q = c) (create_scaffold_structure E P)"
    unfolding create_scaffold_structure_def generate_deployment_assets_def by (intro keep) (simp_all add: fixed_files_def)
  show "keeps (\<lambda>w. F w q = c) (rename_project E P)"
    unfolding rename_project_def Let_def by (intro keep keeps_or_raise) (simp add: fixed_files_def)
  show "keeps (\<lambda>w. F w q = c) (configure_data_provider E P)"
    unfolding configure_data_provider_def by (intro keep) (simp_all add: fixed_files_def)
  show "keeps (\<lambda>w. F w q = c) (setup_lovable E P)"
    unfolding setup_lovable_def by (intro keep) (simp_all add: fixed_files_def)
qed

text \<open>What a scan that returns finds.\<close>

definition backend :: "'w front_ports \<Rightarrow> resource list \<Rightarrow> bool" where
  "backend P rs \<longleftrightarrow> (\<forall>w rs' w'. scan_backend_schema P w = (Inr rs', w') \<longrightarrow> rs' = rs)"

lemma file_portsD:
  assumes "file_ports P F"
  shows "\<exists>w'. fp_exists P (app_file P) w = (Inr (F w (app_file P) \<noteq> None), w')"
    "F w (app_file P) = Some t \<Longrightarrow> \<exists>w'. fp_read P (app_file P) w = (Inr t, w')"
    "F (snd (fp_exists P p w)) = F w" "F (snd (fp_read P p w)) = F w"
    "F (snd (fp_write P p t w)) p = Some t \<or> (\<exists>e. fst (fp_write P p t w) = Inl e)"
  using assms unfolding file_ports_def by blast+

lemma existing_read:
  assumes "file_ports P F" "F w (app_file P) = Some c"
  shows "\<exists>w'. get_existing_resources P w = (Inr (existing_names c), w') \<and> F w' = F w"
proof -
  obtain w1 where w1: "fp_exists P (app_file P) w = (Inr True, w1)" using file_portsD(1) [OF assms(1), of w] assms(2) by auto
  then have f1: "F w1 = F w" using file_portsD(3) [OF assms(1), of "app_file P" w] by simp
  then obtain w2 where w2: "fp_read P (app_file P) w1 = (Inr c, w2)" using file_portsD(2) [OF assms(1), of w1 c] assms(2) by auto
  then have "F w2 = F w1" using file_portsD(4) [OF assms(1), of "app_file P" w1] by simp
  with w1 w2 f1 show ?thesis by (auto simp: get_existing_resources_def eff_defs)
qed

lemma written: "file_ports P F \<Longrightarrow> fp_write P p t w = (Inr x, w') \<Longrightarrow> F w' p = Some t"
  using file_portsD(5) [of P F p t w] by simp

lemma same_file: "(\<And>c. keeps (\<lambda>w. F w q = c) m) \<Longrightarrow> m w = (r, w') \<Longrightarrow> F w' q = F w q"
  using keepsD [of "\<lambda>v. F v q = F w q" m w r w'] by simp

lemma scan_same:
  assumes "file_ports P F" "scan_backend_schema P w = (r, w')"
  shows "F w' = F w"
proof
  show "F w' q = F w q" for q by (rule same_file [where F = F, OF keeps_scan [OF assms(1)] assms(2)])
qed

lemma verify_keeps: "file_ports P F \<Longrightarrow> keeps (\<lambda>w. F w q = c) (verify_existing_frontend P)"
  unfolding verify_existing_frontend_def by (intro preserved file_ports_keep)

text \<open>The part of a synchronisation after which it is known what is new.\<close>

definition sync_head :: "'w front_ports \<Rightarrow> ('w, string, resource list \<times> resource list) eff" where
  "sync_head P =
     eff_bind (fp_exists P (in_root P ''frontend/web'')) (\<lambda>e.
       if \<not> e then eff_raise ''SystemExit''
       else eff_then (verify_existing_frontend P) (eff_bind (scan_backend_schema P) (\<lambda>rs.
            eff_bind (get_existing_resources P) (\<lambda>old. eff_return (rs, detect_new_resources old rs)))))"

definition sync_tail :: "front_config \<Rightarrow> 'w front_ports \<Rightarrow> resource list \<Rightarrow> resource list \<Rightarrow> ('w, string, unit) eff" where
  "sync_tail E P rs new =
     (if new = [] then eff_return ()
      else eff_then (eff_for new (\<lambda>r. generate_resource_pages P [r]))
          (eff_then (update_app_tsx_safely P new)
          (eff_then (setup_workik E P rs)
          (eff_then (verify_handshake P)
                    (log_front P (front_target E) ''SYNC''
                      (''Synchronized frontend with backend changes ('' @ nat_text P (length new) @ '' new resources added)''))))))"

lemma mode_sync_split: "mode_sync E P w = eff_bind (sync_head P) (\<lambda>(rs, new). sync_tail E P rs new) w"
  by (auto simp: mode_sync_def sync_head_def sync_tail_def eff_defs Let_def split: prod.split sum.split)

lemma sync_head_facts:
  assumes "file_ports P F" "backend P rs" and "F w (app_file P) = Some c" and "sync_head P w = (x, w')"
  shows "F w' = F w" and "x = Inr y \<Longrightarrow> y = (rs, detect_new_resources (existing_names c) rs)"
proof -
  have head: "keeps (\<lambda>w. F w q = d) (sync_head P)" for q d
    unfolding sync_head_def get_existing_resources_def
    by (intro preserved file_ports_keep [OF assms(1)] keeps_scan [OF assms(1)] verify_keeps [OF assms(1)])
  show "F w' = F w"
  proof
    show "F w' q = F w q" for q by (rule same_file [where F = F, OF head assms(4)])
  qed
  assume x: "x = Inr y"
  obtain e w1 u w2 rs' w3 old where w1: "fp_exists P (in_root P ''frontend/web'') w = (Inr e, w1)"
    and w2: "verify_existing_frontend P w1 = (Inr u, w2)" and w3: "scan_backend_schema P w2 = (Inr rs', w3)"
    and old: "get_existing_resources P w3 = (Inr old, w')" and y: "y = (rs', detect_new_resources old rs')"
    using assms(4) unfolding x sync_head_def by (auto simp: eff_bind_Inr_iff eff_then_Inr_iff split: if_splits)
  have "F w3 (app_file P) = Some c"
    using same_file [where F = F, OF file_ports_keep(1) [OF assms(1)] w1] same_file [where F = F, OF verify_keeps [OF assms(1)] w2]
      same_file [where F = F, OF keeps_scan [OF assms(1)] w3] assms(3) by metis
  then have "old = existing_names c" using existing_read [OF assms(1), of w3 c] old by auto
  moreover have "rs' = rs" using assms(2) w3 unfolding backend_def by blast
  ultimately show "y = (rs, detect_new_resources (existing_names c) rs)" using y by simp
qed

lemma update_writes:
  assumes "file_ports P F" and "F w (app_file P) = Some c" and "update_app_tsx_safely P new w = (Inr (), w')"
  shows "F w' (app_file P) = Some (update_app c new)"
proof -
  obtain w1 where "fp_read P (app_file P) w = (Inr c, w1)" using file_portsD(2) [OF assms(1,2)] by blast
  then have "fp_write P (app_file P) (update_app c new) w1 = (Inr (), w')"
    using assms(3) by (simp add: update_app_tsx_safely_def eff_bind_def)
  then show ?thesis by (rule written [OF assms(1)])
qed

lemma sync_tail_app:
  assumes "file_ports P F" and "\<forall>r\<in>set new. plain_name (rs_name r)"
    and "F w (app_file P) = Some c" and "sync_tail E P rs new w = (Inr (), w')"
  shows "F w' (app_file P) = Some (if new = [] then c else update_app c new)"
proof (cases "new = []")
  case False
  obtain u w1 u' w2 u'' w3 ok w4 where w1: "eff_for new (\<lambda>r. generate_resource_pages P [r]) w = (Inr u, w1)"
    and w2: "update_app_tsx_safely P new w1 = (Inr u', w2)" and w3: "setup_workik E P rs w2 = (Inr u'', w3)"
    and w4: "verify_handshake P w3 = (Inr ok, w4)"
    and w5: "log_front P (front_target E) ''SYNC'' (''Synchronized frontend with backend changes ('' @ nat_text P (length new) @ '' new resources added)'') w4
       = (Inr (), w')"
    using assms(4) False unfolding sync_tail_def by (auto simp: eff_then_Inr_iff)
  have pages: "keeps (\<lambda>w. F w (app_file P) = d) (eff_for new (\<lambda>r. generate_resource_pages P [r]))" for d
    using assms(2) by (intro keeps_for keeps_pages [OF assms(1) app_quiet]) simp
  then have "F w1 (app_file P) = Some c" using same_file [where F = F, OF pages w1] assms(3) by metis
  then have "F w2 (app_file P) = Some (update_app c new)" using update_writes [OF assms(1)] w2 by simp
  then show ?thesis
    using same_file [where F = F, OF keeps_workik [OF assms(1) app_quiet] w3] same_file [where F = F, OF keeps_handshake [OF assms(1) app_quiet] w4]
      same_file [where F = F, OF keeps_log [OF assms(1) app_quiet] w5] False by simp
qed (use assms(3,4) in \<open>simp add: sync_tail_def\<close>)

lemma sync_outside:
  assumes "file_ports P F" "outside P q" and "\<forall>r\<in>set new. plain_name (rs_name r)"
  shows "keeps (\<lambda>w. F w q = c) (sync_tail E P rs new)"
proof -
  have q: "quiet P q" "app_file P \<noteq> q" using outside_quiet [OF assms(2)] by auto
  have "keeps (\<lambda>w. F w q = c) (update_app_tsx_safely P new)"
    unfolding update_app_tsx_safely_def by (intro preserved file_ports_keep [OF assms(1)] q(2))
  moreover have "keeps (\<lambda>w. F w q = c) (generate_resource_pages P [r])" if "r \<in> set new" for r
    using assms(3) that by (intro keeps_pages [OF assms(1) q(1)]) simp
  ultimately show ?thesis
    unfolding sync_tail_def
    by (intro preserved keeps_workik [OF assms(1) q(1)] keeps_handshake [OF assms(1) q(1)] keeps_log [OF assms(1) q(1)])
qed

text \<open>C34: Synchronising keeps the code that is there and settles: when the names are words and the places to insert are found, a run
  that returns leaves all of the old code in \<open>App.tsx\<close>, in order and with its resources, and every resource of the
  backend in it; nothing but the front end and the log changes; and later runs change no file at all.\<close>

theorem sync_settles:
  assumes "file_ports P F" "backend P rs" "\<forall>r\<in>set rs. plain_name (rs_name r)"
    and "F w (app_file P) = Some content"
    and "updatable content (detect_new_resources (existing_names content) rs)"
    and "mode_sync E P w = (Inr (), w1)"
  shows "\<exists>c. F w1 (app_file P) = Some c \<and> subseq content c \<and> set (existing_names content) \<subseteq> set (existing_names c)
    \<and> detect_new_resources (existing_names c) rs = [] \<and> (\<forall>q. outside P q \<longrightarrow> F w1 q = F w q)
    \<and> (\<forall>w2 r w3. F w2 (app_file P) = Some c \<and> mode_sync E P w2 = (r, w3) \<longrightarrow> F w3 = F w2)"
proof -
  let ?new = "detect_new_resources (existing_names content) rs"
  obtain y v where head: "sync_head P w = (Inr y, v)" and tail: "sync_tail E P (fst y) (snd y) v = (Inr (), w1)"
    using assms(6) unfolding mode_sync_split by (auto simp: eff_bind_Inr_iff split: prod.splits)
  note h = sync_head_facts [OF assms(1,2,4) head]
  have y: "y = (rs, ?new)" using h(2) by simp
  have plain: "\<forall>r\<in>set ?new. plain_name (rs_name r)" using assms(3) by (simp add: detect_new_resources_def)
  let ?c = "if ?new = [] then content else update_app content ?new"
  have c: "F w1 (app_file P) = Some ?c"
  proof (rule sync_tail_app [OF assms(1) plain])
    show "F v (app_file P) = Some content" using h(1) assms(4) by simp
    show "sync_tail E P rs ?new v = (Inr (), w1)" using tail unfolding y by simp
  qed
  have settled: "detect_new_resources (existing_names ?c) rs = []"
    using nothing_new_after_update [OF assms(5,3)] by simp
  have "F w1 q = F w q" if "outside P q" for q
    using same_file [where F = F, OF sync_outside [OF assms(1) that plain] tail [unfolded y, simplified]] h(1) by simp
  moreover have "F w3 = F w2" if w2: "F w2 (app_file P) = Some ?c" and run: "mode_sync E P w2 = (r, w3)" for w2 r w3
  proof -
    obtain x v2 where head2: "sync_head P w2 = (x, v2)" by fastforce
    note h2 = sync_head_facts [OF assms(1,2) w2 head2]
    show ?thesis
    proof (cases x)
      case (Inr y2)
      then have "y2 = (rs, [])" using h2(2) settled by simp
      then show ?thesis using run head2 Inr h2(1) by (simp add: mode_sync_split eff_bind_def sync_tail_def eff_return_def)
    qed (use run head2 h2(1) in \<open>simp add: mode_sync_split eff_bind_def\<close>)
  qed
  moreover have "subseq content ?c" "set (existing_names content) \<subseteq> set (existing_names ?c)"
    using update_keeps_text update_keeps_names by auto
  ultimately show ?thesis using c settled by blast
qed

text \<open>Scaffolding is complete: when the names are words, a run that returns has written an \<open>App.tsx\<close> with every resource of the
  backend, so that a synchronisation has nothing to add, and has changed nothing but the front end and the log.\<close>

theorem init_is_complete:
  assumes "file_ports P F" "backend P rs" "\<forall>r\<in>set rs. plain_name (rs_name r)" and "mode_init E P w = (Inr (), w1)"
  shows "F w1 (app_file P) = Some (app_tsx rs) \<and> detect_new_resources (existing_names (app_tsx rs)) rs = []
    \<and> (\<forall>q. outside P q \<longrightarrow> F w1 q = F w q)"
proof -
  obtain u1 s1 u2 s2 u3 s3 rs' s4 u5 s5 u6 s6 u7 s7 u8 s8 ok s9 where
    run: "create_scaffold_structure E P w = (Inr u1, s1)" "rename_project E P s1 = (Inr u2, s2)" "configure_data_provider E P s2 = (Inr u3, s3)"
    "scan_backend_schema P s3 = (Inr rs', s4)" "generate_app_tsx P rs' s4 = (Inr u5, s5)" "generate_resource_pages P rs' s5 = (Inr u6, s6)"
    "setup_workik E P rs' s6 = (Inr u7, s7)" "setup_lovable E P s7 = (Inr u8, s8)" "verify_handshake P s8 = (Inr ok, s9)"
    "log_front P (front_target E) ''GENERATE''
        ''Generated deployment-ready frontend scaffold (Dockerfile, .env.production, nginx.conf, health endpoint)'' s9 = (Inr (), w1)"
    using assms(4) unfolding mode_init_def eff_bind_Inr_iff eff_then_Inr_iff by (elim exE conjE) blast
  have rs: "rs' = rs" using assms(2) run(4) unfolding backend_def by blast
  have before: "F s4 q = F w q" and later: "F w1 q = F s5 q" if "quiet P q" for q
    using same_file [where F = F, OF keeps_scaffold(1) [OF assms(1) that] run(1)] same_file [where F = F, OF keeps_scaffold(2) [OF assms(1) that] run(2)]
      same_file [where F = F, OF keeps_scaffold(3) [OF assms(1) that] run(3)] same_file [where F = F, OF keeps_scan [OF assms(1)] run(4)]
      same_file [where F = F, OF keeps_pages [OF assms(1) that assms(3)] run(6) [unfolded rs]] same_file [where F = F, OF keeps_workik [OF assms(1) that] run(7)]
      same_file [where F = F, OF keeps_scaffold(4) [OF assms(1) that] run(8)] same_file [where F = F, OF keeps_handshake [OF assms(1) that] run(9)]
      same_file [where F = F, OF keeps_log [OF assms(1) that] run(10)] by simp_all
  obtain v x where "fp_write P (app_file P) (app_tsx rs) v = (Inr x, s5)"
    using run(5) unfolding rs by (auto simp: generate_app_tsx_def eff_then_Inr_iff)
  then have app: "F w1 (app_file P) = Some (app_tsx rs)" using later [OF app_quiet] written [OF assms(1)] by simp
  have "F w1 q = F w q" if "outside P q" for q
  proof -
    have q: "quiet P q" "app_file P \<noteq> q" using outside_quiet [OF that] by auto
    have k: "keeps (\<lambda>w. F w q = c) (generate_app_tsx P rs')" for c
      unfolding generate_app_tsx_def by (intro preserved file_ports_keep [OF assms(1)] q(2))
    then show ?thesis using same_file [where F = F, OF k run(5)] before [OF q(1)] later [OF q(1)] by metis
  qed
  moreover have "substring (definitions_text rs) (app_tsx rs)"
  proof -
    have "substring (''      '' @ definitions_text rs) (app_tsx rs)"
      unfolding app_tsx_def app_code_def by (rule substring_unlines) simp
    then show ?thesis by (rule substring_trans [OF substring_appendI(1) [OF substring_self]])
  qed
  then have "detect_new_resources (existing_names (app_tsx rs)) rs = []"
    using definition_names assms(3) by (auto simp: detect_new_resources_def filter_empty_conv)
  ultimately show ?thesis using app by blast
qed

text \<open>Files as a function, no schema of a backend, and a short \<open>App.tsx\<close>.\<close>

definition mem_front :: "(string \<Rightarrow> string option) front_ports" where
  "mem_front =
     \<lparr>fp_root = ''/r'', fp_exists = (\<lambda>p w. (Inr (\<not> startswith ''/r/backend'' p \<and> (p = ''/r/frontend/web'' \<or> w p \<noteq> None)), w)),
      fp_read = (\<lambda>p w. (case w p of Some t \<Rightarrow> Inr t | None \<Rightarrow> Inl ''FileNotFoundError'', w)),
      fp_write = (\<lambda>p t w. (Inr (), w(p \<mapsto> t))), fp_mkdir = (\<lambda>_ w. (Inr (), w)), fp_chmod = (\<lambda>_ _ w. (Inr (), w)),
      fp_utc = (\<lambda>w. (Inr (''2026-02-05'', ''04:00:00''), w)), fp_stamp = (\<lambda>w. (Inr ''2026-02-05 04:00:00'', w)),
      fp_loads = (\<lambda>_. Some (PDict [])), fp_dumps = (\<lambda>_. ''{}''), fp_str = (\<lambda>_. [])\<rparr>"

definition short_app :: string where
  "short_app = ''function App() {'' @ [newline] @ array_end"

definition shop :: front_config where
  "shop = \<lparr>fc_product = ''shop'', fc_endpoint = [], fc_key = []\<rparr>"

definition shop_resources :: "resource list" where
  "shop_resources =
     [\<lparr>rs_name = ''products'', rs_label = ''Products''\<rparr>, \<lparr>rs_name = ''orders'', rs_label = ''Orders''\<rparr>,
      \<lparr>rs_name = ''customers'', rs_label = ''Customers''\<rparr>]"

lemma mem_front_simps:
  "fp_root mem_front = ''/r''"
  "fp_exists mem_front p w = (Inr (\<not> startswith ''/r/backend'' p \<and> (p = ''/r/frontend/web'' \<or> w p \<noteq> None)), w)"
  "fp_read mem_front p w = (case w p of Some t \<Rightarrow> Inr t | None \<Rightarrow> Inl ''FileNotFoundError'', w)"
  "fp_write mem_front p t w = (Inr (), w(p \<mapsto> t))" "fp_mkdir mem_front p w = (Inr (), w)" "fp_chmod mem_front p n w = (Inr (), w)"
  "fp_utc mem_front w = (Inr (''2026-02-05'', ''04:00:00''), w)" "fp_stamp mem_front w = (Inr ''2026-02-05 04:00:00'', w)"
  "fp_loads mem_front t = Some (PDict [])" "fp_dumps mem_front v = ''{}''"
  by (simp_all add: mem_front_def)

lemma mem_app: "app_file mem_front = ''/r/frontend/web/src/App.tsx''"
  by (simp add: app_file_def in_front_def in_root_def mem_front_simps)

lemma mem_file_ports: "file_ports mem_front (\<lambda>w. w)"
  by (simp add: file_ports_def mem_front_simps mem_app)

lemma mem_scan: "scan_backend_schema mem_front w = (Inr shop_resources, w)"
  by (simp add: scan_backend_schema_def Let_def mem_front_simps in_root_def eff_defs example_resources_def named_def shop_resources_def)

lemma mem_backend: "backend mem_front shop_resources"
  by (simp add: backend_def mem_scan)

lemma shop_plain: "\<forall>r\<in>set shop_resources. plain_name (rs_name r)"
proof -
  have "list_all (\<lambda>r. plain_name (rs_name r)) shop_resources" by code_simp
  then show ?thesis by (simp add: list_all_iff)
qed

text \<open>Here every step returns.\<close>

lemma mem_returns:
  "returns (fp_exists mem_front p)" "returns (fp_write mem_front p t)" "returns (fp_mkdir mem_front p)" "returns (fp_chmod mem_front p n)"
  "returns (fp_utc mem_front)" "returns (fp_stamp mem_front)" "returns (scan_backend_schema mem_front)"
  by (simp_all add: returns_def mem_front_simps mem_scan)

lemmas mem_runs = returns_intros mem_returns

lemma mem_log: "returns (log_front mem_front a b c)"
  unfolding log_front_def Let_def by (intro mem_runs) (auto split: prod.split intro!: mem_runs)

lemma mem_handshake: "returns (verify_handshake mem_front)"
  unfolding verify_handshake_def Let_def by (intro mem_runs mem_log)

lemma mem_workik: "returns (setup_workik E mem_front rs)"
  unfolding setup_workik_def write_front_def by (intro mem_runs)

lemma mem_pages: "returns (generate_resource_pages mem_front rs)"
  unfolding generate_resource_pages_def by (intro mem_runs) (auto split: prod.split intro!: mem_runs)

theorem sync_settles_witness:
  "\<exists>w1 c. mode_sync shop mem_front [''/r/frontend/web/package.json'' \<mapsto> ''{}'', ''/r/frontend/web/src/App.tsx'' \<mapsto> short_app] = (Inr (), w1)
    \<and> w1 ''/r/frontend/web/src/App.tsx'' = Some c \<and> subseq short_app c
    \<and> detect_new_resources (existing_names c) shop_resources = []"
proof -
  let ?w = "[''/r/frontend/web/package.json'' \<mapsto> ''{}'', ''/r/frontend/web/src/App.tsx'' \<mapsto> short_app]"
  have new: "detect_new_resources (existing_names short_app) shop_resources = shop_resources" by code_simp
  have up: "updatable short_app shop_resources" by code_simp
  have head: "sync_head mem_front ?w = (Inr (shop_resources, shop_resources), ?w)"
    by (simp add: sync_head_def verify_existing_frontend_def required_files_def get_existing_resources_def in_front_def in_root_def
        mem_front_simps mem_app mem_scan eff_defs new)
  have tail: "\<exists>w1. sync_tail shop mem_front shop_resources shop_resources ?w = (Inr (), w1)"
  proof -
    have "returns (eff_for shop_resources (\<lambda>r. generate_resource_pages mem_front [r]))" by (intro mem_runs mem_pages)
    then obtain u w1 where w1: "eff_for shop_resources (\<lambda>r. generate_resource_pages mem_front [r]) ?w = (Inr u, w1)" unfolding returns_def by blast
    have "keeps (\<lambda>w. w (app_file mem_front) = Some short_app) (eff_for shop_resources (\<lambda>r. generate_resource_pages mem_front [r]))"
      by (rule keeps_for, rule keeps_pages [OF mem_file_ports app_quiet]) (use shop_plain in simp)
    from keepsD [OF this _ w1] have "w1 (app_file mem_front) = Some short_app" by (simp add: mem_app)
    then have w2: "update_app_tsx_safely mem_front shop_resources w1 = (Inr (), w1(app_file mem_front \<mapsto> update_app short_app shop_resources))"
      by (simp add: update_app_tsx_safely_def eff_bind_def mem_front_simps)
    let ?last = "\<lambda>d. eff_then (setup_workik shop mem_front shop_resources) (eff_then (verify_handshake mem_front) (log_front mem_front (front_target shop) ''SYNC'' d))"
    have "returns (?last d)" for d by (intro mem_runs mem_workik mem_handshake mem_log)
    then have "\<exists>w3. ?last d w2 = (Inr (), w3)" for d w2 unfolding returns_def by (metis (full_types) old.unit.exhaust)
    with w1 w2 show ?thesis by (simp add: sync_tail_def eff_then_step shop_resources_def)
  qed
  from head tail obtain w1 where run: "mode_sync shop mem_front ?w = (Inr (), w1)" by (auto simp: mode_sync_split eff_bind_def)
  show ?thesis
    using sync_settles [OF mem_file_ports mem_backend shop_plain _ _ run, of short_app] up run by (auto simp: mem_app new)
qed

theorem init_is_complete_witness:
  "\<exists>w1. mode_init shop mem_front Map.empty = (Inr (), w1) \<and> w1 ''/r/frontend/web/src/App.tsx'' = Some (app_tsx shop_resources)"
proof -
  have "returns (write_front mem_front p t)" for p t unfolding write_front_def by (intro mem_runs)
  moreover have "returns (rename_project shop mem_front)"
    by (auto simp: returns_def rename_project_def in_front_def in_root_def mem_front_simps eff_defs or_raise_def set_key_def Let_def split: option.split)
  ultimately have "returns (mode_init shop mem_front)"
    unfolding mode_init_def create_scaffold_structure_def generate_deployment_assets_def configure_data_provider_def generate_app_tsx_def setup_lovable_def
    by (intro mem_runs mem_pages mem_workik mem_handshake mem_log)
  then obtain w1 where run: "mode_init shop mem_front Map.empty = (Inr (), w1)" unfolding returns_def by (metis (full_types) old.unit.exhaust)
  then show ?thesis using init_is_complete [OF mem_file_ports mem_backend shop_plain run] by (simp add: mem_app)
qed

end
