(* ===== verification/Installer.thy ===== *)
theory Installer
  imports PyJson Effects "HOL-Library.Sublist"
begin

text \<open>
  \<open>scripts/install_remote.py\<close>, which installs the factory into another repository, over a model of the file system, and
  \<open>scripts/verify_setup.py\<close>. Git is a parameter; a file operation that the system refuses (rights, a full disk) and links are
  not modelled.
\<close>

section \<open>Files\<close>

text \<open>A path is the list of its parts below the root.\<close>

type_synonym path = "string list"

datatype file_node = Folder | Content string

type_synonym files = "path \<Rightarrow> file_node option"

definition path_text :: "path \<Rightarrow> string" where
  "path_text p = concat (map (\<lambda>c. CHR 0x2F # c) p)"

text \<open>\<open>shutil.rmtree(d)\<close>\<close>

definition rmtree :: "path \<Rightarrow> files \<Rightarrow> string + files" where
  "rmtree d f =
     (case f d of
        None \<Rightarrow> Inl (''No such file or directory: '' @ path_text d)
      | Some (Content _) \<Rightarrow> Inl (''Not a directory: '' @ path_text d)
      | Some Folder \<Rightarrow> Inr (\<lambda>p. if prefix d p then None else f p))"

text \<open>\<open>os.makedirs(d, exist_ok=True)\<close>: the folders down to a path; a file in the way is an error.\<close>

fun make_folders :: "path \<Rightarrow> path list \<Rightarrow> files \<Rightarrow> string + files" where
  "make_folders d [] f = Inr f"
| "make_folders d (p # ps) f =
     (case f p of
        Some (Content _) \<Rightarrow> Inl (''Not a directory: '' @ path_text d)
      | _ \<Rightarrow> make_folders d ps (f(p \<mapsto> Folder)))"

definition makedirs :: "path \<Rightarrow> files \<Rightarrow> string + files" where
  "makedirs d f = make_folders d (prefixes d) f"

text \<open>\<open>shutil.copytree(src, dst)\<close> into a place that does not exist.\<close>

definition copytree :: "path \<Rightarrow> path \<Rightarrow> files \<Rightarrow> string + files" where
  "copytree src dst f =
     (if f dst \<noteq> None then Inl (''File exists: '' @ path_text dst)
      else map_sum id (\<lambda>g p. if strict_prefix dst p then g (src @ drop (length dst) p) else g p) (makedirs dst f))"

text \<open>\<open>shutil.copy2(src, dst)\<close> of a file: into the folder when there is one at the target.\<close>

definition copy2 :: "path \<Rightarrow> path \<Rightarrow> files \<Rightarrow> string + files" where
  "copy2 src dst f =
     (let d = (if f dst = Some Folder then dst @ [last src] else dst) in
      if f d = Some Folder then Inl (''Is a directory: '' @ path_text d)
      else if f (butlast d) \<noteq> Some Folder then Inl (''No such file or directory: '' @ path_text d)
      else Inr (f(d := f src)))"


section \<open>The installer\<close>

text \<open>\<open>temp_dir\<close> is a field of the installer.\<close>

record 'w machine =
  m_files :: files
  m_temp :: "path option"
  m_rest :: 'w

text \<open>A git command in a folder: exit code, output and error output, or the error of a process that cannot be started.\<close>

type_synonym 'w git = "string list \<Rightarrow> path \<Rightarrow> (files \<times> 'w, string, int \<times> string \<times> string) eff"

record installer =
  it_url :: string
  it_root :: path
  it_token :: string

definition on_files :: "(files \<Rightarrow> string + files) \<Rightarrow> ('w machine, string, unit) eff" where
  "on_files g m = (case g (m_files m) of Inl e \<Rightarrow> (Inl e, m) | Inr f \<Rightarrow> (Inr (), m\<lparr>m_files := f\<rparr>))"

definition on_git :: "(files \<times> 'w, string, 'a) eff \<Rightarrow> ('w machine, string, 'a) eff" where
  "on_git c m = (case c (m_files m, m_rest m) of (r, f, w) \<Rightarrow> (r, m\<lparr>m_files := f, m_rest := w\<rparr>))"

definition red :: string where "red = CHR 0x1B # ''[0;31m''"
definition no_colour :: string where "no_colour = CHR 0x1B # ''[0m''"

definition command_failed :: "string list \<Rightarrow> int \<Rightarrow> string \<Rightarrow> string" where
  "command_failed cmd code err =
     red @ ''Command failed: '' @ join_with '' '' cmd @ no_colour @ [CHR 0x0A] @ ''Exit code: '' @ show_int code @ [CHR 0x0A] @ ''Error: '' @ err"

definition run_command :: "'w git \<Rightarrow> string list \<Rightarrow> path \<Rightarrow> bool \<Rightarrow> ('w machine, string, int \<times> string \<times> string) eff" where
  "run_command git cmd cwd check =
     eff_bind (on_git (git cmd cwd)) (\<lambda>(code, out, err).
       if check \<and> code \<noteq> 0 then eff_raise (command_failed cmd code err) else eff_return (code, out, err))"

text \<open>\<open>FactoryInstaller(url)\<close>; the token is an environment variable.\<close>

fun rstrip_slash :: "string \<Rightarrow> string" where
  "rstrip_slash s = rev (dropWhile (\<lambda>c. c = CHR 0x2F) (rev s))"

definition no_token :: string where
  "no_token =
     red @ ''ERROR: FACTORY_ADMIN_TOKEN environment variable not set'' @ no_colour @ [CHR 0x0A] @
     ''Please set your GitHub Personal Access Token with '' @ [CHR 0x27] @ ''repo'' @ [CHR 0x27] @ '' and '' @ [CHR 0x27] @ ''workflow'' @ [CHR 0x27] @ '' scopes.''"

definition new_installer :: "path \<Rightarrow> string option \<Rightarrow> string \<Rightarrow> string + installer" where
  "new_installer base token url =
     (case token of
        None \<Rightarrow> Inl (no_token)
      | Some t \<Rightarrow> if t = [] then Inl (no_token)
                  else Inr \<lparr>it_url = rstrip_slash url, it_root = base, it_token = t\<rparr>)"

text \<open>\<open>url.split('github.com/')[-1]\<close>: what follows the last separator.\<close>

function after_last :: "string \<Rightarrow> string \<Rightarrow> string" where
  "after_last sep s = (case find_sub sep s of None \<Rightarrow> s | Some i \<Rightarrow> if sep = [] then s else after_last sep (drop (i + length sep) s))"
  by pat_completeness auto
termination
proof (relation "measure (\<lambda>(sep, s). length s)")
  fix sep s i
  assume "find_sub sep s = Some i" "sep \<noteq> []"
  then show "((sep, drop (i + length sep) s), sep, s) \<in> measure (\<lambda>(sep, s). length s)"
    using find_sub_bound [of sep s i] by (cases sep) simp_all
qed simp

definition authenticated_url :: "installer \<Rightarrow> string \<Rightarrow> string + string" where
  "authenticated_url I url =
     (let u = (if startswith ''http://'' url then py_replace ''http://'' ''https://'' url else url) in
      if substring ''github.com/'' u then Inr (''https://'' @ it_token I @ ''@github.com/'' @ after_last ''github.com/'' u)
      else Inl (''Invalid GitHub URL: '' @ u))"


definition clone_target :: "'w git \<Rightarrow> installer \<Rightarrow> path \<Rightarrow> ('w machine, string, unit) eff" where
  "clone_target git I tmp =
     eff_then (eff_modify (\<lambda>m. m\<lparr>m_files := (m_files m)(tmp \<mapsto> Folder), m_temp := Some tmp\<rparr>))
    (eff_bind (eff_lift (authenticated_url I (it_url I))) (\<lambda>u.
     eff_then (run_command git [''git'', ''clone'', u, path_text (tmp @ [''target_repo''])] (it_root I) True) (eff_return ())))"

definition factory_components :: "path list" where
  "factory_components = [[''.github'', ''workflows''], [''scripts''], [''config''], [''CLAUDE.md''], [''requirements.txt'']]"

text \<open>The folder a file is copied into exists when its parents are made, so \<open>exist_ok\<close> is all that \<open>mkdir\<close> does with it.\<close>

definition inject_component :: "path \<Rightarrow> path \<Rightarrow> path \<Rightarrow> files \<Rightarrow> string + files" where
  "inject_component base target c f =
     (let src = base @ c; dst = target @ c in
      case f src of
        None \<Rightarrow> Inr f
      | Some Folder \<Rightarrow>
          (case (if f dst \<noteq> None then rmtree dst f else Inr f) of Inl e \<Rightarrow> Inl e | Inr g \<Rightarrow> copytree src dst g)
      | Some (Content _) \<Rightarrow>
          (case makedirs (butlast dst) f of Inl e \<Rightarrow> Inl e | Inr g \<Rightarrow> copy2 src dst g))"

fun inject_components :: "path \<Rightarrow> path \<Rightarrow> path list \<Rightarrow> files \<Rightarrow> string + files" where
  "inject_components base target [] f = Inr f"
| "inject_components base target (c # cs) f =
     (case inject_component base target c f of Inl e \<Rightarrow> Inl e | Inr g \<Rightarrow> inject_components base target cs g)"

definition commit_and_push :: "'w git \<Rightarrow> path \<Rightarrow> ('w machine, string, unit) eff" where
  "commit_and_push git t =
     eff_then (run_command git [''git'', ''config'', ''user.email'', ''factory@billyrinksglobal.com''] t True)
    (eff_then (run_command git [''git'', ''config'', ''user.name'', ''Factory Installer''] t True)
    (eff_then (run_command git [''git'', ''add'', ''-A''] t True)
    (eff_bind (run_command git [''git'', ''status'', ''--porcelain''] t False) (\<lambda>(_, out, _).
     if py_strip out = [] then eff_return ()
     else
       eff_then (run_command git [''git'', ''commit'', ''-m'', ''feat: upgrade system to Autonomous Factory Standard''] t True)
      (eff_then (eff_catch (run_command git [''git'', ''push'', ''origin'', ''main''] t True)
                           (\<lambda>_. run_command git [''git'', ''push'', ''origin'', ''master''] t True))
         (eff_return ()))))))"

definition validate_installation :: "path \<Rightarrow> ('w machine, string, unit) eff" where
  "validate_installation t m =
     (if list_all (\<lambda>c. m_files m (t @ c) \<noteq> None) [[''.github'', ''workflows''], [''scripts''], [''CLAUDE.md'']]
      then (Inr (), m) else (Inl ''Installation validation failed'', m))"

definition clean_up :: "('w machine, string, unit) eff" where
  "clean_up m =
     (case m_temp m of
        None \<Rightarrow> (Inr (), m)
      | Some d \<Rightarrow> if m_files m d = None then (Inr (), m) else on_files (rmtree d) m)"

text \<open>\<open>try: m finally: c\<close>\<close>

definition finally_do :: "('s, 'x, 'a) eff \<Rightarrow> ('s, 'x, unit) eff \<Rightarrow> ('s, 'x, 'a) eff" where
  "finally_do m c s = (case m s of (r, s1) \<Rightarrow> (case c s1 of (Inl e, s2) \<Rightarrow> (Inl e, s2) | (Inr _, s2) \<Rightarrow> (r, s2)))"

text \<open>The error that leaves is printed, by \<open>install\<close> and by \<open>main\<close>.\<close>

definition install :: "'w git \<Rightarrow> installer \<Rightarrow> path \<Rightarrow> ('w machine, string, unit) eff" where
  "install git I tmp =
     (let t = tmp @ [''target_repo''] in
      finally_do
        (eff_then (clone_target git I tmp)
        (eff_then (on_files (inject_components (it_root I) t factory_components))
        (eff_then (commit_and_push git t) (validate_installation t))))
        clean_up)"

text \<open>The exit code, and the message that is printed when it is one.\<close>

definition installer_main ::
  "'w git \<Rightarrow> path \<Rightarrow> string option \<Rightarrow> path \<Rightarrow> string list \<Rightarrow> 'w machine \<Rightarrow> (nat \<times> string) \<times> 'w machine" where
  "installer_main git base token tmp args m =
     (case args of
        [url] \<Rightarrow> (case new_installer base token url of
                   Inl e \<Rightarrow> ((1, e), m)
                 | Inr I \<Rightarrow> (case install git I tmp m of (Inl e, m1) \<Rightarrow> ((1, e), m1) | (Inr _, m1) \<Rightarrow> ((0, []), m1)))
      | _ \<Rightarrow> ((1, red @ ''Usage: python scripts/install_remote.py <target_repo_url>'' @ no_colour @ [CHR 0x0A, CHR 0x0A] @
              ''Example: python scripts/install_remote.py https://github.com/user/repo''), m))"


section \<open>What the file operations do\<close>

lemma make_folders_eq: "make_folders d ps f = Inr g \<Longrightarrow> g = (\<lambda>p. if p \<in> set ps then Some Folder else f p)"
proof (induction ps arbitrary: f)
  case (Cons q ps)
  then have "make_folders d ps (f(q \<mapsto> Folder)) = Inr g" by (simp split: option.splits file_node.splits)
  with Cons.IH show ?case by (auto simp: fun_eq_iff)
qed simp

lemma makedirs_eq: "makedirs d f = Inr g \<Longrightarrow> g = (\<lambda>p. if prefix p d then Some Folder else f p)"
  using make_folders_eq [of d "prefixes d" f g] by (simp add: makedirs_def)

lemma prefix_below: "prefix d p \<Longrightarrow> d @ drop (length d) p = p"
  by (auto simp: prefix_def)

lemma copytree_eq:
  assumes "copytree src dst f = Inr g" and apart: "parallel src dst"
  shows "g (dst @ p) = (if p = [] then Some Folder else f (src @ p))" and "\<not> prefix dst q \<Longrightarrow> g q = (if prefix q dst then Some Folder else f q)"
proof -
  obtain h where h: "makedirs dst f = Inr h" "g = (\<lambda>p. if strict_prefix dst p then h (src @ drop (length dst) p) else h p)"
    using assms(1) by (cases "makedirs dst f") (auto simp: copytree_def split: if_splits)
  note m = makedirs_eq [OF h(1)]
  have "\<not> prefix (src @ p) dst" using apart by (meson append_prefixD parallelE)
  then show "g (dst @ p) = (if p = [] then Some Folder else f (src @ p))" by (auto simp: h(2) m strict_prefix_def)
  show "\<not> prefix dst q \<Longrightarrow> g q = (if prefix q dst then Some Folder else f q)" by (auto simp: h(2) m strict_prefix_def)
qed

text \<open>What a component of the factory leaves: the same folder, file by file, or the same file.\<close>

definition mirrored :: "path \<Rightarrow> path \<Rightarrow> path \<Rightarrow> files \<Rightarrow> files \<Rightarrow> bool" where
  "mirrored base target c f g \<longleftrightarrow>
     (case f (base @ c) of
        None \<Rightarrow> True
      | Some Folder \<Rightarrow> (\<forall>p. g (target @ c @ p) = f (base @ c @ p))
      | Some (Content x) \<Rightarrow> f (target @ c) \<noteq> Some Folder \<longrightarrow> g (target @ c) = Some (Content x))"

text \<open>Nothing changes outside the components, but for the folders on the way.\<close>

definition confined :: "path \<Rightarrow> files \<Rightarrow> files \<Rightarrow> bool" where
  "confined d f g \<longleftrightarrow> (\<forall>p. \<not> prefix d p \<longrightarrow> g p = f p \<or> (prefix p d \<and> g p = Some Folder))"

lemma rmtree_eq: "rmtree d f = Inr g \<Longrightarrow> g = (\<lambda>p. if prefix d p then None else f p)"
  by (auto simp: rmtree_def split: option.splits file_node.splits)

lemma inject_folder:
  assumes "inject_component base target c f = Inr g" and "parallel base target" and "f (base @ c) = Some Folder"
  shows "mirrored base target c f g \<and> confined (target @ c) f g"
proof -
  let ?S = "base @ c" and ?D = "target @ c"
  have apart: "parallel ?S ?D" using assms(2) by (rule parallel_append)
  obtain h where h: "(if f ?D \<noteq> None then rmtree ?D f else Inr f) = Inr h" "copytree ?S ?D h = Inr g"
    using assms(1,3) by (auto simp: inject_component_def Let_def split: sum.splits)
  have other: "\<not> prefix ?D p \<Longrightarrow> h p = f p" for p using h(1) by (auto dest: rmtree_eq split: if_splits)
  have "h (?S @ p) = f (?S @ p)" for p
    using apart by (intro other) (metis parallelE prefix_same_cases prefixI)
  then have "mirrored base target c f g"
    using copytree_eq(1) [OF h(2) apart] assms(3) by (auto simp: mirrored_def)
  moreover have "confined ?D f g" using copytree_eq(2) [OF h(2) apart] other by (auto simp: confined_def)
  ultimately show ?thesis ..
qed

lemma inject_file:
  assumes "inject_component base target c f = Inr g" and "parallel base target" and "f (base @ c) = Some (Content x)" and "c \<noteq> []"
  shows "mirrored base target c f g \<and> confined (target @ c) f g"
proof -
  let ?S = "base @ c" and ?D = "target @ c"
  have apart: "parallel ?S ?D" using assms(2) by (rule parallel_append)
  obtain h where h: "makedirs (butlast ?D) f = Inr h" "copy2 ?S ?D h = Inr g"
    using assms(1,3) by (auto simp: inject_component_def Let_def split: sum.splits)
  note m = makedirs_eq [OF h(1)]
  have "\<not> prefix ?S (butlast ?D)" using apart by (metis parallelE prefix_order.trans prefixeq_butlast)
  then have src: "h ?S = Some (Content x)" by (simp add: m assms(3))
  have "\<not> prefix ?D (butlast ?D)" using assms(4) by (metis prefix_length_le append_is_Nil_conv length_butlast diff_less length_greater_0_conv less_one linorder_not_le)
  then have dst: "h ?D = f ?D" by (simp add: m)
  obtain d where d: "g = h(d \<mapsto> Content x)" "prefix ?D d" "f ?D \<noteq> Some Folder \<longrightarrow> d = ?D"
    using h(2) by (auto simp: copy2_def Let_def src dst split: if_splits)
  have "mirrored base target c f g" using assms(3) d(1,3) by (auto simp: mirrored_def)
  moreover have "confined ?D f g"
    using d(1,2) by (auto simp: confined_def m intro: prefix_order.trans [OF _ prefixeq_butlast])
  ultimately show ?thesis ..
qed

lemma inject_component_effect:
  "inject_component base target c f = Inr g \<Longrightarrow> parallel base target \<Longrightarrow> c \<noteq> [] \<Longrightarrow> mirrored base target c f g \<and> confined (target @ c) f g"
proof (cases "f (base @ c)")
  case None
  then show "inject_component base target c f = Inr g \<Longrightarrow> ?thesis"
    by (simp add: inject_component_def Let_def mirrored_def confined_def)
next
  case (Some n)
  then show "inject_component base target c f = Inr g \<Longrightarrow> parallel base target \<Longrightarrow> c \<noteq> [] \<Longrightarrow> ?thesis"
    by (cases n) (simp_all add: inject_folder inject_file)
qed

lemma confined_parallel: "confined d f g \<Longrightarrow> parallel d p \<Longrightarrow> g p = f p"
  by (auto simp: confined_def)

text \<open>Changes at the targets of several components only.\<close>

definition confined_to :: "path set \<Rightarrow> files \<Rightarrow> files \<Rightarrow> bool" where
  "confined_to D f g \<longleftrightarrow>
     (\<forall>p. (\<forall>d\<in>D. \<not> prefix d p) \<longrightarrow> g p = f p \<or> (g p = Some Folder \<and> (\<exists>d\<in>D. prefix p d)))"

lemma confined_to_parallel: "confined_to D f g \<Longrightarrow> (\<And>d. d \<in> D \<Longrightarrow> parallel d p) \<Longrightarrow> g p = f p"
  unfolding confined_to_def parallel_def by blast

lemma mirrored_later:
  "mirrored base target c f h \<Longrightarrow> (\<And>p. g (target @ c @ p) = h (target @ c @ p)) \<Longrightarrow> mirrored base target c f g"
  using append_Nil2 [of c] unfolding mirrored_def by (auto split: option.splits file_node.splits) (metis append_Nil2)+

lemma mirrored_earlier:
  assumes "mirrored base target c h g" and "\<And>p. h (base @ p) = f (base @ p)" "h (target @ c) = f (target @ c)"
  shows "mirrored base target c f g"
  using assms by (auto simp: mirrored_def split: option.splits file_node.splits)

lemma beside: "parallel c d \<Longrightarrow> parallel (t @ d) (t @ c @ p)"
  using parallel_append [of c d p "[]"] by (auto simp: parallel_def)

lemma inject_components_effect:
  "inject_components base target cs f = Inr g \<Longrightarrow> parallel base target \<Longrightarrow> sorted_wrt parallel cs \<Longrightarrow> [] \<notin> set cs \<Longrightarrow>
   (\<forall>c\<in>set cs. mirrored base target c f g) \<and> confined_to ((@) target ` set cs) f g"
proof (induction cs arbitrary: f)
  case Nil
  then show ?case by (simp add: confined_to_def)
next
  case (Cons c cs)
  obtain h where h: "inject_component base target c f = Inr h" "inject_components base target cs h = Inr g"
    using Cons.prems(1) by (auto split: sum.splits)
  have first: "mirrored base target c f h" "confined (target @ c) f h"
    using inject_component_effect [OF h(1) Cons.prems(2)] Cons.prems(4) by auto
  have rest: "\<forall>c\<in>set cs. mirrored base target c h g" "confined_to ((@) target ` set cs) h g"
    using Cons.IH [OF h(2) Cons.prems(2)] Cons.prems(3,4) by auto
  have "g (target @ c @ p) = h (target @ c @ p)" for p
    using Cons.prems(3) by (intro confined_to_parallel [OF rest(2)]) (auto simp: beside)
  then have "mirrored base target c f g" by (rule mirrored_later [OF first(1)])
  moreover have "mirrored base target c' f g" if "c' \<in> set cs" for c'
  proof (rule mirrored_earlier [OF bspec [OF rest(1) that]])
    show "h (base @ p) = f (base @ p)" for p
      using Cons.prems(2) by (intro confined_parallel [OF first(2)]) (simp add: parallel_append parallel_commute)
    have "parallel c c'" using Cons.prems(3) that by simp
    then show "h (target @ c') = f (target @ c')" by (intro confined_parallel [OF first(2)]) (simp add: parallel_def)
  qed
  moreover have "confined_to ((@) target ` set (c # cs)) f g"
    using first(2) rest(2) unfolding confined_to_def confined_def by (simp add: image_iff) (metis (no_types, lifting))
  ultimately show ?case by simp
qed

lemma factory_components_apart: "sorted_wrt parallel factory_components" "[] \<notin> set factory_components"
  by (simp_all add: factory_components_def parallel_def)

text \<open>C36: After the injection the folders of the factory are in the target file by file, also without what the target had in their place,
  and its files as they are wherever the target has no folder in their place (into such a folder the file is copied, and the theorem
  says nothing of it); nothing else has changed in the target, nor in the factory.\<close>

theorem inject_mirrors:
  assumes "inject_components base target factory_components f = Inr g" and "parallel base target" and "c \<in> set factory_components"
  shows "(f (base @ c) = Some Folder \<longrightarrow> g (target @ c @ p) = f (base @ c @ p))
    \<and> (f (base @ c) = Some (Content x) \<and> f (target @ c) \<noteq> Some Folder \<longrightarrow> g (target @ c) = Some (Content x))
    \<and> g (base @ p) = f (base @ p)
    \<and> (list_all (\<lambda>c. \<not> prefix c p \<and> \<not> prefix p c) factory_components \<longrightarrow> g (target @ p) = f (target @ p))"
proof -
  note e = inject_components_effect [OF assms(1,2) factory_components_apart]
  have "mirrored base target c f g" using e assms(3) by blast
  moreover have "g (base @ p) = f (base @ p)"
    using e assms(2) by (intro confined_to_parallel [of _ f g]) (auto simp: parallel_append parallel_commute)
  moreover have "g (target @ p) = f (target @ p)" if "list_all (\<lambda>c. \<not> prefix c p \<and> \<not> prefix p c) factory_components"
    using e that by (intro confined_to_parallel [of _ f g]) (auto simp: parallel_def list_all_iff)
  ultimately show ?thesis by (auto simp: mirrored_def)
qed



section \<open>No trace on the machine\<close>

text \<open>What git promises: a clone into a path and the commands in the cloned folder change nothing but what is below the temporary
  folder.\<close>

definition git_confined :: "'w git \<Rightarrow> path \<Rightarrow> path \<Rightarrow> bool" where
  "git_confined git base tmp \<longleftrightarrow>
     (\<forall>cmd cwd f w r f' w'. git cmd cwd (f, w) = (r, f', w') \<longrightarrow>
        cwd = tmp @ [''target_repo''] \<or> (cwd = base \<and> take 2 cmd = [''git'', ''clone''] \<and> last cmd = path_text (tmp @ [''target_repo''])) \<longrightarrow>
        (\<forall>p. \<not> strict_prefix tmp p \<longrightarrow> f' p = f p))"

text \<open>While it works: the folders down to the temporary one are there, and all else is as before.\<close>

definition working :: "files \<Rightarrow> path \<Rightarrow> 'w machine \<Rightarrow> bool" where
  "working f tmp m \<longleftrightarrow>
     m_temp m = Some tmp \<and> (\<forall>p. prefix p tmp \<longrightarrow> m_files m p = Some Folder) \<and> (\<forall>p. \<not> prefix tmp p \<longrightarrow> m_files m p = f p)"

lemma working_files:
  "working f tmp m \<Longrightarrow> (\<And>p. \<not> strict_prefix tmp p \<Longrightarrow> g p = m_files m p) \<Longrightarrow> working f tmp (m\<lparr>m_files := g\<rparr>)"
  unfolding working_def by (simp add: prefix_order.less_le_not_le)

lemma working_rest [simp]: "working f tmp (m\<lparr>m_rest := w\<rparr>) = working f tmp m"
  by (simp add: working_def)

lemma run_command_keeps:
  assumes "git_confined git base tmp"
    and "cwd = tmp @ [''target_repo''] \<or> (cwd = base \<and> take 2 cmd = [''git'', ''clone''] \<and> last cmd = path_text (tmp @ [''target_repo'']))"
  shows "keeps (working f tmp) (run_command git cmd cwd check)"
proof -
  have "keeps (working f tmp) (on_git (git cmd cwd))"
  proof (rule keepsI)
    fix m r m'
    assume m: "working f tmp m" and run: "on_git (git cmd cwd) m = (r, m')"
    then obtain g w where "git cmd cwd (m_files m, m_rest m) = (r, g, w)" "m' = m\<lparr>m_files := g, m_rest := w\<rparr>"
      by (auto simp: on_git_def split: prod.splits)
    moreover from this have "\<not> strict_prefix tmp p \<Longrightarrow> g p = m_files m p" for p
      using assms unfolding git_confined_def by blast
    ultimately show "working f tmp m'" using working_files [OF m, of g] by simp
  qed
  then show ?thesis unfolding run_command_def by (auto intro!: preserved)
qed

lemma inject_keeps:
  assumes "parallel base tmp"
  shows "keeps (working f tmp) (on_files (inject_components base (tmp @ [''target_repo'']) factory_components))"
proof (rule keepsI)
  fix m r m'
  let ?t = "tmp @ [''target_repo'']"
  assume m: "working f tmp m" and run: "on_files (inject_components base ?t factory_components) m = (r, m')"
  have apart: "parallel base ?t" using assms parallel_append [of base tmp "[]" "[''target_repo'']"] by simp
  show "working f tmp m'"
  proof (cases "inject_components base ?t factory_components (m_files m)")
    case (Inr g)
    note e = inject_components_effect [OF Inr apart factory_components_apart]
    have "g p = m_files m p" if p: "\<not> strict_prefix tmp p" for p
    proof -
      have "\<not> prefix (?t @ c) p" for c using p by (auto simp: strict_prefix_def prefix_def)
      then have "g p = m_files m p \<or> (g p = Some Folder \<and> (\<exists>c\<in>set factory_components. prefix p (?t @ c)))"
        using e unfolding confined_to_def by auto
      moreover have "prefix p tmp" if "prefix p (?t @ c)" for c
        using p that prefix_same_cases [of p "?t @ c" tmp] by (auto simp: strict_prefix_def)
      ultimately show ?thesis using m unfolding working_def by metis
    qed
    then show ?thesis using working_files [OF m, of g] run Inr by (simp add: on_files_def)
  qed (use m run in \<open>simp add: on_files_def\<close>)
qed

lemma validate_keeps: "keeps P (validate_installation t)"
  by (simp add: keeps_def validate_installation_def)

lemma push_keeps:
  assumes "git_confined git base tmp"
  shows "keeps (working f tmp) (commit_and_push git (tmp @ [''target_repo'']))"
proof -
  have "keeps (working f tmp) (run_command git cmd (tmp @ [''target_repo'']) check)" for cmd check
    using assms by (rule run_command_keeps) simp
  then show ?thesis unfolding commit_and_push_def by (intro preserved)
qed

lemma clone_keeps:
  assumes "git_confined git base tmp" and "it_root I = base"
  shows "keeps (working f tmp) (eff_bind (eff_lift (authenticated_url I (it_url I))) (\<lambda>u.
    eff_then (run_command git [''git'', ''clone'', u, path_text (tmp @ [''target_repo''])] (it_root I) True) (eff_return ())))"
proof -
  have "keeps (working f tmp) (run_command git [''git'', ''clone'', u, path_text (tmp @ [''target_repo''])] (it_root I) True)" for u
    using assms by (intro run_command_keeps [where base = base]) simp_all
  then show ?thesis by (intro preserved)
qed

text \<open>What \<open>rmtree\<close> leaves of it.\<close>

lemma clean_up_restores:
  assumes "working f tmp m" and "\<And>p. prefix tmp p \<Longrightarrow> f p = None"
  shows "\<exists>m'. clean_up m = (Inr (), m') \<and> m_files m' = f"
proof -
  have "m_temp m = Some tmp" "m_files m tmp = Some Folder" using assms(1) by (auto simp: working_def)
  moreover have "(\<lambda>p. if prefix tmp p then None else m_files m p) = f" using assms by (auto simp: working_def)
  ultimately show ?thesis by (simp add: clean_up_def on_files_def rmtree_def)
qed

text \<open>The steps keep the folder, so the clean-up of \<open>finally\<close> finds what it removes.\<close>

lemma install_restores:
  assumes "git_confined git (it_root I) tmp" and "parallel (it_root I) tmp"
    and "\<And>p. prefix tmp p \<Longrightarrow> m_files m p = None" and "\<And>p. strict_prefix p tmp \<Longrightarrow> m_files m p = Some Folder"
  shows "m_files (snd (install git I tmp m)) = m_files m"
proof -
  let ?t = "tmp @ [''target_repo'']" and ?m = "m\<lparr>m_files := (m_files m)(tmp \<mapsto> Folder), m_temp := Some tmp\<rparr>"
  let ?rest = "eff_then (eff_bind (eff_lift (authenticated_url I (it_url I))) (\<lambda>u.
      eff_then (run_command git [''git'', ''clone'', u, path_text ?t] (it_root I) True) (eff_return ())))
    (eff_then (on_files (inject_components (it_root I) ?t factory_components))
    (eff_then (commit_and_push git ?t) (validate_installation ?t)))"
  have "install git I tmp m = finally_do ?rest clean_up ?m"
    by (simp add: install_def Let_def finally_do_def clone_target_def eff_defs split: prod.split sum.split)
  moreover obtain r m1 where run: "?rest ?m = (r, m1)" by (cases "?rest ?m")
  moreover obtain m' where "clean_up m1 = (Inr (), m')" "m_files m' = m_files m"
  proof -
    have "keeps (working (m_files m) tmp) ?rest"
      using clone_keeps [OF assms(1) refl] inject_keeps [OF assms(2)] push_keeps [OF assms(1)] validate_keeps by (intro keeps_then)
    moreover have "working (m_files m) tmp ?m" using assms(4) by (auto simp: working_def strict_prefix_def)
    ultimately have "working (m_files m) tmp m1" using run by (rule keepsD)
    from clean_up_restores [OF this assms(3)] that show thesis by blast
  qed
  ultimately show ?thesis by (simp add: finally_do_def)
qed

text \<open>C35: The installer leaves no trace on the machine it runs on: when git changes nothing outside the clone, every file is as before when
  the installer has ended, whether it succeeded or failed at any step, with the clone in a new temporary folder.\<close>

theorem install_leaves_no_trace:
  assumes "git_confined git base tmp" and "parallel base tmp"
    and "\<And>p. prefix tmp p \<Longrightarrow> m_files m p = None" and "\<And>p. strict_prefix p tmp \<Longrightarrow> m_files m p = Some Folder"
  shows "m_files (snd (installer_main git base token tmp args m)) = m_files m"
proof -
  have "new_installer base token url = Inr I \<Longrightarrow> m_files (snd (install git I tmp m)) = m_files m" for url I
    using assms by (intro install_restores) (auto simp: new_installer_def split: option.splits if_splits)
  then show ?thesis by (auto simp: installer_main_def split: list.split sum.split prod.split) (metis snd_conv)+
qed

section \<open>Addresses and messages\<close>

text \<open>The address of a repository, plain or secure, with or without a slash at its end, becomes the one with the token.\<close>

lemma find_sub_None: "find_sub p s = None \<longleftrightarrow> \<not> substring p s"
  by (induction s) auto

lemma github_last: "\<not> substring ''github.com/'' r \<Longrightarrow> after_last ''github.com/'' (''https://github.com/'' @ r) = r"
  using find_sub_None [of "''github.com/''" r] by (subst after_last.simps) (simp add: after_last.simps [of _ r])

lemma authenticated_https:
  "\<not> substring ''github.com/'' r \<Longrightarrow>
   authenticated_url I (''https://github.com/'' @ r) = Inr (''https://'' @ it_token I @ ''@github.com/'' @ r)"
  using github_last [of r] by (simp add: authenticated_url_def)

text \<open>A clone that fails ends the installer with exit code one and a message that holds the token: the message of the failed
  command repeats the authenticated address, and both \<open>install\<close> and \<open>main\<close> print it.\<close>

lemma clone_failure_leaks_token:
  assumes "new_installer base (Some t) url = Inr I" "authenticated_url I (it_url I) = Inr u"
    and git: "git_confined git base tmp" "\<And>p. prefix p tmp \<Longrightarrow> p \<noteq> tmp \<Longrightarrow> m_files m p = Some Folder"
    and failed: "git [''git'', ''clone'', u, path_text (tmp @ [''target_repo''])] base ((m_files m)(tmp \<mapsto> Folder), m_rest m) = (Inr (code, out, err), f, w)"
      "code \<noteq> 0"
  shows "\<exists>msg m'. installer_main git base (Some t) tmp [url] m = ((1, msg), m') \<and> substring t msg"
proof -
  let ?cmd = "[''git'', ''clone'', u, path_text (tmp @ [''target_repo''])]" and ?m = "m\<lparr>m_files := (m_files m)(tmp \<mapsto> Folder), m_temp := Some tmp\<rparr>"
  let ?m1 = "?m\<lparr>m_files := f, m_rest := w\<rparr>"
  have I: "it_root I = base" "it_token I = t" using assms(1) by (auto simp: new_installer_def split: if_splits)
  have "\<forall>p. \<not> strict_prefix tmp p \<longrightarrow> f p = ((m_files m)(tmp \<mapsto> Folder)) p" using git(1) failed(1) unfolding git_confined_def by fastforce
  then have "f tmp = Some Folder" by simp
  then obtain m2 where "clean_up ?m1 = (Inr (), m2)" by (auto simp: clean_up_def on_files_def rmtree_def)
  then have "install git I tmp m = (Inl (command_failed ?cmd code err), m2)"
    using failed by (simp add: install_def Let_def finally_do_def clone_target_def run_command_def on_git_def assms(2) I eff_defs)
  moreover have "substring t (command_failed ?cmd code err)"
  proof -
    obtain v where "u = ''https://'' @ t @ v" using assms(2) I by (auto simp: authenticated_url_def Let_def split: if_splits)
    then have "command_failed ?cmd code err = (red @ ''Command failed: git clone https://'') @ t @ (v @ '' '' @ path_text (tmp @ [''target_repo'']) @
        no_colour @ [CHR 0x0A] @ ''Exit code: '' @ show_int code @ [CHR 0x0A] @ ''Error: '' @ err)"
      by (simp add: command_failed_def)
    then show ?thesis unfolding substring_iff by blast
  qed
  ultimately show ?thesis using assms(1) by (simp add: installer_main_def)
qed

text \<open>A validation that fails comes after the push: what has been pushed stays.\<close>

lemma failed_validation_is_pushed:
  assumes "commit_and_push git t m = (Inr (), m1)" and "m_files m1 (t @ [''CLAUDE.md'']) = None"
  shows "eff_then (commit_and_push git t) (validate_installation t) m = (Inl ''Installation validation failed'', m1)"
  using assms by (simp add: eff_then_step validate_installation_def)


section \<open>Witnesses\<close>

text \<open>A machine with a factory, and a git that clones an old version of it.\<close>

definition old_clone :: "path \<Rightarrow> files \<Rightarrow> files" where
  "old_clone t f = f(t \<mapsto> Folder, t @ [''scripts''] \<mapsto> Folder, t @ [''scripts'', ''old.py''] \<mapsto> Content ''old'', t @ [''README.md''] \<mapsto> Content ''app'')"

definition mem_git :: "path \<Rightarrow> string list list git" where
  "mem_git t cmd cwd s =
     (case s of (f, w) \<Rightarrow>
        (Inr (0, if cmd = [''git'', ''status'', ''--porcelain''] then '' M scripts'' else [], []),
         if take 2 cmd = [''git'', ''clone''] then old_clone t f else f, w @ [cmd]))"

definition factory_files :: files where
  "factory_files =
     [[] \<mapsto> Folder, [''tmp''] \<mapsto> Folder, [''factory''] \<mapsto> Folder, [''factory'', ''.github''] \<mapsto> Folder, [''factory'', ''.github'', ''workflows''] \<mapsto> Folder,
      [''factory'', ''scripts''] \<mapsto> Folder, [''factory'', ''scripts'', ''new.py''] \<mapsto> Content ''new'', [''factory'', ''CLAUDE.md''] \<mapsto> Content ''rules'']"

definition factory_machine :: "string list list machine" where
  "factory_machine = \<lparr>m_files = factory_files, m_temp = None, m_rest = []\<rparr>"

lemma mem_git_confined: "git_confined (mem_git [''tmp'', ''x'', ''target_repo'']) [''factory''] [''tmp'', ''x'']"
  by (auto simp: git_confined_def mem_git_def old_clone_def strict_prefix_def split: if_splits)

lemma nothing_temporary: "prefix [''tmp'', ''x''] p \<Longrightarrow> factory_files p = None"
  by (auto simp: factory_files_def prefix_def)

lemma temporary_parents: "strict_prefix p [''tmp'', ''x''] \<Longrightarrow> factory_files p = Some Folder"
proof -
  assume h: "strict_prefix p [''tmp'', ''x'']"
  then have "p \<in> set (prefixes [''tmp'', ''x''])" unfolding in_set_prefixes by (rule prefix_order.less_imp_le)
  then have "p = [] \<or> p = [''tmp'']" using h by (auto simp: strict_prefix_def)
  then show "factory_files p = Some Folder" by (auto simp: factory_files_def)
qed

theorem install_leaves_no_trace_witness:
  "m_files (snd (installer_main (mem_git [''tmp'', ''x'', ''target_repo'']) [''factory''] (Some ''secret'') [''tmp'', ''x'']
     [''https://github.com/o/r''] factory_machine)) = m_files factory_machine
   \<and> fst (installer_main (mem_git [''tmp'', ''x'', ''target_repo'']) [''factory''] (Some ''secret'') [''tmp'', ''x'']
     [''https://github.com/o/r''] factory_machine) = (0, [])"
proof
  show "m_files (snd (installer_main (mem_git [''tmp'', ''x'', ''target_repo'']) [''factory''] (Some ''secret'') [''tmp'', ''x'']
     [''https://github.com/o/r''] factory_machine)) = m_files factory_machine"
    by (rule install_leaves_no_trace [OF mem_git_confined]) (simp_all add: parallel_def factory_machine_def nothing_temporary temporary_parents)
qed code_simp

theorem inject_mirrors_witness:
  "\<exists>g. inject_components [''factory''] [''t''] factory_components (old_clone [''t''] factory_files) = Inr g
    \<and> g [''t'', ''scripts'', ''new.py''] = Some (Content ''new'') \<and> g [''t'', ''scripts'', ''old.py''] = None
    \<and> g [''t'', ''README.md''] = Some (Content ''app'')"
proof -
  have "\<not> isl (inject_components [''factory''] [''t''] factory_components (old_clone [''t''] factory_files))" by code_simp
  then obtain g where g: "inject_components [''factory''] [''t''] factory_components (old_clone [''t''] factory_files) = Inr g"
    by (cases "inject_components [''factory''] [''t''] factory_components (old_clone [''t''] factory_files)") auto
  have "parallel [''factory''] [''t'']" "[''scripts''] \<in> set factory_components" by (simp_all add: parallel_def factory_components_def)
  note effect = inject_mirrors [OF g this]
  show ?thesis
    using g effect [of "[''new.py'']"] effect [of "[''old.py'']"] effect [of "[''README.md'']"]
    by (simp add: old_clone_def factory_files_def factory_components_def)
qed

end
