(* ===== verification/SetupCheck.thy ===== *)
theory SetupCheck
  imports PyText
begin

text \<open>
  \<open>scripts/verify_setup.py\<close>: the secrets, files and packages that the factory needs, and the exit code. The environment, the files
  and the imports are parameters; a message is the facts it is made of.
\<close>

datatype secret_state = Not_configured | Too_short | Configured

definition check_secret :: "(string \<Rightarrow> string option) \<Rightarrow> string \<Rightarrow> secret_state" where
  "check_secret env v =
     (case env v of
        None \<Rightarrow> Not_configured
      | Some s \<Rightarrow> if s = [] then Not_configured else if length s < 10 then Too_short else Configured)"

text \<open>\<open>__import__\<close> of a package; another exception than \<open>ImportError\<close> leaves \<open>main\<close>.\<close>

datatype import_result = Imported | Import_error | Import_raises string

fun check_python_package :: "import_result \<Rightarrow> string + bool" where
  "check_python_package Imported = Inr True"
| "check_python_package Import_error = Inr False"
| "check_python_package (Import_raises e) = Inl e"

fun check_packages :: "(string \<Rightarrow> import_result) \<Rightarrow> string list \<Rightarrow> string + (string \<times> bool) list" where
  "check_packages imp [] = Inr []"
| "check_packages imp (n # ns) =
     (case check_python_package (imp n) of
        Inl e \<Rightarrow> Inl e
      | Inr b \<Rightarrow> map_sum id (\<lambda>r. (n, b) # r) (check_packages imp ns))"

definition required_secrets :: "string list" where
  "required_secrets = [''ANTHROPIC_API_KEY'', ''FACTORY_ADMIN_TOKEN'', ''GITHUB_TOKEN'']"

definition needed_files :: "string list" where
  "needed_files =
     [''CLAUDE.md'', ''.github/workflows/hunter-loop.yml'', ''.github/workflows/growth-engine.yml'', ''.github/workflows/claude.yml'',
      ''scripts/agents/trend_hunter.py'', ''scripts/agents/autonomous_growth.py'', ''docs/USER_MANUAL.md'']"

definition needed_packages :: "string list" where
  "needed_packages = [''anthropic'', ''github'', ''feedparser'']"

definition optional_files :: "string list" where
  "optional_files = [''config/ideal-customer-profile.yaml'', ''.repo-index/components.yaml'', ''docs/KNOWN_ISSUES.md'']"

text \<open>The summary: ready, the number of warnings, or the number of critical issues with the variables it explains how to set.\<close>

datatype setup_verdict = Ready | Warned nat | Failed nat "string list"

record setup_report =
  sr_secrets :: "(string \<times> secret_state) list"
  sr_files :: "(string \<times> bool) list"
  sr_packages :: "(string \<times> bool) list"
  sr_optional :: "(string \<times> bool) list"
  sr_index_note :: bool
  sr_verdict :: setup_verdict

definition is_set :: "(string \<Rightarrow> string option) \<Rightarrow> string \<Rightarrow> bool" where
  "is_set env v \<longleftrightarrow> (case env v of None \<Rightarrow> False | Some s \<Rightarrow> s \<noteq> [])"

definition verify_main ::
  "(string \<Rightarrow> string option) \<Rightarrow> (string \<Rightarrow> bool) \<Rightarrow> (string \<Rightarrow> import_result) \<Rightarrow> string + setup_report" where
  "verify_main env there imp =
     (let secrets = map (\<lambda>v. (v, check_secret env v)) required_secrets;
          files = map (\<lambda>p. (p, there p)) needed_files in
      case check_packages imp needed_packages of
        Inl e \<Rightarrow> Inl e
      | Inr packages \<Rightarrow>
          (let warnings = length (filter (\<lambda>(_, b). \<not> b) files) + length (filter (\<lambda>(_, b). \<not> b) packages);
               critical = length (filter (\<lambda>(_, s). s \<noteq> Configured) secrets) in
           Inr \<lparr>sr_secrets = secrets, sr_files = files, sr_packages = packages, sr_optional = map (\<lambda>p. (p, there p)) optional_files,
                sr_index_note = (\<not> there ''.repo-index/components.yaml''),
                sr_verdict = (if critical = 0 then if warnings = 0 then Ready else Warned warnings
                              else Failed critical (filter (\<lambda>v. \<not> is_set env v) [''ANTHROPIC_API_KEY'', ''FACTORY_ADMIN_TOKEN'']))\<rparr>))"

fun exit_of :: "string + setup_report \<Rightarrow> nat" where
  "exit_of (Inl e) = 1"
| "exit_of (Inr r) = (case sr_verdict r of Failed _ _ \<Rightarrow> 1 | _ \<Rightarrow> 0)"


section \<open>When it passes\<close>

lemma check_packages_InrD: "check_packages imp ns = Inr r \<Longrightarrow> r = map (\<lambda>n. (n, imp n = Imported)) ns"
proof (induction ns arbitrary: r)
  case (Cons n ns)
  then show ?case by (cases "imp n"; cases "check_packages imp ns") auto
qed simp

lemma check_packages_total: "(\<And>n e. imp n \<noteq> Import_raises e) \<Longrightarrow> check_packages imp ns = Inr (map (\<lambda>n. (n, imp n = Imported)) ns)"
proof (induction ns)
  case (Cons n ns)
  then show ?case by (cases "imp n") auto
qed simp

lemma configured_iff: "check_secret env v = Configured \<longleftrightarrow> (\<exists>s. env v = Some s \<and> 10 \<le> length s)"
  by (auto simp: check_secret_def split: option.splits if_splits)

text \<open>The exit code is zero exactly when every required secret has at least ten characters and no import raises another error:
  missing files and packages only warn.\<close>

lemma setup_exit_code:
  "exit_of (verify_main env there imp) = 0 \<longleftrightarrow>
     (\<exists>r. check_packages imp needed_packages = Inr r) \<and> list_all (\<lambda>v. \<exists>s. env v = Some s \<and> 10 \<le> length s) required_secrets"
proof -
  have "length (filter (\<lambda>(_, s). s \<noteq> Configured) (map (\<lambda>v. (v, check_secret env v)) required_secrets)) = 0
      \<longleftrightarrow> list_all (\<lambda>v. check_secret env v = Configured) required_secrets"
    by (auto simp: filter_empty_conv list_all_iff)
  then show ?thesis
    unfolding verify_main_def Let_def configured_iff by (cases "check_packages imp needed_packages") auto
qed

text \<open>One of the files that are looked for is at another place of the repository, so a complete repository is never reported as
  ready.\<close>

lemma never_ready:
  assumes "\<not> there ''scripts/agents/autonomous_growth.py''" and "verify_main env there imp = Inr r"
  shows "sr_verdict r \<noteq> Ready"
proof -
  have "filter ((\<lambda>(_, b). \<not> b) \<circ> (\<lambda>p. (p, there p))) needed_files \<noteq> []"
    using assms(1) by (auto simp: needed_files_def)
  then show ?thesis
    using assms(2) unfolding verify_main_def Let_def by (cases "check_packages imp needed_packages") (auto split: if_splits)
qed

end
