(* ===== verification/Documents.thy ===== *)
theory Documents
  imports PyText Effects
begin

text \<open>
  The scripts of the documentation: \<open>docs/scripts/convert_presentations.py\<close>, which turns presentations in HTML into PowerPoint files,
  and \<open>docs/update_changelog.py\<close>. The events of \<open>html.parser\<close>, the files and what python-pptx does with a slide are parameters; a
  slide is the list of its shapes.
\<close>

section \<open>The extractor\<close>

text \<open>What \<open>HTMLParser\<close> calls: a tag with its attributes, whose value may be missing; the end of a tag; text.\<close>

datatype event = Start_tag string "(string \<times> string option) list" | End_tag string | Text string

record slide =
  sl_title :: string
  sl_subtitle :: string
  sl_content :: "string list"
  sl_bullets :: "string list"
  sl_table :: "string list list"
  sl_code :: string
  sl_title_slide :: bool

record extractor =
  ex_slides :: "slide list"
  ex_current :: "slide option"
  ex_text :: string
  ex_section :: bool
  ex_h1 :: bool
  ex_h2 :: bool
  ex_h3 :: bool
  ex_li :: bool
  ex_td :: bool
  ex_th :: bool
  ex_pre :: bool
  ex_code :: bool
  ex_stack :: "string list"
  ex_row :: "string list"

definition new_extractor :: extractor where
  "new_extractor =
     \<lparr>ex_slides = [], ex_current = None, ex_text = [], ex_section = False, ex_h1 = False, ex_h2 = False, ex_h3 = False, ex_li = False,
      ex_td = False, ex_th = False, ex_pre = False, ex_code = False, ex_stack = [], ex_row = []\<rparr>"

text \<open>\<open>re.sub(r'\s+', ' ', text).strip()\<close>\<close>

fun squeeze :: "string \<Rightarrow> string" where
  "squeeze [] = []"
| "squeeze (c # s) =
     (if is_space c then CHR 0x20 # (case squeeze s of [] \<Rightarrow> [] | d # t \<Rightarrow> if is_space c \<and> d = CHR 0x20 then t else d # t)
      else c # squeeze s)"

definition clean_text :: "string \<Rightarrow> string" where
  "clean_text s = py_strip (squeeze s)"

definition keep_current :: "extractor \<Rightarrow> slide list" where
  "keep_current x = ex_slides x @ (case ex_current x of None \<Rightarrow> [] | Some s \<Rightarrow> [s])"

text \<open>The dictionary of the attributes keeps the last of a name; a class without a value is \<open>None\<close>, in which nothing can be looked
  for.\<close>

definition is_title_class :: "(string \<times> string option) list \<Rightarrow> string + bool" where
  "is_title_class attrs =
     (case map_of (rev attrs) ''class'' of
        None \<Rightarrow> Inr False
      | Some None \<Rightarrow> Inl ''TypeError''
      | Some (Some v) \<Rightarrow> Inr (find_sub ''title-slide'' v \<noteq> None))"

definition new_slide :: "bool \<Rightarrow> slide" where
  "new_slide b =
     \<lparr>sl_title = [], sl_subtitle = [], sl_content = [], sl_bullets = [], sl_table = [], sl_code = [], sl_title_slide = b\<rparr>"

definition handle_starttag :: "string \<Rightarrow> (string \<times> string option) list \<Rightarrow> extractor \<Rightarrow> string + extractor" where
  "handle_starttag tag attrs x0 =
     (let x = x0\<lparr>ex_stack := ex_stack x0 @ [tag]\<rparr> in
      if tag = ''section'' then
        map_sum id (\<lambda>b. x\<lparr>ex_section := True, ex_slides := keep_current x, ex_current := Some (new_slide b)\<rparr>) (is_title_class attrs)
      else Inr
       (if tag = ''h1'' then x\<lparr>ex_h1 := True, ex_text := []\<rparr>
        else if tag = ''h2'' then x\<lparr>ex_h2 := True, ex_text := []\<rparr>
        else if tag = ''h3'' then x\<lparr>ex_h3 := True, ex_text := []\<rparr>
        else if tag = ''li'' then x\<lparr>ex_li := True, ex_text := []\<rparr>
        else if tag = ''td'' then x\<lparr>ex_td := True, ex_text := []\<rparr>
        else if tag = ''th'' then x\<lparr>ex_th := True, ex_text := []\<rparr>
        else if tag = ''tr'' then x\<lparr>ex_row := []\<rparr>
        else if tag = ''pre'' then x\<lparr>ex_pre := True, ex_text := []\<rparr>
        else if tag = ''code'' then x\<lparr>ex_code := True\<rparr>
        else x))"

definition handle_endtag :: "string \<Rightarrow> extractor \<Rightarrow> extractor" where
  "handle_endtag tag x0 =
     (let x = (if ex_stack x0 \<noteq> [] \<and> last (ex_stack x0) = tag then x0\<lparr>ex_stack := butlast (ex_stack x0)\<rparr> else x0);
          t = clean_text (ex_text x) in
      if tag = ''section'' then x\<lparr>ex_section := False\<rparr>
      else if tag \<in> {''td'', ''th''} then x\<lparr>ex_td := False, ex_th := False, ex_row := ex_row x @ [t]\<rparr>
      else if tag = ''code'' then x\<lparr>ex_code := False\<rparr>
      else case ex_current x of
             None \<Rightarrow> x
           | Some s \<Rightarrow>
               (if tag = ''h1'' then x\<lparr>ex_h1 := False, ex_current := Some (s\<lparr>sl_title := t\<rparr>)\<rparr>
                else if tag = ''h2'' then
                  x\<lparr>ex_h2 := False, ex_current := Some (if sl_title s = [] then s\<lparr>sl_title := t\<rparr> else s\<lparr>sl_subtitle := t\<rparr>)\<rparr>
                else if tag = ''h3'' then x\<lparr>ex_h3 := False, ex_current := Some (s\<lparr>sl_content := sl_content s @ [t]\<rparr>)\<rparr>
                else if tag = ''li'' then
                  x\<lparr>ex_li := False, ex_current := Some (if t = [] then s else s\<lparr>sl_bullets := sl_bullets s @ [t]\<rparr>)\<rparr>
                else if tag = ''tr'' \<and> ex_row x \<noteq> [] then
                  x\<lparr>ex_row := [], ex_current := Some (s\<lparr>sl_table := sl_table s @ [ex_row x]\<rparr>)\<rparr>
                else if tag = ''pre'' then x\<lparr>ex_pre := False, ex_current := Some (s\<lparr>sl_code := ex_text x\<rparr>)\<rparr>
                else x))"

definition collecting :: "extractor \<Rightarrow> bool" where
  "collecting x \<longleftrightarrow> ex_h1 x \<or> ex_h2 x \<or> ex_h3 x \<or> ex_li x \<or> ex_td x \<or> ex_th x \<or> ex_pre x"

definition handle_data :: "string \<Rightarrow> extractor \<Rightarrow> extractor" where
  "handle_data d x = (if collecting x then x\<lparr>ex_text := ex_text x @ d\<rparr> else x)"

fun feed :: "event list \<Rightarrow> extractor \<Rightarrow> string + extractor" where
  "feed [] x = Inr x"
| "feed (Start_tag t a # es) x = (case handle_starttag t a x of Inl e \<Rightarrow> Inl e | Inr y \<Rightarrow> feed es y)"
| "feed (End_tag t # es) x = feed es (handle_endtag t x)"
| "feed (Text d # es) x = feed es (handle_data d x)"

definition get_slides :: "extractor \<Rightarrow> slide list" where
  "get_slides x = keep_current x"

definition extract_slides :: "event list \<Rightarrow> string + slide list" where
  "extract_slides es = map_sum id get_slides (feed es new_extractor)"


section \<open>Slides of a presentation\<close>

datatype colour = Green | Dark | White

text \<open>Sizes in points; \<open>pa_bullet\<close> is the sign in front of the text.\<close>

record text_line =
  pa_bullet :: bool
  pa_text :: string
  pa_size :: nat
  pa_bold :: bool
  pa_colour :: colour
  pa_centred :: bool

definition para :: "string \<Rightarrow> nat \<Rightarrow> bool \<Rightarrow> colour \<Rightarrow> bool \<Rightarrow> text_line" where
  "para t n b c m = \<lparr>pa_bullet = False, pa_text = t, pa_size = n, pa_bold = b, pa_colour = c, pa_centred = m\<rparr>"

text \<open>Distances from the top and heights in inches. A table has its numbers of rows and columns and the cells that are set.\<close>

datatype shape =
    Bar rat
  | Text_box rat rat "text_line list"
  | Table_at rat nat nat "(nat \<times> nat \<times> string \<times> bool) list"

definition create_title_slide :: "slide \<Rightarrow> shape list" where
  "create_title_slide s =
     [Bar (1 / 2), Text_box 2 (3 / 2) [para (sl_title s) 44 True Green True]]
     @ (if sl_subtitle s = [] then [] else [Text_box (7 / 2) 1 [para (sl_subtitle s) 24 False Dark True]])"

definition table_cells :: "nat \<Rightarrow> nat \<Rightarrow> string list list \<Rightarrow> (nat \<times> nat \<times> string \<times> bool) list" where
  "table_cells rows cols t =
     concat (map (\<lambda>(i, r). map (\<lambda>(j, c). (i, j, c, i = 0)) (enumerate 0 (take cols r))) (enumerate 0 (take rows t)))"

definition create_content_slide :: "slide \<Rightarrow> shape list" where
  "create_content_slide s =
     (let y = (if sl_subtitle s = [] then 13 / 10 else 13 / 10 + 6 / 10);
          rows = min (length (sl_table s)) 8;
          cols = min (length (hd (sl_table s))) 5 in
      [Bar (3 / 10)]
      @ (if sl_title s = [] then [] else [Text_box (1 / 2) (8 / 10) [para (sl_title s) 32 True Green False]])
      @ (if sl_subtitle s = [] then [] else [Text_box (13 / 10) (1 / 2) [para (sl_subtitle s) 20 False Dark False]])
      @ (if sl_bullets s = [] then []
         else [Text_box y 4 (map (\<lambda>b. (para b 18 False Dark False)\<lparr>pa_bullet := True\<rparr>) (take 10 (sl_bullets s)))])
      @ (if 1 < length (sl_table s) \<and> 0 < cols
         then [Table_at (if sl_bullets s = [] then y else 9 / 2) rows cols (table_cells rows cols (sl_table s))] else []))"

definition is_shown :: "slide \<Rightarrow> bool" where
  "is_shown s \<longleftrightarrow> sl_title s \<noteq> [] \<or> sl_bullets s \<noteq> []"

definition presentation :: "slide list \<Rightarrow> shape list list" where
  "presentation ss = map (\<lambda>s. if sl_title_slide s then create_title_slide s else create_content_slide s) (filter is_shown ss)"


section \<open>The files\<close>

record 'w document_ports =
  dp_exists :: "string \<Rightarrow> 'w \<Rightarrow> bool"
  dp_read :: "string \<Rightarrow> ('w, string, string) eff"
  dp_parse :: "string \<Rightarrow> event list"
  dp_save :: "string \<Rightarrow> shape list list \<Rightarrow> ('w, string, unit) eff"
  dp_write :: "string \<Rightarrow> string \<Rightarrow> ('w, string, unit) eff"

definition convert_html_to_pptx :: "'w document_ports \<Rightarrow> string \<Rightarrow> string \<Rightarrow> ('w, string, unit) eff" where
  "convert_html_to_pptx P html out =
     eff_bind (dp_read P html) (\<lambda>c. eff_bind (eff_lift (extract_slides (dp_parse P c))) (\<lambda>ss. dp_save P out (presentation ss)))"

definition base_dir :: string where
  "base_dir = ''/Users/AbiolaOgunsakin1/Anti_Call-Masking/anti-call-masking/docs''"

definition all_presentations :: "(string \<times> string) list" where
  "all_presentations =
     map (\<lambda>n. (''training/presentations/'' @ n @ ''.html'', ''training/presentations/exports/pptx/'' @ n @ ''.pptx''))
       [''01-system-overview'', ''02-admin-training'', ''03-soc-analyst-training'', ''04-developer-training'']
     @ map (\<lambda>n. (''presentations/'' @ n @ ''.html'', ''presentations/exports/pptx/'' @ n @ ''.pptx''))
       [''NCC_EXECUTIVE_SUMMARY'', ''NCC_CAPABILITIES_DEMO'']"

text \<open>\<open>main\<close>: a presentation that fails is reported and the others go on.\<close>

definition convert_one :: "'w document_ports \<Rightarrow> string \<times> string \<Rightarrow> ('w, string, unit) eff" where
  "convert_one P p w =
     (if dp_exists P (base_dir @ ''/'' @ fst p) w
      then eff_catch (convert_html_to_pptx P (base_dir @ ''/'' @ fst p) (base_dir @ ''/'' @ snd p)) (\<lambda>_. eff_return ()) w
      else (Inr (), w))"

definition convert_all :: "'w document_ports \<Rightarrow> ('w, string, unit) eff" where
  "convert_all P = eff_for all_presentations (convert_one P)"

definition changelog_dir :: string where
  "changelog_dir = ''/home/runner/work/VoxGuard/VoxGuard/docs/''"

definition update_changelog :: "'w document_ports \<Rightarrow> ('w, string, unit) eff" where
  "update_changelog P =
     eff_bind (dp_read P (changelog_dir @ ''AI_CHANGELOG_UPDATE.md'')) (\<lambda>new_entry.
     eff_bind (dp_read P (changelog_dir @ ''AI_CHANGELOG.md'')) (\<lambda>existing.
       dp_write P (changelog_dir @ ''AI_CHANGELOG.md'') (new_entry @ [CHR 0x0A] @ existing)))"


section \<open>Reading a presentation back\<close>

text \<open>A presentation as events: the elements of a slide one after the other, with some text \<open>g\<close> between the tags.\<close>

definition element :: "string \<Rightarrow> string \<Rightarrow> string \<Rightarrow> event list" where
  "element g tag t = [Start_tag tag [], Text t, End_tag tag, Text g]"

definition row_events :: "string \<Rightarrow> string list \<Rightarrow> event list" where
  "row_events g r = [Start_tag ''tr'' [], Text g] @ concat (map (element g ''td'') r) @ [End_tag ''tr'', Text g]"

definition slide_events :: "string \<Rightarrow> slide \<Rightarrow> event list" where
  "slide_events g s =
     [Start_tag ''section'' (if sl_title_slide s then [(''class'', Some ''title-slide'')] else []), Text g]
     @ element g ''h1'' (sl_title s) @ (if sl_subtitle s = [] then [] else element g ''h2'' (sl_subtitle s))
     @ concat (map (element g ''h3'') (sl_content s)) @ concat (map (element g ''li'') (sl_bullets s))
     @ concat (map (row_events g) (sl_table s)) @ (if sl_code s = [] then [] else element g ''pre'' (sl_code s))
     @ [End_tag ''section'', Text g]"

definition cleaned :: "slide \<Rightarrow> slide" where
  "cleaned s = s\<lparr>sl_title := clean_text (sl_title s), sl_subtitle := clean_text (sl_subtitle s), sl_content := map clean_text (sl_content s),
     sl_bullets := filter (\<lambda>t. t \<noteq> []) (map clean_text (sl_bullets s)), sl_table := map (map clean_text) (sl_table s)\<rparr>"

text \<open>The state between two elements: no flag is set, and a slide is being filled. What an element does to it is an update of the slide;
  the last text read stays behind.\<close>

definition filling :: "extractor \<Rightarrow> slide \<Rightarrow> string \<Rightarrow> extractor" where
  "filling x s t = x\<lparr>ex_current := Some s, ex_text := t\<rparr>"

definition last_of :: "string \<Rightarrow> string list \<Rightarrow> string" where
  "last_of t ts = last (t # ts)"

lemma last_of_simps [simp]: "last_of t [] = t" "last_of t (u # ts) = last_of u ts"
  by (simp_all add: last_of_def)

lemma filling_collects [simp]: "collecting (filling x s t) = collecting x"
  by (simp add: filling_def collecting_def)

lemmas event_defs = element_def filling_def handle_starttag_def handle_endtag_def handle_data_def collecting_def Let_def

lemma clean_Nil [simp]: "clean_text [] = []"
  by (simp add: clean_text_def py_strip_def)

lemma feed_h1: "\<not> collecting x \<Longrightarrow> feed (element g ''h1'' a @ es) (filling x s t) = feed es (filling x (s\<lparr>sl_title := clean_text a\<rparr>) a)"
  by (cases x) (simp add: event_defs)

lemma feed_h2:
  "\<not> collecting x \<Longrightarrow> sl_title s \<noteq> [] \<Longrightarrow>
   feed (element g ''h2'' a @ es) (filling x s t) = feed es (filling x (s\<lparr>sl_subtitle := clean_text a\<rparr>) a)"
  by (cases x) (simp add: event_defs)

lemma feed_h3:
  "\<not> collecting x \<Longrightarrow>
   feed (element g ''h3'' a @ es) (filling x s t) = feed es (filling x (s\<lparr>sl_content := sl_content s @ [clean_text a]\<rparr>) a)"
  by (cases x) (simp add: event_defs)

lemma feed_li:
  "\<not> collecting x \<Longrightarrow>
   feed (element g ''li'' a @ es) (filling x s t)
   = feed es (filling x (s\<lparr>sl_bullets := sl_bullets s @ filter (\<lambda>t. t \<noteq> []) [clean_text a]\<rparr>) a)"
  by (cases x) (simp add: event_defs)

lemma feed_pre: "\<not> collecting x \<Longrightarrow> feed (element g ''pre'' a @ es) (filling x s t) = feed es (filling x (s\<lparr>sl_code := a\<rparr>) a)"
  by (cases x) (simp add: event_defs)

lemma feed_h3s:
  "\<not> collecting x \<Longrightarrow>
   feed (concat (map (element g ''h3'') ts) @ es) (filling x s t)
   = feed es (filling x (s\<lparr>sl_content := sl_content s @ map clean_text ts\<rparr>) (last_of t ts))"
  by (induction ts arbitrary: s t) (simp_all add: feed_h3)

lemma feed_lis:
  "\<not> collecting x \<Longrightarrow>
   feed (concat (map (element g ''li'') ts) @ es) (filling x s t)
   = feed es (filling x (s\<lparr>sl_bullets := sl_bullets s @ filter (\<lambda>t. t \<noteq> []) (map clean_text ts)\<rparr>) (last_of t ts))"
  by (induction ts arbitrary: s t) (simp_all add: feed_li)

lemma feed_cells:
  "\<not> collecting x \<Longrightarrow>
   feed (concat (map (element g ''td'') ts) @ es) (filling (x\<lparr>ex_row := r\<rparr>) s t)
   = feed es (filling (x\<lparr>ex_row := r @ map clean_text ts\<rparr>) s (last_of t ts))"
proof (induction ts arbitrary: r t)
  case (Cons a ts)
  have "feed (element g ''td'' a @ fs) (filling (x\<lparr>ex_row := r\<rparr>) s t) = feed fs (filling (x\<lparr>ex_row := r @ [clean_text a]\<rparr>) s a)" for fs
    using Cons.prems by (cases x) (simp add: event_defs)
  then show ?case using Cons.IH [OF Cons.prems] by simp
qed simp

lemma feed_row:
  assumes "\<not> collecting x" "ex_row x = []" "r \<noteq> []"
  shows "feed (row_events g r @ es) (filling x s t) = feed es (filling x (s\<lparr>sl_table := sl_table s @ [map clean_text r]\<rparr>) (last_of t r))"
proof -
  have row: "x\<lparr>ex_row := []\<rparr> = x" using assms(2) by (cases x) simp
  let ?x = "x\<lparr>ex_stack := ex_stack x @ [''tr'']\<rparr>"
  have quiet: "\<not> collecting ?x" using assms(1) by (simp add: collecting_def)
  have "feed (row_events g r @ es) (filling x s t)
      = feed (concat (map (element g ''td'') r) @ [End_tag ''tr'', Text g] @ es) (filling (?x\<lparr>ex_row := []\<rparr>) s t)"
    using assms(1) by (cases x) (simp add: row_events_def event_defs)
  also have "\<dots> = feed ([End_tag ''tr'', Text g] @ es) (filling (?x\<lparr>ex_row := map clean_text r\<rparr>) s (last_of t r))"
    using feed_cells [OF quiet] by simp
  also have "\<dots> = feed es (filling (x\<lparr>ex_row := []\<rparr>) (s\<lparr>sl_table := sl_table s @ [map clean_text r]\<rparr>) (last_of t r))"
    using assms(1,3) by (cases x) (simp add: event_defs)
  finally show ?thesis by (simp only: row)
qed

lemma feed_rows:
  "\<not> collecting x \<Longrightarrow> ex_row x = [] \<Longrightarrow> [] \<notin> set rs \<Longrightarrow>
   \<exists>u. feed (concat (map (row_events g) rs) @ es) (filling x s t) = feed es (filling x (s\<lparr>sl_table := sl_table s @ map (map clean_text) rs\<rparr>) u)"
proof (induction rs arbitrary: s t)
  case (Cons r rs)
  then have "r \<noteq> []" by auto
  then show ?case
    using Cons.IH [where s = "s\<lparr>sl_table := sl_table s @ [map clean_text r]\<rparr>" and t = "last_of t r"] Cons.prems by (simp add: feed_row)
qed auto

text \<open>An element that may be missing.\<close>

lemma feed_subtitle:
  assumes "\<not> collecting x" "sl_title s \<noteq> []" "sl_subtitle s = []"
  shows "\<exists>u. feed ((if a = [] then [] else element g ''h2'' a) @ es) (filling x s t) = feed es (filling x (s\<lparr>sl_subtitle := clean_text a\<rparr>) u)"
proof (cases "a = []")
  case True
  have "s\<lparr>sl_subtitle := []\<rparr> = s" using assms(3) by (cases s) simp
  with True show ?thesis by auto
qed (use feed_h2 [OF assms(1,2)] in auto)

lemma feed_code:
  assumes "\<not> collecting x" "sl_code s = []"
  shows "\<exists>u. feed ((if a = [] then [] else element g ''pre'' a) @ es) (filling x s t) = feed es (filling x (s\<lparr>sl_code := a\<rparr>) u)"
proof (cases "a = []")
  case True
  have "s\<lparr>sl_code := []\<rparr> = s" using assms(2) by (cases s) simp
  with True show ?thesis by auto
qed (use feed_pre [OF assms(1)] in auto)

lemma feed_slide:
  assumes "\<not> collecting x" "ex_row x = []" and "clean_text (sl_title s) \<noteq> []" "[] \<notin> set (sl_table s)"
  shows "\<exists>y. feed (slide_events g s @ es) x = feed es y \<and> \<not> collecting y \<and> ex_row y = []
    \<and> ex_slides y = keep_current x \<and> ex_current y = Some (cleaned s)"
proof -
  let ?x = "x\<lparr>ex_stack := ex_stack x @ [''section''], ex_section := True, ex_slides := keep_current x\<rparr>"
  have x: "\<not> collecting ?x" "ex_row ?x = []" using assms(1,2) by (simp_all add: collecting_def)
  have found: "find_sub ''title-slide'' ''title-slide'' = Some 0" by simp
  let ?s1 = "(new_slide (sl_title_slide s))\<lparr>sl_title := clean_text (sl_title s)\<rparr>"
  let ?s2 = "?s1\<lparr>sl_subtitle := clean_text (sl_subtitle s)\<rparr>"
  let ?s3 = "?s2\<lparr>sl_content := map clean_text (sl_content s)\<rparr>"
  let ?s4 = "?s3\<lparr>sl_bullets := filter (\<lambda>t. t \<noteq> []) (map clean_text (sl_bullets s))\<rparr>"
  let ?s5 = "?s4\<lparr>sl_table := map (map clean_text) (sl_table s)\<rparr>"
  let ?e6 = "[End_tag ''section'', Text g] @ es"
  let ?e5 = "(if sl_code s = [] then [] else element g ''pre'' (sl_code s)) @ ?e6"
  let ?e4 = "concat (map (row_events g) (sl_table s)) @ ?e5"
  let ?e3 = "concat (map (element g ''li'') (sl_bullets s)) @ ?e4"
  let ?e2 = "concat (map (element g ''h3'') (sl_content s)) @ ?e3"
  let ?e1 = "(if sl_subtitle s = [] then [] else element g ''h2'' (sl_subtitle s)) @ ?e2"
  have "feed (slide_events g s @ es) x = feed (element g ''h1'' (sl_title s) @ ?e1) (filling ?x (new_slide (sl_title_slide s)) (ex_text x))"
    using assms(1) found by (cases x) (simp add: slide_events_def is_title_class_def handle_starttag_def handle_data_def collecting_def filling_def Let_def keep_current_def)
  also have "\<dots> = feed ?e1 (filling ?x ?s1 (sl_title s))" by (rule feed_h1 [OF x(1)])
  also obtain t2 where "\<dots> = feed ?e2 (filling ?x ?s2 t2)"
    using feed_subtitle [OF x(1), of ?s1 "sl_subtitle s" g ?e2] assms(3) by (fastforce simp: new_slide_def simp del: feed.simps)
  also have "\<dots> = feed ?e3 (filling ?x ?s3 (last_of t2 (sl_content s)))"
    using feed_h3s [OF x(1), of g "sl_content s" ?e3 ?s2 t2] by (simp add: new_slide_def del: feed.simps)
  also have "\<dots> = feed ?e4 (filling ?x ?s4 (last_of (last_of t2 (sl_content s)) (sl_bullets s)))"
    using feed_lis [OF x(1), of g "sl_bullets s" ?e4 ?s3] by (simp add: new_slide_def del: feed.simps)
  also obtain t5 where "\<dots> = feed ?e5 (filling ?x ?s5 t5)"
    using feed_rows [OF x assms(4), of g ?e5 ?s4] by (auto simp: new_slide_def simp del: feed.simps)
  also obtain t6 where "\<dots> = feed ?e6 (filling ?x (?s5\<lparr>sl_code := sl_code s\<rparr>) t6)"
    using feed_code [OF x(1), of ?s5 "sl_code s" g ?e6 t5] by (fastforce simp: new_slide_def simp del: feed.simps)
  also have "?s5\<lparr>sl_code := sl_code s\<rparr> = cleaned s" by (simp add: cleaned_def new_slide_def)
  also have "feed ?e6 (filling ?x (cleaned s) t6) = feed es (x\<lparr>ex_section := False, ex_slides := keep_current x, ex_current := Some (cleaned s), ex_text := t6\<rparr>)"
    using assms(1) by (cases x) (simp add: event_defs keep_current_def)
  finally show ?thesis using assms(1,2) by (intro exI conjI) (assumption, simp_all add: collecting_def)
qed

lemma feed_slides:
  "\<not> collecting x \<Longrightarrow> ex_row x = [] \<Longrightarrow> list_all (\<lambda>s. clean_text (sl_title s) \<noteq> [] \<and> [] \<notin> set (sl_table s)) deck \<Longrightarrow>
   \<exists>y. feed (concat (map (slide_events g) deck)) x = Inr y \<and> keep_current y = keep_current x @ map cleaned deck"
proof (induction deck arbitrary: x)
  case (Cons s deck)
  then obtain y where y: "feed (slide_events g s @ concat (map (slide_events g) deck)) x = feed (concat (map (slide_events g) deck)) y"
      "\<not> collecting y" "ex_row y = []" "ex_slides y = keep_current x" "ex_current y = Some (cleaned s)"
    using feed_slide [of x s g "concat (map (slide_events g) deck)"] by auto
  have "keep_current y = keep_current x @ [cleaned s]" by (simp add: keep_current_def [of y] y(4,5))
  then show ?case using Cons.IH [OF y(2,3)] Cons.prems(3) y(1) by auto
qed simp

text \<open>C37: A presentation is read back. Let every slide have a title that is not blank, written as an \<open>h1\<close>, and no table row without cells;
  subtitle, contents, items, table and code are written as \<open>h2\<close>, \<open>h3\<close>, \<open>li\<close>, \<open>tr\<close> with \<open>td\<close>, and \<open>pre\<close>. Then, whatever stands between
  the tags, the slides found are those the presentation was written from, in their order, with the white space of all but the code
  squeezed and empty items left out.\<close>

theorem slides_roundtrip:
  assumes "list_all (\<lambda>s. clean_text (sl_title s) \<noteq> [] \<and> [] \<notin> set (sl_table s)) deck"
  shows "extract_slides (Text g # concat (map (slide_events g) deck)) = Inr (map cleaned deck)"
proof -
  have start: "\<not> collecting new_extractor" "ex_row new_extractor = []" "keep_current new_extractor = []"
    by (simp_all add: new_extractor_def collecting_def keep_current_def)
  then have "handle_data g new_extractor = new_extractor" by (simp add: handle_data_def)
  moreover obtain y where "feed (concat (map (slide_events g) deck)) new_extractor = Inr y" "keep_current y = map cleaned deck"
    using feed_slides [OF start(1,2) assms] start(3) by auto
  ultimately show ?thesis by (simp add: extract_slides_def get_slides_def)
qed

definition sample_deck :: "slide list" where
  "sample_deck =
     [(new_slide True)\<lparr>sl_title := ''Overview''\<rparr>,
      (new_slide False)\<lparr>sl_title := '' Plan  B '', sl_bullets := [''one'', '' '', ''two''], sl_table := [[''a'', ''b''], [''c'', ''d'']]\<rparr>]"

theorem slides_roundtrip_witness:
  "extract_slides (Text '' '' # concat (map (slide_events '' '') sample_deck)) = Inr (map cleaned sample_deck)
   \<and> map sl_title (map cleaned sample_deck) = [''Overview'', ''Plan B''] \<and> map sl_bullets (map cleaned sample_deck) = [[], [''one'', ''two'']]"
proof (intro conjI)
  have "list_all (\<lambda>s. clean_text (sl_title s) \<noteq> [] \<and> [] \<notin> set (sl_table s)) sample_deck" by code_simp
  then show "extract_slides (Text '' '' # concat (map (slide_events '' '') sample_deck)) = Inr (map cleaned sample_deck)" by (rule slides_roundtrip)
qed code_simp+

text \<open>A list inside an item: the text of the outer item is lost and that of the inner one is found twice.\<close>

lemma nested_item_repeated:
  "map_sum id (map sl_bullets) (extract_slides
     [Start_tag ''section'' [], Start_tag ''li'' [], Text ''outer'', Start_tag ''ul'' [], Start_tag ''li'' [], Text ''inner'', End_tag ''li'',
      End_tag ''ul'', End_tag ''li'', End_tag ''section'']) = Inr [[''inner'', ''inner'']]"
  by code_simp


section \<open>What is shown\<close>

lemma nth_table_cells:
  "(i, j, c, h) \<in> set (table_cells rows cols t) \<Longrightarrow>
   i < rows \<and> i < length t \<and> j < cols \<and> j < length (t ! i) \<and> c = t ! i ! j \<and> h = (i = 0)"
  by (auto simp: table_cells_def in_set_enumerate_eq)

text \<open>A slide stays within its bounds: at most ten items, and a table of at most eight rows and five columns in which every cell that is
  set exists and holds its text.\<close>

lemma content_slide_bounds:
  assumes "Table_at y rows cols cells \<in> set (create_content_slide s)" and "(i, j, c, h) \<in> set cells"
  shows "rows \<le> 8 \<and> cols \<le> 5 \<and> i < rows \<and> j < cols \<and> c = sl_table s ! i ! j"
  using assms by (auto simp: create_content_slide_def Let_def split: if_splits dest!: nth_table_cells)

lemma items_at_most_ten:
  "Text_box y h ps \<in> set (create_content_slide s) \<Longrightarrow> length (filter pa_bullet ps) \<le> 10"
  by (auto simp: create_content_slide_def Let_def para_def split: if_splits intro: order.trans [OF length_filter_le])

text \<open>Headings of the third level and code are read and never shown, and a slide that has only a table, or only these, is left out.\<close>

lemma code_not_shown: "presentation (map (\<lambda>s. s\<lparr>sl_content := a s, sl_code := b s\<rparr>) ss) = presentation ss"
proof -
  have "create_title_slide (s\<lparr>sl_content := a s, sl_code := b s\<rparr>) = create_title_slide s"
    "create_content_slide (s\<lparr>sl_content := a s, sl_code := b s\<rparr>) = create_content_slide s"
    "is_shown (s\<lparr>sl_content := a s, sl_code := b s\<rparr>) = is_shown s" for s
    by (simp_all add: create_title_slide_def create_content_slide_def is_shown_def Let_def)
  then show ?thesis by (simp add: presentation_def filter_map comp_def)
qed

lemma table_alone_left_out: "sl_title s = [] \<Longrightarrow> sl_bullets s = [] \<Longrightarrow> presentation (a @ s # b) = presentation (a @ b)"
  by (simp add: presentation_def is_shown_def)

text \<open>On a machine without the folder of the author nothing is converted, and the script ends as if it had.\<close>

lemma convert_elsewhere:
  assumes "\<And>p. \<not> dp_exists P (base_dir @ ''/'' @ p) w"
  shows "convert_all P w = (Inr (), w)"
proof -
  have "convert_one P p w = (Inr (), w)" for p unfolding convert_one_def by (simp only: assms if_False)
  then have "eff_for ps (convert_one P) w = (Inr (), w)" for ps
    by (induction ps) (simp_all add: eff_return_def eff_then_step)
  then show ?thesis by (simp add: convert_all_def)
qed

end
