(* ===== verification/CsvWriter.thy ===== *)
theory CsvWriter
  imports CsvReader
begin

text \<open>
  Python's \<open>csv.writer\<close> with its default dialect: a field is quoted when it has a comma, a quote or a line end in it, and a
  row of one empty field is a pair of quotes. What it writes is what the reader of theory \<open>CsvReader\<close> reads, whatever is
  in the fields.
\<close>

section \<open>The writer\<close>

definition needs_quotes :: "string \<Rightarrow> bool" where
  "needs_quotes f \<longleftrightarrow> list_ex (\<lambda>c. \<not> plain_char c) f"

fun doubled :: "string \<Rightarrow> string" where
  "doubled [] = []"
| "doubled (c # cs) = (if c = CHR 0x22 then c # c # doubled cs else c # doubled cs)"

definition write_field :: "string \<Rightarrow> string" where
  "write_field f = (if needs_quotes f then CHR 0x22 # doubled f @ [CHR 0x22] else f)"

definition csv_line :: "string list \<Rightarrow> string" where
  "csv_line row = (if row = [[]] then [CHR 0x22, CHR 0x22] else join_with '','' (map write_field row)) @ [CHR 0x0D, CHR 0x0A]"

definition csv_write :: "string list list \<Rightarrow> string" where
  "csv_write rows = concat (map csv_line rows)"

lemma csv_line_plain: "plain_row row \<Longrightarrow> csv_line row = plain_line row"
proof -
  assume p: "plain_row row"
  have "map write_field row = row"
    using p by (intro map_idI) (auto simp: plain_row_def write_field_def needs_quotes_def list_all_iff list_ex_iff)
  then show ?thesis using p by (simp add: csv_line_def plain_line_def plain_row_def)
qed


section \<open>The reader character by character\<close>

lemma save_field_eq: "save_field st s = \<lparr>cs_state = st, cs_field = [], cs_fields = cs_fields s @ [cs_field s]\<rparr>"
  by (cases s) (simp add: save_field_def)

lemma text_lines_empty [simp]: "text_lines cs = [] \<longleftrightarrow> cs = []"
  by (cases cs) (auto split: list.split)

lemma csv_rows_char:
  assumes "c \<noteq> CHR 0x0A" "cs \<noteq> []"
  shows "csv_rows (text_lines (c # cs)) s
    = (case csv_char c s of Inl e \<Rightarrow> ([], Some e) | Inr s1 \<Rightarrow> csv_rows (text_lines cs) s1)"
proof -
  obtain l ls where t: "text_lines cs = l # ls" using assms(2) by (cases "text_lines cs") auto
  show ?thesis using assms(1) t by (auto split: sum.split)
qed

lemma csv_rows_feed:
  "csv_rows (text_lines (CHR 0x0A # cs)) s
    = (case csv_char (CHR 0x0A) s of Inl e \<Rightarrow> ([], Some e)
       | Inr s1 \<Rightarrow> (let s2 = csv_end_of_line s1 in
           if cs_state s2 = Start_record then (case csv_rows (text_lines cs) csv_start of (rows, err) \<Rightarrow> (cs_fields s2 # rows, err))
           else csv_rows (text_lines cs) s2))"
  by (auto split: sum.split)

lemma csv_rows_chars:
  "CHR 0x0A \<notin> set a \<Longrightarrow> b \<noteq> [] \<Longrightarrow> csv_rows (text_lines (a @ b)) s
    = (case csv_chars a s of Inl e \<Rightarrow> ([], Some e) | Inr s1 \<Rightarrow> csv_rows (text_lines b) s1)"
proof (induction a arbitrary: s)
  case (Cons c a)
  then have "csv_rows (text_lines (c # (a @ b))) s
      = (case csv_char c s of Inl e \<Rightarrow> ([], Some e) | Inr s1 \<Rightarrow> csv_rows (text_lines (a @ b)) s1)"
    by (intro csv_rows_char) auto
  with Cons show ?case by (auto split: sum.split)
qed simp

text \<open>Inside quotes: a doubled quote is one, and a line end is part of the field.\<close>

lemma read_quoted:
  "cs_state s = In_quoted \<Longrightarrow> rest \<noteq> [] \<Longrightarrow>
   csv_rows (text_lines (doubled f @ rest)) s = csv_rows (text_lines rest) (s\<lparr>cs_field := cs_field s @ f\<rparr>)"
proof (induction f arbitrary: s)
  case (Cons c f)
  let ?s = "s\<lparr>cs_field := cs_field s @ [c]\<rparr>"
  have ih: "csv_rows (text_lines (doubled f @ rest)) ?s = csv_rows (text_lines rest) (s\<lparr>cs_field := cs_field s @ c # f\<rparr>)"
    using Cons.IH [of ?s] Cons.prems by simp
  consider "c = CHR 0x22" | "c = CHR 0x0A" | "c \<noteq> CHR 0x22" "c \<noteq> CHR 0x0A" by blast
  then show ?case
  proof cases
    case 1
    have "csv_rows (text_lines (CHR 0x22 # CHR 0x22 # (doubled f @ rest))) s = csv_rows (text_lines (doubled f @ rest)) ?s"
      using Cons.prems 1 by (cases s) (simp add: csv_rows_char csv_char_def add_char_def del: text_lines.simps)
    with ih 1 show ?thesis by simp
  next
    case 2
    have "csv_rows (text_lines (CHR 0x0A # (doubled f @ rest))) s = csv_rows (text_lines (doubled f @ rest)) ?s"
      using Cons.prems 2 by (cases s) (simp add: csv_rows_feed csv_char_def add_char_def csv_end_of_line_def Let_def del: text_lines.simps)
    with ih 2 show ?thesis by simp
  next
    case 3
    have "csv_rows (text_lines (c # (doubled f @ rest))) s = csv_rows (text_lines (doubled f @ rest)) ?s"
      using Cons.prems 3 by (cases s) (simp add: csv_rows_char csv_char_def add_char_def del: text_lines.simps)
    with ih 3 show ?thesis by simp
  qed
qed simp

text \<open>What ends a field: a comma, or the end of the row.\<close>

definition after_field :: "csv_reader \<Rightarrow> string \<Rightarrow> csv_reader" where
  "after_field s f = \<lparr>cs_state = Start_field, cs_field = [], cs_fields = cs_fields s @ [f]\<rparr>"

definition field_end :: "csv_reader \<Rightarrow> string \<Rightarrow> string \<Rightarrow> string list list \<times> string option" where
  "field_end s f t =
     (case t of
        [] \<Rightarrow> ([], None)
      | c # cs \<Rightarrow> if c = CHR '','' then csv_rows (text_lines cs) (after_field s f)
                  else (case csv_rows (text_lines (drop 1 cs)) csv_start of (rows, err) \<Rightarrow> ((cs_fields s @ [f]) # rows, err)))"

lemma read_row_end:
  assumes "cs_state s \<in> {In_field, Quote_in_quoted, Start_field}" "cs_field s = f"
  shows "csv_rows (text_lines (CHR 0x0D # CHR 0x0A # cs)) s = field_end s f (CHR 0x0D # CHR 0x0A # cs)"
  using assms
  by (auto simp: csv_rows_char csv_rows_feed csv_char_def csv_start_field_def newline_char_def save_field_eq csv_end_of_line_def
      Let_def field_end_def simp del: text_lines.simps)

lemma read_comma:
  assumes "cs_state s \<in> {In_field, Quote_in_quoted, Start_field} \<or> cs_state s = Start_record" "cs_field s = f" "cs \<noteq> []"
  shows "csv_rows (text_lines (CHR '','' # cs)) s = field_end s f (CHR '','' # cs)"
  using assms
  by (auto simp: csv_rows_char csv_char_def csv_start_field_def newline_char_def save_field_eq field_end_def after_field_def
      simp del: text_lines.simps)

definition ends_field :: "string \<Rightarrow> bool" where
  "ends_field t \<longleftrightarrow> (\<exists>cs. t = CHR 0x0D # CHR 0x0A # cs \<or> t = CHR '','' # cs \<and> cs \<noteq> [])"

lemma read_end:
  assumes "ends_field t" "cs_state s \<in> {In_field, Quote_in_quoted, Start_field}" "cs_field s = f"
  shows "csv_rows (text_lines t) s = field_end s f t"
  using assms read_row_end [OF assms(2,3)] read_comma [of s f] by (auto simp: ends_field_def)

lemma field_end_frame: "cs_fields s = cs_fields s' \<Longrightarrow> field_end s f t = field_end s' f t"
  by (simp add: field_end_def after_field_def split: list.split)

lemma read_field:
  assumes "ends_field t" "cs_state s = Start_field \<or> cs_state s = Start_record \<and> (f \<noteq> [] \<or> hd t = CHR '','')" "cs_field s = []"
  shows "csv_rows (text_lines (write_field f @ t)) s = field_end s f t"
proof -
  have t: "t \<noteq> []" using assms(1) by (auto simp: ends_field_def)
  show ?thesis
  proof (cases "needs_quotes f")
    case True
    let ?q = "s\<lparr>cs_state := In_quoted, cs_field := f\<rparr>"
    have "csv_rows (text_lines (CHR 0x22 # (doubled f @ CHR 0x22 # t))) s
        = csv_rows (text_lines (doubled f @ CHR 0x22 # t)) (s\<lparr>cs_state := In_quoted\<rparr>)"
      using assms(2) by (subst csv_rows_char) (auto simp: csv_char_def csv_start_field_def newline_char_def)
    also have "\<dots> = csv_rows (text_lines (CHR 0x22 # t)) ?q"
      using assms(3) by (subst read_quoted) simp_all
    also have "\<dots> = csv_rows (text_lines t) (?q\<lparr>cs_state := Quote_in_quoted\<rparr>)"
      using t by (subst csv_rows_char) (simp_all add: csv_char_def)
    also have "\<dots> = field_end (?q\<lparr>cs_state := Quote_in_quoted\<rparr>) f t" by (rule read_end [OF assms(1)]) simp_all
    also have "\<dots> = field_end s f t" by (rule field_end_frame) simp
    finally show ?thesis using True by (simp add: write_field_def del: text_lines.simps)
  next
    case False
    then have p: "list_all plain_char f" by (auto simp: needs_quotes_def list_ex_iff list_all_iff)
    show ?thesis
    proof (cases "f = []")
      case True
      show ?thesis
      proof (cases "cs_state s = Start_field")
        case True
        then show ?thesis using read_end [OF assms(1), of s "[]"] assms(3) \<open>f = []\<close>
          by (simp add: write_field_def needs_quotes_def del: text_lines.simps)
      next
        case False
        then obtain cs where "t = CHR '','' # cs" "cs \<noteq> []" using assms(1,2) \<open>f = []\<close> by (auto simp: ends_field_def)
        then show ?thesis using read_comma [of s "[]" cs] assms(2,3) \<open>f = []\<close>
          by (auto simp add: write_field_def needs_quotes_def simp del: text_lines.simps)
      qed
    next
      case False
      have "CHR 0x0A \<notin> set f" using p by (auto simp: list_all_iff plain_char_def newline_char_def)
      then have "csv_rows (text_lines (f @ t)) s = csv_rows (text_lines t) (s\<lparr>cs_state := In_field, cs_field := f\<rparr>)"
        using csv_rows_chars [of f t s] plain_field [OF p _ assms(3) False] assms(2) t by auto
      also have "\<dots> = field_end (s\<lparr>cs_state := In_field, cs_field := f\<rparr>) f t" by (rule read_end [OF assms(1)]) simp_all
      also have "\<dots> = field_end s f t" by (rule field_end_frame) simp
      finally show ?thesis using \<open>\<not> needs_quotes f\<close> by (simp add: write_field_def)
    qed
  qed
qed


section \<open>What is written is read back\<close>

lemma read_fields:
  assumes "row \<noteq> []" "cs_state s = Start_field \<or> cs_state s = Start_record \<and> row \<noteq> [[]]" "cs_field s = []"
  shows "csv_rows (text_lines (join_with '','' (map write_field row) @ CHR 0x0D # CHR 0x0A # t)) s
    = (case csv_rows (text_lines t) csv_start of (rows, err) \<Rightarrow> ((cs_fields s @ row) # rows, err))"
  using assms
proof (induction row arbitrary: s)
  case (Cons f row)
  show ?case
  proof (cases row)
    case Nil
    have "csv_rows (text_lines (write_field f @ CHR 0x0D # CHR 0x0A # t)) s = field_end s f (CHR 0x0D # CHR 0x0A # t)"
      by (rule read_field) (use Cons.prems Nil in \<open>auto simp: ends_field_def\<close>)
    then show ?thesis using Nil by (simp add: field_end_def del: text_lines.simps)
  next
    case (Cons g gs)
    let ?t = "join_with '','' (map write_field row) @ CHR 0x0D # CHR 0x0A # t"
    have "csv_rows (text_lines (write_field f @ CHR '','' # ?t)) s = field_end s f (CHR '','' # ?t)"
      by (rule read_field) (use Cons.prems in \<open>auto simp: ends_field_def\<close>)
    also have "\<dots> = csv_rows (text_lines ?t) (after_field s f)" by (simp add: field_end_def)
    also have "\<dots> = (case csv_rows (text_lines t) csv_start of (rows, err) \<Rightarrow> ((cs_fields s @ f # row) # rows, err))"
      using Cons.IH [of "after_field s f"] \<open>row = g # gs\<close> by (simp add: after_field_def)
    finally show ?thesis using \<open>row = g # gs\<close> by (simp del: text_lines.simps)
  qed
qed simp

lemma read_line:
  "csv_rows (text_lines (csv_line row @ t)) csv_start = (case csv_rows (text_lines t) csv_start of (rows, err) \<Rightarrow> (row # rows, err))"
proof -
  consider "row = []" | "row = [[]]" | "row \<noteq> []" "row \<noteq> [[]]" by blast
  then show ?thesis
  proof cases
    case 1
    then show ?thesis
      by (simp add: csv_line_def csv_rows_char csv_rows_feed csv_start_def csv_char_def newline_char_def csv_end_of_line_def Let_def
          del: text_lines.simps)
  next
    case 2
    then show ?thesis
      by (simp add: csv_line_def csv_rows_char csv_rows_feed csv_start_def csv_char_def csv_start_field_def newline_char_def
          save_field_eq csv_end_of_line_def Let_def del: text_lines.simps)
  next
    case 3
    then show ?thesis using read_fields [OF 3(1), of csv_start t] by (simp add: csv_line_def csv_start_def del: text_lines.simps)
  qed
qed

lemma csv_write_read: "csv_parse (csv_write rows) = (rows, None)"
proof (induction rows)
  case (Cons row rows)
  then show ?case using read_line [of row "csv_write rows"] by (simp add: csv_parse_def csv_write_def)
qed (simp add: csv_parse_def csv_write_def csv_start_def)

end
