(* ===== verification/CommandLines.thy ===== *)
theory CommandLines
  imports CircuitBreaker Archival MockData CsvWriter Inference Guardrail SyncCli
begin

text \<open>
  What starts the components: the decorator of the circuit breaker (\<open>services/voice-switch/circuit_breaker.py\<close>), the
  construction of the storage client (\<open>services/data-archival/storage_client.py\<close>), the command lines of the generator of
  test files (\<open>app/sentinel/mock_data.py\<close>) and of the drift report (\<open>scripts/transform/detect_conflicts.py\<close>), the model for tests of
  \<open>app/inference/model.py\<close>.
\<close>

section \<open>Decorated functions\<close>

definition decorator_breaker ::
  "string \<Rightarrow> int \<Rightarrow> int \<Rightarrow> instant \<Rightarrow> ('x \<Rightarrow> bool) \<Rightarrow> ('a \<Rightarrow> 'x + 'r) option \<Rightarrow> ('a, 'x, 'r) breaker" where
  "decorator_breaker n failures successes wait expected fallback = new_breaker n
     \<lparr>failure_threshold = failures, success_threshold = successes, cb_timeout = wait, half_open_max_calls = 3,
      expected_exception = expected, fallback_function = fallback\<rparr>"

datatype 'x wrapper_error = Loop_is_running | From_call "'x call_error"

definition async_wrapper ::
  "clocks \<Rightarrow> ('a \<Rightarrow> 'x + 'r) \<Rightarrow> 'a \<Rightarrow> ('a, 'x, 'r) breaker \<Rightarrow> ('x wrapper_error + 'r) \<times> ('a, 'x, 'r) breaker" where
  "async_wrapper ts f args b = (case cb_call ts f args b of (r, b') \<Rightarrow> (case_sum (\<lambda>e. Inl (From_call e)) Inr r, b'))"

text \<open>The wrapper of a function that is not a coroutine runs the event loop itself, which the loop refuses while it runs.\<close>

definition sync_wrapper ::
  "bool \<Rightarrow> clocks \<Rightarrow> ('a \<Rightarrow> 'x + 'r) \<Rightarrow> 'a \<Rightarrow> ('a, 'x, 'r) breaker \<Rightarrow> ('x wrapper_error + 'r) \<times> ('a, 'x, 'r) breaker" where
  "sync_wrapper running ts f args b = (if running then (Inl Loop_is_running, b) else async_wrapper ts f args b)"

definition decorated ::
  "bool \<Rightarrow> bool \<Rightarrow> clocks \<Rightarrow> ('a \<Rightarrow> 'x + 'r) \<Rightarrow> 'a \<Rightarrow> ('a, 'x, 'r) breaker \<Rightarrow> ('x wrapper_error + 'r) \<times> ('a, 'x, 'r) breaker" where
  "decorated coroutine running = (if coroutine then async_wrapper else sync_wrapper running)"

lemma cb_call_inv: "cb_inv b \<Longrightarrow> cb_inv (snd (cb_call ts f args b))"
  by (auto simp: cb_call_def Let_def intro: call_end_inv split: prod.split admission.split dest: call_begin_inv)

text \<open>Every run of decorated calls keeps the invariant of the breaker they share.\<close>

definition decorated_step ::
  "bool \<times> bool \<times> clocks \<times> ('a \<Rightarrow> 'x + 'r) \<times> 'a \<Rightarrow> ('a, 'x, 'r) breaker \<Rightarrow> ('a, 'x, 'r) breaker" where
  "decorated_step e b = (case e of (co, running, ts, f, args) \<Rightarrow> snd (decorated co running ts f args b))"

interpretation decorated_calls: step_machine decorated_step cb_inv
proof
  fix b :: "('a, 'x, 'r) breaker" and e
  assume "cb_inv b"
  then have "cb_inv (snd (async_wrapper ts f args b))" for ts f args
    using cb_call_inv [of b ts f args] by (cases "cb_call ts f args b") (simp add: async_wrapper_def)
  with \<open>cb_inv b\<close> show "cb_inv (decorated_step e b)"
    by (auto simp: decorated_step_def decorated_def sync_wrapper_def split: prod.split)
qed

lemma decorated_calls_safe: "cb_inv (fold decorated_step es (decorator_breaker n f s w expected fallback))"
  by (rule decorated_calls.run_keeps) (simp add: decorator_breaker_def new_breaker_inv)

text \<open>In a service whose event loop runs, a decorated function that is not a coroutine is never called.\<close>

lemma sync_function_never_called:
  "decorated False True ts f args b = (Inl Loop_is_running, b)"
  by (simp add: decorated_def sync_wrapper_def)


section \<open>The bucket\<close>

record 'w bucket_ports =
  head_bucket :: "string \<Rightarrow> ('w, io_error, unit) eff"
  create_bucket :: "string \<Rightarrow> string option \<Rightarrow> ('w, io_error, unit) eff"

text \<open>The argument of a \<^const>\<open>ClientError\<close> is its error code.\<close>

definition ensure_bucket_exists :: "'w bucket_ports \<Rightarrow> string \<Rightarrow> string \<Rightarrow> ('w, io_error, unit) eff" where
  "ensure_bucket_exists B region bucket =
     eff_catch (head_bucket B bucket) (\<lambda>e. case e of
         ClientError code \<Rightarrow>
           if code = ''404'' then create_bucket B bucket (if region = ''us-east-1'' then None else Some region)
           else eff_raise e
       | OtherError x \<Rightarrow> eff_raise e)"

text \<open>What the store promises: asking changes nothing and succeeds only for a bucket that exists; creating that succeeds makes
  the bucket and no other.\<close>

definition bucket_ok :: "'w bucket_ports \<Rightarrow> ('w \<Rightarrow> string set) \<Rightarrow> bool" where
  "bucket_ok B buckets \<longleftrightarrow>
     (\<forall>b w. buckets (snd (head_bucket B b w)) = buckets w \<and> (fst (head_bucket B b w) = Inr () \<longrightarrow> b \<in> buckets w))
   \<and> (\<forall>b r w. buckets (snd (create_bucket B b r w)) = (if fst (create_bucket B b r w) = Inr () then insert b (buckets w) else buckets w))"

lemma storage_has_bucket:
  assumes "bucket_ok B buckets"
  shows "buckets (snd (ensure_bucket_exists B region b w))
     = (if fst (ensure_bucket_exists B region b w) = Inr () then insert b (buckets w) else buckets w)"
proof (cases "head_bucket B b w")
  case (Pair r w')
  have h: "buckets w' = buckets w" "r = Inr () \<Longrightarrow> b \<in> buckets w"
    using assms Pair by (auto simp: bucket_ok_def) (metis fst_conv snd_conv)+
  have c: "buckets (snd (create_bucket B b l w')) = (if fst (create_bucket B b l w') = Inr () then insert b (buckets w') else buckets w')" for l
    using assms by (simp add: bucket_ok_def)
  show ?thesis
  proof (cases r)
    case (Inl e)
    then show ?thesis using Pair h(1) c by (cases e) (simp_all add: ensure_bucket_exists_def eff_defs)
  next
    case (Inr x)
    then show ?thesis using Pair h by (auto simp: ensure_bucket_exists_def eff_defs)
  qed
qed

text \<open>A client that may not ask, code 403, is not made, even when it could use the bucket.\<close>

lemma forbidden_head_raises:
  "head_bucket B b w = (Inl (ClientError ''403''), w') \<Longrightarrow> ensure_bucket_exists B region b w = (Inl (ClientError ''403''), w')"
  by (simp add: ensure_bucket_exists_def eff_defs)


section \<open>The generator of test files\<close>

text \<open>The file written, if any, and the numbers returned; \<open>writable\<close> tells whether \<open>open\<close> succeeds.\<close>

definition save_to_file ::
  "stream \<Rightarrow> (call_record list \<Rightarrow> call_record list) \<Rightarrow> (instant \<Rightarrow> string) \<Rightarrow> (instant \<Rightarrow> string) \<Rightarrow> instant \<Rightarrow> (string \<Rightarrow> bool) \<Rightarrow> string \<Rightarrow>
   nat \<Rightarrow> nat \<Rightarrow> nat \<Rightarrow> string + (string \<times> string) \<times> string list" where
  "save_to_file d shuffle day clock base writable name total_records callers per_caller =
     (case generate_csv d shuffle day clock base total_records callers per_caller of (content, simboxes) \<Rightarrow>
        if writable name then Inr ((name, content), simboxes) else Inl ''OSError'')"

text \<open>The arguments by position, with their defaults; a negative number counts like zero in \<open>range\<close>.\<close>

definition int_argument :: "string list \<Rightarrow> nat \<Rightarrow> int \<Rightarrow> string + int" where
  "int_argument argv i d =
     (if length argv > i then (case py_int (argv ! i) of None \<Rightarrow> Inl ''ValueError'' | Some n \<Rightarrow> Inr n) else Inr d)"

definition mock_main ::
  "stream \<Rightarrow> (call_record list \<Rightarrow> call_record list) \<Rightarrow> (instant \<Rightarrow> string) \<Rightarrow> (instant \<Rightarrow> string) \<Rightarrow> instant \<Rightarrow> (string \<Rightarrow> bool) \<Rightarrow>
   string list \<Rightarrow> string + (string \<times> string) \<times> string list" where
  "mock_main d shuffle day clock base writable argv =
     (let name = (if length argv > 1 then argv ! 1 else ''mock_cdr_data.csv'') in
      case int_argument argv 2 5000 of Inl e \<Rightarrow> Inl e
      | Inr n \<Rightarrow> (case int_argument argv 3 3 of Inl e \<Rightarrow> Inl e
      | Inr c \<Rightarrow> (case int_argument argv 4 75 of Inl e \<Rightarrow> Inl e
      | Inr k \<Rightarrow> save_to_file d shuffle day clock base writable name (nat n) (nat c) (nat k))))"

text \<open>The rows that the generator prints plainly are what \<open>csv.writer\<close> writes.\<close>

lemma generated_by_writer:
  assumes "list_all (mock_call base) rs" "reads_back strptime day clock base"
  shows "concat (map plain_line (mock_header # map (mock_row day clock) rs)) = csv_write (mock_header # map (mock_row day clock) rs)"
proof -
  have "plain_row mock_header" by code_simp
  moreover have "plain_row (mock_row day clock r)" if "r \<in> set rs" for r
  proof -
    have "mock_call base r" using assms(1) that by (simp add: list_all_iff)
    from mock_row_read(1) [OF mock_call_printable(1,2) [OF this assms(2)]] show ?thesis .
  qed
  ultimately show ?thesis by (simp add: csv_write_def csv_line_plain comp_def cong: map_cong)
qed

text \<open>Without arguments: a file with at least five thousand calls, each of three callers with at least seventy-five of them, and the
  parser reads all of it.\<close>

lemma default_file_parses:
  assumes "\<And>xs. mset (shuffle xs) = mset xs" "reads_back strptime day clock base" "\<And>b. decode b = Inr b"
    and "mock_main d shuffle day clock base writable [script] = Inr ((name, content), simboxes)"
  shows "\<exists>rs. parse_csv decode strptime content = (rs, []) \<and> length rs = 5000 \<and> length simboxes = 3
    \<and> (\<forall>c\<in>set simboxes. 75 \<le> length (calls_of c rs)) \<and> name = ''mock_cdr_data.csv''"
proof -
  obtain rs sb where g: "generate_dataset d shuffle base 5000 3 75 = (rs, sb)" by fastforce
  have c: "content = concat (map plain_line (mock_header # map (mock_row day clock) rs))" "sb = simboxes" "name = ''mock_cdr_data.csv''"
    using assms(4) g by (auto simp: mock_main_def int_argument_def save_to_file_def generate_csv_def Let_def split: if_splits)
  note spec = generate_dataset_spec [OF g assms(1)]
  have "parse_csv decode strptime content = (rs, [])"
    by (rule generated_file_parses [OF spec(1) assms(2)]) (simp_all add: assms(3) c(1))
  then show ?thesis using spec c by auto
qed

lemma bad_argument_writes_nothing:
  "mock_main d shuffle day clock base writable [script, out, ''many''] = Inl ''ValueError''"
proof -
  have "py_int ''many'' = None" by code_simp
  then show ?thesis by (simp add: mock_main_def int_argument_def)
qed


section \<open>A model for tests\<close>

text \<open>\<open>create_dummy_model\<close> of \<open>app/inference/model.py\<close>: a thousand rows of eight draws each, the label a conjunction of two of
  them. \<open>train\<close> is \<open>xgb.train\<close>, a result of None means that XGBoost is missing; the model is saved under the path.\<close>

definition dummy_features :: "(nat \<Rightarrow> rat) \<Rightarrow> rat list list" where
  "dummy_features d = map (\<lambda>i. map (\<lambda>j. d (8 * i + j)) [0..<8]) [0..<1000]"

definition dummy_label :: "rat list \<Rightarrow> nat" where
  "dummy_label r = (if r ! 2 > 1/2 \<and> r ! 4 > 1/2 then 1 else 0)"

text \<open>\<open>os.path.dirname\<close>\<close>

definition py_dirname :: "string \<Rightarrow> string" where
  "py_dirname p = (let h = rev (dropWhile (\<lambda>c. c \<noteq> CHR ''/'') (rev p)) in
     if list_all (\<lambda>c. c = CHR ''/'') h then h else rev (dropWhile (\<lambda>c. c = CHR ''/'') (rev h)))"

definition create_dummy_model ::
  "bool \<Rightarrow> (nat \<Rightarrow> rat) \<Rightarrow> (rat list list \<Rightarrow> nat list \<Rightarrow> string + 'm) \<Rightarrow> (string \<Rightarrow> bool) \<Rightarrow> string \<Rightarrow> string + (string \<times> 'm) option" where
  "create_dummy_model available d train writable path =
     (if \<not> available then Inr None
      else let X = dummy_features d in
        (case train X (map dummy_label X) of
           Inl e \<Rightarrow> Inl e
         | Inr m \<Rightarrow> if py_dirname path = [] then Inl ''FileNotFoundError''
                    else if writable path then Inr (Some (path, m)) else Inl ''XGBoostError''))"

text \<open>The draws are below one, so a number of callers or a rate of calls of one or more is nothing the model has been shown.\<close>

lemma dummy_features_below_one:
  assumes "\<And>i. 0 \<le> d i \<and> d i < 1" "r \<in> set (dummy_features d)"
  shows "length r = 8 \<and> list_all (\<lambda>x. 0 \<le> x \<and> x < 1) r"
  using assms by (auto simp: dummy_features_def list_all_iff)

lemma bare_model_name_raises:
  "train (dummy_features d) (map dummy_label (dummy_features d)) = Inr m \<Longrightarrow>
   create_dummy_model True d train writable ''model.json'' = Inl ''FileNotFoundError''"
proof -
  have "py_dirname ''model.json'' = []" by code_simp
  then show "train (dummy_features d) (map dummy_label (dummy_features d)) = Inr m \<Longrightarrow>
   create_dummy_model True d train writable ''model.json'' = Inl ''FileNotFoundError''"
    by (simp add: create_dummy_model_def Let_def)
qed


section \<open>The drift report on the command line\<close>

definition summary_class :: "string \<Rightarrow> string \<Rightarrow> string \<Rightarrow> string list \<Rightarrow> part list" where
  "summary_class sign label bullet fs =
     (if fs = [] then []
      else [Sign sign, Plain (label @ show_nat (length fs)), line_end]
        @ concat (map (\<lambda>f. [Plain (''   '' @ bullet @ '' '' @ f), line_end]) (take 5 fs))
        @ (if length fs > 5 then [Plain (''   ...and '' @ show_nat (length fs - 5) @ '' more''), line_end] else []))"

definition print_summary :: "drift_report \<Rightarrow> part list" where
  "print_summary r =
     [line_end, Sign ''chart'', Plain '' Drift Analysis Report'', line_end, Plain (replicate 40 (CHR ''='')), line_end,
      Sign ''check'', Plain ('' Unchanged: '' @ show_nat (dr_unchanged r)), line_end]
     @ summary_class ''sparkles'' '' New Files: '' ''+'' (dr_new r)
     @ summary_class ''memo'' '' Modified:  '' ''~'' (dr_modified r)
     @ summary_class ''bin'' ''  Deleted:   '' ''-'' (dr_deleted r)
     @ [Plain (replicate 40 (CHR ''='')), line_end, Plain (''Status: '' @ (if dr_conflict r then ''CONFLICT'' else ''CLEAN'')), line_end]"

record drift_args =
  da_source :: "node list option"
  da_target :: "node list option"
  da_json_only :: bool
  da_exit_on_conflict :: bool
  da_writable :: bool

text \<open>How the script ends, the summary it printed and the report it saved; a path that does not exist is \<open>None\<close>.\<close>

definition drift_main :: "drift_args \<Rightarrow> ending \<times> part list \<times> drift_report option" where
  "drift_main a =
     (case (da_source a, da_target a) of
        (Some s, Some t) \<Rightarrow>
          (let r = detect_drift default_ignore s t; shown = (if da_json_only a then [] else print_summary r) in
           if \<not> da_writable a then (Uncaught ''FileNotFoundError'', shown, None)
           else (Exit_code (if da_exit_on_conflict a \<and> dr_conflict r then 1 else 0), shown, Some r))
      | _ \<Rightarrow> (Exit_code 1, [], None))"

lemma drift_main_exit:
  "da_writable a \<Longrightarrow> fst (drift_main a) = Exit_code (nat (detect_conflicts_main (da_exit_on_conflict a) (da_source a) (da_target a)))"
  by (auto simp: drift_main_def detect_conflicts_main_def Let_def split: option.split)

text \<open>The exit code of a conflict is that of a path that does not exist.\<close>

lemma missing_path_looks_like_conflict: "fst (drift_main (a\<lparr>da_source := None\<rparr>)) = Exit_code 1"
  by (simp add: drift_main_def)

text \<open>At most five names of each class are shown.\<close>

definition shown_names :: "part list \<Rightarrow> string list" where
  "shown_names ps = concat (map (\<lambda>p. case p of Plain t \<Rightarrow> if take 3 t = ''   '' \<and> take 4 t \<noteq> ''   .'' then [drop 5 t] else [] | Sign s \<Rightarrow> []) ps)"

lemma shown_names_append [simp]: "shown_names [] = []" "shown_names (a @ b) = shown_names a @ shown_names b"
  by (simp_all add: shown_names_def)

lemma shown_names_class:
  assumes "bullet \<in> {''+'', ''~'', ''-''}" "label \<in> {'' New Files: '', '' Modified:  '', ''  Deleted:   ''}"
  shows "shown_names (summary_class sign label bullet fs) = take 5 fs"
proof -
  have "shown_names (concat (map (\<lambda>f. [Plain (''   '' @ bullet @ '' '' @ f), line_end]) gs)) = gs" for gs
    using assms(1) by (induction gs) (auto simp: shown_names_def line_end_def)
  moreover have "shown_names [Sign sign, Plain (label @ x), line_end] = []" for x
    using assms(2) by (auto simp: shown_names_def line_end_def)
  moreover have "shown_names [Plain (''   ...and '' @ x), line_end] = []" for x
    by (simp add: shown_names_def line_end_def)
  ultimately show ?thesis by (simp add: summary_class_def del: append_Cons)
qed

lemma summary_shows_first_five:
  "shown_names (print_summary r) = take 5 (dr_new r) @ take 5 (dr_modified r) @ take 5 (dr_deleted r)"
proof -
  have "replicate 3 (CHR ''='') \<noteq> ''   ''" by code_simp
  then have "shown_names [line_end, Sign s, Plain '' Drift Analysis Report'', line_end, Plain (replicate 40 (CHR ''='')), line_end,
      Sign u, Plain ('' Unchanged: '' @ x), line_end] = []"
    "shown_names [Plain (replicate 40 (CHR ''='')), line_end, Plain (''Status: '' @ x), line_end] = []" for s u x
    by (simp_all add: shown_names_def line_end_def)
  then show ?thesis by (simp add: print_summary_def shown_names_class del: append_Cons)
qed

text \<open>The report is saved in the working directory under a name that is not ignored: run in the target, a clean comparison is a
  conflict the next time.\<close>

lemma report_is_drift:
  "dr_conflict (detect_drift default_ignore [File ''a'' ''x''] [File ''a'' ''x'']) = False
   \<and> dr_deleted (detect_drift default_ignore [File ''a'' ''x''] [File ''a'' ''x'', File ''conflicts.json'' c]) = [''conflicts.json'']"
  by (simp add: detect_drift_def get_all_files_def default_ignore_def compare_file_def Let_def)

end
