(* ===== verification/ReportCsv.thy ===== *)
theory ReportCsv
  imports NccReports CsvWriter
begin

text \<open>
  The CSV files of the regulator's daily report, \<open>services/ncc-integration/report_generator.py\<close>, with the writer of theory
  \<open>CsvWriter\<close> in place of the parameter of theory \<open>NccReports\<close>. \<open>cell\<close> is the text of a value, \<open>str\<close> but for
  \<open>None\<close>, which is empty.
\<close>

section \<open>Dictionaries as rows\<close>

text \<open>\<open>DictWriter\<close>: a key that is no field raises, a field without a key is empty.\<close>

definition dict_writer_row :: "string list \<Rightarrow> (string \<times> py_val) list \<Rightarrow> string + py_val list" where
  "dict_writer_row names d =
     (if list_all (\<lambda>k. k \<in> set names) (map fst d)
      then Inr (map (\<lambda>n. case map_of d n of Some v \<Rightarrow> v | None \<Rightarrow> PStr []) names) else Inl ''ValueError'')"

fun dict_writer_rows :: "string list \<Rightarrow> (string \<times> py_val) list list \<Rightarrow> string + py_val list list" where
  "dict_writer_rows names [] = Inr []"
| "dict_writer_rows names (d # ds) =
     (case dict_writer_row names d of Inl e \<Rightarrow> Inl e
      | Inr r \<Rightarrow> (case dict_writer_rows names ds of Inl e \<Rightarrow> Inl e | Inr rs \<Rightarrow> Inr (r # rs)))"

text \<open>Without rows only the fixed header is written; with rows the keys of the first one are the header.\<close>

definition generate_dicts_csv :: "(py_val \<Rightarrow> string) \<Rightarrow> string list \<Rightarrow> (string \<times> py_val) list list \<Rightarrow> string + string" where
  "generate_dicts_csv cell header ds =
     (case ds of
        [] \<Rightarrow> Inr (csv_write [header])
      | d # _ \<Rightarrow> (case dict_writer_rows (map fst d) ds of
           Inl e \<Rightarrow> Inl e
         | Inr rows \<Rightarrow> Inr (csv_write (map fst d # map (map cell) rows))))"

definition alert_names :: "string list" where
  "alert_names = [''alert_id'', ''detected_at'', ''severity'', ''b_number'', ''a_number_count'', ''detection_window_ms'',
     ''action_taken'', ''ncc_incident_id'']"

definition target_names :: "string list" where
  "target_names = [''rank'', ''b_number'', ''incident_count'', ''total_a_numbers'', ''first_incident'', ''last_incident'']"

definition generate_alerts_csv :: "(py_val \<Rightarrow> string) \<Rightarrow> (string \<times> py_val) list list \<Rightarrow> string + string" where
  "generate_alerts_csv cell alerts = generate_dicts_csv cell alert_names alerts"

definition generate_targets_csv :: "(py_val \<Rightarrow> string) \<Rightarrow> (string \<times> py_val) list list \<Rightarrow> string + string" where
  "generate_targets_csv cell targets = generate_dicts_csv cell target_names targets"

definition generate_statistics_csv :: "(py_val \<Rightarrow> string) \<Rightarrow> report_format \<Rightarrow> daily_statistics \<Rightarrow> int \<Rightarrow> string" where
  "generate_statistics_csv cell F s day = csv_write (map (map cell) (statistics_rows F s day))"

text \<open>What the queries return: a dictionary for each row.\<close>

definition alert_dicts :: "report_format \<Rightarrow> alert_row list \<Rightarrow> (string \<times> py_val) list list" where
  "alert_dicts F rows = map (zip alert_names) (alert_details F rows)"

definition target_dicts :: "report_format \<Rightarrow> target_row list \<Rightarrow> (string \<times> py_val) list list" where
  "target_dicts F rows = map (zip target_names) (target_details F rows)"


section \<open>The files\<close>

lemma dict_writer_row_zip:
  assumes "distinct names" "length v = length names"
  shows "dict_writer_row names (zip names v) = Inr v"
proof -
  have "map_of (zip names v) (names ! i) = Some (v ! i)" if "i < length names" for i
    using assms that by (simp add: map_of_zip_nth)
  then have "map (\<lambda>n. case map_of (zip names v) n of Some v \<Rightarrow> v | None \<Rightarrow> PStr []) names = v"
    using assms(2) by (intro nth_equalityI) simp_all
  moreover have "list_all (\<lambda>k. k \<in> set names) (map fst (zip names v))" using assms(2) by (simp add: list_all_iff)
  ultimately show ?thesis by (simp add: dict_writer_row_def)
qed

lemma dict_writer_rows_zip:
  "distinct names \<Longrightarrow> list_all (\<lambda>v. length v = length names) vs \<Longrightarrow> dict_writer_rows names (map (zip names) vs) = Inr vs"
  by (induction vs) (simp_all add: dict_writer_row_zip)

lemma generate_dicts_rows:
  assumes "distinct names" "list_all (\<lambda>v. length v = length names) vs"
  shows "generate_dicts_csv cell names (map (zip names) vs) = Inr (csv_write (names # map (map cell) vs))"
proof (cases vs)
  case (Cons v ws)
  then have "map fst (zip names v) = names" using assms(2) by simp
  then show ?thesis using dict_writer_rows_zip [OF assms] Cons by (simp add: generate_dicts_csv_def del: dict_writer_rows.simps)
qed (simp add: generate_dicts_csv_def)

lemma alerts_csv: "generate_alerts_csv cell (alert_dicts F rows) = Inr (csv_write (alert_names # map (map cell) (alert_details F rows)))"
proof -
  have "distinct alert_names" by code_simp
  then show ?thesis
    unfolding generate_alerts_csv_def alert_dicts_def
    by (rule generate_dicts_rows) (simp add: alert_details_def alert_names_def list_all_iff)
qed

lemma targets_csv: "generate_targets_csv cell (target_dicts F rows) = Inr (csv_write (target_names # map (map cell) (target_details F rows)))"
proof -
  have "distinct target_names" by code_simp
  then show ?thesis
    unfolding generate_targets_csv_def target_dicts_def
    by (rule generate_dicts_rows) (auto simp: target_details_def target_names_def list_all_iff)
qed

text \<open>With this writer as the parameter, the report writes the same files.\<close>

definition csv_format :: "(py_val \<Rightarrow> string) \<Rightarrow> report_format \<Rightarrow> report_format" where
  "csv_format cell F = F\<lparr>csv_text := (\<lambda>rows. csv_write (map (map cell) rows))\<rparr>"

lemma report_uses_writer:
  assumes "\<And>s. cell (PStr s) = s"
  shows "generate_alerts_csv cell (alert_dicts F alerts) = Inr (csv_text (csv_format cell F) (alert_header # alert_details F alerts))"
    "generate_targets_csv cell (target_dicts F targets) = Inr (csv_text (csv_format cell F) (target_header # target_details F targets))"
    "generate_statistics_csv cell F s day = csv_text (csv_format cell F) (statistics_rows F s day)"
proof -
  have c: "map (\<lambda>s. cell (PStr s)) xs = xs" for xs using assms by simp
  show "generate_alerts_csv cell (alert_dicts F alerts) = Inr (csv_text (csv_format cell F) (alert_header # alert_details F alerts))"
    by (simp add: alerts_csv csv_format_def alert_header_def alert_names_def assms)
  show "generate_targets_csv cell (target_dicts F targets) = Inr (csv_text (csv_format cell F) (target_header # target_details F targets))"
    by (simp add: targets_csv csv_format_def target_header_def target_names_def assms)
  show "generate_statistics_csv cell F s day = csv_text (csv_format cell F) (statistics_rows F s day)"
    by (simp add: generate_statistics_csv_def csv_format_def)
qed

text \<open>C40: The files of a report are read back exactly, whatever text is in the rows, commas, quotes and line ends included: the header,
  then a row for each alert or target with the texts of its values.\<close>

theorem report_files_read_back:
  "(case generate_alerts_csv cell (alert_dicts F alerts) of Inl e \<Rightarrow> False
    | Inr t \<Rightarrow> csv_parse t = (alert_names # map (map cell) (alert_details F alerts), None))
   \<and> (case generate_targets_csv cell (target_dicts F targets) of Inl e \<Rightarrow> False
    | Inr t \<Rightarrow> csv_parse t = (target_names # map (map cell) (target_details F targets), None))
   \<and> csv_parse (generate_statistics_csv cell F s day) = (map (map cell) (statistics_rows F s day), None)"
  by (simp add: alerts_csv targets_csv csv_write_read generate_statistics_csv_def)

end
