(* ===== verification/Spec2Isabelle.thy ===== *)
theory Spec2Isabelle
  imports CircuitBreaker HealthCheck Detection Inference Jobs TrainingData ServerTasks
    SentinelOps MockData Guardrail Runners SyncCli GapAudit Engines IssueAgents FrontEngine Installer SetupCheck Documents
    SipApp CommandLines ReportCsv
begin

text \<open>
  VoxGuard detects telephone calls whose caller identity is masked: many numbers call one number within seconds, or
  one number calls very many for a few seconds each. This library models the Python services of the repository and
  proves what makes them correct.

  \<^bold>\<open>Parts.\<close> The SIP processor captures signalling, keeps call records and metrics, computes features and scores them;
  the domain layer turns a group of calls into a fraud alert with a life cycle; Sentinel does the same in batches over
  files of call records. The voice switch protects its calls of other services with a circuit breaker and reports its
  health. Archival moves old rows to an object store; the integration with the regulator (NCC) reports over an HTTP
  API and SFTP; the machine-learning pipeline trains, evaluates, compares and serves the models. Scripts install the
  automation in another repository, guard the repository itself, find out how it is built and run that; agents that
  run on a schedule assess and improve it with a language model, open issues, create repositories and request
  refactorings.

  \<^bold>\<open>Theories and code\<close> (paths below \<open>src/\<close>).

  \<^item> \<open>Prelude\<close>, \<open>Effects\<close>, \<open>PyText\<close>, \<open>PyFloat\<close>: dictionaries in insertion order, bounded lists, the machine locales;
    computations that may raise and keep what they wrote; \<open>str\<close>, \<open>round\<close> and \<open>int\<close> of Python; the rounding to a double.
  \<^item> \<open>PyJson\<close>, \<open>PyObjects\<close>: values of \<open>json\<close> and \<open>yaml\<close> whose type is not checked, and the exceptions of using them.
  \<^item> \<open>CircuitBreaker\<close>, \<open>HealthCheck\<close>: \<open>services/voice-switch\<close>. A breaker is a record; a call is split into its
    admission and its end, so that calls interleave as under \<open>asyncio\<close>.
  \<^item> \<open>ValueObjects\<close>, \<open>Entities\<close>, \<open>Events\<close>, \<open>Detection\<close>: \<open>services/sip-processor/app/domain\<close>: numbers, scores, calls,
    alerts, blacklist, event bus, detection and alert services.
  \<^item> \<open>SipParser\<close>, \<open>Cdr\<close>, \<open>Inference\<close>: \<open>app/signaling\<close>, \<open>app/cdr\<close>, \<open>app/inference\<close> and the analysis endpoints of
    \<open>app/api\<close>.
  \<^item> \<open>SipApp\<close>: \<open>app/main.py\<close>, \<open>app/config.py\<close>, \<open>app/dependencies.py\<close> and the endpoints that need them: which routes are
    served, the connections over restarts, the session around a request.
  \<^item> \<open>CsvReader\<close>, \<open>Sentinel\<close>, \<open>SentinelOps\<close>, \<open>MockData\<close>: \<open>app/sentinel\<close> over a model of the \<open>csv\<close> module: parser,
    tables, detection, endpoints; cache, monitor, batches, alert stream, metrics; the generator of test files.
  \<^item> \<open>Archival\<close>: \<open>services/data-archival\<close>. \<open>Atrs\<close>, \<open>NccReports\<close>: \<open>services/ncc-integration\<close>; \<open>CsvWriter\<close>, \<open>ReportCsv\<close>:
    the files of its report. \<open>Settings\<close>, \<open>Jobs\<close>: the \<open>config.py\<close> of both and of the pipeline; both schedulers, with
    their calendar.
  \<^item> \<open>ModelRegistry\<close>, \<open>Rollout\<close>, \<open>Training\<close>, \<open>TrainingData\<close>, \<open>ModelServer\<close>: \<open>services/ml-pipeline\<close>: registry, traffic
    splitter and deployment manager, collector, trainer, evaluator and retraining, the generated tables and their
    merge, inference server. \<open>ServerTasks\<close>: the batch processor of the server as interleaved tasks.
  \<^item> \<open>Guardrail\<close>, \<open>TechStack\<close>, \<open>SyncManager\<close>, \<open>SyncCli\<close>: \<open>scripts\<close>: the tier check of pull requests, the drift report,
    self-healing, the detection of a technology, the registry of derived repositories with its report and command
    line.
  \<^item> \<open>Installer\<close>, \<open>SetupCheck\<close>, \<open>Documents\<close>: \<open>scripts/install_remote.py\<close> over a model of a file system,
    \<open>scripts/verify_setup.py\<close>, and the scripts under \<open>docs\<close> that make presentations and a change log.
  \<^item> \<open>Runners\<close>, \<open>GapAudit\<close>: \<open>scripts/universal\<close> on top of the detection, \<open>scripts/architecture_audit.py\<close>.
  \<^item> \<open>RepoAgents\<close>, \<open>IssueAgents\<close>: \<open>scripts/agents\<close>: assessor and improver; code auditor and trend hunter.
  \<^item> \<open>FrontFiles\<close>, \<open>TextEdit\<close>, \<open>FrontEngine\<close>: \<open>scripts/agents/frontend_engine.py\<close>: the texts it writes; replacement in
    texts; scanning, scaffolding and synchronising a front end.
  \<^item> \<open>Engines\<close>: \<open>scripts/autonomous_growth.py\<close> and \<open>scripts/autonomous_janitor.py\<close>, with the manifest and the dashboard
    they share.
  \<^item> \<open>CommandLines\<close>: what starts the components: the decorator of the breaker, the bucket of the archive, the command
    lines of the test data and of the drift report, the model for tests.

  \<^bold>\<open>Conventions.\<close> A class is a record and a method a function of it; a method that awaits a service is a computation
  (theory \<open>Effects\<close>) whose exceptions are the left side of a sum, with the state at that moment. A finite \<open>float\<close> is a
  rational, with exact arithmetic except in the traffic splitter and the rollout, where what a comparison finds depends on
  the last bit and each operation is rounded to a double; an \<open>int\<close> is an integer, a natural number where it cannot be negative; a \<open>str\<close> is a
  list of characters with the code points 0 to 255. Clock readings, random draws, hashes and fresh identifiers are
  arguments. What is not in the repository is a parameter: database, object store, SFTP server, HTTP session,
  compression, hashing, JSON and dates, XGBoost, scikit-learn and pandas, the language model, processes and the file
  system. Where a theorem relies on one, a named predicate states its documented behaviour, and a witness instantiates
  it. The rows of the archive are the dictionaries the database driver makes; \<open>json.dumps\<close> with \<open>default=str\<close> makes text of what
  JSON does not have, and only for what it has is reading taken to be the inverse of writing. A loop that waits while it walks
  the connections of the alert stream is given, wait by wait, what other tasks do to them. A method that the code calls and no class defines is the \<open>AttributeError\<close> it raises. The SQL of Sentinel is part
  of the source: its tables are lists and its queries are functions of them.

  \<^bold>\<open>Termination.\<close> All loops are recursions on their data, with a measure where that is not structural (retries of the
  API client, slices of a list, the search for tick boxes); no definition needs fuel.

  \<^bold>\<open>What the lemmas show.\<close> The breaker refines an abstract breaker and keeps its counters in every interleaving; it
  opens at the threshold, fails fast and recovers. Registering calls raises an alert exactly at the threshold. Rows
  leave the database only behind the archive of all those selected, an archive is restored with times and decimals as text,
  expiry deletes only what has expired.
  Headers and files of call records are read back; an upload stores exactly the new calls, and repeating it is safe
  also after a failure half way; a detection run alerts exactly the callers the rule describes, and clients that
  stay connected are sent exactly those alerts whose broadcast no connecting or leaving client disturbs. The cache and the registry of repositories are maps. Uploads to the regulator are
  atomic, the API is called only after the files are delivered, retries are bounded. The model registry keeps its
  index and directories together and has one champion; a rollout promotes on evidence only, and one in doubles completes (by default in ten steps, not nine); the training set holds exactly the
  labelled rows in range, fraud rows repeated to three in ten; queued requests are
  answered at most once, in order when nothing interferes, and the rest is accounted for; what the regulator's files
  say is read back, whatever is in them. The tier check passes exactly the requests it should. The runners run what
  the detection found; an audit that is repeated opens no issue twice, a run of an agent opens at most one, what the
  auditor reads is bounded; a repository that the growth engine registers is one the janitor works on; synchronising a
  front end keeps its code, adds every resource and then has nothing left to do. An installation leaves its temporary
  directory nowhere and makes the automation of the target a copy of the factory's; the slides of a page are read
  back; a request that fails stores nothing, and the connections in use are never disposed ones. Where the code does
  not do what it means to, a theorem or lemma says what it does: a second alert that is lost, a broadcast that stops
  when a client leaves, rows deleted beyond the archived chunk, a rollout that moves no traffic, a retraining that never completes, a risk score that is always
  neutral, workflow files that escape their tier, an assessor that never reports a gap, a janitor that edits the
  oldest report, generated training data that is empty but for coincidences, an application that does not serve
  Sentinel, a failed synchronisation that exits with zero, an inference server that
  listens to nobody.

  \<^bold>\<open>Locales.\<close> \<open>step_machine\<close>, \<open>guarded_machine\<close> and \<open>monotone_machine\<close> lift what one operation keeps to every run,
  \<open>banding\<close> relates the severity scales to their scores; each component that has such a contract interprets it on its
  own operations.

  \<^bold>\<open>Not modelled.\<close> Logging and printing; the start of servers, timers and background tasks, whose bodies are modelled;
  the text of error messages unless a caller reads it; the last bit of floats elsewhere, nan and infinity; characters beyond
  Latin-1; expiry of Redis keys between two operations; failures of the connection in the queries of Sentinel. Left
  out as templates without logic: the wording of the prompts to a language model. The abstract repositories of
  \<open>domain/repositories\<close> declare methods that no class implements; those the services call are parameters. The runners
  for tests and lint repeat functions of the runner for builds, which are modelled once. The services in Go and Rust
  and the web applications are other programs.

  \<^bold>\<open>Plan.\<close> Every Python component is modelled. What could follow: expiry of Redis keys while the SIP processor runs,
  and failures of the connection in Sentinel's queries.
\<close>

end
